(* ===== verification/Opae_Prelude.thy ===== *)
theory Opae_Prelude
  imports Main "HOL-Library.Word" "HOL-Library.Monad_Syntax"
begin

unbundle bit_operations_syntax

section \<open>Prelude of the OPAE development\<close>

text \<open>
  What every component shares: the widths of the C integers, the result codes of
  the public API (\<^verbatim>\<open>fpga_result\<close> of \<^verbatim>\<open>include/opae/types_enum.h\<close>), the
  collections of facts the component theories fill, and generic lemmas on lists
  and words.
\<close>

type_synonym u8 = "8 word"
type_synonym u16 = "16 word"
type_synonym u32 = "32 word"
type_synonym u64 = "64 word"

datatype fpga_result =
    FPGA_OK
  | FPGA_INVALID_PARAM
  | FPGA_BUSY
  | FPGA_EXCEPTION
  | FPGA_NOT_FOUND
  | FPGA_NO_MEMORY
  | FPGA_NOT_SUPPORTED
  | FPGA_NO_DRIVER
  | FPGA_NO_DAEMON
  | FPGA_NO_ACCESS
  | FPGA_RECONF_ERROR

named_theorems alloc_facts
  \<open>interval and well-formedness facts of the address-space allocator\<close>
named_theorems wsid_facts
  \<open>facts of the workspace-id hash table\<close>
named_theorems token_facts
  \<open>reference-count facts of the wrapped tokens\<close>
named_theorems props_facts
  \<open>field and union facts of the properties objects\<close>

subsection \<open>Words as numbers\<close>

lemma unat_add_no_wrap:
  fixes a b :: "'w::len word"
  assumes "unat a + unat b < 2 ^ LENGTH('w)"
  shows "unat (a + b) = unat a + unat b"
  using assms by (simp add: unat_add_lem)

lemma unat_sub_le:
  fixes a b :: "'w::len word"
  assumes "b \<le> a"
  shows "unat (a - b) = unat a - unat b"
  using assms by (simp add: unat_sub)

lemma unat_less_64 [simp]: "unat (a :: u64) < 18446744073709551616"
  using unsigned_less [of a] by simp

lemma unat_eq_iff: "unat (a :: u64) = unat b \<longleftrightarrow> a = b"
  by (simp add: word_unat_eq_iff)

lemma ucast_u32_u64_u32 [simp]: "(ucast (ucast (x :: u32) :: u64) :: u32) = x"
  by (rule ucast_up_ucast_id) (simp add: is_up)

subsection \<open>Lists\<close>

lemma sorted_wrt_snoc:
  "sorted_wrt r (xs @ [x]) \<longleftrightarrow> sorted_wrt r xs \<and> (\<forall>y\<in>set xs. r y x)"
  by (simp add: sorted_wrt_append)

lemma take_drop_nth:
  "i < length xs \<Longrightarrow> xs = take i xs @ xs ! i # drop (Suc i) xs"
  by (rule id_take_nth_drop)

end
