(* ===== verification/Mem_Alloc.thy ===== *)
theory Mem_Alloc
  imports Opae_Prelude "HOL-Library.Multiset"
begin

section \<open>The address-space allocator (libopaemem/mem_alloc.c)\<close>

text \<open>
  \<^verbatim>\<open>struct mem_alloc\<close> holds two circular doubly linked lists with sentinel heads,
  \<open>free\<close> and \<open>allocated\<close>. Here each is the list of its nodes from
  \<open>head.next\<close> to \<open>head.prev\<close>; a node pointer is a split of that list
  around the node. Linking before the head is appending. Whether a call of
  \<^verbatim>\<open>malloc\<close> succeeds is an argument (\<open>ok\<close>) of the operation that makes it.
  Return codes are the C \<^verbatim>\<open>int\<close>s, and an output parameter is an option, None
  where the code does not write it.
\<close>

record mem_link =
  ml_address :: u64
  ml_size :: u64

record mem_alloc =
  ma_free :: "mem_link list"
  ma_allocated :: "mem_link list"

definition mem_link_alloc :: "u64 \<Rightarrow> u64 \<Rightarrow> mem_link" where
  "mem_link_alloc address sz = \<lparr>ml_address = address, ml_size = sz\<rparr>"

definition mem_alloc_init :: mem_alloc where
  "mem_alloc_init = \<lparr>ma_free = [], ma_allocated = []\<rparr>"

text \<open>
  \<^verbatim>\<open>mem_alloc_destroy\<close> frees every node of both lists, in order, and re-initialises;
  the model returns the nodes it frees.
\<close>

definition mem_alloc_destroy :: "mem_alloc \<Rightarrow> mem_link list \<times> mem_alloc" where
  "mem_alloc_destroy m = (ma_free m @ ma_allocated m, mem_alloc_init)"

text \<open>
  Coalescing the node \<open>l\<close> between \<open>pre\<close> and \<open>post\<close>. First the node before \<open>l\<close>
  is absorbed into \<open>l\<close>, then \<open>l\<close> is absorbed into the node after it. The sums are
  64-bit and wrap.
\<close>

definition coalesce_prev :: "mem_link list \<Rightarrow> mem_link \<Rightarrow> mem_link list \<times> mem_link" where
  "coalesce_prev pre l =
     (if pre \<noteq> [] then
        (let prev = last pre in
         if ml_address prev + ml_size prev = ml_address l
         then (butlast pre, l\<lparr>ml_address := ml_address prev, ml_size := ml_size l + ml_size prev\<rparr>)
         else (pre, l))
      else (pre, l))"

fun coalesce_next :: "mem_link \<Rightarrow> mem_link list \<Rightarrow> mem_link list" where
  "coalesce_next l [] = [l]"
| "coalesce_next l (nxt # post) =
     (if ml_address l + ml_size l = ml_address nxt
      then nxt\<lparr>ml_address := ml_address l, ml_size := ml_size nxt + ml_size l\<rparr> # post
      else l # nxt # post)"

definition mem_alloc_coalesce ::
  "mem_link list \<Rightarrow> mem_link \<Rightarrow> mem_link list \<Rightarrow> mem_link list" where
  "mem_alloc_coalesce pre l post =
     (if pre = [] \<and> post = [] then [l]
      else case coalesce_prev pre l of (pre', l') \<Rightarrow> pre' @ coalesce_next l' post)"

text \<open>The loop \<^verbatim>\<open>while ((address > p->address) && (p != &m->free)) p = p->next;\<close>\<close>

fun scan_free :: "u64 \<Rightarrow> mem_link list \<Rightarrow> mem_link list \<Rightarrow> mem_link list \<times> mem_link list" where
  "scan_free address pre [] = (pre, [])"
| "scan_free address pre (p # ps) =
     (if address > ml_address p then scan_free address (pre @ [p]) ps else (pre, p # ps))"

text \<open>
  Every iteration of the first loop of \<^verbatim>\<open>mem_alloc_add_free\<close> leaves it (two returns
  and a break), so it looks at the first free node only.
\<close>

definition mem_alloc_add_free :: "bool \<Rightarrow> mem_alloc \<Rightarrow> u64 \<Rightarrow> u64 \<Rightarrow> int \<times> mem_alloc" where
  "mem_alloc_add_free ok m address sz =
     (if \<not> ok then (1, m)
      else
        (let node = mem_link_alloc address sz;
             rest = (case scan_free address [] (ma_free m) of (pre, post) \<Rightarrow>
                       (0, m\<lparr>ma_free := mem_alloc_coalesce pre node post\<rparr>))
         in case ma_free m of
              [] \<Rightarrow> rest
            | p # ps \<Rightarrow>
                (if address < ml_address p
                 then (0, m\<lparr>ma_free := mem_alloc_coalesce [] node (p # ps)\<rparr>)
                 else if address = ml_address p then (2, m)
                 else rest)))"

definition mem_alloc_allocate_node ::
  "bool \<Rightarrow> mem_alloc \<Rightarrow> nat \<Rightarrow> u64 \<Rightarrow> int \<times> u64 option \<times> mem_alloc" where
  "mem_alloc_allocate_node ok m i sz =
     (let node = ma_free m ! i in
      if ml_size node = sz then
        (0, Some (ml_address node),
         m\<lparr>ma_free := take i (ma_free m) @ drop (Suc i) (ma_free m),
           ma_allocated := ma_allocated m @ [node]\<rparr>)
      else if \<not> ok then (1, None, m)
      else
        (0, Some (ml_address node),
         m\<lparr>ma_free := (ma_free m)[i := node\<lparr>ml_address := ml_address node + sz,
                                           ml_size := ml_size node - sz\<rparr>],
           ma_allocated := ma_allocated m @ [mem_link_alloc (ml_address node) sz]\<rparr>))"

fun first_fit :: "u64 \<Rightarrow> nat \<Rightarrow> mem_link list \<Rightarrow> nat option" where
  "first_fit sz i [] = None"
| "first_fit sz i (p # ps) = (if sz \<le> ml_size p then Some i else first_fit sz (Suc i) ps)"

definition mem_alloc_get :: "bool \<Rightarrow> mem_alloc \<Rightarrow> u64 \<Rightarrow> int \<times> u64 option \<times> mem_alloc" where
  "mem_alloc_get ok m sz =
     (case first_fit sz 0 (ma_free m) of
        Some i \<Rightarrow> mem_alloc_allocate_node ok m i sz
      | None \<Rightarrow> (1, None, m))"

definition mem_alloc_free_node :: "bool \<Rightarrow> mem_alloc \<Rightarrow> nat \<Rightarrow> int \<times> mem_alloc" where
  "mem_alloc_free_node ok m i =
     (let node = ma_allocated m ! i in
      mem_alloc_add_free ok
        (m\<lparr>ma_allocated := take i (ma_allocated m) @ drop (Suc i) (ma_allocated m)\<rparr>)
        (ml_address node) (ml_size node))"

fun find_allocated :: "u64 \<Rightarrow> nat \<Rightarrow> mem_link list \<Rightarrow> nat option" where
  "find_allocated address i [] = None"
| "find_allocated address i (p # ps) =
     (if address = ml_address p then Some i else find_allocated address (Suc i) ps)"

definition mem_alloc_put :: "bool \<Rightarrow> mem_alloc \<Rightarrow> u64 \<Rightarrow> int \<times> mem_alloc" where
  "mem_alloc_put ok m address =
     (case find_allocated address 0 (ma_allocated m) of
        Some i \<Rightarrow> mem_alloc_free_node ok m i
      | None \<Rightarrow> (1, m))"

subsection \<open>Blocks as intervals\<close>

definition lo :: "mem_link \<Rightarrow> nat" where
  "lo l = unat (ml_address l)"

definition hi :: "mem_link \<Rightarrow> nat" where
  "hi l = unat (ml_address l) + unat (ml_size l)"

definition block :: "mem_link \<Rightarrow> nat set" where
  "block l = {lo l ..< hi l}"

text \<open>
  A node is well formed when it is not empty and ends below \<open>2 ^ 64\<close>. A node that ends at
  \<open>2 ^ 64\<close> exactly is left out, because merging such nodes can reach the size \<open>2 ^ 64\<close>,
  which the 64-bit size field stores as 0 (see \<open>coalesce_whole_space_lost\<close> below).
\<close>

definition wf_link :: "mem_link \<Rightarrow> bool" where
  "wf_link l \<longleftrightarrow> 0 < unat (ml_size l) \<and> hi l < 2 ^ 64"

text \<open>
  A free list is canonical when its nodes are well formed, in order of address, and
  no two of them touch.
\<close>

definition canonical :: "mem_link list \<Rightarrow> bool" where
  "canonical xs \<longleftrightarrow> (\<forall>l\<in>set xs. wf_link l) \<and> sorted_wrt (\<lambda>a b. hi a < lo b) xs"

definition space :: "mem_link list \<Rightarrow> nat set" where
  "space xs = (\<Union>l\<in>set xs. block l)"

lemma space_simps [simp]:
  "space [] = {}"
  "space (l # xs) = block l \<union> space xs"
  "space (xs @ ys) = space xs \<union> space ys"
  by (auto simp: space_def)

lemma wf_linkD [alloc_facts]: "wf_link l \<Longrightarrow> lo l < hi l"
  by (simp add: wf_link_def lo_def hi_def)

lemma wf_link_hi [alloc_facts]: "wf_link l \<Longrightarrow> hi l < 2 ^ 64"
  by (simp add: wf_link_def)

lemma hi_eq: "hi l = lo l + unat (ml_size l)"
  by (simp add: hi_def lo_def)

lemma block_nonempty: "wf_link l \<Longrightarrow> block l \<noteq> {}"
  using wf_linkD by (force simp: block_def)

lemma lo_less_64: "lo l < 2 ^ 64"
  by (simp add: lo_def)

lemma less_address_iff: "ml_address a < ml_address b \<longleftrightarrow> lo a < lo b"
  by (simp add: lo_def word_less_nat_alt)

lemma disjoint_blocks_ordered:
  assumes "wf_link a" "wf_link b" "block a \<inter> block b = {}"
  shows "hi a \<le> lo b \<or> hi b \<le> lo a"
proof (rule ccontr)
  assume "\<not> ?thesis"
  then have "max (lo a) (lo b) \<in> block a \<inter> block b"
    using wf_linkD [OF assms(1)] wf_linkD [OF assms(2)] by (auto simp: block_def)
  with assms(3) show False by simp
qed

text \<open>
  The comparison \<^verbatim>\<open>prev->address + prev->size == l->address\<close> is made modulo \<open>2 ^ 64\<close>, but
  for well-formed nodes it says exactly that the blocks touch.
\<close>

lemma unat_end: "wf_link a \<Longrightarrow> unat (ml_address a + ml_size a) = hi a"
  using wf_link_hi [of a] by (simp add: hi_def unat_add_no_wrap)

lemma touch_iff:
  "wf_link a \<Longrightarrow> ml_address a + ml_size a = ml_address b \<longleftrightarrow> hi a = lo b"
  by (simp add: word_unat_eq_iff unat_end lo_def)

text \<open>Two touching nodes become one that covers both.\<close>

lemma merged:
  assumes "wf_link a" "wf_link b" "hi a = lo b"
    and "ml_address c = ml_address a" "ml_size c = ml_size b + ml_size a"
  shows "wf_link c" "lo c = lo a" "hi c = hi b" "block c = block a \<union> block b"
proof -
  have sum: "lo a + (unat (ml_size a) + unat (ml_size b)) = hi b"
    using assms(3) by (simp add: hi_eq)
  then have "unat (ml_size a) + unat (ml_size b) < 2 ^ 64"
    using wf_link_hi [OF assms(2)] by linarith
  then have size: "unat (ml_size c) = unat (ml_size a) + unat (ml_size b)"
    using assms(5) by (simp add: unat_add_no_wrap)
  show l: "lo c = lo a" using assms(4) by (simp add: lo_def)
  show h: "hi c = hi b" using sum l size by (simp add: hi_eq)
  show "wf_link c" using size h assms(1,2) by (simp add: wf_link_def)
  show "block c = block a \<union> block b"
    using l h assms(3) wf_linkD [OF assms(1)] wf_linkD [OF assms(2)] by (auto simp: block_def)
qed

subsection \<open>Coalescing keeps the list canonical and the space covered\<close>

lemma canonical_Nil [simp]: "canonical []"
  by (simp add: canonical_def)

lemma canonical_Cons:
  "canonical (l # xs) \<longleftrightarrow> wf_link l \<and> canonical xs \<and> (\<forall>b\<in>set xs. hi l < lo b)"
  by (auto simp: canonical_def)

lemma canonical_append:
  "canonical (xs @ ys) \<longleftrightarrow> canonical xs \<and> canonical ys \<and> (\<forall>a\<in>set xs. \<forall>b\<in>set ys. hi a < lo b)"
  by (auto simp: canonical_def sorted_wrt_append)

lemma canonical_wf: "canonical xs \<Longrightarrow> l \<in> set xs \<Longrightarrow> wf_link l"
  by (simp add: canonical_def)

lemma coalesce_prev_ok:
  assumes "canonical pre" "wf_link l" "\<forall>p\<in>set pre. hi p \<le> lo l"
    and "coalesce_prev pre l = (pre', l')"
  shows "canonical pre'" "wf_link l'" "\<forall>p\<in>set pre'. hi p < lo l'" "hi l' = hi l"
    "space pre' \<union> block l' = space pre \<union> block l"
proof -
  have "canonical pre' \<and> wf_link l' \<and> (\<forall>p\<in>set pre'. hi p < lo l') \<and> hi l' = hi l
      \<and> space pre' \<union> block l' = space pre \<union> block l"
  proof (cases pre rule: rev_cases)
    case Nil
    with assms show ?thesis by (auto simp: coalesce_prev_def)
  next
    case (snoc ys p)
    with assms have p: "wf_link p" "canonical ys" "\<forall>y\<in>set ys. hi y < lo p" "hi p \<le> lo l"
      by (auto simp: canonical_append canonical_Cons)
    show ?thesis
    proof (cases "hi p = lo l")
      case True
      with assms(4) snoc p have pl: "pre' = ys" "ml_address l' = ml_address p"
          "ml_size l' = ml_size l + ml_size p"
        by (auto simp: coalesce_prev_def touch_iff)
      from merged [OF p(1) assms(2) True pl(2,3)] p pl(1) snoc show ?thesis by auto
    next
      case False
      with assms(4) snoc p have pl: "pre' = pre" "l' = l"
        by (auto simp: coalesce_prev_def touch_iff)
      have "\<forall>y\<in>set ys. hi y < lo l"
        using p(3,4) wf_linkD [OF p(1)] by fastforce
      with pl snoc False p(4) assms(1,2) show ?thesis by auto
    qed
  qed
  then show "canonical pre'" "wf_link l'" "\<forall>p\<in>set pre'. hi p < lo l'" "hi l' = hi l"
    "space pre' \<union> block l' = space pre \<union> block l" by simp_all
qed

lemma coalesce_next_ok:
  assumes "canonical post" "wf_link l" "\<forall>q\<in>set post. hi l \<le> lo q"
  shows "canonical (coalesce_next l post)"
    "space (coalesce_next l post) = block l \<union> space post"
    "\<forall>x\<in>set (coalesce_next l post). lo l \<le> lo x"
proof -
  have "canonical (coalesce_next l post) \<and> space (coalesce_next l post) = block l \<union> space post
      \<and> (\<forall>x\<in>set (coalesce_next l post). lo l \<le> lo x)"
  proof (cases post)
    case Nil
    with assms show ?thesis by (simp add: canonical_Cons)
  next
    case (Cons q qs)
    with assms have q: "wf_link q" "canonical qs" "\<forall>y\<in>set qs. hi q < lo y" "hi l \<le> lo q"
      by (auto simp: canonical_Cons)
    show ?thesis
    proof (cases "hi l = lo q")
      case True
      let ?c = "q\<lparr>ml_address := ml_address l, ml_size := ml_size q + ml_size l\<rparr>"
      have c: "wf_link ?c" "lo ?c = lo l" "hi ?c = hi q" "block ?c = block l \<union> block q"
        by (rule merged [OF assms(2) q(1) True]; simp)+
      have "\<forall>y\<in>set qs. lo l \<le> lo y"
        using q True wf_linkD [OF q(1)] wf_linkD [OF assms(2)] by fastforce
      with c q Cons True assms(2) show ?thesis
        by (simp add: canonical_Cons touch_iff Un_assoc)
    next
      case False
      have "\<forall>y\<in>set qs. hi l < lo y"
        using q False wf_linkD [OF q(1)] by fastforce
      with q False assms Cons wf_linkD [OF assms(2)] show ?thesis
        by (auto simp: canonical_Cons touch_iff)
    qed
  qed
  then show "canonical (coalesce_next l post)"
    "space (coalesce_next l post) = block l \<union> space post"
    "\<forall>x\<in>set (coalesce_next l post). lo l \<le> lo x" by simp_all
qed

lemma mem_alloc_coalesce_eq:
  "mem_alloc_coalesce pre l post =
     (case coalesce_prev pre l of (pre', l') \<Rightarrow> pre' @ coalesce_next l' post)"
  by (auto simp: mem_alloc_coalesce_def coalesce_prev_def)

lemma mem_alloc_coalesce_ok:
  assumes "canonical pre" "canonical post" "wf_link l"
    and "\<forall>p\<in>set pre. hi p \<le> lo l" "\<forall>q\<in>set post. hi l \<le> lo q"
  shows "canonical (mem_alloc_coalesce pre l post)"
    "space (mem_alloc_coalesce pre l post) = space pre \<union> block l \<union> space post"
proof -
  obtain pre' l' where p: "coalesce_prev pre l = (pre', l')" by fastforce
  note prev = coalesce_prev_ok [OF assms(1,3,4) p]
  have "\<forall>q\<in>set post. hi l' \<le> lo q" using assms(5) prev(4) by simp
  note next_ok = coalesce_next_ok [OF assms(2) prev(2) this]
  show "canonical (mem_alloc_coalesce pre l post)"
    using prev next_ok by (fastforce simp: mem_alloc_coalesce_eq p canonical_append)
  show "space (mem_alloc_coalesce pre l post) = space pre \<union> block l \<union> space post"
    using prev(5) next_ok(2) by (auto simp: mem_alloc_coalesce_eq p)
qed

subsection \<open>Adding a region\<close>

lemma scan_free_eq:
  "scan_free a pre ps = (pre @ takeWhile (\<lambda>p. ml_address p < a) ps,
                         dropWhile (\<lambda>p. ml_address p < a) ps)"
  by (induction ps arbitrary: pre) auto

text \<open>
  A region that is disjoint from the free space goes in at one place: after the nodes
  that end before it and before the nodes that start after it.
\<close>

lemma scan_free_split:
  assumes "canonical xs" "wf_link l" "block l \<inter> space xs = {}"
  shows "\<forall>p\<in>set (takeWhile (\<lambda>p. ml_address p < ml_address l) xs). hi p \<le> lo l"
    "\<forall>q\<in>set (dropWhile (\<lambda>p. ml_address p < ml_address l) xs). hi l \<le> lo q"
  using assms
proof (induction xs)
  case Nil
  { case 1 show ?case by simp next case 2 show ?case by simp }
next
  case (Cons x xs)
  have order: "hi x \<le> lo l \<or> hi l \<le> lo x"
    if "canonical (x # xs)" "wf_link l" "block l \<inter> space (x # xs) = {}"
    using that by (intro disjoint_blocks_ordered) (auto simp: canonical_Cons)
  { case 1
    then show ?case
      using Cons.IH(1) order wf_linkD [of l]
      by (fastforce simp: canonical_Cons less_address_iff) }
  { case 2
    then show ?case
    proof (cases "lo x < lo l")
      case True
      with 2 Cons.IH(2) show ?thesis by (auto simp: canonical_Cons less_address_iff)
    next
      case False
      have wx: "wf_link x" using 2 by (simp add: canonical_Cons)
      from False 2 order wf_linkD [OF wx] have "hi l \<le> lo x" by fastforce
      moreover have "\<forall>y\<in>set xs. hi x < lo y" using 2 by (simp add: canonical_Cons)
      ultimately show ?thesis using False wf_linkD [OF wx] by (auto simp: less_address_iff)
    qed }
qed

definition mem_alloc_inv :: "mem_alloc \<Rightarrow> bool" where
  "mem_alloc_inv m \<longleftrightarrow>
     canonical (ma_free m) \<and>
     (\<forall>l\<in>set (ma_allocated m). wf_link l) \<and>
     sorted_wrt (\<lambda>a b. block a \<inter> block b = {}) (ma_allocated m) \<and>
     space (ma_allocated m) \<inter> space (ma_free m) = {}"

lemma mem_alloc_inv_init: "mem_alloc_inv mem_alloc_init"
  by (simp add: mem_alloc_inv_def mem_alloc_init_def)

lemma add_free_insert:
  assumes "canonical (ma_free m)" "wf_link (mem_link_alloc a s)"
    and "block (mem_link_alloc a s) \<inter> space (ma_free m) = {}"
  obtains fs where "mem_alloc_add_free True m a s = (0, m\<lparr>ma_free := fs\<rparr>)"
    "canonical fs" "space fs = space (ma_free m) \<union> block (mem_link_alloc a s)"
proof -
  let ?l = "mem_link_alloc a s"
  let ?pre = "takeWhile (\<lambda>p. ml_address p < a) (ma_free m)"
  let ?post = "dropWhile (\<lambda>p. ml_address p < a) (ma_free m)"
  have a: "ml_address ?l = a" by (simp add: mem_link_alloc_def)
  note split = scan_free_split [OF assms, unfolded a]
  have c: "canonical ?pre" "canonical ?post" "space ?pre \<union> space ?post = space (ma_free m)"
    using assms(1) canonical_append [of ?pre ?post] space_simps(3) [of ?pre ?post]
    by (simp_all del: space_simps)
  have not_head: "ml_address (hd (ma_free m)) \<noteq> a" if "ma_free m \<noteq> []"
  proof
    assume eq: "ml_address (hd (ma_free m)) = a"
    have h: "hd (ma_free m) \<in> set (ma_free m)" using that by simp
    have "lo (hd (ma_free m)) < hi (hd (ma_free m))"
      by (rule wf_linkD [OF canonical_wf [OF assms(1) h]])
    moreover have "lo ?l = lo (hd (ma_free m))" using eq a by (simp add: lo_def)
    ultimately have "lo ?l \<in> block (hd (ma_free m))" by (simp add: block_def)
    then have "lo ?l \<in> space (ma_free m)" using h by (auto simp: space_def)
    moreover have "lo ?l \<in> block ?l" using wf_linkD [OF assms(2)] by (simp add: block_def)
    ultimately show False using assms(3) by blast
  qed
  have "mem_alloc_add_free True m a s =
      (0, m\<lparr>ma_free := mem_alloc_coalesce ?pre ?l ?post\<rparr>)"
    using not_head
    by (auto simp: mem_alloc_add_free_def scan_free_eq Let_def split: list.splits)
  moreover have "canonical (mem_alloc_coalesce ?pre ?l ?post)"
    by (rule mem_alloc_coalesce_ok [OF c(1,2) assms(2) split])
  moreover have "space (mem_alloc_coalesce ?pre ?l ?post) = space (ma_free m) \<union> block ?l"
    using mem_alloc_coalesce_ok(2) [OF c(1,2) assms(2) split] c(3) by auto
  ultimately show thesis by (rule that)
qed

lemma add_free_inv:
  assumes "mem_alloc_inv m" "wf_link (mem_link_alloc a s)"
    and "block (mem_link_alloc a s) \<inter> (space (ma_free m) \<union> space (ma_allocated m)) = {}"
    and "mem_alloc_add_free True m a s = (r, m')"
  shows "r = 0" "mem_alloc_inv m'" "ma_allocated m' = ma_allocated m"
    "space (ma_free m') = space (ma_free m) \<union> block (mem_link_alloc a s)"
proof -
  have c: "canonical (ma_free m)" using assms(1) by (simp add: mem_alloc_inv_def)
  have d: "block (mem_link_alloc a s) \<inter> space (ma_free m) = {}" using assms(3) by blast
  obtain fs where fs: "mem_alloc_add_free True m a s = (0, m\<lparr>ma_free := fs\<rparr>)"
      "canonical fs" "space fs = space (ma_free m) \<union> block (mem_link_alloc a s)"
    by (rule add_free_insert [OF c assms(2) d])
  then have m': "r = 0" "m' = m\<lparr>ma_free := fs\<rparr>" using assms(4) by simp_all
  show "r = 0" "ma_allocated m' = ma_allocated m"
    "space (ma_free m') = space (ma_free m) \<union> block (mem_link_alloc a s)"
    using m' fs(3) by simp_all
  show "mem_alloc_inv m'"
    using assms(1,3) m' fs(2,3) by (auto simp: mem_alloc_inv_def)
qed

subsection \<open>A canonical free list is determined by the space it covers\<close>

lemma canonical_least:
  assumes "canonical (x # xs)" "n \<in> space (x # xs)"
  shows "lo x \<le> n"
proof -
  have "wf_link x" "\<forall>b\<in>set xs. hi x < lo b" using assms(1) by (auto simp: canonical_Cons)
  with assms(2) wf_linkD show ?thesis by (fastforce simp: space_def block_def)
qed

lemma canonical_gap: "canonical (x # xs) \<Longrightarrow> hi x \<notin> space (x # xs)"
  by (fastforce simp: canonical_Cons space_def block_def)

lemma canonical_disjoint: "canonical (x # xs) \<Longrightarrow> block x \<inter> space xs = {}"
  by (fastforce simp: canonical_Cons space_def block_def)

lemma canonical_hd_hi_le:
  assumes "canonical (x # xs)" "canonical (y # ys)" "space (x # xs) = space (y # ys)" "lo x = lo y"
  shows "hi y \<le> hi x"
proof (rule ccontr)
  assume "\<not> hi y \<le> hi x"
  moreover have "lo x < hi x" using assms(1) wf_linkD by (simp add: canonical_Cons)
  ultimately have "hi x \<in> space (y # ys)" using assms(4) by (simp add: block_def)
  with canonical_gap [OF assms(1)] show False unfolding assms(3) by blast
qed

lemma canonical_lo_in: "canonical (x # xs) \<Longrightarrow> lo x \<in> space (x # xs)"
  using wf_linkD by (simp add: canonical_Cons block_def)

lemma mem_link_eqI: "lo a = lo b \<Longrightarrow> hi a = hi b \<Longrightarrow> a = (b :: mem_link)"
  by (simp add: lo_def hi_def unat_eq_iff)

lemma space_empty_iff: "canonical xs \<Longrightarrow> space xs = {} \<longleftrightarrow> xs = []"
  by (cases xs) (auto simp: canonical_Cons dest: block_nonempty)

lemma canonical_unique:
  "canonical xs \<Longrightarrow> canonical ys \<Longrightarrow> space xs = space ys \<Longrightarrow> xs = ys"
proof (induction xs arbitrary: ys)
  case Nil
  then show ?case using space_empty_iff [of ys] by simp
next
  case (Cons x xs)
  then obtain y ys' where ys: "ys = y # ys'"
    using space_empty_iff [of "x # xs"] by (cases ys) auto
  note cx = Cons.prems(1) and cy = Cons.prems(2) [unfolded ys]
    and sp = Cons.prems(3) [unfolded ys]
  have l: "lo x = lo y"
    using canonical_least [OF cx] canonical_least [OF cy] canonical_lo_in [OF cx]
      canonical_lo_in [OF cy] sp by (metis le_antisym)
  have "hi x = hi y"
    using canonical_hd_hi_le [OF cx cy sp l] canonical_hd_hi_le [OF cy cx sp [symmetric] l [symmetric]]
    by simp
  with l have xy: "x = y" by (rule mem_link_eqI)
  have "space xs = space ys'"
    using sp canonical_disjoint [OF cx] canonical_disjoint [OF cy] xy by auto
  then have "xs = ys'" using Cons.IH cx cy by (simp add: canonical_Cons)
  with xy ys show ?case by simp
qed

subsection \<open>Allocating and releasing\<close>

lemma first_fit_None: "first_fit sz i xs = None \<longleftrightarrow> (\<forall>p\<in>set xs. ml_size p < sz)"
  by (induction sz i xs rule: first_fit.induct) (auto simp: not_le)

lemma first_fit_Some:
  "first_fit sz i xs = Some k \<Longrightarrow>
     \<exists>pre node post. xs = pre @ node # post \<and> k = i + length pre \<and> sz \<le> ml_size node \<and>
       (\<forall>p\<in>set pre. ml_size p < sz)"
proof (induction sz i xs rule: first_fit.induct)
  case (1 sz i)
  then show ?case by simp
next
  case (2 sz i p ps)
  show ?case
  proof (cases "sz \<le> ml_size p")
    case True
    with 2 show ?thesis by (intro exI [of _ "[]"]) auto
  next
    case False
    with 2 obtain pre node post where "ps = pre @ node # post" "k = Suc i + length pre"
      "sz \<le> ml_size node" "\<forall>q\<in>set pre. ml_size q < sz" by auto
    with False show ?thesis by (intro exI [of _ "p # pre"]) auto
  qed
qed

lemma find_allocated_Some:
  "find_allocated a i xs = Some k \<Longrightarrow>
     \<exists>pre node post. xs = pre @ node # post \<and> k = i + length pre \<and> ml_address node = a \<and>
       a \<notin> ml_address ` set pre"
proof (induction a i xs rule: find_allocated.induct)
  case (1 a i)
  then show ?case by simp
next
  case (2 a i p ps)
  show ?case
  proof (cases "a = ml_address p")
    case True
    with 2 show ?thesis by (intro exI [of _ "[]"]) auto
  next
    case False
    with 2 obtain pre node post where "ps = pre @ node # post" "k = Suc i + length pre"
      "ml_address node = a" "a \<notin> ml_address ` set pre" by auto
    with False show ?thesis by (intro exI [of _ "p # pre"]) auto
  qed
qed

lemma find_allocated_None: "find_allocated a i xs = None \<longleftrightarrow> a \<notin> ml_address ` set xs"
  by (induction a i xs rule: find_allocated.induct) auto

lemma find_allocated_append:
  "a \<notin> ml_address ` set pre \<Longrightarrow> ml_address node = a \<Longrightarrow>
     find_allocated a i (pre @ node # post) = Some (i + length pre)"
  by (induction pre arbitrary: i) auto

text \<open>The node that is left after a block of \<open>sz\<close> bytes is cut from the front.\<close>

lemma cut_node:
  fixes sz :: u64
  assumes "wf_link node" "0 < sz" "sz < ml_size node"
  defines "rem \<equiv> node\<lparr>ml_address := ml_address node + sz, ml_size := ml_size node - sz\<rparr>"
    and "l \<equiv> mem_link_alloc (ml_address node) sz"
  shows "wf_link rem" "wf_link l" "lo l = lo node" "hi l = lo rem" "hi rem = hi node"
    "block node = block l \<union> block rem" "block l \<inter> block rem = {}"
proof -
  have s: "unat (ml_size node - sz) = unat (ml_size node) - unat sz" "0 < unat sz"
    "unat sz < unat (ml_size node)"
    using assms(2,3) unat_sub_le [OF less_imp_le [OF assms(3)]]
    by (simp_all add: word_less_nat_alt)
  have end_node: "lo node + unat (ml_size node) < 2 ^ 64"
    using wf_link_hi [OF assms(1)] by (simp add: hi_eq)
  then have "lo node + unat sz < 2 ^ 64" using s(3) by linarith
  then have a: "unat (ml_address node + sz) = lo node + unat sz"
    by (simp add: lo_def unat_add_no_wrap)
  show l: "lo l = lo node" and hl: "hi l = lo rem"
    using a by (simp_all add: l_def rem_def lo_def hi_def mem_link_alloc_def)
  show hr: "hi rem = hi node"
    using a s by (simp add: rem_def hi_def lo_def)
  show w: "wf_link rem" "wf_link l"
    using s hr hl end_node a by (simp_all add: wf_link_def hi_def lo_def rem_def l_def mem_link_alloc_def)
  show "block node = block l \<union> block rem" "block l \<inter> block rem = {}"
    using l hl hr wf_linkD [OF w(1)] wf_linkD [OF w(2)] by (auto simp: block_def)
qed

lemma allocate_node_ok:
  assumes inv: "mem_alloc_inv m" and f: "ma_free m = pre @ node # post"
    and sz: "0 < sz" "sz \<le> ml_size node"
  obtains fs where
    "mem_alloc_allocate_node True m (length pre) sz =
       (0, Some (ml_address node),
        m\<lparr>ma_free := fs, ma_allocated := ma_allocated m @ [mem_link_alloc (ml_address node) sz]\<rparr>)"
    "canonical fs" "space fs = space (ma_free m) - block (mem_link_alloc (ml_address node) sz)"
    "wf_link (mem_link_alloc (ml_address node) sz)"
    "block (mem_link_alloc (ml_address node) sz) \<subseteq> space (ma_free m)"
proof -
  let ?l = "mem_link_alloc (ml_address node) sz"
  have can: "canonical (pre @ node # post)" and wn: "wf_link node"
    using inv f by (simp_all add: mem_alloc_inv_def canonical_append canonical_Cons)
  have apart: "block node \<inter> (space pre \<union> space post) = {}"
    using can by (fastforce simp: canonical_append canonical_Cons space_def block_def)
  show thesis
  proof (cases "ml_size node = sz")
    case True
    have l: "?l = node"
      using True by (simp add: mem_link_alloc_def)
    have "canonical (pre @ post)"
      using can by (simp add: canonical_append canonical_Cons)
    then show thesis
      using that [of "pre @ post"] True f l apart wn
      by (auto simp: mem_alloc_allocate_node_def Let_def)
  next
    case False
    let ?r = "node\<lparr>ml_address := ml_address node + sz, ml_size := ml_size node - sz\<rparr>"
    have lt: "sz < ml_size node" using False sz(2) by simp
    note cut = cut_node [OF wn sz(1) lt]
    have "lo node < lo ?r" using cut wf_linkD [OF cut(2)] by simp
    then have "canonical (pre @ ?r # post)"
      using can cut(1,5) by (fastforce simp: canonical_append canonical_Cons)
    moreover have "space (pre @ ?r # post) = space (ma_free m) - block ?l"
      using f apart cut(6,7) by auto
    moreover have "block ?l \<subseteq> space (ma_free m)" using f cut(6) by auto
    moreover have "mem_alloc_allocate_node True m (length pre) sz =
        (0, Some (ml_address node),
         m\<lparr>ma_free := pre @ ?r # post, ma_allocated := ma_allocated m @ [?l]\<rparr>)"
      using False f by (simp add: mem_alloc_allocate_node_def Let_def)
    ultimately show thesis using that cut(2) by blast
  qed
qed

lemma get_ok:
  assumes inv: "mem_alloc_inv m" and sz: "0 < sz" and fit: "\<exists>p\<in>set (ma_free m). sz \<le> ml_size p"
  obtains a fs where
    "mem_alloc_get True m sz =
       (0, Some a, m\<lparr>ma_free := fs, ma_allocated := ma_allocated m @ [mem_link_alloc a sz]\<rparr>)"
    "canonical fs" "space fs = space (ma_free m) - block (mem_link_alloc a sz)"
    "wf_link (mem_link_alloc a sz)" "block (mem_link_alloc a sz) \<subseteq> space (ma_free m)"
proof -
  obtain k where k: "first_fit sz 0 (ma_free m) = Some k"
    using fit first_fit_None [of sz 0 "ma_free m"] by (cases "first_fit sz 0 (ma_free m)") auto
  from first_fit_Some [OF k] obtain pre node post
    where f: "ma_free m = pre @ node # post" "k = length pre" "sz \<le> ml_size node" by auto
  from allocate_node_ok [OF inv f(1) sz f(3)] obtain fs where
    "mem_alloc_allocate_node True m (length pre) sz =
       (0, Some (ml_address node),
        m\<lparr>ma_free := fs, ma_allocated := ma_allocated m @ [mem_link_alloc (ml_address node) sz]\<rparr>)"
    "canonical fs" "space fs = space (ma_free m) - block (mem_link_alloc (ml_address node) sz)"
    "wf_link (mem_link_alloc (ml_address node) sz)"
    "block (mem_link_alloc (ml_address node) sz) \<subseteq> space (ma_free m)" .
  then show thesis using that k f(2) by (simp add: mem_alloc_get_def)
qed

lemma get_inv:
  assumes inv: "mem_alloc_inv m" and sz: "0 < sz" and fit: "\<exists>p\<in>set (ma_free m). sz \<le> ml_size p"
    and g: "mem_alloc_get True m sz = (r, out, m')"
  shows "\<exists>a. r = 0 \<and> out = Some a \<and> mem_alloc_inv m' \<and>
    ma_allocated m' = ma_allocated m @ [mem_link_alloc a sz] \<and>
    wf_link (mem_link_alloc a sz) \<and>
    block (mem_link_alloc a sz) \<subseteq> space (ma_free m) \<and>
    space (ma_free m') = space (ma_free m) - block (mem_link_alloc a sz)"
proof -
  obtain a fs where a:
    "mem_alloc_get True m sz =
       (0, Some a, m\<lparr>ma_free := fs, ma_allocated := ma_allocated m @ [mem_link_alloc a sz]\<rparr>)"
    "canonical fs" "space fs = space (ma_free m) - block (mem_link_alloc a sz)"
    "wf_link (mem_link_alloc a sz)" "block (mem_link_alloc a sz) \<subseteq> space (ma_free m)"
    by (rule get_ok [OF inv sz fit])
  then have m': "r = 0" "out = Some a" "m' = m\<lparr>ma_free := fs,
      ma_allocated := ma_allocated m @ [mem_link_alloc a sz]\<rparr>" using g by simp_all
  have "space (ma_allocated m) \<inter> space (ma_free m) = {}"
    using inv by (simp add: mem_alloc_inv_def)
  then have "block b \<inter> block (mem_link_alloc a sz) = {}" if "b \<in> set (ma_allocated m)" for b
    using a(5) that unfolding space_def by blast
  then have "mem_alloc_inv m'"
    using inv a m' by (auto simp: mem_alloc_inv_def sorted_wrt_snoc)
  with a m' show ?thesis by auto
qed

lemma get_cases:
  assumes "mem_alloc_inv m" "0 < sz" "mem_alloc_get ok m sz = (r, out, m')"
  shows "(r = 1 \<and> out = None \<and> m' = m) \<or>
    (r = 0 \<and> mem_alloc_get True m sz = (0, out, m') \<and> (\<exists>p\<in>set (ma_free m). sz \<le> ml_size p))"
proof (cases "first_fit sz 0 (ma_free m)")
  case None
  with assms(3) show ?thesis by (simp add: mem_alloc_get_def)
next
  case (Some k)
  from first_fit_Some [OF Some] have "\<exists>p\<in>set (ma_free m). sz \<le> ml_size p" by auto
  with Some assms(3) show ?thesis
    by (auto simp: mem_alloc_get_def mem_alloc_allocate_node_def Let_def split: if_splits)
qed

lemma put_splits:
  assumes inv: "mem_alloc_inv m" and l: "l \<in> set (ma_allocated m)"
  obtains pre post where "ma_allocated m = pre @ l # post"
    "ml_address l \<notin> ml_address ` set (pre @ post)"
    "find_allocated (ml_address l) 0 (ma_allocated m) = Some (length pre)"
proof -
  from l obtain pre post where s: "ma_allocated m = pre @ l # post" by (meson split_list)
  have wf: "\<forall>b\<in>set (ma_allocated m). wf_link b"
    and dis: "\<forall>b\<in>set (pre @ post). block l \<inter> block b = {}"
    using inv s by (auto simp: mem_alloc_inv_def sorted_wrt_append)
  have "ml_address l \<noteq> ml_address b" if b: "b \<in> set (pre @ post)" for b
  proof
    assume "ml_address l = ml_address b"
    then have "lo b \<in> block l \<inter> block b"
      using wf s b wf_linkD [of l] wf_linkD [of b] by (auto simp: block_def lo_def)
    with dis b show False by blast
  qed
  then have n: "ml_address l \<notin> ml_address ` set (pre @ post)" by force
  then have "find_allocated (ml_address l) 0 (pre @ l # post) = Some (0 + length pre)"
    by (intro find_allocated_append) auto
  with s n show thesis by (intro that) simp_all
qed

lemma put_inv:
  assumes inv: "mem_alloc_inv m" and l: "l \<in> set (ma_allocated m)"
    and p: "mem_alloc_put True m (ml_address l) = (r, m')"
  shows "r = 0" "mem_alloc_inv m'" "ma_allocated m' = remove1 l (ma_allocated m)"
    "space (ma_free m') = space (ma_free m) \<union> block l"
proof -
  obtain pre post where s: "ma_allocated m = pre @ l # post"
    "ml_address l \<notin> ml_address ` set (pre @ post)"
    "find_allocated (ml_address l) 0 (ma_allocated m) = Some (length pre)"
    by (rule put_splits [OF inv l])
  let ?m = "m\<lparr>ma_allocated := pre @ post\<rparr>"
  have l_eq: "mem_link_alloc (ml_address l) (ml_size l) = l" by (simp add: mem_link_alloc_def)
  have add: "mem_alloc_add_free True ?m (ml_address l) (ml_size l) = (r, m')"
    using p s by (simp add: mem_alloc_put_def mem_alloc_free_node_def Let_def)
  have m: "mem_alloc_inv ?m" "wf_link l"
    using inv s by (auto simp: mem_alloc_inv_def sorted_wrt_append)
  have d: "block l \<inter> (space (ma_free ?m) \<union> space (ma_allocated ?m)) = {}"
    using inv s(1) unfolding mem_alloc_inv_def space_def by (auto simp: sorted_wrt_append)
  note ok = add_free_inv [of ?m "ml_address l" "ml_size l", unfolded l_eq, OF m d add]
  show "r = 0" "mem_alloc_inv m'" "space (ma_free m') = space (ma_free m) \<union> block l"
    using ok by simp_all
  have "l \<notin> set pre" using s(2) by auto
  then show "ma_allocated m' = remove1 l (ma_allocated m)"
    using ok(3) s(1) by (simp add: remove1_append)
qed

lemma put_unknown:
  "a \<notin> ml_address ` set (ma_allocated m) \<Longrightarrow> mem_alloc_put ok m a = (1, m)"
  using find_allocated_None [of a 0 "ma_allocated m"] by (simp add: mem_alloc_put_def)

lemma put_oom:
  assumes "mem_alloc_inv m" "l \<in> set (ma_allocated m)"
  shows "mem_alloc_put False m (ml_address l) =
    (1, m\<lparr>ma_allocated := remove1 l (ma_allocated m)\<rparr>)"
proof -
  obtain pre post where s: "ma_allocated m = pre @ l # post"
    "ml_address l \<notin> ml_address ` set (pre @ post)"
    "find_allocated (ml_address l) 0 (ma_allocated m) = Some (length pre)"
    by (rule put_splits [OF assms])
  have "l \<notin> set pre" using s(2) by auto
  with s show ?thesis
    by (simp add: mem_alloc_put_def mem_alloc_free_node_def Let_def mem_alloc_add_free_def
        remove1_append)
qed

subsection \<open>The contract of an address space and what follows from it\<close>

definition extent :: "u64 \<times> u64 \<Rightarrow> nat set" where
  "extent b = {unat (fst b) ..< unat (fst b) + unat (snd b)}"

text \<open>Sequences of requests and of releases; requests that fail hand nothing out.\<close>

fun get_all :: "('m \<Rightarrow> u64 \<Rightarrow> int \<times> u64 option \<times> 'm) \<Rightarrow> 'm \<Rightarrow> u64 list \<Rightarrow>
    (u64 \<times> u64) list \<times> 'm" where
  "get_all get m [] = ([], m)"
| "get_all get m (sz # szs) =
     (case get m sz of
        (r, None, m') \<Rightarrow> get_all get m' szs
      | (r, Some a, m') \<Rightarrow> (case get_all get m' szs of (bs, m'') \<Rightarrow> ((a, sz) # bs, m'')))"

fun put_all :: "('m \<Rightarrow> u64 \<Rightarrow> int \<times> 'm) \<Rightarrow> 'm \<Rightarrow> u64 list \<Rightarrow> 'm" where
  "put_all put m [] = m"
| "put_all put m (a # as) = put_all put (snd (put m a)) as"

text \<open>
  What a client relies on: the free space and the live blocks behave as a partition, and
  the state is determined by the two.
\<close>

locale address_space =
  fixes inv :: "'m \<Rightarrow> bool"
    and free_space :: "'m \<Rightarrow> nat set"
    and live :: "'m \<Rightarrow> (u64 \<times> u64) list"
    and get :: "'m \<Rightarrow> u64 \<Rightarrow> int \<times> u64 option \<times> 'm"
    and put :: "'m \<Rightarrow> u64 \<Rightarrow> int \<times> 'm"
  assumes get_law: "inv m \<Longrightarrow> 0 < sz \<Longrightarrow> get m sz = (r, out, m') \<Longrightarrow>
      (\<exists>a. r = 0 \<and> out = Some a \<and> inv m' \<and> live m' = live m @ [(a, sz)] \<and>
        extent (a, sz) \<subseteq> free_space m \<and> free_space m' = free_space m - extent (a, sz))
      \<or> (r \<noteq> 0 \<and> out = None \<and> m' = m)"
    and put_law: "inv m \<Longrightarrow> (a, sz) \<in> set (live m) \<Longrightarrow> put m a = (r, m') \<Longrightarrow>
      r = 0 \<and> inv m' \<and> live m' = remove1 (a, sz) (live m) \<and>
      free_space m' = free_space m \<union> extent (a, sz)"
    and live_distinct: "inv m \<Longrightarrow> distinct (live m)"
    and determined: "inv m \<Longrightarrow> inv m' \<Longrightarrow> free_space m = free_space m' \<Longrightarrow>
      live m = live m' \<Longrightarrow> m = m'"
begin

lemma get_all_ok:
  assumes "inv m" "\<forall>sz\<in>set szs. 0 < sz" "get_all get m szs = (bs, m')"
  shows "inv m' \<and> live m' = live m @ bs \<and> (\<Union>b\<in>set bs. extent b) \<subseteq> free_space m \<and>
    free_space m' = free_space m - (\<Union>b\<in>set bs. extent b) \<and>
    sorted_wrt (\<lambda>b c. extent b \<inter> extent c = {}) bs"
  using assms
proof (induction szs arbitrary: m bs m')
  case Nil
  then show ?case by simp
next
  case (Cons sz szs)
  obtain r out m1 where g: "get m sz = (r, out, m1)" by (metis prod_cases3)
  from get_law [OF Cons.prems(1) _ g] Cons.prems(2)
  consider (fail) "out = None" "m1 = m" | (ok) a where "out = Some a" "inv m1"
    "live m1 = live m @ [(a, sz)]" "extent (a, sz) \<subseteq> free_space m"
    "free_space m1 = free_space m - extent (a, sz)" by auto
  then show ?case
  proof cases
    case fail
    with Cons g show ?thesis by simp
  next
    case ok
    obtain cs m2 where c: "get_all get m1 szs = (cs, m2)" by fastforce
    with ok(1) g Cons.prems(3) have bs: "bs = (a, sz) # cs" "m' = m2" by simp_all
    have IH: "inv m2 \<and> live m2 = live m1 @ cs \<and> (\<Union>b\<in>set cs. extent b) \<subseteq> free_space m1 \<and>
      free_space m2 = free_space m1 - (\<Union>b\<in>set cs. extent b) \<and>
      sorted_wrt (\<lambda>b c. extent b \<inter> extent c = {}) cs"
      using Cons.IH [OF ok(2) _ c] Cons.prems(2) by simp
    then have "\<forall>c\<in>set cs. extent (a, sz) \<inter> extent c = {}" using ok(5) by blast
    with IH ok bs show ?thesis by auto
  qed
qed

lemma put_all_ok:
  assumes "inv m" "live m = base @ news" "mset as = mset news"
  shows "inv (put_all put m (map fst as)) \<and> live (put_all put m (map fst as)) = base \<and>
    free_space (put_all put m (map fst as)) = free_space m \<union> (\<Union>b\<in>set news. extent b)"
  using assms
proof (induction as arbitrary: m news)
  case Nil
  then show ?case by simp
next
  case (Cons b as)
  obtain a sz where b: "b = (a, sz)" by fastforce
  have b_in: "b \<in> set news" using Cons.prems(3) by (metis list.set_intros(1) set_mset_mset)
  obtain r m1 where p: "put m a = (r, m1)" by fastforce
  have put1: "inv m1" "live m1 = remove1 b (live m)" "free_space m1 = free_space m \<union> extent b"
    using put_law [OF Cons.prems(1) _ p, of sz] b b_in Cons.prems(2) by auto
  have "b \<notin> set base" using live_distinct [OF Cons.prems(1)] Cons.prems(2) b_in by auto
  then have l1: "live m1 = base @ remove1 b news"
    using put1(2) Cons.prems(2) by (simp add: remove1_append)
  have ms: "mset as = mset (remove1 b news)" using Cons.prems(3) b_in
    by (metis add_mset_remove_trivial mset.simps(2) mset_remove1)
  have set_news: "set news = insert b (set (remove1 b news))"
    using b_in by (metis Cons.prems(3) ms mset_eq_setD set_simps(2))
  from Cons.IH [OF put1(1) l1 ms] show ?case
    unfolding set_news using put1(3) p b by auto
qed

text \<open>Releasing everything that was handed out, in any order, gives back the start state.\<close>

lemma get_all_put_all:
  assumes "inv m" "\<forall>sz\<in>set szs. 0 < sz" "get_all get m szs = (bs, m')" "mset as = mset bs"
  shows "put_all put m' (map fst as) = m"
proof -
  note g = get_all_ok [OF assms(1-3)]
  then have "inv m'" "live m' = live m @ bs" by simp_all
  from put_all_ok [OF this assms(4)] g assms(1) show ?thesis
    by (intro determined) auto
qed

end

text \<open>The C allocator meets the contract when \<^verbatim>\<open>malloc\<close> succeeds.\<close>

definition ma_live :: "mem_alloc \<Rightarrow> (u64 \<times> u64) list" where
  "ma_live m = map (\<lambda>l. (ml_address l, ml_size l)) (ma_allocated m)"

lemma extent_block: "extent (a, sz) = block (mem_link_alloc a sz)"
  by (simp add: extent_def block_def lo_def hi_def mem_link_alloc_def)

lemma inj_link: "inj (\<lambda>l :: mem_link. (ml_address l, ml_size l))"
  by (rule injI) simp

lemma link_pair_eq: "(ml_address l, ml_size l) = (a, sz) \<longleftrightarrow> l = mem_link_alloc a sz"
  by (cases l) (auto simp: mem_link_alloc_def)

lemma mem_ma_live: "(a, sz) \<in> set (ma_live m) \<longleftrightarrow> mem_link_alloc a sz \<in> set (ma_allocated m)"
proof -
  have "(a, sz) = (ml_address l, ml_size l) \<longleftrightarrow> l = mem_link_alloc a sz" for l
    using link_pair_eq [of l a sz] by auto
  then show ?thesis by (simp add: ma_live_def image_iff)
qed

lemma remove1_ma_live:
  "map (\<lambda>l. (ml_address l, ml_size l)) (remove1 (mem_link_alloc a sz) xs) =
     remove1 (a, sz) (map (\<lambda>l. (ml_address l, ml_size l)) xs)"
  by (induction xs) (auto simp: mem_link_alloc_def)

lemma inv_distinct: "mem_alloc_inv m \<Longrightarrow> distinct (ma_allocated m)"
proof -
  assume inv: "mem_alloc_inv m"
  have "distinct xs" if "\<forall>l\<in>set xs. wf_link l" "sorted_wrt (\<lambda>a b. block a \<inter> block b = {}) xs" for xs
    using that by (induction xs) (auto dest: block_nonempty)
  with inv show ?thesis by (simp add: mem_alloc_inv_def)
qed

interpretation ma: address_space mem_alloc_inv "\<lambda>m. space (ma_free m)" ma_live
  "mem_alloc_get True" "mem_alloc_put True"
proof (unfold_locales, goal_cases)
  case (1 m sz r out m')
  then show ?case
    using get_cases [OF 1] get_inv [OF 1(1,2)]
    by (fastforce simp: extent_block ma_live_def mem_link_alloc_def)
next
  case (2 m a sz r m')
  let ?l = "mem_link_alloc a sz"
  have l: "?l \<in> set (ma_allocated m)" using 2(2) by (simp add: mem_ma_live)
  have p: "mem_alloc_put True m (ml_address ?l) = (r, m')"
    using 2(3) by (simp add: mem_link_alloc_def)
  from put_inv [OF 2(1) l p] show ?case
    by (simp add: extent_block ma_live_def remove1_ma_live)
next
  case (3 m)
  then show ?case
    using inv_distinct inj_link by (simp add: ma_live_def distinct_map inj_on_def inj_def)
next
  case (4 m m')
  then have "ma_free m = ma_free m'"
    by (intro canonical_unique) (simp_all add: mem_alloc_inv_def)
  moreover have "ma_allocated m = ma_allocated m'"
    using 4(4) inj_link by (simp add: ma_live_def inj_map_eq_map)
  ultimately show ?case by simp
qed

subsection \<open>Runs of the allocator\<close>

text \<open>
  \<open>ma_reach oom D m\<close>: the allocator can be in state \<open>m\<close> after regions covering \<open>D\<close> were
  donated by \<^verbatim>\<open>mem_alloc_add_free\<close>, with requests of non-zero size and arbitrary releases;
  \<open>oom\<close> says whether calls of \<^verbatim>\<open>malloc\<close> may fail.
\<close>

inductive ma_reach :: "bool \<Rightarrow> nat set \<Rightarrow> mem_alloc \<Rightarrow> bool" where
  init: "ma_reach oom {} mem_alloc_init"
| donate: "ma_reach oom D m \<Longrightarrow> wf_link (mem_link_alloc a sz) \<Longrightarrow>
     block (mem_link_alloc a sz) \<inter> D = {} \<Longrightarrow> mem_alloc_add_free True m a sz = (r, m') \<Longrightarrow>
     ma_reach oom (D \<union> block (mem_link_alloc a sz)) m'"
| get: "ma_reach oom D m \<Longrightarrow> ok \<or> oom \<Longrightarrow> 0 < sz \<Longrightarrow> mem_alloc_get ok m sz = (r, out, m') \<Longrightarrow>
     ma_reach oom D m'"
| put: "ma_reach oom D m \<Longrightarrow> ok \<or> oom \<Longrightarrow> mem_alloc_put ok m a = (r, m') \<Longrightarrow>
     ma_reach oom D m'"

inductive_cases ma_reach_emptyE: "ma_reach oom {} m"

lemma put_step:
  assumes inv: "mem_alloc_inv m" and p: "mem_alloc_put ok m a = (r, m')"
  shows "mem_alloc_inv m' \<and>
    space (ma_free m') \<union> space (ma_allocated m') \<subseteq> space (ma_free m) \<union> space (ma_allocated m) \<and>
    (ok \<longrightarrow> space (ma_free m') \<union> space (ma_allocated m') =
             space (ma_free m) \<union> space (ma_allocated m))"
proof (cases "a \<in> ml_address ` set (ma_allocated m)")
  case False
  with p put_unknown show ?thesis using inv by force
next
  case True
  then obtain l where l: "l \<in> set (ma_allocated m)" "a = ml_address l" by auto
  have sp: "space (ma_allocated m) = block l \<union> space (remove1 l (ma_allocated m))"
    using l(1) set_remove1_subset [of l "ma_allocated m"] inv_distinct [OF inv]
    by (auto simp: space_def)
  show ?thesis
  proof (cases ok)
    case True
    with p l put_inv [OF inv l(1), of r m'] sp show ?thesis by auto
  next
    case False
    then have m': "m' = m\<lparr>ma_allocated := remove1 l (ma_allocated m)\<rparr>"
      using p l put_oom [OF inv l(1)] by simp
    obtain pre post where "ma_allocated m = pre @ l # post" "l \<notin> set pre"
      using split_list_first [OF l(1)] by auto
    then have "mem_alloc_inv m'"
      using inv m' by (auto simp: mem_alloc_inv_def sorted_wrt_append remove1_append)
    with False sp m' show ?thesis by auto
  qed
qed

lemma get_step:
  assumes inv: "mem_alloc_inv m" and sz: "0 < sz" and g: "mem_alloc_get ok m sz = (r, out, m')"
  shows "mem_alloc_inv m' \<and>
    space (ma_free m') \<union> space (ma_allocated m') = space (ma_free m) \<union> space (ma_allocated m)"
  using get_cases [OF inv sz g] get_inv [OF inv sz] inv by fastforce

lemma ma_reach_inv:
  "ma_reach oom D m \<Longrightarrow> mem_alloc_inv m \<and>
     space (ma_free m) \<union> space (ma_allocated m) \<subseteq> D \<and>
     (\<not> oom \<longrightarrow> space (ma_free m) \<union> space (ma_allocated m) = D)"
proof (induction rule: ma_reach.induct)
  case (init oom)
  then show ?case using mem_alloc_inv_init by (simp add: mem_alloc_init_def)
next
  case (donate oom D m a sz r m')
  then have "block (mem_link_alloc a sz) \<inter> (space (ma_free m) \<union> space (ma_allocated m)) = {}"
    by blast
  note ok = add_free_inv [OF _ donate.hyps(2) this donate.hyps(4)]
  with donate.IH show ?case by auto
next
  case (get oom D m ok sz r out m')
  with get_step [OF _ get.hyps(3,4)] show ?case by simp
next
  case (put oom D m ok a r m')
  with put_step [OF _ put.hyps(3)] show ?case by auto
qed


subsection \<open>Properties\<close>

text \<open>
  C27. A request that some free block can hold succeeds: the allocator hands out an address
  whose block lies in the free space, overlaps no live block, and is exactly what the free
  space loses; the invariant is kept.
\<close>

theorem mem_alloc_get_spec:
  assumes "mem_alloc_inv m" "0 < sz" "\<exists>p\<in>set (ma_free m). sz \<le> ml_size p"
    and "mem_alloc_get True m sz = (r, out, m')"
  shows "\<exists>a. r = 0 \<and> out = Some a \<and> mem_alloc_inv m' \<and>
    ma_allocated m' = ma_allocated m @ [mem_link_alloc a sz] \<and>
    block (mem_link_alloc a sz) \<subseteq> space (ma_free m) \<and>
    block (mem_link_alloc a sz) \<inter> space (ma_allocated m) = {} \<and>
    space (ma_free m') = space (ma_free m) - block (mem_link_alloc a sz)"
proof -
  have "space (ma_allocated m) \<inter> space (ma_free m) = {}"
    using assms(1) by (simp add: mem_alloc_inv_def)
  with get_inv [OF assms] show ?thesis by blast
qed

definition two_regions :: mem_alloc where
  "two_regions = \<lparr>ma_free = [mem_link_alloc 0x1000 0x1000, mem_link_alloc 0x4000 0x4000],
                  ma_allocated = [mem_link_alloc 0x8000 0x1000]\<rparr>"

lemma two_regions_inv: "mem_alloc_inv two_regions"
  by (auto simp: two_regions_def mem_alloc_inv_def canonical_def wf_link_def block_def lo_def hi_def
      mem_link_alloc_def)

theorem mem_alloc_get_spec_witness:
  "mem_alloc_get True two_regions 0x2000 =
     (0, Some 0x4000, \<lparr>ma_free = [mem_link_alloc 0x1000 0x1000, mem_link_alloc 0x6000 0x2000],
       ma_allocated = [mem_link_alloc 0x8000 0x1000, mem_link_alloc 0x4000 0x2000]\<rparr>) \<and>
   (\<exists>a. block (mem_link_alloc a 0x2000) \<subseteq> space (ma_free two_regions))"
proof -
  have g: "mem_alloc_get True two_regions 0x2000 =
     (0, Some 0x4000, \<lparr>ma_free = [mem_link_alloc 0x1000 0x1000, mem_link_alloc 0x6000 0x2000],
       ma_allocated = [mem_link_alloc 0x8000 0x1000, mem_link_alloc 0x4000 0x2000]\<rparr>)"
    by (simp add: two_regions_def mem_alloc_get_def mem_alloc_allocate_node_def mem_link_alloc_def)
  have f: "\<exists>p\<in>set (ma_free two_regions). 0x2000 \<le> ml_size p"
    by (simp add: two_regions_def mem_link_alloc_def)
  from mem_alloc_get_spec [OF two_regions_inv _ f g] g show ?thesis by auto
qed

text \<open>
  Donating a region that is disjoint from everything the allocator knows succeeds, keeps
  the free list canonical (sorted, coalesced, no two nodes touching), grows the free space by
  exactly that region and leaves the live blocks alone.
\<close>

theorem mem_alloc_add_free_spec:
  assumes "mem_alloc_inv m" "wf_link (mem_link_alloc a sz)"
    and "block (mem_link_alloc a sz) \<inter> (space (ma_free m) \<union> space (ma_allocated m)) = {}"
    and "mem_alloc_add_free True m a sz = (r, m')"
  shows "r = 0 \<and> mem_alloc_inv m' \<and> ma_allocated m' = ma_allocated m \<and>
    space (ma_free m') = space (ma_free m) \<union> block (mem_link_alloc a sz)"
  using add_free_inv [OF assms] by simp

theorem mem_alloc_add_free_spec_witness:
  "mem_alloc_add_free True two_regions 0x2000 0x2000 =
     (0, \<lparr>ma_free = [mem_link_alloc 0x1000 0x7000],
          ma_allocated = [mem_link_alloc 0x8000 0x1000]\<rparr>) \<and>
   space [mem_link_alloc 0x1000 0x7000] =
     space (ma_free two_regions) \<union> block (mem_link_alloc 0x2000 0x2000)"
proof -
  have g: "mem_alloc_add_free True two_regions 0x2000 0x2000 =
     (0, \<lparr>ma_free = [mem_link_alloc 0x1000 0x7000],
          ma_allocated = [mem_link_alloc 0x8000 0x1000]\<rparr>)"
    by (simp add: two_regions_def mem_alloc_add_free_def mem_link_alloc_def
        mem_alloc_coalesce_def coalesce_prev_def)
  have w: "wf_link (mem_link_alloc 0x2000 0x2000)"
    by (simp add: wf_link_def hi_def mem_link_alloc_def)
  have d: "block (mem_link_alloc 0x2000 0x2000) \<inter>
      (space (ma_free two_regions) \<union> space (ma_allocated two_regions)) = {}"
    by (auto simp: two_regions_def block_def lo_def hi_def mem_link_alloc_def)
  from mem_alloc_add_free_spec [OF two_regions_inv w d g] g show ?thesis by simp
qed

text \<open>
  Requests fail exactly when no single free block is large enough, and then nothing
  changes: first fit over a coalesced list fails only for want of a contiguous block.
\<close>

theorem mem_alloc_get_fails_iff:
  "mem_alloc_get True m sz = (1, None, m) \<longleftrightarrow> (\<forall>p\<in>set (ma_free m). ml_size p < sz)"
proof (cases "first_fit sz 0 (ma_free m)")
  case None
  then show ?thesis
    using first_fit_None [of sz 0 "ma_free m"] by (simp add: mem_alloc_get_def)
next
  case (Some k)
  then have "\<not> (\<forall>p\<in>set (ma_free m). ml_size p < sz)"
    using first_fit_None [of sz 0 "ma_free m"] by simp
  with Some show ?thesis
    by (simp add: mem_alloc_get_def mem_alloc_allocate_node_def Let_def)
qed

theorem mem_alloc_get_fails_iff_witness:
  "mem_alloc_get True two_regions 0x5000 = (1, None, two_regions)"
  using mem_alloc_get_fails_iff [of two_regions "0x5000"] by (simp add: two_regions_def mem_link_alloc_def)

text \<open>
  In every state the allocator can reach, live blocks and free space lie inside the donated
  regions, live blocks are pairwise disjoint and disjoint from the free space, and as long as
  \<^verbatim>\<open>malloc\<close> never fails nothing is lost: free and live space together are exactly what was
  donated.
\<close>

theorem mem_alloc_reach_partition:
  assumes "ma_reach oom D m"
  shows "mem_alloc_inv m \<and> space (ma_free m) \<inter> space (ma_allocated m) = {} \<and>
    space (ma_free m) \<union> space (ma_allocated m) \<subseteq> D \<and>
    (oom \<or> space (ma_free m) \<union> space (ma_allocated m) = D)"
  using ma_reach_inv [OF assms] by (auto simp: mem_alloc_inv_def)

lemma reach_example:
  "ma_reach False (block (mem_link_alloc 0x1000 0x3000))
     \<lparr>ma_free = [mem_link_alloc 0x2000 0x2000], ma_allocated = [mem_link_alloc 0x1000 0x1000]\<rparr>"
proof -
  have 1: "ma_reach False ({} \<union> block (mem_link_alloc 0x1000 0x3000))
      \<lparr>ma_free = [mem_link_alloc 0x1000 0x3000], ma_allocated = []\<rparr>"
    by (rule ma_reach.donate [OF ma_reach.init, where r = 0])
      (simp_all add: wf_link_def hi_def mem_link_alloc_def mem_alloc_add_free_def
        mem_alloc_init_def mem_alloc_coalesce_def)
  show ?thesis
    by (rule ma_reach.get [OF 1 [unfolded Un_empty_left],
          where ok = True and sz = "0x1000" and r = 0 and out = "Some 0x1000"])
      (simp_all add: mem_alloc_get_def mem_alloc_allocate_node_def mem_link_alloc_def)
qed

theorem mem_alloc_reach_partition_witness:
  "block (mem_link_alloc 0x2000 0x2000) \<union> block (mem_link_alloc 0x1000 0x1000) =
     block (mem_link_alloc 0x1000 0x3000)"
  using mem_alloc_reach_partition [OF reach_example] by simp

text \<open>
  C28. Whatever sequence of requests was served, releasing the blocks handed out, in any order,
  brings the allocator back to the very state it started from: coalescing undoes every split.
\<close>

theorem mem_alloc_release_any_order:
  assumes "mem_alloc_inv m" "\<forall>sz\<in>set szs. 0 < sz"
    and "get_all (mem_alloc_get True) m szs = (bs, m')" "mset as = mset bs"
  shows "put_all (mem_alloc_put True) m' (map fst as) = m"
  using assms by (rule ma.get_all_put_all)

theorem mem_alloc_release_any_order_witness:
  "get_all (mem_alloc_get True) two_regions [0x800, 0x4000, 0x800] =
     ([(0x1000, 0x800), (0x4000, 0x4000), (0x1800, 0x800)],
      \<lparr>ma_free = [], ma_allocated = [mem_link_alloc 0x8000 0x1000, mem_link_alloc 0x1000 0x800,
         mem_link_alloc 0x4000 0x4000, mem_link_alloc 0x1800 0x800]\<rparr>) \<and>
   put_all (mem_alloc_put True)
      \<lparr>ma_free = [], ma_allocated = [mem_link_alloc 0x8000 0x1000, mem_link_alloc 0x1000 0x800,
         mem_link_alloc 0x4000 0x4000, mem_link_alloc 0x1800 0x800]\<rparr>
      [0x1800, 0x4000, 0x1000] = two_regions"
proof -
  let ?m = "\<lparr>ma_free = [], ma_allocated = [mem_link_alloc 0x8000 0x1000, mem_link_alloc 0x1000 0x800,
         mem_link_alloc 0x4000 0x4000, mem_link_alloc 0x1800 0x800]\<rparr>"
  have g: "get_all (mem_alloc_get True) two_regions [0x800, 0x4000, 0x800] =
     ([(0x1000, 0x800), (0x4000, 0x4000), (0x1800, 0x800)], ?m)"
    by (simp add: two_regions_def mem_alloc_get_def mem_alloc_allocate_node_def mem_link_alloc_def)
  have p: "put_all (mem_alloc_put True) ?m
      (map fst [(0x1800, 0x800 :: u64), (0x4000, 0x4000), (0x1000, 0x800)]) = two_regions"
    by (rule mem_alloc_release_any_order [OF two_regions_inv _ g]) simp_all
  from g p show ?thesis by simp
qed

text \<open>
  The return code of \<^verbatim>\<open>mem_alloc_add_free\<close> is 2 ("double free detected") exactly when the
  address is that of the first node of the free list: the scan for duplicates leaves its loop
  in the first iteration, so a region that starts at any later free node is linked in again.
\<close>

theorem mem_alloc_add_free_code:
  "fst (mem_alloc_add_free ok m a sz) =
     (if \<not> ok then 1
      else if ma_free m \<noteq> [] \<and> ml_address (hd (ma_free m)) = a then 2 else 0)"
  by (auto simp: mem_alloc_add_free_def Let_def split: list.splits prod.splits)

text \<open>
  The consequence: freeing the second region of \<open>two_regions\<close> once more is accepted and leaves
  two nodes for the same addresses, so that the same block is then handed out twice.
\<close>

lemma double_free_undetected:
  "get_all (mem_alloc_get True) (snd (mem_alloc_add_free True two_regions 0x4000 0x4000))
     [0x4000, 0x4000] =
   ([(0x4000, 0x4000), (0x4000, 0x4000)],
    \<lparr>ma_free = [mem_link_alloc 0x1000 0x1000],
     ma_allocated = [mem_link_alloc 0x8000 0x1000, mem_link_alloc 0x4000 0x4000,
       mem_link_alloc 0x4000 0x4000]\<rparr>)"
  by (simp add: two_regions_def mem_alloc_add_free_def mem_link_alloc_def mem_alloc_coalesce_def
      coalesce_prev_def mem_alloc_get_def mem_alloc_allocate_node_def Let_def)

text \<open>
  Donating the two halves of the 64-bit space leaves one node of size 0: the coalesced size
  wraps, and no request of any size above 0 can be served.
\<close>

lemma coalesce_whole_space_lost:
  "ma_free (snd (mem_alloc_add_free True (snd (mem_alloc_add_free True mem_alloc_init 0
     0x8000000000000000)) 0x8000000000000000 0x8000000000000000)) = [mem_link_alloc 0 0]"
  by (simp add: mem_alloc_init_def mem_alloc_add_free_def mem_link_alloc_def
      mem_alloc_coalesce_def coalesce_prev_def)

end
