(* ===== verification/Vfio.thy ===== *)
theory Vfio
  imports Mem_Alloc
begin

section \<open>The VFIO device library (libopaevfio/opaevfio.c)\<close>

text \<open>
  A \<^verbatim>\<open>struct opae_vfio\<close> owns file descriptors, mappings and DMA windows that it gets from the
  operating system, and allocates the addresses of the DMA windows with the allocator of
  \<^verbatim>\<open>libopaemem\<close>. The linked lists of the C structures are lists in order of their \<open>next\<close>
  pointers; a null pointer is None.

  The operating system is the record \<open>env\<close>: what a system call answers is a function of
  the trace of the calls made before it (newest first), so the answers are arbitrary and may
  depend on everything that happened. Every operation returns the extended trace. The bits and
  numbers of \<^verbatim>\<open>linux/vfio.h\<close> and \<^verbatim>\<open>linux/pci_regs.h\<close> are fields of \<open>env\<close> too.
  An operation has an optional result, None standing for undefined behaviour or a loop that
  never ends, where the code has either.
\<close>

subsection \<open>System calls\<close>

datatype map_flags =
    ANON_PRIVATE      \<comment> \<open>\<^verbatim>\<open>MAP_ANONYMOUS|MAP_PRIVATE\<close>\<close>
  | FIXED_SHARED      \<comment> \<open>\<^verbatim>\<open>MAP_FIXED|MAP_SHARED\<close>\<close>
  | SHARED            \<comment> \<open>\<^verbatim>\<open>MAP_SHARED\<close>\<close>
  | FLAGS_4K | FLAGS_2M | FLAGS_1G

datatype irq_action = TRIGGER | UNMASK | MASK

datatype call =
    C_malloc
  | C_snprintf
  | C_open "string option"
  | C_close int
  | C_pread int u64
  | C_pwrite int u16 u64
  | C_readlink string
  | C_mmap u64 u64 map_flags int u64            \<comment> \<open>address, length, flags, descriptor, offset\<close>
  | C_munmap u64 u64
  | C_dma_map int u64 u64 u64                   \<comment> \<open>descriptor, vaddr, size, iova\<close>
  | C_dma_unmap int u64 u64                     \<comment> \<open>descriptor, size, iova\<close>
  | C_api_version int
  | C_check_extension int
  | C_set_iommu int
  | C_iommu_info int
  | C_group_status int
  | C_set_container int int
  | C_unset_container int
  | C_device_fd int string
  | C_region_info int u32
  | C_region_caps int u32
  | C_device_info int
  | C_irq_info int u32
  | C_set_irqs int irq_action u32 u32 "int option"   \<comment> \<open>action, index, start, event descriptor\<close>
  | C_lock
  | C_unlock
  | C_mutex_init
  | C_mutex_destroy
  | C_attr_init
  | C_attr_settype
  | C_attr_destroy
  | C_regcomp

type_synonym trace = "call list"

record region_info =
  ri_flags :: u32
  ri_size :: u64
  ri_offset :: u64

record sparse_cap =
  sc_id :: u16
  sc_areas :: "(u64 \<times> u64) list"

record iova_cap =
  ic_id :: u16
  ic_next :: u32
  ic_ranges :: "(u64 \<times> u64) list"

record irq_info =
  ii_flags :: u32
  ii_index :: u32
  ii_count :: u32

record env =
  ans :: "trace \<Rightarrow> call \<Rightarrow> int"
  map_ans :: "trace \<Rightarrow> call \<Rightarrow> u64 option"
  region_reply :: "trace \<Rightarrow> u32 \<Rightarrow> region_info"
  sparse_reply :: "trace \<Rightarrow> u32 \<Rightarrow> sparse_cap"
  irq_reply :: "trace \<Rightarrow> u32 \<Rightarrow> irq_info"
  device_reply :: "trace \<Rightarrow> u32 \<times> u32"
  group_reply :: "trace \<Rightarrow> u32"
  iommu_reply :: "trace \<Rightarrow> u32 \<times> (u32 \<Rightarrow> iova_cap)"
  link_reply :: "trace \<Rightarrow> string"
  command_reply :: "trace \<Rightarrow> u16"
  page_size :: u64
  VFIO_REGION_INFO_FLAG_CAPS :: u32
  VFIO_REGION_INFO_FLAG_MMAP :: u32
  VFIO_REGION_INFO_CAP_SPARSE_MMAP :: u16
  VFIO_PCI_CONFIG_REGION_INDEX :: u32
  VFIO_IOMMU_TYPE1_INFO_CAP_IOVA_RANGE :: u16
  VFIO_GROUP_FLAGS_VIABLE :: u32
  VFIO_IRQ_INFO_EVENTFD :: u32
  VFIO_IRQ_INFO_MASKABLE :: u32
  VFIO_API_VERSION :: int
  PCI_COMMAND :: u64
  PCI_COMMAND_MEMORY :: u16
  PCI_COMMAND_MASTER :: u16

definition sys :: "env \<Rightarrow> call \<Rightarrow> trace \<Rightarrow> int \<times> trace" where
  "sys E c t = (ans E t c, c # t)"

definition mmap :: "env \<Rightarrow> u64 \<Rightarrow> u64 \<Rightarrow> map_flags \<Rightarrow> int \<Rightarrow> u64 \<Rightarrow> trace \<Rightarrow> u64 option \<times> trace" where
  "mmap E addr len flags fd off t =
     (map_ans E t (C_mmap addr len flags fd off), C_mmap addr len flags fd off # t)"

definition malloc :: "env \<Rightarrow> trace \<Rightarrow> bool \<times> trace" where
  "malloc E t = (ans E t C_malloc \<noteq> 0, C_malloc # t)"

definition strdup :: "env \<Rightarrow> string \<Rightarrow> trace \<Rightarrow> string option \<times> trace" where
  "strdup E s t = (case malloc E t of (ok, t) \<Rightarrow> (if ok then Some s else None, t))"

subsection \<open>The structures\<close>

record sparse_info =
  si_index :: u32
  si_offset :: u32
  si_size :: u32
  si_ptr :: "u64 option"       \<comment> \<open>None is \<^verbatim>\<open>MAP_FAILED\<close>\<close>

record device_region =
  region_index :: u32
  region_ptr :: u64
  region_size :: u64
  region_sparse :: "sparse_info list"

record device_irq =
  irq_flags :: u32
  irq_index :: u32
  irq_count :: u32

record vfio_device =
  device_fd :: int
  device_config_offset :: u64
  device_num_regions :: u32
  regions :: "device_region list"
  device_num_irqs :: u32
  irqs :: "device_irq list"

record vfio_group =
  group_device :: "string option"
  group_fd :: int

record vfio_buffer =
  buffer_ptr :: u64
  buffer_size :: u64
  buffer_iova :: u64

record iova_range =
  range_start :: u64
  range_end :: u64

record opae_vfio =
  cont_device :: "string option"
  cont_pciaddr :: "string option"
  cont_fd :: int
  cont_ranges :: "iova_range list"
  iova_alloc :: mem_alloc
  v_group :: vfio_group
  v_device :: vfio_device
  cont_buffers :: "vfio_buffer list"

subsection \<open>Device regions\<close>

definition opae_vfio_create_sparse_info ::
  "env \<Rightarrow> u32 \<Rightarrow> u32 \<Rightarrow> u32 \<Rightarrow> trace \<Rightarrow> sparse_info option \<times> trace" where
  "opae_vfio_create_sparse_info E index offset sz t =
     (case malloc E t of (ok, t) \<Rightarrow>
        (if ok then Some \<lparr>si_index = index, si_offset = offset, si_size = sz, si_ptr = None\<rparr>
         else None, t))"

fun opae_vfio_destroy_sparse_info :: "env \<Rightarrow> sparse_info list \<Rightarrow> trace \<Rightarrow> trace" where
  "opae_vfio_destroy_sparse_info E [] t = t"
| "opae_vfio_destroy_sparse_info E (s # ss) t =
     opae_vfio_destroy_sparse_info E ss
       (case si_ptr s of
          None \<Rightarrow> t
        | Some p \<Rightarrow> snd (sys E (C_munmap p (ucast (si_size s))) t))"

text \<open>The loop over the sparse areas: a failed mapping is reported and the loop goes on.\<close>

fun map_areas ::
  "env \<Rightarrow> u64 \<Rightarrow> int \<Rightarrow> u64 \<Rightarrow> sparse_info list \<Rightarrow> trace \<Rightarrow> sparse_info list \<times> trace" where
  "map_areas E base fd offset [] t = ([], t)"
| "map_areas E base fd offset (s # ss) t =
     (case mmap E (base + ucast (si_offset s)) (ucast (si_size s)) FIXED_SHARED fd
             (offset + ucast (si_offset s)) t of (p, t) \<Rightarrow>
      case map_areas E base fd offset ss t of (ss, t) \<Rightarrow> (s\<lparr>si_ptr := p\<rparr> # ss, t))"

definition opae_vfio_map_sparse_device_region ::
  "env \<Rightarrow> u32 \<Rightarrow> int \<Rightarrow> u64 \<Rightarrow> u64 \<Rightarrow> sparse_info list \<Rightarrow> trace \<Rightarrow> device_region option \<times> trace" where
  "opae_vfio_map_sparse_device_region E index fd offset sz slist t =
     (case malloc E t of (ok, t) \<Rightarrow>
      if \<not> ok then (None, t)
      else case mmap E 0 sz ANON_PRIVATE (-1) 0 t of
          (None, t) \<Rightarrow> (None, t)
        | (Some p, t) \<Rightarrow>
            (case map_areas E p fd offset slist t of (slist, t) \<Rightarrow>
               (Some \<lparr>region_index = index, region_ptr = p, region_size = sz,
                      region_sparse = slist\<rparr>, t)))"

definition opae_vfio_map_device_region ::
  "env \<Rightarrow> u32 \<Rightarrow> int \<Rightarrow> u64 \<Rightarrow> u64 \<Rightarrow> trace \<Rightarrow> device_region option \<times> trace" where
  "opae_vfio_map_device_region E index fd offset sz t =
     (case malloc E t of (ok, t) \<Rightarrow>
      if \<not> ok then (None, t)
      else case mmap E 0 sz SHARED fd offset t of
          (None, t) \<Rightarrow> (None, t)
        | (Some p, t) \<Rightarrow>
            (Some \<lparr>region_index = index, region_ptr = p, region_size = sz,
                   region_sparse = []\<rparr>, t))"

fun opae_vfio_destroy_device_region :: "env \<Rightarrow> device_region list \<Rightarrow> trace \<Rightarrow> trace" where
  "opae_vfio_destroy_device_region E [] t = t"
| "opae_vfio_destroy_device_region E (r # rs) t =
     opae_vfio_destroy_device_region E rs
       (opae_vfio_destroy_sparse_info E (region_sparse r)
          (snd (sys E (C_munmap (region_ptr r) (region_size r)) t)))"

text \<open>
  The offsets and sizes of the sparse areas are 64 bits wide in \<^verbatim>\<open>linux/vfio.h\<close> and 32 bits wide
  as arguments of \<^verbatim>\<open>opae_vfio_create_sparse_info\<close>: they are truncated. When \<^verbatim>\<open>malloc\<close> fails the
  areas found so far are returned.
\<close>

fun sparse_nodes ::
  "env \<Rightarrow> u32 \<Rightarrow> (u64 \<times> u64) list \<Rightarrow> trace \<Rightarrow> sparse_info list \<times> trace" where
  "sparse_nodes E i [] t = ([], t)"
| "sparse_nodes E i ((offset, sz) # areas) t =
     (case opae_vfio_create_sparse_info E i (ucast offset) (ucast sz) t of
        (None, t) \<Rightarrow> ([], t)
      | (Some node, t) \<Rightarrow>
          (case sparse_nodes E (i + 1) areas t of (nodes, t) \<Rightarrow> (node # nodes, t)))"

definition opae_vfio_device_get_sparse_info ::
  "env \<Rightarrow> int \<Rightarrow> u32 \<Rightarrow> region_info \<Rightarrow> trace \<Rightarrow> sparse_info list \<times> trace" where
  "opae_vfio_device_get_sparse_info E fd index rinfo t =
     (if ri_flags rinfo AND VFIO_REGION_INFO_FLAG_CAPS E = 0 then ([], t)
      else case malloc E t of (ok, t) \<Rightarrow>
      if \<not> ok then ([], t)
      else let cap = sparse_reply E t index in
      case sys E (C_region_caps fd index) t of (r, t) \<Rightarrow>
      if r \<noteq> 0 then ([], t)
      else if sc_id cap \<noteq> VFIO_REGION_INFO_CAP_SPARSE_MMAP E then ([], t)
      else sparse_nodes E 0 (sc_areas cap) t)"

subsection \<open>The device\<close>

definition opae_vfio_device_get_irq_info ::
  "env \<Rightarrow> u32 \<Rightarrow> u32 \<Rightarrow> u32 \<Rightarrow> trace \<Rightarrow> device_irq option \<times> trace" where
  "opae_vfio_device_get_irq_info E flags index n t =
     (case malloc E t of (ok, t) \<Rightarrow>
        (if ok then Some \<lparr>irq_flags = flags, irq_index = index, irq_count = n\<rparr> else None, t))"

definition opae_vfio_device_destroy :: "env \<Rightarrow> vfio_device \<Rightarrow> trace \<Rightarrow> vfio_device \<times> trace" where
  "opae_vfio_device_destroy E d t =
     (let t = opae_vfio_destroy_device_region E (regions d) t;
          d = d\<lparr>regions := [], irqs := []\<rparr>
      in if 0 \<le> device_fd d
         then (d\<lparr>device_fd := -1\<rparr>, snd (sys E (C_close (device_fd d)) t))
         else (d, t))"

definition setup_pci_command :: "env \<Rightarrow> int \<Rightarrow> u64 \<Rightarrow> trace \<Rightarrow> int \<times> trace" where
  "setup_pci_command E fd cfg_offset t =
     (let cmd = command_reply E t in
      case sys E (C_pread fd (cfg_offset + PCI_COMMAND E)) t of (n, t) \<Rightarrow>
      if n = 2 then
        (if cmd AND PCI_COMMAND_MEMORY E = 0 \<or> cmd AND PCI_COMMAND_MASTER E = 0 then
           (case sys E (C_pwrite fd (cmd OR (PCI_COMMAND_MEMORY E OR PCI_COMMAND_MASTER E))
                     (cfg_offset + PCI_COMMAND E)) t of (n, t) \<Rightarrow>
            (if n \<noteq> 2 then 1 else 0, t))
         else (0, t))
      else (2, t))"

fun device_regions :: "env \<Rightarrow> int \<Rightarrow> u32 list \<Rightarrow> trace \<Rightarrow> device_region list \<times> trace" where
  "device_regions E fd [] t = ([], t)"
| "device_regions E fd (i # is) t =
     (let info = region_reply E t i in
      case sys E (C_region_info fd i) t of (r, t) \<Rightarrow>
      if r \<noteq> 0 then device_regions E fd is t
      else if ri_flags info AND VFIO_REGION_INFO_FLAG_MMAP E = 0 then device_regions E fd is t
      else case opae_vfio_device_get_sparse_info E fd i info t of (sparse_list, t) \<Rightarrow>
      case (if sparse_list \<noteq> []
            then opae_vfio_map_sparse_device_region E i fd (ri_offset info) (ri_size info)
                   sparse_list t
            else opae_vfio_map_device_region E i fd (ri_offset info) (ri_size info) t) of
        (region, t) \<Rightarrow>
      case device_regions E fd is t of (rest, t) \<Rightarrow>
        ((case region of None \<Rightarrow> rest | Some g \<Rightarrow> g # rest), t))"

fun device_irqs :: "env \<Rightarrow> int \<Rightarrow> u32 list \<Rightarrow> trace \<Rightarrow> device_irq list \<times> trace" where
  "device_irqs E fd [] t = ([], t)"
| "device_irqs E fd (i # is) t =
     (let info = irq_reply E t i in
      case sys E (C_irq_info fd i) t of (r, t) \<Rightarrow>
      if r \<noteq> 0 then device_irqs E fd is t
      else case opae_vfio_device_get_irq_info E (ii_flags info) (ii_index info) (ii_count info) t of
        (irq, t) \<Rightarrow>
      case device_irqs E fd is t of (rest, t) \<Rightarrow>
        ((case irq of None \<Rightarrow> rest | Some q \<Rightarrow> q # rest), t))"

definition indices :: "u32 \<Rightarrow> u32 list" where
  "indices n = map word_of_nat [0..<unat n]"

text \<open>
  The device argument is written to a buffer of 256 bytes: with a token by \<^verbatim>\<open>snprintf\<close>, which
  cuts it, without one by \<^verbatim>\<open>memcpy\<close>, which overruns it.
\<close>

definition device_arg :: "env \<Rightarrow> string \<Rightarrow> string option \<Rightarrow> trace \<Rightarrow> (string option \<times> trace) option" where
  "device_arg E pciaddr token t =
     (case token of
        Some tok \<Rightarrow>
          (case sys E C_snprintf t of (n, t) \<Rightarrow>
             Some (if n < 0 then None else Some (take 255 (pciaddr @ '' vf_token='' @ tok)), t))
      | None \<Rightarrow> if length pciaddr < 256 then Some (Some pciaddr, t) else None)"

definition opae_vfio_device_init ::
  "env \<Rightarrow> vfio_device \<Rightarrow> int \<Rightarrow> string \<Rightarrow> string option \<Rightarrow> trace \<Rightarrow>
     (int \<times> vfio_device \<times> trace) option" where
  "opae_vfio_device_init E d grp_fd pciaddr token t = do {
     (arg, t) \<leftarrow> device_arg E pciaddr token t;
     (case arg of
        None \<Rightarrow> Some (1, d, t)
      | Some arg \<Rightarrow>
          (case sys E (C_device_fd grp_fd arg) t of (fd, t) \<Rightarrow>
           let d = d\<lparr>device_fd := fd\<rparr> in
           if fd < 0 then Some (2, d, t)
           else let info = region_reply E t (VFIO_PCI_CONFIG_REGION_INDEX E) in
           case sys E (C_region_info fd (VFIO_PCI_CONFIG_REGION_INDEX E)) t of (r, t) \<Rightarrow>
           if r \<noteq> 0 then Some (3, d, t)
           else let d = d\<lparr>device_config_offset := ri_offset info\<rparr> in
           case setup_pci_command E fd (ri_offset info) t of (r, t) \<Rightarrow>
           if r \<noteq> 0 then Some (4, d, t)
           else let (num_regions, num_irqs) = device_reply E t in
           case sys E (C_device_info fd) t of (r, t) \<Rightarrow>
           if r \<noteq> 0 then Some (5, d, t)
           else case device_regions E fd (indices num_regions) t of (rs, t) \<Rightarrow>
           case device_irqs E fd (indices num_irqs) t of (qs, t) \<Rightarrow>
             Some (0, d\<lparr>device_num_regions := num_regions, device_num_irqs := num_irqs,
                        regions := rs, irqs := qs\<rparr>, t)))
   }"

subsection \<open>The group\<close>

definition opae_vfio_group_destroy :: "env \<Rightarrow> vfio_group \<Rightarrow> trace \<Rightarrow> vfio_group \<times> trace" where
  "opae_vfio_group_destroy E g t =
     (let t = (if 0 \<le> group_fd g
               then snd (sys E (C_close (group_fd g))
                      (snd (sys E (C_unset_container (group_fd g)) t)))
               else t)
      in (g\<lparr>group_fd := (if 0 \<le> group_fd g then -1 else group_fd g), group_device := None\<rparr>, t))"

definition opae_vfio_group_init ::
  "env \<Rightarrow> vfio_group \<Rightarrow> string option \<Rightarrow> trace \<Rightarrow> int \<times> vfio_group \<times> trace" where
  "opae_vfio_group_init E g dev t =
     (let g = g\<lparr>group_device := dev\<rparr> in
      if dev = None then (1, opae_vfio_group_destroy E g t)
      else case sys E (C_open dev) t of (fd, t) \<Rightarrow>
      let g = g\<lparr>group_fd := fd\<rparr> in
      if fd < 0 then (2, opae_vfio_group_destroy E g t)
      else let flags = group_reply E t in
      case sys E (C_group_status fd) t of (r, t) \<Rightarrow>
      if r \<noteq> 0 then (3, opae_vfio_group_destroy E g t)
      else if flags AND VFIO_GROUP_FLAGS_VIABLE E = 0 then (4, opae_vfio_group_destroy E g t)
      else (0, g, t))"

text \<open>
  \<^verbatim>\<open>readlink\<close> writes no terminator: a link text of 256 bytes or more leaves the buffer
  without one, and the search for the last slash runs past it.
\<close>

definition after_slash :: "string \<Rightarrow> string option" where
  "after_slash s =
     (if CHR ''/'' \<in> set s then Some (rev (takeWhile (\<lambda>c. c \<noteq> CHR ''/'') (rev s))) else None)"

definition opae_vfio_group_for :: "env \<Rightarrow> string \<Rightarrow> trace \<Rightarrow> (string option \<times> trace) option" where
  "opae_vfio_group_for E pciaddr t =
     (let path = take 255 (''/sys/bus/pci/devices/'' @ pciaddr @ ''/iommu_group'');
          link = link_reply E t
      in case sys E (C_readlink path) t of (n, t) \<Rightarrow>
      if n < 0 then Some (strdup E ''ERROR'' t)
      else if 256 \<le> length link then None
      else case after_slash link of
          None \<Rightarrow> Some (strdup E ''ERROR'' t)
        | Some p \<Rightarrow> Some (strdup E (take 255 (''/dev/vfio/'' @ p)) t))"


subsection \<open>The IOVA ranges\<close>

text \<open>
  The ranges of one capability: each becomes a node of the list and is donated to the
  allocator. The size \<open>end + 1 - start\<close> is computed modulo \<open>2 ^ 64\<close>.
\<close>

fun add_ranges ::
  "env \<Rightarrow> (u64 \<times> u64) list \<Rightarrow> mem_alloc \<Rightarrow> trace \<Rightarrow> iova_range list \<times> mem_alloc \<times> trace" where
  "add_ranges E [] m t = ([], m, t)"
| "add_ranges E ((start, stop) # rs) m t =
     (case malloc E t of (ok, t) \<Rightarrow>
      if \<not> ok then add_ranges E rs m t
      else case malloc E t of (ok, t) \<Rightarrow>
      case add_ranges E rs (snd (mem_alloc_add_free ok m start (stop + 1 - start))) t of
        (nodes, m, t) \<Rightarrow> (\<lparr>range_start = start, range_end = stop\<rparr> # nodes, m, t))"

text \<open>
  The loop \<^verbatim>\<open>while (1)\<close> over the chain of capabilities, which ends at a header whose \<^verbatim>\<open>next\<close> is 0;
  \<open>caps\<close> reads the header at an offset of the buffer.
\<close>

partial_function (option) iova_walk ::
  "env \<Rightarrow> (u32 \<Rightarrow> iova_cap) \<Rightarrow> u32 \<Rightarrow> iova_range list \<Rightarrow> mem_alloc \<Rightarrow> trace \<Rightarrow>
     (iova_range list \<times> mem_alloc \<times> trace) option" where
  "iova_walk E caps off ranges m t =
     (case (if ic_id (caps off) = VFIO_IOMMU_TYPE1_INFO_CAP_IOVA_RANGE E
            then add_ranges E (ic_ranges (caps off)) m t else ([], m, t)) of
        (nodes, m, t) \<Rightarrow>
          (if ic_next (caps off) = 0 then Some (ranges @ nodes, m, t)
           else iova_walk E caps (ic_next (caps off)) (ranges @ nodes) m t))"

declare iova_walk.simps [code]

definition opae_vfio_iova_discover ::
  "env \<Rightarrow> opae_vfio \<Rightarrow> trace \<Rightarrow> (iova_range list \<times> opae_vfio \<times> trace) option" where
  "opae_vfio_iova_discover E v t =
     (case sys E (C_iommu_info (cont_fd v)) t of (r, t) \<Rightarrow>
      if r \<noteq> 0 then Some ([], v, t)
      else case malloc E t of (ok, t) \<Rightarrow>
      if \<not> ok then Some ([], v, t)
      else let (cap_offset, caps) = iommu_reply E t in
      case sys E (C_iommu_info (cont_fd v)) t of (r, t) \<Rightarrow>
      if r \<noteq> 0 then Some ([], v, t)
      else do {
        (ranges, m, t) \<leftarrow> iova_walk E caps cap_offset [] (iova_alloc v) t;
        Some (ranges, v\<lparr>iova_alloc := m\<rparr>, t)
      })"

definition round_size :: "u64 \<Rightarrow> u64 \<Rightarrow> u64" where
  "round_size page sz = page + ((sz - 1) AND NOT (page - 1))"

definition opae_vfio_iova_reserve ::
  "env \<Rightarrow> opae_vfio \<Rightarrow> u64 \<Rightarrow> trace \<Rightarrow> int \<times> u64 \<times> u64 option \<times> opae_vfio \<times> trace" where
  "opae_vfio_iova_reserve E v sz t =
     (let sz = round_size (page_size E) sz in
      case malloc E t of (ok, t) \<Rightarrow>
      case mem_alloc_get ok (iova_alloc v) sz of (r, iova, m) \<Rightarrow>
        (r, sz, iova, v\<lparr>iova_alloc := m\<rparr>, t))"

subsection \<open>Buffers\<close>

definition opae_vfio_create_buffer ::
  "env \<Rightarrow> u64 \<Rightarrow> u64 \<Rightarrow> u64 \<Rightarrow> trace \<Rightarrow> vfio_buffer option \<times> trace" where
  "opae_vfio_create_buffer E vaddr sz iova t =
     (case malloc E t of (ok, t) \<Rightarrow>
        (if ok then Some \<lparr>buffer_ptr = vaddr, buffer_size = sz, buffer_iova = iova\<rparr> else None, t))"

fun opae_vfio_destroy_buffer ::
  "env \<Rightarrow> opae_vfio \<Rightarrow> vfio_buffer list \<Rightarrow> trace \<Rightarrow> opae_vfio \<times> trace" where
  "opae_vfio_destroy_buffer E v [] t = (v, t)"
| "opae_vfio_destroy_buffer E v (b # bs) t =
     (case sys E (C_dma_unmap (cont_fd v) (buffer_size b) (buffer_iova b)) t of (_, t) \<Rightarrow>
      case sys E (C_munmap (buffer_ptr b) (buffer_size b)) t of (_, t) \<Rightarrow>
      case malloc E t of (ok, t) \<Rightarrow>
      opae_vfio_destroy_buffer E
        (v\<lparr>iova_alloc := snd (mem_alloc_put ok (iova_alloc v) (buffer_iova b))\<rparr>) bs t)"

record alloc_result =
  ar_code :: int
  ar_size :: u64             \<comment> \<open>the value of \<^verbatim>\<open>*size\<close> when the call returns\<close>
  ar_buf :: "u64 option"     \<comment> \<open>what is written to \<^verbatim>\<open>*buf\<close>\<close>
  ar_iova :: "u64 option"    \<comment> \<open>what is written to \<^verbatim>\<open>*iova\<close>\<close>

definition alloc_fail :: "int \<Rightarrow> u64 \<Rightarrow> alloc_result" where
  "alloc_fail c sz = \<lparr>ar_code = c, ar_size = sz, ar_buf = None, ar_iova = None\<rparr>"

definition unlock :: "env \<Rightarrow> trace \<Rightarrow> trace" where
  "unlock E t = snd (sys E C_unlock t)"

definition map_flags_for :: "u64 \<Rightarrow> map_flags" where
  "map_flags_for sz =
     (if 2 * 1024 * 1024 < sz then FLAGS_1G else if 4096 < sz then FLAGS_2M else FLAGS_4K)"

text \<open>
  The part of \<^verbatim>\<open>opae_vfio_buffer_allocate\<close> after its checks of \<^verbatim>\<open>v\<close> and \<^verbatim>\<open>size\<close>;
  \<open>want_buf\<close> and \<open>want_iova\<close> say whether those output pointers are not NULL.
\<close>

definition buffer_allocate ::
  "env \<Rightarrow> opae_vfio \<Rightarrow> u64 \<Rightarrow> bool \<Rightarrow> bool \<Rightarrow> trace \<Rightarrow> alloc_result \<times> opae_vfio \<times> trace" where
  "buffer_allocate E v sz want_buf want_iova t =
     (if sz = 0 then (alloc_fail 2 sz, v, t)
      else case sys E C_lock t of (r, t) \<Rightarrow>
      if r \<noteq> 0 then (alloc_fail 3 sz, v, t)
      else case opae_vfio_iova_reserve E v sz t of (r, sz, ioaddr, v, t) \<Rightarrow>
      if r \<noteq> 0 then (alloc_fail 4 sz, v, unlock E t)
      else let ioaddr = (case ioaddr of None \<Rightarrow> 0 | Some a \<Rightarrow> a) in
      case mmap E 0 sz (map_flags_for sz) 0 0 t of (vaddr, t) \<Rightarrow>
      case vaddr of
        None \<Rightarrow> (alloc_fail 5 sz, v, unlock E t)
      | Some vaddr \<Rightarrow>
          (case sys E (C_dma_map (cont_fd v) vaddr sz ioaddr) t of (r, t) \<Rightarrow>
           if r < 0 then
             (alloc_fail 5 sz, v, unlock E (snd (sys E (C_munmap vaddr sz) t)))
           else case opae_vfio_create_buffer E vaddr sz ioaddr t of (node, t) \<Rightarrow>
           case node of
             None \<Rightarrow>
               (alloc_fail 6 sz, v,
                unlock E (snd (sys E (C_munmap vaddr sz)
                  (snd (sys E (C_dma_unmap (cont_fd v) sz ioaddr) t)))))
           | Some node \<Rightarrow>
               (\<lparr>ar_code = 0, ar_size = sz,
                 ar_buf = (if want_buf then Some vaddr else None),
                 ar_iova = (if want_iova then Some ioaddr else None)\<rparr>,
                v\<lparr>cont_buffers := node # cont_buffers v\<rparr>, unlock E t)))"

definition opae_vfio_buffer_allocate ::
  "env \<Rightarrow> opae_vfio option \<Rightarrow> u64 option \<Rightarrow> bool \<Rightarrow> bool \<Rightarrow> trace \<Rightarrow>
     alloc_result \<times> opae_vfio option \<times> trace" where
  "opae_vfio_buffer_allocate E v sz want_buf want_iova t =
     (case (v, sz) of
        (Some v, Some sz) \<Rightarrow>
          (case buffer_allocate E v sz want_buf want_iova t of (r, v, t) \<Rightarrow> (r, Some v, t))
      | _ \<Rightarrow> (alloc_fail 1 (case sz of None \<Rightarrow> 0 | Some s \<Rightarrow> s), v, t))"

text \<open>The search for the buffer that starts at \<open>buf\<close>, unlinking it from the list.\<close>

fun unlink_buffer :: "u64 \<Rightarrow> vfio_buffer list \<Rightarrow> (vfio_buffer \<times> vfio_buffer list) option" where
  "unlink_buffer buf [] = None"
| "unlink_buffer buf (b # bs) =
     (if buffer_ptr b = buf then Some (b, bs)
      else map_option (\<lambda>(x, xs). (x, b # xs)) (unlink_buffer buf bs))"

definition buffer_free :: "env \<Rightarrow> opae_vfio \<Rightarrow> u64 \<Rightarrow> trace \<Rightarrow> int \<times> opae_vfio \<times> trace" where
  "buffer_free E v buf t =
     (case sys E C_lock t of (r, t) \<Rightarrow>
      if r \<noteq> 0 then (2, v, t)
      else case unlink_buffer buf (cont_buffers v) of
          None \<Rightarrow> (3, v, unlock E t)
        | Some (b, bs) \<Rightarrow>
            (case opae_vfio_destroy_buffer E (v\<lparr>cont_buffers := bs\<rparr>) [b] t of (v, t) \<Rightarrow>
               (0, v, unlock E t)))"

definition opae_vfio_buffer_free ::
  "env \<Rightarrow> opae_vfio option \<Rightarrow> u64 \<Rightarrow> trace \<Rightarrow> int \<times> opae_vfio option \<times> trace" where
  "opae_vfio_buffer_free E v buf t =
     (case v of
        None \<Rightarrow> (1, None, t)
      | Some v \<Rightarrow> (case buffer_free E v buf t of (r, v, t) \<Rightarrow> (r, Some v, t)))"

subsection \<open>Interrupts\<close>

text \<open>
  The four operations share one loop: the first interrupt of the index that has the capability
  \<open>flag\<close> decides. The structure passed to \<^verbatim>\<open>VFIO_DEVICE_SET_IRQS\<close> is the argument of \<open>C_set_irqs\<close>,
  its \<^verbatim>\<open>count\<close> of 1 and its size left out.
\<close>

fun irq_loop ::
  "env \<Rightarrow> int \<Rightarrow> device_irq list \<Rightarrow> u32 \<Rightarrow> u32 \<Rightarrow> u32 \<Rightarrow> call \<Rightarrow> trace \<Rightarrow> int \<times> trace" where
  "irq_loop E fd [] index subindex flag request t = (2, t)"
| "irq_loop E fd (q # qs) index subindex flag request t =
     (if irq_index q = index \<and> irq_flags q AND flag \<noteq> 0 then
        (if subindex < irq_count q then sys E request t else (3, t))
      else irq_loop E fd qs index subindex flag request t)"

definition irq_request ::
  "env \<Rightarrow> opae_vfio option \<Rightarrow> u32 \<Rightarrow> u32 \<Rightarrow> u32 \<Rightarrow> irq_action \<Rightarrow> int option \<Rightarrow> trace \<Rightarrow> int \<times> trace" where
  "irq_request E v index subindex flag action data t =
     (case v of
        None \<Rightarrow> (1, t)
      | Some v \<Rightarrow>
          irq_loop E (device_fd (v_device v)) (irqs (v_device v)) index subindex flag
            (C_set_irqs (device_fd (v_device v)) action index subindex data) t)"

definition opae_vfio_irq_enable ::
  "env \<Rightarrow> opae_vfio option \<Rightarrow> u32 \<Rightarrow> u32 \<Rightarrow> int \<Rightarrow> trace \<Rightarrow> int \<times> trace" where
  "opae_vfio_irq_enable E v index subindex event_fd t =
     irq_request E v index subindex (VFIO_IRQ_INFO_EVENTFD E) TRIGGER (Some event_fd) t"

definition opae_vfio_irq_unmask ::
  "env \<Rightarrow> opae_vfio option \<Rightarrow> u32 \<Rightarrow> u32 \<Rightarrow> trace \<Rightarrow> int \<times> trace" where
  "opae_vfio_irq_unmask E v index subindex t =
     irq_request E v index subindex (VFIO_IRQ_INFO_MASKABLE E) UNMASK None t"

definition opae_vfio_irq_mask ::
  "env \<Rightarrow> opae_vfio option \<Rightarrow> u32 \<Rightarrow> u32 \<Rightarrow> trace \<Rightarrow> int \<times> trace" where
  "opae_vfio_irq_mask E v index subindex t =
     irq_request E v index subindex (VFIO_IRQ_INFO_MASKABLE E) MASK None t"

definition opae_vfio_irq_disable ::
  "env \<Rightarrow> opae_vfio option \<Rightarrow> u32 \<Rightarrow> u32 \<Rightarrow> trace \<Rightarrow> int \<times> trace" where
  "opae_vfio_irq_disable E v index subindex t =
     irq_request E v index subindex (VFIO_IRQ_INFO_EVENTFD E) TRIGGER (Some (-1)) t"

subsection \<open>Opening and closing\<close>

definition opae_vfio_destroy :: "env \<Rightarrow> opae_vfio \<Rightarrow> trace \<Rightarrow> opae_vfio \<times> trace" where
  "opae_vfio_destroy E v t =
     (case opae_vfio_destroy_buffer E v (cont_buffers v) t of (v, t) \<Rightarrow>
      case opae_vfio_device_destroy E (v_device v) t of (d, t) \<Rightarrow>
      case opae_vfio_group_destroy E (v_group v) t of (g, t) \<Rightarrow>
      let v = v\<lparr>cont_buffers := [], v_device := d, v_group := g, cont_ranges := [],
                iova_alloc := snd (mem_alloc_destroy (iova_alloc v))\<rparr>;
          (v, t) = (if 0 \<le> cont_fd v
                    then (v\<lparr>cont_fd := -1\<rparr>, snd (sys E (C_close (cont_fd v)) t))
                    else (v, t));
          v = v\<lparr>cont_device := None, cont_pciaddr := None\<rparr>
      in (v, snd (sys E C_mutex_destroy (unlock E t))))"

definition vfio_zero :: opae_vfio where
  "vfio_zero =
     \<lparr>cont_device = None, cont_pciaddr = None, cont_fd = -1, cont_ranges = [],
      iova_alloc = mem_alloc_init, v_group = \<lparr>group_device = None, group_fd = -1\<rparr>,
      v_device = \<lparr>device_fd = -1, device_config_offset = 0, device_num_regions = 0,
                 regions = [], device_num_irqs = 0, irqs = []\<rparr>,
      cont_buffers = []\<rparr>"

text \<open>The labels \<^verbatim>\<open>out_destroy_attr\<close> and \<^verbatim>\<open>out_destroy_container\<close>.\<close>

definition destroy_attr :: "env \<Rightarrow> int \<Rightarrow> opae_vfio \<Rightarrow> trace \<Rightarrow> int \<times> opae_vfio \<times> trace" where
  "destroy_attr E res v t =
     (case sys E C_attr_destroy t of (r, t) \<Rightarrow> (if r \<noteq> 0 then 10 else res, v, t))"

definition destroy_container :: "env \<Rightarrow> int \<Rightarrow> opae_vfio \<Rightarrow> trace \<Rightarrow> int \<times> opae_vfio \<times> trace" where
  "destroy_container E res v t =
     (case opae_vfio_destroy E v (snd (sys E C_lock t)) of (v, t) \<Rightarrow> destroy_attr E res v t)"

text \<open>The part of \<^verbatim>\<open>opae_vfio_init\<close> after the group is initialised.\<close>

definition init_device ::
  "env \<Rightarrow> opae_vfio \<Rightarrow> string \<Rightarrow> string option \<Rightarrow> trace \<Rightarrow> (int \<times> opae_vfio \<times> trace) option" where
  "init_device E v pciaddr token t =
     (case sys E (C_set_container (group_fd (v_group v)) (cont_fd v)) t of (r, t) \<Rightarrow>
      if r \<noteq> 0 then Some (destroy_container E 7 v t)
      else case sys E (C_set_iommu (cont_fd v)) t of (r, t) \<Rightarrow>
      if r < 0 then Some (destroy_container E 8 v t)
      else do {
        (r, d, t) \<leftarrow> opae_vfio_device_init E (v_device v) (group_fd (v_group v)) pciaddr token t;
        (let v = v\<lparr>v_device := d\<rparr> in
         if r \<noteq> 0 then Some (destroy_container E r v t)
         else do {
           (ranges, v, t) \<leftarrow> opae_vfio_iova_discover E v t;
           (let v = v\<lparr>cont_ranges := ranges\<rparr> in
            case sys E C_attr_destroy t of (r, t) \<Rightarrow>
              Some (if r \<noteq> 0 then 9 else 0, v, t))
         })
      })"

definition opae_vfio_init ::
  "env \<Rightarrow> string \<Rightarrow> string option \<Rightarrow> trace \<Rightarrow> (int \<times> opae_vfio \<times> trace) option" where
  "opae_vfio_init E pciaddr token t =
     (let v = vfio_zero in
      case sys E C_attr_init t of (r, t) \<Rightarrow>
      if r \<noteq> 0 then Some (1, v, t)
      else case sys E C_attr_settype t of (r, t) \<Rightarrow>
      if r \<noteq> 0 then Some (destroy_attr E 2 v t)
      else case sys E C_mutex_init t of (r, t) \<Rightarrow>
      if r \<noteq> 0 then Some (destroy_attr E 3 v t)
      else case strdup E ''/dev/vfio/vfio'' t of (dev, t) \<Rightarrow>
      case strdup E pciaddr t of (pci, t) \<Rightarrow>
      case sys E (C_open dev) t of (fd, t) \<Rightarrow>
      let v = v\<lparr>cont_device := dev, cont_pciaddr := pci, cont_fd := fd\<rparr> in
      if fd < 0 then Some (destroy_container E 4 v t)
      else case sys E (C_api_version fd) t of (r, t) \<Rightarrow>
      if r \<noteq> VFIO_API_VERSION E then Some (destroy_container E 5 v t)
      else case sys E (C_check_extension fd) t of (r, t) \<Rightarrow>
      if r = 0 then Some (destroy_container E 6 v t)
      else do {
        (dev, t) \<leftarrow> opae_vfio_group_for E pciaddr t;
        (case opae_vfio_group_init E (v_group v) dev t of (r, g, t) \<Rightarrow>
         let v = v\<lparr>v_group := g\<rparr> in
         if r \<noteq> 0 then Some (destroy_container E r v t)
         else init_device E v pciaddr token t)
      })"

definition opae_vfio_open ::
  "env \<Rightarrow> opae_vfio option \<Rightarrow> string option \<Rightarrow> trace \<Rightarrow> (int \<times> opae_vfio option \<times> trace) option" where
  "opae_vfio_open E v pciaddr t =
     (case (v, pciaddr) of
        (Some _, Some pciaddr) \<Rightarrow> do {
          (r, v, t) \<leftarrow> opae_vfio_init E pciaddr None t;
          Some (r, Some v, t)
        }
      | _ \<Rightarrow> Some (1, v, t))"

text \<open>
  \<^verbatim>\<open>GUID_RE_PATTERN\<close> is not anchored: \<^verbatim>\<open>regexec\<close> accepts any text that has a GUID somewhere in it.
\<close>

definition hex_digit :: "char \<Rightarrow> bool" where
  "hex_digit c \<longleftrightarrow> c \<in> set ''0123456789abcdefABCDEF''"

fun guid_prefix :: "nat list \<Rightarrow> string \<Rightarrow> bool" where
  "guid_prefix [] s = True"
| "guid_prefix (n # ns) s =
     (n \<le> length s \<and> list_all hex_digit (take n s) \<and>
      (if ns = [] then True
       else drop n s \<noteq> [] \<and> hd (drop n s) = CHR ''-'' \<and> guid_prefix ns (drop (Suc n) s)))"

definition guid_match :: "string \<Rightarrow> bool" where
  "guid_match s \<longleftrightarrow> list_ex (\<lambda>i. guid_prefix [8, 4, 4, 4, 12] (drop i s)) [0..<Suc (length s)]"

definition opae_vfio_secure_open ::
  "env \<Rightarrow> opae_vfio option \<Rightarrow> string option \<Rightarrow> string option \<Rightarrow> trace \<Rightarrow>
     (int \<times> opae_vfio option \<times> trace) option" where
  "opae_vfio_secure_open E v pciaddr token t =
     (case (v, pciaddr, token) of
        (Some _, Some pciaddr, Some token) \<Rightarrow>
          (case sys E C_regcomp t of (r, t) \<Rightarrow>
           if r \<noteq> 0 then Some (2, v, t)
           else if \<not> guid_match token then Some (3, v, t)
           else do {
             (r, v, t) \<leftarrow> opae_vfio_init E pciaddr (Some token) t;
             Some (r, Some v, t)
           })
      | _ \<Rightarrow> Some (1, v, t))"

definition opae_vfio_region_get ::
  "opae_vfio option \<Rightarrow> u32 \<Rightarrow> int \<times> (u64 \<times> u64) option" where
  "opae_vfio_region_get v index =
     (case v of
        None \<Rightarrow> (1, None)
      | Some v \<Rightarrow>
          (case find (\<lambda>r. index = region_index r) (regions (v_device v)) of
             None \<Rightarrow> (2, None)
           | Some r \<Rightarrow> (0, Some (region_ptr r, region_size r))))"

definition opae_vfio_close :: "env \<Rightarrow> opae_vfio option \<Rightarrow> trace \<Rightarrow> opae_vfio option \<times> trace" where
  "opae_vfio_close E v t =
     (case v of
        None \<Rightarrow> (None, t)
      | Some v \<Rightarrow>
          (case sys E C_lock t of (r, t) \<Rightarrow>
           if r \<noteq> 0 then (Some v, t)
           else case opae_vfio_destroy E v t of (v, t) \<Rightarrow> (Some v, t)))"


subsection \<open>The ledger of resources\<close>

text \<open>
  What the library holds of the operating system: open descriptors, mappings, DMA windows and
  its own lock. \<open>balance\<close> counts over a trace the acquisitions that succeeded minus the
  releases; \<open>owned\<close> counts what the structure records. The lemmas below say of every
  operation that the two change by the same amount: nothing is leaked and nothing is released
  twice or with other arguments than it was acquired with.
\<close>

datatype resource =
    R_fd int
  | R_map u64 u64
  | R_dma u64 u64
  | R_lock

definition delta :: "env \<Rightarrow> trace \<Rightarrow> call \<Rightarrow> resource \<Rightarrow> int" where
  "delta E t c r =
     (case c of
        C_open _ \<Rightarrow> of_bool (0 \<le> ans E t c \<and> r = R_fd (ans E t c))
      | C_device_fd _ _ \<Rightarrow> of_bool (0 \<le> ans E t c \<and> r = R_fd (ans E t c))
      | C_close fd \<Rightarrow> - of_bool (r = R_fd fd)
      | C_mmap _ len _ _ _ \<Rightarrow>
          (case map_ans E t c of None \<Rightarrow> 0 | Some p \<Rightarrow> of_bool (r = R_map p len))
      | C_munmap p len \<Rightarrow> - of_bool (r = R_map p len)
      | C_dma_map _ _ sz iova \<Rightarrow> of_bool (0 \<le> ans E t c \<and> r = R_dma sz iova)
      | C_dma_unmap _ sz iova \<Rightarrow> - of_bool (r = R_dma sz iova)
      | C_lock \<Rightarrow> of_bool (ans E t c = 0 \<and> r = R_lock)
      | C_unlock \<Rightarrow> - of_bool (r = R_lock)
      | _ \<Rightarrow> 0)"

primrec balance :: "env \<Rightarrow> trace \<Rightarrow> resource \<Rightarrow> int" where
  "balance E [] r = 0"
| "balance E (c # t) r = balance E t r + delta E t c r"

definition fd_owned :: "int \<Rightarrow> resource \<Rightarrow> int" where
  "fd_owned fd r = of_bool (0 \<le> fd \<and> r = R_fd fd)"

definition sparse_owned :: "sparse_info list \<Rightarrow> resource \<Rightarrow> int" where
  "sparse_owned ss r =
     (\<Sum>s\<leftarrow>ss. case si_ptr s of None \<Rightarrow> 0 | Some p \<Rightarrow> of_bool (r = R_map p (ucast (si_size s))))"

definition region_owned :: "device_region \<Rightarrow> resource \<Rightarrow> int" where
  "region_owned g r =
     of_bool (r = R_map (region_ptr g) (region_size g)) + sparse_owned (region_sparse g) r"

definition buffer_owned :: "vfio_buffer \<Rightarrow> resource \<Rightarrow> int" where
  "buffer_owned b r =
     of_bool (r = R_map (buffer_ptr b) (buffer_size b)) +
     of_bool (r = R_dma (buffer_size b) (buffer_iova b))"

definition device_owned :: "vfio_device \<Rightarrow> resource \<Rightarrow> int" where
  "device_owned d r = fd_owned (device_fd d) r + (\<Sum>g\<leftarrow>regions d. region_owned g r)"

definition owned :: "opae_vfio \<Rightarrow> resource \<Rightarrow> int" where
  "owned v r =
     fd_owned (cont_fd v) r + fd_owned (group_fd (v_group v)) r + device_owned (v_device v) r +
     (\<Sum>b\<leftarrow>cont_buffers v. buffer_owned b r)"

lemma delta_simps [simp]:
  "delta E t C_malloc r = 0" "delta E t C_snprintf r = 0"
  "delta E t (C_pread fd off) r = 0" "delta E t (C_pwrite fd x off) r = 0"
  "delta E t (C_readlink link) r = 0" "delta E t (C_api_version fd) r = 0"
  "delta E t (C_check_extension fd) r = 0" "delta E t (C_set_iommu fd) r = 0"
  "delta E t (C_iommu_info fd) r = 0" "delta E t (C_group_status fd) r = 0"
  "delta E t (C_set_container fd cfd) r = 0" "delta E t (C_unset_container fd) r = 0"
  "delta E t (C_region_info fd i) r = 0" "delta E t (C_region_caps fd i) r = 0"
  "delta E t (C_device_info fd) r = 0" "delta E t (C_irq_info fd i) r = 0"
  "delta E t (C_set_irqs fd a i sub ev) r = 0" "delta E t C_mutex_init r = 0"
  "delta E t C_mutex_destroy r = 0" "delta E t C_attr_init r = 0"
  "delta E t C_attr_settype r = 0" "delta E t C_attr_destroy r = 0" "delta E t C_regcomp r = 0"
  "delta E t (C_close fd) r = - of_bool (r = R_fd fd)"
  "delta E t (C_munmap p len) r = - of_bool (r = R_map p len)"
  "delta E t (C_dma_unmap fd sz iova) r = - of_bool (r = R_dma sz iova)"
  "delta E t C_unlock r = - of_bool (r = R_lock)"
  "delta E t (C_open path) r = fd_owned (ans E t (C_open path)) r"
  "delta E t (C_device_fd fd arg) r = fd_owned (ans E t (C_device_fd fd arg)) r"
  by (auto simp: delta_def fd_owned_def)

lemma fd_owned_neg [simp]: "fd < 0 \<Longrightarrow> fd_owned fd r = 0"
  by (simp add: fd_owned_def)

named_theorems ledger \<open>how an operation moves the balance of the resources\<close>

lemma sys_ledger [ledger]:
  "sys E c t = (a, t') \<Longrightarrow> balance E t' r = balance E t r + delta E t c r"
  by (auto simp: sys_def)

lemma sys_eq: "sys E c t = (a, t') \<longleftrightarrow> a = ans E t c \<and> t' = c # t"
  by (auto simp: sys_def)

lemma snd_sys [simp]: "snd (sys E c t) = c # t"
  by (simp add: sys_def)

lemma malloc_ledger [ledger]: "malloc E t = (ok, t') \<Longrightarrow> balance E t' r = balance E t r"
  by (auto simp: malloc_def delta_def)

lemma mmap_ledger [ledger]:
  "mmap E addr len flags fd off t = (p, t') \<Longrightarrow>
   balance E t' r = balance E t r + (case p of None \<Rightarrow> 0 | Some p \<Rightarrow> of_bool (r = R_map p len))"
  by (auto simp: mmap_def delta_def split: option.splits)

lemma strdup_ledger [ledger]: "strdup E s t = (p, t') \<Longrightarrow> balance E t' r = balance E t r"
  by (auto simp: strdup_def malloc_ledger split: prod.splits)

lemma unlock_ledger: "balance E (unlock E t) r = balance E t r - of_bool (r = R_lock)"
  by (simp add: unlock_def delta_def)

lemma sparse_owned_simps [simp]:
  "sparse_owned [] r = 0"
  "sparse_owned (s # ss) r =
     (case si_ptr s of None \<Rightarrow> 0 | Some p \<Rightarrow> of_bool (r = R_map p (ucast (si_size s)))) +
     sparse_owned ss r"
  by (simp_all add: sparse_owned_def)

lemma destroy_sparse_ledger:
  "balance E (opae_vfio_destroy_sparse_info E ss t) r = balance E t r - sparse_owned ss r"
  by (induction ss arbitrary: t) (auto simp: delta_def split: option.splits)

lemma destroy_regions_ledger:
  "balance E (opae_vfio_destroy_device_region E rs t) r =
     balance E t r - (\<Sum>g\<leftarrow>rs. region_owned g r)"
  by (induction rs arbitrary: t) (auto simp: destroy_sparse_ledger region_owned_def delta_def)

lemma map_areas_ledger [ledger]:
  "map_areas E base fd off ss t = (ss', t') \<Longrightarrow>
   balance E t' r = balance E t r + sparse_owned ss' r"
  by (induction ss arbitrary: t ss' t') (auto simp: mmap_ledger split: prod.splits option.splits)

lemma create_sparse_ledger [ledger]:
  "opae_vfio_create_sparse_info E i off sz t = (s, t') \<Longrightarrow> balance E t' r = balance E t r"
  by (auto simp: opae_vfio_create_sparse_info_def malloc_ledger split: prod.splits)

lemma sparse_nodes_ledger [ledger]:
  "sparse_nodes E i areas t = (ss, t') \<Longrightarrow> balance E t' r = balance E t r"
proof (induction E i areas t arbitrary: ss t' rule: sparse_nodes.induct)
  case (2 E i offset sz areas t)
  then show ?case by (fastforce simp: create_sparse_ledger split: prod.splits option.splits)
qed simp

lemma get_sparse_ledger [ledger]:
  "opae_vfio_device_get_sparse_info E fd i info t = (ss, t') \<Longrightarrow> balance E t' r = balance E t r"
  by (auto simp: opae_vfio_device_get_sparse_info_def Let_def malloc_ledger sparse_nodes_ledger
      sys_eq delta_def split: prod.splits if_splits)

lemma map_sparse_region_ledger [ledger]:
  "opae_vfio_map_sparse_device_region E i fd off sz ss t = (g, t') \<Longrightarrow>
   balance E t' r = balance E t r + (case g of None \<Rightarrow> 0 | Some g \<Rightarrow> region_owned g r)"
  by (auto simp: opae_vfio_map_sparse_device_region_def malloc_ledger mmap_ledger map_areas_ledger
      region_owned_def split: prod.splits if_splits option.split_asm)

lemma map_region_ledger [ledger]:
  "opae_vfio_map_device_region E i fd off sz t = (g, t') \<Longrightarrow>
   balance E t' r = balance E t r + (case g of None \<Rightarrow> 0 | Some g \<Rightarrow> region_owned g r)"
  by (auto simp: opae_vfio_map_device_region_def malloc_ledger mmap_ledger
      region_owned_def split: prod.splits if_splits option.split_asm)

lemma device_regions_ledger [ledger]:
  "device_regions E fd is t = (rs, t') \<Longrightarrow>
   balance E t' r = balance E t r + (\<Sum>g\<leftarrow>rs. region_owned g r)"
proof (induction "is" arbitrary: t rs t')
  case (Cons i "is")
  show ?case
  proof (cases "ans E t (C_region_info fd i) \<noteq> 0 \<or>
      ri_flags (region_reply E t i) AND VFIO_REGION_INFO_FLAG_MMAP E = 0")
    case True
    then have "device_regions E fd is (C_region_info fd i # t) = (rs, t')"
      using Cons.prems by (elim disjE) (simp_all add: sys_def Let_def split: if_splits)
    from Cons.IH [OF this] show ?thesis by simp
  next
    case False
    let ?info = "region_reply E t i"
    obtain sl t1 where 1: "opae_vfio_device_get_sparse_info E fd i ?info
        (C_region_info fd i # t) = (sl, t1)" by fastforce
    obtain g t2 where 2: "(if sl \<noteq> []
        then opae_vfio_map_sparse_device_region E i fd (ri_offset ?info) (ri_size ?info) sl t1
        else opae_vfio_map_device_region E i fd (ri_offset ?info) (ri_size ?info) t1) = (g, t2)"
      by fastforce
    obtain rest where 3: "device_regions E fd is t2 = (rest, t')"
        and rs: "rs = (case g of None \<Rightarrow> rest | Some g \<Rightarrow> g # rest)"
      using Cons.prems False 1 2 by (auto simp: sys_def Let_def split: prod.splits)
    have "balance E t2 r = balance E t1 r + (case g of None \<Rightarrow> 0 | Some g \<Rightarrow> region_owned g r)"
      using 2 by (cases "sl = []") (simp_all add: map_sparse_region_ledger map_region_ledger)
    then show ?thesis
      using get_sparse_ledger [OF 1] Cons.IH [OF 3] rs by (simp split: option.split)
  qed
qed simp

lemma get_irq_ledger [ledger]:
  "opae_vfio_device_get_irq_info E fl i n t = (q, t') \<Longrightarrow> balance E t' r = balance E t r"
  by (auto simp: opae_vfio_device_get_irq_info_def malloc_ledger split: prod.splits)

lemma device_irqs_ledger [ledger]:
  "device_irqs E fd is t = (qs, t') \<Longrightarrow> balance E t' r = balance E t r"
proof (induction "is" arbitrary: t qs t')
  case (Cons i "is")
  then show ?case
    by (auto simp: sys_def Let_def get_irq_ledger split: prod.splits option.splits if_splits)
qed simp


lemma device_destroy_ledger:
  "opae_vfio_device_destroy E d t = (d', t') \<Longrightarrow>
   balance E t' r = balance E t r - device_owned d r \<and> device_owned d' r = 0"
  by (auto simp: opae_vfio_device_destroy_def Let_def destroy_regions_ledger device_owned_def
      fd_owned_def split: if_splits)

lemma setup_pci_ledger [ledger]:
  "setup_pci_command E fd off t = (a, t') \<Longrightarrow> balance E t' r = balance E t r"
  by (auto simp: setup_pci_command_def Let_def sys_def split: if_splits)

lemma device_arg_ledger [ledger]:
  "device_arg E p tok t = Some (a, t') \<Longrightarrow> balance E t' r = balance E t r"
  by (auto simp: device_arg_def sys_def split: option.splits if_splits)

lemma device_init_ledger:
  assumes "opae_vfio_device_init E d gfd p tok t = Some (a, d', t')"
    and "device_fd d < 0" "regions d = []"
  shows "balance E t' r = balance E t r + device_owned d' r"
proof -
  obtain arg t1 where 1: "device_arg E p tok t = Some (arg, t1)"
    using assms(1) by (cases "device_arg E p tok t") (auto simp: opae_vfio_device_init_def)
  show ?thesis
  proof (cases arg)
    case None
    with assms 1 show ?thesis
      by (auto simp: opae_vfio_device_init_def device_arg_ledger device_owned_def)
  next
    case (Some arg)
    with assms 1 show ?thesis
      by (auto simp: opae_vfio_device_init_def Let_def sys_def setup_pci_ledger
          device_regions_ledger device_irqs_ledger device_arg_ledger device_owned_def
          split: if_splits prod.splits)
  qed
qed

lemma group_destroy_ledger:
  "opae_vfio_group_destroy E g t = (g', t') \<Longrightarrow>
   balance E t' r = balance E t r - fd_owned (group_fd g) r \<and> fd_owned (group_fd g') r = 0"
  by (auto simp: opae_vfio_group_destroy_def Let_def fd_owned_def split: if_splits)

lemma group_init_ledger:
  "opae_vfio_group_init E g dev t = (a, g', t') \<Longrightarrow> group_fd g < 0 \<Longrightarrow>
   balance E t' r = balance E t r + fd_owned (group_fd g') r"
  by (auto simp: opae_vfio_group_init_def Let_def sys_def
      split: if_splits prod.splits dest: group_destroy_ledger [of _ _ _ _ _ r])

lemma group_for_ledger [ledger]:
  "opae_vfio_group_for E p t = Some (d, t') \<Longrightarrow> balance E t' r = balance E t r"
  by (auto simp: opae_vfio_group_for_def Let_def sys_def strdup_ledger
      split: if_splits option.splits)

lemma add_ranges_ledger [ledger]:
  "add_ranges E rs m t = (nodes, m', t') \<Longrightarrow> balance E t' r = balance E t r"
proof (induction E rs m t arbitrary: nodes m' t' rule: add_ranges.induct)
  case (2 E start stop rs m t)
  then show ?case by (fastforce simp: malloc_ledger split: prod.splits if_splits)
qed simp

lemma iova_walk_ledger [ledger]:
  "iova_walk E caps off ranges m t = Some (ranges', m', t') \<Longrightarrow> balance E t' r = balance E t r"
proof -
  assume "iova_walk E caps off ranges m t = Some (ranges', m', t')"
  then have "balance E (snd (snd (ranges', m', t'))) r = balance E t r"
    by (rule iova_walk.raw_induct [where P = "\<lambda>E caps off ranges m t y.
          balance E (snd (snd y)) r = balance E t r", rotated])
      (fastforce simp: add_ranges_ledger split: prod.splits if_splits)
  then show ?thesis by simp
qed

lemma iova_discover_ledger:
  "opae_vfio_iova_discover E v t = Some (rs, v', t') \<Longrightarrow>
   balance E t' r = balance E t r \<and> owned v' r = owned v r"
  by (auto simp: opae_vfio_iova_discover_def Let_def sys_def malloc_ledger iova_walk_ledger owned_def
      split: if_splits prod.splits bind_splits)

lemma destroy_buffer_ledger:
  "opae_vfio_destroy_buffer E v bs t = (v', t') \<Longrightarrow>
   balance E t' r = balance E t r - (\<Sum>b\<leftarrow>bs. buffer_owned b r) \<and>
   v' = v\<lparr>iova_alloc := iova_alloc v'\<rparr>"
  by (induction bs arbitrary: v t)
    (fastforce simp: sys_def malloc_ledger buffer_owned_def split: prod.splits)+


lemma iova_reserve_frame:
  "opae_vfio_iova_reserve E v sz t = (a, sz', io, v', t') \<Longrightarrow>
   v' = v\<lparr>iova_alloc := iova_alloc v'\<rparr> \<and> balance E t' r = balance E t r"
  by (auto simp: opae_vfio_iova_reserve_def Let_def malloc_ledger split: prod.splits)

lemma owned_frame:
  "v' = v\<lparr>iova_alloc := m\<rparr> \<Longrightarrow> owned v' r = owned v r"
  by (simp add: owned_def)

lemma lock_delta: "ans E t C_lock = 0 \<Longrightarrow> delta E t C_lock r = of_bool (r = R_lock)"
  by (simp add: delta_def)

lemma lock_failed_delta: "ans E t C_lock \<noteq> 0 \<Longrightarrow> delta E t C_lock r = 0"
  by (simp add: delta_def)

lemma dma_map_delta:
  "delta E t (C_dma_map fd va sz iova) r =
     of_bool (0 \<le> ans E t (C_dma_map fd va sz iova) \<and> r = R_dma sz iova)"
  by (simp add: delta_def)

lemma create_buffer_ledger:
  "opae_vfio_create_buffer E va sz io t = (b, t') \<Longrightarrow>
   balance E t' r = balance E t r \<and>
   (case b of None \<Rightarrow> True
    | Some b \<Rightarrow> b = \<lparr>buffer_ptr = va, buffer_size = sz, buffer_iova = io\<rparr>)"
  by (auto simp: opae_vfio_create_buffer_def malloc_ledger split: prod.splits if_splits)

lemma owned_cons:
  "owned (v\<lparr>cont_buffers := b # cont_buffers v\<rparr>) r = buffer_owned b r + owned v r"
  by (simp add: owned_def)

lemma buffer_allocate_ledger:
  assumes "buffer_allocate E v sz wb wi t = (res, v', t')"
  shows "balance E t' r - balance E t r = owned v' r - owned v r"
proof (cases "sz = 0 \<or> ans E t C_lock \<noteq> 0")
  case True
  with assms show ?thesis
    by (auto simp: buffer_allocate_def sys_def lock_failed_delta split: if_splits)
next
  case False
  let ?t = "C_lock # t"
  obtain a sz1 io v1 t1 where 1: "opae_vfio_iova_reserve E v sz ?t = (a, sz1, io, v1, t1)"
    by (metis surj_pair)
  have v1: "owned v1 r = owned v r" "balance E t1 r = balance E t r + of_bool (r = R_lock)"
    using owned_frame [OF conjunct1 [OF iova_reserve_frame [OF 1, of r]]]
      conjunct2 [OF iova_reserve_frame [OF 1, of r]] False by (simp_all add: lock_delta)
  show ?thesis
  proof (cases "a = 0")
    case False
    with assms \<open>\<not> (sz = 0 \<or> _)\<close> 1 v1 show ?thesis
      by (auto simp: buffer_allocate_def sys_def unlock_ledger)
  next
    case True
    obtain ioaddr where io: "(case io of None \<Rightarrow> 0 | Some a \<Rightarrow> a) = ioaddr" by simp
    obtain va t2 where 2: "mmap E 0 sz1 (map_flags_for sz1) 0 0 t1 = (va, t2)" by fastforce
    note b2 = mmap_ledger [OF 2, of r]
    show ?thesis
    proof (cases va)
      case None
      with assms \<open>\<not> (sz = 0 \<or> _)\<close> True 1 2 v1 b2 show ?thesis
        by (auto simp: buffer_allocate_def sys_def unlock_ledger)
    next
      case (Some va)
      let ?c = "C_dma_map (cont_fd v1) va sz1 ioaddr"
      obtain b t3 where 3: "opae_vfio_create_buffer E va sz1 ioaddr (?c # t2) = (b, t3)" by fastforce
      from create_buffer_ledger [OF 3, of r] assms \<open>\<not> (sz = 0 \<or> _)\<close> True 1 2 Some v1 b2
      show ?thesis
        by (cases b) (auto simp: buffer_allocate_def sys_def unlock_ledger io 3 dma_map_delta
            owned_cons buffer_owned_def split: if_splits)
    qed
  qed
qed

lemma unlink_buffer_owned:
  "unlink_buffer p bs = Some (b, rest) \<Longrightarrow>
   (\<Sum>x\<leftarrow>bs. buffer_owned x r) = buffer_owned b r + (\<Sum>x\<leftarrow>rest. buffer_owned x r)"
  by (induction bs arbitrary: rest) (auto split: if_splits)

lemma buffer_free_ledger:
  assumes "buffer_free E v p t = (a, v', t')"
  shows "balance E t' r - balance E t r = owned v' r - owned v r"
proof (cases "ans E t C_lock = 0")
  case True
  show ?thesis
  proof (cases "unlink_buffer p (cont_buffers v)")
    case None
    with assms True show ?thesis by (auto simp: buffer_free_def sys_def unlock_ledger lock_delta)
  next
    case (Some x)
    obtain b bs where x: "x = (b, bs)" by fastforce
    let ?v = "v\<lparr>cont_buffers := bs\<rparr>"
    obtain v2 t2 where 2: "opae_vfio_destroy_buffer E ?v [b] (C_lock # t) = (v2, t2)" by fastforce
    note d = destroy_buffer_ledger [OF 2, of r]
    have "v' = v2" "t' = unlock E t2"
      using assms True Some x 2 by (auto simp: buffer_free_def sys_def simp del: opae_vfio_destroy_buffer.simps)
    moreover have "owned v2 r = owned ?v r"
      by (rule owned_frame [OF conjunct2 [OF d]])
    moreover have "owned ?v r = owned v r - buffer_owned b r"
      using unlink_buffer_owned [of p "cont_buffers v" b bs r] Some x by (simp add: owned_def)
    ultimately show ?thesis using d True by (simp add: unlock_ledger lock_delta)
  qed
next
  case False
  with assms show ?thesis by (auto simp: buffer_free_def sys_def lock_failed_delta)
qed

lemma destroy_ledger:
  assumes "opae_vfio_destroy E v t = (v', t')"
  shows "balance E t' r = balance E t r - owned v r - of_bool (r = R_lock) \<and> owned v' r = 0"
proof -
  obtain v1 t1 where 1: "opae_vfio_destroy_buffer E v (cont_buffers v) t = (v1, t1)" by fastforce
  obtain d t2 where 2: "opae_vfio_device_destroy E (v_device v1) t1 = (d, t2)" by fastforce
  obtain g t3 where 3: "opae_vfio_group_destroy E (v_group v1) t2 = (g, t3)" by fastforce
  note b = destroy_buffer_ledger [OF 1, of r]
  have v1: "v_device v1 = v_device v" "v_group v1 = v_group v" "cont_fd v1 = cont_fd v"
    using arg_cong [OF conjunct2 [OF b], of v_device] arg_cong [OF conjunct2 [OF b], of v_group]
      arg_cong [OF conjunct2 [OF b], of cont_fd] by simp_all
  have t: "t' = C_mutex_destroy # unlock E (if 0 \<le> cont_fd v then C_close (cont_fd v) # t3 else t3)"
    using assms 1 2 3 v1(3) by (simp add: opae_vfio_destroy_def Let_def split: if_splits)
  have v': "cont_buffers v' = []" "v_device v' = d" "v_group v' = g"
      "cont_fd v' = (if 0 \<le> cont_fd v then -1 else cont_fd v)"
    using assms 1 2 3 v1(3) by (auto simp: opae_vfio_destroy_def Let_def split: if_splits)
  note l = device_destroy_ledger [OF 2, of r] group_destroy_ledger [OF 3, of r] conjunct1 [OF b]
  have "balance E t3 r = balance E t r - (owned v r - fd_owned (cont_fd v) r)"
    using l v1 by (simp add: owned_def)
  then have "balance E t' r = balance E t r - owned v r - of_bool (r = R_lock)"
    by (simp add: t unlock_ledger fd_owned_def)
  moreover have "owned v' r = 0"
    using l by (simp add: owned_def v')
  ultimately show ?thesis by simp
qed

lemma destroy_container_code:
  "destroy_container E a v t = (a', v', t') \<Longrightarrow> a \<noteq> 0 \<Longrightarrow> a' \<noteq> 0"
  by (auto simp: destroy_container_def destroy_attr_def split: prod.splits if_splits)

lemma destroy_container_ledger:
  "destroy_container E a v t = (a', v', t') \<Longrightarrow> a \<noteq> 0 \<Longrightarrow> r \<noteq> R_lock \<or> a' = 0 \<Longrightarrow>
   balance E t' r = balance E t r - owned v r \<and> owned v' r = 0"
  using destroy_container_code [of E a v t a' v' t']
  by (auto simp: destroy_container_def destroy_attr_def sys_def delta_def split: prod.splits
      dest: destroy_ledger [of _ _ _ _ _ r])


lemma init_device_ledger:
  assumes "init_device E v p tok t = Some (a, v', t')"
    and "device_fd (v_device v) < 0" "regions (v_device v) = []" "r \<noteq> R_lock \<or> a = 0"
  shows "balance E t' r - balance E t r = owned v' r - owned v r \<and>
    (a = 0 \<or> a = 9 \<or> owned v' r = 0)"
proof -
  let ?c1 = "C_set_container (group_fd (v_group v)) (cont_fd v)"
  let ?c2 = "C_set_iommu (cont_fd v)"
  let ?t2 = "?c2 # ?c1 # t"
  have dev: "device_owned (v_device v) r = 0"
    using assms(2,3) by (simp add: device_owned_def)
  show ?thesis
  proof (cases "ans E t ?c1 \<noteq> 0 \<or> ans E (?c1 # t) ?c2 < 0")
    case True
    then obtain b t2 where 2: "destroy_container E b v t2 = (a, v', t')" "b \<noteq> 0"
        "balance E t2 r = balance E t r"
      using assms(1) by (elim disjE) (auto simp: init_device_def sys_def split: if_splits)
    from destroy_container_ledger [OF 2(1,2) assms(4)] 2(3) show ?thesis by simp
  next
    case False
    obtain b d t3 where 3: "opae_vfio_device_init E (v_device v) (group_fd (v_group v)) p tok ?t2 =
        Some (b, d, t3)"
      using assms(1) False by (auto simp: init_device_def sys_def split: bind_splits)
    have d: "balance E t3 r = balance E t r + device_owned d r"
      using device_init_ledger [OF 3 assms(2,3), of r] by simp
    have v3: "owned (v\<lparr>v_device := d\<rparr>) r = owned v r + device_owned d r"
      using dev by (simp add: owned_def)
    show ?thesis
    proof (cases "b = 0")
      case False
      then have "destroy_container E b (v\<lparr>v_device := d\<rparr>) t3 = (a, v', t')"
        using assms(1) 3 \<open>\<not> (ans E t ?c1 \<noteq> 0 \<or> _)\<close> by (simp add: init_device_def sys_def)
      from destroy_container_ledger [OF this False assms(4)] d v3 show ?thesis by simp
    next
      case True
      obtain rs v4 t4 where 4: "opae_vfio_iova_discover E (v\<lparr>v_device := d\<rparr>) t3 = Some (rs, v4, t4)"
        using assms(1) False True 3 by (auto simp: init_device_def sys_def split: bind_splits)
      have "v' = v4\<lparr>cont_ranges := rs\<rparr>" "t' = C_attr_destroy # t4" "a = 0 \<or> a = 9"
        using assms(1) False True 3 4 by (auto simp: init_device_def sys_def split: if_splits)
      moreover have "owned (v4\<lparr>cont_ranges := rs\<rparr>) r = owned v4 r" by (simp add: owned_def)
      ultimately show ?thesis using iova_discover_ledger [OF 4, of r] d v3 by auto
    qed
  qed
qed

lemma vfio_zero_owned: "owned vfio_zero r = 0"
  by (simp add: owned_def vfio_zero_def device_owned_def)

lemma init_ledger:
  assumes "opae_vfio_init E p tok t = Some (a, v', t')" "r \<noteq> R_lock \<or> a = 0"
  shows "balance E t' r = balance E t r + owned v' r \<and> (a = 0 \<or> a = 9 \<or> owned v' r = 0)"
proof (cases "ans E t C_attr_init \<noteq> 0 \<or> ans E (C_attr_init # t) C_attr_settype \<noteq> 0 \<or>
    ans E (C_attr_settype # C_attr_init # t) C_mutex_init \<noteq> 0")
  case True
  then show ?thesis
    using assms by (elim disjE)
      (auto simp: opae_vfio_init_def Let_def sys_def destroy_attr_def vfio_zero_owned split: if_splits)
next
  case False
  let ?t1 = "C_mutex_init # C_attr_settype # C_attr_init # t"
  obtain dev t2 where 2: "strdup E ''/dev/vfio/vfio'' ?t1 = (dev, t2)" by fastforce
  obtain pci t3 where 3: "strdup E p t2 = (pci, t3)" by fastforce
  let ?fd = "ans E t3 (C_open dev)"
  let ?v = "vfio_zero\<lparr>cont_device := dev, cont_pciaddr := pci, cont_fd := ?fd\<rparr>"
  let ?t4 = "C_open dev # t3"
  let ?t5 = "C_api_version ?fd # ?t4"
  let ?t6 = "C_check_extension ?fd # ?t5"
  have t4: "balance E ?t4 r = balance E t r + fd_owned ?fd r"
    using strdup_ledger [OF 2, of r] strdup_ledger [OF 3, of r] by simp
  have ow: "owned ?v r = fd_owned ?fd r"
    by (simp add: owned_def vfio_zero_def device_owned_def)
  show ?thesis
  proof (cases "?fd < 0 \<or> ans E ?t4 (C_api_version ?fd) \<noteq> VFIO_API_VERSION E \<or>
      ans E ?t5 (C_check_extension ?fd) = 0")
    case True
    then obtain b t7 where 7: "destroy_container E b ?v t7 = (a, v', t')" "b \<noteq> 0"
        "balance E t7 r = balance E ?t4 r"
      using assms(1) False 2 3
      by (elim disjE) (auto simp: opae_vfio_init_def Let_def sys_def split: if_splits)
    from destroy_container_ledger [OF 7(1,2) assms(2)] 7(3) t4 ow show ?thesis by simp
  next
    case ok: False
    obtain gdev t7 where 7: "opae_vfio_group_for E p ?t6 = Some (gdev, t7)"
      using assms(1) False ok 2 3
      by (auto simp: opae_vfio_init_def Let_def sys_def split: bind_splits)
    obtain b g t8 where 8: "opae_vfio_group_init E (v_group ?v) gdev t7 = (b, g, t8)"
      by (metis prod_cases3)
    have neg: "group_fd (v_group ?v) < 0" by (simp add: vfio_zero_def)
    have t8: "balance E t8 r = balance E t r + fd_owned ?fd r + fd_owned (group_fd g) r"
      using group_init_ledger [OF 8 neg, of r] group_for_ledger [OF 7, of r] t4 by simp
    let ?w = "?v\<lparr>v_group := g\<rparr>"
    have w: "owned ?w r = fd_owned ?fd r + fd_owned (group_fd g) r"
      by (simp add: owned_def vfio_zero_def device_owned_def)
    have eq: "Some (a, v', t') =
        (if b \<noteq> 0 then Some (destroy_container E b ?w t8) else init_device E ?w p tok t8)"
      using assms(1) False ok 2 3 7 8
      by (simp add: opae_vfio_init_def Let_def sys_def)
    show ?thesis
    proof (cases "b = 0")
      case True
      then have "init_device E ?w p tok t8 = Some (a, v', t')" using eq by simp
      from init_device_ledger [OF this _ _ assms(2)] w t8 show ?thesis
        by (simp add: vfio_zero_def)
    next
      case False
      then have "destroy_container E b ?w t8 = (a, v', t')" using eq by simp
      from destroy_container_ledger [OF this False assms(2)] w t8 show ?thesis by simp
    qed
  qed
qed


lemma destroy_attr_code:
  "destroy_attr E a v t = (a', v', t') \<Longrightarrow> a \<noteq> 0 \<Longrightarrow> a' \<noteq> 0"
  by (auto simp: destroy_attr_def split: prod.splits if_splits)

text \<open>What a successful initialisation has done.\<close>

lemma init_device_success:
  assumes "init_device E v p tok t = Some (0, v', t')"
  obtains d t1 rs w t2 where
    "opae_vfio_device_init E (v_device v) (group_fd (v_group v)) p tok
       (C_set_iommu (cont_fd v) # C_set_container (group_fd (v_group v)) (cont_fd v) # t) =
     Some (0, d, t1)"
    "opae_vfio_iova_discover E (v\<lparr>v_device := d\<rparr>) t1 = Some (rs, w, t2)"
    "v' = w\<lparr>cont_ranges := rs\<rparr>"
  using assms
  by (auto simp: init_device_def sys_def Let_def split: if_splits bind_splits
      dest: destroy_container_code)

lemma init_success:
  assumes "opae_vfio_init E p tok t = Some (0, v', t')"
  obtains v t1 where "init_device E v p tok t1 = Some (0, v', t')"
    "v_device v = v_device vfio_zero" "iova_alloc v = mem_alloc_init" "cont_buffers v = []"
  using assms
  by (auto simp: opae_vfio_init_def Let_def sys_def vfio_zero_def split: if_splits bind_splits prod.splits
      dest: destroy_container_code destroy_attr_code)

end
