(* ===== verification/Opae_State.thy ===== *)
theory Opae_State
  imports Opae_Prelude
begin

section \<open>Objects and state of libopae-c (opae_int.h, props.h, adapter.h)\<close>

text \<open>
  The objects of \<^verbatim>\<open>libopae-c\<close> live in a store from addresses to objects; address 0 is NULL.
  Reading an address that holds no object is undefined behaviour, and every operation is a
  partial function of the state: None is undefined behaviour (a use after free, a NULL
  dereference, an access to an object of another type). The address of a freed object is never
  used again, so every dangling pointer stays visible. The mutexes are recursive and the
  model is one thread: a mutex is its recursion depth. \<open>mallocs\<close> holds the outcomes of the coming
  allocations (when it runs out they succeed).

  A plugin is reached through its table of function pointers, any of which may be NULL. Its
  functions are parameters: functions of their arguments and of the plugins' own state
  \<open>'p\<close>, giving a result code, what they store through their output pointers, and the new
  plugin state.
\<close>

type_synonym ptr = nat

abbreviation (input) NULL :: ptr where "NULL \<equiv> 0"

definition FPGA_DEVICE :: u32 where "FPGA_DEVICE = 0"

definition FPGA_ACCELERATOR :: u32 where "FPGA_ACCELERATOR = 1"

record fpga_version =
  v_major :: u8
  v_minor :: u8
  v_patch :: u16

subsection \<open>Properties objects\<close>

text \<open>\<open>pr_u\<close> is the union of the object-specific properties, as its 24 bytes.\<close>

record fpga_properties =
  pr_lock :: nat
  pr_magic :: u64
  valid_fields :: u64
  pr_guid :: "u8 list"
  pr_parent :: ptr
  pr_objtype :: u32
  pr_segment :: u16
  pr_bus :: u8
  pr_device :: u8
  pr_function :: u8
  pr_socket_id :: u8
  pr_object_id :: u64
  pr_vendor_id :: u16
  pr_device_id :: u16
  pr_num_errors :: u32
  pr_u :: "u8 list"

definition FPGA_PROPERTY_MAGIC :: u64 where "FPGA_PROPERTY_MAGIC = 0x4650474150524f50"

definition FPGA_PROPERTY_PARENT :: nat where "FPGA_PROPERTY_PARENT = 0"
definition FPGA_PROPERTY_OBJTYPE :: nat where "FPGA_PROPERTY_OBJTYPE = 1"
definition FPGA_PROPERTY_SEGMENT :: nat where "FPGA_PROPERTY_SEGMENT = 2"
definition FPGA_PROPERTY_BUS :: nat where "FPGA_PROPERTY_BUS = 3"
definition FPGA_PROPERTY_DEVICE :: nat where "FPGA_PROPERTY_DEVICE = 4"
definition FPGA_PROPERTY_FUNCTION :: nat where "FPGA_PROPERTY_FUNCTION = 5"
definition FPGA_PROPERTY_SOCKETID :: nat where "FPGA_PROPERTY_SOCKETID = 6"
definition FPGA_PROPERTY_VENDORID :: nat where "FPGA_PROPERTY_VENDORID = 7"
definition FPGA_PROPERTY_DEVICEID :: nat where "FPGA_PROPERTY_DEVICEID = 8"
definition FPGA_PROPERTY_GUID :: nat where "FPGA_PROPERTY_GUID = 9"
definition FPGA_PROPERTY_OBJECTID :: nat where "FPGA_PROPERTY_OBJECTID = 10"
definition FPGA_PROPERTY_NUM_ERRORS :: nat where "FPGA_PROPERTY_NUM_ERRORS = 11"
definition FPGA_PROPERTY_NUM_SLOTS :: nat where "FPGA_PROPERTY_NUM_SLOTS = 32"
definition FPGA_PROPERTY_BBSID :: nat where "FPGA_PROPERTY_BBSID = 33"
definition FPGA_PROPERTY_BBSVERSION :: nat where "FPGA_PROPERTY_BBSVERSION = 34"
definition FPGA_PROPERTY_ACCELERATOR_STATE :: nat where "FPGA_PROPERTY_ACCELERATOR_STATE = 32"
definition FPGA_PROPERTY_NUM_MMIO :: nat where "FPGA_PROPERTY_NUM_MMIO = 33"
definition FPGA_PROPERTY_NUM_INTERRUPTS :: nat where "FPGA_PROPERTY_NUM_INTERRUPTS = 34"

lemmas property_bits =
  FPGA_PROPERTY_PARENT_def FPGA_PROPERTY_OBJTYPE_def FPGA_PROPERTY_SEGMENT_def
  FPGA_PROPERTY_BUS_def FPGA_PROPERTY_DEVICE_def FPGA_PROPERTY_FUNCTION_def
  FPGA_PROPERTY_SOCKETID_def FPGA_PROPERTY_VENDORID_def FPGA_PROPERTY_DEVICEID_def
  FPGA_PROPERTY_GUID_def FPGA_PROPERTY_OBJECTID_def FPGA_PROPERTY_NUM_ERRORS_def
  FPGA_PROPERTY_NUM_SLOTS_def FPGA_PROPERTY_BBSID_def FPGA_PROPERTY_BBSVERSION_def
  FPGA_PROPERTY_ACCELERATOR_STATE_def FPGA_PROPERTY_NUM_MMIO_def FPGA_PROPERTY_NUM_INTERRUPTS_def

definition FIELD_VALID :: "fpga_properties \<Rightarrow> nat \<Rightarrow> bool" where
  "FIELD_VALID p f \<longleftrightarrow> drop_bit f (valid_fields p) AND 1 \<noteq> 0"

definition SET_FIELD_VALID :: "nat \<Rightarrow> fpga_properties \<Rightarrow> fpga_properties" where
  "SET_FIELD_VALID f p = p\<lparr>valid_fields := valid_fields p OR push_bit f 1\<rparr>"

definition CLEAR_FIELD_VALID :: "nat \<Rightarrow> fpga_properties \<Rightarrow> fpga_properties" where
  "CLEAR_FIELD_VALID f p = p\<lparr>valid_fields := valid_fields p AND NOT (push_bit f 1)\<rparr>"

subsection \<open>Wrapped objects\<close>

record wrapped_token =
  wt_magic :: u32
  wt_opae_token :: ptr
  wt_ref_count :: u32
  wt_adapter :: ptr

record wrapped_handle =
  wh_magic :: u32
  wh_token :: ptr
  wh_opae_handle :: ptr
  wh_adapter :: ptr

record wrapped_event_handle =
  we_magic :: u32
  we_lock :: nat
  we_flags :: u32
  we_opae_event_handle :: ptr
  we_adapter :: ptr

record wrapped_object =
  wo_magic :: u32
  wo_opae_object :: ptr
  wo_adapter :: ptr

definition OPAE_WRAPPED_TOKEN_MAGIC :: u32 where "OPAE_WRAPPED_TOKEN_MAGIC = 0x6b6f7477"
definition OPAE_WRAPPED_HANDLE_MAGIC :: u32 where "OPAE_WRAPPED_HANDLE_MAGIC = 0x6e616877"
definition OPAE_WRAPPED_EVENT_HANDLE_MAGIC :: u32 where
  "OPAE_WRAPPED_EVENT_HANDLE_MAGIC = 0x65766577"
definition OPAE_WRAPPED_EVENT_HANDLE_CREATED :: u32 where
  "OPAE_WRAPPED_EVENT_HANDLE_CREATED = 1"
definition OPAE_WRAPPED_OBJECT_MAGIC :: u32 where "OPAE_WRAPPED_OBJECT_MAGIC = 0x6a626f77"

lemmas wrapped_magics =
  OPAE_WRAPPED_TOKEN_MAGIC_def OPAE_WRAPPED_HANDLE_MAGIC_def OPAE_WRAPPED_EVENT_HANDLE_MAGIC_def
  OPAE_WRAPPED_OBJECT_MAGIC_def

text \<open>
  An address a plugin owns (an unwrapped token, say) holds a foreign object, of which the
  library only ever reads the first 32 bits. The first word of a properties object is that of
  its mutex, which is never one of the magic numbers.
\<close>

datatype obj =
    OTok wrapped_token
  | OProps fpga_properties
  | OHandle wrapped_handle
  | OEvent wrapped_event_handle
  | OObj wrapped_object
  | OForeign u32

fun obj_magic :: "obj \<Rightarrow> u32" where
  "obj_magic (OTok w) = wt_magic w"
| "obj_magic (OProps p) = 0"
| "obj_magic (OHandle h) = wh_magic h"
| "obj_magic (OEvent e) = we_magic e"
| "obj_magic (OObj b) = wo_magic b"
| "obj_magic (OForeign m) = m"

subsection \<open>Plugins\<close>

text \<open>The entries of \<^verbatim>\<open>struct _opae_api_adapter_table\<close> that the library calls.\<close>

datatype (plugins only:) entry =
    E_Open | E_Close | E_Reset | E_GetPropertiesFromHandle | E_GetProperties
  | E_UpdateProperties | E_WriteMMIO64 | E_ReadMMIO64 | E_WriteMMIO32 | E_ReadMMIO32
  | E_WriteMMIO512 | E_MapMMIO | E_UnmapMMIO | E_Enumerate | E_CloneToken | E_DestroyToken
  | E_PrepareBuffer | E_ReleaseBuffer | E_GetIOAddress | E_ReadError | E_ClearError
  | E_ClearAllErrors | E_GetErrorInfo | E_CreateEventHandle | E_DestroyEventHandle
  | E_GetOSObjectFromEventHandle | E_RegisterEvent | E_UnregisterEvent
  | E_AssignPortToInterface | E_AssignToInterface | E_ReleaseFromInterface
  | E_ReconfigureSlot | E_TokenGetObject | E_HandleGetObject | E_ObjectGetObject
  | E_ObjectGetObjectAt | E_DestroyObject | E_ObjectRead | E_ObjectRead64 | E_ObjectGetSize
  | E_ObjectGetType | E_ObjectWrite64 | E_SetUserClock | E_GetUserClock | E_GetNumMetrics
  | E_GetMetricsInfo | E_GetMetricsByIndex | E_GetMetricsByName | E_GetMetricsThresholdInfo

text \<open>C values as they cross the plugin interface.\<close>

datatype arg =
    Ptr ptr
  | W32 u32
  | W64 u64
  | Str string
  | Bytes "u8 list"
  | Props fpga_properties
  | Ptrs "ptr list"
  | Strs "string list"
  | W64s "u64 list"

type_synonym reply = "fpga_result \<times> arg list"

record 'p adapter =
  ad_path :: string
  ad_dl_handle :: ptr
  ad_fn :: "entry \<Rightarrow> (arg list \<Rightarrow> 'p \<Rightarrow> reply \<times> 'p) option"
  ad_initialize :: "('p \<Rightarrow> int \<times> 'p) option"
  ad_finalize :: "('p \<Rightarrow> int \<times> 'p) option"

record 'p lib =
  mem :: "ptr \<rightharpoonup> obj"
  brk :: ptr
  mallocs :: "bool list"
  tok_list :: "ptr list"
  adapters :: "ptr \<rightharpoonup> 'p adapter"
  adapter_list :: "ptr list"
  plug :: 'p

subsection \<open>Access to the store\<close>

definition get_tok :: "'p lib \<Rightarrow> ptr \<Rightarrow> wrapped_token option" where
  "get_tok s p = (case mem s p of Some (OTok w) \<Rightarrow> Some w | _ \<Rightarrow> None)"

definition get_props :: "'p lib \<Rightarrow> ptr \<Rightarrow> fpga_properties option" where
  "get_props s p = (case mem s p of Some (OProps w) \<Rightarrow> Some w | _ \<Rightarrow> None)"

definition get_handle :: "'p lib \<Rightarrow> ptr \<Rightarrow> wrapped_handle option" where
  "get_handle s p = (case mem s p of Some (OHandle w) \<Rightarrow> Some w | _ \<Rightarrow> None)"

definition get_event :: "'p lib \<Rightarrow> ptr \<Rightarrow> wrapped_event_handle option" where
  "get_event s p = (case mem s p of Some (OEvent w) \<Rightarrow> Some w | _ \<Rightarrow> None)"

definition get_obj :: "'p lib \<Rightarrow> ptr \<Rightarrow> wrapped_object option" where
  "get_obj s p = (case mem s p of Some (OObj w) \<Rightarrow> Some w | _ \<Rightarrow> None)"

definition put_obj :: "ptr \<Rightarrow> obj \<Rightarrow> 'p lib \<Rightarrow> 'p lib" where
  "put_obj p ob s = s\<lparr>mem := (mem s)(p \<mapsto> ob)\<rparr>"

definition free_obj :: "ptr \<Rightarrow> 'p lib \<Rightarrow> 'p lib" where
  "free_obj p s = s\<lparr>mem := (mem s)(p := None)\<rparr>"

text \<open>\<^verbatim>\<open>malloc\<close>: NULL on failure, else a fresh address that holds the object.\<close>

definition alloc_obj :: "obj \<Rightarrow> 'p lib \<Rightarrow> ptr \<times> 'p lib" where
  "alloc_obj ob s =
     (case mallocs s of
        False # ms \<Rightarrow> (NULL, s\<lparr>mallocs := ms\<rparr>)
      | _ \<Rightarrow> (brk s, s\<lparr>mem := (mem s)(brk s \<mapsto> ob), brk := Suc (brk s), mallocs := tl (mallocs s)\<rparr>))"

lemma get_tok_Some [simp]: "get_tok s p = Some w \<longleftrightarrow> mem s p = Some (OTok w)"
  by (auto simp: get_tok_def split: option.splits obj.splits)

lemma get_props_Some [simp]: "get_props s p = Some w \<longleftrightarrow> mem s p = Some (OProps w)"
  by (auto simp: get_props_def split: option.splits obj.splits)

lemma get_handle_Some [simp]: "get_handle s p = Some w \<longleftrightarrow> mem s p = Some (OHandle w)"
  by (auto simp: get_handle_def split: option.splits obj.splits)

lemma get_event_Some [simp]: "get_event s p = Some w \<longleftrightarrow> mem s p = Some (OEvent w)"
  by (auto simp: get_event_def split: option.splits obj.splits)

lemma get_obj_Some [simp]: "get_obj s p = Some w \<longleftrightarrow> mem s p = Some (OObj w)"
  by (auto simp: get_obj_def split: option.splits obj.splits)

lemma get_mem [simp]:
  "mem s p = Some (OTok w) \<Longrightarrow> get_tok s p = Some w"
  "mem s p = Some (OProps pr) \<Longrightarrow> get_props s p = Some pr"
  "mem s p = Some (OHandle h) \<Longrightarrow> get_handle s p = Some h"
  "mem s p = Some (OEvent e) \<Longrightarrow> get_event s p = Some e"
  "mem s p = Some (OObj b) \<Longrightarrow> get_obj s p = Some b"
  by simp_all

subsection \<open>Validation\<close>

text \<open>
  \<^verbatim>\<open>opae_validate_wrapped_*\<close>: NULL unless the object at the address has the magic number.
  Reading the magic number of an address that holds nothing is undefined.
\<close>

definition validate_magic :: "u32 \<Rightarrow> 'p lib \<Rightarrow> ptr \<Rightarrow> ptr option" where
  "validate_magic magic s t =
     (if t = NULL then Some NULL
      else case mem s t of
             None \<Rightarrow> None
           | Some ob \<Rightarrow> Some (if obj_magic ob = magic then t else NULL))"

definition opae_validate_wrapped_token :: "'p lib \<Rightarrow> ptr \<Rightarrow> ptr option" where
  "opae_validate_wrapped_token = validate_magic OPAE_WRAPPED_TOKEN_MAGIC"

definition opae_validate_wrapped_handle :: "'p lib \<Rightarrow> ptr \<Rightarrow> ptr option" where
  "opae_validate_wrapped_handle = validate_magic OPAE_WRAPPED_HANDLE_MAGIC"

definition opae_validate_wrapped_event_handle :: "'p lib \<Rightarrow> ptr \<Rightarrow> ptr option" where
  "opae_validate_wrapped_event_handle = validate_magic OPAE_WRAPPED_EVENT_HANDLE_MAGIC"

definition opae_validate_wrapped_object :: "'p lib \<Rightarrow> ptr \<Rightarrow> ptr option" where
  "opae_validate_wrapped_object = validate_magic OPAE_WRAPPED_OBJECT_MAGIC"

definition opae_validate_and_lock_properties :: "'p lib \<Rightarrow> ptr \<Rightarrow> (ptr \<times> 'p lib) option" where
  "opae_validate_and_lock_properties s props =
     (if props = NULL then Some (NULL, s)
      else do {
        p \<leftarrow> get_props s props;
        if pr_magic p \<noteq> FPGA_PROPERTY_MAGIC then Some (NULL, s)
        else Some (props, put_obj props (OProps (p\<lparr>pr_lock := Suc (pr_lock p)\<rparr>)) s)
      })"

definition unlock_properties :: "ptr \<Rightarrow> 'p lib \<Rightarrow> 'p lib option" where
  "unlock_properties props s = do {
     p \<leftarrow> get_props s props;
     Some (put_obj props (OProps (p\<lparr>pr_lock := pr_lock p - 1\<rparr>)) s)
   }"

text \<open>A flag of the shared buffers (types_enum.h).\<close>

definition FPGA_BUF_PREALLOCATED :: u32 where "FPGA_BUF_PREALLOCATED = 1"

text \<open>A call of a plugin function through the adapter table at \<open>a\<close>.\<close>

definition adapter_fn ::
  "'p lib \<Rightarrow> ptr \<Rightarrow> entry \<Rightarrow> (arg list \<Rightarrow> 'p \<Rightarrow> reply \<times> 'p) option option" where
  "adapter_fn s a e = map_option (\<lambda>ad. ad_fn ad e) (adapters s a)"

definition call_plugin ::
  "(arg list \<Rightarrow> 'p \<Rightarrow> reply \<times> 'p) \<Rightarrow> arg list \<Rightarrow> 'p lib \<Rightarrow> reply \<times> 'p lib" where
  "call_plugin f args s = (case f args (plug s) of (r, w) \<Rightarrow> (r, s\<lparr>plug := w\<rparr>))"

end
