(* ===== verification/Wrapped_Tokens.thy ===== *)
theory Wrapped_Tokens
  imports Opae_State
begin

section \<open>Wrapped tokens and their reference counts (api-shell.c, opae_int.h)\<close>

text \<open>
  A wrapped token pairs a plugin's token with the adapter table of that plugin. The
  list of tokens in use (\<^verbatim>\<open>token_list_head\<close>) is \<open>tok_list\<close>, from \<open>head.next\<close> on. Linking
  happens when the reference count becomes 1, unlinking when it becomes 0; unlinking a token
  that is not in the list would go through its NULL links and is undefined.
\<close>

definition opae_upref_wrapped_token :: "'p lib \<Rightarrow> ptr \<Rightarrow> 'p lib option" where
  "opae_upref_wrapped_token s wt = do {
     w \<leftarrow> get_tok s wt;
     let w = w\<lparr>wt_ref_count := wt_ref_count w + 1\<rparr>;
     let s = put_obj wt (OTok w) s;
     Some (if wt_ref_count w = 1 then s\<lparr>tok_list := wt # tok_list s\<rparr> else s)
   }"

definition opae_allocate_wrapped_token ::
  "'p lib \<Rightarrow> ptr \<Rightarrow> ptr \<Rightarrow> (ptr \<times> 'p lib) option" where
  "opae_allocate_wrapped_token s token adapter =
     (case alloc_obj (OTok \<lparr>wt_magic = OPAE_WRAPPED_TOKEN_MAGIC, wt_opae_token = token,
                           wt_ref_count = 0, wt_adapter = adapter\<rparr>) s of
        (wtok, s) \<Rightarrow>
          if wtok = NULL then Some (NULL, s)
          else do { s \<leftarrow> opae_upref_wrapped_token s wtok; Some (wtok, s) })"

definition opae_downref_wrapped_token :: "'p lib \<Rightarrow> ptr \<Rightarrow> (fpga_result \<times> 'p lib) option" where
  "opae_downref_wrapped_token s wt = do {
     w \<leftarrow> get_tok s wt;
     let w = w\<lparr>wt_ref_count := wt_ref_count w - 1\<rparr>;
     let s = put_obj wt (OTok w) s;
     if wt_ref_count w = 0 then
       if wt \<in> set (tok_list s) then do {
         let s = s\<lparr>tok_list := remove1 wt (tok_list s)\<rparr>;
         let s = put_obj wt (OTok (w\<lparr>wt_magic := 0\<rparr>)) s;
         fn \<leftarrow> adapter_fn s (wt_adapter w) E_DestroyToken;
         case fn of
           Some f \<Rightarrow> (case call_plugin f [Ptr (wt_opae_token w)] s of
                       ((fres, _), s) \<Rightarrow> Some (fres, free_obj wt s))
         | None \<Rightarrow> Some (FPGA_NOT_SUPPORTED, free_obj wt s)
       } else None
     else Some (FPGA_OK, s)
   }"

definition opae_destroy_wrapped_token :: "'p lib \<Rightarrow> ptr \<Rightarrow> (fpga_result \<times> 'p lib) option" where
  "opae_destroy_wrapped_token s wt = opae_downref_wrapped_token s wt"

definition opae_wrapped_tokens_in_use :: "'p lib \<Rightarrow> u32" where
  "opae_wrapped_tokens_in_use s = of_nat (length (tok_list s))"

definition opae_allocate_wrapped_handle ::
  "'p lib \<Rightarrow> ptr \<Rightarrow> ptr \<Rightarrow> ptr \<Rightarrow> (ptr \<times> 'p lib) option" where
  "opae_allocate_wrapped_handle s wt opae_handle adapter =
     (case alloc_obj (OHandle \<lparr>wh_magic = OPAE_WRAPPED_HANDLE_MAGIC, wh_token = wt,
                              wh_opae_handle = opae_handle, wh_adapter = adapter\<rparr>) s of
        (whan, s) \<Rightarrow>
          if whan = NULL then Some (NULL, s)
          else do { s \<leftarrow> opae_upref_wrapped_token s wt; Some (whan, s) })"

definition opae_destroy_wrapped_handle :: "'p lib \<Rightarrow> ptr \<Rightarrow> 'p lib option" where
  "opae_destroy_wrapped_handle s wh = do {
     h \<leftarrow> get_handle s wh;
     (_, s) \<leftarrow> opae_downref_wrapped_token s (wh_token h);
     Some (free_obj wh (put_obj wh (OHandle (h\<lparr>wh_magic := 0\<rparr>)) s))
   }"

text \<open>
  The event handle's mutex is created with it; \<open>mutex_ok\<close> says whether the three
  \<^verbatim>\<open>pthread_mutex*_\<close> calls succeed. On failure the memory is freed again.
\<close>

definition opae_allocate_wrapped_event_handle ::
  "bool \<Rightarrow> 'p lib \<Rightarrow> ptr \<Rightarrow> ptr \<Rightarrow> ptr \<times> 'p lib" where
  "opae_allocate_wrapped_event_handle mutex_ok s opae_event_handle adapter =
     (case alloc_obj (OEvent \<lparr>we_magic = OPAE_WRAPPED_EVENT_HANDLE_MAGIC, we_lock = 0,
                             we_flags = 0, we_opae_event_handle = opae_event_handle,
                             we_adapter = adapter\<rparr>) s of
        (wevent, s) \<Rightarrow>
          if wevent = NULL then (NULL, s)
          else if \<not> mutex_ok then (NULL, free_obj wevent s)
          else (wevent, s))"

definition opae_destroy_wrapped_event_handle :: "'p lib \<Rightarrow> ptr \<Rightarrow> 'p lib option" where
  "opae_destroy_wrapped_event_handle s we = do {
     e \<leftarrow> get_event s we;
     Some (free_obj we (put_obj we (OEvent (e\<lparr>we_magic := 0\<rparr>)) s))
   }"

definition opae_allocate_wrapped_object :: "'p lib \<Rightarrow> ptr \<Rightarrow> ptr \<Rightarrow> ptr \<times> 'p lib" where
  "opae_allocate_wrapped_object s opae_object adapter =
     alloc_obj (OObj \<lparr>wo_magic = OPAE_WRAPPED_OBJECT_MAGIC, wo_opae_object = opae_object,
                     wo_adapter = adapter\<rparr>) s"

definition opae_destroy_wrapped_object :: "'p lib \<Rightarrow> ptr \<Rightarrow> 'p lib option" where
  "opae_destroy_wrapped_object s wo = do {
     b \<leftarrow> get_obj s wo;
     Some (free_obj wo (put_obj wo (OObj (b\<lparr>wo_magic := 0\<rparr>)) s))
   }"

subsection \<open>Who holds a reference\<close>

text \<open>
  A wrapped handle holds a reference to its token, a properties object one to its parent when
  that field is valid. What the client holds (tokens that were enumerated or cloned and not
  destroyed) is the function \<open>own\<close>.
\<close>

fun held :: "obj \<Rightarrow> ptr option" where
  "held (OHandle h) = Some (wh_token h)"
| "held (OProps p) = (if FIELD_VALID p FPGA_PROPERTY_PARENT then Some (pr_parent p) else None)"
| "held _ = None"

definition held_by :: "obj option \<Rightarrow> ptr \<Rightarrow> nat" where
  "held_by x t = (case x of Some ob \<Rightarrow> of_bool (held ob = Some t) | None \<Rightarrow> 0)"

definition holders :: "(ptr \<rightharpoonup> obj) \<Rightarrow> ptr \<Rightarrow> ptr set" where
  "holders m t = {p. held_by (m p) t = 1}"

definition refs :: "(ptr \<Rightarrow> nat) \<Rightarrow> (ptr \<rightharpoonup> obj) \<Rightarrow> ptr \<Rightarrow> nat" where
  "refs own m t = own t + card (holders m t)"

fun is_tok :: "obj \<Rightarrow> bool" where
  "is_tok (OTok _) = True"
| "is_tok _ = False"

definition tok_dom :: "(ptr \<rightharpoonup> obj) \<Rightarrow> ptr set" where
  "tok_dom m = {t. \<exists>w. m t = Some (OTok w)}"

text \<open>An object other than a token is well formed when its magic and adapter are in order.\<close>

fun wf_obj :: "(ptr \<rightharpoonup> 'a) \<Rightarrow> obj \<Rightarrow> bool" where
  "wf_obj ads (OTok w) = (wt_magic w = OPAE_WRAPPED_TOKEN_MAGIC \<and> wt_adapter w \<in> dom ads)"
| "wf_obj ads (OProps p) = (pr_magic p = FPGA_PROPERTY_MAGIC \<and> length (pr_guid p) = 16 \<and>
     length (pr_u p) = 24)"
| "wf_obj ads (OHandle h) = (wh_magic h = OPAE_WRAPPED_HANDLE_MAGIC \<and> wh_adapter h \<in> dom ads)"
| "wf_obj ads (OEvent e) = (we_magic e = OPAE_WRAPPED_EVENT_HANDLE_MAGIC \<and>
     (we_flags e AND OPAE_WRAPPED_EVENT_HANDLE_CREATED \<noteq> 0 \<longrightarrow> we_adapter e \<in> dom ads))"
| "wf_obj ads (OObj b) = (wo_magic b = OPAE_WRAPPED_OBJECT_MAGIC \<and> wo_adapter b \<in> dom ads)"
| "wf_obj ads (OForeign m) = (m \<notin> {OPAE_WRAPPED_TOKEN_MAGIC, OPAE_WRAPPED_HANDLE_MAGIC,
     OPAE_WRAPPED_EVENT_HANDLE_MAGIC, OPAE_WRAPPED_OBJECT_MAGIC})"

definition lib_inv :: "(ptr \<Rightarrow> nat) \<Rightarrow> 'p lib \<Rightarrow> bool" where
  "lib_inv own s \<longleftrightarrow>
     (\<forall>p ob. mem s p = Some ob \<longrightarrow> 0 < p \<and> p < brk s \<and> wf_obj (adapters s) ob) \<and> 0 < brk s \<and>
     distinct (tok_list s) \<and> set (tok_list s) = tok_dom (mem s) \<and>
     (\<forall>t w. mem s t = Some (OTok w) \<longrightarrow>
        unat (wt_ref_count w) = refs own (mem s) t \<and> 0 < refs own (mem s) t) \<and>
     (\<forall>t. t \<notin> tok_dom (mem s) \<longrightarrow> refs own (mem s) t = 0)"

lemma held_by_le: "held_by x t \<le> 1"
  by (simp add: held_by_def split: option.split)

lemma finite_holders: "lib_inv own s \<Longrightarrow> finite (holders (mem s) t)"
proof -
  assume "lib_inv own s"
  then have "holders (mem s) t \<subseteq> {..< brk s}"
    by (auto simp: lib_inv_def holders_def held_by_def split: option.splits)
  then show ?thesis by (rule finite_subset) simp
qed

lemma card_holders_upd:
  assumes "finite (holders m t)"
  shows "card (holders (m(p := x)) t) + held_by (m p) t = card (holders m t) + held_by x t"
proof -
  have le: "held_by x t = 0 \<or> held_by x t = 1" "held_by (m p) t = 0 \<or> held_by (m p) t = 1"
    using held_by_le [of x t] held_by_le [of "m p" t] by linarith+
  let ?h = "holders m t - {p}"
  have new: "holders (m(p := x)) t = (if held_by x t = 1 then insert p ?h else ?h)"
    by (auto simp: holders_def)
  have old: "holders m t = (if held_by (m p) t = 1 then insert p ?h else ?h)"
    by (auto simp: holders_def)
  have "card (holders (m(p := x)) t) = card ?h + held_by x t"
    unfolding new using assms le(1) by (auto simp: card.insert_remove)
  moreover have "card (holders m t) = card ?h + held_by (m p) t"
    by (subst old) (use assms le(2) in \<open>auto simp: card.insert_remove\<close>)
  ultimately show ?thesis by simp
qed

lemma tok_dom_upd [simp]:
  "tok_dom (m(p := x)) = (if \<exists>w. x = Some (OTok w) then insert p (tok_dom m) else tok_dom m - {p})"
  by (auto simp: tok_dom_def)

lemma held_by_tok [simp]: "held_by (Some (OTok w)) t = 0" "held_by None t = 0"
  by (simp_all add: held_by_def)

text \<open>
  Changing one object that is not a token keeps the invariant when the references it gives
  up and takes over are accounted for in \<open>own\<close>.
\<close>

lemma lib_inv_set_mem:
  assumes inv: "lib_inv own s"
    and old: "p \<notin> tok_dom (mem s)" and new: "\<And>ob. x = Some ob \<Longrightarrow> \<not> is_tok ob \<and> wf_obj (adapters s) ob"
    and p: "0 < p" "p < b" "brk s \<le> b"
    and own: "\<And>t. own' t + held_by x t = own t + held_by (mem s p) t"
    and s': "mem s' = (mem s)(p := x)" "brk s' = b" "tok_list s' = tok_list s"
      "adapters s' = adapters s"
  shows "lib_inv own' s'"
proof -
  have r: "refs own' (mem s') t = refs own (mem s) t" for t
    using card_holders_upd [OF finite_holders [OF inv], of p x t] own [of t]
    by (simp add: refs_def s')
  have x: "\<not> (\<exists>w. x = Some (OTok w))" using new by fastforce
  then have d: "tok_dom (mem s') = tok_dom (mem s)" using old by (simp add: s')
  have m: "mem s' t = Some (OTok w) \<longleftrightarrow> mem s t = Some (OTok w)" for t w
    using x old by (auto simp: s' tok_dom_def)
  have a: "\<forall>q ob. mem s' q = Some ob \<longrightarrow> 0 < q \<and> q < brk s' \<and> wf_obj (adapters s') ob"
    unfolding s'(1,2,4)
  proof (intro allI impI)
    fix q ob
    assume q: "((mem s)(p := x)) q = Some ob"
    show "0 < q \<and> q < b \<and> wf_obj (adapters s) ob"
    proof (cases "q = p")
      case True
      with q new p show ?thesis by simp
    next
      case False
      with q have "0 < q \<and> q < brk s \<and> wf_obj (adapters s) ob" using inv by (simp add: lib_inv_def)
      with p(3) show ?thesis by simp
    qed
  qed
  show ?thesis
    using inv a p unfolding lib_inv_def by (simp add: r d m s' (2,3))
qed

lemma holders_upd_same:
  "held_by x t = held_by (m p) t \<Longrightarrow> holders (m(p := x)) t = holders m t"
  by (auto simp: holders_def)

lemma refs_upd_same [simp]:
  "held_by x t = held_by (m p) t \<Longrightarrow> refs own (m(p := x)) t = refs own m t"
  by (simp add: refs_def holders_upd_same)

lemma refs_own_upd: "refs (own(t := n)) m u = (if u = t then n + card (holders m t) else refs own m u)"
  by (simp add: refs_def)

lemma tok_domD: "t \<in> tok_dom m \<Longrightarrow> \<exists>w. m t = Some (OTok w)"
  by (simp add: tok_dom_def)

lemma lib_inv_wf:
  "lib_inv own s \<Longrightarrow> mem s p = Some ob \<Longrightarrow> 0 < p \<and> p < brk s \<and> wf_obj (adapters s) ob"
  by (simp add: lib_inv_def)

lemma lib_inv_tok:
  assumes "lib_inv own s" "mem s t = Some (OTok w)"
  shows "unat (wt_ref_count w) = refs own (mem s) t" "0 < refs own (mem s) t"
    "wt_magic w = OPAE_WRAPPED_TOKEN_MAGIC" "wt_adapter w \<in> dom (adapters s)" "t \<noteq> 0"
    "t \<in> set (tok_list s)"
  using assms lib_inv_wf [OF assms] by (auto simp: lib_inv_def tok_dom_def)

text \<open>Only the counter of one token, and what the client owns of it, change.\<close>

lemma lib_inv_set_count:
  assumes inv: "lib_inv own s" and w: "mem s t = Some (OTok w)"
    and w': "wt_magic w' = wt_magic w" "wt_adapter w' = wt_adapter w"
      "unat (wt_ref_count w') = n + card (holders (mem s) t)" "0 < n + card (holders (mem s) t)"
    and s': "mem s' = (mem s)(t := Some (OTok w'))" "brk s' = brk s" "tok_list s' = tok_list s"
      "adapters s' = adapters s"
  shows "lib_inv (own(t := n)) s'"
proof -
  have t: "t \<in> tok_dom (mem s)" using w by (simp add: tok_dom_def)
  then have d: "tok_dom (mem s') = tok_dom (mem s)" by (auto simp: s')
  have r: "refs (own(t := n)) (mem s') u =
      (if u = t then n + card (holders (mem s) t) else refs own (mem s) u)" for u
    using w by (simp add: s' refs_own_upd holders_upd_same)
  show ?thesis
    using inv w' t lib_inv_wf [OF inv w] unfolding lib_inv_def d r s'(2-4)
    by (auto simp: s'(1))
qed

lemma upref_ok:
  assumes inv: "lib_inv own s" and t: "t \<in> tok_dom (mem s)"
    and b: "refs own (mem s) t + 1 < 2 ^ 32"
  shows "\<exists>w. mem s t = Some (OTok w) \<and>
    opae_upref_wrapped_token s t =
      Some (put_obj t (OTok (w\<lparr>wt_ref_count := wt_ref_count w + 1\<rparr>)) s) \<and>
    lib_inv (own(t := own t + 1)) (put_obj t (OTok (w\<lparr>wt_ref_count := wt_ref_count w + 1\<rparr>)) s)"
proof -
  obtain w where w: "mem s t = Some (OTok w)" using tok_domD [OF t] by auto
  note tok = lib_inv_tok [OF inv w]
  have c: "unat (wt_ref_count w + 1) = refs own (mem s) t + 1"
    using tok(1) b by (simp add: unat_add_no_wrap)
  then have "wt_ref_count w + 1 \<noteq> 1" using tok(2) by (metis Suc_eq_plus1 less_numeral_extra(3)
      nat.inject unat_1 One_nat_def)
  then have "opae_upref_wrapped_token s t =
      Some (put_obj t (OTok (w\<lparr>wt_ref_count := wt_ref_count w + 1\<rparr>)) s)"
    using w by (simp add: opae_upref_wrapped_token_def Let_def)
  moreover have "lib_inv (own(t := own t + 1))
      (put_obj t (OTok (w\<lparr>wt_ref_count := wt_ref_count w + 1\<rparr>)) s)"
    by (rule lib_inv_set_count [OF inv w]) (simp_all add: c refs_def put_obj_def)
  ultimately show ?thesis using w by blast
qed

lemma downref_ok:
  assumes inv: "lib_inv own s" and own: "0 < own t" and t: "t \<in> tok_dom (mem s)"
  shows "\<exists>r s'. opae_downref_wrapped_token s t = Some (r, s') \<and>
    lib_inv (own(t := own t - 1)) s' \<and>
    (\<forall>p. p \<noteq> t \<longrightarrow> mem s' p = mem s p) \<and> brk s' = brk s \<and> adapters s' = adapters s \<and>
    mallocs s' = mallocs s \<and> (\<forall>u. holders (mem s') u = holders (mem s) u) \<and>
    (mem s' t = None \<or> t \<in> tok_dom (mem s')) \<and> (t \<in> tok_dom (mem s') \<longleftrightarrow> 1 < refs own (mem s) t)"
proof -
  obtain w where w: "mem s t = Some (OTok w)" using tok_domD [OF t] by auto
  note tok = lib_inv_tok [OF inv w]
  have "1 \<le> wt_ref_count w" using tok(1,2) by (simp add: word_le_nat_alt)
  then have c: "unat (wt_ref_count w - 1) = refs own (mem s) t - 1"
    using tok(1) by (simp add: unat_sub_le)
  show ?thesis
  proof (cases "refs own (mem s) t = 1")
    case False
    then have "wt_ref_count w - 1 \<noteq> 0"
      using c tok(2) by (metis diff_is_0_eq le_antisym less_one linorder_not_less unat_0 nat_neq_iff)
    then have d: "opae_downref_wrapped_token s t =
        Some (FPGA_OK, put_obj t (OTok (w\<lparr>wt_ref_count := wt_ref_count w - 1\<rparr>)) s)"
      using w by (simp add: opae_downref_wrapped_token_def Let_def)
    have "lib_inv (own(t := own t - 1))
        (put_obj t (OTok (w\<lparr>wt_ref_count := wt_ref_count w - 1\<rparr>)) s)"
      using own False tok(2) by (intro lib_inv_set_count [OF inv w])
        (simp_all add: c refs_def put_obj_def)
    with d False tok(2) w show ?thesis by (auto simp: put_obj_def holders_upd_same)
  next
    case True
    then have z: "wt_ref_count w - 1 = 0" using c by (simp add: unat_eq_zero)
    have o1: "own t = 1" "card (holders (mem s) t) = 0"
      using True own by (simp_all add: refs_def)
    obtain ad where ad: "adapters s (wt_adapter w) = Some ad" using tok(4) by auto
    have "\<exists>r s'. opae_downref_wrapped_token s t = Some (r, s') \<and>
        mem s' = (mem s)(t := None) \<and> brk s' = brk s \<and> adapters s' = adapters s \<and>
        mallocs s' = mallocs s \<and> tok_list s' = remove1 t (tok_list s)"
      using w z tok(6) ad
      by (auto simp: opae_downref_wrapped_token_def Let_def adapter_fn_def put_obj_def free_obj_def
          call_plugin_def split: option.split prod.split)
    then obtain r s' where d: "opae_downref_wrapped_token s t = Some (r, s')"
      and s': "mem s' = (mem s)(t := None)" "brk s' = brk s" "adapters s' = adapters s"
        "mallocs s' = mallocs s" "tok_list s' = remove1 t (tok_list s)" by blast
    have r: "refs (own(t := 0)) (mem s') u = (if u = t then 0 else refs own (mem s) u)" for u
      using w o1 by (simp add: s' refs_own_upd holders_upd_same)
    have td: "tok_dom (mem s') = tok_dom (mem s) - {t}" by (simp add: s')
    have "lib_inv (own(t := 0)) s'"
      using inv unfolding lib_inv_def td r s'(2,3,5) by (auto simp: s'(1))
    with d s' o1 True w show ?thesis by (auto simp: holders_upd_same)
  qed
qed

lemma lib_inv_cong:
  "lib_inv own s \<Longrightarrow> mem s' = mem s \<Longrightarrow> brk s' = brk s \<Longrightarrow> tok_list s' = tok_list s \<Longrightarrow>
   adapters s' = adapters s \<Longrightarrow> lib_inv own s'"
  by (simp add: lib_inv_def)

lemma alloc_token_ok:
  assumes inv: "lib_inv own s" and ad: "a \<in> dom (adapters s)"
  shows "\<exists>p s'. opae_allocate_wrapped_token s tk a = Some (p, s') \<and>
    adapters s' = adapters s \<and> plug s' = plug s \<and>
    (p = 0 \<and> mem s' = mem s \<and> brk s' = brk s \<and> lib_inv own s' \<or>
     p = brk s \<and> p \<noteq> 0 \<and> own p = 0 \<and> lib_inv (own(p := 1)) s' \<and>
       mem s' = (mem s)(p \<mapsto> OTok \<lparr>wt_magic = OPAE_WRAPPED_TOKEN_MAGIC, wt_opae_token = tk,
                              wt_ref_count = 1, wt_adapter = a\<rparr>) \<and>
       tok_list s' = p # tok_list s \<and> brk s' = Suc (brk s))"
proof -
  let ?w = "\<lparr>wt_magic = OPAE_WRAPPED_TOKEN_MAGIC, wt_opae_token = tk, wt_ref_count = 0,
            wt_adapter = a\<rparr>"
  consider ms where "mallocs s = False # ms" | "\<forall>ms. mallocs s \<noteq> False # ms" by blast
  then show ?thesis
  proof cases
    case 1
    then show ?thesis
      by (simp add: opae_allocate_wrapped_token_def alloc_obj_def lib_inv_cong [OF inv])
  next
    case 2
    let ?v = "\<lparr>wt_magic = OPAE_WRAPPED_TOKEN_MAGIC, wt_opae_token = tk, wt_ref_count = 1,
            wt_adapter = a\<rparr>"
    let ?p = "brk s" and ?m = "(mem s)(brk s \<mapsto> OTok ?v)"
    let ?s = "s\<lparr>mem := ?m, brk := Suc (brk s), mallocs := tl (mallocs s),
                tok_list := brk s # tok_list s\<rparr>"
    have new: "mem s ?p = None" using inv by (cases "mem s ?p") (auto simp: lib_inv_def)
    have pos: "?p \<noteq> 0" using inv by (simp add: lib_inv_def)
    have nt: "?p \<notin> tok_dom (mem s)" using new by (simp add: tok_dom_def)
    then have r0: "own ?p = 0" "card (holders (mem s) ?p) = 0"
      using inv unfolding lib_inv_def refs_def by (metis add_is_0)+
    have a: "alloc_obj (OTok ?w) s = (?p, s\<lparr>mem := (mem s)(?p \<mapsto> OTok ?w), brk := Suc ?p,
        mallocs := tl (mallocs s)\<rparr>)"
      using 2 by (auto simp: alloc_obj_def split: list.split bool.split)
    have e: "opae_allocate_wrapped_token s tk a = Some (?p, ?s)"
      using pos by (simp add: opae_allocate_wrapped_token_def a opae_upref_wrapped_token_def put_obj_def)
    have r: "refs (own(?p := 1)) ?m u = (if u = ?p then 1 else refs own (mem s) u)" for u
      using new r0 by (simp add: refs_own_upd holders_upd_same)
    have w: "wf_obj (adapters s) (OTok ?v)" using ad by simp
    have i: "lib_inv (own(?p := 1)) ?s"
      using inv nt w unfolding lib_inv_def by (auto simp: r less_Suc_eq simp del: One_nat_def)
    show ?thesis by (rule exI [of _ ?p], rule exI [of _ ?s]) (simp add: e i pos r0 del: One_nat_def)
  qed
qed

subsection \<open>Frames\<close>

text \<open>Counting a reference does not look at, or change, any object but the token.\<close>

lemma put_obj_simps [simp]:
  "mem (put_obj a ob s) = (mem s)(a \<mapsto> ob)" "brk (put_obj a ob s) = brk s"
  "mallocs (put_obj a ob s) = mallocs s" "tok_list (put_obj a ob s) = tok_list s"
  "adapters (put_obj a ob s) = adapters s" "adapter_list (put_obj a ob s) = adapter_list s"
  "plug (put_obj a ob s) = plug s"
  by (simp_all add: put_obj_def)

lemma free_obj_simps [simp]:
  "mem (free_obj a s) = (mem s)(a := None)" "brk (free_obj a s) = brk s"
  "mallocs (free_obj a s) = mallocs s" "tok_list (free_obj a s) = tok_list s"
  "adapters (free_obj a s) = adapters s" "adapter_list (free_obj a s) = adapter_list s"
  "plug (free_obj a s) = plug s"
  by (simp_all add: free_obj_def)

lemma put_put [simp]: "put_obj a x (put_obj a y s) = put_obj a x s"
  by (simp add: put_obj_def)

lemma put_free [simp]: "put_obj a x (free_obj a s) = put_obj a x s" "free_obj a (put_obj a x s) = free_obj a s"
  by (simp_all add: put_obj_def free_obj_def)

lemma put_obj_idem: "mem s a = Some ob \<Longrightarrow> put_obj a ob s = s"
  by (simp add: put_obj_def fun_upd_idem)

lemma free_obj_idem: "mem s a = None \<Longrightarrow> free_obj a s = s"
  by (simp add: free_obj_def fun_upd_idem)

lemma put_twist: "a \<noteq> b \<Longrightarrow> put_obj a x (put_obj b y s) = put_obj b y (put_obj a x s)"
  by (simp add: put_obj_def fun_upd_twist)

lemma free_put_twist: "b \<noteq> a \<Longrightarrow> free_obj b (put_obj a x s) = put_obj a x (free_obj b s)"
  by (simp add: put_obj_def free_obj_def fun_upd_twist)

lemma get_tok_put:
  "a \<noteq> t \<Longrightarrow> get_tok (put_obj a ob s) t = get_tok s t"
  "a \<noteq> t \<Longrightarrow> get_tok (s\<lparr>mem := (mem s)(a \<mapsto> ob)\<rparr>) t = get_tok s t"
  by (simp_all add: get_tok_def)

lemma upref_frame:
  "a \<noteq> t \<Longrightarrow> opae_upref_wrapped_token (put_obj a ob s) t =
   map_option (put_obj a ob) (opae_upref_wrapped_token s t)"
  by (cases "get_tok s t")
    (simp_all add: opae_upref_wrapped_token_def get_tok_put Let_def put_obj_def fun_upd_twist)

lemma downref_frame:
  "a \<noteq> t \<Longrightarrow> opae_downref_wrapped_token (put_obj a ob s) t =
   map_option (map_prod id (put_obj a ob)) (opae_downref_wrapped_token s t)"
proof (cases "get_tok s t")
  case (Some w)
  assume a: "a \<noteq> t"
  note defs = opae_downref_wrapped_token_def get_tok_put Let_def put_obj_def free_obj_def
    fun_upd_twist adapter_fn_def call_plugin_def
  show ?thesis
  proof (cases "adapters s (wt_adapter w)")
    case None
    with Some a show ?thesis by (simp add: defs)
  next
    case ad: (Some ad)
    show ?thesis
    proof (cases "ad_fn ad E_DestroyToken")
      case None
      with Some a ad show ?thesis by (simp add: defs)
    next
      case (Some f)
      with \<open>get_tok s t = Some w\<close> a ad show ?thesis
        by (cases "f [Ptr (wt_opae_token w)] (plug s)") (auto simp: defs)
    qed
  qed
qed (simp add: opae_downref_wrapped_token_def get_tok_put)

lemma validate_token_ok:
  assumes "lib_inv own s" "t \<in> tok_dom (mem s)" "mem s' t = mem s t"
  shows "opae_validate_wrapped_token s' t = Some t"
  using assms lib_inv_tok [OF assms(1)]
  by (auto simp: tok_dom_def opae_validate_wrapped_token_def validate_magic_def)

lemma held_tok:
  assumes "lib_inv own s" "mem s a = Some ob" "held ob = Some t"
  shows "t \<in> tok_dom (mem s)" "a \<noteq> t"
proof -
  have "a \<in> holders (mem s) t" using assms by (simp add: holders_def held_by_def)
  then have "refs own (mem s) t \<noteq> 0"
    using finite_holders [OF assms(1)] by (auto simp: refs_def card_eq_0_iff)
  then show t: "t \<in> tok_dom (mem s)" using assms(1) by (auto simp: lib_inv_def)
  show "a \<noteq> t" using tok_domD [OF t] assms(2,3) by auto
qed

lemma own_tok: "lib_inv own s \<Longrightarrow> 0 < own t \<Longrightarrow> t \<in> tok_dom (mem s)"
  by (auto simp: lib_inv_def refs_def)

text \<open>Replacing or freeing an object hands the reference it held to the client.\<close>

lemma lib_inv_put:
  assumes inv: "lib_inv own s" and m: "mem s a = Some ob" "\<not> is_tok ob"
    and new: "\<not> is_tok x" "wf_obj (adapters s) x"
    and own: "\<And>t. own' t + held_by (Some x) t = own t + held_by (Some ob) t"
  shows "lib_inv own' (put_obj a x s)"
proof (rule lib_inv_set_mem [OF inv, of a "Some x" "brk s" own'])
  show "a \<notin> tok_dom (mem s)" using m by (auto simp: tok_dom_def)
  show "0 < a" "a < brk s" using lib_inv_wf [OF inv m(1)] by simp_all
qed (use m new own in simp_all)

lemma lib_inv_free:
  assumes inv: "lib_inv own s" and m: "mem s a = Some ob" "\<not> is_tok ob"
    and own: "\<And>t. own' t = own t + held_by (Some ob) t"
  shows "lib_inv own' (free_obj a s)"
proof (rule lib_inv_set_mem [OF inv, of a None "brk s" own'])
  show "a \<notin> tok_dom (mem s)" using m by (auto simp: tok_dom_def)
  show "0 < a" "a < brk s" using lib_inv_wf [OF inv m(1)] by simp_all
qed (use m own in simp_all)

lemma alloc_obj_cases:
  obtains (fail) ms where "mallocs s = False # ms" "alloc_obj ob s = (NULL, s\<lparr>mallocs := ms\<rparr>)"
  | (ok) "take 1 (mallocs s) \<noteq> [False]" "alloc_obj ob s = (brk s, (put_obj (brk s) ob s)\<lparr>brk := Suc (brk s), mallocs := tl (mallocs s)\<rparr>)"
proof (cases "\<exists>ms. mallocs s = False # ms")
  case True
  then show ?thesis by (auto simp: alloc_obj_def intro: fail)
next
  case False
  then have "take 1 (mallocs s) \<noteq> [False]" by (cases "mallocs s") auto
  then show ?thesis
    by (rule ok) (use False in \<open>auto simp: alloc_obj_def put_obj_def split: list.split bool.split\<close>)
qed

lemma lib_inv_new:
  assumes inv: "lib_inv own s" and new: "\<not> is_tok x" "wf_obj (adapters s) x"
    and own: "\<And>t. own' t + held_by (Some x) t = own t"
  shows "lib_inv own' ((put_obj (brk s) x s)\<lparr>brk := Suc (brk s), mallocs := ms\<rparr>)"
proof (rule lib_inv_set_mem [OF inv, of "brk s" "Some x" "Suc (brk s)" own'])
  have n: "mem s (brk s) = None" using inv by (cases "mem s (brk s)") (auto simp: lib_inv_def)
  then show "brk s \<notin> tok_dom (mem s)" by (simp add: tok_dom_def)
  show "0 < brk s" using inv by (simp add: lib_inv_def)
  show "own' t + held_by (Some x) t = own t + held_by (mem s (brk s)) t" for t
    using own [of t] by (simp add: n)
qed (use new in simp_all)

text \<open>Giving up and taking a reference, with \<open>own\<close> what the client owns afterwards.\<close>

lemma downref_give:
  assumes inv: "lib_inv (own(t := Suc (own t))) s"
  shows "\<exists>r s'. opae_downref_wrapped_token s t = Some (r, s') \<and> lib_inv own s' \<and>
    (\<forall>p. p \<noteq> t \<longrightarrow> mem s' p = mem s p) \<and> brk s' = brk s \<and> adapters s' = adapters s \<and>
    mallocs s' = mallocs s \<and> (\<forall>u. holders (mem s') u = holders (mem s) u) \<and>
    (mem s' t = None \<or> t \<in> tok_dom (mem s'))"
proof -
  have e: "(own(t := Suc (own t)))(t := (own(t := Suc (own t))) t - 1) = own"
    by (simp add: fun_eq_iff)
  have p: "0 < (own(t := Suc (own t))) t" by simp
  show ?thesis using downref_ok [OF inv p own_tok [OF inv p]] unfolding e by blast
qed

lemma upref_take:
  assumes "lib_inv own s" "t \<in> tok_dom (mem s)" "refs own (mem s) t + 1 < 2 ^ 32"
  shows "\<exists>w s'. mem s t = Some (OTok w) \<and> opae_upref_wrapped_token s t = Some s' \<and>
    s' = put_obj t (OTok (w\<lparr>wt_ref_count := wt_ref_count w + 1\<rparr>)) s \<and>
    lib_inv (own(t := Suc (own t))) s'"
  using upref_ok [OF assms] by auto

lemma lib_inv_mono:
  "lib_inv own s \<Longrightarrow> mem s' = mem s \<Longrightarrow> brk s \<le> brk s' \<Longrightarrow> tok_list s' = tok_list s \<Longrightarrow>
   adapters s' = adapters s \<Longrightarrow> lib_inv own s'"
  unfolding lib_inv_def by (simp; meson order_less_le_trans)

lemma put_obj_upd:
  "(put_obj a x s)\<lparr>brk := b, mallocs := m\<rparr> = put_obj a x (s\<lparr>brk := b, mallocs := m\<rparr>)"
  "(put_obj a x s)\<lparr>mallocs := m\<rparr> = put_obj a x (s\<lparr>mallocs := m\<rparr>)"
  by (simp_all add: put_obj_def)

subsection \<open>Objects that hold a token\<close>

lemma lib_inv_plug [simp]: "lib_inv own (s\<lparr>plug := w\<rparr>) = lib_inv own s"
  by (simp add: lib_inv_def)

lemma lib_inv_mallocs [simp]: "lib_inv own (s\<lparr>mallocs := ms\<rparr>) = lib_inv own s"
  by (simp add: lib_inv_def)

lemma call_plugin_eq:
  "\<exists>r w. call_plugin f args s = (r, s\<lparr>plug := w\<rparr>)"
  by (auto simp: call_plugin_def split: prod.split)

lemma new_holder:
  assumes inv: "lib_inv own s" and n: "mem s n = None" "0 < n" "n < brk s"
    and ob: "held ob = Some t" "\<not> is_tok ob" "wf_obj (adapters s) ob"
    and t: "t \<in> tok_dom (mem s)" "refs own (mem s) t + 1 < 2 ^ 32"
  shows "\<exists>s'. opae_upref_wrapped_token (put_obj n ob s) t = Some s' \<and> lib_inv own s' \<and>
    mem s' n = Some ob \<and> (\<forall>q. q \<noteq> t \<longrightarrow> q \<noteq> n \<longrightarrow> mem s' q = mem s q) \<and> adapters s' = adapters s"
proof -
  have nt: "n \<noteq> t" using n(1) tok_domD [OF t(1)] by auto
  obtain w st where u: "opae_upref_wrapped_token s t = Some st" "st = put_obj t (OTok w) s"
    "lib_inv (own(t := Suc (own t))) st" using upref_take [OF inv t] by auto
  have "lib_inv own (put_obj n ob st)"
    by (rule lib_inv_set_mem [OF u(3), of n "Some ob" "brk s"])
      (use n nt ob u(2) in \<open>simp_all add: tok_dom_def held_by_def\<close>)
  then show ?thesis using nt
    by (intro exI [of _ "put_obj n ob st"]) (simp add: upref_frame u(1), simp add: u(2))
qed

lemma alloc_handle_ok:
  assumes inv: "lib_inv own s" and t: "t \<in> tok_dom (mem s)" "refs own (mem s) t + 1 < 2 ^ 32"
    and a: "a \<in> dom (adapters s)"
  shows "\<exists>p s'. opae_allocate_wrapped_handle s t oh a = Some (p, s') \<and> lib_inv own s' \<and>
    adapters s' = adapters s \<and>
    (p = NULL \<and> mem s' = mem s \<or>
     p \<noteq> NULL \<and> mem s p = None \<and> mem s' p = Some (OHandle \<lparr>wh_magic = OPAE_WRAPPED_HANDLE_MAGIC,
       wh_token = t, wh_opae_handle = oh, wh_adapter = a\<rparr>) \<and>
     (\<forall>q. q \<noteq> t \<longrightarrow> q \<noteq> p \<longrightarrow> mem s' q = mem s q))"
proof -
  let ?h = "OHandle \<lparr>wh_magic = OPAE_WRAPPED_HANDLE_MAGIC, wh_token = t, wh_opae_handle = oh,
              wh_adapter = a\<rparr>"
  show ?thesis
  proof (cases rule: alloc_obj_cases [of s ?h])
    case (fail ms)
    then show ?thesis using inv by (simp add: opae_allocate_wrapped_handle_def)
  next
    case ok
    let ?base = "s\<lparr>brk := Suc (brk s), mallocs := tl (mallocs s)\<rparr>"
    have new: "mem s (brk s) = None" "brk s \<noteq> 0"
      using inv by (cases "mem s (brk s)"; auto simp: lib_inv_def)+
    have "lib_inv own ?base" by (rule lib_inv_mono [OF inv]) simp_all
    from new_holder [OF this, of "brk s" ?h t] obtain s' where
      "opae_upref_wrapped_token (put_obj (brk s) ?h ?base) t = Some s'" "lib_inv own s'"
      "mem s' (brk s) = Some ?h" "\<forall>q. q \<noteq> t \<longrightarrow> q \<noteq> brk s \<longrightarrow> mem s' q = mem s q"
      "adapters s' = adapters s" using new t a by auto
    then show ?thesis using new ok(2)
      by (simp add: opae_allocate_wrapped_handle_def put_obj_upd)
  qed
qed

text \<open>Freeing an object that holds \<open>t\<close> after giving the reference up.\<close>

lemma free_holder:
  assumes inv: "lib_inv own s" and m: "mem s a = Some ob" "held ob = Some t" "\<not> is_tok ob"
  shows "\<exists>r s'. opae_downref_wrapped_token s t = Some (r, put_obj a ob s') \<and>
    mem s' a = None \<and> lib_inv own s' \<and> (\<forall>q. q \<noteq> a \<longrightarrow> q \<noteq> t \<longrightarrow> mem s' q = mem s q) \<and>
    adapters s' = adapters s"
proof -
  note t = held_tok [OF inv m(1,2)]
  have i: "lib_inv (own(t := Suc (own t))) (free_obj a s)"
    by (rule lib_inv_free [OF inv m(1,3)]) (use m(2) in \<open>simp_all add: held_by_def\<close>)
  from downref_give [OF i] obtain r s' where
    d: "opae_downref_wrapped_token (free_obj a s) t = Some (r, s')" "lib_inv own s'"
    and fr: "\<forall>q. q \<noteq> t \<longrightarrow> mem s' q = mem (free_obj a s) q" "adapters s' = adapters s" by auto
  have "put_obj a ob (free_obj a s) = s" using m(1) by (simp add: put_obj_idem)
  then have "opae_downref_wrapped_token s t = Some (r, put_obj a ob s')"
    using downref_frame [OF t(2), of ob "free_obj a s"] d by simp
  then show ?thesis using d(2) fr t(2) by (intro exI [of _ r] exI [of _ s']) auto
qed

lemma validate_ok:
  assumes "lib_inv own s"
  shows "mem s h = Some (OHandle x) \<Longrightarrow> opae_validate_wrapped_handle s h = Some h"
    "mem s e = Some (OEvent y) \<Longrightarrow> opae_validate_wrapped_event_handle s e = Some e"
    "mem s b = Some (OObj z) \<Longrightarrow> opae_validate_wrapped_object s b = Some b"
  using lib_inv_wf [OF assms]
  by (fastforce simp: opae_validate_wrapped_handle_def opae_validate_wrapped_event_handle_def
      opae_validate_wrapped_object_def validate_magic_def)+

lemma adapter_fn_dom: "a \<in> dom (adapters s) \<Longrightarrow> \<exists>fn. adapter_fn s a e = Some fn"
  by (auto simp: adapter_fn_def)

end
