(* ===== verification/Props.thy ===== *)
theory Props
  imports Wrapped_Tokens
begin

unbundle bit_operations_syntax

section \<open>Properties objects (libopae-c/props.c, props.h)\<close>

text \<open>
  One definition per API function. A getter takes whether its output pointer is non-NULL and
  gives the result code and what it stored there, if anything; a setter gives the result code.
  The object-specific fields live in a union, accessed as little-endian bytes at the offsets of
  the C structures: \<^verbatim>\<open>fpga\<close> is num_slots (4 bytes at 0), bbs_id (8 at 8), bbs_version (major at
  16, minor at 17, patch 2 at 18); \<^verbatim>\<open>accelerator\<close> is state, num_mmio, num_interrupts (4 bytes
  at 0, 4 and 8).

  The abstract specification of a properties object is the partial map \<open>props_view\<close> of its
  fields. Every setter is an update of one key of that map and every getter a lookup, except
  for \<^verbatim>\<open>fpgaPropertiesSetObjectType\<close>, which reinterprets the union.
\<close>

subsection \<open>Bytes of the union\<close>

fun le_bytes :: "nat \<Rightarrow> 'a::len word \<Rightarrow> u8 list" where
  "le_bytes 0 w = []"
| "le_bytes (Suc n) w = ucast w # le_bytes n (drop_bit 8 w)"

fun of_le :: "u8 list \<Rightarrow> 'a::len word" where
  "of_le [] = 0"
| "of_le (b # bs) = ucast b OR push_bit 8 (of_le bs)"

definition u_get :: "nat \<Rightarrow> nat \<Rightarrow> fpga_properties \<Rightarrow> 'a::len word" where
  "u_get off n p = of_le (take n (drop off (pr_u p)))"

definition u_put :: "nat \<Rightarrow> nat \<Rightarrow> 'a::len word \<Rightarrow> fpga_properties \<Rightarrow> fpga_properties" where
  "u_put off n w p = p\<lparr>pr_u := take off (pr_u p) @ le_bytes n w @ drop (off + n) (pr_u p)\<rparr>"

lemma length_le_bytes [simp]: "length (le_bytes n w) = n"
  by (induction n w rule: le_bytes.induct) simp_all

lemma of_le_le_bytes: "of_le (le_bytes n w) = take_bit (8 * n) w"
proof (induction n arbitrary: w)
  case (Suc n)
  have "ucast (ucast w :: u8) OR push_bit 8 (take_bit (8 * n) (drop_bit 8 w)) =
      take_bit (8 * Suc n) w"
    by (rule bit_eqI) (auto simp: bit_simps)
  then show ?case by (simp add: Suc)
qed simp

lemma u_get_put_same [simp]:
  fixes w :: "'a::len word"
  shows "off + n \<le> length (pr_u p) \<Longrightarrow> LENGTH('a) \<le> 8 * n \<Longrightarrow> u_get off n (u_put off n w p) = w"
  by (simp add: u_get_def u_put_def of_le_le_bytes take_bit_word_eq_self)

lemma u_get_put_other:
  "off + n \<le> length (pr_u p) \<Longrightarrow> off' + n' \<le> off \<or> off + n \<le> off' \<Longrightarrow>
   u_get off' n' (u_put off n w p) = u_get off' n' p"
  by (auto simp: u_get_def u_put_def drop_take min_def)

lemma length_u_put [simp]:
  "off + n \<le> length (pr_u p) \<Longrightarrow> length (pr_u (u_put off n w p)) = length (pr_u p)"
  by (simp add: u_put_def)

subsection \<open>Accessors\<close>

text \<open>The parts the accessors share: the out pointer, the lock, the validity bits.\<close>

definition props_get ::
  "(fpga_properties \<Rightarrow> fpga_result \<times> 'v option) \<Rightarrow> 'p lib \<Rightarrow> ptr \<Rightarrow> bool \<Rightarrow>
   (fpga_result \<times> 'v option \<times> 'p lib) option" where
  "props_get body s prop out =
     (if \<not> out then Some (FPGA_INVALID_PARAM, None, s)
      else do {
        (p, s) \<leftarrow> opae_validate_and_lock_properties s prop;
        if p = NULL then Some (FPGA_INVALID_PARAM, None, s)
        else do {
          w \<leftarrow> get_props s p;
          let (res, v) = body w;
          s \<leftarrow> unlock_properties p s;
          Some (res, v, s)
        }
      })"

definition props_set ::
  "(fpga_properties \<Rightarrow> fpga_result \<times> fpga_properties) \<Rightarrow> 'p lib \<Rightarrow> ptr \<Rightarrow>
   (fpga_result \<times> 'p lib) option" where
  "props_set body s prop = do {
     (p, s) \<leftarrow> opae_validate_and_lock_properties s prop;
     if p = NULL then Some (FPGA_INVALID_PARAM, s)
     else do {
       w \<leftarrow> get_props s p;
       let (res, w) = body w;
       s \<leftarrow> unlock_properties p (put_obj p (OProps w) s);
       Some (res, s)
     }
   }"

definition if_valid ::
  "nat \<Rightarrow> (fpga_properties \<Rightarrow> 'v) \<Rightarrow> fpga_properties \<Rightarrow> fpga_result \<times> 'v option" where
  "if_valid f sel p = (if FIELD_VALID p f then (FPGA_OK, Some (sel p)) else (FPGA_NOT_FOUND, None))"

definition of_type :: "u32 \<Rightarrow> fpga_properties \<Rightarrow> bool" where
  "of_type ty p \<longleftrightarrow> FIELD_VALID p FPGA_PROPERTY_OBJTYPE \<and> ty = pr_objtype p"

definition if_type_valid ::
  "u32 \<Rightarrow> nat \<Rightarrow> (fpga_properties \<Rightarrow> 'v) \<Rightarrow> fpga_properties \<Rightarrow> fpga_result \<times> 'v option" where
  "if_type_valid ty f sel p = (if of_type ty p then if_valid f sel p else (FPGA_INVALID_PARAM, None))"

definition if_type_set ::
  "u32 \<Rightarrow> nat \<Rightarrow> (fpga_properties \<Rightarrow> fpga_properties) \<Rightarrow> fpga_properties \<Rightarrow>
   fpga_result \<times> fpga_properties" where
  "if_type_set ty f upd p =
     (if of_type ty p then (FPGA_OK, upd (SET_FIELD_VALID f p)) else (FPGA_INVALID_PARAM, p))"

definition fpgaPropertiesGetObjectType ::
  "'p lib \<Rightarrow> ptr \<Rightarrow> bool \<Rightarrow> (fpga_result \<times> u32 option \<times> 'p lib) option" where
  "fpgaPropertiesGetObjectType = props_get (if_valid FPGA_PROPERTY_OBJTYPE pr_objtype)"

definition fpgaPropertiesSetObjectType ::
  "'p lib \<Rightarrow> ptr \<Rightarrow> u32 \<Rightarrow> (fpga_result \<times> 'p lib) option" where
  "fpgaPropertiesSetObjectType s prop objtype =
     props_set (\<lambda>p.
     (FPGA_OK, SET_FIELD_VALID FPGA_PROPERTY_OBJTYPE (p\<lparr>pr_objtype := objtype\<rparr>))) s prop"

definition fpgaPropertiesGetSegment ::
  "'p lib \<Rightarrow> ptr \<Rightarrow> bool \<Rightarrow> (fpga_result \<times> u16 option \<times> 'p lib) option" where
  "fpgaPropertiesGetSegment = props_get (if_valid FPGA_PROPERTY_SEGMENT pr_segment)"

definition fpgaPropertiesSetSegment ::
  "'p lib \<Rightarrow> ptr \<Rightarrow> u16 \<Rightarrow> (fpga_result \<times> 'p lib) option" where
  "fpgaPropertiesSetSegment s prop segment =
     props_set (\<lambda>p.
     (FPGA_OK, (SET_FIELD_VALID FPGA_PROPERTY_SEGMENT p)\<lparr>pr_segment := segment\<rparr>)) s prop"

definition fpgaPropertiesGetBus ::
  "'p lib \<Rightarrow> ptr \<Rightarrow> bool \<Rightarrow> (fpga_result \<times> u8 option \<times> 'p lib) option" where
  "fpgaPropertiesGetBus = props_get (if_valid FPGA_PROPERTY_BUS pr_bus)"

definition fpgaPropertiesSetBus ::
  "'p lib \<Rightarrow> ptr \<Rightarrow> u8 \<Rightarrow> (fpga_result \<times> 'p lib) option" where
  "fpgaPropertiesSetBus s prop bus =
     props_set (\<lambda>p.
     (FPGA_OK, (SET_FIELD_VALID FPGA_PROPERTY_BUS p)\<lparr>pr_bus := bus\<rparr>)) s prop"

definition fpgaPropertiesGetDevice ::
  "'p lib \<Rightarrow> ptr \<Rightarrow> bool \<Rightarrow> (fpga_result \<times> u8 option \<times> 'p lib) option" where
  "fpgaPropertiesGetDevice = props_get (if_valid FPGA_PROPERTY_DEVICE pr_device)"

definition fpgaPropertiesSetDevice ::
  "'p lib \<Rightarrow> ptr \<Rightarrow> u8 \<Rightarrow> (fpga_result \<times> 'p lib) option" where
  "fpgaPropertiesSetDevice s prop device =
     props_set (\<lambda>p.
     (FPGA_OK, (SET_FIELD_VALID FPGA_PROPERTY_DEVICE p)\<lparr>pr_device := device\<rparr>)) s prop"

definition fpgaPropertiesGetFunction ::
  "'p lib \<Rightarrow> ptr \<Rightarrow> bool \<Rightarrow> (fpga_result \<times> u8 option \<times> 'p lib) option" where
  "fpgaPropertiesGetFunction = props_get (if_valid FPGA_PROPERTY_FUNCTION pr_function)"

definition fpgaPropertiesSetFunction ::
  "'p lib \<Rightarrow> ptr \<Rightarrow> u8 \<Rightarrow> (fpga_result \<times> 'p lib) option" where
  "fpgaPropertiesSetFunction s prop function =
     (if function > 7 then Some (FPGA_INVALID_PARAM, s)
      else props_set (\<lambda>p.
        (FPGA_OK, (SET_FIELD_VALID FPGA_PROPERTY_FUNCTION p)\<lparr>pr_function := function\<rparr>)) s prop)"

definition fpgaPropertiesGetSocketID ::
  "'p lib \<Rightarrow> ptr \<Rightarrow> bool \<Rightarrow> (fpga_result \<times> u8 option \<times> 'p lib) option" where
  "fpgaPropertiesGetSocketID = props_get (if_valid FPGA_PROPERTY_SOCKETID pr_socket_id)"

definition fpgaPropertiesSetSocketID ::
  "'p lib \<Rightarrow> ptr \<Rightarrow> u8 \<Rightarrow> (fpga_result \<times> 'p lib) option" where
  "fpgaPropertiesSetSocketID s prop socket_id =
     props_set (\<lambda>p.
     (FPGA_OK, (SET_FIELD_VALID FPGA_PROPERTY_SOCKETID p)\<lparr>pr_socket_id := socket_id\<rparr>)) s prop"

definition fpgaPropertiesGetDeviceID ::
  "'p lib \<Rightarrow> ptr \<Rightarrow> bool \<Rightarrow> (fpga_result \<times> u16 option \<times> 'p lib) option" where
  "fpgaPropertiesGetDeviceID = props_get (if_valid FPGA_PROPERTY_DEVICEID pr_device_id)"

definition fpgaPropertiesSetDeviceID ::
  "'p lib \<Rightarrow> ptr \<Rightarrow> u16 \<Rightarrow> (fpga_result \<times> 'p lib) option" where
  "fpgaPropertiesSetDeviceID s prop device_id =
     props_set (\<lambda>p.
     (FPGA_OK, (SET_FIELD_VALID FPGA_PROPERTY_DEVICEID p)\<lparr>pr_device_id := device_id\<rparr>)) s prop"

definition fpgaPropertiesGetVendorID ::
  "'p lib \<Rightarrow> ptr \<Rightarrow> bool \<Rightarrow> (fpga_result \<times> u16 option \<times> 'p lib) option" where
  "fpgaPropertiesGetVendorID = props_get (if_valid FPGA_PROPERTY_VENDORID pr_vendor_id)"

definition fpgaPropertiesSetVendorID ::
  "'p lib \<Rightarrow> ptr \<Rightarrow> u16 \<Rightarrow> (fpga_result \<times> 'p lib) option" where
  "fpgaPropertiesSetVendorID s prop vendor_id =
     props_set (\<lambda>p.
     (FPGA_OK, (SET_FIELD_VALID FPGA_PROPERTY_VENDORID p)\<lparr>pr_vendor_id := vendor_id\<rparr>)) s prop"

definition fpgaPropertiesGetObjectID ::
  "'p lib \<Rightarrow> ptr \<Rightarrow> bool \<Rightarrow> (fpga_result \<times> u64 option \<times> 'p lib) option" where
  "fpgaPropertiesGetObjectID = props_get (if_valid FPGA_PROPERTY_OBJECTID pr_object_id)"

definition fpgaPropertiesSetObjectID ::
  "'p lib \<Rightarrow> ptr \<Rightarrow> u64 \<Rightarrow> (fpga_result \<times> 'p lib) option" where
  "fpgaPropertiesSetObjectID s prop object_id =
     props_set (\<lambda>p.
     (FPGA_OK, (SET_FIELD_VALID FPGA_PROPERTY_OBJECTID p)\<lparr>pr_object_id := object_id\<rparr>)) s prop"

definition fpgaPropertiesGetNumErrors ::
  "'p lib \<Rightarrow> ptr \<Rightarrow> bool \<Rightarrow> (fpga_result \<times> u32 option \<times> 'p lib) option" where
  "fpgaPropertiesGetNumErrors = props_get (if_valid FPGA_PROPERTY_NUM_ERRORS pr_num_errors)"

definition fpgaPropertiesSetNumErrors ::
  "'p lib \<Rightarrow> ptr \<Rightarrow> u32 \<Rightarrow> (fpga_result \<times> 'p lib) option" where
  "fpgaPropertiesSetNumErrors s prop num_errors =
     props_set (\<lambda>p.
     (FPGA_OK, (SET_FIELD_VALID FPGA_PROPERTY_NUM_ERRORS p)\<lparr>pr_num_errors := num_errors\<rparr>)) s prop"

text \<open>A GUID is 16 bytes; copying from a NULL GUID is undefined.\<close>

definition fpgaPropertiesGetGUID ::
  "'p lib \<Rightarrow> ptr \<Rightarrow> bool \<Rightarrow> (fpga_result \<times> u8 list option \<times> 'p lib) option" where
  "fpgaPropertiesGetGUID = props_get (if_valid FPGA_PROPERTY_GUID pr_guid)"

definition fpgaPropertiesSetGUID ::
  "'p lib \<Rightarrow> ptr \<Rightarrow> u8 list option \<Rightarrow> (fpga_result \<times> 'p lib) option" where
  "fpgaPropertiesSetGUID s prop guid =
     (case guid of
        Some g \<Rightarrow> props_set (\<lambda>p.
          (FPGA_OK, (SET_FIELD_VALID FPGA_PROPERTY_GUID p)\<lparr>pr_guid := g\<rparr>)) s prop
      | None \<Rightarrow> do {
          (p, s) \<leftarrow> opae_validate_and_lock_properties s prop;
          if p = NULL then Some (FPGA_INVALID_PARAM, s) else None
        })"

subsection \<open>Fields of the union\<close>

definition fpgaPropertiesGetNumSlots ::
  "'p lib \<Rightarrow> ptr \<Rightarrow> bool \<Rightarrow> (fpga_result \<times> u32 option \<times> 'p lib) option" where
  "fpgaPropertiesGetNumSlots =
     props_get (if_type_valid FPGA_DEVICE FPGA_PROPERTY_NUM_SLOTS (u_get 0 4))"

definition fpgaPropertiesSetNumSlots ::
  "'p lib \<Rightarrow> ptr \<Rightarrow> u32 \<Rightarrow> (fpga_result \<times> 'p lib) option" where
  "fpgaPropertiesSetNumSlots s prop num_slots =
     props_set (if_type_set FPGA_DEVICE FPGA_PROPERTY_NUM_SLOTS (u_put 0 4 num_slots)) s prop"

definition fpgaPropertiesGetBBSID ::
  "'p lib \<Rightarrow> ptr \<Rightarrow> bool \<Rightarrow> (fpga_result \<times> u64 option \<times> 'p lib) option" where
  "fpgaPropertiesGetBBSID =
     props_get (if_type_valid FPGA_DEVICE FPGA_PROPERTY_BBSID (u_get 8 8))"

definition fpgaPropertiesSetBBSID ::
  "'p lib \<Rightarrow> ptr \<Rightarrow> u64 \<Rightarrow> (fpga_result \<times> 'p lib) option" where
  "fpgaPropertiesSetBBSID s prop bbs_id =
     props_set (if_type_set FPGA_DEVICE FPGA_PROPERTY_BBSID (u_put 8 8 bbs_id)) s prop"

definition fpgaPropertiesGetNumMMIO ::
  "'p lib \<Rightarrow> ptr \<Rightarrow> bool \<Rightarrow> (fpga_result \<times> u32 option \<times> 'p lib) option" where
  "fpgaPropertiesGetNumMMIO =
     props_get (if_type_valid FPGA_ACCELERATOR FPGA_PROPERTY_NUM_MMIO (u_get 4 4))"

definition fpgaPropertiesSetNumMMIO ::
  "'p lib \<Rightarrow> ptr \<Rightarrow> u32 \<Rightarrow> (fpga_result \<times> 'p lib) option" where
  "fpgaPropertiesSetNumMMIO s prop mmio_spaces =
     props_set (if_type_set FPGA_ACCELERATOR FPGA_PROPERTY_NUM_MMIO (u_put 4 4 mmio_spaces)) s prop"

definition fpgaPropertiesGetNumInterrupts ::
  "'p lib \<Rightarrow> ptr \<Rightarrow> bool \<Rightarrow> (fpga_result \<times> u32 option \<times> 'p lib) option" where
  "fpgaPropertiesGetNumInterrupts =
     props_get (if_type_valid FPGA_ACCELERATOR FPGA_PROPERTY_NUM_INTERRUPTS (u_get 8 4))"

definition fpgaPropertiesSetNumInterrupts ::
  "'p lib \<Rightarrow> ptr \<Rightarrow> u32 \<Rightarrow> (fpga_result \<times> 'p lib) option" where
  "fpgaPropertiesSetNumInterrupts s prop num_interrupts =
     props_set (if_type_set FPGA_ACCELERATOR FPGA_PROPERTY_NUM_INTERRUPTS (u_put 8 4 num_interrupts)) s prop"

definition fpgaPropertiesGetAcceleratorState ::
  "'p lib \<Rightarrow> ptr \<Rightarrow> bool \<Rightarrow> (fpga_result \<times> u32 option \<times> 'p lib) option" where
  "fpgaPropertiesGetAcceleratorState =
     props_get (if_type_valid FPGA_ACCELERATOR FPGA_PROPERTY_ACCELERATOR_STATE (u_get 0 4))"

definition fpgaPropertiesSetAcceleratorState ::
  "'p lib \<Rightarrow> ptr \<Rightarrow> u32 \<Rightarrow> (fpga_result \<times> 'p lib) option" where
  "fpgaPropertiesSetAcceleratorState s prop state =
     props_set (if_type_set FPGA_ACCELERATOR FPGA_PROPERTY_ACCELERATOR_STATE (u_put 0 4 state)) s prop"

definition u_get_version :: "fpga_properties \<Rightarrow> fpga_version" where
  "u_get_version p = \<lparr>v_major = u_get 16 1 p, v_minor = u_get 17 1 p, v_patch = u_get 18 2 p\<rparr>"

definition u_put_version :: "fpga_version \<Rightarrow> fpga_properties \<Rightarrow> fpga_properties" where
  "u_put_version v p = u_put 18 2 (v_patch v) (u_put 17 1 (v_minor v) (u_put 16 1 (v_major v) p))"

definition fpgaPropertiesGetBBSVersion ::
  "'p lib \<Rightarrow> ptr \<Rightarrow> bool \<Rightarrow> (fpga_result \<times> fpga_version option \<times> 'p lib) option" where
  "fpgaPropertiesGetBBSVersion =
     props_get (if_type_valid FPGA_DEVICE FPGA_PROPERTY_BBSVERSION u_get_version)"

definition fpgaPropertiesSetBBSVersion ::
  "'p lib \<Rightarrow> ptr \<Rightarrow> fpga_version \<Rightarrow> (fpga_result \<times> 'p lib) option" where
  "fpgaPropertiesSetBBSVersion s prop bbs_version =
     props_set (if_type_set FPGA_DEVICE FPGA_PROPERTY_BBSVERSION (u_put_version bbs_version)) s prop"

subsection \<open>Fields that are not supported\<close>

definition fpgaPropertiesGetModel ::
  "'p lib \<Rightarrow> ptr \<Rightarrow> bool \<Rightarrow> (fpga_result \<times> string option \<times> 'p lib) option" where
  "fpgaPropertiesGetModel s prop out = Some (FPGA_NOT_SUPPORTED, None, s)"

definition fpgaPropertiesSetModel ::
  "'p lib \<Rightarrow> ptr \<Rightarrow> string \<Rightarrow> (fpga_result \<times> 'p lib) option" where
  "fpgaPropertiesSetModel s prop v = Some (FPGA_NOT_SUPPORTED, s)"

definition fpgaPropertiesGetLocalMemorySize ::
  "'p lib \<Rightarrow> ptr \<Rightarrow> bool \<Rightarrow> (fpga_result \<times> u64 option \<times> 'p lib) option" where
  "fpgaPropertiesGetLocalMemorySize s prop out = Some (FPGA_NOT_SUPPORTED, None, s)"

definition fpgaPropertiesSetLocalMemorySize ::
  "'p lib \<Rightarrow> ptr \<Rightarrow> u64 \<Rightarrow> (fpga_result \<times> 'p lib) option" where
  "fpgaPropertiesSetLocalMemorySize s prop v = Some (FPGA_NOT_SUPPORTED, s)"

definition fpgaPropertiesGetCapabilities ::
  "'p lib \<Rightarrow> ptr \<Rightarrow> bool \<Rightarrow> (fpga_result \<times> u64 option \<times> 'p lib) option" where
  "fpgaPropertiesGetCapabilities s prop out = Some (FPGA_NOT_SUPPORTED, None, s)"

definition fpgaPropertiesSetCapabilities ::
  "'p lib \<Rightarrow> ptr \<Rightarrow> u64 \<Rightarrow> (fpga_result \<times> 'p lib) option" where
  "fpgaPropertiesSetCapabilities s prop v = Some (FPGA_NOT_SUPPORTED, s)"

subsection \<open>Creating, copying and destroying\<close>

definition empty_properties :: fpga_properties where
  "empty_properties = \<lparr>pr_lock = 0, pr_magic = FPGA_PROPERTY_MAGIC, valid_fields = 0,
     pr_guid = replicate 16 0, pr_parent = NULL, pr_objtype = 0, pr_segment = 0, pr_bus = 0,
     pr_device = 0, pr_function = 0, pr_socket_id = 0, pr_object_id = 0, pr_vendor_id = 0,
     pr_device_id = 0, pr_num_errors = 0, pr_u = replicate 24 0\<rparr>"

text \<open>\<open>mutex_ok\<close>: the three \<^verbatim>\<open>pthread_mutex*\<close> calls succeed.\<close>

definition opae_properties_create :: "bool \<Rightarrow> 'p lib \<Rightarrow> ptr \<times> 'p lib" where
  "opae_properties_create mutex_ok s =
     (case alloc_obj (OProps empty_properties) s of
        (props, s) \<Rightarrow>
          if props = NULL then (NULL, s)
          else if \<not> mutex_ok then (NULL, free_obj props s)
          else (props, s))"

definition fpgaDestroyProperties ::
  "'p lib \<Rightarrow> ptr option \<Rightarrow> (fpga_result \<times> ptr option \<times> 'p lib) option" where
  "fpgaDestroyProperties s prop =
     (case prop of
        None \<Rightarrow> Some (FPGA_INVALID_PARAM, None, s)
      | Some props \<Rightarrow> do {
          (p, s) \<leftarrow> opae_validate_and_lock_properties s props;
          if p = NULL then Some (FPGA_INVALID_PARAM, Some props, s)
          else do {
            w \<leftarrow> get_props s p;
            s \<leftarrow> (if FIELD_VALID w FPGA_PROPERTY_PARENT then do {
                    wrapped_token \<leftarrow> opae_validate_wrapped_token s (pr_parent w);
                    if wrapped_token \<noteq> NULL
                    then map_option snd (opae_destroy_wrapped_token s wrapped_token)
                    else Some s
                  } else Some s);
            let s = put_obj p (OProps (w\<lparr>pr_magic := 0\<rparr>)) s;
            s \<leftarrow> unlock_properties p s;
            Some (FPGA_OK, Some NULL, free_obj p s)
          }
        })"

definition fpgaCloneProperties ::
  "bool \<Rightarrow> 'p lib \<Rightarrow> ptr \<Rightarrow> bool \<Rightarrow> (fpga_result \<times> ptr option \<times> 'p lib) option" where
  "fpgaCloneProperties mutex_ok s src dst =
     (if \<not> dst then Some (FPGA_INVALID_PARAM, None, s)
      else do {
        (p, s) \<leftarrow> opae_validate_and_lock_properties s src;
        if p = NULL then Some (FPGA_INVALID_PARAM, None, s)
        else case opae_properties_create mutex_ok s of (clone, s) \<Rightarrow>
          if clone = NULL then do {
            s \<leftarrow> unlock_properties p s;
            Some (FPGA_EXCEPTION, None, s)
          } else do {
            c \<leftarrow> get_props s clone;
            w \<leftarrow> get_props s p;
            let s = put_obj clone (OProps (w\<lparr>pr_lock := pr_lock c\<rparr>)) s;
            s \<leftarrow> (if FIELD_VALID w FPGA_PROPERTY_PARENT then do {
                    wrapped_token \<leftarrow> opae_validate_wrapped_token s (pr_parent w);
                    if wrapped_token \<noteq> NULL then opae_upref_wrapped_token s wrapped_token
                    else Some s
                  } else Some s);
            s \<leftarrow> unlock_properties p s;
            Some (FPGA_OK, Some clone, s)
          }
      })"

definition fpgaClearProperties :: "'p lib \<Rightarrow> ptr \<Rightarrow> (fpga_result \<times> 'p lib) option" where
  "fpgaClearProperties s props = do {
     (p, s) \<leftarrow> opae_validate_and_lock_properties s props;
     if p = NULL then Some (FPGA_INVALID_PARAM, s)
     else do {
       w \<leftarrow> get_props s p;
       (w, s) \<leftarrow> (if FIELD_VALID w FPGA_PROPERTY_PARENT then do {
                     wrapped_token \<leftarrow> opae_validate_wrapped_token s (pr_parent w);
                     if wrapped_token \<noteq> NULL then do {
                       (_, s) \<leftarrow> opae_downref_wrapped_token s wrapped_token;
                       Some (w\<lparr>pr_parent := NULL\<rparr>, s)
                     } else Some (w, s)
                   } else Some (w, s));
       s \<leftarrow> unlock_properties p (put_obj p (OProps (w\<lparr>valid_fields := 0\<rparr>)) s);
       Some (FPGA_OK, s)
     }
   }"

definition fpgaPropertiesGetParent ::
  "'p lib \<Rightarrow> ptr \<Rightarrow> bool \<Rightarrow> (fpga_result \<times> ptr option \<times> 'p lib) option" where
  "fpgaPropertiesGetParent = props_get (if_valid FPGA_PROPERTY_PARENT pr_parent)"

definition fpgaPropertiesSetParent ::
  "'p lib \<Rightarrow> ptr \<Rightarrow> ptr \<Rightarrow> (fpga_result \<times> 'p lib) option" where
  "fpgaPropertiesSetParent s prop parent =
     (if parent = NULL then Some (FPGA_INVALID_PARAM, s)
      else do {
        (p, s) \<leftarrow> opae_validate_and_lock_properties s prop;
        if p = NULL then Some (FPGA_INVALID_PARAM, s)
        else do {
          w \<leftarrow> get_props s p;
          s \<leftarrow> (if FIELD_VALID w FPGA_PROPERTY_PARENT then do {
                  wrapped_token \<leftarrow> opae_validate_wrapped_token s (pr_parent w);
                  if wrapped_token \<noteq> NULL
                  then map_option snd (opae_destroy_wrapped_token s wrapped_token)
                  else Some s
                } else Some s);
          wrapped_token \<leftarrow> opae_validate_wrapped_token s parent;
          s \<leftarrow> (if wrapped_token \<noteq> NULL then opae_upref_wrapped_token s wrapped_token
                else Some s);
          let s = put_obj p (OProps (SET_FIELD_VALID FPGA_PROPERTY_PARENT
                                       (w\<lparr>pr_parent := parent\<rparr>))) s;
          s \<leftarrow> unlock_properties p s;
          Some (FPGA_OK, s)
        }
      })"

subsection \<open>The abstract view\<close>

datatype (plugins only: size) pfield =
    Parent | ObjectType | Segment | Bus | Device | Function | SocketID | VendorID | DeviceID
  | GUID | ObjectID | NumErrors | NumSlots | BBSID | BBSVersion
  | AcceleratorState | NumMMIO | NumInterrupts

datatype pval = VInt nat | VGuid "u8 list" | VVersion fpga_version

fun field_bit :: "pfield \<Rightarrow> nat" where
  "field_bit Parent = 0" | "field_bit ObjectType = 1" | "field_bit Segment = 2"
| "field_bit Bus = 3" | "field_bit Device = 4" | "field_bit Function = 5"
| "field_bit SocketID = 6" | "field_bit VendorID = 7" | "field_bit DeviceID = 8"
| "field_bit GUID = 9" | "field_bit ObjectID = 10" | "field_bit NumErrors = 11"
| "field_bit NumSlots = 32" | "field_bit BBSID = 33" | "field_bit BBSVersion = 34"
| "field_bit AcceleratorState = 32" | "field_bit NumMMIO = 33" | "field_bit NumInterrupts = 34"

fun field_type :: "pfield \<Rightarrow> u32 option" where
  "field_type NumSlots = Some 0" | "field_type BBSID = Some 0" | "field_type BBSVersion = Some 0"
| "field_type AcceleratorState = Some 1" | "field_type NumMMIO = Some 1"
| "field_type NumInterrupts = Some 1" | "field_type _ = None"

fun field_val :: "fpga_properties \<Rightarrow> pfield \<Rightarrow> pval" where
  "field_val p Parent = VInt (pr_parent p)"
| "field_val p ObjectType = VInt (unat (pr_objtype p))"
| "field_val p Segment = VInt (unat (pr_segment p))"
| "field_val p Bus = VInt (unat (pr_bus p))"
| "field_val p Device = VInt (unat (pr_device p))"
| "field_val p Function = VInt (unat (pr_function p))"
| "field_val p SocketID = VInt (unat (pr_socket_id p))"
| "field_val p VendorID = VInt (unat (pr_vendor_id p))"
| "field_val p DeviceID = VInt (unat (pr_device_id p))"
| "field_val p GUID = VGuid (pr_guid p)"
| "field_val p ObjectID = VInt (unat (pr_object_id p))"
| "field_val p NumErrors = VInt (unat (pr_num_errors p))"
| "field_val p NumSlots = VInt (unat (u_get 0 4 p :: u32))"
| "field_val p BBSID = VInt (unat (u_get 8 8 p :: u64))"
| "field_val p BBSVersion = VVersion (u_get_version p)"
| "field_val p AcceleratorState = VInt (unat (u_get 0 4 p :: u32))"
| "field_val p NumMMIO = VInt (unat (u_get 4 4 p :: u32))"
| "field_val p NumInterrupts = VInt (unat (u_get 8 4 p :: u32))"

definition has_type :: "fpga_properties \<Rightarrow> u32 option \<Rightarrow> bool" where
  "has_type p ty = (case ty of None \<Rightarrow> True | Some t \<Rightarrow> of_type t p)"

definition props_view :: "fpga_properties \<Rightarrow> pfield \<Rightarrow> pval option" where
  "props_view p f =
     (if FIELD_VALID p (field_bit f) \<and> has_type p (field_type f) then Some (field_val p f) else None)"

lemma FIELD_VALID_bit: "FIELD_VALID p f \<longleftrightarrow> bit (valid_fields p) f"
  by (simp add: FIELD_VALID_def bit_iff_odd_drop_bit and_one_eq odd_iff_mod_2_eq_one)

lemma FIELD_VALID_SET [simp]:
  "f < 64 \<Longrightarrow> FIELD_VALID (SET_FIELD_VALID f p) g \<longleftrightarrow> g = f \<or> FIELD_VALID p g"
  by (auto simp: FIELD_VALID_bit SET_FIELD_VALID_def bit_simps)

lemma FIELD_VALID_cong: "valid_fields p = valid_fields q \<Longrightarrow> FIELD_VALID p f = FIELD_VALID q f"
  by (simp add: FIELD_VALID_def)

definition wf_props :: "fpga_properties \<Rightarrow> bool" where
  "wf_props p \<longleftrightarrow> pr_magic p = FPGA_PROPERTY_MAGIC \<and> length (pr_guid p) = 16 \<and> length (pr_u p) = 24"

lemma FIELD_VALID_upd [simp]:
  "FIELD_VALID (p\<lparr>pr_lock := n\<rparr>) f = FIELD_VALID p f"
  "FIELD_VALID (p\<lparr>pr_magic := x_magic\<rparr>) f = FIELD_VALID p f"
  "FIELD_VALID (p\<lparr>pr_guid := x_guid\<rparr>) f = FIELD_VALID p f"
  "FIELD_VALID (p\<lparr>pr_parent := x_parent\<rparr>) f = FIELD_VALID p f"
  "FIELD_VALID (p\<lparr>pr_objtype := x_objtype\<rparr>) f = FIELD_VALID p f"
  "FIELD_VALID (p\<lparr>pr_segment := x_segment\<rparr>) f = FIELD_VALID p f"
  "FIELD_VALID (p\<lparr>pr_bus := x_bus\<rparr>) f = FIELD_VALID p f"
  "FIELD_VALID (p\<lparr>pr_device := x_device\<rparr>) f = FIELD_VALID p f"
  "FIELD_VALID (p\<lparr>pr_function := x_function\<rparr>) f = FIELD_VALID p f"
  "FIELD_VALID (p\<lparr>pr_socket_id := x_socket_id\<rparr>) f = FIELD_VALID p f"
  "FIELD_VALID (p\<lparr>pr_object_id := x_object_id\<rparr>) f = FIELD_VALID p f"
  "FIELD_VALID (p\<lparr>pr_vendor_id := x_vendor_id\<rparr>) f = FIELD_VALID p f"
  "FIELD_VALID (p\<lparr>pr_device_id := x_device_id\<rparr>) f = FIELD_VALID p f"
  "FIELD_VALID (p\<lparr>pr_num_errors := x_num_errors\<rparr>) f = FIELD_VALID p f"
  "FIELD_VALID (p\<lparr>pr_u := x_u\<rparr>) f = FIELD_VALID p f"
  by (simp_all add: FIELD_VALID_def)

lemma u_get_upd [simp]:
  "u_get i k (p\<lparr>pr_lock := x_lock\<rparr>) = u_get i k p"
  "u_get i k (p\<lparr>pr_magic := x_magic\<rparr>) = u_get i k p"
  "u_get i k (p\<lparr>pr_guid := x_guid\<rparr>) = u_get i k p"
  "u_get i k (p\<lparr>pr_parent := x_parent\<rparr>) = u_get i k p"
  "u_get i k (p\<lparr>pr_objtype := x_objtype\<rparr>) = u_get i k p"
  "u_get i k (p\<lparr>pr_segment := x_segment\<rparr>) = u_get i k p"
  "u_get i k (p\<lparr>pr_bus := x_bus\<rparr>) = u_get i k p"
  "u_get i k (p\<lparr>pr_device := x_device\<rparr>) = u_get i k p"
  "u_get i k (p\<lparr>pr_function := x_function\<rparr>) = u_get i k p"
  "u_get i k (p\<lparr>pr_socket_id := x_socket_id\<rparr>) = u_get i k p"
  "u_get i k (p\<lparr>pr_object_id := x_object_id\<rparr>) = u_get i k p"
  "u_get i k (p\<lparr>pr_vendor_id := x_vendor_id\<rparr>) = u_get i k p"
  "u_get i k (p\<lparr>pr_device_id := x_device_id\<rparr>) = u_get i k p"
  "u_get i k (p\<lparr>pr_num_errors := x_num_errors\<rparr>) = u_get i k p"
  "u_get i k (SET_FIELD_VALID f p) = u_get i k p"
  by (simp_all add: u_get_def SET_FIELD_VALID_def)

lemma SET_FIELD_VALID_sel [simp]:
  "pr_lock (SET_FIELD_VALID b p) = pr_lock p"
  "pr_magic (SET_FIELD_VALID b p) = pr_magic p"
  "pr_guid (SET_FIELD_VALID b p) = pr_guid p"
  "pr_parent (SET_FIELD_VALID b p) = pr_parent p"
  "pr_objtype (SET_FIELD_VALID b p) = pr_objtype p"
  "pr_segment (SET_FIELD_VALID b p) = pr_segment p"
  "pr_bus (SET_FIELD_VALID b p) = pr_bus p"
  "pr_device (SET_FIELD_VALID b p) = pr_device p"
  "pr_function (SET_FIELD_VALID b p) = pr_function p"
  "pr_socket_id (SET_FIELD_VALID b p) = pr_socket_id p"
  "pr_object_id (SET_FIELD_VALID b p) = pr_object_id p"
  "pr_vendor_id (SET_FIELD_VALID b p) = pr_vendor_id p"
  "pr_device_id (SET_FIELD_VALID b p) = pr_device_id p"
  "pr_num_errors (SET_FIELD_VALID b p) = pr_num_errors p"
  "pr_u (SET_FIELD_VALID b p) = pr_u p"
  by (simp_all add: SET_FIELD_VALID_def)

lemma u_put_sel [simp]:
  "pr_lock (u_put i k w p) = pr_lock p"
  "pr_magic (u_put i k w p) = pr_magic p"
  "pr_guid (u_put i k w p) = pr_guid p"
  "pr_parent (u_put i k w p) = pr_parent p"
  "pr_objtype (u_put i k w p) = pr_objtype p"
  "pr_segment (u_put i k w p) = pr_segment p"
  "pr_bus (u_put i k w p) = pr_bus p"
  "pr_device (u_put i k w p) = pr_device p"
  "pr_function (u_put i k w p) = pr_function p"
  "pr_socket_id (u_put i k w p) = pr_socket_id p"
  "pr_object_id (u_put i k w p) = pr_object_id p"
  "pr_vendor_id (u_put i k w p) = pr_vendor_id p"
  "pr_device_id (u_put i k w p) = pr_device_id p"
  "pr_num_errors (u_put i k w p) = pr_num_errors p"
  "FIELD_VALID (u_put i k w p) b = FIELD_VALID p b"
  by (simp_all add: u_put_def FIELD_VALID_def)

lemma all_pfield: "(\<forall>f. P f) \<longleftrightarrow>
    P Parent \<and> P ObjectType \<and> P Segment \<and> P Bus \<and> P Device \<and> P Function \<and> P SocketID \<and>
    P VendorID \<and> P DeviceID \<and> P GUID \<and> P ObjectID \<and> P NumErrors \<and> P NumSlots \<and> P BBSID \<and>
    P BBSVersion \<and> P AcceleratorState \<and> P NumMMIO \<and> P NumInterrupts"
  (is "?l = ?r")
proof
  assume r: ?r
  show ?l
  proof
    fix f show "P f" using r by (cases f) simp_all
  qed
qed simp

lemma u_put_version_sel [simp]:
  assumes u: "length (pr_u p) = 24"
  shows "u_get_version (u_put_version v p) = v"
    "off + n \<le> 16 \<Longrightarrow> u_get off n (u_put_version v p) = u_get off n p"
    "length (pr_u (u_put_version v p)) = 24"
proof -
  let ?p1 = "u_put 16 1 (v_major v) p"
  let ?p2 = "u_put 17 1 (v_minor v) ?p1"
  have l1: "length (pr_u ?p1) = 24" using u by simp
  have l2: "length (pr_u ?p2) = 24" using l1 by simp
  have o1: "u_get i k ?p1 = u_get i k p" if "i + k \<le> 16 \<or> 17 \<le> i" for i k
    using that u by (subst u_get_put_other) auto
  have o2: "u_get i k ?p2 = u_get i k ?p1" if "i + k \<le> 17 \<or> 18 \<le> i" for i k
    using that l1 by (subst u_get_put_other) auto
  have o3: "u_get i k (u_put_version v p) = u_get i k ?p2" if "i + k \<le> 18 \<or> 20 \<le> i" for i k
    using that l2 by (subst u_put_version_def, subst u_get_put_other) auto
  show "length (pr_u (u_put_version v p)) = 24" using l2 by (simp add: u_put_version_def)
  show "u_get off n (u_put_version v p) = u_get off n p" if "off + n \<le> 16"
    by (rule trans [OF o3 trans [OF o2 o1]]) (use that in auto)
  have "u_get 16 1 (u_put_version v p) = v_major v"
    by (rule trans [OF o3 trans [OF o2 u_get_put_same]]) (simp_all add: u)
  moreover have "u_get 17 1 (u_put_version v p) = v_minor v"
    by (rule trans [OF o3 u_get_put_same]) (use l1 in simp_all)
  moreover have "u_get 18 2 (u_put_version v p) = v_patch v"
    unfolding u_put_version_def by (rule u_get_put_same) (use l2 in simp_all)
  ultimately show "u_get_version (u_put_version v p) = v" by (simp add: u_get_version_def)
qed

lemma u_put_version_frame [simp]:
  "pr_lock (u_put_version v p) = pr_lock p"
  "pr_magic (u_put_version v p) = pr_magic p"
  "pr_guid (u_put_version v p) = pr_guid p"
  "pr_parent (u_put_version v p) = pr_parent p"
  "pr_objtype (u_put_version v p) = pr_objtype p"
  "pr_segment (u_put_version v p) = pr_segment p"
  "pr_bus (u_put_version v p) = pr_bus p"
  "pr_device (u_put_version v p) = pr_device p"
  "pr_function (u_put_version v p) = pr_function p"
  "pr_socket_id (u_put_version v p) = pr_socket_id p"
  "pr_object_id (u_put_version v p) = pr_object_id p"
  "pr_vendor_id (u_put_version v p) = pr_vendor_id p"
  "pr_device_id (u_put_version v p) = pr_device_id p"
  "pr_num_errors (u_put_version v p) = pr_num_errors p"
  "FIELD_VALID (u_put_version v p) b = FIELD_VALID p b"
  by (simp_all add: u_put_version_def)

lemma u_get_version_u_put [simp]:
  "length (pr_u p) = 24 \<Longrightarrow> off + n \<le> 16 \<Longrightarrow> u_get_version (u_put off n w p) = u_get_version p"
  by (simp add: u_get_version_def u_get_put_other)

lemma u_get_version_upd [simp]:
  "u_get_version (p\<lparr>pr_lock := x_lock\<rparr>) = u_get_version p"
  "u_get_version (p\<lparr>pr_magic := x_magic\<rparr>) = u_get_version p"
  "u_get_version (p\<lparr>pr_guid := x_guid\<rparr>) = u_get_version p"
  "u_get_version (p\<lparr>pr_parent := x_parent\<rparr>) = u_get_version p"
  "u_get_version (p\<lparr>pr_objtype := x_objtype\<rparr>) = u_get_version p"
  "u_get_version (p\<lparr>pr_segment := x_segment\<rparr>) = u_get_version p"
  "u_get_version (p\<lparr>pr_bus := x_bus\<rparr>) = u_get_version p"
  "u_get_version (p\<lparr>pr_device := x_device\<rparr>) = u_get_version p"
  "u_get_version (p\<lparr>pr_function := x_function\<rparr>) = u_get_version p"
  "u_get_version (p\<lparr>pr_socket_id := x_socket_id\<rparr>) = u_get_version p"
  "u_get_version (p\<lparr>pr_object_id := x_object_id\<rparr>) = u_get_version p"
  "u_get_version (p\<lparr>pr_vendor_id := x_vendor_id\<rparr>) = u_get_version p"
  "u_get_version (p\<lparr>pr_device_id := x_device_id\<rparr>) = u_get_version p"
  "u_get_version (p\<lparr>pr_num_errors := x_num_errors\<rparr>) = u_get_version p"
  "u_get_version (SET_FIELD_VALID b p) = u_get_version p"
  by (simp_all add: u_get_version_def)

lemma props_view_lock [simp]: "props_view (p\<lparr>pr_lock := n\<rparr>) = props_view p"
  by (simp add: props_view_def fun_eq_iff all_pfield has_type_def of_type_def)

lemma wf_props_lock [simp]: "wf_props (p\<lparr>pr_lock := n\<rparr>) = wf_props p"
  by (simp add: wf_props_def)

lemma has_type_lock [simp]: "has_type (p\<lparr>pr_lock := n\<rparr>) ty = has_type p ty"
  by (simp add: has_type_def of_type_def split: option.split)

subsection \<open>The contract of an accessor pair\<close>

text \<open>What a call did, in terms of the view: \<open>r\<close> is its result.\<close>

definition reads_field ::
  "'p lib \<Rightarrow> fpga_properties \<Rightarrow> pfield \<Rightarrow> ('v \<Rightarrow> pval) \<Rightarrow>
   (fpga_result \<times> 'v option \<times> 'p lib) option \<Rightarrow> bool" where
  "reads_field s p f enc r \<longleftrightarrow>
     (case r of None \<Rightarrow> False
      | Some (res, out, s') \<Rightarrow>
          s' = s \<and> map_option enc out = props_view p f \<and>
          res = (if out \<noteq> None then FPGA_OK
                 else if has_type p (field_type f) then FPGA_NOT_FOUND else FPGA_INVALID_PARAM))"

definition sets_field ::
  "'p lib \<Rightarrow> ptr \<Rightarrow> fpga_properties \<Rightarrow> pfield \<Rightarrow> pval \<Rightarrow> (fpga_result \<times> 'p lib) option \<Rightarrow> bool"
where
  "sets_field s a p f x r \<longleftrightarrow>
     (if has_type p (field_type f)
      then \<exists>q. r = Some (FPGA_OK, put_obj a (OProps q) s) \<and> wf_props q \<and> pr_lock q = pr_lock p \<and>
               props_view q = (props_view p)(f \<mapsto> x)
      else r = Some (FPGA_INVALID_PARAM, s))"

text \<open>
  \<open>prop_getter\<close> is what a getter promises: it looks its key up in the view, and tells a field
  that is not set from one that objects of this type do not have. \<open>prop_field\<close> adds the setter,
  which updates its own key and nothing else, or is refused on an object of the other type. The
  operations on the store are derived from these once.
\<close>

locale prop_getter =
  fixes rd :: "fpga_properties \<Rightarrow> fpga_result \<times> 'v option"
    and name :: pfield
    and enc :: "'v \<Rightarrow> pval"
  assumes rd_view: "map_option enc (snd (rd p)) = props_view p name"
    and rd_result: "fst (rd p) = (if snd (rd p) \<noteq> None then FPGA_OK
      else if has_type p (field_type name) then FPGA_NOT_FOUND else FPGA_INVALID_PARAM)"
    and enc_inj: "enc v = enc w \<Longrightarrow> v = w"
begin

lemma rd_lock: "rd (p\<lparr>pr_lock := n\<rparr>) = rd p"
proof (rule prod_eqI)
  have "map_option enc (snd (rd (p\<lparr>pr_lock := n\<rparr>))) = map_option enc (snd (rd p))"
    by (simp add: rd_view)
  then show s: "snd (rd (p\<lparr>pr_lock := n\<rparr>)) = snd (rd p)"
    by (metis injI enc_inj injD option.inj_map)
  show "fst (rd (p\<lparr>pr_lock := n\<rparr>)) = fst (rd p)" by (simp add: rd_result s)
qed

lemma get_reads:
  assumes "mem s a = Some (OProps p)" "a \<noteq> 0" "wf_props p"
  shows "props_get rd s a True = Some (fst (rd p), snd (rd p), s)"
  using assms by (simp add: props_get_def opae_validate_and_lock_properties_def unlock_properties_def
      put_obj_def wf_props_def rd_lock fun_upd_idem split_beta Let_def)

lemma get_reads_field:
  assumes "mem s a = Some (OProps p)" "a \<noteq> 0" "wf_props p"
  shows "reads_field s p name enc (props_get rd s a True)"
  by (simp add: get_reads [OF assms] reads_field_def rd_view rd_result)

lemma rd_some: "props_view p name = Some (enc v) \<Longrightarrow> rd p = (FPGA_OK, Some v)"
  using rd_view [of p] rd_result [of p] by (cases "rd p") (auto dest: enc_inj)

end

locale prop_field = prop_getter rd name enc
  for rd :: "fpga_properties \<Rightarrow> fpga_result \<times> 'v option"
    and name :: pfield
    and enc :: "'v \<Rightarrow> pval" +
  fixes upd :: "'v \<Rightarrow> fpga_properties \<Rightarrow> fpga_result \<times> fpga_properties"
    and pre :: "'v \<Rightarrow> bool"
  assumes upd_view: "wf_props p \<Longrightarrow> pre v \<Longrightarrow> has_type p (field_type name) \<Longrightarrow>
      upd v p = (FPGA_OK, q) \<Longrightarrow> props_view q = (props_view p)(name \<mapsto> enc v)"
    and upd_ok: "has_type p (field_type name) \<Longrightarrow> fst (upd v p) = FPGA_OK"
    and upd_wf: "wf_props p \<Longrightarrow> pre v \<Longrightarrow> wf_props (snd (upd v p)) \<and> pr_lock (snd (upd v p)) = pr_lock p"
    and upd_reject: "\<not> has_type p (field_type name) \<Longrightarrow> upd v p = (FPGA_INVALID_PARAM, p)"
begin

lemma set_refines:
  assumes "mem s a = Some (OProps p)" "a \<noteq> 0" "wf_props p" "pre v" "has_type p (field_type name)"
  shows "\<exists>q. props_set (upd v) s a = Some (FPGA_OK, put_obj a (OProps q) s) \<and> wf_props q \<and>
    pr_lock q = pr_lock p \<and> props_view q = (props_view p)(name \<mapsto> enc v)"
proof -
  let ?p = "p\<lparr>pr_lock := Suc (pr_lock p)\<rparr>"
  obtain q where q: "upd v ?p = (FPGA_OK, q)"
    using upd_ok [of ?p v] assms(5) by (cases "upd v ?p") auto
  have "props_view q = (props_view ?p)(name \<mapsto> enc v)"
    by (rule upd_view [OF _ _ _ q]) (use assms in simp_all)
  moreover have "wf_props q \<and> pr_lock q = Suc (pr_lock p)" using upd_wf [of ?p v] assms q by simp
  ultimately show ?thesis using assms q
    by (intro exI [of _ "q\<lparr>pr_lock := pr_lock p\<rparr>"])
      (simp add: props_set_def opae_validate_and_lock_properties_def unlock_properties_def put_obj_def
        wf_props_def)
qed

lemma set_rejected:
  assumes "mem s a = Some (OProps p)" "a \<noteq> 0" "wf_props p" "\<not> has_type p (field_type name)"
  shows "props_set (upd v) s a = Some (FPGA_INVALID_PARAM, s)"
  using assms upd_reject [of "p\<lparr>pr_lock := Suc (pr_lock p)\<rparr>" v]
  by (simp add: props_set_def opae_validate_and_lock_properties_def unlock_properties_def put_obj_def
      wf_props_def fun_upd_idem)

lemma set_sets_field:
  assumes "mem s a = Some (OProps p)" "a \<noteq> 0" "wf_props p" "pre v"
  shows "sets_field s a p name (enc v) (props_set (upd v) s a)"
  using set_refines [OF assms] set_rejected [OF assms(1-3)] by (simp add: sets_field_def)

lemma set_get:
  assumes "mem s a = Some (OProps p)" "a \<noteq> 0" "wf_props p" "pre v" "has_type p (field_type name)"
  shows "\<exists>s'. props_set (upd v) s a = Some (FPGA_OK, s') \<and>
    props_get rd s' a True = Some (FPGA_OK, Some v, s')"
proof -
  obtain q where q: "props_set (upd v) s a = Some (FPGA_OK, put_obj a (OProps q) s)" "wf_props q"
    "props_view q = (props_view p)(name \<mapsto> enc v)" using set_refines [OF assms] by blast
  have "props_get rd (put_obj a (OProps q) s) a True =
      Some (fst (rd q), snd (rd q), put_obj a (OProps q) s)"
    by (rule get_reads) (simp_all add: put_obj_def q assms(2))
  moreover have "rd q = (FPGA_OK, Some v)" by (rule rd_some) (simp add: q(3))
  ultimately have "props_get rd (put_obj a (OProps q) s) a True =
      Some (FPGA_OK, Some v, put_obj a (OProps q) s)" by simp
  with q show ?thesis by blast
qed

end

lemma field_bit_clash:
  "f \<noteq> g \<Longrightarrow> field_bit f = field_bit g \<Longrightarrow>
   \<exists>a b. field_type f = Some a \<and> field_type g = Some b \<and> a \<noteq> b"
  by (cases f; cases g; simp)

lemma field_bit_objtype: "field_bit f = 1 \<longleftrightarrow> f = ObjectType"
  by (cases f) simp_all

lemma has_type_Some: "has_type p (Some t) = of_type t p"
  by (simp add: has_type_def)

lemma has_type_unique: "has_type p (Some a) \<Longrightarrow> has_type p (Some b) \<Longrightarrow> a = b"
  by (simp add: has_type_def of_type_def)

text \<open>The two facts a setter must have for its view to change in one place only.\<close>

lemma upd_view1:
  assumes q: "(FPGA_OK, r) = (FPGA_OK, q)"
    and valid: "\<And>b. FIELD_VALID r b \<longleftrightarrow> b = field_bit name \<or> FIELD_VALID p b"
    and ot: "pr_objtype r = pr_objtype p" "name \<noteq> ObjectType" and ty: "has_type p (field_type name)"
    and val: "\<forall>f. f \<noteq> name \<longrightarrow>
        field_type f = None \<or> field_type name = None \<or> field_type f = field_type name \<longrightarrow>
        field_val r f = field_val p f"
    and x: "field_val r name = x"
  shows "props_view q = (props_view p)(name \<mapsto> x)"
proof
  fix f
  have o: "FIELD_VALID r FPGA_PROPERTY_OBJTYPE = FIELD_VALID p FPGA_PROPERTY_OBJTYPE"
    using valid [of 1] field_bit_objtype [of name] ot(2) by (auto simp: FPGA_PROPERTY_OBJTYPE_def)
  have h: "has_type r t = has_type p t" for t
    using ot(1) o by (simp add: has_type_def of_type_def split: option.split)
  have qr: "q = r" using q by simp
  show "props_view q f = ((props_view p)(name \<mapsto> x)) f"
  proof (cases "f = name")
    case True
    then show ?thesis using ty x by (simp add: props_view_def h valid qr)
  next
    case False
    show ?thesis
    proof (cases "has_type p (field_type f)")
      case True
      then have "field_bit f \<noteq> field_bit name"
        using field_bit_clash [OF False] ty has_type_unique [of p] by fastforce
      moreover have "field_val r f = field_val p f"
        using val False True ty has_type_unique [of p]
        by (cases "field_type f"; cases "field_type name") auto
      ultimately show ?thesis using False by (simp add: props_view_def h valid qr)
    qed (use False in \<open>simp add: props_view_def h qr\<close>)
  qed
qed

lemma typed [simp]: "FPGA_DEVICE = 0" "FPGA_ACCELERATOR = 1"
  by (simp_all add: FPGA_DEVICE_def FPGA_ACCELERATOR_def)

lemma if_type_set_ok:
  "if_type_set ty b u p = (FPGA_OK, q) \<Longrightarrow> of_type ty p \<Longrightarrow>
   (FPGA_OK, u (SET_FIELD_VALID b p)) = (FPGA_OK, q)"
  by (simp add: if_type_set_def)

lemma unat_inj_iff: "unat v = unat w \<longleftrightarrow> v = w"
  by (simp add: word_unat_eq_iff)

lemmas prop_facts = unat_inj_iff wf_props_def has_type_Some has_type_def u_get_put_other

interpretation f_segment: prop_field
  "if_valid FPGA_PROPERTY_SEGMENT pr_segment" Segment "\<lambda>v. VInt (unat v)"
  "\<lambda>v p. (FPGA_OK, (SET_FIELD_VALID FPGA_PROPERTY_SEGMENT p)\<lparr>pr_segment := v\<rparr>)" "\<lambda>_. True"
proof (unfold_locales, goal_cases)
  case (4 p v q)
  show ?case
    by (rule upd_view1 [OF 4(4)])
      (use 4(1-3) in \<open>simp_all add: all_pfield property_bits prop_facts\<close>)
qed (simp_all add: prop_facts property_bits props_view_def if_valid_def split: if_splits)

interpretation f_bus: prop_field
  "if_valid FPGA_PROPERTY_BUS pr_bus" Bus "\<lambda>v. VInt (unat v)"
  "\<lambda>v p. (FPGA_OK, (SET_FIELD_VALID FPGA_PROPERTY_BUS p)\<lparr>pr_bus := v\<rparr>)" "\<lambda>_. True"
proof (unfold_locales, goal_cases)
  case (4 p v q)
  show ?case
    by (rule upd_view1 [OF 4(4)])
      (use 4(1-3) in \<open>simp_all add: all_pfield property_bits prop_facts\<close>)
qed (simp_all add: prop_facts property_bits props_view_def if_valid_def split: if_splits)

interpretation f_device: prop_field
  "if_valid FPGA_PROPERTY_DEVICE pr_device" Device "\<lambda>v. VInt (unat v)"
  "\<lambda>v p. (FPGA_OK, (SET_FIELD_VALID FPGA_PROPERTY_DEVICE p)\<lparr>pr_device := v\<rparr>)" "\<lambda>_. True"
proof (unfold_locales, goal_cases)
  case (4 p v q)
  show ?case
    by (rule upd_view1 [OF 4(4)])
      (use 4(1-3) in \<open>simp_all add: all_pfield property_bits prop_facts\<close>)
qed (simp_all add: prop_facts property_bits props_view_def if_valid_def split: if_splits)

interpretation f_function: prop_field
  "if_valid FPGA_PROPERTY_FUNCTION pr_function" Function "\<lambda>v. VInt (unat v)"
  "\<lambda>v p. (FPGA_OK, (SET_FIELD_VALID FPGA_PROPERTY_FUNCTION p)\<lparr>pr_function := v\<rparr>)" "\<lambda>_. True"
proof (unfold_locales, goal_cases)
  case (4 p v q)
  show ?case
    by (rule upd_view1 [OF 4(4)])
      (use 4(1-3) in \<open>simp_all add: all_pfield property_bits prop_facts\<close>)
qed (simp_all add: prop_facts property_bits props_view_def if_valid_def split: if_splits)

interpretation f_socket_id: prop_field
  "if_valid FPGA_PROPERTY_SOCKETID pr_socket_id" SocketID "\<lambda>v. VInt (unat v)"
  "\<lambda>v p. (FPGA_OK, (SET_FIELD_VALID FPGA_PROPERTY_SOCKETID p)\<lparr>pr_socket_id := v\<rparr>)" "\<lambda>_. True"
proof (unfold_locales, goal_cases)
  case (4 p v q)
  show ?case
    by (rule upd_view1 [OF 4(4)])
      (use 4(1-3) in \<open>simp_all add: all_pfield property_bits prop_facts\<close>)
qed (simp_all add: prop_facts property_bits props_view_def if_valid_def split: if_splits)

interpretation f_device_id: prop_field
  "if_valid FPGA_PROPERTY_DEVICEID pr_device_id" DeviceID "\<lambda>v. VInt (unat v)"
  "\<lambda>v p. (FPGA_OK, (SET_FIELD_VALID FPGA_PROPERTY_DEVICEID p)\<lparr>pr_device_id := v\<rparr>)" "\<lambda>_. True"
proof (unfold_locales, goal_cases)
  case (4 p v q)
  show ?case
    by (rule upd_view1 [OF 4(4)])
      (use 4(1-3) in \<open>simp_all add: all_pfield property_bits prop_facts\<close>)
qed (simp_all add: prop_facts property_bits props_view_def if_valid_def split: if_splits)

interpretation f_vendor_id: prop_field
  "if_valid FPGA_PROPERTY_VENDORID pr_vendor_id" VendorID "\<lambda>v. VInt (unat v)"
  "\<lambda>v p. (FPGA_OK, (SET_FIELD_VALID FPGA_PROPERTY_VENDORID p)\<lparr>pr_vendor_id := v\<rparr>)" "\<lambda>_. True"
proof (unfold_locales, goal_cases)
  case (4 p v q)
  show ?case
    by (rule upd_view1 [OF 4(4)])
      (use 4(1-3) in \<open>simp_all add: all_pfield property_bits prop_facts\<close>)
qed (simp_all add: prop_facts property_bits props_view_def if_valid_def split: if_splits)

interpretation f_object_id: prop_field
  "if_valid FPGA_PROPERTY_OBJECTID pr_object_id" ObjectID "\<lambda>v. VInt (unat v)"
  "\<lambda>v p. (FPGA_OK, (SET_FIELD_VALID FPGA_PROPERTY_OBJECTID p)\<lparr>pr_object_id := v\<rparr>)" "\<lambda>_. True"
proof (unfold_locales, goal_cases)
  case (4 p v q)
  show ?case
    by (rule upd_view1 [OF 4(4)])
      (use 4(1-3) in \<open>simp_all add: all_pfield property_bits prop_facts\<close>)
qed (simp_all add: prop_facts property_bits props_view_def if_valid_def split: if_splits)

interpretation f_num_errors: prop_field
  "if_valid FPGA_PROPERTY_NUM_ERRORS pr_num_errors" NumErrors "\<lambda>v. VInt (unat v)"
  "\<lambda>v p. (FPGA_OK, (SET_FIELD_VALID FPGA_PROPERTY_NUM_ERRORS p)\<lparr>pr_num_errors := v\<rparr>)" "\<lambda>_. True"
proof (unfold_locales, goal_cases)
  case (4 p v q)
  show ?case
    by (rule upd_view1 [OF 4(4)])
      (use 4(1-3) in \<open>simp_all add: all_pfield property_bits prop_facts\<close>)
qed (simp_all add: prop_facts property_bits props_view_def if_valid_def split: if_splits)

interpretation f_guid: prop_field
  "if_valid FPGA_PROPERTY_GUID pr_guid" GUID "VGuid"
  "\<lambda>v p. (FPGA_OK, (SET_FIELD_VALID FPGA_PROPERTY_GUID p)\<lparr>pr_guid := v\<rparr>)" "\<lambda>v. length v = 16"
proof (unfold_locales, goal_cases)
  case (4 p v q)
  show ?case
    by (rule upd_view1 [OF 4(4)])
      (use 4(1-3) in \<open>simp_all add: all_pfield property_bits prop_facts\<close>)
qed (simp_all add: prop_facts property_bits props_view_def if_valid_def split: if_splits)

interpretation f_num_slots: prop_field
  "if_type_valid FPGA_DEVICE FPGA_PROPERTY_NUM_SLOTS (u_get 0 4)" NumSlots "\<lambda>v. VInt (unat v)"
  "\<lambda>v. if_type_set FPGA_DEVICE FPGA_PROPERTY_NUM_SLOTS (u_put 0 4 (v :: u32))" "\<lambda>_. True"
proof (unfold_locales, goal_cases)
  case (4 p v q)
  show ?case
    by (rule upd_view1 [OF if_type_set_ok [OF 4(4)]])
      (use 4(1-3) in \<open>simp_all add: all_pfield property_bits prop_facts\<close>)
qed (simp_all add: prop_facts property_bits props_view_def if_type_set_def if_type_valid_def
       if_valid_def split: if_splits)

interpretation f_bbs_id: prop_field
  "if_type_valid FPGA_DEVICE FPGA_PROPERTY_BBSID (u_get 8 8)" BBSID "\<lambda>v. VInt (unat v)"
  "\<lambda>v. if_type_set FPGA_DEVICE FPGA_PROPERTY_BBSID (u_put 8 8 (v :: u64))" "\<lambda>_. True"
proof (unfold_locales, goal_cases)
  case (4 p v q)
  show ?case
    by (rule upd_view1 [OF if_type_set_ok [OF 4(4)]])
      (use 4(1-3) in \<open>simp_all add: all_pfield property_bits prop_facts\<close>)
qed (simp_all add: prop_facts property_bits props_view_def if_type_set_def if_type_valid_def
       if_valid_def split: if_splits)

interpretation f_num_mmio: prop_field
  "if_type_valid FPGA_ACCELERATOR FPGA_PROPERTY_NUM_MMIO (u_get 4 4)" NumMMIO "\<lambda>v. VInt (unat v)"
  "\<lambda>v. if_type_set FPGA_ACCELERATOR FPGA_PROPERTY_NUM_MMIO (u_put 4 4 (v :: u32))" "\<lambda>_. True"
proof (unfold_locales, goal_cases)
  case (4 p v q)
  show ?case
    by (rule upd_view1 [OF if_type_set_ok [OF 4(4)]])
      (use 4(1-3) in \<open>simp_all add: all_pfield property_bits prop_facts\<close>)
qed (simp_all add: prop_facts property_bits props_view_def if_type_set_def if_type_valid_def
       if_valid_def split: if_splits)

interpretation f_num_interrupts: prop_field
  "if_type_valid FPGA_ACCELERATOR FPGA_PROPERTY_NUM_INTERRUPTS (u_get 8 4)" NumInterrupts "\<lambda>v. VInt (unat v)"
  "\<lambda>v. if_type_set FPGA_ACCELERATOR FPGA_PROPERTY_NUM_INTERRUPTS (u_put 8 4 (v :: u32))" "\<lambda>_. True"
proof (unfold_locales, goal_cases)
  case (4 p v q)
  show ?case
    by (rule upd_view1 [OF if_type_set_ok [OF 4(4)]])
      (use 4(1-3) in \<open>simp_all add: all_pfield property_bits prop_facts\<close>)
qed (simp_all add: prop_facts property_bits props_view_def if_type_set_def if_type_valid_def
       if_valid_def split: if_splits)

interpretation f_state: prop_field
  "if_type_valid FPGA_ACCELERATOR FPGA_PROPERTY_ACCELERATOR_STATE (u_get 0 4)" AcceleratorState "\<lambda>v. VInt (unat v)"
  "\<lambda>v. if_type_set FPGA_ACCELERATOR FPGA_PROPERTY_ACCELERATOR_STATE (u_put 0 4 (v :: u32))" "\<lambda>_. True"
proof (unfold_locales, goal_cases)
  case (4 p v q)
  show ?case
    by (rule upd_view1 [OF if_type_set_ok [OF 4(4)]])
      (use 4(1-3) in \<open>simp_all add: all_pfield property_bits prop_facts\<close>)
qed (simp_all add: prop_facts property_bits props_view_def if_type_set_def if_type_valid_def
       if_valid_def split: if_splits)

interpretation f_bbs_version: prop_field
  "if_type_valid FPGA_DEVICE FPGA_PROPERTY_BBSVERSION u_get_version" BBSVersion "VVersion"
  "\<lambda>v. if_type_set FPGA_DEVICE FPGA_PROPERTY_BBSVERSION (u_put_version v)" "\<lambda>_. True"
proof (unfold_locales, goal_cases)
  case (4 p v q)
  show ?case
    by (rule upd_view1 [OF if_type_set_ok [OF 4(4)]])
      (use 4(1-3) in \<open>simp_all add: all_pfield property_bits prop_facts\<close>)
qed (simp_all add: prop_facts property_bits props_view_def if_type_set_def if_type_valid_def
       if_valid_def split: if_splits)

interpretation f_parent: prop_getter "if_valid FPGA_PROPERTY_PARENT pr_parent" Parent VInt
  by unfold_locales (simp_all add: prop_facts property_bits props_view_def if_valid_def)

interpretation f_objtype: prop_getter "if_valid FPGA_PROPERTY_OBJTYPE pr_objtype" ObjectType
  "\<lambda>v. VInt (unat v)"
  by unfold_locales (simp_all add: prop_facts property_bits props_view_def if_valid_def)

lemma has_type_common: "field_type f = None \<Longrightarrow> has_type p (field_type f)"
  by (simp add: has_type_def)

subsection \<open>Setters and getters refine map update and lookup\<close>


text \<open>
  The setters of the object-specific fields update exactly their own field of the view of
  an object of the right type, and refuse an object of the other type, or of no type, with
  FPGA_INVALID_PARAM and no change. The fields of one type do not overlap in the union.
\<close>

theorem props_typed_setters_refine:
  assumes "mem s a = Some (OProps p)" "a \<noteq> 0" "wf_props p"
  shows "sets_field s a p NumSlots (VInt (unat ns)) (fpgaPropertiesSetNumSlots s a ns) \<and>
    sets_field s a p BBSID (VInt (unat bid)) (fpgaPropertiesSetBBSID s a bid) \<and>
    sets_field s a p BBSVersion (VVersion ver) (fpgaPropertiesSetBBSVersion s a ver) \<and>
    sets_field s a p AcceleratorState (VInt (unat st)) (fpgaPropertiesSetAcceleratorState s a st) \<and>
    sets_field s a p NumMMIO (VInt (unat nm)) (fpgaPropertiesSetNumMMIO s a nm) \<and>
    sets_field s a p NumInterrupts (VInt (unat ni)) (fpgaPropertiesSetNumInterrupts s a ni)"
  unfolding fpgaPropertiesSetNumSlots_def fpgaPropertiesSetBBSID_def
    fpgaPropertiesSetBBSVersion_def fpgaPropertiesSetAcceleratorState_def
    fpgaPropertiesSetNumMMIO_def fpgaPropertiesSetNumInterrupts_def
  using f_num_slots.set_sets_field [OF assms] f_bbs_id.set_sets_field [OF assms]
    f_bbs_version.set_sets_field [OF assms] f_state.set_sets_field [OF assms]
    f_num_mmio.set_sets_field [OF assms] f_num_interrupts.set_sets_field [OF assms]
  by simp

text \<open>
  C39. Every getter looks its field up in the view: it stores the value and returns FPGA_OK when
  the field is set, and stores nothing and returns FPGA_NOT_FOUND when it is not, or
  FPGA_INVALID_PARAM when objects of this type do not have it. The state, lock included, is
  unchanged.
\<close>

theorem props_getters_refine:
  assumes "mem s a = Some (OProps p)" "a \<noteq> 0" "wf_props p"
  shows "reads_field s p Parent VInt (fpgaPropertiesGetParent s a True) \<and>
    reads_field s p ObjectType (\<lambda>v. VInt (unat v)) (fpgaPropertiesGetObjectType s a True) \<and>
    reads_field s p Segment (\<lambda>v. VInt (unat v)) (fpgaPropertiesGetSegment s a True) \<and>
    reads_field s p Bus (\<lambda>v. VInt (unat v)) (fpgaPropertiesGetBus s a True) \<and>
    reads_field s p Device (\<lambda>v. VInt (unat v)) (fpgaPropertiesGetDevice s a True) \<and>
    reads_field s p Function (\<lambda>v. VInt (unat v)) (fpgaPropertiesGetFunction s a True) \<and>
    reads_field s p SocketID (\<lambda>v. VInt (unat v)) (fpgaPropertiesGetSocketID s a True) \<and>
    reads_field s p DeviceID (\<lambda>v. VInt (unat v)) (fpgaPropertiesGetDeviceID s a True) \<and>
    reads_field s p VendorID (\<lambda>v. VInt (unat v)) (fpgaPropertiesGetVendorID s a True) \<and>
    reads_field s p ObjectID (\<lambda>v. VInt (unat v)) (fpgaPropertiesGetObjectID s a True) \<and>
    reads_field s p NumErrors (\<lambda>v. VInt (unat v)) (fpgaPropertiesGetNumErrors s a True) \<and>
    reads_field s p GUID VGuid (fpgaPropertiesGetGUID s a True) \<and>
    reads_field s p NumSlots (\<lambda>v. VInt (unat v)) (fpgaPropertiesGetNumSlots s a True) \<and>
    reads_field s p BBSID (\<lambda>v. VInt (unat v)) (fpgaPropertiesGetBBSID s a True) \<and>
    reads_field s p BBSVersion VVersion (fpgaPropertiesGetBBSVersion s a True) \<and>
    reads_field s p AcceleratorState (\<lambda>v. VInt (unat v)) (fpgaPropertiesGetAcceleratorState s a True) \<and>
    reads_field s p NumMMIO (\<lambda>v. VInt (unat v)) (fpgaPropertiesGetNumMMIO s a True) \<and>
    reads_field s p NumInterrupts (\<lambda>v. VInt (unat v)) (fpgaPropertiesGetNumInterrupts s a True)"
  unfolding fpgaPropertiesGetParent_def fpgaPropertiesGetObjectType_def
    fpgaPropertiesGetSegment_def fpgaPropertiesGetBus_def fpgaPropertiesGetDevice_def
    fpgaPropertiesGetFunction_def fpgaPropertiesGetSocketID_def fpgaPropertiesGetDeviceID_def
    fpgaPropertiesGetVendorID_def fpgaPropertiesGetObjectID_def fpgaPropertiesGetNumErrors_def
    fpgaPropertiesGetGUID_def fpgaPropertiesGetNumSlots_def fpgaPropertiesGetBBSID_def
    fpgaPropertiesGetBBSVersion_def fpgaPropertiesGetAcceleratorState_def
    fpgaPropertiesGetNumMMIO_def fpgaPropertiesGetNumInterrupts_def
  by (intro conjI f_parent.get_reads_field f_objtype.get_reads_field f_segment.get_reads_field
      f_bus.get_reads_field f_device.get_reads_field f_function.get_reads_field
      f_socket_id.get_reads_field f_device_id.get_reads_field f_vendor_id.get_reads_field
      f_object_id.get_reads_field f_num_errors.get_reads_field f_guid.get_reads_field
      f_num_slots.get_reads_field f_bbs_id.get_reads_field f_bbs_version.get_reads_field
      f_state.get_reads_field f_num_mmio.get_reads_field f_num_interrupts.get_reads_field assms)

subsection \<open>Properties objects and the tokens they hold\<close>

lemma empty_properties_lock [simp]: "pr_lock empty_properties = 0"
  by (simp add: empty_properties_def)

lemma lock_ok:
  assumes "lib_inv own s" "mem s a = Some (OProps p)"
  shows "opae_validate_and_lock_properties s a =
    Some (a, put_obj a (OProps (p\<lparr>pr_lock := Suc (pr_lock p)\<rparr>)) s)" "a \<noteq> 0" "wf_props p"
  using lib_inv_wf [OF assms] assms(2)
  by (simp_all add: opae_validate_and_lock_properties_def wf_props_def)

lemma parent_tok:
  assumes "lib_inv own s" "mem s a = Some (OProps p)" "FIELD_VALID p FPGA_PROPERTY_PARENT"
  shows "pr_parent p \<in> tok_dom (mem s)" "a \<noteq> pr_parent p"
  using held_tok [OF assms(1,2)] assms(3) by simp_all

lemma parent_valid:
  assumes "lib_inv own s" "mem s a = Some (OProps p)" "FIELD_VALID p FPGA_PROPERTY_PARENT"
  shows "opae_validate_wrapped_token (put_obj a ob s) (pr_parent p) = Some (pr_parent p)"
    "pr_parent p \<noteq> 0"
proof -
  note t = parent_tok [OF assms]
  show "opae_validate_wrapped_token (put_obj a ob s) (pr_parent p) = Some (pr_parent p)"
    by (rule validate_token_ok [OF assms(1) t(1)]) (use t(2) in simp)
  show "pr_parent p \<noteq> 0" using tok_domD [OF t(1)] lib_inv_tok(5) [OF assms(1)] by blast
qed

text \<open>
  Giving up the parent of an object that is about to become \<open>x\<close>: the reference goes, the object
  at the address may already have changed.
\<close>

lemma drop_parent:
  assumes inv: "lib_inv own s" and m: "mem s a = Some (OProps p)"
    and v: "FIELD_VALID p FPGA_PROPERTY_PARENT"
  shows "\<exists>r s'. (\<forall>ob. opae_downref_wrapped_token (put_obj a ob s) (pr_parent p) =
      Some (r, put_obj a ob s')) \<and> mem s' a = None \<and> lib_inv own s' \<and>
    (\<forall>q. q \<noteq> a \<longrightarrow> q \<noteq> pr_parent p \<longrightarrow> mem s' q = mem s q) \<and> brk s' = brk s \<and>
    adapters s' = adapters s \<and> (\<forall>u. refs own (mem s') u \<le> refs own (mem s) u) \<and>
    (\<forall>u. holders (mem s') u = holders (mem s) u - {a}) \<and>
    (mem s' (pr_parent p) = None \<or> pr_parent p \<in> tok_dom (mem s'))"
proof -
  let ?t = "pr_parent p" and ?s = "free_obj a s"
  note t = parent_tok [OF inv m v]
  have i: "lib_inv (own(?t := Suc (own ?t))) ?s"
    by (rule lib_inv_free [OF inv m]) (use v in \<open>simp_all add: held_by_def\<close>)
  from downref_give [OF i] obtain r s' where
    d: "opae_downref_wrapped_token ?s ?t = Some (r, s')" and i': "lib_inv own s'"
    and fr: "\<forall>q. q \<noteq> ?t \<longrightarrow> mem s' q = mem ?s q" and "brk s' = brk s" "adapters s' = adapters s"
      "\<forall>u. holders (mem s') u = holders (mem ?s) u" "mem s' ?t = None \<or> ?t \<in> tok_dom (mem s')"
    by auto
  moreover have "opae_downref_wrapped_token (put_obj a ob s) ?t = Some (r, put_obj a ob s')" for ob
    using downref_frame [OF t(2), of ob ?s] d by simp
  moreover have "mem s' a = None" using fr t(2) by simp
  moreover have "holders (mem ?s) u = holders (mem s) u - {a}" for u by (auto simp: holders_def)
  moreover have "card (holders (mem ?s) u) \<le> card (holders (mem s) u)" for u
    by (rule card_mono [OF finite_holders [OF inv]]) (auto simp: holders_def split: if_splits)
  ultimately show ?thesis by (intro exI [of _ r] exI [of _ s']) (auto simp: refs_def)
qed

lemma fpgaDestroyProperties_ok:
  assumes inv: "lib_inv own s" and m: "mem s a = Some (OProps p)"
  shows "\<exists>s'. fpgaDestroyProperties s (Some a) = Some (FPGA_OK, Some NULL, s') \<and> lib_inv own s' \<and>
    mem s' a = None \<and> (\<forall>q. q \<noteq> a \<longrightarrow> held (OProps p) \<noteq> Some q \<longrightarrow> mem s' q = mem s q)"
proof (cases "FIELD_VALID p FPGA_PROPERTY_PARENT")
  case True
  note l = lock_ok [OF inv m]
  obtain r s' where d: "\<And>ob. opae_downref_wrapped_token (put_obj a ob s) (pr_parent p) =
      Some (r, put_obj a ob s')" and s': "mem s' a = None" "lib_inv own s'"
      "\<And>q. q \<noteq> a \<Longrightarrow> q \<noteq> pr_parent p \<Longrightarrow> mem s' q = mem s q"
    using drop_parent [OF inv m True] by blast
  have "fpgaDestroyProperties s (Some a) = Some (FPGA_OK, Some NULL, s')"
    using parent_valid [OF inv m True] True
    by (simp add: fpgaDestroyProperties_def l d opae_destroy_wrapped_token_def unlock_properties_def
        free_obj_idem s')
  with s' True show ?thesis by auto
next
  case False
  note l = lock_ok [OF inv m]
  have "fpgaDestroyProperties s (Some a) = Some (FPGA_OK, Some NULL, free_obj a s)"
    using False by (simp add: fpgaDestroyProperties_def l unlock_properties_def)
  moreover have "lib_inv own (free_obj a s)"
    by (rule lib_inv_free [OF inv m]) (use False in \<open>simp_all add: held_by_def\<close>)
  ultimately show ?thesis by auto
qed

text \<open>
  Destroying a valid properties object never touches freed or foreign memory: the object is
  gone, the caller's pointer is cleared, the reference to its parent is given back (the token is
  destroyed with it when that was the last one), and all reference counts stay exact.
\<close>

theorem fpgaDestroyProperties_safe:
  assumes inv: "lib_inv own s" and m: "mem s a = Some (OProps p)"
  shows "\<exists>s'. fpgaDestroyProperties s (Some a) = Some (FPGA_OK, Some NULL, s') \<and> lib_inv own s' \<and>
    mem s' a = None \<and> (\<forall>q. q \<noteq> a \<longrightarrow> held (OProps p) \<noteq> Some q \<longrightarrow> mem s' q = mem s q)"
  by (rule fpgaDestroyProperties_ok [OF assms])

lemma fpgaClearProperties_ok:
  assumes inv: "lib_inv own s" and m: "mem s a = Some (OProps p)"
  shows "\<exists>q s'. fpgaClearProperties s a = Some (FPGA_OK, s') \<and> lib_inv own s' \<and>
    mem s' a = Some (OProps q) \<and> props_view q = Map.empty"
proof -
  note l = lock_ok [OF inv m]
  have emp: "props_view (q\<lparr>valid_fields := 0\<rparr>) = Map.empty" for q
    by (simp add: props_view_def FIELD_VALID_def fun_eq_iff)
  show ?thesis
  proof (cases "FIELD_VALID p FPGA_PROPERTY_PARENT")
    case True
    obtain r s' where d: "\<And>ob. opae_downref_wrapped_token (put_obj a ob s) (pr_parent p) =
        Some (r, put_obj a ob s')" and s': "mem s' a = None" "lib_inv own s'" "brk s' = brk s"
      using drop_parent [OF inv m True] by blast
    let ?q = "p\<lparr>pr_parent := NULL, valid_fields := 0\<rparr>"
    have c: "fpgaClearProperties s a = Some (FPGA_OK, put_obj a (OProps ?q) s')"
      using parent_valid [OF inv m True] True
      by (simp add: fpgaClearProperties_def l d unlock_properties_def)
    have "lib_inv own (put_obj a (OProps ?q) s')"
      by (rule lib_inv_set_mem [OF s'(2), of a "Some (OProps ?q)" "brk s"])
        (use lib_inv_wf [OF inv m] s' in \<open>simp_all add: tok_dom_def held_by_def FIELD_VALID_def\<close>)
    with c emp show ?thesis by (intro exI [of _ ?q]) simp
  next
    case False
    let ?q = "p\<lparr>valid_fields := 0\<rparr>"
    have c: "fpgaClearProperties s a = Some (FPGA_OK, put_obj a (OProps ?q) s)"
      using False by (simp add: fpgaClearProperties_def l unlock_properties_def)
    have "lib_inv own (put_obj a (OProps ?q) s)"
      by (rule lib_inv_put [OF inv m])
        (use lib_inv_wf [OF inv m] False in \<open>simp_all add: held_by_def FIELD_VALID_def\<close>)
    with c emp show ?thesis by (intro exI [of _ ?q]) simp
  qed
qed

text \<open>
  Clearing an object gives its parent back and leaves every field unset.
\<close>

theorem fpgaClearProperties_safe:
  assumes inv: "lib_inv own s" and m: "mem s a = Some (OProps p)"
  shows "\<exists>q s'. fpgaClearProperties s a = Some (FPGA_OK, s') \<and> lib_inv own s' \<and>
    mem s' a = Some (OProps q) \<and> props_view q = Map.empty"
  by (rule fpgaClearProperties_ok [OF assms])

lemma fpgaCloneProperties_ok:
  assumes inv: "lib_inv own s" and m: "mem s a = Some (OProps p)"
    and b: "\<forall>t. refs own (mem s) t + 1 < 2 ^ 32"
  shows "\<exists>s'. lib_inv own s' \<and>
    (if take 1 (mallocs s) = [False] \<or> \<not> mutex_ok
     then fpgaCloneProperties mutex_ok s a True = Some (FPGA_EXCEPTION, None, s') \<and> mem s' = mem s
     else mem s (brk s) = None \<and>
     fpgaCloneProperties mutex_ok s a True = Some (FPGA_OK, Some (brk s), s') \<and>
     mem s' (brk s) = Some (OProps (p\<lparr>pr_lock := 0\<rparr>)) \<and> mem s' a = mem s a)"
proof -
  note l = lock_ok [OF inv m]
  let ?p = "p\<lparr>pr_lock := Suc (pr_lock p)\<rparr>" and ?c = "p\<lparr>pr_lock := 0\<rparr>"
  let ?lk = "put_obj a (OProps ?p) s"
  have new: "mem s (brk s) = None" "brk s \<noteq> 0" "a < brk s"
    using inv lib_inv_wf [OF inv m] by (cases "mem s (brk s)"; auto simp: lib_inv_def)+
  show ?thesis
  proof (cases rule: alloc_obj_cases [of ?lk "OProps empty_properties"])
    case (fail ms)
    have "fpgaCloneProperties mutex_ok s a True = Some (FPGA_EXCEPTION, None, s\<lparr>mallocs := ms\<rparr>)"
      using m by (simp add: fpgaCloneProperties_def l opae_properties_create_def fail
          unlock_properties_def put_obj_upd put_obj_idem)
    then show ?thesis using lib_inv_cong [OF inv, of "s\<lparr>mallocs := ms\<rparr>"] fail(1) by auto
  next
    case ok
    let ?base = "s\<lparr>brk := Suc (brk s), mallocs := tl (mallocs s)\<rparr>" and ?n = "brk s"
    have i0: "lib_inv own ?base" by (rule lib_inv_mono [OF inv]) simp_all
    have m1: "take 1 (mallocs s) \<noteq> [False]" using ok(1) by simp
    have al: "alloc_obj (OProps empty_properties) ?lk =
        (?n, put_obj ?n (OProps empty_properties) (put_obj a (OProps ?p) ?base))"
      using ok(2) by (simp add: put_obj_upd)
    show ?thesis
    proof (cases mutex_ok)
      case False
      have "free_obj ?n ?base = ?base" using new by (simp add: free_obj_idem)
      then have "fpgaCloneProperties mutex_ok s a True = Some (FPGA_EXCEPTION, None, ?base)"
        using m new False by (simp add: fpgaCloneProperties_def l opae_properties_create_def al
            unlock_properties_def free_put_twist put_obj_idem)
      then show ?thesis using i0 False by (intro exI [of _ ?base]) simp
    next
      case True
      let ?clone = "OProps ?c"
      have wf: "wf_obj (adapters s) ?clone" using lib_inv_wf [OF inv m] by simp
      have add: "lib_inv own (put_obj ?n ?clone st)"
        if i: "lib_inv own' st" "mem st ?n = None" "brk st = Suc ?n" "adapters st = adapters s"
          and o: "\<And>t. own' t = own t + held_by (Some ?clone) t" for own' st
        by (rule lib_inv_set_mem [OF i(1), of ?n "Some ?clone" "Suc ?n"])
          (use new wf i o in \<open>simp_all add: tok_dom_def\<close>)
      show ?thesis
      proof (cases "FIELD_VALID p FPGA_PROPERTY_PARENT")
        case v: True
        let ?t = "pr_parent p"
        note t = parent_tok [OF inv m v]
        have tn: "?t \<noteq> ?n" using tok_domD [OF t(1)] new(1) by auto
        obtain w st where w: "opae_upref_wrapped_token ?base ?t = Some st"
            "st = put_obj ?t (OTok w) ?base" "lib_inv (own(?t := Suc (own ?t))) st"
          using upref_take [OF i0, of ?t] t(1) b by auto
        have pv: "opae_validate_wrapped_token (put_obj ?n x (put_obj a y ?base)) ?t = Some ?t"
          "opae_validate_wrapped_token (put_obj a y (put_obj ?n x ?base)) ?t = Some ?t" for x y
          by (rule validate_token_ok [OF inv t(1)], use t tn in simp)+
        have e: "put_obj a (OProps p) (put_obj ?n ob st) = put_obj ?n ob st" for ob
          by (rule put_obj_idem) (use t m w new in simp)
        have "fpgaCloneProperties mutex_ok s a True =
            Some (FPGA_OK, Some ?n, put_obj ?n ?clone st)"
          using m new True v t tn parent_valid(2) [OF inv m v]
          by (simp add: fpgaCloneProperties_def l opae_properties_create_def al
            Let_def unlock_properties_def pv upref_frame w(1) put_twist [of ?n a] e)
        moreover have "lib_inv own (put_obj ?n ?clone st)"
          by (rule add [OF w(3)]) (use w new tn v in \<open>simp_all add: held_by_def\<close>)
        ultimately show ?thesis using True new w t m1 by (intro exI [of _ "put_obj ?n ?clone st"]) simp
      next
        case v: False
        have "fpgaCloneProperties mutex_ok s a True =
            Some (FPGA_OK, Some ?n, put_obj ?n ?clone ?base)"
          using m new True v by (simp add: fpgaCloneProperties_def l opae_properties_create_def al
            unlock_properties_def put_twist put_obj_idem)
        moreover have "lib_inv own (put_obj ?n ?clone ?base)"
          by (rule add [OF i0]) (use new v in \<open>simp_all add: held_by_def\<close>)
        ultimately show ?thesis using True new m1 by (intro exI [of _ "put_obj ?n ?clone ?base"]) simp
      qed
    qed
  qed
qed

text \<open>
  A clone is a new object with the fields of the original and a lock of its own; it holds
  its own reference to the parent. When memory or the mutex cannot be had, the call returns
  FPGA_EXCEPTION and no object, token or count changes.
\<close>

theorem fpgaCloneProperties_safe:
  assumes inv: "lib_inv own s" and m: "mem s a = Some (OProps p)"
    and b: "\<forall>t. refs own (mem s) t + 1 < 2 ^ 32"
  shows "\<exists>s'. lib_inv own s' \<and>
    (if take 1 (mallocs s) = [False] \<or> \<not> mutex_ok
     then fpgaCloneProperties mutex_ok s a True = Some (FPGA_EXCEPTION, None, s') \<and> mem s' = mem s
     else mem s (brk s) = None \<and>
     fpgaCloneProperties mutex_ok s a True = Some (FPGA_OK, Some (brk s), s') \<and>
     mem s' (brk s) = Some (OProps (p\<lparr>pr_lock := 0\<rparr>)) \<and> mem s' a = mem s a)"
  by (rule fpgaCloneProperties_ok [OF assms])

lemma fpgaPropertiesSetParent_ok:
  assumes inv: "lib_inv own s" and m: "mem s a = Some (OProps p)"
    and t: "0 < own t" and b: "\<forall>u. refs own (mem s) u + 1 < 2 ^ 32"
  shows "\<exists>s' q. fpgaPropertiesSetParent s a t = Some (FPGA_OK, s') \<and> lib_inv own s' \<and>
    mem s' a = Some (OProps q) \<and> props_view q Parent = Some (VInt t)"
proof -
  note l = lock_ok [OF inv m]
  let ?q = "SET_FIELD_VALID FPGA_PROPERTY_PARENT (p\<lparr>pr_parent := t\<rparr>)"
  have hq: "held_by (Some (OProps ?q)) u = of_bool (u = t)" for u
    by (auto simp: held_by_def FPGA_PROPERTY_PARENT_def)
  have view: "props_view ?q Parent = Some (VInt t)"
    by (simp add: props_view_def has_type_def FPGA_PROPERTY_PARENT_def)
  have rest: "\<exists>st'. lib_inv own (put_obj a (OProps ?q) st') \<and> t \<noteq> 0 \<and>
      (\<forall>ob. opae_validate_wrapped_token (put_obj a ob st) t = Some t \<and>
            opae_upref_wrapped_token (put_obj a ob st) t = Some (put_obj a ob st'))"
    if i: "lib_inv own st" "mem st a = None" "brk st = brk s" "adapters st = adapters s"
      and r: "refs own (mem st) t \<le> refs own (mem s) t" for st
  proof -
    have td: "t \<in> tok_dom (mem st)" by (rule own_tok [OF i(1) t])
    have at: "a \<noteq> t" using tok_domD [OF td] i(2) by auto
    have "refs own (mem st) t + 1 < 2 ^ 32" using r b by (meson add_mono le_refl order.strict_trans1)
    from upref_take [OF i(1) td this] obtain w st' where u: "opae_upref_wrapped_token st t = Some st'"
      "st' = put_obj t (OTok w) st" "lib_inv (own(t := Suc (own t))) st'" by auto
    have v: "opae_validate_wrapped_token (put_obj a ob st) t = Some t" for ob
      by (rule validate_token_ok [OF i(1) td]) (use at in simp)
    have "t \<noteq> 0" using tok_domD [OF td] lib_inv_tok(5) [OF i(1)] by blast
    moreover have "lib_inv own (put_obj a (OProps ?q) st')"
      by (rule lib_inv_set_mem [OF u(3), of a "Some (OProps ?q)" "brk s"])
        (use u(2) i at lib_inv_wf [OF inv m] hq in \<open>simp_all add: tok_dom_def\<close>)
    ultimately show ?thesis
      by (intro exI [of _ st']) (simp add: v upref_frame [OF at] u(1))
  qed
  show ?thesis
  proof (cases "FIELD_VALID p FPGA_PROPERTY_PARENT")
    case True
    obtain r st where d: "\<And>ob. opae_downref_wrapped_token (put_obj a ob s) (pr_parent p) =
        Some (r, put_obj a ob st)" and st: "lib_inv own st" "mem st a = None" "brk st = brk s"
        "adapters st = adapters s" "refs own (mem st) t \<le> refs own (mem s) t"
      using drop_parent [OF inv m True] by blast
    from rest [OF st] obtain st' where st': "lib_inv own (put_obj a (OProps ?q) st')" "t \<noteq> 0"
      and e: "\<And>ob. opae_validate_wrapped_token (put_obj a ob st) t = Some t"
        "\<And>ob. opae_upref_wrapped_token (put_obj a ob st) t = Some (put_obj a ob st')" by blast
    have "fpgaPropertiesSetParent s a t = Some (FPGA_OK, put_obj a (OProps ?q) st')"
      using parent_valid [OF inv m True] True st'(2)
      by (simp add: fpgaPropertiesSetParent_def l opae_destroy_wrapped_token_def d e
          unlock_properties_def SET_FIELD_VALID_def)
    with st'(1) view show ?thesis by (intro exI [of _ "put_obj a (OProps ?q) st'"] exI [of _ ?q]) simp
  next
    case False
    let ?f = "free_obj a s"
    have i: "lib_inv own ?f" by (rule lib_inv_free [OF inv m]) (use False in \<open>simp_all add: held_by_def\<close>)
    have "card (holders (mem ?f) t) \<le> card (holders (mem s) t)"
      by (rule card_mono [OF finite_holders [OF inv]]) (auto simp: holders_def split: if_splits)
    then have "refs own (mem ?f) t \<le> refs own (mem s) t" by (simp add: refs_def)
    from rest [OF i _ _ _ this] obtain st' where
      st': "lib_inv own (put_obj a (OProps ?q) st')" "t \<noteq> 0"
      and e: "\<And>ob. opae_validate_wrapped_token (put_obj a ob s) t = Some t"
        "\<And>ob. opae_upref_wrapped_token (put_obj a ob s) t = Some (put_obj a ob st')" by auto
    have "fpgaPropertiesSetParent s a t = Some (FPGA_OK, put_obj a (OProps ?q) st')"
      using False st'(2)
      by (simp add: fpgaPropertiesSetParent_def l e unlock_properties_def SET_FIELD_VALID_def)
    with st'(1) view show ?thesis by (intro exI [of _ "put_obj a (OProps ?q) st'"] exI [of _ ?q]) simp
  qed
qed

text \<open>
  Setting a parent the client holds gives back the reference to the old parent and takes
  one to the new; the client keeps its own. Nothing is undefined, also when the two are the same
  token.
\<close>

theorem fpgaPropertiesSetParent_safe:
  assumes inv: "lib_inv own s" and m: "mem s a = Some (OProps p)"
    and t: "0 < own t" and b: "\<forall>u. refs own (mem s) u + 1 < 2 ^ 32"
  shows "\<exists>s' q. fpgaPropertiesSetParent s a t = Some (FPGA_OK, s') \<and> lib_inv own s' \<and>
    mem s' a = Some (OProps q) \<and> props_view q Parent = Some (VInt t)"
  by (rule fpgaPropertiesSetParent_ok [OF assms])

text \<open>
  Changing the object type reinterprets the union: on a device whose number of slots was
  set, \<^verbatim>\<open>fpgaPropertiesSetObjectType\<close> to FPGA_ACCELERATOR leaves the validity bits, which the two
  types share, and \<^verbatim>\<open>fpgaPropertiesGetAcceleratorState\<close> then succeeds and returns the number of
  slots; in general it returns what the view held for the number of slots.
\<close>

theorem set_object_type_reinterprets:
  assumes m: "mem s a = Some (OProps p)" "a \<noteq> 0" "wf_props p" and t: "of_type FPGA_DEVICE p"
  shows "\<exists>s' st. fpgaPropertiesSetObjectType s a FPGA_ACCELERATOR = Some (FPGA_OK, s') \<and>
    fpgaPropertiesGetAcceleratorState s' a True =
      Some (if st = None then FPGA_NOT_FOUND else FPGA_OK, st, s') \<and>
    map_option (\<lambda>v. VInt (unat v)) st = props_view p NumSlots"
proof -
  let ?q = "SET_FIELD_VALID FPGA_PROPERTY_OBJTYPE (p\<lparr>pr_objtype := FPGA_ACCELERATOR\<rparr>)"
  have set: "fpgaPropertiesSetObjectType s a FPGA_ACCELERATOR = Some (FPGA_OK, put_obj a (OProps ?q) s)"
    using m by (simp add: fpgaPropertiesSetObjectType_def props_set_def unlock_properties_def
        opae_validate_and_lock_properties_def wf_props_def SET_FIELD_VALID_def)
  let ?st = "if FIELD_VALID p 32 then Some (u_get 0 4 p :: u32) else None"
  have "props_get (if_type_valid FPGA_ACCELERATOR FPGA_PROPERTY_ACCELERATOR_STATE (u_get 0 4))
      (put_obj a (OProps ?q) s) a True =
    Some (if ?st = None then FPGA_NOT_FOUND else FPGA_OK, ?st, put_obj a (OProps ?q) s)"
    by (subst f_state.get_reads [of _ _ ?q])
      (use m in \<open>simp_all add: wf_props_def if_type_valid_def of_type_def if_valid_def property_bits\<close>)
  moreover have "map_option (\<lambda>v. VInt (unat v)) ?st = props_view p NumSlots"
    using t by (simp add: props_view_def has_type_Some)
  ultimately show ?thesis
    using set by (intro exI [of _ "put_obj a (OProps ?q) s"] exI [of _ ?st])
      (simp add: fpgaPropertiesGetAcceleratorState_def)
qed

text \<open>
  A token read with \<^verbatim>\<open>fpgaPropertiesGetParent\<close> is borrowed: when the object holds the only
  reference, setting it as the parent of the same object again frees it first and then reads it,
  which is undefined.
\<close>

theorem set_parent_borrowed_undefined:
  assumes inv: "lib_inv own s" and m: "mem s a = Some (OProps p)"
    and v: "FIELD_VALID p FPGA_PROPERTY_PARENT" and one: "refs own (mem s) (pr_parent p) = 1"
  shows "fpgaPropertiesGetParent s a True = Some (FPGA_OK, Some (pr_parent p), s) \<and>
    fpgaPropertiesSetParent s a (pr_parent p) = None"
proof
  note l = lock_ok [OF inv m]
  show "fpgaPropertiesGetParent s a True = Some (FPGA_OK, Some (pr_parent p), s)"
    unfolding fpgaPropertiesGetParent_def
    by (subst f_parent.get_reads [OF m l(2,3)]) (use v in \<open>simp add: if_valid_def\<close>)
  let ?t = "pr_parent p"
  note t = parent_tok [OF inv m v]
  obtain r st where d: "\<And>ob. opae_downref_wrapped_token (put_obj a ob s) ?t =
      Some (r, put_obj a ob st)" and st: "lib_inv own st" "holders (mem st) ?t = holders (mem s) ?t - {a}"
      "mem st ?t = None \<or> ?t \<in> tok_dom (mem st)" using drop_parent [OF inv m v] by (elim exE conjE) (rule that; simp)
  have "a \<in> holders (mem s) ?t" using m v by (simp add: holders_def held_by_def)
  moreover from this have "card (holders (mem s) ?t) \<noteq> 0" using finite_holders [OF inv, of ?t] by auto
  ultimately have "refs own (mem st) ?t = 0"
    using one by (simp add: refs_def st(2))
  then have "?t \<notin> tok_dom (mem st)" using tok_domD [of ?t "mem st"] lib_inv_tok(2) [OF st(1), of ?t] by auto
  then have "opae_validate_wrapped_token (put_obj a ob st) ?t = None" for ob
    using st(3) t(2) parent_valid(2) [OF inv m v]
    by (simp add: opae_validate_wrapped_token_def validate_magic_def)
  then show "fpgaPropertiesSetParent s a ?t = None"
    using parent_valid [OF inv m v] v
    by (simp add: fpgaPropertiesSetParent_def l opae_destroy_wrapped_token_def d)
qed

subsection \<open>The theorems on a concrete state\<close>

text \<open>
  One token at address 1, of which the client owns \<open>k\<close> references, and one device's properties
  at address 2 that hold another; 4 slots.
\<close>

definition demo_adapter :: "unit adapter" where
  "demo_adapter = \<lparr>ad_path = ''libxfpga.so'', ad_dl_handle = 1, ad_fn = (\<lambda>_. None),
     ad_initialize = None, ad_finalize = None\<rparr>"

definition demo_props :: fpga_properties where
  "demo_props = empty_properties\<lparr>valid_fields := push_bit 32 1 OR (push_bit 1 1 OR 1), pr_parent := 1, pr_objtype := 0,
     pr_u := [4, 0, 0, 0] @ replicate 20 0\<rparr>"

definition demo_lib :: "nat \<Rightarrow> unit lib" where
  "demo_lib k = \<lparr>mem = [1 \<mapsto> OTok \<lparr>wt_magic = OPAE_WRAPPED_TOKEN_MAGIC, wt_opae_token = 99,
     wt_ref_count = of_nat k + 1, wt_adapter = 7\<rparr>, 2 \<mapsto> OProps demo_props], brk = 3, mallocs = [],
     tok_list = [1], adapters = [7 \<mapsto> demo_adapter], adapter_list = [7],
     plug = ()\<rparr>"

definition demo_own :: "nat \<Rightarrow> ptr \<Rightarrow> nat" where
  "demo_own k = (\<lambda>t. if t = 1 then k else 0)"

lemma demo_valid [simp]:
  "FIELD_VALID demo_props b \<longleftrightarrow> b = 0 \<or> b = 1 \<or> b = 32"
  by (auto simp: FIELD_VALID_bit demo_props_def bit_or_iff bit_push_bit_iff bit_1_iff
      simp del: push_bit_numeral_minus_1 push_bit_of_1 push_bit_numeral push_bit_Suc)

lemma demo_props_wf [simp]: "wf_props demo_props" "of_type 0 demo_props"
  "pr_parent demo_props = 1" "held (OProps demo_props) = Some 1"
  by (simp_all add: of_type_def FPGA_PROPERTY_OBJTYPE_def FPGA_PROPERTY_PARENT_def)
    (simp_all add: wf_props_def demo_props_def empty_properties_def)

lemma demo_type [simp]: "\<not> of_type 1 demo_props"
  by (simp add: of_type_def demo_props_def)

lemma demo_mem [simp]: "mem (demo_lib k) 2 = Some (OProps demo_props)"
  by (simp add: demo_lib_def)

lemma demo_holders: "holders (mem (demo_lib k)) t = (if t = 1 then {2} else {})"
  by (auto simp: holders_def demo_lib_def held_by_def FPGA_PROPERTY_PARENT_def split: if_splits)

lemma demo_refs [simp]: "refs (demo_own k) (mem (demo_lib k)) t = (if t = 1 then k + 1 else 0)"
  by (simp add: refs_def demo_holders demo_own_def)

lemma demo_sel [simp]: "brk (demo_lib k) = 3" "mallocs (demo_lib k) = []" "demo_own k 1 = k"
  "demo_own k (Suc 0) = k"
  by (simp_all add: demo_lib_def demo_own_def)

lemma demo_inv: "k < 100 \<Longrightarrow> lib_inv (demo_own k) (demo_lib k)"
proof -
  assume "k < 100"
  then have "unat (of_nat k + 1 :: u32) = k + 1"
    by (subst unat_add_no_wrap) (simp_all add: unat_of_nat)
  moreover have "tok_dom (mem (demo_lib k)) = {1}" by (auto simp: tok_dom_def demo_lib_def)
  moreover have "wf_obj [7 \<mapsto> demo_adapter] (OProps demo_props)" using demo_props_wf(1)
    by (simp add: wf_props_def)
  ultimately show ?thesis
    unfolding lib_inv_def demo_refs by (auto simp: demo_lib_def split: if_splits)
qed

lemma demo_bound: "k < 100 \<Longrightarrow> \<forall>t. refs (demo_own k) (mem (demo_lib k)) t + 1 < 2 ^ 32"
  by simp


theorem props_typed_setters_refine_witness:
  "sets_field (demo_lib 0) 2 demo_props BBSID (VInt 77) (fpgaPropertiesSetBBSID (demo_lib 0) 2 77) \<and>
   fpgaPropertiesSetNumMMIO (demo_lib 0) 2 1 = Some (FPGA_INVALID_PARAM, demo_lib 0)"
proof -
  have two: "(2 :: ptr) \<noteq> 0" by simp
  note all = props_typed_setters_refine [OF demo_mem two demo_props_wf(1)]
  have "sets_field (demo_lib 0) 2 demo_props BBSID (VInt (unat (77 :: u64)))
      (fpgaPropertiesSetBBSID (demo_lib 0) 2 77)"
    by (rule all [THEN conjunct2, THEN conjunct1])
  moreover have "sets_field (demo_lib 0) 2 demo_props NumMMIO (VInt (unat (1 :: u32)))
      (fpgaPropertiesSetNumMMIO (demo_lib 0) 2 1)"
    by (rule all [THEN conjunct2, THEN conjunct2, THEN conjunct2, THEN conjunct2, THEN conjunct1])
  ultimately show ?thesis by (simp add: sets_field_def has_type_Some)
qed

theorem props_getters_refine_witness:
  "reads_field (demo_lib 0) demo_props NumSlots (\<lambda>v. VInt (unat v))
     (fpgaPropertiesGetNumSlots (demo_lib 0) 2 True) \<and>
   reads_field (demo_lib 0) demo_props Parent VInt (fpgaPropertiesGetParent (demo_lib 0) 2 True)"
  using props_getters_refine [of "demo_lib 0" 2 demo_props] by simp

theorem fpgaDestroyProperties_safe_witness:
  "\<exists>s'. fpgaDestroyProperties (demo_lib 0) (Some 2) = Some (FPGA_OK, Some NULL, s') \<and>
     lib_inv (demo_own 0) s' \<and> mem s' 2 = None"
  using fpgaDestroyProperties_safe [OF demo_inv demo_mem, of 0] by auto

theorem fpgaClearProperties_safe_witness:
  "\<exists>q s'. fpgaClearProperties (demo_lib 1) 2 = Some (FPGA_OK, s') \<and>
     mem s' 2 = Some (OProps q) \<and> props_view q = Map.empty"
  using fpgaClearProperties_safe [OF demo_inv demo_mem, of 1] by auto

theorem fpgaCloneProperties_safe_witness:
  "\<exists>s'. fpgaCloneProperties True (demo_lib 0) 2 True = Some (FPGA_OK, Some 3, s') \<and>
     lib_inv (demo_own 0) s' \<and> mem s' 3 = Some (OProps (demo_props\<lparr>pr_lock := 0\<rparr>))"
  using fpgaCloneProperties_safe [OF demo_inv demo_mem demo_bound, of 0 True]
  by auto

theorem fpgaPropertiesSetParent_safe_witness:
  "\<exists>s'. fpgaPropertiesSetParent (demo_lib 1) 2 1 = Some (FPGA_OK, s') \<and>
     lib_inv (demo_own 1) s'"
  using fpgaPropertiesSetParent_safe [OF demo_inv demo_mem _ demo_bound, of 1 1] by auto

theorem set_object_type_reinterprets_witness:
  "\<exists>s' st. fpgaPropertiesSetObjectType (demo_lib 0) 2 FPGA_ACCELERATOR = Some (FPGA_OK, s') \<and>
     fpgaPropertiesGetAcceleratorState s' 2 True = Some (FPGA_OK, Some st, s') \<and> st = 4"
proof -
  have "props_view demo_props NumSlots = Some (VInt 4)"
    by (simp add: props_view_def has_type_Some demo_props_wf(2))
      (simp add: u_get_def demo_props_def)
  with set_object_type_reinterprets [of "demo_lib 0" 2 demo_props] show ?thesis
    by (auto simp: word_unat_eq_iff)
qed

theorem set_parent_borrowed_undefined_witness:
  "fpgaPropertiesGetParent (demo_lib 0) 2 True = Some (FPGA_OK, Some 1, demo_lib 0) \<and>
   fpgaPropertiesSetParent (demo_lib 0) 2 1 = None"
  using set_parent_borrowed_undefined [OF demo_inv demo_mem, of 0]
  by (simp add: FPGA_PROPERTY_PARENT_def)

end
