(* ===== verification/Vfio_Plugin.thy ===== *)
theory Vfio_Plugin
  imports Vfio Props
begin

section \<open>The VFIO plugin (plugins/vfio)\<close>

text \<open>
  The plugin keeps a list of PCI devices, each with a list of tokens, one per region that holds
  an FME or an accelerator; handles, each with a pair of open VFIO devices; and one global list
  of DMA buffers. Objects with an identity live in stores from addresses to objects: tokens,
  devices, handles, event handles and the \<^verbatim>\<open>struct opae_vfio\<close> objects of \<^verbatim>\<open>libopaevfio\<close>.
  Addresses come from one counter and are never used again; address 0 is NULL.

  The host is the record \<open>host\<close>: the kernel under \<^verbatim>\<open>libopaevfio\<close> (\<open>os\<close>), the 64-bit registers of
  the mapped regions, which hold what the writes made so far have left there,
  and what the calls of the plugin itself answer, again as functions of the
  calls made before. As in \<^verbatim>\<open>libopae-c\<close>, None is undefined behaviour or a loop that never ends.
\<close>

datatype pcall =
    P_malloc
  | P_lock
  | P_unlock
  | P_mutex_init
  | P_mutex_destroy
  | P_attr_init
  | P_attr_settype
  | P_attr_destroy
  | P_eventfd
  | P_close int
  | P_glob
  | P_read_attr string string
  | P_realpath string string
  | P_uuid

type_synonym pcalls = "pcall list"

datatype mmio_write =
    Write64 u64 u64
  | Write32 u64 u32
  | Write512 u64 "u8 list"

record host =
  os :: env
  reg64 :: "mmio_write list \<Rightarrow> u64 \<Rightarrow> u64"
  port_ack :: "mmio_write list \<Rightarrow> nat \<Rightarrow> bool"
  pans :: "pcalls \<Rightarrow> pcall \<Rightarrow> int"
  glob_reply :: "pcalls \<Rightarrow> string list"
  attr_reply :: "pcalls \<Rightarrow> string \<Rightarrow> string \<Rightarrow> string"
  path_reply :: "pcalls \<Rightarrow> string \<Rightarrow> string \<Rightarrow> string"
  uuid_reply :: "pcalls \<Rightarrow> string"
  has_avx512 :: bool
  EBADF :: int

subsection \<open>The structures\<close>

definition VFIO_TOKEN_MAGIC :: u32 where "VFIO_TOKEN_MAGIC = 0xEF1010FE"
definition VFIO_HANDLE_MAGIC :: u32 where "VFIO_HANDLE_MAGIC = NOT VFIO_TOKEN_MAGIC"
definition VFIO_EVENT_HANDLE_MAGIC :: u32 where "VFIO_EVENT_HANDLE_MAGIC = 0x5a6446a5"
definition BAR_MAX :: nat where "BAR_MAX = 6"

datatype reset_fn = No_Reset | Vfio_Reset | Legacy_Port_Reset

record vfio_token =
  vt_magic :: u32
  vt_guid :: "u8 list"
  vt_compat_id :: "u8 list"
  vt_device :: ptr
  vt_region :: u32
  vt_mmio_size :: u32
  vt_user_mmio_count :: u32
  vt_user_mmio :: "u32 list"
  vt_bitstream_id :: u64
  vt_bitstream_mdata :: u64
  vt_num_ports :: u8
  vt_type :: u32
  vt_parent :: ptr
  vt_reset :: reset_fn

text \<open>\<open>pd_dev\<close> and \<open>pd_func\<close> are the bit fields of 5 and 3 bits.\<close>

record pci_device =
  pd_addr :: string
  pd_segment :: u16
  pd_bus :: u8
  pd_dev :: u8
  pd_func :: u8
  pd_vendor :: u32
  pd_device :: u32
  pd_numa_node :: u32
  pd_tokens :: "ptr list"

definition bdf :: "pci_device \<Rightarrow> u32" where
  "bdf p = ucast (pd_segment p) OR push_bit 16 (ucast (pd_bus p)) OR
           push_bit 24 (take_bit 5 (ucast (pd_dev p))) OR push_bit 29 (take_bit 3 (ucast (pd_func p)))"

record vfio_pair =
  vp_device :: ptr
  vp_physfn :: ptr

record vfio_handle =
  vh_magic :: u32
  vh_token :: ptr
  vh_pair :: vfio_pair
  vh_mmio_base :: u64
  vh_mmio_size :: u64
  vh_flags :: u32

record vfio_event_handle =
  ve_magic :: u32
  ve_fd :: int
  ve_flags :: u32

record vfio_buf =
  vb_virtual :: u64
  vb_iova :: u64
  vb_wsid :: u64
  vb_size :: u64
  vb_device :: ptr

record plugin =
  pl_tokens :: "ptr \<rightharpoonup> vfio_token"
  pl_devices :: "ptr \<rightharpoonup> pci_device"
  pl_device_list :: "ptr list"
  pl_vfios :: "ptr \<rightharpoonup> opae_vfio"
  pl_handles :: "ptr \<rightharpoonup> vfio_handle"
  pl_events :: "ptr \<rightharpoonup> vfio_event_handle"
  pl_buffers :: "vfio_buf list"
  pl_dangling :: bool
  pl_brk :: ptr
  pl_writes :: "mmio_write list"
  pl_trace :: trace
  pl_calls :: pcalls

definition psys :: "host \<Rightarrow> pcall \<Rightarrow> plugin \<Rightarrow> int \<times> plugin" where
  "psys H c s = (pans H (pl_calls s) c, s\<lparr>pl_calls := c # pl_calls s\<rparr>)"

text \<open>\<^verbatim>\<open>malloc\<close>: a fresh address, or NULL.\<close>

definition pmalloc :: "host \<Rightarrow> plugin \<Rightarrow> ptr \<times> plugin" where
  "pmalloc H s =
     (case psys H P_malloc s of (r, s) \<Rightarrow>
        (if r \<noteq> 0 then (pl_brk s, s\<lparr>pl_brk := Suc (pl_brk s)\<rparr>) else (NULL, s)))"

subsection \<open>Parsing of sysfs attributes and addresses\<close>

text \<open>
  \<^verbatim>\<open>strtoul\<close>: blanks, a sign, the prefix of base 16 or 0, digits. The result is the value and
  whether anything was parsed; a value that does not fit is the largest one.
\<close>

definition digit_val :: "char \<Rightarrow> nat option" where
  "digit_val c =
     (let n = of_char c :: nat in
      if 48 \<le> n \<and> n \<le> 57 then Some (n - 48)
      else if 97 \<le> n \<and> n \<le> 122 then Some (n - 87)
      else if 65 \<le> n \<and> n \<le> 90 then Some (n - 55) else None)"

fun digits :: "nat \<Rightarrow> string \<Rightarrow> nat list" where
  "digits b [] = []"
| "digits b (c # cs) =
     (case digit_val c of Some d \<Rightarrow> if d < b then d # digits b cs else [] | None \<Rightarrow> [])"

definition hex_prefix :: "string \<Rightarrow> bool" where
  "hex_prefix s \<longleftrightarrow> (take 2 s = ''0x'' \<or> take 2 s = ''0X'') \<and> digits 16 (drop 2 s) \<noteq> []"

definition strtoul :: "string \<Rightarrow> nat \<Rightarrow> u64 \<times> bool" where
  "strtoul s b =
     (let s = dropWhile (\<lambda>c. c \<in> set [CHR '' '', CHR 0x09, CHR 0x0A, CHR 0x0B, CHR 0x0C, CHR 0x0D]) s;
          neg = (s \<noteq> [] \<and> hd s = CHR ''-'');
          s = (if s \<noteq> [] \<and> (hd s = CHR ''-'' \<or> hd s = CHR ''+'') then tl s else s);
          (b, s) = (if (b = 0 \<or> b = 16) \<and> hex_prefix s then (16, drop 2 s)
                    else if b = 0 then (if s \<noteq> [] \<and> hd s = CHR ''0'' then 8 else 10, s)
                    else (b, s));
          ds = digits b s;
          n = foldl (\<lambda>n d. n * int b + int d) 0 ds
      in if ds = [] then (0, False)
         else if 2 ^ 64 \<le> n then (- 1, True)
         else (if neg then - of_int n else of_int n, True))"

text \<open>
  \<^verbatim>\<open>read_pci_attr\<close> reads the file into a buffer it does not terminate; the text is that of the
  buffer up to the end of the file. An unreadable or empty file is an error.
\<close>

definition read_pci_attr ::
  "host \<Rightarrow> string \<Rightarrow> string \<Rightarrow> nat \<Rightarrow> plugin \<Rightarrow> fpga_result \<times> string \<times> plugin" where
  "read_pci_attr H addr attr sz s =
     (let txt = take sz (attr_reply H (pl_calls s) addr attr) in
      case psys H (P_read_attr addr attr) s of (r, s) \<Rightarrow>
      if r \<noteq> 0 then (FPGA_EXCEPTION, [], s)
      else if txt = [] then (FPGA_EXCEPTION, [], s)
      else (FPGA_OK, txt, s))"

definition read_pci_attr_u32 ::
  "host \<Rightarrow> string \<Rightarrow> string \<Rightarrow> plugin \<Rightarrow> fpga_result \<times> u32 \<times> plugin" where
  "read_pci_attr_u32 H addr attr s =
     (case read_pci_attr H addr attr 64 s of (res, txt, s) \<Rightarrow>
      if res \<noteq> FPGA_OK then (res, 0, s)
      else case strtoul txt 0 of (v, parsed) \<Rightarrow>
        if \<not> parsed then (FPGA_EXCEPTION, 0, s) else (FPGA_OK, ucast v, s))"

text \<open>The expression \<^verbatim>\<open>PCIE_PATH_PATTERN\<close>, at the start of a text and anywhere in it.\<close>

fun pcie_path_at :: "string \<Rightarrow> bool" where
  "pcie_path_at s =
     (12 \<le> length s \<and> list_all hex_digit (take 4 s) \<and> s ! 4 = CHR '':'' \<and>
      list_all hex_digit (take 2 (drop 5 s)) \<and> s ! 7 = CHR '':'' \<and>
      list_all hex_digit (take 2 (drop 8 s)) \<and> s ! 10 = CHR ''.'' \<and>
      s ! 11 \<in> set ''0123456789'')"

definition pcie_path_match :: "string \<Rightarrow> string option" where
  "pcie_path_match s = map_option (\<lambda>i. drop i s) (find (\<lambda>i. pcie_path_at (drop i s)) [0..<Suc (length s)])"

definition parse_pcie_info :: "pci_device \<Rightarrow> string \<Rightarrow> fpga_result \<times> pci_device" where
  "parse_pcie_info p addr =
     (case pcie_path_match addr of
        None \<Rightarrow> (FPGA_EXCEPTION, p)
      | Some s \<Rightarrow>
          (FPGA_OK, p\<lparr>pd_segment := ucast (fst (strtoul s 16)),
                      pd_bus := ucast (fst (strtoul (drop 5 s) 16)),
                      pd_dev := take_bit 5 (ucast (fst (strtoul (drop 8 s) 16))),
                      pd_func := take_bit 3 (ucast (fst (strtoul (drop 11 s) 10)))\<rparr>))"

text \<open>\<^verbatim>\<open>read_pci_link\<close>: 0 and the last component of the resolved path, 1 for no such link, 2.\<close>

definition read_pci_link ::
  "host \<Rightarrow> string \<Rightarrow> string \<Rightarrow> nat \<Rightarrow> plugin \<Rightarrow> int \<times> string \<times> plugin" where
  "read_pci_link H addr link sz s =
     (let path = path_reply H (pl_calls s) addr link in
      case psys H (P_realpath addr link) s of (r, s) \<Rightarrow>
      if r = 1 then (1, [], s)
      else if r \<noteq> 0 then (2, [], s)
      else case after_slash path of None \<Rightarrow> (2, [], s) | Some p \<Rightarrow> (0, take sz p, s))"

subsection \<open>The list of devices\<close>

definition find_pci_device :: "plugin \<Rightarrow> string \<Rightarrow> ptr option" where
  "find_pci_device s addr =
     find (\<lambda>p. case pl_devices s p of Some d \<Rightarrow> take 16 (pd_addr d) = take 16 addr | None \<Rightarrow> False)
       (pl_device_list s)"

text \<open>A device whose attributes cannot be read is freed again; the result is then NULL.\<close>

definition get_pci_device :: "host \<Rightarrow> string \<Rightarrow> plugin \<Rightarrow> ptr \<times> plugin" where
  "get_pci_device H addr s =
     (case find_pci_device s addr of
        Some p \<Rightarrow> (p, s)
      | None \<Rightarrow>
          (case pmalloc H s of (p, s) \<Rightarrow>
           if p = NULL then (NULL, s)
           else case read_pci_attr_u32 H addr ''vendor'' s of (r, vendor, s) \<Rightarrow>
           if r \<noteq> FPGA_OK then (NULL, s)
           else case read_pci_attr_u32 H addr ''device'' s of (r, dev, s) \<Rightarrow>
           if r \<noteq> FPGA_OK then (NULL, s)
           else case read_pci_attr_u32 H addr ''numa_node'' s of (r, numa, s) \<Rightarrow>
           if r \<noteq> FPGA_OK then (NULL, s)
           else case parse_pcie_info
               \<lparr>pd_addr = take 15 addr, pd_segment = 0, pd_bus = 0, pd_dev = 0, pd_func = 0,
                pd_vendor = vendor, pd_device = dev, pd_numa_node = numa, pd_tokens = []\<rparr> addr of
             (r, d) \<Rightarrow>
           if r \<noteq> FPGA_OK then (NULL, s)
           else (p, s\<lparr>pl_devices := (pl_devices s)(p \<mapsto> d),
                      pl_device_list := p # pl_device_list s\<rparr>)))"

fun discover_paths :: "host \<Rightarrow> string list \<Rightarrow> plugin \<Rightarrow> plugin" where
  "discover_paths H [] s = s"
| "discover_paths H (path # paths) s =
     (case after_slash path of
        None \<Rightarrow> discover_paths H paths s
      | Some addr \<Rightarrow> discover_paths H paths (snd (get_pci_device H addr s)))"

definition pci_discover :: "host \<Rightarrow> plugin \<Rightarrow> int \<times> plugin" where
  "pci_discover H s =
     (let paths = glob_reply H (pl_calls s) in
      case psys H P_glob s of (r, s) \<Rightarrow>
      if r \<noteq> 0 then (0, s)
      else if paths = [] then (1, s)
      else (0, discover_paths H paths s))"

text \<open>
  \<^verbatim>\<open>free_device_list\<close> frees the devices and their tokens and leaves the list empty.
  \<^verbatim>\<open>free_buffer_list\<close> frees the buffers too, but leaves the list pointing at them: \<open>pl_dangling\<close>
  says so, and reading the list is undefined from then on.
\<close>

definition free_token_list :: "ptr list \<Rightarrow> plugin \<Rightarrow> plugin" where
  "free_token_list ts s = s\<lparr>pl_tokens := (pl_tokens s) |` (- set ts)\<rparr>"

fun free_devices :: "ptr list \<Rightarrow> plugin \<Rightarrow> plugin" where
  "free_devices [] s = s\<lparr>pl_device_list := []\<rparr>"
| "free_devices (p # ps) s =
     free_devices ps
       ((case pl_devices s p of Some d \<Rightarrow> free_token_list (pd_tokens d) s | None \<Rightarrow> s)
          \<lparr>pl_devices := (pl_devices s)(p := None)\<rparr>)"

definition free_device_list :: "plugin \<Rightarrow> plugin" where
  "free_device_list s = free_devices (pl_device_list s) s"

definition buffer_list :: "plugin \<Rightarrow> vfio_buf list option" where
  "buffer_list s = (if pl_dangling s then None else Some (pl_buffers s))"

definition free_buffer_list :: "plugin \<Rightarrow> plugin option" where
  "free_buffer_list s = do { bs \<leftarrow> buffer_list s; Some (s\<lparr>pl_dangling := bs \<noteq> []\<rparr>) }"

definition vfio_plugin_initialize :: "host \<Rightarrow> plugin \<Rightarrow> int \<times> plugin" where
  "vfio_plugin_initialize H s = pci_discover H s"

definition vfio_plugin_finalize :: "plugin \<Rightarrow> (int \<times> plugin) option" where
  "vfio_plugin_finalize s = do { s \<leftarrow> free_buffer_list s; Some (0, free_device_list s) }"

subsection \<open>Tokens\<close>

text \<open>
  \<^verbatim>\<open>clone_token\<close> copies the token and, by recursion, its parents. The result is NULL for a NULL
  or foreign token and when \<^verbatim>\<open>malloc\<close> fails; a chain of parents that comes back to itself is
  followed for ever.
\<close>

partial_function (option) clone_token :: "host \<Rightarrow> ptr \<Rightarrow> plugin \<Rightarrow> (ptr \<times> plugin) option" where
  "clone_token H src s =
     (if src = NULL then Some (NULL, s)
      else do {
        w \<leftarrow> pl_tokens s src;
        if vt_magic w \<noteq> VFIO_TOKEN_MAGIC then Some (NULL, s)
        else case pmalloc H s of (t, s) \<Rightarrow>
          if t = NULL then Some (NULL, s)
          else if vt_parent w = NULL then Some (t, s\<lparr>pl_tokens := (pl_tokens s)(t \<mapsto> w)\<rparr>)
          else do {
            (q, s) \<leftarrow> clone_token H (vt_parent w) s;
            Some (t, s\<lparr>pl_tokens := (pl_tokens s)(t \<mapsto> w\<lparr>vt_parent := q\<rparr>)\<rparr>)
          }
      })"

definition token_check :: "plugin \<Rightarrow> ptr \<Rightarrow> vfio_token option option" where
  "token_check s t =
     (if t = NULL then Some None
      else do {
        w \<leftarrow> pl_tokens s t;
        Some (if vt_magic w = VFIO_TOKEN_MAGIC then Some w else None)
      })"

definition handle_check :: "plugin \<Rightarrow> ptr \<Rightarrow> vfio_handle option option" where
  "handle_check s h =
     (if h = NULL then Some None
      else do {
        w \<leftarrow> pl_handles s h;
        Some (if vh_magic w = VFIO_HANDLE_MAGIC then Some w else None)
      })"

definition event_handle_check :: "plugin \<Rightarrow> ptr \<Rightarrow> vfio_event_handle option option" where
  "event_handle_check s e =
     (if e = NULL then Some None
      else do {
        w \<leftarrow> pl_events s e;
        Some (if ve_magic w = VFIO_EVENT_HANDLE_MAGIC then Some w else None)
      })"

definition handle_check_and_lock ::
  "host \<Rightarrow> ptr \<Rightarrow> plugin \<Rightarrow> (vfio_handle option \<times> plugin) option" where
  "handle_check_and_lock H h s = do {
     w \<leftarrow> handle_check s h;
     Some (case w of
        None \<Rightarrow> (None, s)
      | Some w \<Rightarrow> (case psys H P_lock s of (r, s) \<Rightarrow> (if r \<noteq> 0 then None else Some w, s)))
   }"

definition event_handle_check_and_lock ::
  "host \<Rightarrow> ptr \<Rightarrow> plugin \<Rightarrow> (vfio_event_handle option \<times> plugin) option" where
  "event_handle_check_and_lock H e s = do {
     w \<leftarrow> event_handle_check s e;
     Some (case w of
        None \<Rightarrow> (None, s)
      | Some w \<Rightarrow> (case psys H P_lock s of (r, s) \<Rightarrow> (if r \<noteq> 0 then None else Some w, s)))
   }"

fun find_token :: "plugin \<Rightarrow> ptr list \<Rightarrow> u32 \<Rightarrow> ptr option" where
  "find_token s [] region = Some NULL"
| "find_token s (t # ts) region = do {
     w \<leftarrow> pl_tokens s t;
     if vt_region w = region then Some t else find_token s ts region
   }"

text \<open>\<open>p\<close> is the address of the device. The new token is put in front of its list.\<close>

definition get_token :: "host \<Rightarrow> ptr \<Rightarrow> u32 \<Rightarrow> u32 \<Rightarrow> plugin \<Rightarrow> (ptr \<times> plugin) option" where
  "get_token H p region ty s = do {
     d \<leftarrow> pl_devices s p;
     t \<leftarrow> find_token s (pd_tokens d) region;
     if t \<noteq> NULL then Some (t, s)
     else case pmalloc H s of (t, s) \<Rightarrow>
       if t = NULL then Some (NULL, s)
       else Some (t, s\<lparr>pl_tokens := (pl_tokens s)(t \<mapsto>
             \<lparr>vt_magic = VFIO_TOKEN_MAGIC, vt_guid = replicate 16 0, vt_compat_id = replicate 16 0,
              vt_device = p, vt_region = region, vt_mmio_size = 0, vt_user_mmio_count = 0,
              vt_user_mmio = replicate 8 0, vt_bitstream_id = 0, vt_bitstream_mdata = 0,
              vt_num_ports = 0, vt_type = ty, vt_parent = NULL, vt_reset = No_Reset\<rparr>),
            pl_devices := (pl_devices s)(p \<mapsto> d\<lparr>pd_tokens := t # pd_tokens d\<rparr>)\<rparr>)
   }"

text \<open>An update of a token through its pointer; writing through NULL is undefined.\<close>

definition upd_token :: "ptr \<Rightarrow> (vfio_token \<Rightarrow> vfio_token) \<Rightarrow> plugin \<Rightarrow> plugin option" where
  "upd_token t f s = do {
     w \<leftarrow> pl_tokens s t;
     Some (s\<lparr>pl_tokens := (pl_tokens s)(t \<mapsto> f w)\<rparr>)
   }"

definition vfio_fpgaCloneToken ::
  "host \<Rightarrow> ptr \<Rightarrow> bool \<Rightarrow> plugin \<Rightarrow> (fpga_result \<times> ptr option \<times> plugin) option" where
  "vfio_fpgaCloneToken H src dst s =
     (if src = NULL \<or> \<not> dst then Some (FPGA_INVALID_PARAM, None, s)
      else do {
        w \<leftarrow> pl_tokens s src;
        if vt_magic w \<noteq> VFIO_TOKEN_MAGIC then Some (FPGA_INVALID_PARAM, None, s)
        else case pmalloc H s of (t, s) \<Rightarrow>
          if t = NULL then Some (FPGA_NO_MEMORY, None, s)
          else Some (FPGA_OK, Some t, s\<lparr>pl_tokens := (pl_tokens s)(t \<mapsto> w)\<rparr>)
      })"

definition vfio_fpgaDestroyToken :: "ptr option \<Rightarrow> plugin \<Rightarrow> (fpga_result \<times> plugin) option" where
  "vfio_fpgaDestroyToken token s =
     (case token of
        None \<Rightarrow> Some (FPGA_INVALID_PARAM, s)
      | Some t \<Rightarrow>
          if t = NULL then Some (FPGA_INVALID_PARAM, s)
          else do {
            w \<leftarrow> pl_tokens s t;
            if vt_magic w = VFIO_TOKEN_MAGIC
            then Some (FPGA_OK, s\<lparr>pl_tokens := (pl_tokens s)(t := None)\<rparr>)
            else Some (FPGA_INVALID_PARAM, s)
          })"

subsection \<open>Registers and device feature lists (dfl.c)\<close>

type_synonym registers = "u64 \<Rightarrow> u64"

definition regs :: "host \<Rightarrow> plugin \<Rightarrow> registers" where
  "regs H s = reg64 H (pl_writes s)"

definition bits :: "nat \<Rightarrow> nat \<Rightarrow> u64 \<Rightarrow> u64" where
  "bits i n w = take_bit n (drop_bit i w)"

text \<open>
  \<^verbatim>\<open>get_guid\<close>: the two words at \<open>h\<close>, the second first, each in big-endian order.
\<close>

definition get_guid :: "registers \<Rightarrow> u64 \<Rightarrow> u8 list" where
  "get_guid R h = rev (le_bytes 8 (R (h + 8))) @ rev (le_bytes 8 (R h))"

definition dfh_id :: "registers \<Rightarrow> u64 \<Rightarrow> u64" where "dfh_id R h = bits 0 12 (R h)"
definition dfh_next :: "registers \<Rightarrow> u64 \<Rightarrow> u64" where "dfh_next R h = bits 16 24 (R h)"
definition dfh_eol :: "registers \<Rightarrow> u64 \<Rightarrow> u64" where "dfh_eol R h = bits 40 1 (R h)"

definition next_dfh :: "registers \<Rightarrow> u64 \<Rightarrow> u64" where
  "next_dfh R h = (if h \<noteq> 0 \<and> dfh_next R h \<noteq> 0 \<and> dfh_eol R h = 0 then h + dfh_next R h else 0)"

text \<open>
  \<^verbatim>\<open>for_each_dfh\<close>: the addresses of the headers visited from \<open>h\<close> on, ending at one at which the
  body leaves the loop (\<open>stop\<close>).
\<close>

partial_function (option) for_each_dfh ::
  "registers \<Rightarrow> (u64 \<Rightarrow> bool) \<Rightarrow> u64 \<Rightarrow> u64 list option" where
  "for_each_dfh R stop h =
     (if h = 0 then Some []
      else if stop h then Some [h]
      else do { hs \<leftarrow> for_each_dfh R stop (next_dfh R h); Some (h # hs) })"

declare for_each_dfh.simps [code] clone_token.simps [code]

definition PORT_CONTROL :: u64 where "PORT_CONTROL = 0x38"
definition PORT_NEXT_AFU :: u64 where "PORT_NEXT_AFU = 0x18"
definition PORT_CAPABILITY :: u64 where "PORT_CAPABILITY = 0x30"
definition FAB_CAPABILITY :: u64 where "FAB_CAPABILITY = 0x30"
definition BITSTREAM_ID :: u64 where "BITSTREAM_ID = 0x60"
definition BITSTREAM_MD :: u64 where "BITSTREAM_MD = 0x68"
definition PR_FEATURE_ID :: u64 where "PR_FEATURE_ID = 5"
definition PORT_STP_ID :: u64 where "PORT_STP_ID = 0x13"
definition PR_INTFC_ID_LO :: u64 where "PR_INTFC_ID_LO = 0xA8"
definition fme_ports :: "u64 list" where "fme_ports = [0x38, 0x40, 0x48, 0x50]"

text \<open>
  The wait for the acknowledgement of a port reset: the bit is tested before each of at most
  1001 sleeps. \<open>ack i\<close> is what the test after \<open>i\<close> sleeps reads.
\<close>

function port_wait :: "(nat \<Rightarrow> bool) \<Rightarrow> nat \<Rightarrow> fpga_result" where
  "port_wait ack cycles =
     (if ack cycles then FPGA_OK
      else if 1000 < Suc cycles then FPGA_EXCEPTION
      else port_wait ack (Suc cycles))"
  by auto
termination by (relation "measure (\<lambda>(_, cycles). 1001 - cycles)") auto

declare port_wait.simps [simp del]

definition write_reg :: "u64 \<Rightarrow> u64 \<Rightarrow> plugin \<Rightarrow> plugin" where
  "write_reg a val s = s\<lparr>pl_writes := Write64 a val # pl_writes s\<rparr>"

definition legacy_port_reset :: "host \<Rightarrow> u64 \<Rightarrow> plugin \<Rightarrow> fpga_result \<times> plugin" where
  "legacy_port_reset H port_base s =
     (let a = port_base + PORT_CONTROL;
          s = write_reg a (regs H s a OR 1) s;
          r = port_wait (port_ack H (pl_writes s)) 0
      in if r \<noteq> FPGA_OK then (r, s)
         else (FPGA_OK, write_reg a (regs H s a AND NOT 1) s))"

definition vfio_reset :: "ptr \<Rightarrow> u64 \<Rightarrow> fpga_result" where
  "vfio_reset p port_base =
     (if p = NULL \<or> port_base = 0 then FPGA_INVALID_PARAM else FPGA_OK)"

definition walk_port :: "host \<Rightarrow> ptr \<Rightarrow> u32 \<Rightarrow> u64 \<Rightarrow> plugin \<Rightarrow> plugin option" where
  "walk_port H parent region mmio s = do {
     w \<leftarrow> pl_tokens s parent;
     (port, s) \<leftarrow> get_token H (vt_device w) region FPGA_ACCELERATOR s;
     s \<leftarrow> upd_token port (\<lambda>t. t\<lparr>vt_parent := parent,
            vt_mmio_size := ucast (bits 8 16 (regs H s (mmio + PORT_CAPABILITY))),
            vt_user_mmio_count := 1,
            vt_user_mmio := (vt_user_mmio t)[0 := ucast (bits 0 24 (regs H s (mmio + PORT_NEXT_AFU)))],
            vt_reset := Legacy_Port_Reset\<rparr>) s;
     let (_, s) = legacy_port_reset H mmio s;
     let afu = mmio + bits 0 24 (regs H s (mmio + PORT_NEXT_AFU));
     s \<leftarrow> upd_token port (\<lambda>t. t\<lparr>vt_guid := get_guid (regs H s) (afu + 8)\<rparr>) s;
     hs \<leftarrow> for_each_dfh (regs H s) (\<lambda>h. dfh_id (regs H s) h = PORT_STP_ID) mmio;
     (case find (\<lambda>h. dfh_id (regs H s) h = PORT_STP_ID) hs of
        None \<Rightarrow> Some s
      | Some h \<Rightarrow> upd_token port (\<lambda>t. t\<lparr>vt_user_mmio_count := vt_user_mmio_count t + 1,
                     vt_user_mmio := (vt_user_mmio t)[1 := ucast (h - mmio)]\<rparr>) s)
   }"

fun walk_ports :: "host \<Rightarrow> opae_vfio \<Rightarrow> ptr \<Rightarrow> u64 \<Rightarrow> u64 list \<Rightarrow> plugin \<Rightarrow> plugin option" where
  "walk_ports H v fme mmio [] s = Some s"
| "walk_ports H v fme mmio (a # as) s =
     (let r = regs H s (mmio + a) in
      if bits 60 1 r = 0 then walk_ports H v fme mmio as s
      else case opae_vfio_region_get (Some v) (ucast (bits 32 3 r)) of
          (code, Some (port_mmio, sz)) \<Rightarrow> do {
            s \<leftarrow> walk_port H fme (ucast (bits 32 3 r)) (port_mmio + bits 0 24 r) s;
            walk_ports H v fme mmio as s
          }
        | (code, None) \<Rightarrow> walk_ports H v fme mmio as s)"

definition walk_fme :: "host \<Rightarrow> ptr \<Rightarrow> opae_vfio \<Rightarrow> u64 \<Rightarrow> u32 \<Rightarrow> plugin \<Rightarrow> (int \<times> plugin) option" where
  "walk_fme H p v mmio region s = do {
     (fme, s) \<leftarrow> get_token H p region FPGA_DEVICE s;
     s \<leftarrow> upd_token fme (\<lambda>t. t\<lparr>vt_guid := get_guid (regs H s) (mmio + 8),
            vt_bitstream_id := regs H s (mmio + BITSTREAM_ID),
            vt_bitstream_mdata := regs H s (mmio + BITSTREAM_MD),
            vt_num_ports := ucast (bits 17 3 (regs H s (mmio + FAB_CAPABILITY)))\<rparr>) s;
     hs \<leftarrow> for_each_dfh (regs H s) (\<lambda>h. False) mmio;
     s \<leftarrow> (case filter (\<lambda>h. dfh_id (regs H s) h = PR_FEATURE_ID) hs of
            [] \<Rightarrow> Some s
          | prs \<Rightarrow> upd_token fme (\<lambda>t. t\<lparr>vt_compat_id := get_guid (regs H s) (last prs + PR_INTFC_ID_LO)\<rparr>) s);
     s \<leftarrow> walk_ports H v fme mmio fme_ports s;
     Some (0, s)
   }"


subsection \<open>Pairs of open devices\<close>

text \<open>A call of \<^verbatim>\<open>libopaevfio\<close> on the object at \<open>v\<close>, which reads and writes the trace.\<close>

definition open_dev ::
  "host \<Rightarrow> ptr \<Rightarrow> string \<Rightarrow> string option \<Rightarrow> plugin \<Rightarrow> (int \<times> plugin) option" where
  "open_dev H v addr secret s = do {
     (r, w, t) \<leftarrow> (case secret of
         None \<Rightarrow> opae_vfio_open (os H) (Some vfio_zero) (Some addr) (pl_trace s)
       | Some tok \<Rightarrow> opae_vfio_secure_open (os H) (Some vfio_zero) (Some addr) (Some tok) (pl_trace s));
     w \<leftarrow> w;
     Some (r, s\<lparr>pl_vfios := (pl_vfios s)(v \<mapsto> w), pl_trace := t\<rparr>)
   }"

definition close_dev :: "host \<Rightarrow> ptr \<Rightarrow> plugin \<Rightarrow> plugin option" where
  "close_dev H v s = do {
     w \<leftarrow> pl_vfios s v;
     (let (_, t) = opae_vfio_close (os H) (Some w) (pl_trace s) in
      Some (s\<lparr>pl_vfios := (pl_vfios s)(v := None), pl_trace := t\<rparr>))
   }"

text \<open>\<^verbatim>\<open>close_vfio_pair\<close>: closes and frees both devices, where there are two.\<close>

definition close_vfio_pair :: "host \<Rightarrow> vfio_pair \<Rightarrow> plugin \<Rightarrow> plugin option" where
  "close_vfio_pair H pair s = do {
     s \<leftarrow> (if vp_device pair \<noteq> NULL then close_dev H (vp_device pair) s else Some s);
     (if vp_physfn pair \<noteq> NULL then close_dev H (vp_physfn pair) s else Some s)
   }"

definition contains_str :: "string \<Rightarrow> string \<Rightarrow> bool" where
  "contains_str needle s \<longleftrightarrow> list_ex (\<lambda>i. take (length needle) (drop i s) = needle) [0..<Suc (length s)]"

text \<open>
  The test of \<^verbatim>\<open>open_vfio_pair\<close> for a virtual function whose physical function is bound to
  vfio-pci as well: the address of the physical function.
\<close>

definition physfn_of :: "host \<Rightarrow> string \<Rightarrow> plugin \<Rightarrow> string option \<times> plugin" where
  "physfn_of H addr s =
     (case read_pci_link H addr ''physfn'' 16 s of (r, phys, s) \<Rightarrow>
      if r \<noteq> 0 then (None, s)
      else case read_pci_link H phys ''driver'' 4096 s of (r, drv, s) \<Rightarrow>
      (if r = 0 \<and> contains_str ''vfio-pci'' drv then Some phys else None, s))"

definition open_vfio_pair :: "host \<Rightarrow> string \<Rightarrow> plugin \<Rightarrow> (vfio_pair option \<times> plugin) option" where
  "open_vfio_pair H addr s =
     (case pmalloc H s of (pair, s) \<Rightarrow>
      if pair = NULL then Some (None, s)
      else case pmalloc H s of (dev, s) \<Rightarrow>
      if dev = NULL then Some (None, s)
      else case physfn_of H addr s of (phys, s) \<Rightarrow>
      case phys of
        None \<Rightarrow> do {
          (r, s) \<leftarrow> open_dev H dev addr None s;
          (if r \<noteq> 0 then Some (None, s\<lparr>pl_vfios := (pl_vfios s)(dev := None)\<rparr>)
           else Some (Some \<lparr>vp_device = dev, vp_physfn = NULL\<rparr>, s))
        }
      | Some phys \<Rightarrow>
          (let secret = uuid_reply H (pl_calls s) in
           case psys H P_uuid s of (_, s) \<Rightarrow>
           case pmalloc H s of (pf, s) \<Rightarrow>
           if pf = NULL then Some (None, s)
           else do {
             (r, s) \<leftarrow> open_dev H pf phys (Some secret) s;
             (if r \<noteq> 0 then Some (None, s\<lparr>pl_vfios := (pl_vfios s)(pf := None)\<rparr>)
              else do {
                (r, s) \<leftarrow> open_dev H dev addr (Some secret) s;
                (if r \<noteq> 0 then Some (None, s\<lparr>pl_vfios := (pl_vfios s)(dev := None)\<rparr>)
                 else Some (Some \<lparr>vp_device = dev, vp_physfn = pf\<rparr>, s))
              })
           }))"

subsection \<open>Walking a device\<close>

text \<open>The identifier of the one known legacy FME, \<^verbatim>\<open>bfaf2ae9-4a52-46e3-82fe-38f0f9e17764\<close>.\<close>

definition fme_guid :: "u8 list" where
  "fme_guid = [0xbf, 0xaf, 0x2a, 0xe9, 0x4a, 0x52, 0x46, 0xe3,
               0x82, 0xfe, 0x38, 0xf0, 0xf9, 0xe1, 0x77, 0x64]"

fun walk_bars :: "host \<Rightarrow> ptr \<Rightarrow> opae_vfio \<Rightarrow> u32 list \<Rightarrow> plugin \<Rightarrow> plugin option" where
  "walk_bars H p v [] s = Some s"
| "walk_bars H p v (i # is) s =
     (case opae_vfio_region_get (Some v) i of
        (code, None) \<Rightarrow> walk_bars H p v is s
      | (code, Some (mmio, sz)) \<Rightarrow>
          (if regs H s mmio = 0 \<or> regs H s (mmio + 8) = 0 then walk_bars H p v is s
           else do {
             (t, s) \<leftarrow> get_token H p i FPGA_ACCELERATOR s;
             s \<leftarrow> upd_token t (\<lambda>t. t\<lparr>vt_guid := get_guid (regs H s) (mmio + 8), vt_mmio_size := ucast sz,
                    vt_user_mmio_count := 1, vt_user_mmio := (vt_user_mmio t)[0 := 0]\<rparr>) s;
             walk_bars H p v is s
           }))"

definition walk_regions :: "host \<Rightarrow> ptr \<Rightarrow> opae_vfio \<Rightarrow> plugin \<Rightarrow> (int \<times> plugin) option" where
  "walk_regions H p v s =
     (case opae_vfio_region_get (Some v) 0 of
        (code, None) \<Rightarrow> Some (2, s)
      | (code, Some (mmio, sz)) \<Rightarrow>
          (if get_guid (regs H s) (mmio + 8) = fme_guid then walk_fme H p v mmio 0 s
           else do {
             (t, s) \<leftarrow> get_token H p 0 FPGA_ACCELERATOR s;
             s \<leftarrow> upd_token t (\<lambda>t. t\<lparr>vt_mmio_size := ucast sz, vt_user_mmio_count := 1,
                    vt_user_mmio := (vt_user_mmio t)[0 := 0], vt_reset := Vfio_Reset,
                    vt_guid := get_guid (regs H s) (mmio + 8)\<rparr>) s;
             s \<leftarrow> walk_bars H p v (map word_of_nat [1..<BAR_MAX]) s;
             Some (0, s)
           }))"

definition vfio_walk :: "host \<Rightarrow> ptr \<Rightarrow> plugin \<Rightarrow> (int \<times> plugin) option" where
  "vfio_walk H p s = do {
     d \<leftarrow> pl_devices s p;
     (pair, s) \<leftarrow> open_vfio_pair H (pd_addr d) s;
     (case pair of
        None \<Rightarrow> Some (1, s)
      | Some pair \<Rightarrow> do {
          v \<leftarrow> pl_vfios s (vp_device pair);
          (r, s) \<leftarrow> walk_regions H p v s;
          s \<leftarrow> close_vfio_pair H pair s;
          Some (r, s)
        })
   }"

subsection \<open>Enumeration\<close>

definition pci_matches_filter :: "fpga_properties \<Rightarrow> pci_device \<Rightarrow> bool" where
  "pci_matches_filter f d \<longleftrightarrow>
     (FIELD_VALID f FPGA_PROPERTY_SEGMENT \<longrightarrow> pr_segment f = pd_segment d) \<and>
     (FIELD_VALID f FPGA_PROPERTY_BUS \<longrightarrow> pr_bus f = pd_bus d) \<and>
     (FIELD_VALID f FPGA_PROPERTY_DEVICE \<longrightarrow> pr_device f = pd_dev d) \<and>
     (FIELD_VALID f FPGA_PROPERTY_FUNCTION \<longrightarrow> pr_function f = pd_func d) \<and>
     (FIELD_VALID f FPGA_PROPERTY_SOCKETID \<longrightarrow> (ucast (pr_socket_id f) :: u32) = pd_numa_node d)"

text \<open>The filters are None for a NULL pointer, which matches everything.\<close>

definition pci_matches_filters :: "fpga_properties list option \<Rightarrow> pci_device \<Rightarrow> bool" where
  "pci_matches_filters fs d =
     (case fs of None \<Rightarrow> True | Some fs \<Rightarrow> list_ex (\<lambda>f. pci_matches_filter f d) fs)"

definition matches_parent :: "plugin \<Rightarrow> ptr \<Rightarrow> vfio_token \<Rightarrow> bool option" where
  "matches_parent s f_parent t =
     (if vt_type t = FPGA_DEVICE then Some False
      else if vt_parent t = NULL then Some False
      else do {
        tp \<leftarrow> pl_tokens s (vt_parent t);
        fp \<leftarrow> pl_tokens s f_parent;
        td \<leftarrow> pl_devices s (vt_device tp);
        fd \<leftarrow> pl_devices s (vt_device fp);
        Some (bdf td = bdf fd \<and> vt_region tp = vt_region fp)
      })"

definition matches_filter :: "plugin \<Rightarrow> fpga_properties \<Rightarrow> vfio_token \<Rightarrow> bool option" where
  "matches_filter s f t = do {
     ok \<leftarrow> (if FIELD_VALID f FPGA_PROPERTY_PARENT then matches_parent s (pr_parent f) t else Some True);
     Some (ok \<and>
       (FIELD_VALID f FPGA_PROPERTY_OBJTYPE \<longrightarrow> pr_objtype f = vt_type t) \<and>
       (FIELD_VALID f FPGA_PROPERTY_GUID \<longrightarrow> pr_guid f = vt_guid t))
   }"

fun some_filter :: "plugin \<Rightarrow> fpga_properties list \<Rightarrow> vfio_token \<Rightarrow> bool option" where
  "some_filter s [] t = Some False"
| "some_filter s (f # fs) t = do {
     m \<leftarrow> matches_filter s f t;
     if m then Some True else some_filter s fs t
   }"

definition matches_filters :: "plugin \<Rightarrow> fpga_properties list option \<Rightarrow> vfio_token \<Rightarrow> bool option" where
  "matches_filters s fs t = (case fs of None \<Rightarrow> Some True | Some fs \<Rightarrow> some_filter s fs t)"

text \<open>
  The inner loop of \<^verbatim>\<open>vfio_fpgaEnumerate\<close>: \<open>n\<close> counts the matches, \<open>out\<close> is what the array of
  tokens holds so far.
\<close>

fun enum_tokens ::
  "host \<Rightarrow> fpga_properties list option \<Rightarrow> u32 \<Rightarrow> ptr list \<Rightarrow> u32 \<Rightarrow> ptr list \<Rightarrow> plugin \<Rightarrow>
     (u32 \<times> ptr list \<times> plugin) option" where
  "enum_tokens H fs max_tokens [] n out s = Some (n, out, s)"
| "enum_tokens H fs max_tokens (t # ts) n out s = do {
     w \<leftarrow> pl_tokens s t;
     m \<leftarrow> matches_filters s fs w;
     (if \<not> m then enum_tokens H fs max_tokens ts n out s
      else if n < max_tokens then do {
        (c, s) \<leftarrow> clone_token H t s;
        enum_tokens H fs max_tokens ts (n + 1) (out @ [c]) s
      }
      else enum_tokens H fs max_tokens ts (n + 1) out s)
   }"

fun enum_devices ::
  "host \<Rightarrow> fpga_properties list option \<Rightarrow> u32 \<Rightarrow> ptr list \<Rightarrow> u32 \<Rightarrow> ptr list \<Rightarrow> plugin \<Rightarrow>
     (u32 \<times> ptr list \<times> plugin) option" where
  "enum_devices H fs max_tokens [] n out s = Some (n, out, s)"
| "enum_devices H fs max_tokens (p # ps) n out s = do {
     d \<leftarrow> pl_devices s p;
     (if \<not> pci_matches_filters fs d then enum_devices H fs max_tokens ps n out s
      else do {
        (_, s) \<leftarrow> vfio_walk H p s;
        d \<leftarrow> pl_devices s p;
        (n, out, s) \<leftarrow> enum_tokens H fs max_tokens (pd_tokens d) n out s;
        enum_devices H fs max_tokens ps n out s
      })
   }"

definition vfio_fpgaEnumerate ::
  "host \<Rightarrow> fpga_properties list option \<Rightarrow> u32 \<Rightarrow> plugin \<Rightarrow>
     (fpga_result \<times> ptr list \<times> u32 \<times> plugin) option" where
  "vfio_fpgaEnumerate H fs max_tokens s = do {
     (n, out, s) \<leftarrow> enum_devices H fs max_tokens (pl_device_list s) 0 [] s;
     Some (FPGA_OK, out, n, s)
   }"


subsection \<open>Opening, closing and resetting\<close>

text \<open>
  The part of \<^verbatim>\<open>vfio_fpgaOpen\<close> after the handle \<open>h\<close> is allocated and its mutex initialized, the
  label \<^verbatim>\<open>out_attr_destroy\<close> included.
\<close>

definition finish_open ::
  "host \<Rightarrow> ptr \<Rightarrow> vfio_token \<Rightarrow> ptr \<Rightarrow> plugin \<Rightarrow> (fpga_result \<times> ptr option \<times> plugin) option" where
  "finish_open H token tok h s = do {
     (c, s) \<leftarrow> clone_token H token s;
     dev \<leftarrow> pl_devices s (vt_device tok);
     (pair, s) \<leftarrow> open_vfio_pair H (pd_addr dev) s;
     (case pair of
        None \<Rightarrow> Some (FPGA_EXCEPTION, None, snd (psys H P_attr_destroy s))
      | Some pair \<Rightarrow> do {
          v \<leftarrow> pl_vfios s (vp_device pair);
          (case opae_vfio_region_get (Some v) (vt_region tok) of
             (code, None) \<Rightarrow> do {
               s \<leftarrow> close_vfio_pair H pair (snd (psys H P_attr_destroy s));
               Some (FPGA_EXCEPTION, None, s)
             }
           | (code, Some (mmio, sz)) \<Rightarrow>
               Some (FPGA_OK, Some h, snd (psys H P_attr_destroy (s\<lparr>pl_handles := (pl_handles s)(h \<mapsto>
                 \<lparr>vh_magic = VFIO_HANDLE_MAGIC, vh_token = c, vh_pair = pair,
                  vh_mmio_base = mmio, vh_mmio_size = sz,
                  vh_flags = (if has_avx512 H then 1 else 0)\<rparr>)\<rparr>))))
        })
   }"

definition vfio_fpgaOpen ::
  "host \<Rightarrow> ptr \<Rightarrow> bool \<Rightarrow> plugin \<Rightarrow> (fpga_result \<times> ptr option \<times> plugin) option" where
  "vfio_fpgaOpen H token handle s =
     (if token = NULL \<or> \<not> handle then Some (FPGA_INVALID_PARAM, None, s)
      else do {
        tok \<leftarrow> token_check s token;
        (case tok of
           None \<Rightarrow> Some (FPGA_INVALID_PARAM, None, s)
         | Some tok \<Rightarrow>
             (case psys H P_attr_init s of (r, s) \<Rightarrow>
              if r \<noteq> 0 then Some (FPGA_EXCEPTION, None, s)
              else case pmalloc H s of (h, s) \<Rightarrow>
              let attr_destroy = (\<lambda>s. snd (psys H P_attr_destroy s)) in
              if h = NULL then Some (FPGA_NO_MEMORY, None, attr_destroy s)
              else case psys H P_attr_settype s of (r, s) \<Rightarrow>
              if r \<noteq> 0 then Some (FPGA_EXCEPTION, None, attr_destroy s)
              else case psys H P_mutex_init s of (r, s) \<Rightarrow>
              if r \<noteq> 0 then Some (FPGA_EXCEPTION, None, attr_destroy s)
              else finish_open H token tok h s))
      })"

definition vfio_fpgaClose :: "host \<Rightarrow> ptr \<Rightarrow> plugin \<Rightarrow> (fpga_result \<times> plugin) option" where
  "vfio_fpgaClose H handle s = do {
     (h, s) \<leftarrow> handle_check_and_lock H handle s;
     (case h of
        None \<Rightarrow> Some (FPGA_INVALID_PARAM, s)
      | Some h \<Rightarrow> do {
          tok \<leftarrow> token_check s (vh_token h);
          s \<leftarrow> close_vfio_pair H (vh_pair h)
                (if tok \<noteq> None then s\<lparr>pl_tokens := (pl_tokens s)(vh_token h := None)\<rparr> else s);
          (case psys H P_unlock s of (r, s) \<Rightarrow>
           if r \<noteq> 0 then Some (FPGA_EXCEPTION, s\<lparr>pl_handles := (pl_handles s)(handle := None)\<rparr>)
           else case psys H P_mutex_destroy s of (r, s) \<Rightarrow>
             Some (if r \<noteq> 0 then FPGA_EXCEPTION else FPGA_OK,
                   s\<lparr>pl_handles := (pl_handles s)(handle := None)\<rparr>))
        })
   }"

definition punlock :: "host \<Rightarrow> plugin \<Rightarrow> plugin" where
  "punlock H s = snd (psys H P_unlock s)"

definition vfio_fpgaReset :: "host \<Rightarrow> ptr \<Rightarrow> plugin \<Rightarrow> (fpga_result \<times> plugin) option" where
  "vfio_fpgaReset H handle s = do {
     (h, s) \<leftarrow> handle_check_and_lock H handle s;
     (case h of
        None \<Rightarrow> Some (FPGA_INVALID_PARAM, s)
      | Some h \<Rightarrow> do {
          t \<leftarrow> pl_tokens s (vh_token h);
          (let (res, s) = (if vt_type t = FPGA_ACCELERATOR then
                 (case vt_reset t of
                    No_Reset \<Rightarrow> (FPGA_NOT_SUPPORTED, s)
                  | Vfio_Reset \<Rightarrow> (vfio_reset (vt_device t) (vh_mmio_base h), s)
                  | Legacy_Port_Reset \<Rightarrow> legacy_port_reset H (vh_mmio_base h) s)
               else (FPGA_NOT_SUPPORTED, s))
           in Some (res, punlock H s))
        })
   }"

subsection \<open>Properties\<close>

definition put_prop :: "nat \<Rightarrow> (fpga_properties \<Rightarrow> fpga_properties) \<Rightarrow> fpga_properties \<Rightarrow> fpga_properties" where
  "put_prop f upd p = SET_FIELD_VALID f (upd p)"

definition common_props :: "vfio_token \<Rightarrow> pci_device \<Rightarrow> fpga_properties \<Rightarrow> fpga_properties" where
  "common_props t d p =
     put_prop FPGA_PROPERTY_OBJTYPE (\<lambda>p. p\<lparr>pr_objtype := vt_type t\<rparr>)
    (put_prop FPGA_PROPERTY_OBJECTID (\<lambda>p. p\<lparr>pr_object_id := push_bit 32 (ucast (bdf d)) OR ucast (vt_region t)\<rparr>)
    (put_prop FPGA_PROPERTY_SOCKETID (\<lambda>p. p\<lparr>pr_socket_id := ucast (pd_numa_node d)\<rparr>)
    (put_prop FPGA_PROPERTY_FUNCTION (\<lambda>p. p\<lparr>pr_function := pd_func d\<rparr>)
    (put_prop FPGA_PROPERTY_DEVICE (\<lambda>p. p\<lparr>pr_device := pd_dev d\<rparr>)
    (put_prop FPGA_PROPERTY_BUS (\<lambda>p. p\<lparr>pr_bus := pd_bus d\<rparr>)
    (put_prop FPGA_PROPERTY_SEGMENT (\<lambda>p. p\<lparr>pr_segment := pd_segment d\<rparr>)
    (put_prop FPGA_PROPERTY_DEVICEID (\<lambda>p. p\<lparr>pr_device_id := ucast (pd_device d)\<rparr>)
    (put_prop FPGA_PROPERTY_VENDORID (\<lambda>p. p\<lparr>pr_vendor_id := ucast (pd_vendor d)\<rparr>) p))))))))"

definition accelerator_props :: "vfio_token \<Rightarrow> fpga_properties \<Rightarrow> fpga_properties" where
  "accelerator_props t p =
     put_prop FPGA_PROPERTY_NUM_MMIO (u_put 4 4 (vt_user_mmio_count t))
    (put_prop FPGA_PROPERTY_GUID (\<lambda>p. p\<lparr>pr_guid := vt_guid t\<rparr>)
    (CLEAR_FIELD_VALID FPGA_PROPERTY_PARENT (p\<lparr>pr_parent := NULL\<rparr>)))"

text \<open>\<^verbatim>\<open>bbs_version.major\<close> is written twice, the second time with the patch number.\<close>

definition device_props :: "vfio_token \<Rightarrow> fpga_properties \<Rightarrow> fpga_properties" where
  "device_props t p =
     put_prop FPGA_PROPERTY_NUM_SLOTS (u_put 0 4 (ucast (vt_num_ports t) :: u32))
    (put_prop FPGA_PROPERTY_BBSVERSION
      (\<lambda>p. u_put 16 1 (ucast (bits 48 4 (vt_bitstream_id t)) :: u8)
          (u_put 17 1 (ucast (bits 52 4 (vt_bitstream_id t)) :: u8)
          (u_put 16 1 (ucast (bits 56 4 (vt_bitstream_id t)) :: u8) p)))
    (put_prop FPGA_PROPERTY_BBSID (u_put 8 8 (vt_bitstream_id t))
    (put_prop FPGA_PROPERTY_GUID (\<lambda>p. p\<lparr>pr_guid := vt_compat_id t\<rparr>) p)))"

definition vfio_fpgaUpdateProperties ::
  "plugin \<Rightarrow> ptr \<Rightarrow> fpga_properties option \<Rightarrow> (fpga_result \<times> fpga_properties option) option" where
  "vfio_fpgaUpdateProperties s token prop = do {
     tok \<leftarrow> token_check s token;
     (case tok of
        None \<Rightarrow> Some (FPGA_INVALID_PARAM, prop)
      | Some t \<Rightarrow>
          (case prop of
             None \<Rightarrow> Some (FPGA_EXCEPTION, None)
           | Some p \<Rightarrow>
               if pr_magic p \<noteq> FPGA_PROPERTY_MAGIC then Some (FPGA_INVALID_PARAM, prop)
               else do {
                 d \<leftarrow> pl_devices s (vt_device t);
                 Some (FPGA_OK, Some (if vt_type t = FPGA_ACCELERATOR
                        then accelerator_props t (common_props t d p)
                        else device_props t (common_props t d p)))
               }))
   }"

text \<open>\<open>created\<close> is the result of \<^verbatim>\<open>fpgaGetProperties(NULL, ...)\<close> of \<^verbatim>\<open>libopae-c\<close>.\<close>

definition vfio_fpgaGetProperties ::
  "plugin \<Rightarrow> ptr \<Rightarrow> bool \<Rightarrow> fpga_result \<times> fpga_properties \<Rightarrow>
     (fpga_result \<times> fpga_properties option) option" where
  "vfio_fpgaGetProperties s token prop created =
     (if \<not> prop then Some (FPGA_INVALID_PARAM, None)
      else if fst created \<noteq> FPGA_OK then Some (fst created, None)
      else if token = NULL then Some (FPGA_OK, Some (snd created))
      else do {
        (r, p) \<leftarrow> vfio_fpgaUpdateProperties s token (Some (snd created));
        Some (r, if r \<noteq> FPGA_OK then None else p)
      })"

definition vfio_fpgaGetPropertiesFromHandle ::
  "plugin \<Rightarrow> ptr \<Rightarrow> bool \<Rightarrow> fpga_result \<times> fpga_properties \<Rightarrow>
     (fpga_result \<times> fpga_properties option) option" where
  "vfio_fpgaGetPropertiesFromHandle s handle prop created =
     (if \<not> prop then Some (FPGA_INVALID_PARAM, None)
      else do {
        h \<leftarrow> handle_check s handle;
        (case h of
           None \<Rightarrow> Some (FPGA_INVALID_PARAM, None)
         | Some h \<Rightarrow> vfio_fpgaGetProperties s (vh_token h) prop created)
      })"

subsection \<open>MMIO\<close>

text \<open>
  \<^verbatim>\<open>get_user_offset\<close> has a 32-bit parameter for the offset, which is 64 bits wide in the API.
  Reading \<^verbatim>\<open>user_mmio\<close> past its eight entries is undefined.
\<close>

definition get_user_offset :: "vfio_handle \<Rightarrow> vfio_token \<Rightarrow> u32 \<Rightarrow> u64 \<Rightarrow> u64 option" where
  "get_user_offset h t mmio_num offset =
     (if unat mmio_num < length (vt_user_mmio t)
      then Some (vh_mmio_base h + ucast (vt_user_mmio t ! unat mmio_num) + ucast (ucast offset :: u32))
      else None)"

text \<open>
  The memory behind a handle ends: an access of \<open>width\<close> bytes is defined when all of them lie in the mapping of
  the region. The code makes no such check.
\<close>

definition in_mapping :: "vfio_handle \<Rightarrow> vfio_token \<Rightarrow> u32 \<Rightarrow> u64 \<Rightarrow> nat \<Rightarrow> bool" where
  "in_mapping h t mmio_num offset width \<longleftrightarrow>
     unat (vt_user_mmio t ! unat mmio_num) + unat (ucast offset :: u32) + width \<le> unat (vh_mmio_size h)"

text \<open>
  The checks the five MMIO operations share; \<open>action\<close> gets the address of the access, which is \<open>width\<close> bytes
  wide. Outside the mapping it is undefined.
\<close>

definition mmio_access ::
  "host \<Rightarrow> vfio_handle \<Rightarrow> vfio_token \<Rightarrow> u32 \<Rightarrow> u64 \<Rightarrow> nat \<Rightarrow> (u64 \<Rightarrow> plugin \<Rightarrow> 'a option \<times> plugin) \<Rightarrow>
     plugin \<Rightarrow> (fpga_result \<times> 'a option \<times> plugin) option" where
  "mmio_access H h t mmio_num offset width action s =
     (if vt_type t = FPGA_DEVICE then Some (FPGA_NOT_SUPPORTED, None, s)
      else if vt_user_mmio_count t < mmio_num then Some (FPGA_INVALID_PARAM, None, s)
      else case psys H P_lock s of (r, s) \<Rightarrow>
      if r \<noteq> 0 then Some (FPGA_EXCEPTION, None, s)
      else do {
        a \<leftarrow> get_user_offset h t mmio_num offset;
        (if in_mapping h t mmio_num offset width
         then let (x, s) = action a s in Some (FPGA_OK, x, punlock H s)
         else None)
      })"

definition with_handle_token ::
  "ptr \<Rightarrow> plugin \<Rightarrow> (vfio_handle \<Rightarrow> vfio_token \<Rightarrow> (fpga_result \<times> 'a option \<times> plugin) option) \<Rightarrow>
     (fpga_result \<times> 'a option \<times> plugin) option" where
  "with_handle_token handle s body = do {
     h \<leftarrow> handle_check s handle;
     (case h of
        None \<Rightarrow> Some (FPGA_INVALID_PARAM, None, s)
      | Some h \<Rightarrow> do { t \<leftarrow> pl_tokens s (vh_token h); body h t })
   }"

definition write_to :: "mmio_write \<Rightarrow> plugin \<Rightarrow> unit option \<times> plugin" where
  "write_to w s = (Some (), s\<lparr>pl_writes := w # pl_writes s\<rparr>)"

definition vfio_fpgaWriteMMIO64 ::
  "host \<Rightarrow> ptr \<Rightarrow> u32 \<Rightarrow> u64 \<Rightarrow> u64 \<Rightarrow> plugin \<Rightarrow> (fpga_result \<times> unit option \<times> plugin) option" where
  "vfio_fpgaWriteMMIO64 H handle mmio_num offset val s =
     with_handle_token handle s (\<lambda>h t.
       mmio_access H h t mmio_num offset 8 (\<lambda>a. write_to (Write64 a val)) s)"

definition vfio_fpgaReadMMIO64 ::
  "host \<Rightarrow> ptr \<Rightarrow> u32 \<Rightarrow> u64 \<Rightarrow> plugin \<Rightarrow> (fpga_result \<times> u64 option \<times> plugin) option" where
  "vfio_fpgaReadMMIO64 H handle mmio_num offset s =
     with_handle_token handle s (\<lambda>h t.
       mmio_access H h t mmio_num offset 8 (\<lambda>a s. (Some (regs H s a), s)) s)"

definition vfio_fpgaWriteMMIO32 ::
  "host \<Rightarrow> ptr \<Rightarrow> u32 \<Rightarrow> u64 \<Rightarrow> u32 \<Rightarrow> plugin \<Rightarrow> (fpga_result \<times> unit option \<times> plugin) option" where
  "vfio_fpgaWriteMMIO32 H handle mmio_num offset val s =
     with_handle_token handle s (\<lambda>h t.
       mmio_access H h t mmio_num offset 4 (\<lambda>a. write_to (Write32 a val)) s)"

text \<open>The 32 bits at an address are the low half of the 64 bits there.\<close>

definition vfio_fpgaReadMMIO32 ::
  "host \<Rightarrow> ptr \<Rightarrow> u32 \<Rightarrow> u64 \<Rightarrow> plugin \<Rightarrow> (fpga_result \<times> u32 option \<times> plugin) option" where
  "vfio_fpgaReadMMIO32 H handle mmio_num offset s =
     with_handle_token handle s (\<lambda>h t.
       mmio_access H h t mmio_num offset 4 (\<lambda>a s. (Some (ucast (regs H s a)), s)) s)"

definition vfio_fpgaWriteMMIO512 ::
  "host \<Rightarrow> ptr \<Rightarrow> u32 \<Rightarrow> u64 \<Rightarrow> u8 list \<Rightarrow> plugin \<Rightarrow> (fpga_result \<times> unit option \<times> plugin) option" where
  "vfio_fpgaWriteMMIO512 H handle mmio_num offset val s =
     with_handle_token handle s (\<lambda>h t.
       if offset mod 64 \<noteq> 0 then Some (FPGA_INVALID_PARAM, None, s)
       else if vh_flags h AND 1 = 0 then Some (FPGA_NOT_SUPPORTED, None, s)
       else mmio_access H h t mmio_num offset 64 (\<lambda>a. write_to (Write512 a val)) s)"

definition vfio_fpgaMapMMIO ::
  "ptr \<Rightarrow> u32 \<Rightarrow> bool \<Rightarrow> plugin \<Rightarrow> (fpga_result \<times> u64 option \<times> plugin) option" where
  "vfio_fpgaMapMMIO handle mmio_num out s =
     with_handle_token handle s (\<lambda>h t.
       if vt_user_mmio_count t < mmio_num then Some (FPGA_INVALID_PARAM, None, s)
       else if \<not> out then Some (FPGA_OK, None, s)
       else do { a \<leftarrow> get_user_offset h t mmio_num 0; Some (FPGA_OK, Some a, s) })"

definition vfio_fpgaUnmapMMIO ::
  "ptr \<Rightarrow> u32 \<Rightarrow> plugin \<Rightarrow> (fpga_result \<times> unit option \<times> plugin) option" where
  "vfio_fpgaUnmapMMIO handle mmio_num s =
     with_handle_token handle s (\<lambda>h t.
       Some (if vt_user_mmio_count t < mmio_num then FPGA_INVALID_PARAM else FPGA_OK, None, s))"

subsection \<open>DMA buffers\<close>

definition ROUND_UP :: "u64 \<Rightarrow> u64 \<Rightarrow> u64" where
  "ROUND_UP n m = (n + m - 1) AND (- m)"

definition buffer_len :: "u64 \<Rightarrow> u64" where
  "buffer_len len =
     (if 0x200000 < len then ROUND_UP len 0x40000000
      else if 4096 < len then ROUND_UP len 0x200000 else 4096)"

definition free_dev_buffer :: "host \<Rightarrow> ptr \<Rightarrow> u64 \<Rightarrow> plugin \<Rightarrow> plugin option" where
  "free_dev_buffer H v virt s = do {
     w \<leftarrow> pl_vfios s v;
     (case opae_vfio_buffer_free (os H) (Some w) virt (pl_trace s) of
        (_, Some w, t) \<Rightarrow> Some (s\<lparr>pl_vfios := (pl_vfios s)(v \<mapsto> w), pl_trace := t\<rparr>)
      | (_, None, t) \<Rightarrow> None)
   }"

text \<open>
  The part of \<^verbatim>\<open>vfio_fpgaPrepareBuffer\<close> after the allocation: the new buffer becomes the head of
  the list. When unlocking fails it is freed although it is the head of the list already: from
  then on the list dangles.
\<close>

definition next_wsid :: "vfio_buf list \<Rightarrow> u64" where
  "next_wsid bs = (case bs of [] \<Rightarrow> 0 | b # _ \<Rightarrow> vb_wsid b + 1)"

definition undo_buffer :: "host \<Rightarrow> ptr \<Rightarrow> u64 \<Rightarrow> plugin \<Rightarrow> plugin option" where
  "undo_buffer H v virt s = (if virt \<noteq> 0 then free_dev_buffer H v virt s else Some s)"

definition link_buffer ::
  "host \<Rightarrow> ptr \<Rightarrow> u64 \<Rightarrow> u64 \<Rightarrow> u64 \<Rightarrow> plugin \<Rightarrow> (fpga_result \<times> (u64 \<times> u64) option \<times> plugin) option" where
  "link_buffer H v virt iova sz s =
     (case pmalloc H s of (b, s) \<Rightarrow>
      if b = NULL then do {
        s \<leftarrow> free_dev_buffer H v virt s;
        Some (FPGA_NO_MEMORY, None, s)
      }
      else case psys H P_lock s of (r, s) \<Rightarrow>
      if r \<noteq> 0 then do {
        s \<leftarrow> undo_buffer H v virt s;
        Some (FPGA_EXCEPTION, None, s)
      }
      else do {
        bs \<leftarrow> buffer_list s;
        let id = next_wsid bs;
        let s = s\<lparr>pl_buffers := \<lparr>vb_virtual = virt, vb_iova = iova, vb_wsid = id,
                    vb_size = sz, vb_device = v\<rparr> # bs\<rparr>;
        (case psys H P_unlock s of (r, s) \<Rightarrow>
         if r \<noteq> 0 then do {
           s \<leftarrow> undo_buffer H v virt s;
           Some (FPGA_EXCEPTION, Some (virt, id), s\<lparr>pl_dangling := True\<rparr>)
         }
         else Some (FPGA_OK, Some (virt, id), s))
      })"

definition vfio_fpgaPrepareBuffer ::
  "host \<Rightarrow> ptr \<Rightarrow> u64 \<Rightarrow> bool \<Rightarrow> bool \<Rightarrow> plugin \<Rightarrow> (fpga_result \<times> (u64 \<times> u64) option \<times> plugin) option" where
  "vfio_fpgaPrepareBuffer H handle len buf_addr wsid s =
     (if \<not> buf_addr \<or> \<not> wsid then Some (FPGA_INVALID_PARAM, None, s)
      else do {
        h \<leftarrow> handle_check s handle;
        (case h of
           None \<Rightarrow> Some (FPGA_INVALID_PARAM, None, s)
         | Some h \<Rightarrow> do {
             let v = vp_device (vh_pair h);
             w \<leftarrow> pl_vfios s v;
             (case opae_vfio_buffer_allocate (os H) (Some w) (Some (buffer_len len)) True True (pl_trace s) of
                (ar, None, t) \<Rightarrow> None
              | (ar, Some w, t) \<Rightarrow>
                  (let s = s\<lparr>pl_vfios := (pl_vfios s)(v \<mapsto> w), pl_trace := t\<rparr> in
                   if ar_code ar \<noteq> 0 then Some (FPGA_EXCEPTION, None, s)
                   else do {
                     virt \<leftarrow> ar_buf ar;
                     iova \<leftarrow> ar_iova ar;
                     link_buffer H v virt iova (ar_size ar) s
                   }))
           })
      })"

fun unlink_wsid :: "u64 \<Rightarrow> vfio_buf list \<Rightarrow> (vfio_buf \<times> vfio_buf list) option" where
  "unlink_wsid wsid [] = None"
| "unlink_wsid wsid (b # bs) =
     (if vb_wsid b = wsid then Some (b, bs)
      else map_option (\<lambda>(x, xs). (x, b # xs)) (unlink_wsid wsid bs))"

text \<open>The buffer is released on the device of the handle, which need not be its own.\<close>

definition vfio_fpgaReleaseBuffer :: "host \<Rightarrow> ptr \<Rightarrow> u64 \<Rightarrow> plugin \<Rightarrow> (fpga_result \<times> plugin) option" where
  "vfio_fpgaReleaseBuffer H handle wsid s = do {
     h \<leftarrow> handle_check s handle;
     (case h of
        None \<Rightarrow> Some (FPGA_INVALID_PARAM, s)
      | Some h \<Rightarrow>
          (case psys H P_lock s of (r, s) \<Rightarrow>
           if r \<noteq> 0 then Some (FPGA_EXCEPTION, s)
           else do {
             bs \<leftarrow> buffer_list s;
             (case unlink_wsid wsid bs of
                None \<Rightarrow> Some (FPGA_NOT_FOUND, punlock H s)
              | Some (b, rest) \<Rightarrow> do {
                  s \<leftarrow> free_dev_buffer H (vp_device (vh_pair h)) (vb_virtual b) s;
                  Some (FPGA_OK, punlock H (s\<lparr>pl_buffers := rest\<rparr>))
                })
           }))
   }"

definition vfio_fpgaGetIOAddress ::
  "host \<Rightarrow> ptr \<Rightarrow> u64 \<Rightarrow> plugin \<Rightarrow> (fpga_result \<times> u64 option \<times> plugin) option" where
  "vfio_fpgaGetIOAddress H handle wsid s =
     (case psys H P_lock s of (r, s) \<Rightarrow>
      if r \<noteq> 0 then Some (FPGA_EXCEPTION, None, s)
      else do {
        bs \<leftarrow> buffer_list s;
        (case find (\<lambda>b. vb_wsid b = wsid) bs of
           None \<Rightarrow> Some (FPGA_NOT_FOUND, None, punlock H s)
         | Some b \<Rightarrow> Some (FPGA_OK, Some (vb_iova b), punlock H s))
      })"

subsection \<open>Events\<close>

datatype event_type = FPGA_EVENT_INTERRUPT | FPGA_EVENT_ERROR | FPGA_EVENT_POWER_THERMAL | Other_Event

definition VFIO_PCI_MSIX_IRQ_INDEX :: u32 where "VFIO_PCI_MSIX_IRQ_INDEX = 2"

definition vfio_fpgaCreateEventHandle ::
  "host \<Rightarrow> bool \<Rightarrow> plugin \<Rightarrow> fpga_result \<times> ptr option \<times> plugin" where
  "vfio_fpgaCreateEventHandle H event_handle s =
     (if \<not> event_handle then (FPGA_INVALID_PARAM, None, s)
      else case pmalloc H s of (e, s) \<Rightarrow>
      if e = NULL then (FPGA_NO_MEMORY, None, s)
      else case psys H P_eventfd s of (fd, s) \<Rightarrow>
      if fd < 0 then (FPGA_EXCEPTION, None, s)
      else case psys H P_attr_init s of (r, s) \<Rightarrow>
      if r \<noteq> 0 then (FPGA_EXCEPTION, None, s)
      else case psys H P_attr_settype s of (r, s) \<Rightarrow>
      if r \<noteq> 0 then (FPGA_EXCEPTION, None, snd (psys H P_attr_destroy s))
      else case psys H P_mutex_init s of (r, s) \<Rightarrow>
      if r \<noteq> 0 then (FPGA_EXCEPTION, None, snd (psys H P_attr_destroy s))
      else (FPGA_OK, Some e, (snd (psys H P_attr_destroy s))\<lparr>pl_events := (pl_events s)(e \<mapsto>
              \<lparr>ve_magic = VFIO_EVENT_HANDLE_MAGIC, ve_fd = fd, ve_flags = 0\<rparr>)\<rparr>))"

definition vfio_fpgaDestroyEventHandle ::
  "host \<Rightarrow> ptr option \<Rightarrow> plugin \<Rightarrow> (fpga_result \<times> ptr option \<times> plugin) option" where
  "vfio_fpgaDestroyEventHandle H event_handle s =
     (case event_handle of
        None \<Rightarrow> Some (FPGA_INVALID_PARAM, None, s)
      | Some e \<Rightarrow> do {
          (w, s) \<leftarrow> event_handle_check_and_lock H e s;
          (case w of
             None \<Rightarrow> Some (FPGA_INVALID_PARAM, Some e, s)
           | Some w \<Rightarrow>
               (case psys H (P_close (ve_fd w)) s of (r, s) \<Rightarrow>
                if r < 0 then
                  Some (if r = - EBADF H then FPGA_INVALID_PARAM else FPGA_EXCEPTION, Some e, punlock H s)
                else Some (FPGA_OK, Some NULL,
                       (snd (psys H P_mutex_destroy (punlock H s)))
                         \<lparr>pl_events := (pl_events s)(e := None)\<rparr>)))
        })"

definition vfio_fpgaGetOSObjectFromEventHandle ::
  "host \<Rightarrow> ptr \<Rightarrow> bool \<Rightarrow> plugin \<Rightarrow> (fpga_result \<times> int option \<times> plugin) option" where
  "vfio_fpgaGetOSObjectFromEventHandle H eh fd s =
     (if eh = NULL \<or> \<not> fd then Some (FPGA_INVALID_PARAM, None, s)
      else do {
        (w, s) \<leftarrow> event_handle_check_and_lock H eh s;
        (case w of
           None \<Rightarrow> Some (FPGA_INVALID_PARAM, None, s)
         | Some w \<Rightarrow> Some (FPGA_OK, Some (ve_fd w), punlock H s))
      })"

definition register_event ::
  "host \<Rightarrow> vfio_handle \<Rightarrow> event_type \<Rightarrow> ptr \<Rightarrow> vfio_event_handle \<Rightarrow> u32 \<Rightarrow> plugin \<Rightarrow>
     (fpga_result \<times> plugin) option" where
  "register_event H h ty e w flags s =
     (case ty of
        FPGA_EVENT_ERROR \<Rightarrow> Some (FPGA_NOT_SUPPORTED, s)
      | FPGA_EVENT_INTERRUPT \<Rightarrow> do {
          let s = s\<lparr>pl_events := (pl_events s)(e \<mapsto> w\<lparr>ve_flags := flags\<rparr>)\<rparr>;
          v \<leftarrow> pl_vfios s (vp_device (vh_pair h));
          (case opae_vfio_irq_enable (os H) (Some v) VFIO_PCI_MSIX_IRQ_INDEX flags (ve_fd w) (pl_trace s) of
             (r, t) \<Rightarrow> Some (if r \<noteq> 0 then FPGA_EXCEPTION else FPGA_OK, s\<lparr>pl_trace := t\<rparr>))
        }
      | FPGA_EVENT_POWER_THERMAL \<Rightarrow> Some (FPGA_NOT_SUPPORTED, s)
      | Other_Event \<Rightarrow> Some (FPGA_EXCEPTION, s))"

definition unregister_event ::
  "host \<Rightarrow> vfio_handle \<Rightarrow> event_type \<Rightarrow> vfio_event_handle \<Rightarrow> plugin \<Rightarrow> (fpga_result \<times> plugin) option" where
  "unregister_event H h ty w s =
     (case ty of
        FPGA_EVENT_ERROR \<Rightarrow> Some (FPGA_NOT_SUPPORTED, s)
      | FPGA_EVENT_INTERRUPT \<Rightarrow> do {
          v \<leftarrow> pl_vfios s (vp_device (vh_pair h));
          (case opae_vfio_irq_disable (os H) (Some v) VFIO_PCI_MSIX_IRQ_INDEX (ve_flags w) (pl_trace s) of
             (r, t) \<Rightarrow> Some (if r \<noteq> 0 then FPGA_EXCEPTION else FPGA_OK, s\<lparr>pl_trace := t\<rparr>))
        }
      | FPGA_EVENT_POWER_THERMAL \<Rightarrow> Some (FPGA_NOT_SUPPORTED, s)
      | Other_Event \<Rightarrow> Some (FPGA_EXCEPTION, s))"

text \<open>
  With an invalid event handle the result is the initial \<^verbatim>\<open>FPGA_OK\<close>.
\<close>

definition vfio_fpgaRegisterEvent ::
  "host \<Rightarrow> ptr \<Rightarrow> event_type \<Rightarrow> ptr \<Rightarrow> u32 \<Rightarrow> plugin \<Rightarrow> (fpga_result \<times> plugin) option" where
  "vfio_fpgaRegisterEvent H handle ty eh flags s =
     (if handle = NULL \<or> eh = NULL then Some (FPGA_INVALID_PARAM, s)
      else do {
        (h, s) \<leftarrow> handle_check_and_lock H handle s;
        (case h of
           None \<Rightarrow> Some (FPGA_INVALID_PARAM, s)
         | Some h \<Rightarrow> do {
             (w, s) \<leftarrow> event_handle_check_and_lock H eh s;
             (case w of
                None \<Rightarrow> Some (FPGA_OK, punlock H s)
              | Some w \<Rightarrow> do {
                  (res, s) \<leftarrow> register_event H h ty eh w flags s;
                  Some (res, punlock H (punlock H s))
                })
           })
      })"

definition vfio_fpgaUnregisterEvent ::
  "host \<Rightarrow> ptr \<Rightarrow> event_type \<Rightarrow> ptr \<Rightarrow> plugin \<Rightarrow> (fpga_result \<times> plugin) option" where
  "vfio_fpgaUnregisterEvent H handle ty eh s =
     (if handle = NULL \<or> eh = NULL then Some (FPGA_INVALID_PARAM, s)
      else do {
        (h, s) \<leftarrow> handle_check_and_lock H handle s;
        (case h of
           None \<Rightarrow> Some (FPGA_INVALID_PARAM, s)
         | Some h \<Rightarrow> do {
             (w, s) \<leftarrow> event_handle_check_and_lock H eh s;
             (case w of
                None \<Rightarrow> Some (FPGA_OK, punlock H s)
              | Some w \<Rightarrow> do {
                  (res, s) \<leftarrow> unregister_event H h ty w s;
                  Some (res, punlock H (punlock H s))
                })
           })
      })"

end
