(* ===== verification/Vfio_Correct.thy ===== *)
theory Vfio_Correct
  imports Vfio
begin

section \<open>Correctness of the VFIO device library\<close>

text \<open>
  Rounding of sizes, the invariant that ties the buffers of a device to its allocator of IOVA
  addresses, sessions, and the properties of the operations.
\<close>

subsection \<open>Rounding a size up to whole pages\<close>

lemma and_not_low:
  fixes w :: u64
  shows "w AND NOT (2 ^ k - 1) = w - take_bit k w"
proof -
  have "w - (w AND mask k) = w AND NOT (w AND mask k)"
    by (rule disjunctive_diff_eq_and_not) (simp add: bit_eq_iff bit_simps)
  also have "\<dots> = w AND NOT (mask k)"
    by (auto simp: bit_eq_iff bit_simps)
  finally show ?thesis by (simp add: take_bit_eq_mask mask_eq_exp_minus_1)
qed

lemma unat_and_not_low:
  fixes w :: u64
  shows "unat (w AND NOT (2 ^ k - 1)) = unat w div 2 ^ k * 2 ^ k"
proof -
  have t: "unat (take_bit k w) = unat w mod 2 ^ k"
    by (metis take_bit_eq_mod unsigned_take_bit_eq)
  then have "take_bit k w \<le> w" by (simp add: word_le_nat_alt)
  then show ?thesis
    by (simp add: and_not_low unat_sub_le t minus_mod_eq_div_mult)
qed

lemma unat_pow2:
  assumes "k < 64"
  shows "unat (2 ^ k :: u64) = 2 ^ k"
proof -
  have "(2 :: nat) ^ k < 2 ^ 64" using assms by (intro power_strict_increasing) simp_all
  then have "unat (of_nat (2 ^ k) :: u64) = 2 ^ k" by (simp add: unat_of_nat del: of_nat_power)
  then show ?thesis by simp
qed

lemma round_size_nat:
  assumes "k < 64" "sz \<noteq> 0"
  shows "unat (round_size (2 ^ k) sz) = (2 ^ k + (unat sz - 1) div 2 ^ k * 2 ^ k) mod 2 ^ 64"
proof -
  have "unat (sz - 1) = unat sz - 1"
    using assms(2) by (simp add: unat_minus_one)
  moreover have "unat (2 ^ k :: u64) = 2 ^ k"
    by (rule unat_pow2 [OF assms(1)])
  ultimately show ?thesis
    by (simp add: round_size_def unat_word_ariths unat_and_not_low)
qed

text \<open>Whole pages, enough of them and no page too many.\<close>

lemma round_up_nat:
  fixes n p :: nat
  assumes "0 < n" "0 < p"
  shows "n \<le> p + (n - 1) div p * p" "p + (n - 1) div p * p < n + p"
    "p dvd p + (n - 1) div p * p"
proof -
  have e: "(n - 1) div p * p + (n - 1) mod p = n - 1" by simp
  have m: "(n - 1) mod p < p" using assms(2) by simp
  show "n \<le> p + (n - 1) div p * p" using e m assms(1) by linarith
  show "p + (n - 1) div p * p < n + p" using e assms(1) by linarith
qed simp

lemma round_size_ok:
  assumes "k < 64" "sz \<noteq> 0" "unat sz \<le> 2 ^ 64 - 2 ^ k"
  shows "unat sz \<le> unat (round_size (2 ^ k) sz)"
    "unat (round_size (2 ^ k) sz) < unat sz + 2 ^ k"
    "2 ^ k dvd unat (round_size (2 ^ k) sz)"
proof -
  let ?n = "2 ^ k + (unat sz - 1) div 2 ^ k * 2 ^ k :: nat"
  have pos: "0 < unat sz" using assms(2) by (simp add: unat_gt_0)
  note up = round_up_nat [OF pos, of "2 ^ k"]
  have le: "(2 :: nat) ^ k \<le> 2 ^ 64" using assms(1) by (intro power_increasing) simp_all
  have dvd64: "(2 :: nat) ^ k dvd 2 ^ 64" using assms(1) by (intro le_imp_power_dvd) simp
  have "?n < 2 ^ 64"
  proof -
    have "(unat sz - 1) div 2 ^ k < (2 ^ 64 - 2 ^ k) div 2 ^ k"
    proof -
      have "unat sz - 1 < 2 ^ 64 - 2 ^ k" using pos assms(3) by linarith
      moreover have "(2 :: nat) ^ k dvd 2 ^ 64 - 2 ^ k" using dvd64 by (simp add: dvd_diff_nat)
      ultimately show ?thesis
        by (metis dvd_div_mult_self less_mult_imp_div_less)
    qed
    then have "(unat sz - 1) div 2 ^ k * 2 ^ k + 2 ^ k \<le> (2 ^ 64 - 2 ^ k) div 2 ^ k * 2 ^ k"
      by (metis Suc_leI add.commute mult_Suc mult_le_mono1)
    also have "\<dots> \<le> 2 ^ 64 - 2 ^ k" by simp
    also have "\<dots> < 2 ^ 64" by simp
    finally show ?thesis by simp
  qed
  then have n: "unat (round_size (2 ^ k) sz) = ?n"
    using round_size_nat [OF assms(1,2)] by simp
  show "unat sz \<le> unat (round_size (2 ^ k) sz)"
    "unat (round_size (2 ^ k) sz) < unat sz + 2 ^ k"
    "2 ^ k dvd unat (round_size (2 ^ k) sz)"
    unfolding n using up by simp_all
qed

text \<open>Beyond that the sum wraps: the size becomes 0.\<close>

lemma round_size_wraps:
  assumes "k < 64" "2 ^ 64 - 2 ^ k < unat sz"
  shows "round_size (2 ^ k) sz = 0"
proof -
  have sz: "sz \<noteq> 0" using assms(2) by auto
  have dvd64: "(2 :: nat) ^ k dvd 2 ^ 64" using assms(1) by (intro le_imp_power_dvd) simp
  have le: "(2 :: nat) ^ k \<le> 2 ^ 64" by (rule dvd_imp_le [OF dvd64]) simp
  have "(unat sz - 1) div 2 ^ k = (2 ^ 64 - 2 ^ k) div 2 ^ k"
  proof (rule div_nat_eqI)
    have e: "(2 ^ 64 - 2 ^ k) div 2 ^ k * 2 ^ k = (2 ^ 64 - 2 ^ k :: nat)"
      using dvd64 by (simp add: dvd_diff_nat)
    show "2 ^ k * ((2 ^ 64 - 2 ^ k) div 2 ^ k) \<le> unat sz - 1"
      unfolding mult.commute [of "2 ^ k"] e using assms(2) by linarith
    show "unat sz - 1 < 2 ^ k * Suc ((2 ^ 64 - 2 ^ k) div 2 ^ k)"
      using e le less_imp_diff_less [OF unat_less_64, of sz 1] by (simp add: mult.commute)
  qed
  then have "(unat sz - 1) div 2 ^ k * 2 ^ k = (2 ^ 64 - 2 ^ k :: nat)"
    using dvd64 by (simp add: dvd_diff_nat)
  then have "unat (round_size (2 ^ k) sz) = 0"
    using round_size_nat [OF assms(1) sz] le by simp
  then show ?thesis by (simp add: unat_eq_0)
qed


subsection \<open>What a request for a buffer does\<close>

text \<open>The window of IOVA addresses that belongs to a buffer.\<close>

definition window :: "vfio_buffer \<Rightarrow> mem_link" where
  "window b = mem_link_alloc (buffer_iova b) (buffer_size b)"

lemma allocate_cases:
  assumes "buffer_allocate E v sz wb wi t = (res, v', t')"
  obtains (early) "ar_code res \<in> {2, 3}" "v' = v" "ar_buf res = None" "ar_iova res = None"
  | (full) ok r io m where
      "mem_alloc_get ok (iova_alloc v) (round_size (page_size E) sz) = (r, io, m)" "r \<noteq> 0"
      "sz \<noteq> 0" "ar_code res = 4" "v' = v\<lparr>iova_alloc := m\<rparr>"
      "ar_buf res = None" "ar_iova res = None"
  | (lost) ok io m where
      "mem_alloc_get ok (iova_alloc v) (round_size (page_size E) sz) = (0, io, m)"
      "sz \<noteq> 0" "ar_code res \<in> {5, 6}" "v' = v\<lparr>iova_alloc := m\<rparr>"
      "ar_buf res = None" "ar_iova res = None"
  | (handed) ok io m va where
      "mem_alloc_get ok (iova_alloc v) (round_size (page_size E) sz) = (0, io, m)"
      "sz \<noteq> 0" "ar_code res = 0" "ar_size res = round_size (page_size E) sz"
      "ar_buf res = (if wb then Some va else None)"
      "ar_iova res = (if wi then Some (case io of None \<Rightarrow> 0 | Some a \<Rightarrow> a) else None)"
      "v' = v\<lparr>iova_alloc := m,
              cont_buffers := \<lparr>buffer_ptr = va, buffer_size = round_size (page_size E) sz,
                               buffer_iova = (case io of None \<Rightarrow> 0 | Some a \<Rightarrow> a)\<rparr>
                              # cont_buffers v\<rparr>"
proof (cases "sz = 0 \<or> ans E t C_lock \<noteq> 0")
  case True
  then show thesis
    using assms early by (auto simp: buffer_allocate_def sys_def alloc_fail_def split: if_splits)
next
  case False
  let ?sz = "round_size (page_size E) sz"
  obtain ok t1 where 1: "malloc E (C_lock # t) = (ok, t1)" by fastforce
  obtain r io m where 2: "mem_alloc_get ok (iova_alloc v) ?sz = (r, io, m)" by (metis prod_cases3)
  have res: "opae_vfio_iova_reserve E v sz (C_lock # t) =
      (r, ?sz, io, v\<lparr>iova_alloc := m\<rparr>, t1)"
    using 1 2 by (simp add: opae_vfio_iova_reserve_def Let_def)
  obtain ioaddr where io: "(case io of None \<Rightarrow> 0 | Some a \<Rightarrow> a) = ioaddr" by simp
  obtain va t2 where 3: "mmap E 0 ?sz (map_flags_for ?sz) 0 0 t1 = (va, t2)" by fastforce
  note un = buffer_allocate_def sys_def alloc_fail_def res
  show thesis
  proof (cases "r = 0")
    case nz: False
    with assms False have "ar_code res = 4" "v' = v\<lparr>iova_alloc := m\<rparr>"
        "ar_buf res = None" "ar_iova res = None" by (auto simp: un)
    with 2 nz False show thesis by (intro full) auto
  next
    case True
    note 2 = 2 [unfolded True]
    show thesis
    proof (cases va)
      case None
      with assms False True 3 have "ar_code res = 5" "v' = v\<lparr>iova_alloc := m\<rparr>"
        "ar_buf res = None" "ar_iova res = None" by (auto simp: un)
      with 2 False show thesis by (intro lost) auto
    next
      case (Some va)
      let ?c = "C_dma_map (cont_fd v) va ?sz ioaddr"
      obtain b t3 where 4: "opae_vfio_create_buffer E va ?sz ioaddr (?c # t2) = (b, t3)" by fastforce
      show thesis
      proof (cases "ans E t2 ?c < 0 \<or> b = None")
        case bad: True
        then have "ar_code res \<in> {5, 6}" "v' = v\<lparr>iova_alloc := m\<rparr>"
            "ar_buf res = None" "ar_iova res = None"
          using assms False True 3 4 Some by (auto simp: un io split: if_splits)
        with 2 False show thesis by (intro lost) auto
      next
        case good: False
        then obtain b' where "b = Some b'" by auto
        then have b: "b = Some \<lparr>buffer_ptr = va, buffer_size = ?sz, buffer_iova = ioaddr\<rparr>"
          using create_buffer_ledger [OF 4] by simp
        show thesis
          by (rule handed [OF 2])
            (use assms False True 3 4 Some b good in \<open>auto simp: un io\<close>)
      qed
    qed
  qed
qed

subsection \<open>The invariant of an open device\<close>

text \<open>
  \<open>D\<close> is the space of addresses the device may use. The allocator is well formed inside \<open>D\<close> and
  the windows of the buffers are live blocks of it, each of them once.
\<close>

definition space_inv :: "nat set \<Rightarrow> mem_alloc \<Rightarrow> mem_link list \<Rightarrow> bool" where
  "space_inv D m ws \<longleftrightarrow>
     mem_alloc_inv m \<and> space (ma_free m) \<union> space (ma_allocated m) \<subseteq> D \<and>
     set ws \<subseteq> set (ma_allocated m) \<and> distinct ws"

definition vfio_inv :: "nat set \<Rightarrow> opae_vfio \<Rightarrow> bool" where
  "vfio_inv D v \<longleftrightarrow> space_inv D (iova_alloc v) (map window (cont_buffers v))"

lemma get_step_new:
  assumes inv: "mem_alloc_inv m" and sz: "0 < sz" and g: "mem_alloc_get ok m sz = (0, io, m')"
  shows "\<exists>a. io = Some a \<and> mem_alloc_inv m' \<and>
    ma_allocated m' = ma_allocated m @ [mem_link_alloc a sz] \<and>
    mem_link_alloc a sz \<notin> set (ma_allocated m) \<and>
    block (mem_link_alloc a sz) \<subseteq> space (ma_free m) \<and>
    space (ma_free m') = space (ma_free m) - block (mem_link_alloc a sz)"
proof -
  obtain a where a: "io = Some a" "mem_alloc_inv m'"
      "ma_allocated m' = ma_allocated m @ [mem_link_alloc a sz]"
      "block (mem_link_alloc a sz) \<subseteq> space (ma_free m)"
      "space (ma_free m') = space (ma_free m) - block (mem_link_alloc a sz)"
    using get_cases [OF inv sz g] get_inv [OF inv sz] by fastforce
  have "distinct (ma_allocated m')" by (rule inv_distinct [OF a(2)])
  with a show ?thesis by simp
qed

lemma get_space_inv:
  assumes "space_inv D m ws" "0 < sz" "mem_alloc_get ok m sz = (0, io, m')"
  shows "\<exists>a. io = Some a \<and> space_inv D m' ws \<and> space_inv D m' (mem_link_alloc a sz # ws)"
proof -
  have m: "mem_alloc_inv m" "space (ma_free m) \<union> space (ma_allocated m) \<subseteq> D"
      "set ws \<subseteq> set (ma_allocated m)" "distinct ws"
    using assms(1) by (simp_all add: space_inv_def)
  from get_step_new [OF m(1) assms(2,3)] obtain a where a: "io = Some a" "mem_alloc_inv m'"
      "ma_allocated m' = ma_allocated m @ [mem_link_alloc a sz]"
      "mem_link_alloc a sz \<notin> set (ma_allocated m)"
      "block (mem_link_alloc a sz) \<subseteq> space (ma_free m)"
      "space (ma_free m') = space (ma_free m) - block (mem_link_alloc a sz)" by blast
  have "space (ma_free m') \<union> space (ma_allocated m') \<subseteq> D" using m(2) a(3,5,6) by auto
  moreover have "set ws \<subseteq> set (ma_allocated m')" using m(3) a(3) by auto
  moreover have "mem_link_alloc a sz \<notin> set ws" using m(3) a(4) by auto
  ultimately show ?thesis using a(1,2,3) m(4) by (simp add: space_inv_def)
qed

lemma round_size_pos:
  assumes "page_size E = 2 ^ k" "k < 64" "sz \<noteq> 0" "unat sz \<le> 2 ^ 64 - 2 ^ k"
  shows "0 < round_size (page_size E) sz"
proof -
  have "0 < unat sz" using assms(3) by (simp add: unat_gt_0)
  then have "0 < unat (round_size (page_size E) sz)"
    using round_size_ok(1) [OF assms(2-4)] assms(1) by simp
  then show ?thesis by (simp add: word_less_nat_alt)
qed

definition good_size :: "env \<Rightarrow> u64 \<Rightarrow> bool" where
  "good_size E sz \<longleftrightarrow> unat sz + unat (page_size E) \<le> 2 ^ 64"

lemma good_size_le:
  assumes "page_size E = 2 ^ k" "k < 64" "good_size E sz"
  shows "unat sz \<le> 2 ^ 64 - 2 ^ k"
  using assms unat_pow2 [OF assms(2)] by (simp add: good_size_def)

lemma good_size_pos:
  assumes "page_size E = 2 ^ k" "k < 64" "good_size E sz" "sz \<noteq> 0"
  shows "0 < round_size (page_size E) sz"
  using round_size_pos [OF assms(1,2,4) good_size_le [OF assms(1-3)]] .

lemma allocate_inv:
  assumes inv: "vfio_inv D v" and page: "page_size E = 2 ^ k" "k < 64" and sz: "good_size E sz"
    and a: "buffer_allocate E v sz wb wi t = (res, v', t')"
  shows "vfio_inv D v'"
  using a
proof (cases rule: allocate_cases)
  case early
  with inv show ?thesis by simp
next
  case (full ok r io m)
  have "0 < round_size (page_size E) sz" by (rule good_size_pos [OF page sz full(3)])
  with full(1,2) inv have "m = iova_alloc v"
    using get_cases by (fastforce simp: vfio_inv_def space_inv_def)
  with full inv show ?thesis by simp
next
  case (lost ok io m)
  have "0 < round_size (page_size E) sz" by (rule good_size_pos [OF page sz lost(2)])
  from get_space_inv [OF inv [unfolded vfio_inv_def] this lost(1)] lost(4) show ?thesis
    by (auto simp: vfio_inv_def)
next
  case (handed ok io m va)
  have "0 < round_size (page_size E) sz" by (rule good_size_pos [OF page sz handed(2)])
  from get_space_inv [OF inv [unfolded vfio_inv_def] this handed(1)] handed(7) show ?thesis
    by (auto simp: vfio_inv_def window_def)
qed

lemma unlink_buffer_Some:
  "unlink_buffer p bs = Some (b, rest) \<Longrightarrow>
   \<exists>pre post. bs = pre @ b # post \<and> rest = pre @ post \<and> buffer_ptr b = p \<and>
     p \<notin> buffer_ptr ` set pre"
proof (induction bs arbitrary: rest)
  case (Cons x bs)
  show ?case
  proof (cases "buffer_ptr x = p")
    case True
    with Cons.prems show ?thesis by (intro exI [of _ "[]"] exI [of _ bs]) auto
  next
    case False
    then obtain rest' where r: "unlink_buffer p bs = Some (b, rest')" "rest = x # rest'"
      using Cons.prems by (auto split: if_splits)
    from Cons.IH [OF r(1)] obtain pre post where "bs = pre @ b # post" "rest' = pre @ post"
      "buffer_ptr b = p" "p \<notin> buffer_ptr ` set pre" by auto
    with False r(2) show ?thesis by (intro exI [of _ "x # pre"] exI [of _ post]) auto
  qed
qed simp

lemma free_cases:
  assumes "buffer_free E v p t = (r, v', t')"
  obtains (locked) "r = 2" "v' = v"
  | (unknown) "r = 3" "v' = v" "unlink_buffer p (cont_buffers v) = None"
  | (freed) b bs ok where "r = 0" "unlink_buffer p (cont_buffers v) = Some (b, bs)"
      "v' = v\<lparr>cont_buffers := bs,
              iova_alloc := snd (mem_alloc_put ok (iova_alloc v) (buffer_iova b))\<rparr>"
proof (cases "ans E t C_lock = 0")
  case True
  show thesis
  proof (cases "unlink_buffer p (cont_buffers v)")
    case None
    with assms True show thesis by (intro unknown) (simp_all add: buffer_free_def sys_def)
  next
    case (Some x)
    obtain b bs where x: "x = (b, bs)" by fastforce
    obtain ok t1 where "malloc E (C_munmap (buffer_ptr b) (buffer_size b) #
        C_dma_unmap (cont_fd v) (buffer_size b) (buffer_iova b) # C_lock # t) = (ok, t1)" by fastforce
    with assms True Some x show thesis
      by (intro freed [of b bs ok]) (auto simp: buffer_free_def sys_def)
  qed
next
  case False
  with assms show thesis by (intro locked) (simp_all add: buffer_free_def sys_def)
qed

lemma put_window:
  assumes "mem_alloc_inv m" "window b \<in> set (ma_allocated m)"
  shows "mem_alloc_inv (snd (mem_alloc_put ok m (buffer_iova b)))"
    "ma_allocated (snd (mem_alloc_put ok m (buffer_iova b))) = remove1 (window b) (ma_allocated m)"
    "space (ma_free (snd (mem_alloc_put ok m (buffer_iova b)))) \<union>
       space (ma_allocated (snd (mem_alloc_put ok m (buffer_iova b)))) \<subseteq>
     space (ma_free m) \<union> space (ma_allocated m)"
proof -
  have a: "ml_address (window b) = buffer_iova b" by (simp add: window_def mem_link_alloc_def)
  obtain r m' where p: "mem_alloc_put ok m (buffer_iova b) = (r, m')" by fastforce
  from put_step [OF assms(1) p] p
  show "mem_alloc_inv (snd (mem_alloc_put ok m (buffer_iova b)))"
    "space (ma_free (snd (mem_alloc_put ok m (buffer_iova b)))) \<union>
       space (ma_allocated (snd (mem_alloc_put ok m (buffer_iova b)))) \<subseteq>
     space (ma_free m) \<union> space (ma_allocated m)" by simp_all
  show "ma_allocated (snd (mem_alloc_put ok m (buffer_iova b))) =
      remove1 (window b) (ma_allocated m)"
  proof (cases ok)
    case True
    with p a put_inv(3) [OF assms] show ?thesis by simp
  next
    case False
    with put_oom [OF assms] a show ?thesis by simp
  qed
qed

lemma put_space_inv:
  assumes "space_inv D m (pre @ window b # post)"
  shows "space_inv D (snd (mem_alloc_put ok m (buffer_iova b))) (pre @ post)"
proof -
  have m: "mem_alloc_inv m" "window b \<in> set (ma_allocated m)"
      "set (pre @ post) \<subseteq> set (ma_allocated m)" "window b \<notin> set (pre @ post)"
      "distinct (pre @ post)" "space (ma_free m) \<union> space (ma_allocated m) \<subseteq> D"
    using assms by (auto simp: space_inv_def)
  note p = put_window [OF m(1,2), of ok]
  have "set (pre @ post) \<subseteq> set (remove1 (window b) (ma_allocated m))"
    using m(3,4) inv_distinct [OF m(1)] by auto
  then show ?thesis using p(1,2) subset_trans [OF p(3) m(6)] m(5) by (simp add: space_inv_def)
qed

lemma free_inv:
  assumes inv: "vfio_inv D v" and f: "buffer_free E v p t = (r, v', t')"
  shows "vfio_inv D v'"
  using f
proof (cases rule: free_cases)
  case (freed b bs ok)
  from unlink_buffer_Some [OF freed(2)] obtain pre post
    where bs: "cont_buffers v = pre @ b # post" "bs = pre @ post" by auto
  have "space_inv D (iova_alloc v) (map window pre @ window b # map window post)"
    using inv bs by (simp add: vfio_inv_def)
  from put_space_inv [OF this, of ok] bs(2) freed(3) show ?thesis by (simp add: vfio_inv_def)
qed (use inv in simp_all)

text \<open>What the invariant says of the buffers: their windows are apart and inside the space.\<close>

lemma distinct_windows_apart:
  assumes "distinct ws" "set ws \<subseteq> set xs" "sorted_wrt (\<lambda>a b. block a \<inter> block b = {}) xs"
  shows "sorted_wrt (\<lambda>a b. block a \<inter> block b = {}) ws"
proof -
  have apart: "block a \<inter> block b = {}" if ab: "a \<in> set xs" "b \<in> set xs" "a \<noteq> b" for a b
  proof -
    obtain i where i: "i < length xs" "xs ! i = a" using ab(1) unfolding in_set_conv_nth by blast
    obtain j where j: "j < length xs" "xs ! j = b" using ab(2) unfolding in_set_conv_nth by blast
    consider "i < j" | "j < i" using i j ab(3) by force
    then show ?thesis
    proof cases
      case 1
      from sorted_wrt_nth_less [OF assms(3) 1 j(1)] i j show ?thesis by simp
    next
      case 2
      from sorted_wrt_nth_less [OF assms(3) 2 i(1)] i j show ?thesis by blast
    qed
  qed
  show ?thesis
    using assms(1,2) apart by (induction ws) auto
qed

lemma inv_windows:
  assumes "vfio_inv D v"
  shows "sorted_wrt (\<lambda>a b. block (window a) \<inter> block (window b) = {}) (cont_buffers v)"
    "\<forall>b\<in>set (cont_buffers v). block (window b) \<subseteq> D \<and> wf_link (window b)"
proof -
  let ?m = "iova_alloc v"
  have i: "mem_alloc_inv ?m" "space (ma_allocated ?m) \<subseteq> D"
      "set (map window (cont_buffers v)) \<subseteq> set (ma_allocated ?m)"
      "distinct (map window (cont_buffers v))"
    using assms by (simp_all add: vfio_inv_def space_inv_def)
  have "sorted_wrt (\<lambda>a b. block a \<inter> block b = {}) (map window (cont_buffers v))"
    using i(1) by (intro distinct_windows_apart [OF i(4,3)]) (simp add: mem_alloc_inv_def)
  then show "sorted_wrt (\<lambda>a b. block (window a) \<inter> block (window b) = {}) (cont_buffers v)"
    by (simp add: sorted_wrt_map)
  have "block (window b) \<subseteq> space (ma_allocated ?m) \<and> wf_link (window b)"
    if "b \<in> set (cont_buffers v)" for b
  proof -
    have w: "window b \<in> set (ma_allocated ?m)" using i(3) that by auto
    moreover have "block (window b) \<subseteq> space (ma_allocated ?m)" using w by (auto simp: space_def)
    ultimately show ?thesis using i(1) by (simp add: mem_alloc_inv_def)
  qed
  with i(2) show "\<forall>b\<in>set (cont_buffers v). block (window b) \<subseteq> D \<and> wf_link (window b)" by blast
qed


subsection \<open>Discovering the ranges of IOVA addresses\<close>

definition range_link :: "iova_range \<Rightarrow> mem_link" where
  "range_link r = mem_link_alloc (range_start r) (range_end r + 1 - range_start r)"

definition range_set :: "iova_range \<Rightarrow> nat set" where
  "range_set r = {unat (range_start r) .. unat (range_end r)}"

definition ranges_space :: "iova_range list \<Rightarrow> nat set" where
  "ranges_space rs = (\<Union>r\<in>set rs. range_set r)"

text \<open>
  What the kernel promises of the ranges it reports: they are not empty, do not overlap and
  stop short of the last address.
\<close>

definition good_ranges :: "iova_range list \<Rightarrow> bool" where
  "good_ranges rs \<longleftrightarrow>
     (\<forall>r\<in>set rs. range_start r \<le> range_end r \<and> range_end r \<noteq> - 1) \<and>
     sorted_wrt (\<lambda>a b. range_set a \<inter> range_set b = {}) rs"

lemma ranges_space_simps [simp]:
  "ranges_space [] = {}"
  "ranges_space (r # rs) = range_set r \<union> ranges_space rs"
  "ranges_space (xs @ ys) = ranges_space xs \<union> ranges_space ys"
  by (auto simp: ranges_space_def)

lemma range_link_ok:
  assumes "range_start r \<le> range_end r" "range_end r \<noteq> - 1"
  shows "wf_link (range_link r)" "block (range_link r) = range_set r"
proof -
  have "range_end r + 1 \<noteq> 0" using assms(2) by (metis add.inverse_inverse eq_neg_iff_add_eq_0)
  then have e: "unat (range_end r + 1) = Suc (unat (range_end r))"
    by (simp add: unatSuc add.commute [of _ 1])
  then have "range_start r \<le> range_end r + 1"
    using assms(1) by (simp add: word_le_nat_alt)
  then have s: "unat (range_end r + 1 - range_start r) = Suc (unat (range_end r)) - unat (range_start r)"
    using e by (simp add: unat_sub_le)
  have le: "unat (range_start r) \<le> unat (range_end r)" using assms(1) by (simp add: word_le_nat_alt)
  have lt: "Suc (unat (range_end r)) < 2 ^ 64"
    using unsigned_less [of "range_end r + 1 :: u64", where 'a = nat] e by simp
  show "wf_link (range_link r)"
    using s le lt by (simp add: wf_link_def range_link_def mem_link_alloc_def hi_def)
  show "block (range_link r) = range_set r"
    using s le by (auto simp: block_def range_link_def mem_link_alloc_def hi_def lo_def range_set_def)
qed

definition mallocs :: "env \<Rightarrow> bool" where
  "mallocs E \<longleftrightarrow> (\<forall>t. ans E t C_malloc \<noteq> 0)"

definition donated :: "env \<Rightarrow> mem_alloc \<Rightarrow> iova_range list \<Rightarrow> mem_alloc \<Rightarrow> bool" where
  "donated E m rs m' \<longleftrightarrow>
     (mem_alloc_inv m \<and> ma_allocated m = [] \<and> good_ranges rs \<and>
      ranges_space rs \<inter> space (ma_free m) = {} \<longrightarrow>
      mem_alloc_inv m' \<and> ma_allocated m' = [] \<and>
      space (ma_free m') \<subseteq> space (ma_free m) \<union> ranges_space rs \<and>
      (mallocs E \<longrightarrow> space (ma_free m') = space (ma_free m) \<union> ranges_space rs))"

lemma good_ranges_append:
  "good_ranges (xs @ ys) \<longleftrightarrow>
     good_ranges xs \<and> good_ranges ys \<and> ranges_space xs \<inter> ranges_space ys = {}"
  by (auto simp: good_ranges_def sorted_wrt_append ranges_space_def)

lemma donated_refl: "donated E m [] m"
  by (simp add: donated_def)

lemma donated_trans:
  assumes "donated E m xs m1" "donated E m1 ys m2"
  shows "donated E m (xs @ ys) m2"
  unfolding donated_def
proof (intro impI)
  assume pre: "mem_alloc_inv m \<and> ma_allocated m = [] \<and> good_ranges (xs @ ys) \<and>
      ranges_space (xs @ ys) \<inter> space (ma_free m) = {}"
  then have g: "good_ranges xs" "good_ranges ys" "ranges_space xs \<inter> ranges_space ys = {}"
      "ranges_space xs \<inter> space (ma_free m) = {}" "ranges_space ys \<inter> space (ma_free m) = {}"
    by (auto simp: good_ranges_append)
  with assms(1) pre have 1: "mem_alloc_inv m1" "ma_allocated m1 = []"
      "space (ma_free m1) \<subseteq> space (ma_free m) \<union> ranges_space xs"
      "mallocs E \<longrightarrow> space (ma_free m1) = space (ma_free m) \<union> ranges_space xs"
    by (simp_all add: donated_def)
  then have "ranges_space ys \<inter> space (ma_free m1) = {}" using g by blast
  with assms(2) 1 g(2) have "mem_alloc_inv m2" "ma_allocated m2 = []"
      "space (ma_free m2) \<subseteq> space (ma_free m1) \<union> ranges_space ys"
      "mallocs E \<longrightarrow> space (ma_free m2) = space (ma_free m1) \<union> ranges_space ys"
    by (simp_all add: donated_def)
  with 1(3,4) show "mem_alloc_inv m2 \<and> ma_allocated m2 = [] \<and>
      space (ma_free m2) \<subseteq> space (ma_free m) \<union> ranges_space (xs @ ys) \<and>
      (mallocs E \<longrightarrow> space (ma_free m2) = space (ma_free m) \<union> ranges_space (xs @ ys))"
    by auto
qed

lemma donated_one:
  assumes "mallocs E \<longrightarrow> ok"
  shows "donated E m [r] (snd (mem_alloc_add_free ok m (range_start r)
           (range_end r + 1 - range_start r)))"
  unfolding donated_def
proof (intro impI)
  assume pre: "mem_alloc_inv m \<and> ma_allocated m = [] \<and> good_ranges [r] \<and>
      ranges_space [r] \<inter> space (ma_free m) = {}"
  then have r: "range_start r \<le> range_end r" "range_end r \<noteq> - 1"
    by (simp_all add: good_ranges_def)
  note w = range_link_ok [OF r]
  let ?x = "mem_alloc_add_free ok m (range_start r) (range_end r + 1 - range_start r)"
  show "mem_alloc_inv (snd ?x) \<and> ma_allocated (snd ?x) = [] \<and>
      space (ma_free (snd ?x)) \<subseteq> space (ma_free m) \<union> ranges_space [r] \<and>
      (mallocs E \<longrightarrow> space (ma_free (snd ?x)) = space (ma_free m) \<union> ranges_space [r])"
  proof (cases ok)
    case True
    obtain c m' where x: "?x = (c, m')" by fastforce
    have "block (mem_link_alloc (range_start r) (range_end r + 1 - range_start r)) \<inter>
        (space (ma_free m) \<union> space (ma_allocated m)) = {}"
      using pre w(2) by (simp add: range_link_def)
    from add_free_inv [OF _ w(1) [unfolded range_link_def] this, of c m'] x True pre w(2)
    show ?thesis by (simp add: range_link_def)
  next
    case False
    with assms pre show ?thesis by (auto simp: mem_alloc_add_free_def)
  qed
qed

lemma add_ranges_donated:
  "add_ranges E rs m t = (nodes, m', t') \<Longrightarrow> donated E m nodes m'"
proof (induction E rs m t arbitrary: nodes m' t' rule: add_ranges.induct)
  case (2 E start stop rs m t)
  obtain ok t1 where 1: "malloc E t = (ok, t1)" by fastforce
  obtain ok2 t2 where 2: "malloc E t1 = (ok2, t2)" by fastforce
  show ?case
  proof (cases ok)
    case True
    let ?r = "\<lparr>range_start = start, range_end = stop\<rparr>"
    let ?m = "snd (mem_alloc_add_free ok2 m start (stop + 1 - start))"
    obtain ns m1 t3 where 3: "add_ranges E rs ?m t2 = (ns, m1, t3)" by (metis prod_cases3)
    have "donated E m [?r] ?m"
      using 2 donated_one [of E ok2 m ?r] by (auto simp: malloc_def mallocs_def)
    moreover have "donated E ?m ns m1"
      using "2.IH"(2) [OF 1 [symmetric] _ 2 [symmetric] 3] True by simp
    ultimately have "donated E m ([?r] @ ns) m1" by (rule donated_trans)
    moreover have "nodes = [?r] @ ns" "m' = m1" using "2.prems" 1 2 3 True by simp_all
    ultimately show ?thesis by simp
  next
    case False
    with 1 "2.prems" "2.IH"(1) show ?thesis by simp
  qed
qed (simp add: donated_refl)

lemma iova_walk_donated:
  assumes "iova_walk E caps off ranges m t = Some (ranges', m', t')"
  shows "\<exists>nodes. ranges' = ranges @ nodes \<and> donated E m nodes m'"
proof -
  have "\<exists>nodes. fst (ranges', m', t') = ranges @ nodes \<and>
      donated E m nodes (fst (snd (ranges', m', t')))"
    using assms
  proof (rule iova_walk.raw_induct [where P = "\<lambda>E caps off ranges m t y.
        \<exists>nodes. fst y = ranges @ nodes \<and> donated E m nodes (fst (snd y))", rotated])
    fix walk :: "env \<Rightarrow> (u32 \<Rightarrow> iova_cap) \<Rightarrow> u32 \<Rightarrow> iova_range list \<Rightarrow> mem_alloc \<Rightarrow> trace \<Rightarrow>
        (iova_range list \<times> mem_alloc \<times> trace) option"
      and E caps off ranges m t y
    assume IH: "\<And>E caps off ranges m t y. walk E caps off ranges m t = Some y \<Longrightarrow>
        \<exists>nodes. fst y = ranges @ nodes \<and> donated E m nodes (fst (snd y))"
    assume step: "(case (if ic_id (caps off) = VFIO_IOMMU_TYPE1_INFO_CAP_IOVA_RANGE E
            then add_ranges E (ic_ranges (caps off)) m t else ([], m, t)) of
        (nodes, m, t) \<Rightarrow>
          (if ic_next (caps off) = 0 then Some (ranges @ nodes, m, t)
           else walk E caps (ic_next (caps off)) (ranges @ nodes) m t)) = Some y"
    obtain ns m1 t1 where 1: "(if ic_id (caps off) = VFIO_IOMMU_TYPE1_INFO_CAP_IOVA_RANGE E
            then add_ranges E (ic_ranges (caps off)) m t else ([], m, t)) = (ns, m1, t1)"
      by (metis prod_cases3)
    then have d: "donated E m ns m1"
      by (auto simp: add_ranges_donated donated_refl split: if_splits)
    show "\<exists>nodes. fst y = ranges @ nodes \<and> donated E m nodes (fst (snd y))"
    proof (cases "ic_next (caps off) = 0")
      case True
      with step 1 d show ?thesis by auto
    next
      case False
      then have "walk E caps (ic_next (caps off)) (ranges @ ns) m1 t1 = Some y"
        using step 1 by simp
      from IH [OF this] obtain nodes where "fst y = (ranges @ ns) @ nodes"
        "donated E m1 nodes (fst (snd y))" by blast
      with donated_trans [OF d] show ?thesis by (intro exI [of _ "ns @ nodes"]) simp
    qed
  qed
  then show ?thesis by simp
qed

lemma discover_donated:
  assumes "opae_vfio_iova_discover E v t = Some (rs, v', t')"
  shows "donated E (iova_alloc v) rs (iova_alloc v')" "v' = v\<lparr>iova_alloc := iova_alloc v'\<rparr>"
  using assms
  by (auto simp: opae_vfio_iova_discover_def Let_def sys_def donated_refl
      split: if_splits prod.splits bind_splits dest!: iova_walk_donated)


text \<open>An open device satisfies the invariant, with the ranges the kernel reported as its space.\<close>

lemma init_state:
  assumes "opae_vfio_init E p tok t = Some (0, v, t')" "good_ranges (cont_ranges v)"
  shows "vfio_inv (ranges_space (cont_ranges v)) v" "cont_buffers v = []"
    "mallocs E \<Longrightarrow> space (ma_free (iova_alloc v)) = ranges_space (cont_ranges v)"
proof -
  obtain u t1 where u: "init_device E u p tok t1 = Some (0, v, t')"
      "iova_alloc u = mem_alloc_init" "cont_buffers u = []"
    by (rule init_success [OF assms(1)])
  obtain d t2 rs w t3 where w: "opae_vfio_iova_discover E (u\<lparr>v_device := d\<rparr>) t2 = Some (rs, w, t3)"
      "v = w\<lparr>cont_ranges := rs\<rparr>"
    by (rule init_device_success [OF u(1)])
  have buf: "cont_buffers w = []"
    using arg_cong [OF discover_donated(2) [OF w(1)], of cont_buffers] u(3) by simp
  then show "cont_buffers v = []" using w(2) by simp
  have "donated E mem_alloc_init rs (iova_alloc w)"
    using discover_donated(1) [OF w(1)] u(2) by simp
  moreover have "ma_allocated mem_alloc_init = []" "space (ma_free mem_alloc_init) = {}"
    by (simp_all add: mem_alloc_init_def)
  ultimately have "mem_alloc_inv (iova_alloc w)" "ma_allocated (iova_alloc w) = []"
      "space (ma_free (iova_alloc w)) \<subseteq> ranges_space rs"
      "mallocs E \<Longrightarrow> space (ma_free (iova_alloc w)) = ranges_space rs"
    using assms(2) w(2) mem_alloc_inv_init by (simp_all add: donated_def)
  then show "vfio_inv (ranges_space (cont_ranges v)) v"
    "mallocs E \<Longrightarrow> space (ma_free (iova_alloc v)) = ranges_space (cont_ranges v)"
    using w(2) buf by (simp_all add: vfio_inv_def space_inv_def)
qed

subsection \<open>Sessions\<close>

text \<open>The calls a client makes between opening and closing a device.\<close>

datatype vfio_op =
    Allocate u64 bool bool
  | Free u64
  | Irq_enable u32 u32 int
  | Irq_unmask u32 u32
  | Irq_mask u32 u32
  | Irq_disable u32 u32

fun vfio_exec :: "env \<Rightarrow> vfio_op \<Rightarrow> opae_vfio \<times> trace \<Rightarrow> opae_vfio \<times> trace" where
  "vfio_exec E (Allocate sz wb wi) (v, t) = snd (buffer_allocate E v sz wb wi t)"
| "vfio_exec E (Free p) (v, t) = snd (buffer_free E v p t)"
| "vfio_exec E (Irq_enable i j fd) (v, t) = (v, snd (opae_vfio_irq_enable E (Some v) i j fd t))"
| "vfio_exec E (Irq_unmask i j) (v, t) = (v, snd (opae_vfio_irq_unmask E (Some v) i j t))"
| "vfio_exec E (Irq_mask i j) (v, t) = (v, snd (opae_vfio_irq_mask E (Some v) i j t))"
| "vfio_exec E (Irq_disable i j) (v, t) = (v, snd (opae_vfio_irq_disable E (Some v) i j t))"

fun vfio_run :: "env \<Rightarrow> vfio_op list \<Rightarrow> opae_vfio \<times> trace \<Rightarrow> opae_vfio \<times> trace" where
  "vfio_run E [] s = s"
| "vfio_run E (op # ops) s = vfio_run E ops (vfio_exec E op s)"

fun good_op :: "env \<Rightarrow> vfio_op \<Rightarrow> bool" where
  "good_op E (Allocate sz _ _) = good_size E sz"
| "good_op E _ = True"

lemmas irq_defs = opae_vfio_irq_enable_def opae_vfio_irq_unmask_def opae_vfio_irq_mask_def
  opae_vfio_irq_disable_def irq_request_def

text \<open>The loop of the interrupt operations is a search for the first match.\<close>

lemma irq_loop_find:
  "irq_loop E fd qs index subindex flag request t =
     (case find (\<lambda>q. irq_index q = index \<and> irq_flags q AND flag \<noteq> 0) qs of
        None \<Rightarrow> (2, t)
      | Some q \<Rightarrow> if subindex < irq_count q then sys E request t else (3, t))"
  by (induction qs) auto

lemma irq_balance:
  "balance E (snd (irq_loop E fd qs index subindex flag (C_set_irqs fd a i j ev) t)) r =
     balance E t r"
  by (auto simp: irq_loop_find split: option.splits)

lemma exec_balance:
  assumes "vfio_exec E op (v, t) = (v', t')"
  shows "balance E t' r - balance E t r = owned v' r - owned v r"
proof (cases op)
  case (Allocate sz wb wi)
  with assms show ?thesis
    by (cases "buffer_allocate E v sz wb wi t") (auto dest: buffer_allocate_ledger [of _ _ _ _ _ _ _ _ _ r])
next
  case (Free p)
  with assms show ?thesis
    by (cases "buffer_free E v p t") (auto dest: buffer_free_ledger [of _ _ _ _ _ _ _ r])
qed (use assms in \<open>auto simp: irq_defs irq_balance\<close>)

lemma run_balance:
  "vfio_run E ops (v, t) = (v', t') \<Longrightarrow> balance E t' r - balance E t r = owned v' r - owned v r"
proof (induction ops arbitrary: v t)
  case (Cons op ops)
  obtain v1 t1 where 1: "vfio_exec E op (v, t) = (v1, t1)" by fastforce
  from Cons 1 exec_balance [OF 1, of r] show ?case by fastforce
qed simp

definition page_multiple :: "env \<Rightarrow> opae_vfio \<Rightarrow> bool" where
  "page_multiple E v \<longleftrightarrow>
     (\<forall>b\<in>set (cont_buffers v). unat (page_size E) dvd unat (buffer_size b))"

lemma vfio_exec_inv:
  assumes inv: "vfio_inv D v" "page_multiple E v" and page: "page_size E = 2 ^ k" "k < 64"
    and op: "good_op E op" and e: "vfio_exec E op (v, t) = (v', t')"
  shows "vfio_inv D v' \<and> page_multiple E v' \<and> cont_ranges v' = cont_ranges v"
proof (cases op)
  case (Allocate sz wb wi)
  then obtain res where a: "buffer_allocate E v sz wb wi t = (res, v', t')"
    using e by (cases "buffer_allocate E v sz wb wi t") auto
  have sz: "good_size E sz" using op Allocate by simp
  from a have "page_multiple E v' \<and> cont_ranges v' = cont_ranges v"
  proof (cases rule: allocate_cases)
    case (handed ok io m va)
    from round_size_ok(3) [OF page(2) handed(2) good_size_le [OF page sz]]
    have "unat (page_size E) dvd unat (round_size (page_size E) sz)"
      using page unat_pow2 [OF page(2)] by simp
    with inv(2) handed(7) show ?thesis by (simp add: page_multiple_def)
  qed (use inv in \<open>simp_all add: page_multiple_def\<close>)
  with allocate_inv [OF inv(1) page sz a] show ?thesis by simp
next
  case (Free p)
  then obtain r where f: "buffer_free E v p t = (r, v', t')"
    using e by (cases "buffer_free E v p t") auto
  from f have "page_multiple E v' \<and> cont_ranges v' = cont_ranges v"
  proof (cases rule: free_cases)
    case (freed b bs ok)
    from unlink_buffer_Some [OF freed(2)] have "set bs \<subseteq> set (cont_buffers v)" by auto
    with inv(2) freed(3) show ?thesis by (auto simp: page_multiple_def)
  qed (use inv in \<open>simp_all add: page_multiple_def\<close>)
  with free_inv [OF inv(1) f] show ?thesis by simp
qed (use inv e in auto)

lemma run_inv:
  assumes "page_size E = 2 ^ k" "k < 64"
  shows "vfio_inv D v \<Longrightarrow> page_multiple E v \<Longrightarrow> list_all (good_op E) ops \<Longrightarrow>
    vfio_run E ops (v, t) = (v', t') \<Longrightarrow>
    vfio_inv D v' \<and> page_multiple E v' \<and> cont_ranges v' = cont_ranges v"
proof (induction ops arbitrary: v t)
  case (Cons op ops)
  obtain v1 t1 where 1: "vfio_exec E op (v, t) = (v1, t1)" by fastforce
  have op: "good_op E op" using Cons.prems(3) by simp
  note v1 = vfio_exec_inv [OF Cons.prems(1,2) assms op 1]
  have "vfio_run E ops (v1, t1) = (v', t')" using Cons.prems(4) 1 by simp
  with Cons.IH [of v1 t1] v1 Cons.prems(3) show ?case by simp
qed simp

subsection \<open>The regions of an open device\<close>

lemma sparse_region_index:
  "opae_vfio_map_sparse_device_region E i fd off sz ss t = (Some g, t') \<Longrightarrow> region_index g = i"
  by (auto simp: opae_vfio_map_sparse_device_region_def split: prod.splits if_splits option.splits)

lemma map_region_index:
  "opae_vfio_map_device_region E i fd off sz t = (Some g, t') \<Longrightarrow> region_index g = i"
  by (auto simp: opae_vfio_map_device_region_def split: prod.splits if_splits option.splits)


lemma device_regions_indices:
  "device_regions E fd is t = (rs, t') \<Longrightarrow> set (map region_index rs) \<subseteq> set is \<and>
     (distinct is \<longrightarrow> distinct (map region_index rs)) \<and>
     (sorted_wrt (<) is \<longrightarrow> sorted_wrt (<) (map region_index rs))"
proof (induction "is" arbitrary: t rs t')
  case (Cons i "is")
  let ?info = "region_reply E t i"
  let ?t = "C_region_info fd i # t"
  show ?case
  proof (cases "ans E t (C_region_info fd i) \<noteq> 0 \<or>
      ri_flags ?info AND VFIO_REGION_INFO_FLAG_MMAP E = 0")
    case True
    then have "device_regions E fd is ?t = (rs, t')"
      using Cons.prems by (elim disjE) (simp_all add: sys_def Let_def split: if_splits)
    from Cons.IH [OF this] show ?thesis by auto
  next
    case False
    obtain sl t1 where 1: "opae_vfio_device_get_sparse_info E fd i ?info ?t = (sl, t1)" by fastforce
    obtain g t2 where 2: "(if sl \<noteq> []
        then opae_vfio_map_sparse_device_region E i fd (ri_offset ?info) (ri_size ?info) sl t1
        else opae_vfio_map_device_region E i fd (ri_offset ?info) (ri_size ?info) t1) = (g, t2)"
      by fastforce
    obtain rest where 3: "device_regions E fd is t2 = (rest, t')"
        and rs: "rs = (case g of None \<Rightarrow> rest | Some g \<Rightarrow> g # rest)"
      using Cons.prems False 1 2 by (auto simp: sys_def Let_def split: prod.splits)
    have "region_index g' = i" if "g = Some g'" for g'
      using 2 that sparse_region_index map_region_index by (auto split: if_splits)
    with Cons.IH [OF 3] rs show ?thesis by (cases g) auto
  qed
qed simp

lemma indices_sorted: "sorted_wrt (<) (indices n)"
proof -
  have "(word_of_nat i :: u32) < word_of_nat j" if "i < j" "j < unat n" for i j
  proof -
    have "j < 2 ^ 32" using that(2) unsigned_less [of n, where 'a = nat] by simp
    then show ?thesis using that(1) by (simp add: word_less_nat_alt unat_of_nat)
  qed
  then have "sorted_wrt (\<lambda>i j. (word_of_nat i :: u32) < word_of_nat j) [0..<unat n]"
    by (simp add: sorted_wrt_iff_nth_less)
  then show ?thesis by (simp add: indices_def sorted_wrt_map)
qed

lemma indices_less: "i \<in> set (indices n) \<Longrightarrow> i < n"
proof -
  assume "i \<in> set (indices n)"
  then obtain j where j: "j < unat n" "i = word_of_nat j" by (auto simp: indices_def)
  have "j < 2 ^ 32" using j(1) unsigned_less [of n, where 'a = nat] by simp
  with j show ?thesis by (simp add: word_less_nat_alt unat_of_nat)
qed

lemma device_init_regions:
  assumes "opae_vfio_device_init E d gfd p tok t = Some (0, d', t')"
  shows "sorted_wrt (<) (map region_index (regions d')) \<and>
    (\<forall>g\<in>set (regions d'). region_index g < device_num_regions d')"
proof -
  obtain fd n t1 t2 rs where "device_regions E fd (indices n) t1 = (rs, t2)"
      "regions d' = rs" "device_num_regions d' = n"
    using assms
    by (auto simp: opae_vfio_device_init_def Let_def sys_def split: bind_splits option.splits
        if_splits prod.splits)
  with device_regions_indices [of E fd "indices n" t1 rs t2] indices_sorted [of n] indices_less [of _ n]
  show ?thesis by auto
qed

lemma init_regions:
  assumes "opae_vfio_init E p tok t = Some (0, v, t')"
  shows "sorted_wrt (<) (map region_index (regions (v_device v))) \<and>
    (\<forall>g\<in>set (regions (v_device v)). region_index g < device_num_regions (v_device v))"
proof -
  obtain u t1 where u: "init_device E u p tok t1 = Some (0, v, t')"
    by (rule init_success [OF assms])
  obtain d t2 rs w t3 t0 where d: "opae_vfio_device_init E (v_device u) (group_fd (v_group u)) p tok t0 =
      Some (0, d, t2)"
    and w: "opae_vfio_iova_discover E (u\<lparr>v_device := d\<rparr>) t2 = Some (rs, w, t3)"
      "v = w\<lparr>cont_ranges := rs\<rparr>"
    by (rule init_device_success [OF u])
  have "v_device v = d"
    using arg_cong [OF discover_donated(2) [OF w(1)], of v_device] w(2) by simp
  with device_init_regions [OF d] show ?thesis by simp
qed

lemma find_unique:
  "distinct (map f xs) \<Longrightarrow> find (\<lambda>x. i = f x) xs = Some x \<longleftrightarrow> x \<in> set xs \<and> f x = i"
  by (induction xs) (auto simp: image_iff)

subsection \<open>Initialisation returns\<close>

text \<open>
  The chain of capabilities ends: every header is followed by one at a higher offset, or by none.
\<close>

definition chain_ends :: "(u32 \<Rightarrow> iova_cap) \<Rightarrow> bool" where
  "chain_ends caps \<longleftrightarrow> (\<forall>off. ic_next (caps off) = 0 \<or> off < ic_next (caps off))"

lemma iova_walk_returns:
  assumes "chain_ends caps"
  shows "iova_walk E caps off ranges m t \<noteq> None"
proof (induction "2 ^ 32 - unat off" arbitrary: off ranges m t rule: less_induct)
  case less
  let ?x = "(if ic_id (caps off) = VFIO_IOMMU_TYPE1_INFO_CAP_IOVA_RANGE E
            then add_ranges E (ic_ranges (caps off)) m t else ([], m, t))"
  obtain ns m1 t1 where x: "?x = (ns, m1, t1)" by (metis prod_cases3)
  show ?case
  proof (cases "ic_next (caps off) = 0")
    case True
    then show ?thesis by (subst iova_walk.simps) (simp only: x, simp)
  next
    case False
    then have "unat off < unat (ic_next (caps off))"
      using assms by (auto simp: chain_ends_def word_less_nat_alt)
    moreover have "unat (ic_next (caps off)) < 2 ^ 32"
      using unsigned_less [of "ic_next (caps off)", where 'a = nat] by simp
    ultimately have "2 ^ 32 - unat (ic_next (caps off)) < 2 ^ 32 - unat off" by linarith
    from less [OF this] False show ?thesis by (subst iova_walk.simps) (simp only: x, simp)
  qed
qed

text \<open>A header that names itself as the next one is never left.\<close>

lemma iova_walk_self_loop:
  assumes "ic_next (caps off) = off" "off \<noteq> 0"
  shows "iova_walk E caps off ranges m t = None"
proof (rule ccontr)
  assume "iova_walk E caps off ranges m t \<noteq> None"
  then obtain y where "iova_walk E caps off ranges m t = Some y" by auto
  then have "ic_next (caps off) = off \<longrightarrow> off = 0"
    by (rule iova_walk.raw_induct [where P = "\<lambda>E caps off ranges m t y.
          ic_next (caps off) = off \<longrightarrow> off = 0", rotated])
      (auto split: prod.splits if_splits)
  with assms show False by simp
qed

lemma discover_returns:
  assumes "\<And>t. chain_ends (snd (iommu_reply E t))"
  shows "opae_vfio_iova_discover E v t \<noteq> None"
proof -
  have "iova_walk E caps off rs m t' \<noteq> None" if "iommu_reply E t0 = (off, caps)" for caps off rs m t' t0
    using iova_walk_returns [OF assms [of t0]] that by simp
  then show ?thesis
    by (auto simp: opae_vfio_iova_discover_def Let_def sys_def simp del: not_None_eq
        split: prod.splits bind_splits)
qed

lemma device_init_returns:
  assumes "tok \<noteq> None \<or> length p < 256"
  shows "opae_vfio_device_init E d gfd p tok t \<noteq> None"
proof -
  obtain arg t1 where a: "device_arg E p tok t = Some (arg, t1)"
    using assms by (cases tok) (simp_all add: device_arg_def sys_def)
  show ?thesis
  proof (cases arg)
    case None
    with a show ?thesis by (simp add: opae_vfio_device_init_def)
  next
    case (Some arg)
    have ne: "(if b then Some x else y) \<noteq> None" if "y \<noteq> None" for b and x :: "int \<times> vfio_device \<times> trace" and y
      using that by (simp del: not_None_eq)
    show ?thesis
      unfolding opae_vfio_device_init_def a Some bind.bind_lunit Let_def sys_def option.case
        case_prod_beta fst_conv snd_conv option.case
      by (intro ne) simp
  qed
qed

lemma bind_not_None:
  "x \<noteq> None \<Longrightarrow> (\<And>y. f y \<noteq> None) \<Longrightarrow> Option.bind x f \<noteq> None"
  by (cases x) auto

lemma init_returns:
  assumes "\<And>t. chain_ends (snd (iommu_reply E t))" "\<And>t. length (link_reply E t) < 256"
    and "tok \<noteq> None \<or> length p < 256"
  shows "opae_vfio_init E p tok t \<noteq> None"
proof -
  have 1: "init_device E v p tok t \<noteq> None" for v t
    using discover_returns [OF assms(1)] device_init_returns [OF assms(3)]
    by (auto simp: init_device_def Let_def sys_def simp del: not_None_eq split: bind_splits)
  have 2: "opae_vfio_group_for E p t \<noteq> None" for t
  proof -
    have "\<not> 256 \<le> length (link_reply E t)" using assms(2) by (simp add: not_le)
    then show ?thesis by (simp add: opae_vfio_group_for_def sys_def Let_def split: option.split)
  qed
  show ?thesis
    unfolding opae_vfio_init_def Let_def sys_def
    by (simp add: 1 2 bind_not_None split: prod.split del: not_None_eq)
qed


subsection \<open>A device to try the properties on\<close>

definition demo_ans :: "trace \<Rightarrow> call \<Rightarrow> int" where
  "demo_ans t c =
     (case c of
        C_malloc \<Rightarrow> 1
      | C_open _ \<Rightarrow> 10 + int (length t)
      | C_device_fd _ _ \<Rightarrow> 7
      | C_pread _ _ \<Rightarrow> 2
      | C_pwrite _ _ _ \<Rightarrow> 2
      | C_check_extension _ \<Rightarrow> 1
      | _ \<Rightarrow> 0)"

definition demo_kernel :: env where
  "demo_kernel =
     \<lparr>ans = demo_ans,
      map_ans = (\<lambda>t c. Some (0x7f0000000000 + of_nat (length t) * 0x1000000)),
      region_reply = (\<lambda>t i. \<lparr>ri_flags = (if i = 0 then 4 else 0), ri_size = 0x10000, ri_offset = 0\<rparr>),
      sparse_reply = (\<lambda>t i. \<lparr>sc_id = 0, sc_areas = []\<rparr>),
      irq_reply = (\<lambda>t i. \<lparr>ii_flags = 3, ii_index = i, ii_count = 2\<rparr>),
      device_reply = (\<lambda>t. (2, 1)),
      group_reply = (\<lambda>t. 1),
      iommu_reply = (\<lambda>t. (8, \<lambda>off.
        if off = 8 then \<lparr>ic_id = 1, ic_next = 64, ic_ranges = [(0, 0xfedfffff)]\<rparr>
        else \<lparr>ic_id = 1, ic_next = 0, ic_ranges = [(0xfef00000, 0xffffffff)]\<rparr>)),
      link_reply = (\<lambda>t. ''../42''),
      command_reply = (\<lambda>t. 0),
      page_size = 4096,
      VFIO_REGION_INFO_FLAG_CAPS = 8,
      VFIO_REGION_INFO_FLAG_MMAP = 4,
      VFIO_REGION_INFO_CAP_SPARSE_MMAP = 1,
      VFIO_PCI_CONFIG_REGION_INDEX = 7,
      VFIO_IOMMU_TYPE1_INFO_CAP_IOVA_RANGE = 1,
      VFIO_GROUP_FLAGS_VIABLE = 1,
      VFIO_IRQ_INFO_EVENTFD = 1,
      VFIO_IRQ_INFO_MASKABLE = 2,
      VFIO_API_VERSION = 0,
      PCI_COMMAND = 4,
      PCI_COMMAND_MEMORY = 2,
      PCI_COMMAND_MASTER = 4\<rparr>"

definition demo_open :: "(int \<times> opae_vfio \<times> trace) option" where
  "demo_open = opae_vfio_init demo_kernel ''b'' None []"

lemma demo_open_code:
  "map_option (\<lambda>(r, v, t). (r, cont_ranges v, map region_index (regions (v_device v)))) demo_open =
   Some (0, [\<lparr>range_start = 0, range_end = 0xfedfffff\<rparr>,
             \<lparr>range_start = 0xfef00000, range_end = 0xffffffff\<rparr>], [0])"
  by code_simp

lemma demo_opened:
  obtains v t where "demo_open = Some (0, v, t)" "opae_vfio_init demo_kernel ''b'' None [] = Some (0, v, t)"
    "cont_ranges v = [\<lparr>range_start = 0, range_end = 0xfedfffff\<rparr>,
                      \<lparr>range_start = 0xfef00000, range_end = 0xffffffff\<rparr>]"
    "map region_index (regions (v_device v)) = [0]"
  using demo_open_code by (auto simp: demo_open_def)

lemma demo_ranges:
  "good_ranges [\<lparr>range_start = 0, range_end = 0xfedfffff\<rparr>,
                \<lparr>range_start = 0xfef00000, range_end = 0xffffffff\<rparr>]"
  by (auto simp: good_ranges_def range_set_def)

lemma demo_page: "page_size demo_kernel = 2 ^ 12" "good_size demo_kernel 5000" "good_size demo_kernel 1"
    "good_size demo_kernel 8192"
  by (simp_all add: demo_kernel_def good_size_def)

lemma demo_mallocs: "mallocs demo_kernel" "ans demo_kernel t C_lock = 0"
  by (simp_all add: mallocs_def demo_kernel_def demo_ans_def)


subsection \<open>Properties\<close>

text \<open>
  C3. Windows. Whatever buffers a client allocates and frees on an open device, as long as no length it asks for
  is within a page of \<open>2 ^ 64\<close>, and whichever calls of the kernel fail, the DMA windows of the live buffers
  are pairwise disjoint, made of whole pages and inside the ranges the kernel reported. The pages have a power of
  two of bytes, and the ranges the kernel reported do not overlap, are not empty and leave out the last address (\<open>good_ranges\<close>). A length
  nearer to \<open>2 ^ 64\<close> is rounded up to 0 and loses this (\<open>wrapped_size_loses_window\<close>).
\<close>

theorem vfio_windows_apart:
  assumes "opae_vfio_init E p tok t = Some (0, v, t1)" "good_ranges (cont_ranges v)"
    and "page_size E = 2 ^ k" "k < 64" "list_all (good_op E) ops"
    and "vfio_run E ops (v, t1) = (v', t')"
  shows "sorted_wrt (\<lambda>a b. block (window a) \<inter> block (window b) = {}) (cont_buffers v') \<and>
    (\<forall>b\<in>set (cont_buffers v'). block (window b) \<noteq> {} \<and>
       block (window b) \<subseteq> ranges_space (cont_ranges v) \<and>
       unat (page_size E) dvd unat (buffer_size b))"
proof -
  note i = init_state [OF assms(1,2)]
  have "page_multiple E v" using i(2) by (simp add: page_multiple_def)
  note r = run_inv [OF assms(3,4) i(1) this assms(5,6)]
  have inv: "vfio_inv (ranges_space (cont_ranges v)) v'" using r by blast
  from inv_windows [OF inv] r show ?thesis by (simp add: page_multiple_def block_nonempty)
qed

theorem vfio_windows_apart_witness:
  "map_option (\<lambda>(r, v, t). map (\<lambda>b. (buffer_iova b, buffer_size b)) (cont_buffers (fst
      (vfio_run demo_kernel [Allocate 5000 True True, Allocate 1 True False, Allocate 8192 False True] (v, t)))))
     demo_open = Some [(0x3000, 0x2000), (0x2000, 0x1000), (0, 0x2000)] \<and>
   (\<exists>v t v' t'. demo_open = Some (0, v, t) \<and>
      vfio_run demo_kernel [Allocate 5000 True True, Allocate 1 True False, Allocate 8192 False True] (v, t) = (v', t') \<and>
      sorted_wrt (\<lambda>a b. block (window a) \<inter> block (window b) = {}) (cont_buffers v'))"
proof (rule demo_opened, intro conjI)
  fix v t
  assume o: "demo_open = Some (0, v, t)" "opae_vfio_init demo_kernel ''b'' None [] = Some (0, v, t)"
    and c: "cont_ranges v = [\<lparr>range_start = 0, range_end = 0xfedfffff\<rparr>,
                      \<lparr>range_start = 0xfef00000, range_end = 0xffffffff\<rparr>]"
  let ?ops = "[Allocate 5000 True True, Allocate 1 True False, Allocate 8192 False True]"
  obtain v' t' where r: "vfio_run demo_kernel ?ops (v, t) = (v', t')" by fastforce
  have ops: "list_all (good_op demo_kernel) ?ops" by (simp add: demo_page)
  show "\<exists>v t v' t'. demo_open = Some (0, v, t) \<and> vfio_run demo_kernel ?ops (v, t) = (v', t') \<and>
      sorted_wrt (\<lambda>a b. block (window a) \<inter> block (window b) = {}) (cont_buffers v')"
    using vfio_windows_apart [OF o(2) demo_ranges [folded c] demo_page(1) _ ops r] o(1) r by auto
qed code_simp

text \<open>
  The addresses of the memory that is mapped: every \<^verbatim>\<open>mmap\<close> that succeeds adds its bytes, every \<^verbatim>\<open>munmap\<close> takes
  its bytes away, whether they were mapped or not.
\<close>

definition bytes_at :: "u64 \<Rightarrow> u64 \<Rightarrow> nat set" where
  "bytes_at p len = {unat p ..< unat p + unat len}"

primrec mapped :: "env \<Rightarrow> trace \<Rightarrow> nat set" where
  "mapped E [] = {}"
| "mapped E (c # t) =
     (case c of
        C_mmap _ len _ _ _ \<Rightarrow> (case map_ans E t c of None \<Rightarrow> mapped E t | Some p \<Rightarrow> mapped E t \<union> bytes_at p len)
      | C_munmap p len \<Rightarrow> mapped E t - bytes_at p len
      | _ \<Rightarrow> mapped E t)"

fun is_map_call :: "call \<Rightarrow> bool" where
  "is_map_call (C_mmap _ _ _ _ _) = True"
| "is_map_call (C_munmap _ _) = True"
| "is_map_call _ = False"

text \<open>Between the traces \<open>t\<close> and \<open>t'\<close> nothing was mapped, and just these areas were unmapped, in this order.\<close>

definition unmaps :: "trace \<Rightarrow> trace \<Rightarrow> (u64 \<times> u64) list \<Rightarrow> bool" where
  "unmaps t t' as \<longleftrightarrow> (\<exists>u. t' = u @ t \<and> filter is_map_call u = rev (map (\<lambda>(p, len). C_munmap p len) as))"

lemma unmaps_refl: "unmaps t t []"
  by (simp add: unmaps_def)

lemma unmaps_trans: "unmaps t t' as \<Longrightarrow> unmaps t' t'' bs \<Longrightarrow> unmaps t t'' (as @ bs)"
  unfolding unmaps_def by (elim exE conjE, rule_tac x = "ua @ u" in exI) simp

lemma unmaps_step: "unmaps t (c # t) (case c of C_munmap p len \<Rightarrow> [(p, len)] | _ \<Rightarrow> [])"
    if "\<not> is_map_call c \<or> (\<exists>p len. c = C_munmap p len)"
  unfolding unmaps_def by (rule exI [of _ "[c]"]) (use that in \<open>cases c; simp\<close>)

lemma unmaps_munmap: "unmaps t (C_munmap p len # t) [(p, len)]"
  using unmaps_step [of "C_munmap p len" t] by simp

lemma unmaps_other: "\<not> is_map_call c \<Longrightarrow> unmaps t (c # t) []"
  unfolding unmaps_def by (rule exI [of _ "[c]"]) simp

lemma mapped_shrinks:
  "\<not> is_map_call c \<or> (\<exists>p len. c = C_munmap p len) \<Longrightarrow> mapped E (c # t) \<subseteq> mapped E t"
  by (cases c) auto

lemma unmapped_gone:
  "\<forall>c\<in>set u. \<not> is_map_call c \<or> (\<exists>p len. c = C_munmap p len) \<Longrightarrow> C_munmap p len \<in> set u \<Longrightarrow>
    bytes_at p len \<inter> mapped E (u @ t) = {}"
proof (induction u)
  case (Cons c u)
  have s: "mapped E (c # u @ t) \<subseteq> mapped E (u @ t)" using Cons.prems(1) by (intro mapped_shrinks) simp
  show ?case
  proof (cases "c = C_munmap p len")
    case True
    then show ?thesis by auto
  next
    case False
    then have "bytes_at p len \<inter> mapped E (u @ t) = {}" using Cons.IH Cons.prems by simp
    with s show ?thesis unfolding append_Cons by blast
  qed
qed simp

lemma unmaps_gone:
  assumes "unmaps t t' as" "(p, len) \<in> set as"
  shows "bytes_at p len \<inter> mapped E t' = {}"
proof -
  obtain u where u: "t' = u @ t" "filter is_map_call u = rev (map (\<lambda>(p, len). C_munmap p len) as)"
    using assms(1) by (auto simp: unmaps_def)
  from arg_cong [OF u(2), of set] have s: "{c \<in> set u. is_map_call c} = (\<lambda>(p, len). C_munmap p len) ` set as"
    by simp
  have "\<exists>p len. c = C_munmap p len" if "c \<in> set u" "is_map_call c" for c
  proof -
    have "c \<in> (\<lambda>(p, len). C_munmap p len) ` set as" unfolding s [symmetric] using that by simp
    then show ?thesis by auto
  qed
  then have "\<forall>c\<in>set u. \<not> is_map_call c \<or> (\<exists>p len. c = C_munmap p len)" by blast
  moreover have "C_munmap p len \<in> set u" using s assms(2) by force
  ultimately show ?thesis unfolding u(1) by (rule unmapped_gone)
qed

text \<open>The areas behind an open device, in the order in which closing unmaps them.\<close>

definition sparse_areas :: "sparse_info list \<Rightarrow> (u64 \<times> u64) list" where
  "sparse_areas ss = concat (map (\<lambda>s. case si_ptr s of None \<Rightarrow> [] | Some p \<Rightarrow> [(p, ucast (si_size s))]) ss)"

definition region_areas :: "device_region list \<Rightarrow> (u64 \<times> u64) list" where
  "region_areas gs = concat (map (\<lambda>g. (region_ptr g, region_size g) # sparse_areas (region_sparse g)) gs)"

definition mapped_areas :: "opae_vfio \<Rightarrow> (u64 \<times> u64) list" where
  "mapped_areas v = map (\<lambda>b. (buffer_ptr b, buffer_size b)) (cont_buffers v) @ region_areas (regions (v_device v))"

lemma destroy_sparse_unmaps: "unmaps t (opae_vfio_destroy_sparse_info E ss t) (sparse_areas ss)"
proof (induction ss arbitrary: t)
  case (Cons s ss)
  show ?case
  proof (cases "si_ptr s")
    case None
    with Cons.IH [of t] show ?thesis by (simp add: sparse_areas_def)
  next
    case (Some p)
    from unmaps_trans [OF unmaps_munmap Cons.IH] Some show ?thesis
      by (simp add: sparse_areas_def sys_def)
  qed
qed (simp add: sparse_areas_def unmaps_refl)

lemma destroy_regions_unmaps: "unmaps t (opae_vfio_destroy_device_region E gs t) (region_areas gs)"
proof (induction gs arbitrary: t)
  case (Cons g gs)
  from unmaps_trans [OF unmaps_trans [OF unmaps_munmap destroy_sparse_unmaps] Cons.IH] show ?case
    by (simp add: region_areas_def sys_def)
qed (simp add: region_areas_def unmaps_refl)

lemma destroy_buffers_unmaps:
  "opae_vfio_destroy_buffer E v bs t = (v', t') \<Longrightarrow>
    unmaps t t' (map (\<lambda>b. (buffer_ptr b, buffer_size b)) bs) \<and> v_device v' = v_device v"
proof (induction bs arbitrary: v t)
  case (Cons b bs)
  let ?d = "C_dma_unmap (cont_fd v) (buffer_size b) (buffer_iova b)" and ?m = "C_munmap (buffer_ptr b) (buffer_size b)"
  have "unmaps t (C_malloc # ?m # ?d # t) [(buffer_ptr b, buffer_size b)]"
    unfolding unmaps_def by (rule exI [of _ "[C_malloc, ?m, ?d]"]) simp
  moreover obtain v1 where "opae_vfio_destroy_buffer E v1 bs (C_malloc # ?m # ?d # t) = (v', t')" "v_device v1 = v_device v"
    using Cons.prems by (auto simp: sys_def malloc_def)
  ultimately show ?case using Cons.IH unmaps_trans by fastforce
qed (simp add: unmaps_refl)

lemma destroy_unmaps:
  assumes "opae_vfio_destroy E v t = (v', t')"
  shows "unmaps t t' (mapped_areas v)"
proof -
  obtain v1 t1 where b: "opae_vfio_destroy_buffer E v (cont_buffers v) t = (v1, t1)" by fastforce
  note b = b destroy_buffers_unmaps [OF b]
  let ?t2 = "opae_vfio_destroy_device_region E (regions (v_device v)) t1"
  have "\<exists>u. t' = u @ ?t2 \<and> (\<forall>c\<in>set u. \<not> is_map_call c)"
    using assms b
    by (auto simp: opae_vfio_destroy_def opae_vfio_device_destroy_def opae_vfio_group_destroy_def Let_def sys_def
      unlock_def split: if_splits)
  then have "unmaps ?t2 t' []" by (auto simp: unmaps_def filter_empty_conv)
  from unmaps_trans [OF conjunct1 [OF b(2)] unmaps_trans [OF destroy_regions_unmaps this]] show ?thesis
    by (simp add: mapped_areas_def)
qed



text \<open>
  C35. A device that fails to open leaves nothing behind: on every error path of the initialisation
  except the last (code 9) all descriptors, mappings and windows acquired so far are released.
\<close>

theorem vfio_open_failure_releases:
  assumes "opae_vfio_init E p tok t = Some (a, v, t')" "a \<noteq> 0" "a \<noteq> 9" "r \<noteq> R_lock"
  shows "balance E t' r = balance E t r \<and> owned v r = 0"
  using init_ledger [OF assms(1), of r] assms(2-4) by auto

definition not_viable :: env where
  "not_viable = demo_kernel\<lparr>group_reply := \<lambda>t. 0\<rparr>"

theorem vfio_open_failure_releases_witness:
  "\<exists>v t. opae_vfio_init not_viable ''b'' None [] = Some (4, v, t) \<and>
     C_open (Some ''/dev/vfio/42'') \<in> set t \<and> balance not_viable t (R_fd 20) = 0"
proof -
  have "map_option (\<lambda>(r, v, t). (r, C_open (Some ''/dev/vfio/42'') \<in> set t))
      (opae_vfio_init not_viable ''b'' None []) = Some (4, True)"
    by code_simp
  then obtain v t where o: "opae_vfio_init not_viable ''b'' None [] = Some (4, v, t)"
      "C_open (Some ''/dev/vfio/42'') \<in> set t" by auto
  from vfio_open_failure_releases [OF o(1), of "R_fd 20"] o show ?thesis by auto
qed


text \<open>
  Freeing a buffer that was just allocated brings the device back to the very state it had,
  its allocator of addresses included, and gives every resource back.
\<close>

theorem buffer_allocate_free:
  assumes "vfio_inv D v" "page_size E = 2 ^ k" "k < 64" "good_size E sz"
    and "mallocs E" "\<forall>t. ans E t C_lock = 0"
    and "opae_vfio_buffer_allocate E (Some v) (Some sz) True wi t = (res, Some v1, t1)"
    and "ar_code res = 0" "ar_buf res = Some p"
    and "opae_vfio_buffer_free E (Some v1) p t1 = (r, Some v2, t2)"
  shows "r = 0 \<and> v2 = v \<and> balance E t2 x = balance E t x"
proof -
  have a: "buffer_allocate E v sz True wi t = (res, v1, t1)"
    using assms(7) by (auto simp: opae_vfio_buffer_allocate_def split: prod.splits)
  have f: "buffer_free E v1 p t1 = (r, v2, t2)"
    using assms(10) by (auto simp: opae_vfio_buffer_free_def split: prod.splits)
  from a have rv: "r = 0 \<and> v2 = v"
  proof (cases rule: allocate_cases)
    case (handed ok io m va)
    let ?sz = "round_size (page_size E) sz"
    have pos: "0 < ?sz" by (rule good_size_pos [OF assms(2-4) handed(2)])
    have inv: "mem_alloc_inv (iova_alloc v)" using assms(1) by (simp add: vfio_inv_def space_inv_def)
    from get_step_new [OF inv pos handed(1)] obtain ad where ad: "io = Some ad" by blast
    have "mem_alloc_get True (iova_alloc v) ?sz = (0, Some ad, m)"
      using get_cases [OF inv pos handed(1)] ad by simp
    then have "get_all (mem_alloc_get True) (iova_alloc v) [?sz] = ([(ad, ?sz)], m)" by simp
    from ma.get_all_put_all [OF inv _ this, of "[(ad, ?sz)]"] pos
    have put: "snd (mem_alloc_put True m ad) = iova_alloc v" by simp
    let ?b = "\<lparr>buffer_ptr = va, buffer_size = ?sz, buffer_iova = ad\<rparr>"
    have v1: "v1 = v\<lparr>iova_alloc := m, cont_buffers := ?b # cont_buffers v\<rparr>" "p = va"
      using handed ad assms(9) by simp_all
    show ?thesis
      using f assms(5,6) v1 put by (auto simp: buffer_free_def sys_def malloc_def mallocs_def)
  qed (use assms(8) in simp_all)
  with buffer_allocate_ledger [OF a, of x] buffer_free_ledger [OF f, of x] show ?thesis by simp
qed

lemma demo_dev_inv:
  "opae_vfio_init demo_kernel ''b'' None [] = Some (0, v, t) \<Longrightarrow>
   cont_ranges v = [\<lparr>range_start = 0, range_end = 0xfedfffff\<rparr>,
                    \<lparr>range_start = 0xfef00000, range_end = 0xffffffff\<rparr>] \<Longrightarrow>
   vfio_inv (ranges_space (cont_ranges v)) v"
  by (rule init_state(1)) (simp_all only: demo_ranges)

theorem buffer_allocate_free_witness:
  "\<exists>v t res v1 t1 p t2. demo_open = Some (0, v, t) \<and>
     opae_vfio_buffer_allocate demo_kernel (Some v) (Some 5000) True True t = (res, Some v1, t1) \<and>
     ar_buf res = Some p \<and> opae_vfio_buffer_free demo_kernel (Some v1) p t1 = (0, Some v, t2)"
proof (rule demo_opened)
  fix v t
  assume o: "demo_open = Some (0, v, t)" "opae_vfio_init demo_kernel ''b'' None [] = Some (0, v, t)"
    and c: "cont_ranges v = [\<lparr>range_start = 0, range_end = 0xfedfffff\<rparr>,
                      \<lparr>range_start = 0xfef00000, range_end = 0xffffffff\<rparr>]"
  obtain res v1 t1 where a: "opae_vfio_buffer_allocate demo_kernel (Some v) (Some 5000) True True t =
      (res, Some v1, t1)"
    by (cases "buffer_allocate demo_kernel v 5000 True True t") (simp add: opae_vfio_buffer_allocate_def)
  have "map_option (\<lambda>(r, v, t). case opae_vfio_buffer_allocate demo_kernel (Some v) (Some 5000) True True t of
      (res, _) \<Rightarrow> (ar_code res, ar_buf res \<noteq> None)) demo_open = Some (0, True)"
    by code_simp
  then have "ar_code res = 0 \<and> ar_buf res \<noteq> None" unfolding o(1) using a by simp
  then obtain p where p: "ar_code res = 0" "ar_buf res = Some p" by blast
  obtain r v2 t2 where f: "opae_vfio_buffer_free demo_kernel (Some v1) p t1 = (r, Some v2, t2)"
    by (cases "buffer_free demo_kernel v1 p t1") (simp add: opae_vfio_buffer_free_def)
  have m: "\<forall>t. ans demo_kernel t C_lock = 0" using demo_mallocs(2) by simp
  from buffer_allocate_free [OF demo_dev_inv [OF o(2) c] demo_page(1) _ demo_page(2) demo_mallocs(1) m a p f]
    o(1) a p f show ?thesis by fastforce
qed


text \<open>The kernel refuses the DMA mapping.\<close>

definition no_dma :: env where
  "no_dma = demo_kernel\<lparr>ans := \<lambda>t c. case c of C_dma_map _ _ _ _ \<Rightarrow> -1 | _ \<Rightarrow> demo_ans t c\<rparr>"

definition small_dev :: opae_vfio where
  "small_dev = vfio_zero\<lparr>cont_fd := 3,
     iova_alloc := \<lparr>ma_free = [mem_link_alloc 0x1000 0x4000], ma_allocated = []\<rparr>\<rparr>"

lemma small_dev_inv: "vfio_inv (block (mem_link_alloc 0x1000 0x4000)) small_dev"
  by (simp add: vfio_inv_def space_inv_def small_dev_def vfio_zero_def mem_alloc_inv_def canonical_def
      wf_link_def hi_def mem_link_alloc_def)

lemma no_dma_call:
  "opae_vfio_buffer_allocate no_dma (Some small_dev) (Some 5000) True True [] =
     (alloc_fail 5 0x2000,
      Some (small_dev\<lparr>iova_alloc := \<lparr>ma_free = [mem_link_alloc 0x3000 0x2000],
                                     ma_allocated = [mem_link_alloc 0x1000 0x2000]\<rparr>\<rparr>),
      [C_unlock, C_munmap 0x7f0002000000 0x2000, C_dma_map 3 0x7f0002000000 0x2000 0x1000,
       C_mmap 0 0x2000 FLAGS_2M 0 0, C_malloc, C_lock])"
  by code_simp



text \<open>
  Sizes. With pages of \<open>2 ^ k\<close> bytes a size is rounded up to the least number of whole pages
  that holds it, except that a size within one page of \<open>2 ^ 64\<close> becomes 0.
\<close>

theorem iova_size_rounding:
  assumes "page_size E = 2 ^ k" "k < 64" "sz \<noteq> 0"
    and "opae_vfio_iova_reserve E v sz t = (r, sz', io, v', t')"
  shows "if unat sz \<le> 2 ^ 64 - 2 ^ k
    then unat sz \<le> unat sz' \<and> unat sz' < unat sz + 2 ^ k \<and> 2 ^ k dvd unat sz'
    else sz' = 0"
proof -
  have "sz' = round_size (2 ^ k) sz"
    using assms(1,4) by (auto simp: opae_vfio_iova_reserve_def Let_def split: prod.splits)
  with round_size_ok [OF assms(2,3)] round_size_wraps [OF assms(2), of sz] show ?thesis
    by (simp add: not_le)
qed

theorem iova_size_rounding_witness:
  "opae_vfio_iova_reserve demo_kernel small_dev 5000 [] =
     (0, 8192, Some 0x1000, small_dev\<lparr>iova_alloc := \<lparr>ma_free = [mem_link_alloc 0x3000 0x2000],
        ma_allocated = [mem_link_alloc 0x1000 0x2000]\<rparr>\<rparr>, [C_malloc]) \<and>
   unat (8192 :: u64) < unat (5000 :: u64) + 2 ^ 12"
proof -
  have r: "opae_vfio_iova_reserve demo_kernel small_dev 5000 [] =
     (0, 8192, Some 0x1000, small_dev\<lparr>iova_alloc := \<lparr>ma_free = [mem_link_alloc 0x3000 0x2000],
        ma_allocated = [mem_link_alloc 0x1000 0x2000]\<rparr>\<rparr>, [C_malloc])"
    by code_simp
  from iova_size_rounding [OF demo_page(1) _ _ r] r show ?thesis by simp
qed

text \<open>
  What the size 0 does: the call fails (a mapping of no bytes is refused), but a node of size 0
  stays in the allocator at the address that is handed out next. Freeing that buffer then finds
  the empty node first, so the window of the buffer is never returned.
\<close>

definition no_empty_map :: env where
  "no_empty_map = demo_kernel\<lparr>map_ans := \<lambda>t c. case c of C_mmap _ len _ _ _ \<Rightarrow>
     (if len = 0 then None else Some 0x7f0000000000) | _ \<Rightarrow> None\<rparr>"

lemma wrapped_size_loses_window:
  "iova_alloc (fst (vfio_run no_empty_map
     [Allocate 0xffffffffffffffff True True, Allocate 0x1000 True True, Free 0x7f0000000000]
     (small_dev, []))) =
   \<lparr>ma_free = [mem_link_alloc 0x1000 0, mem_link_alloc 0x2000 0x3000],
    ma_allocated = [mem_link_alloc 0x1000 0x1000]\<rparr>"
  by code_simp

text \<open>
  Opening a device returns, with a result or an error code, whenever the chain of capabilities
  the kernel reports ends, the link to the group fits its buffer, and so does the PCI address.
\<close>

theorem vfio_open_returns:
  assumes "\<forall>t. chain_ends (snd (iommu_reply E t))" "\<forall>t. length (link_reply E t) < 256"
    and "length p < 256"
  shows "\<exists>r v' t'. opae_vfio_open E (Some u) (Some p) t = Some (r, Some v', t')"
proof -
  have "opae_vfio_init E p None t \<noteq> None"
    using init_returns [of E None p t] assms by simp
  then show ?thesis by (auto simp: opae_vfio_open_def)
qed

theorem vfio_open_returns_witness:
  "\<exists>r v' t'. opae_vfio_open demo_kernel (Some vfio_zero) (Some ''b'') [] = Some (r, Some v', t')"
  by (rule vfio_open_returns) (simp_all add: demo_kernel_def chain_ends_def)

text \<open>The converse: a capability that names itself as the next one keeps the library in its loop.\<close>

definition looping :: env where
  "looping = demo_kernel\<lparr>iommu_reply := \<lambda>t. (8, \<lambda>off. \<lparr>ic_id = 0, ic_next = 8, ic_ranges = []\<rparr>)\<rparr>"

lemma looping_discover:
  "opae_vfio_iova_discover looping small_dev [] = None"
  by (simp add: opae_vfio_iova_discover_def sys_def malloc_def looping_def demo_kernel_def demo_ans_def
      iova_walk_self_loop)

text \<open>
  The four interrupt operations are one search: the first interrupt with the index and the
  capability the operation needs decides. Without one the code is 2, with a sub-index out of
  range 3, and else exactly one request goes to the kernel, whose answer is returned.
\<close>

definition irq_spec ::
  "env \<Rightarrow> opae_vfio \<Rightarrow> u32 \<Rightarrow> u32 \<Rightarrow> u32 \<Rightarrow> irq_action \<Rightarrow> int option \<Rightarrow> trace \<Rightarrow> int \<times> trace" where
  "irq_spec E v index subindex flag action data t =
     (let req = C_set_irqs (device_fd (v_device v)) action index subindex data in
      case find (\<lambda>q. irq_index q = index \<and> irq_flags q AND flag \<noteq> 0) (irqs (v_device v)) of
        None \<Rightarrow> (2, t)
      | Some q \<Rightarrow> if subindex < irq_count q then (ans E t req, req # t) else (3, t))"

theorem irq_operations:
  "opae_vfio_irq_enable E (Some v) i j fd t =
     irq_spec E v i j (VFIO_IRQ_INFO_EVENTFD E) TRIGGER (Some fd) t \<and>
   opae_vfio_irq_disable E (Some v) i j t =
     irq_spec E v i j (VFIO_IRQ_INFO_EVENTFD E) TRIGGER (Some (-1)) t \<and>
   opae_vfio_irq_mask E (Some v) i j t =
     irq_spec E v i j (VFIO_IRQ_INFO_MASKABLE E) MASK None t \<and>
   opae_vfio_irq_unmask E (Some v) i j t =
     irq_spec E v i j (VFIO_IRQ_INFO_MASKABLE E) UNMASK None t"
  by (simp add: irq_defs irq_spec_def irq_loop_find sys_def Let_def split: option.split)

lemma sparse_owned_nonneg: "0 \<le> sparse_owned ss r"
  by (induction ss) (auto split: option.splits)

lemma regions_owned_nonneg: "0 \<le> (\<Sum>g\<leftarrow>gs. region_owned g r)"
  by (induction gs) (auto simp: region_owned_def sparse_owned_nonneg add_nonneg_nonneg)

lemma region_is_owned:
  "g \<in> set gs \<Longrightarrow> r = R_map (region_ptr g) (region_size g) \<Longrightarrow>
   1 \<le> (\<Sum>h\<leftarrow>gs. region_owned h r)"
proof (induction gs)
  case (Cons h gs)
  have "0 \<le> region_owned h r" "h = g \<Longrightarrow> 1 \<le> region_owned h r"
    using Cons.prems(2) by (simp_all add: region_owned_def sparse_owned_nonneg)
  with Cons regions_owned_nonneg [of r gs] show ?case by fastforce
qed simp

lemma region_le_owned:
  assumes "g \<in> set (regions (v_device v))"
  shows "1 \<le> owned v (R_map (region_ptr g) (region_size g))"
proof -
  have "0 \<le> (\<Sum>b\<leftarrow>bs. buffer_owned b r)" for bs r
    by (induction bs) (auto simp: buffer_owned_def)
  with region_is_owned [OF assms refl] show ?thesis
    by (simp add: owned_def device_owned_def fd_owned_def add_increasing2)
qed

text \<open>
  C37. The regions of an open device have distinct indices below the number the kernel reported,
  in increasing order, so a region is found exactly when the list has it; and the mapping that
  is handed out is one the library holds.
\<close>

theorem region_get:
  assumes "opae_vfio_init E p tok t = Some (0, v, t')"
  shows "sorted_wrt (<) (map region_index (regions (v_device v))) \<and>
    (\<forall>g\<in>set (regions (v_device v)). region_index g < device_num_regions (v_device v)) \<and>
    (opae_vfio_region_get (Some v) i = (0, Some (q, sz)) \<longleftrightarrow>
       (\<exists>g\<in>set (regions (v_device v)). region_index g = i \<and> region_ptr g = q \<and> region_size g = sz)) \<and>
    (opae_vfio_region_get (Some v) i = (0, Some (q, sz)) \<longrightarrow>
       balance E t (R_map q sz) < balance E t' (R_map q sz))"
proof -
  note s = init_regions [OF assms]
  have d: "distinct (map region_index (regions (v_device v)))"
    using s strict_sorted_iff by blast
  have get: "opae_vfio_region_get (Some v) i = (0, Some (q, sz)) \<longleftrightarrow>
      (\<exists>g. find (\<lambda>r. i = region_index r) (regions (v_device v)) = Some g \<and>
           region_ptr g = q \<and> region_size g = sz)"
    by (auto simp: opae_vfio_region_get_def split: option.splits)
  also have "\<dots> \<longleftrightarrow>
      (\<exists>g\<in>set (regions (v_device v)). region_index g = i \<and> region_ptr g = q \<and> region_size g = sz)"
    unfolding find_unique [OF d] by blast
  finally have found: "opae_vfio_region_get (Some v) i = (0, Some (q, sz)) \<longleftrightarrow>
      (\<exists>g\<in>set (regions (v_device v)). region_index g = i \<and> region_ptr g = q \<and> region_size g = sz)" .
  have "balance E t (R_map q sz) < balance E t' (R_map q sz)"
    if "opae_vfio_region_get (Some v) i = (0, Some (q, sz))"
  proof -
    from that found obtain g where "g \<in> set (regions (v_device v))"
      "region_ptr g = q" "region_size g = sz" by blast
    with region_le_owned [of g v] have "1 \<le> owned v (R_map q sz)" by blast
    with init_ledger [OF assms, of "R_map q sz"] show ?thesis by simp
  qed
  with s found show ?thesis by blast
qed

theorem region_get_witness:
  "\<exists>v t q sz. demo_open = Some (0, v, t) \<and> opae_vfio_region_get (Some v) 0 = (0, Some (q, sz)) \<and>
     0 < balance demo_kernel t (R_map q sz)"
proof (rule demo_opened)
  fix v t
  assume o: "demo_open = Some (0, v, t)" "opae_vfio_init demo_kernel ''b'' None [] = Some (0, v, t)"
    and r: "map region_index (regions (v_device v)) = [0]"
  from r obtain g where g: "regions (v_device v) = [g]" "region_index g = 0" by auto
  then have "opae_vfio_region_get (Some v) 0 = (0, Some (region_ptr g, region_size g))"
    by (simp add: opae_vfio_region_get_def)
  with region_get [OF o(2), of 0 "region_ptr g" "region_size g"] o(1) show ?thesis by auto
qed

end
