(* ===== verification/Vfio_Plugin_Correct.thy ===== *)
theory Vfio_Plugin_Correct
  imports Vfio_Plugin Vfio_Correct
begin

section \<open>Correctness of the VFIO plugin\<close>

text \<open>
  What the calls of the plugin hold of the operating system: frames for the steps that leave the
  open devices alone, the ways through the operations that open, close and use devices, the
  invariant that every handle has live devices of its own, runs of the plugin, and a demonstration
  host for the witnesses.
\<close>

subsection \<open>Steps that leave the open devices alone\<close>

definition quiet :: "plugin \<Rightarrow> plugin \<Rightarrow> bool" where
  "quiet s s' \<longleftrightarrow> pl_vfios s' = pl_vfios s \<and> pl_trace s' = pl_trace s \<and> pl_handles s' = pl_handles s \<and>
     pl_buffers s' = pl_buffers s \<and> pl_dangling s' = pl_dangling s \<and> pl_brk s \<le> pl_brk s'"

named_theorems quiet_steps

lemma quiet_refl [simp]: "quiet s s"
  by (simp add: quiet_def)

lemma quiet_trans [trans]: "quiet a b \<Longrightarrow> quiet b c \<Longrightarrow> quiet a c"
  by (auto simp: quiet_def)

lemma quiet_upd [simp]:
  "quiet s (s'\<lparr>pl_tokens := x\<rparr>) = quiet s s'"
  "quiet s (s'\<lparr>pl_devices := y\<rparr>) = quiet s s'"
  "quiet s (s'\<lparr>pl_device_list := z\<rparr>) = quiet s s'"
  "quiet s (s'\<lparr>pl_events := e\<rparr>) = quiet s s'"
  "quiet s (s'\<lparr>pl_writes := w\<rparr>) = quiet s s'"
  by (simp_all add: quiet_def)

lemma psys_quiet [quiet_steps]: "psys H c s = (r, s') \<Longrightarrow> quiet s s'"
  by (auto simp: psys_def quiet_def)

lemma snd_psys_quiet [simp]: "quiet s (snd (psys H c s')) = quiet s s'"
  by (simp add: psys_def quiet_def)

lemma punlock_quiet [simp]: "quiet s (punlock H s')  = quiet s s'"
  by (auto simp: punlock_def psys_def quiet_def)

lemma pmalloc_quiet [quiet_steps]: "pmalloc H s = (p, s') \<Longrightarrow> quiet s s'"
  by (auto simp: pmalloc_def psys_def quiet_def split: if_splits)

lemma snd_pmalloc_quiet [simp]: "quiet s (snd (pmalloc H s))"
  by (metis pmalloc_quiet prod.collapse)

lemma upd_token_quiet [quiet_steps]: "upd_token t f s = Some s' \<Longrightarrow> quiet s s'"
  by (auto simp: upd_token_def split: Option.bind_splits)

lemma get_token_quiet [quiet_steps]: "get_token H p region ty s = Some (t, s') \<Longrightarrow> quiet s s'"
  by (auto simp: get_token_def split: Option.bind_splits if_splits prod.splits dest: pmalloc_quiet)

declare port_wait.simps [simp del]

lemma port_reset_quiet [quiet_steps]: "legacy_port_reset H b s = (r, s') \<Longrightarrow> quiet s s'"
  by (auto simp: legacy_port_reset_def write_reg_def Let_def split: if_splits)

lemma walk_port_quiet [quiet_steps]:
  assumes "walk_port H parent region mmio s = Some s'"
  shows "quiet s s'"
  using assms
  by (auto simp: walk_port_def Let_def split: Option.bind_splits prod.splits option.splits
      dest!: quiet_steps) (simp_all add: quiet_def)

lemma walk_ports_quiet [quiet_steps]: "walk_ports H v fme mmio as s = Some s' \<Longrightarrow> quiet s s'"
proof (induction as arbitrary: s)
  case (Cons a as)
  from Cons.prems show ?case
    by (auto simp: Let_def split: Option.bind_splits prod.splits option.splits if_splits
        dest!: walk_port_quiet Cons.IH intro: quiet_trans)
qed simp

lemma walk_fme_quiet [quiet_steps]:
  assumes "walk_fme H p v mmio region s = Some (r, s')"
  shows "quiet s s'"
  using assms
  by (auto simp: walk_fme_def split: Option.bind_splits list.splits
      dest!: quiet_steps) (simp_all add: quiet_def)

lemma walk_bars_quiet [quiet_steps]: "walk_bars H p v is s = Some s' \<Longrightarrow> quiet s s'"
proof (induction "is" arbitrary: s)
  case (Cons i "is")
  from Cons.prems show ?case
    by (auto split: Option.bind_splits prod.splits option.splits if_splits
        dest!: get_token_quiet upd_token_quiet Cons.IH) (simp_all add: quiet_def)
qed simp

lemma walk_regions_quiet [quiet_steps]:
  assumes "walk_regions H p v s = Some (r, s')"
  shows "quiet s s'"
  using assms
  by (auto simp: walk_regions_def split: Option.bind_splits prod.splits option.splits if_splits
      dest!: quiet_steps) (simp_all add: quiet_def)


lemma clone_token_quiet [quiet_steps]:
  assumes "clone_token H src s = Some (t, s')"
  shows "quiet s s'"
proof -
  have "quiet s (snd (t, s'))"
  proof (rule clone_token.raw_induct [where P = "\<lambda>H src s y. quiet s (snd y)", OF _ assms])
    fix f H src s y
    assume IH: "\<And>H src s y. f H src s = Some y \<Longrightarrow> quiet s (snd y)"
      and b: "(if src = NULL then Some (NULL, s)
        else do {
          w \<leftarrow> pl_tokens s src;
          if vt_magic w \<noteq> VFIO_TOKEN_MAGIC then Some (NULL, s)
          else case pmalloc H s of (t, s) \<Rightarrow>
            if t = NULL then Some (NULL, s)
            else if vt_parent w = NULL then Some (t, s\<lparr>pl_tokens := (pl_tokens s)(t \<mapsto> w)\<rparr>)
            else do {
              (q, s) \<leftarrow> f H (vt_parent w) s;
              Some (t, s\<lparr>pl_tokens := (pl_tokens s)(t \<mapsto> w\<lparr>vt_parent := q\<rparr>)\<rparr>)
            }
        }) = Some y"
    show "quiet s (snd y)"
      using b by (auto split: Option.bind_splits prod.splits if_splits
          dest!: IH dest: pmalloc_quiet [OF sym] pmalloc_quiet intro: quiet_trans)
  qed
  then show ?thesis by simp
qed

subsection \<open>What the plugin holds of the operating system\<close>

text \<open>
  \<open>vfio_total\<close> adds up what the open devices of the plugin record, \<open>books\<close> is what was acquired
  and not released and is recorded nowhere. No call changes the books: nothing the plugin acquires
  is forgotten as long as the object that records it is in the store.
\<close>

definition vfio_total :: "plugin \<Rightarrow> resource \<Rightarrow> int" where
  "vfio_total s r = (\<Sum>v\<in>dom (pl_vfios s). owned (the (pl_vfios s v)) r)"

definition books :: "host \<Rightarrow> plugin \<Rightarrow> resource \<Rightarrow> int" where
  "books H s r = balance (os H) (pl_trace s) r - vfio_total s r"

definition fresh :: "plugin \<Rightarrow> bool" where
  "fresh s \<longleftrightarrow> finite (dom (pl_vfios s)) \<and> (\<forall>v\<in>dom (pl_vfios s). 0 < v \<and> v < pl_brk s) \<and> 0 < pl_brk s"

text \<open>
  The locks of the library can be taken and the attribute objects destroyed, as the POSIX
  documentation promises for initialized ones.
\<close>

definition reliable :: "host \<Rightarrow> bool" where
  "reliable H \<longleftrightarrow> (\<forall>t. ans (os H) t C_lock = 0) \<and> (\<forall>t. ans (os H) t C_attr_destroy = 0)"

definition accounted :: "host \<Rightarrow> plugin \<Rightarrow> plugin \<Rightarrow> bool" where
  "accounted H s s' \<longleftrightarrow> pl_brk s \<le> pl_brk s' \<and>
     (fresh s \<longrightarrow> fresh s' \<and> (\<forall>r. r \<noteq> R_lock \<longrightarrow> books H s' r = books H s r))"

lemma accounted_refl [simp]: "accounted H s s"
  by (simp add: accounted_def)

lemma accounted_trans [trans]: "accounted H a b \<Longrightarrow> accounted H b c \<Longrightarrow> accounted H a c"
  by (auto simp: accounted_def)

lemma same_accounted:
  assumes "pl_vfios s' = pl_vfios s" "pl_trace s' = pl_trace s" "pl_brk s \<le> pl_brk s'"
  shows "accounted H s s'"
  using assms unfolding accounted_def fresh_def books_def vfio_total_def
  by (auto intro: less_le_trans)

lemma quiet_accounted: "quiet s s' \<Longrightarrow> accounted H s s'"
  by (simp add: same_accounted quiet_def)

lemma sum_owned_upd:
  assumes "finite (dom m)"
  shows "(\<Sum>x\<in>dom (m(v := w)). owned (the ((m(v := w)) x)) r) =
    (\<Sum>x\<in>dom m. owned (the (m x)) r) - (case m v of Some w' \<Rightarrow> owned w' r | None \<Rightarrow> 0)
      + (case w of Some w' \<Rightarrow> owned w' r | None \<Rightarrow> 0)"
proof -
  let ?f = "\<lambda>m x. owned (the (m x)) r" and ?m = "m(v := w)"
  have same: "(\<Sum>x\<in>dom m - {v}. ?f ?m x) = (\<Sum>x\<in>dom m - {v}. ?f m x)"
    by (intro sum.cong) auto
  have rest: "(\<Sum>x\<in>dom m - {v}. ?f m x) =
      (\<Sum>x\<in>dom m. ?f m x) - (case m v of Some w' \<Rightarrow> owned w' r | None \<Rightarrow> 0)"
    using assms by (auto simp: sum_diff1 domIff split: option.splits)
  show ?thesis
  proof (cases w)
    case None
    then have "dom ?m = dom m - {v}" by auto
    with None same rest show ?thesis by simp
  next
    case (Some w')
    then have d: "dom ?m = insert v (dom m - {v})" by auto
    have "(\<Sum>x\<in>dom ?m. ?f ?m x) = ?f ?m v + (\<Sum>x\<in>dom m - {v}. ?f ?m x)"
      unfolding d by (rule sum.insert) (use assms in simp_all)
    with Some same rest show ?thesis by simp
  qed
qed

lemma vfio_total_upd:
  "finite (dom (pl_vfios s)) \<Longrightarrow>
   vfio_total (s\<lparr>pl_vfios := (pl_vfios s)(v := w)\<rparr>) r =
     vfio_total s r - (case pl_vfios s v of Some w' \<Rightarrow> owned w' r | None \<Rightarrow> 0)
       + (case w of Some w' \<Rightarrow> owned w' r | None \<Rightarrow> 0)"
  unfolding vfio_total_def using sum_owned_upd [of "pl_vfios s" v w r] by simp

lemma vfio_total_trace [simp]: "vfio_total (s\<lparr>pl_trace := t\<rparr>) r = vfio_total s r"
  by (simp add: vfio_total_def)

text \<open>A call of the library on a device that stays open.\<close>

lemma device_call_accounted:
  assumes "pl_vfios s v = Some w"
    and bal: "\<And>r. balance (os H) t r - balance (os H) (pl_trace s) r = owned w' r - owned w r"
  shows "accounted H s (s\<lparr>pl_vfios := (pl_vfios s)(v \<mapsto> w'), pl_trace := t\<rparr>)"
proof -
  have "fresh s \<Longrightarrow> books H (s\<lparr>pl_vfios := (pl_vfios s)(v \<mapsto> w'), pl_trace := t\<rparr>) r = books H s r" for r
    using assms(1) bal [of r] vfio_total_upd [of s v "Some w'" r]
    by (simp add: fresh_def books_def)
  with assms(1) show ?thesis by (auto simp: accounted_def fresh_def)
qed

lemma device_init_not_9: "opae_vfio_device_init E d fd p tok t = Some (r, d', t') \<Longrightarrow> r \<noteq> 9"
  by (auto simp: opae_vfio_device_init_def Let_def split: Option.bind_splits prod.splits option.splits if_splits)

lemma group_init_not_9: "opae_vfio_group_init E g dev t = (r, g', t') \<Longrightarrow> r \<noteq> 9"
  by (auto simp: opae_vfio_group_init_def Let_def split: prod.splits option.splits if_splits)

lemma destroy_container_not_9:
  "destroy_container E a v t = (r, v', t') \<Longrightarrow> a \<noteq> 9 \<Longrightarrow> r \<noteq> 9"
  by (auto simp: destroy_container_def destroy_attr_def split: prod.splits if_splits)

lemma init_not_9:
  assumes "\<And>t. ans E t C_attr_destroy = 0" "opae_vfio_init E p tok t = Some (r, v, t')"
  shows "r \<noteq> 9"
  using assms(2)
  by (auto simp: opae_vfio_init_def init_device_def sys_eq Let_def destroy_attr_def assms(1)
      split: Option.bind_splits prod.splits if_splits
      dest: device_init_not_9 group_init_not_9 destroy_container_not_9 [OF _ device_init_not_9]
        destroy_container_not_9 [OF _ group_init_not_9] dest!: destroy_container_not_9)

text \<open>Opening a device at a free address puts an object there, with all that it holds recorded.\<close>

lemma opened_cases:
  assumes "reliable H"
    and "(case secret of
         None \<Rightarrow> opae_vfio_open (os H) (Some vfio_zero) (Some addr) t
       | Some tok \<Rightarrow> opae_vfio_secure_open (os H) (Some vfio_zero) (Some addr) (Some tok) t) =
       Some (a, w, t')"
    and "r \<noteq> R_lock"
  shows "\<exists>w'. w = Some w' \<and> balance (os H) t' r = balance (os H) t r + owned w' r \<and>
    (a = 0 \<or> owned w' r = 0)"
proof -
  have 9: "opae_vfio_init (os H) addr tok t0 = Some (a, w', t') \<Longrightarrow> a \<noteq> 9" for tok t0 w'
    using init_not_9 [of "os H"] assms(1) by (auto simp: reliable_def)
  show ?thesis
    using assms(2,3) init_ledger [of "os H" addr _ _ a _ t' r] 9
    by (fastforce simp: opae_vfio_open_def opae_vfio_secure_open_def sys_eq vfio_zero_owned
        split: option.splits Option.bind_splits prod.splits if_splits)
qed

lemma open_dev_result:
  assumes "reliable H" "open_dev H v addr secret s = Some (a, s')"
  shows "\<exists>w t. s' = s\<lparr>pl_vfios := (pl_vfios s)(v \<mapsto> w), pl_trace := t\<rparr> \<and>
    (\<forall>r. r \<noteq> R_lock \<longrightarrow> balance (os H) t r = balance (os H) (pl_trace s) r + owned w r \<and>
      (a = 0 \<or> owned w r = 0))"
proof -
  obtain w t where w: "s' = s\<lparr>pl_vfios := (pl_vfios s)(v \<mapsto> w), pl_trace := t\<rparr>"
    and o: "(case secret of
         None \<Rightarrow> opae_vfio_open (os H) (Some vfio_zero) (Some addr) (pl_trace s)
       | Some tok \<Rightarrow> opae_vfio_secure_open (os H) (Some vfio_zero) (Some addr) (Some tok) (pl_trace s))
       = Some (a, Some w, t)"
    using assms(2) by (auto simp: open_dev_def split: Option.bind_splits option.splits)
  from opened_cases [OF assms(1) o] w show ?thesis by auto
qed

lemma open_dev_accounted:
  assumes "reliable H" "open_dev H v addr secret s = Some (a, s')" "0 < v" "v < pl_brk s"
    and "pl_vfios s v = None"
  shows "accounted H s s' \<and> pl_vfios s' v \<noteq> None \<and> pl_vfios s' = (pl_vfios s)(v := pl_vfios s' v) \<and>
    pl_brk s' = pl_brk s \<and> (a \<noteq> 0 \<longrightarrow> accounted H s (s'\<lparr>pl_vfios := (pl_vfios s')(v := None)\<rparr>))"
proof -
  obtain w t where w: "s' = s\<lparr>pl_vfios := (pl_vfios s)(v \<mapsto> w), pl_trace := t\<rparr>"
    and bal: "\<And>r. r \<noteq> R_lock \<Longrightarrow> balance (os H) t r = balance (os H) (pl_trace s) r + owned w r \<and>
      (a = 0 \<or> owned w r = 0)"
    using open_dev_result [OF assms(1,2)] by auto
  have id: "(pl_vfios s)(v := None) = pl_vfios s" using assms(5) by (simp add: fun_upd_idem)
  have "fresh s \<Longrightarrow> r \<noteq> R_lock \<Longrightarrow> books H s' r = books H s r" for r
    using bal [of r] assms(5) vfio_total_upd [of s v "Some w" r]
    by (simp add: fresh_def books_def w)
  then show ?thesis
    using w assms(3-5) bal
    by (auto simp: accounted_def fresh_def books_def vfio_total_def id split: if_splits)
qed

lemma close_dev_accounted:
  assumes "reliable H" "close_dev H v s = Some s'"
  shows "accounted H s s' \<and> pl_vfios s v \<noteq> None \<and> pl_vfios s' = (pl_vfios s)(v := None) \<and>
    pl_brk s' = pl_brk s"
proof -
  obtain w w' t where w: "pl_vfios s v = Some w"
    and d: "opae_vfio_destroy (os H) w (C_lock # pl_trace s) = (w', t)"
    and s': "s' = s\<lparr>pl_vfios := (pl_vfios s)(v := None), pl_trace := t\<rparr>"
    using assms by (auto simp: close_dev_def opae_vfio_close_def reliable_def sys_eq
        split: Option.bind_splits prod.splits)
  have lock: "ans (os H) (pl_trace s) C_lock = 0" using assms(1) by (simp add: reliable_def)
  have "balance (os H) t r = balance (os H) (pl_trace s) r - owned w r" for r
    using destroy_ledger [OF d, of r] lock_delta [OF lock, of r] by simp
  then show ?thesis
    using w vfio_total_upd [of s v None]
    by (auto simp: s' accounted_def fresh_def books_def)
qed

lemma close_dev_defined: "pl_vfios s v \<noteq> None \<Longrightarrow> \<exists>s'. close_dev H v s = Some s'"
  by (auto simp: close_dev_def split: prod.splits)


text \<open>Steps that change no handle and no buffer of the plugin.\<close>

definition calm :: "plugin \<Rightarrow> plugin \<Rightarrow> bool" where
  "calm s s' \<longleftrightarrow> pl_handles s' = pl_handles s \<and> pl_buffers s' = pl_buffers s \<and>
     pl_dangling s' = pl_dangling s"

lemma quiet_calm: "quiet s s' \<Longrightarrow> calm s s'"
  by (simp add: quiet_def calm_def)

lemma calm_refl [simp]: "calm s s"
  by (simp add: calm_def)

lemma calm_trans [trans]: "calm a b \<Longrightarrow> calm b c \<Longrightarrow> calm a c"
  by (simp add: calm_def)

lemma calm_upd [simp]:
  "calm s (s'\<lparr>pl_vfios := x\<rparr>) = calm s s'" "calm s (s'\<lparr>pl_trace := y\<rparr>) = calm s s'"
  by (simp_all add: calm_def)

lemma open_dev_calm: "open_dev H v addr secret s = Some (a, s') \<Longrightarrow> calm s s'"
  by (auto simp: open_dev_def calm_def split: Option.bind_splits)

lemma close_dev_calm: "close_dev H v s = Some s' \<Longrightarrow> calm s s'"
  by (auto simp: close_dev_def calm_def split: Option.bind_splits prod.splits)

definition pair_devs :: "vfio_pair \<Rightarrow> ptr set" where
  "pair_devs p = {vp_device p, vp_physfn p} - {NULL}"

lemma close_pair_result:
  assumes "reliable H" "close_vfio_pair H pair s = Some s'"
  shows "accounted H s s' \<and> calm s s' \<and> pair_devs pair \<subseteq> dom (pl_vfios s) \<and>
    pl_vfios s' = (pl_vfios s) |` (- pair_devs pair) \<and> pl_brk s' = pl_brk s"
proof -
  obtain s1 where 1: "(if vp_device pair \<noteq> NULL then close_dev H (vp_device pair) s else Some s) = Some s1"
    and 2: "(if vp_physfn pair \<noteq> NULL then close_dev H (vp_physfn pair) s1 else Some s1) = Some s'"
    using assms(2) by (auto simp: close_vfio_pair_def split: Option.bind_splits)
  have a: "accounted H s s1" "calm s s1" "pl_vfios s1 = (pl_vfios s) |` (- ({vp_device pair} - {NULL}))"
      "vp_device pair \<noteq> NULL \<longrightarrow> vp_device pair \<in> dom (pl_vfios s)" "pl_brk s1 = pl_brk s"
    using 1 close_dev_accounted [OF assms(1), of "vp_device pair" s s1] close_dev_calm [of H "vp_device pair" s s1]
    by (auto simp: restrict_map_def split: if_splits)
  have b: "accounted H s1 s'" "calm s1 s'" "pl_vfios s' = (pl_vfios s1) |` (- ({vp_physfn pair} - {NULL}))"
      "vp_physfn pair \<noteq> NULL \<longrightarrow> vp_physfn pair \<in> dom (pl_vfios s1)" "pl_brk s' = pl_brk s1"
    using 2 close_dev_accounted [OF assms(1), of "vp_physfn pair" s1 s'] close_dev_calm [of H "vp_physfn pair" s1 s']
    by (auto simp: restrict_map_def split: if_splits)
  have "pl_vfios s' = (pl_vfios s) |` (- pair_devs pair)"
    unfolding a(3) b(3) by (auto simp: pair_devs_def restrict_map_def)
  with a b show ?thesis
    by (auto simp: pair_devs_def intro: accounted_trans calm_trans)
qed

lemma close_pair_defined:
  assumes "pair_devs pair \<subseteq> dom (pl_vfios s)" "vp_device pair \<noteq> vp_physfn pair"
  shows "\<exists>s'. close_vfio_pair H pair s = Some s'"
proof -
  have "vp_physfn pair \<noteq> NULL \<Longrightarrow> vp_device pair \<noteq> NULL \<Longrightarrow> close_dev H (vp_device pair) s = Some s1 \<Longrightarrow>
      pl_vfios s1 (vp_physfn pair) \<noteq> None" for s1
    using assms by (auto simp: close_dev_def pair_devs_def split: Option.bind_splits prod.splits)
  then show ?thesis
    using assms close_dev_defined [of s "vp_device pair" H] close_dev_defined [of s "vp_physfn pair" H]
      close_dev_defined [of _ "vp_physfn pair" H]
    by (auto simp: close_vfio_pair_def pair_devs_def split: Option.bind_splits)
qed

lemma physfn_of_quiet [quiet_steps]: "physfn_of H addr s = (p, s') \<Longrightarrow> quiet s s'"
  by (auto simp: physfn_of_def read_pci_link_def Let_def split: prod.splits if_splits option.splits
      dest!: psys_quiet intro: quiet_trans)

lemma pmalloc_new: "pmalloc H s = (p, s') \<Longrightarrow> p \<noteq> NULL \<Longrightarrow> p = pl_brk s \<and> pl_brk s' = Suc (pl_brk s)"
  by (auto simp: pmalloc_def psys_def split: if_splits)


lemma opened_device:
  assumes "reliable H" "open_dev H v addr secret s1 = Some (r, s2)"
    and "accounted H s s1" "calm s s1" "0 < v" "v < pl_brk s1" "pl_vfios s1 v = None"
  shows "accounted H s s2" "calm s s2" "pl_vfios s2 v \<noteq> None" "pl_brk s2 = pl_brk s1"
    "u \<noteq> v \<Longrightarrow> pl_vfios s2 u = pl_vfios s1 u"
    "r \<noteq> 0 \<Longrightarrow> accounted H s (s2\<lparr>pl_vfios := (pl_vfios s2)(v := None)\<rparr>)"
proof -
  note d = open_dev_accounted [OF assms(1,2,5-7)]
  show "accounted H s s2" "pl_vfios s2 v \<noteq> None" "pl_brk s2 = pl_brk s1"
    "r \<noteq> 0 \<Longrightarrow> accounted H s (s2\<lparr>pl_vfios := (pl_vfios s2)(v := None)\<rparr>)"
    using d accounted_trans [OF assms(3)] by auto
  show "calm s s2" by (rule calm_trans [OF assms(4) open_dev_calm [OF assms(2)]])
  show "u \<noteq> v \<Longrightarrow> pl_vfios s2 u = pl_vfios s1 u" using d by (metis fun_upd_apply)
qed

text \<open>
  Opening a pair adds its devices, at new addresses, and nothing else. When it fails an object can
  stay behind: a physical function that was opened before the device itself failed to open.
\<close>

definition pair_added :: "host \<Rightarrow> plugin \<Rightarrow> vfio_pair option \<Rightarrow> plugin \<Rightarrow> bool" where
  "pair_added H s p s' \<longleftrightarrow> accounted H s s' \<and> calm s s' \<and>
    (\<forall>v. v < pl_brk s \<longrightarrow> pl_vfios s' v = pl_vfios s v) \<and>
    (\<forall>pair. p = Some pair \<longrightarrow>
       vp_device pair \<noteq> NULL \<and> vp_device pair \<noteq> vp_physfn pair \<and>
       (\<forall>v\<in>pair_devs pair. pl_brk s \<le> v) \<and>
       dom (pl_vfios s') = dom (pl_vfios s) \<union> pair_devs pair)"


lemma quietD:
  assumes "quiet s s'"
  shows "pl_vfios s' = pl_vfios s" "pl_trace s' = pl_trace s" "pl_handles s' = pl_handles s"
    "pl_buffers s' = pl_buffers s" "pl_dangling s' = pl_dangling s" "pl_brk s \<le> pl_brk s'"
  using assms by (simp_all add: quiet_def)

lemma quiet_pair_added: "quiet s s' \<Longrightarrow> pair_added H s None s'"
  by (simp add: pair_added_def quiet_accounted quiet_calm quietD(1))

lemma open_alone:
  assumes rel: "reliable H" and q: "quiet s s3"
    and dev: "pl_brk s \<le> dev" "dev < pl_brk s3" "0 < dev" "pl_vfios s dev = None"
    and o: "open_dev H dev addr secret s3 = Some (r, s4)"
  shows "pair_added H s (if r \<noteq> 0 then None else Some \<lparr>vp_device = dev, vp_physfn = NULL\<rparr>)
     (if r \<noteq> 0 then s4\<lparr>pl_vfios := (pl_vfios s4)(dev := None)\<rparr> else s4)"
proof -
  note v = quietD(1) [OF q]
  have none: "pl_vfios s3 dev = None" using dev(4) v by simp
  note d = opened_device [OF rel o quiet_accounted [OF q] quiet_calm [OF q] dev(3,2) none]
  have "u \<in> dom (pl_vfios s4) \<longleftrightarrow> u = dev \<or> u \<in> dom (pl_vfios s)" for u
    using d(3) d(5) [of u] v by (cases "u = dev") (simp_all add: domIff)
  then have dom: "dom (pl_vfios s4) = insert dev (dom (pl_vfios s))" by blast
  have below: "u < pl_brk s \<Longrightarrow> pl_vfios s4 u = pl_vfios s u" for u
    using d(5) [of u] dev(1) v by simp
  show ?thesis
  proof (cases "r = 0")
    case True
    then show ?thesis using d(1,2) dom below dev by (auto simp: pair_added_def pair_devs_def)
  next
    case False
    then show ?thesis using d(2,6) below dev(1) by (simp add: pair_added_def)
  qed
qed

lemma open_both:
  assumes rel: "reliable H" and q: "quiet s s5"
    and new: "pl_brk s \<le> dev" "dev < pf" "pf < pl_brk s5" "0 < dev"
    and none: "pl_vfios s dev = None" "pl_vfios s pf = None"
    and o6: "open_dev H pf phys secret s5 = Some (r6, s6)"
    and o7: "r6 = 0 \<Longrightarrow> open_dev H dev addr secret s6 = Some (r7, s7)"
  shows "r6 \<noteq> 0 \<Longrightarrow> pair_added H s None (s6\<lparr>pl_vfios := (pl_vfios s6)(pf := None)\<rparr>)"
    "r6 = 0 \<Longrightarrow> pair_added H s (if r7 \<noteq> 0 then None else Some \<lparr>vp_device = dev, vp_physfn = pf\<rparr>)
       (if r7 \<noteq> 0 then s7\<lparr>pl_vfios := (pl_vfios s7)(dev := None)\<rparr> else s7)"
proof -
  note v = quietD(1) [OF q]
  have pf: "0 < pf" "pl_vfios s5 pf = None" using new none v by auto
  note d = opened_device [OF rel o6 quiet_accounted [OF q] quiet_calm [OF q] pf(1) new(3) pf(2)]
  have below6: "u < pl_brk s \<Longrightarrow> pl_vfios s6 u = pl_vfios s u" for u
    using d(5) [of u] new(1,2) v by simp
  show "r6 \<noteq> 0 \<Longrightarrow> pair_added H s None (s6\<lparr>pl_vfios := (pl_vfios s6)(pf := None)\<rparr>)"
    using d(2,6) below6 new(1,2) by (simp add: pair_added_def)
  assume r6: "r6 = 0"
  have dev6: "dev < pl_brk s6" "pl_vfios s6 dev = None"
    using d(4) d(5) [of dev] new(2,3) none(1) v by auto
  note e = opened_device [OF rel o7 [OF r6] d(1,2) new(4) dev6]
  have "u \<in> dom (pl_vfios s7) \<longleftrightarrow> u = dev \<or> u = pf \<or> u \<in> dom (pl_vfios s)" for u
    using e(3) e(5) [of u] d(3) d(5) [of u] v by (cases "u = dev"; cases "u = pf") (simp_all add: domIff)
  then have dom: "dom (pl_vfios s7) = insert dev (insert pf (dom (pl_vfios s)))" by blast
  have below: "u < pl_brk s \<Longrightarrow> pl_vfios s7 u = pl_vfios s u" for u
    using e(5) [of u] below6 [of u] new(1) by simp
  show "pair_added H s (if r7 \<noteq> 0 then None else Some \<lparr>vp_device = dev, vp_physfn = pf\<rparr>)
       (if r7 \<noteq> 0 then s7\<lparr>pl_vfios := (pl_vfios s7)(dev := None)\<rparr> else s7)"
  proof (cases "r7 = 0")
    case True
    then show ?thesis using e(1,2) dom below new by (auto simp: pair_added_def pair_devs_def)
  next
    case False
    then show ?thesis using e(2,6) below new(1) by (simp add: pair_added_def)
  qed
qed


lemma open_pair_result:
  assumes rel: "reliable H" and fr: "fresh s" and o: "open_vfio_pair H addr s = Some (p, s')"
  shows "pair_added H s p s'"
proof -
  have below: "pl_brk s \<le> v \<Longrightarrow> pl_vfios s v = None" for v
    using fr unfolding fresh_def by (meson domIff not_le)
  obtain a s1 where 1: "pmalloc H s = (a, s1)" by fastforce
  obtain dev s2 where 2: "pmalloc H s1 = (dev, s2)" by fastforce
  obtain phys s3 where 3: "physfn_of H addr s2 = (phys, s3)" by fastforce
  note q1 = pmalloc_quiet [OF 1]
  note q2 = quiet_trans [OF q1 pmalloc_quiet [OF 2]]
  note q3 = quiet_trans [OF q2 physfn_of_quiet [OF 3]]
  consider (a) "a = NULL" | (dev) "a \<noteq> NULL" "dev = NULL" | (ok) "a \<noteq> NULL" "dev \<noteq> NULL" by blast
  then show ?thesis
  proof cases
    case ok
    have brk: "pl_brk s \<le> dev" "dev < pl_brk s3" "0 < dev" "pl_vfios s dev = None"
      using pmalloc_new [OF 2] ok quietD(6) [OF q1] quietD(6) [OF physfn_of_quiet [OF 3]]
        below [of dev] by auto
    show ?thesis
    proof (cases phys)
      case None
      have o: "do {
          (r, s) \<leftarrow> open_dev H dev addr None s3;
          (if r \<noteq> 0 then Some (None, s\<lparr>pl_vfios := (pl_vfios s)(dev := None)\<rparr>)
           else Some (Some \<lparr>vp_device = dev, vp_physfn = NULL\<rparr>, s))
        } = Some (p, s')"
        using o ok None by (simp add: open_vfio_pair_def 1 2 3)
      then obtain r s4 where 4: "open_dev H dev addr None s3 = Some (r, s4)"
        by (cases "open_dev H dev addr None s3") auto
      from open_alone [OF rel q3 brk 4] show ?thesis
        using o 4 by (simp split: if_splits)
    next
      case (Some phys)
      let ?secret = "Some (uuid_reply H (pl_calls s3))"
      obtain r0 s4 where 4: "psys H P_uuid s3 = (r0, s4)" by fastforce
      obtain pf s5 where 5: "pmalloc H s4 = (pf, s5)" by fastforce
      note q5 = quiet_trans [OF q3 quiet_trans [OF psys_quiet [OF 4] pmalloc_quiet [OF 5]]]
      have o: "(if pf = NULL then Some (None, s5)
           else do {
             (r, s) \<leftarrow> open_dev H pf phys ?secret s5;
             (if r \<noteq> 0 then Some (None, s\<lparr>pl_vfios := (pl_vfios s)(pf := None)\<rparr>)
              else do {
                (r, s) \<leftarrow> open_dev H dev addr ?secret s;
                (if r \<noteq> 0 then Some (None, s\<lparr>pl_vfios := (pl_vfios s)(dev := None)\<rparr>)
                 else Some (Some \<lparr>vp_device = dev, vp_physfn = pf\<rparr>, s))
              })
           }) = Some (p, s')"
        using o ok Some
        by (cases "pf = NULL") (simp_all add: open_vfio_pair_def 1 2 3 4 5 Let_def)
      show ?thesis
      proof (cases "pf = NULL")
        case True
        then show ?thesis using o q5 by (auto intro: quiet_pair_added)
      next
        case pf: False
        have new: "dev < pf" "pf < pl_brk s5"
          using pmalloc_new [OF 5 pf] quietD(6) [OF psys_quiet [OF 4]] brk(2) by auto
        have none: "pl_vfios s pf = None" using below [of pf] brk(1) new(1) by simp
        obtain r6 s6 where 6: "open_dev H pf phys ?secret s5 = Some (r6, s6)"
          using o pf by (cases "open_dev H pf phys ?secret s5") auto
        obtain r7 s7 where 7: "r6 = 0 \<Longrightarrow> open_dev H dev addr ?secret s6 = Some (r7, s7)"
          using o pf 6 by (cases "open_dev H dev addr ?secret s6"; cases "r6 = 0") auto
        note b = open_both [OF rel q5 brk(1) new brk(3,4) none 6 7]
        show ?thesis
          using o pf 6 7 b by (cases "r6 = 0") (simp_all split: if_splits)
      qed
    qed
  qed (use o quiet_pair_added [OF q1] quiet_pair_added [OF q2] in \<open>simp_all add: open_vfio_pair_def 1 2\<close>)
qed


subsection \<open>The handles and their devices\<close>

text \<open>
  Every handle has its own device, and its own physical function where it has one, and both are
  in the store.
\<close>

definition handle_ok :: "plugin \<Rightarrow> ptr \<Rightarrow> vfio_handle \<Rightarrow> bool" where
  "handle_ok s h w \<longleftrightarrow> 0 < h \<and> h < pl_brk s \<and>
     vp_device (vh_pair w) \<noteq> NULL \<and> vp_device (vh_pair w) \<noteq> vp_physfn (vh_pair w) \<and>
     pair_devs (vh_pair w) \<subseteq> dom (pl_vfios s)"

definition handles_ok :: "plugin \<Rightarrow> bool" where
  "handles_ok s \<longleftrightarrow>
     (\<forall>h w. pl_handles s h = Some w \<longrightarrow> handle_ok s h w) \<and>
     (\<forall>h w h' w'. pl_handles s h = Some w \<longrightarrow> pl_handles s h' = Some w' \<longrightarrow> h \<noteq> h' \<longrightarrow>
        pair_devs (vh_pair w) \<inter> pair_devs (vh_pair w') = {})"

definition plugin_inv :: "plugin \<Rightarrow> bool" where
  "plugin_inv s \<longleftrightarrow> fresh s \<and> handles_ok s"

definition sound :: "host \<Rightarrow> plugin \<Rightarrow> plugin \<Rightarrow> bool" where
  "sound H s s' \<longleftrightarrow> (plugin_inv s \<longrightarrow>
     plugin_inv s' \<and> (\<forall>r. r \<noteq> R_lock \<longrightarrow> books H s' r = books H s r))"

lemma sound_refl [simp]: "sound H s s"
  by (simp add: sound_def)

lemma sound_trans [trans]: "sound H a b \<Longrightarrow> sound H b c \<Longrightarrow> sound H a c"
  by (auto simp: sound_def)

lemma keeps_handles:
  assumes "accounted H s s'" "pl_handles s' = pl_handles s" "dom (pl_vfios s) \<subseteq> dom (pl_vfios s')"
  shows "sound H s s'"
proof -
  have "pl_brk s \<le> pl_brk s'" using assms(1) by (simp add: accounted_def)
  then have "handle_ok s h w \<Longrightarrow> handle_ok s' h w" for h w
    using subset_trans [OF _ assms(3)] by (simp add: handle_ok_def)
  then have "handles_ok s \<Longrightarrow> handles_ok s'"
    unfolding handles_ok_def assms(2) by blast
  with assms show ?thesis by (simp add: sound_def plugin_inv_def accounted_def)
qed

lemma quiet_sound: "quiet s s' \<Longrightarrow> sound H s s'"
  by (rule keeps_handles) (simp_all add: quiet_accounted quietD)


lemma walk_cases:
  assumes "vfio_walk H p s = Some (r, s')"
  obtains (unopened) addr where "open_vfio_pair H addr s = Some (None, s')"
  | (walked) addr pair s1 s2 where "open_vfio_pair H addr s = Some (Some pair, s1)"
      "quiet s1 s2" "close_vfio_pair H pair s2 = Some s'"
proof -
  obtain d pair s1 where d: "pl_devices s p = Some d"
    and 1: "open_vfio_pair H (pd_addr d) s = Some (pair, s1)"
    using assms by (auto simp: vfio_walk_def split: Option.bind_splits)
  show thesis
  proof (cases pair)
    case None
    with assms d 1 show thesis by (intro unopened) (simp add: vfio_walk_def)
  next
    case (Some pair)
    with assms d 1 obtain v s2 where "walk_regions H p v s1 = Some (r, s2)"
      "close_vfio_pair H pair s2 = Some s'"
      by (auto simp: vfio_walk_def split: Option.bind_splits)
    with 1 Some show thesis by (intro walked) (auto dest: walk_regions_quiet)
  qed
qed

text \<open>Walking a device opens and closes it: no object is added but a forgotten physical function.\<close>

lemma walk_frame:
  assumes rel: "reliable H" and fr: "fresh s" and w: "vfio_walk H p s = Some (r, s')"
  shows "accounted H s s' \<and> calm s s' \<and> dom (pl_vfios s) \<subseteq> dom (pl_vfios s')"
  using w
proof (cases rule: walk_cases)
  case (unopened addr)
  have old: "v \<in> dom (pl_vfios s) \<Longrightarrow> v < pl_brk s" for v using fr by (simp add: fresh_def)
  from open_pair_result [OF rel fr unopened] old show ?thesis
    unfolding pair_added_def by (metis domIff subsetI)
next
  case (walked addr pair s1 s2)
  have old: "v \<in> dom (pl_vfios s) \<Longrightarrow> v < pl_brk s" for v using fr by (simp add: fresh_def)
  note o = open_pair_result [OF rel fr walked(1), unfolded pair_added_def]
  note c = close_pair_result [OF rel walked(3)]
  have "accounted H s s'"
    by (rule accounted_trans [OF _ accounted_trans [OF quiet_accounted [OF walked(2)]]]) (use o c in auto)
  moreover have "calm s s'"
    by (rule calm_trans [OF _ calm_trans [OF quiet_calm [OF walked(2)]]]) (use o c in auto)
  moreover have "dom (pl_vfios s) \<subseteq> dom (pl_vfios s')"
  proof
    fix v assume "v \<in> dom (pl_vfios s)"
    moreover from this old o have "v \<notin> pair_devs pair" by (metis not_le)
    ultimately show "v \<in> dom (pl_vfios s')"
      using c o quietD(1) [OF walked(2)] by (simp add: dom_restrict)
  qed
  ultimately show ?thesis by simp
qed

lemma walk_sound: "reliable H \<Longrightarrow> vfio_walk H p s = Some (r, s') \<Longrightarrow> sound H s s'"
  using walk_frame [of H s p r s'] keeps_handles [of H s s']
  by (auto simp: sound_def plugin_inv_def calm_def)

lemma enum_tokens_quiet [quiet_steps]:
  "enum_tokens H fs m ts n out s = Some (n', out', s') \<Longrightarrow> quiet s s'"
proof (induction ts arbitrary: n out s)
  case (Cons t ts)
  from Cons.prems show ?case
    by (auto split: Option.bind_splits if_splits dest!: clone_token_quiet Cons.IH intro: quiet_trans)
qed simp

lemma enum_devices_sound:
  assumes "reliable H"
  shows "enum_devices H fs m ps n out s = Some (n', out', s') \<Longrightarrow> sound H s s'"
proof (induction ps arbitrary: n out s)
  case (Cons p ps)
  from Cons.prems show ?case
    by (auto split: Option.bind_splits if_splits
        dest!: walk_sound [OF assms] quiet_sound [OF enum_tokens_quiet] Cons.IH
        intro: sound_trans [OF sound_trans])
qed simp

lemma enumerate_sound:
  "reliable H \<Longrightarrow> vfio_fpgaEnumerate H fs m s = Some (r, out, n, s') \<Longrightarrow> sound H s s'"
  by (auto simp: vfio_fpgaEnumerate_def split: Option.bind_splits dest: enum_devices_sound)


text \<open>Opening devices changes no token.\<close>

lemma snd_psys_tokens: "pl_tokens (snd (psys H c s)) = pl_tokens s"
  by (simp add: psys_def)

lemma pmalloc_tokens: "pmalloc H s = (p, s') \<Longrightarrow> pl_tokens s' = pl_tokens s"
  by (auto simp: pmalloc_def psys_def split: if_splits)

lemma physfn_of_tokens: "physfn_of H addr s = (p, s') \<Longrightarrow> pl_tokens s' = pl_tokens s"
  by (auto simp: physfn_of_def read_pci_link_def psys_def Let_def split: if_splits option.splits)

lemma open_dev_tokens: "open_dev H v addr secret s = Some (r, s') \<Longrightarrow> pl_tokens s' = pl_tokens s"
  by (auto simp: open_dev_def split: Option.bind_splits)

lemma open_pair_tokens:
  "open_vfio_pair H addr s = Some (p, s') \<Longrightarrow> pl_tokens s' = pl_tokens s"
  unfolding open_vfio_pair_def psys_def
  by (auto simp: Let_def split: prod.splits if_splits option.splits Option.bind_splits
      dest!: pmalloc_tokens physfn_of_tokens open_dev_tokens)

lemma clone_token_live:
  assumes "clone_token H src s = Some (t, s')"
  shows "t = NULL \<or> t \<in> dom (pl_tokens s')"
  using assms by (subst (asm) clone_token.simps) (auto split: Option.bind_splits prod.splits if_splits)

text \<open>The ways through \<^verbatim>\<open>vfio_fpgaOpen\<close>.\<close>

lemma open_cases:
  assumes "vfio_fpgaOpen H token out s = Some (r, hp, s')"
  obtains (refused) "r \<noteq> FPGA_OK" "hp = None" "quiet s s'"
  | (no_pair) s1 addr s2 where "r \<noteq> FPGA_OK" "hp = None" "quiet s s1"
      "open_vfio_pair H addr s1 = Some (None, s2)" "quiet s2 s'"
  | (no_region) s1 addr pair s2 s3 where "r \<noteq> FPGA_OK" "hp = None" "quiet s s1"
      "open_vfio_pair H addr s1 = Some (Some pair, s2)" "quiet s2 s3"
      "close_vfio_pair H pair s3 = Some s'"
  | (opened) s1 addr pair s2 h w where "r = FPGA_OK" "hp = Some h" "quiet s s1"
      "pl_brk s \<le> h" "h < pl_brk s1" "h \<noteq> NULL" "vh_magic w = VFIO_HANDLE_MAGIC" "vh_pair w = pair"
      "vh_token w = NULL \<or> vh_token w \<in> dom (pl_tokens s')"
      "open_vfio_pair H addr s1 = Some (Some pair, s2)"
      "s' = snd (psys H P_attr_destroy (s2\<lparr>pl_handles := (pl_handles s2)(h \<mapsto> w)\<rparr>))"
proof -
  obtain r1 s1 where 1: "psys H P_attr_init s = (r1, s1)" by fastforce
  obtain h s2 where 2: "pmalloc H s1 = (h, s2)" by fastforce
  obtain r3 s3 where 3: "psys H P_attr_settype s2 = (r3, s3)" by fastforce
  obtain r4 s4 where 4: "psys H P_mutex_init s3 = (r4, s4)" by fastforce
  note q1 = psys_quiet [OF 1]
  note q2 = quiet_trans [OF q1 pmalloc_quiet [OF 2]]
  note q3 = quiet_trans [OF q2 psys_quiet [OF 3]]
  note q4 = quiet_trans [OF q3 psys_quiet [OF 4]]
  let ?early = "token = NULL \<or> \<not> out \<or> token_check s token = Some None \<or> r1 \<noteq> 0 \<or> h = NULL \<or>
    r3 \<noteq> 0 \<or> r4 \<noteq> 0"
  show thesis
  proof (cases ?early)
    case True
    then have "r \<noteq> FPGA_OK \<and> hp = None \<and> quiet s s'"
      using assms q1 q2 q3 q4 unfolding vfio_fpgaOpen_def 1 2 3 4 Let_def prod.case
      by (cases "token_check s token") (auto split: option.splits if_splits)
    then show thesis by (intro refused) auto
  next
    case False
    then obtain tok where tok: "token_check s token = Some (Some tok)"
      using assms by (cases "token_check s token") (auto simp: vfio_fpgaOpen_def)
    have "finish_open H token tok h s4 = Some (r, hp, s')"
      using assms False tok unfolding vfio_fpgaOpen_def by (simp add: 1 2 3 4 Let_def)
    note o = this [unfolded finish_open_def]
    from o obtain c s5 dev pair s6 where 5: "clone_token H token s4 = Some (c, s5)"
      and d: "pl_devices s5 (vt_device tok) = Some dev"
      and 6: "open_vfio_pair H (pd_addr dev) s5 = Some (pair, s6)"
      by (auto split: Option.bind_splits)
    note q5 = quiet_trans [OF q4 clone_token_quiet [OF 5]]
    have h: "pl_brk s \<le> h" "h < pl_brk s5" "h \<noteq> NULL"
      using pmalloc_new [OF 2] False quietD(6) [OF q1] quietD(6) [OF psys_quiet [OF 3]]
        quietD(6) [OF psys_quiet [OF 4]] quietD(6) [OF clone_token_quiet [OF 5]] by auto
    show thesis
    proof (cases pair)
      case None
      with o 5 d 6 show thesis by (intro no_pair [OF _ _ q5, of _ s6]) auto
    next
      case p: (Some pair)
      with o 5 d 6 obtain v where v: "pl_vfios s6 (vp_device pair) = Some v"
        by (auto split: Option.bind_splits)
      show thesis
      proof (cases "snd (opae_vfio_region_get (Some v) (vt_region tok))")
        case None
        with o 5 d 6 p v show thesis
          by (intro no_region [OF _ _ q5, of _ pair s6]) (auto split: prod.splits Option.bind_splits)
      next
        case (Some m)
        obtain code base sz where m: "opae_vfio_region_get (Some v) (vt_region tok) = (code, Some (base, sz))"
          using Some by (metis prod.collapse)
        show thesis
          using o 5 d 6 p v m clone_token_live [OF 5] open_pair_tokens [OF 6]
          by (intro opened [where w = "\<lparr>vh_magic = VFIO_HANDLE_MAGIC, vh_token = c, vh_pair = pair,
                vh_mmio_base = base, vh_mmio_size = sz, vh_flags = (if has_avx512 H then 1 else 0)\<rparr>",
                OF _ _ q5 h _ _ _ 6 [unfolded p]]) (auto simp: snd_psys_tokens)
      qed
    qed
  qed
qed


lemma pair_added_sound:
  assumes "fresh s" "pair_added H s None s'"
  shows "sound H s s'"
proof (rule keeps_handles)
  have old: "v \<in> dom (pl_vfios s) \<Longrightarrow> v < pl_brk s" for v using assms(1) by (simp add: fresh_def)
  show "dom (pl_vfios s) \<subseteq> dom (pl_vfios s')"
    using assms(2) old unfolding pair_added_def by (metis domIff subsetI)
qed (use assms(2) in \<open>simp_all add: pair_added_def calm_def\<close>)

text \<open>A pair that was opened and closed again.\<close>

lemma pair_closed_sound:
  assumes rel: "reliable H" and fr: "fresh s" and o: "pair_added H s (Some pair) s1"
    and q: "quiet s1 s2" and c: "close_vfio_pair H pair s2 = Some s'"
  shows "sound H s s' \<and> dom (pl_vfios s') = dom (pl_vfios s)"
proof -
  have old: "v \<in> dom (pl_vfios s) \<Longrightarrow> v < pl_brk s" for v using fr by (simp add: fresh_def)
  note o = o [unfolded pair_added_def]
  note c = close_pair_result [OF rel c]
  have "v \<notin> pair_devs pair" if "v \<in> dom (pl_vfios s)" for v
    using that old o by (metis not_le)
  then have d: "dom (pl_vfios s') = dom (pl_vfios s)"
    using c o quietD(1) [OF q] by (auto simp: dom_restrict)
  have "accounted H s s'"
    by (rule accounted_trans [OF _ accounted_trans [OF quiet_accounted [OF q]]]) (use o c in auto)
  moreover have "pl_handles s' = pl_handles s"
    using o c quietD(3) [OF q] by (simp add: calm_def)
  ultimately show ?thesis using d keeps_handles by simp
qed

lemma handle_added_sound:
  assumes "plugin_inv s" "pair_added H s (Some pair) s1" "pl_handles s' = (pl_handles s1)(h \<mapsto> w)"
    and "vh_pair w = pair" "pl_vfios s' = pl_vfios s1" "pl_trace s' = pl_trace s1"
    "pl_brk s1 \<le> pl_brk s'" "0 < h" "h < pl_brk s" "pl_handles s h = None"
  shows "plugin_inv s' \<and> (\<forall>r. r \<noteq> R_lock \<longrightarrow> books H s' r = books H s r)"
proof -
  have acc: "accounted H s s'"
    using assms(2) same_accounted [OF assms(5-7), of H]
    by (auto simp: pair_added_def intro: accounted_trans)
  have hs: "pl_handles s' = (pl_handles s)(h \<mapsto> w)"
    using assms(2,3) by (simp add: pair_added_def calm_def)
  have dom: "dom (pl_vfios s') = dom (pl_vfios s) \<union> pair_devs pair"
    and new: "\<forall>v\<in>pair_devs pair. pl_brk s \<le> v"
      "vp_device pair \<noteq> NULL" "vp_device pair \<noteq> vp_physfn pair"
    using assms(2,5) by (auto simp: pair_added_def)
  have ok: "handles_ok s" and fr: "fresh s" using assms(1) by (simp_all add: plugin_inv_def)
  have brk: "pl_brk s \<le> pl_brk s'" using acc by (simp add: accounted_def)
  have old: "v < pl_brk s" if "v \<in> dom (pl_vfios s)" for v
    using that fr by (simp add: fresh_def)
  have apart: "pair_devs pair \<inter> pair_devs (vh_pair w') = {}" if "pl_handles s h' = Some w'" for h' w'
  proof -
    have "pair_devs (vh_pair w') \<subseteq> dom (pl_vfios s)"
      using that ok by (simp add: handles_ok_def handle_ok_def)
    with old new(1) show ?thesis by (meson disjoint_iff not_le subsetD)
  qed
  have "handle_ok s' h w" using new(2,3) dom assms(4,8,9) brk by (simp add: handle_ok_def)
  moreover have "handle_ok s' g u" if "pl_handles s g = Some u" for g u
    using that ok brk unfolding handles_ok_def handle_ok_def dom
    by (meson le_supI1 less_le_trans)
  ultimately have "handles_ok s'"
    using ok apart assms(4) unfolding handles_ok_def hs
    by (auto simp: Int_commute split: if_splits)
  with acc fr show ?thesis by (simp add: accounted_def plugin_inv_def)
qed


lemma handle_free:
  assumes "plugin_inv s" "pl_brk s \<le> h"
  shows "pl_handles s h = None"
proof (cases "pl_handles s h")
  case (Some w)
  then have "handle_ok s h w" using assms(1) by (simp add: plugin_inv_def handles_ok_def)
  with assms(2) show ?thesis by (simp add: handle_ok_def)
qed

lemma open_sound:
  assumes "reliable H" "vfio_fpgaOpen H token out s = Some (r, hp, s')"
  shows "sound H s s'"
proof (cases "plugin_inv s")
  case inv: True
  have start: "fresh s1 \<and> plugin_inv s1" if "quiet s s1" for s1
    using quiet_sound [OF that, of H] inv by (simp add: sound_def plugin_inv_def)
  show ?thesis
    using assms(2)
  proof (cases rule: open_cases)
    case refused
    then show ?thesis by (simp add: quiet_sound)
  next
    case (no_pair s1 addr s2)
    from open_pair_result [OF assms(1) _ no_pair(4)] start [OF no_pair(3)]
    have "sound H s1 s2" by (simp add: pair_added_sound)
    with no_pair(3,5) show ?thesis by (meson quiet_sound sound_trans)
  next
    case (no_region s1 addr pair s2 s3)
    from open_pair_result [OF assms(1) _ no_region(4)] start [OF no_region(3)]
    have "sound H s1 s'" using pair_closed_sound [OF assms(1) _ _ no_region(5,6)] by simp
    with no_region(3) show ?thesis by (meson quiet_sound sound_trans)
  next
    case (opened s1 addr pair s2 h w)
    have "plugin_inv s' \<and> (\<forall>r. r \<noteq> R_lock \<longrightarrow> books H s' r = books H s1 r)"
    proof (rule handle_added_sound)
      show "pair_added H s1 (Some pair) s2"
        by (rule open_pair_result [OF assms(1) _ opened(10)]) (use start [OF opened(3)] in simp)
      show "pl_handles s1 h = None"
        using handle_free [OF inv opened(4)] quietD(3) [OF opened(3)] by simp
    qed (use opened start [OF opened(3)] in \<open>simp_all add: psys_def\<close>)
    with quiet_sound [OF opened(3), of H] show ?thesis by (simp add: sound_def)
  qed
qed (simp add: sound_def)

lemma handle_removed_sound:
  assumes "plugin_inv s" "pl_handles s h = Some w" "accounted H s s1"
    and "pl_vfios s1 = (pl_vfios s) |` (- pair_devs (vh_pair w))" "pl_handles s1 = pl_handles s"
    and "quiet s1 s2" "s' = s2\<lparr>pl_handles := (pl_handles s2)(h := None)\<rparr>"
  shows "plugin_inv s'" "r \<noteq> R_lock \<Longrightarrow> books H s' r = books H s r"
proof -
  have acc: "accounted H s s'"
    using same_accounted [of s' s1 H] assms(3,6,7) accounted_trans by (auto simp: quiet_def)
  have hs: "pl_handles s' = (pl_handles s)(h := None)" and v: "pl_vfios s' = pl_vfios s1"
    using assms(5-7) by (auto simp: quiet_def)
  have ok: "handles_ok s" using assms(1) by (simp add: plugin_inv_def)
  have brk: "pl_brk s \<le> pl_brk s'" using acc by (simp add: accounted_def)
  have "handle_ok s' g u" if g: "pl_handles s g = Some u" "g \<noteq> h" for g u
  proof -
    have "pair_devs (vh_pair u) \<inter> pair_devs (vh_pair w) = {}"
      using g assms(2) ok by (simp add: handles_ok_def)
    moreover have "handle_ok s g u" using g ok by (simp add: handles_ok_def)
    ultimately show ?thesis
      using brk unfolding handle_ok_def v assms(4) dom_restrict by auto
  qed
  then have "handles_ok s'" using ok unfolding handles_ok_def hs by (auto split: if_splits)
  with acc assms(1) show "plugin_inv s'" "r \<noteq> R_lock \<Longrightarrow> books H s' r = books H s r"
    by (simp_all add: accounted_def plugin_inv_def)
qed


lemma handle_lock_cases:
  assumes "handle_check_and_lock H h s = Some (w, s')"
  shows "quiet s s' \<and> (\<forall>w'. w = Some w' \<longrightarrow> h \<noteq> NULL \<and> pl_handles s h = Some w' \<and>
    vh_magic w' = VFIO_HANDLE_MAGIC)"
  using assms
  by (auto simp: handle_check_and_lock_def handle_check_def split: Option.bind_splits option.splits
      prod.splits if_splits dest: psys_quiet)

lemma event_lock_cases:
  assumes "event_handle_check_and_lock H e s = Some (w, s')"
  shows "quiet s s'"
  using assms
  by (auto simp: event_handle_check_and_lock_def split: Option.bind_splits option.splits
      prod.splits if_splits dest: psys_quiet)

lemma close_cases:
  assumes "vfio_fpgaClose H h s = Some (r, s')"
  obtains (refused) "r = FPGA_INVALID_PARAM" "quiet s s'"
  | (closed) w s1 s2 s3 where "pl_handles s h = Some w" "quiet s s1"
      "close_vfio_pair H (vh_pair w) s1 = Some s2" "quiet s2 s3"
      "s' = s3\<lparr>pl_handles := (pl_handles s3)(h := None)\<rparr>"
proof -
  obtain w s1 where 1: "handle_check_and_lock H h s = Some (w, s1)"
    using assms by (auto simp: vfio_fpgaClose_def split: Option.bind_splits)
  note l = handle_lock_cases [OF 1]
  show thesis
  proof (cases w)
    case None
    with assms 1 l show thesis by (intro refused) (simp_all add: vfio_fpgaClose_def)
  next
    case (Some w)
    then obtain tok s2 where tok: "token_check s1 (vh_token w) = Some tok"
      and 2: "close_vfio_pair H (vh_pair w)
        (if tok \<noteq> None then s1\<lparr>pl_tokens := (pl_tokens s1)(vh_token w := None)\<rparr> else s1) = Some s2"
      using assms 1 by (auto simp: vfio_fpgaClose_def split: Option.bind_splits)
    obtain r3 s3 where 3: "psys H P_unlock s2 = (r3, s3)" by fastforce
    obtain r4 s4 where 4: "psys H P_mutex_destroy s3 = (r4, s4)" by fastforce
    let ?s = "if r3 \<noteq> 0 then s3 else s4"
    have "quiet s2 ?s" using psys_quiet [OF 3] psys_quiet [OF 4] by (auto intro: quiet_trans)
    moreover have "s' = ?s\<lparr>pl_handles := (pl_handles ?s)(h := None)\<rparr>"
      using assms 1 2 3 4 Some tok by (auto simp: vfio_fpgaClose_def split: if_splits)
    ultimately show thesis
      using l Some 2 by (intro closed [of w _ s2 ?s]) (auto split: if_splits)
  qed
qed

lemma close_defined:
  assumes "pl_handles s h = Some w" "h \<noteq> NULL" "vh_magic w = VFIO_HANDLE_MAGIC"
    "vh_token w = NULL \<or> vh_token w \<in> dom (pl_tokens s)" "\<And>cs. pans H cs P_lock = 0"
    "pair_devs (vh_pair w) \<subseteq> dom (pl_vfios s)" "vp_device (vh_pair w) \<noteq> vp_physfn (vh_pair w)"
  shows "\<exists>r s'. vfio_fpgaClose H h s = Some (r, s') \<and> r \<in> {FPGA_OK, FPGA_EXCEPTION} \<and>
    ((\<forall>cs. pans H cs P_unlock = 0) \<and> (\<forall>cs. pans H cs P_mutex_destroy = 0) \<longrightarrow> r = FPGA_OK)"
proof -
  obtain s1 where 1: "handle_check_and_lock H h s = Some (Some w, s1)"
    and s1: "pl_tokens s1 = pl_tokens s" "pl_vfios s1 = pl_vfios s"
    using assms(1-3,5) by (simp add: handle_check_and_lock_def handle_check_def psys_def)
  obtain tok where tok: "token_check s1 (vh_token w) = Some tok"
    using assms(4) s1(1) unfolding token_check_def
    by (cases "vh_token w = NULL"; cases "pl_tokens s (vh_token w)") auto
  define u where "u = (if tok \<noteq> None then s1\<lparr>pl_tokens := (pl_tokens s1)(vh_token w := None)\<rparr> else s1)"
  have "pl_vfios u = pl_vfios s" using s1(2) by (simp add: u_def)
  then obtain s2 where 2: "close_vfio_pair H (vh_pair w) u = Some s2"
    using close_pair_defined [of "vh_pair w" u H] assms(6,7) by auto
  show ?thesis
    using 1 tok 2 by (auto simp: vfio_fpgaClose_def u_def psys_def)
qed

lemma close_sound:
  assumes "reliable H" "vfio_fpgaClose H h s = Some (r, s')"
  shows "sound H s s'"
  using assms(2)
proof (cases rule: close_cases)
  case refused
  then show ?thesis by (simp add: quiet_sound)
next
  case (closed w s1 s2 s3)
  note c = close_pair_result [OF assms(1) closed(3)]
  have "accounted H s s2" using quiet_accounted [OF closed(2), of H] c by (auto intro: accounted_trans)
  moreover have "pl_vfios s2 = (pl_vfios s) |` (- pair_devs (vh_pair w))" "pl_handles s2 = pl_handles s"
    using c quietD(1,3) [OF closed(2)] by (simp_all add: calm_def)
  ultimately show ?thesis
    using handle_removed_sound [OF _ closed(1) _ _ _ closed(4,5)] by (simp add: sound_def)
qed


text \<open>Calls on a device that stays open.\<close>

lemma device_call_sound:
  assumes "pl_vfios s v = Some w"
    and "\<And>r. balance (os H) t r - balance (os H) (pl_trace s) r = owned w' r - owned w r"
  shows "sound H s (s\<lparr>pl_vfios := (pl_vfios s)(v \<mapsto> w'), pl_trace := t\<rparr>)"
  by (rule keeps_handles [OF device_call_accounted [OF assms]]) auto

lemma trace_call_sound:
  assumes "\<And>r. balance (os H) t r = balance (os H) (pl_trace s) r"
  shows "sound H s (s\<lparr>pl_trace := t\<rparr>)"
  by (rule keeps_handles) (use assms in \<open>auto simp: accounted_def fresh_def books_def\<close>)

lemma free_dev_buffer_result:
  assumes "free_dev_buffer H v p s = Some s'"
  shows "sound H s s' \<and> pl_buffers s' = pl_buffers s \<and> pl_dangling s' = pl_dangling s \<and>
    pl_handles s' = pl_handles s \<and> pl_brk s' = pl_brk s"
proof -
  obtain w r w' t where w: "pl_vfios s v = Some w" "buffer_free (os H) w p (pl_trace s) = (r, w', t)"
    and s': "s' = s\<lparr>pl_vfios := (pl_vfios s)(v \<mapsto> w'), pl_trace := t\<rparr>"
    using assms by (auto simp: free_dev_buffer_def opae_vfio_buffer_free_def
        split: Option.bind_splits prod.splits option.splits)
  from device_call_sound [OF w(1) buffer_free_ledger [OF w(2)]] s' show ?thesis by simp
qed

lemma drop_buffers_sound [simp]:
  "sound H s (s'\<lparr>pl_buffers := x\<rparr>) = sound H s s'" "sound H s (s'\<lparr>pl_dangling := d\<rparr>) = sound H s s'"
  "sound H s (s'\<lparr>pl_events := e\<rparr>) = sound H s s'"
  by (simp_all add: sound_def plugin_inv_def fresh_def handles_ok_def handle_ok_def books_def vfio_total_def)

lemma buffers_before_sound [simp]:
  "sound H (s\<lparr>pl_buffers := x\<rparr>) s' = sound H s s'" "sound H (s\<lparr>pl_events := e\<rparr>) s' = sound H s s'"
  by (simp_all add: sound_def plugin_inv_def fresh_def handles_ok_def handle_ok_def books_def vfio_total_def)

lemma punlock_sound [simp]: "sound H s (punlock H s') = sound H s s'"
  by (simp add: punlock_def psys_def sound_def plugin_inv_def fresh_def handles_ok_def handle_ok_def
      books_def vfio_total_def)

lemma allocate_call_sound:
  assumes "pl_vfios s v = Some w"
    and "opae_vfio_buffer_allocate (os H) (Some w) (Some sz) True True (pl_trace s) = (ar, Some w', t)"
  shows "sound H s (s\<lparr>pl_vfios := (pl_vfios s)(v \<mapsto> w'), pl_trace := t\<rparr>)"
  using device_call_sound [OF assms(1) buffer_allocate_ledger] assms(2)
  by (auto simp: opae_vfio_buffer_allocate_def split: prod.splits)


lemma undo_buffer_result:
  assumes "undo_buffer H v virt u = Some s'" "sound H s u"
  shows "sound H s s' \<and> pl_buffers s' = pl_buffers u \<and> pl_dangling s' = pl_dangling u \<and>
    pl_handles s' = pl_handles u"
  using assms free_dev_buffer_result [of H v virt u s']
  by (auto simp: undo_buffer_def split: if_splits intro: sound_trans)

text \<open>The ways through \<^verbatim>\<open>vfio_fpgaPrepareBuffer\<close>.\<close>

lemma link_buffer_cases:
  assumes "link_buffer H v virt iova sz s = Some (r, res, s')"
  obtains (failed) "r \<noteq> FPGA_OK" "res = None" "sound H s s'" "pl_buffers s' = pl_buffers s"
      "pl_dangling s' = pl_dangling s" "pl_handles s' = pl_handles s"
  | (freed_head) "r = FPGA_EXCEPTION" "pl_dangling s'" "sound H s s'" "pl_handles s' = pl_handles s"
  | (linked) b s1 s2 s3 where "r = FPGA_OK" "res = Some (virt, next_wsid (pl_buffers s))"
      "\<not> pl_dangling s" "pmalloc H s = (b, s1)" "psys H P_lock s1 = (0, s2)" "psys H P_unlock s3 = (0, s')"
      "s3 = s2\<lparr>pl_buffers := \<lparr>vb_virtual = virt, vb_iova = iova, vb_wsid = next_wsid (pl_buffers s),
                 vb_size = sz, vb_device = v\<rparr> # pl_buffers s\<rparr>"
proof -
  obtain b s1 where 1: "pmalloc H s = (b, s1)" by fastforce
  obtain r2 s2 where 2: "psys H P_lock s1 = (r2, s2)" by fastforce
  note q1 = pmalloc_quiet [OF 1]
  note q2 = quiet_trans [OF q1 psys_quiet [OF 2]]
  show thesis
  proof (cases "b = NULL")
    case True
    then have f: "free_dev_buffer H v virt s1 = Some s'" "r = FPGA_NO_MEMORY" "res = None"
      using assms by (auto simp: link_buffer_def 1 split: Option.bind_splits)
    from free_dev_buffer_result [OF f(1)] quiet_sound [OF q1, of H] quietD [OF q1] f show thesis
      by (intro failed) (auto intro: sound_trans)
  next
    case b: False
    show thesis
    proof (cases "r2 = 0")
      case False
      then have f: "undo_buffer H v virt s2 = Some s'" "r = FPGA_EXCEPTION" "res = None"
        using assms b by (auto simp: link_buffer_def 1 2 split: Option.bind_splits)
      from undo_buffer_result [OF f(1) quiet_sound [OF q2]] quietD [OF q2] f show thesis
        by (intro failed) auto
    next
      case True
      let ?bs = "pl_buffers s"
      let ?s3 = "s2\<lparr>pl_buffers := \<lparr>vb_virtual = virt, vb_iova = iova, vb_wsid = next_wsid ?bs,
                 vb_size = sz, vb_device = v\<rparr> # ?bs\<rparr>"
      obtain r4 s4 where 4: "psys H P_unlock ?s3 = (r4, s4)" by fastforce
      have live: "\<not> pl_dangling s"
        using assms b True quietD(5) [OF q2] by (auto simp: link_buffer_def 1 2 buffer_list_def)
      have eq: "(if r4 \<noteq> 0 then do {
           s \<leftarrow> undo_buffer H v virt s4;
           Some (FPGA_EXCEPTION, Some (virt, next_wsid ?bs), s\<lparr>pl_dangling := True\<rparr>)
         } else Some (FPGA_OK, Some (virt, next_wsid ?bs), s4)) = Some (r, res, s')"
        using assms b True 4 live quietD(4,5) [OF q2]
        by (simp add: link_buffer_def 1 2 buffer_list_def Let_def)
      show thesis
      proof (cases "r4 = 0")
        case True
        with eq 4 \<open>r2 = 0\<close> 1 2 live show thesis by (intro linked [of b s1 s2 ?s3]) auto
      next
        case False
        then obtain s5 where f: "undo_buffer H v virt s4 = Some s5" "r = FPGA_EXCEPTION"
            "s' = s5\<lparr>pl_dangling := True\<rparr>"
          using eq by (auto split: Option.bind_splits)
        have "sound H s ?s3" using quiet_sound [OF q2] by simp
        then have "sound H s s4" using quiet_sound [OF psys_quiet [OF 4]] by (rule sound_trans)
        from undo_buffer_result [OF f(1) this] f quietD(3) [OF psys_quiet [OF 4]] quietD(3) [OF q2] show thesis
          by (intro freed_head) auto
      qed
    qed
  qed
qed


lemma link_buffer_sound:
  assumes "link_buffer H v virt iova sz s = Some (r, res, s')"
  shows "sound H s s'"
  using assms
proof (cases rule: link_buffer_cases)
  case (linked b s1 s2 s3)
  have "sound H s s3"
    using quiet_sound [OF quiet_trans [OF pmalloc_quiet [OF linked(4)] psys_quiet [OF linked(5)]]]
    by (simp add: linked(7))
  then show ?thesis using quiet_sound [OF psys_quiet [OF linked(6)]] by (rule sound_trans)
qed auto

lemma prepare_cases:
  assumes "vfio_fpgaPrepareBuffer H handle len ba ws s = Some (r, res, s')"
  obtains (refused) "r = FPGA_INVALID_PARAM" "res = None" "s' = s"
  | (allocated) h w ar w' t s1 where "handle_check s handle = Some (Some h)"
      "pl_vfios s (vp_device (vh_pair h)) = Some w"
      "opae_vfio_buffer_allocate (os H) (Some w) (Some (buffer_len len)) True True (pl_trace s) =
         (ar, Some w', t)"
      "s1 = s\<lparr>pl_vfios := (pl_vfios s)(vp_device (vh_pair h) \<mapsto> w'), pl_trace := t\<rparr>"
      "ar_code ar \<noteq> 0 \<Longrightarrow> r = FPGA_EXCEPTION \<and> res = None \<and> s' = s1"
      "ar_code ar = 0 \<Longrightarrow> \<exists>virt iova. ar_buf ar = Some virt \<and> ar_iova ar = Some iova \<and>
         link_buffer H (vp_device (vh_pair h)) virt iova (ar_size ar) s1 = Some (r, res, s')"
proof (cases "ba \<and> ws \<and> handle_check s handle \<noteq> Some None")
  case False
  then show thesis
    using assms
    by (cases "ba \<and> ws") (auto intro: refused simp: vfio_fpgaPrepareBuffer_def)
next
  case True
  then obtain h w where h: "handle_check s handle = Some (Some h)"
      and w: "pl_vfios s (vp_device (vh_pair h)) = Some w"
    using assms
    by (cases "handle_check s handle")
      (auto simp: vfio_fpgaPrepareBuffer_def Let_def split: Option.bind_splits)
  obtain ar w' t where a: "opae_vfio_buffer_allocate (os H) (Some w) (Some (buffer_len len)) True True
      (pl_trace s) = (ar, Some w', t)"
    by (cases "buffer_allocate (os H) w (buffer_len len) True True (pl_trace s)")
      (auto simp: opae_vfio_buffer_allocate_def)
  show thesis
    by (rule allocated [OF h w a refl])
      (use assms True h w a in \<open>auto simp: vfio_fpgaPrepareBuffer_def Let_def
        split: Option.bind_splits\<close>)
qed

lemma prepare_sound:
  assumes "vfio_fpgaPrepareBuffer H handle len ba ws s = Some (r, res, s')"
  shows "sound H s s'"
  using assms
proof (cases rule: prepare_cases)
  case (allocated h w ar w' t s1)
  have "sound H s s1" using allocate_call_sound [OF allocated(2,3)] by (simp add: allocated(4))
  with allocated(5,6) show ?thesis
    by (cases "ar_code ar = 0") (auto intro: sound_trans link_buffer_sound)
qed simp

lemma release_cases:
  assumes "vfio_fpgaReleaseBuffer H handle wsid s = Some (r, s')"
  obtains (unchanged) "r \<noteq> FPGA_OK" "quiet s s'"
  | (released) h b rest s1 s2 where "r = FPGA_OK" "handle_check s handle = Some (Some h)"
      "psys H P_lock s = (0, s1)" "\<not> pl_dangling s" "unlink_wsid wsid (pl_buffers s) = Some (b, rest)"
      "free_dev_buffer H (vp_device (vh_pair h)) (vb_virtual b) s1 = Some s2"
      "s' = punlock H (s2\<lparr>pl_buffers := rest\<rparr>)"
proof -
  obtain h where h: "handle_check s handle = Some h"
    using assms by (auto simp: vfio_fpgaReleaseBuffer_def split: Option.bind_splits)
  obtain r1 s1 where 1: "psys H P_lock s = (r1, s1)" by fastforce
  note q = psys_quiet [OF 1]
  let ?u = "unlink_wsid wsid (pl_buffers s)"
  show thesis
  proof (cases "h = None \<or> r1 \<noteq> 0 \<or> ?u = None")
    case True
    then show thesis
      using assms h q quietD(4,5) [OF q]
      by (intro unchanged) (auto simp: vfio_fpgaReleaseBuffer_def 1 buffer_list_def
          split: option.splits Option.bind_splits if_splits)
  next
    case False
    then obtain h' b rest where u: "h = Some h'" "r1 = 0" "?u = Some (b, rest)" by auto
    moreover from this have "\<not> pl_dangling s"
      using assms h quietD(5) [OF q]
      by (auto simp: vfio_fpgaReleaseBuffer_def 1 buffer_list_def)
    moreover from calculation obtain s2 where
      "free_dev_buffer H (vp_device (vh_pair h')) (vb_virtual b) s1 = Some s2"
      "r = FPGA_OK" "s' = punlock H (s2\<lparr>pl_buffers := rest\<rparr>)"
      using assms h quietD(4,5) [OF q]
      by (auto simp: vfio_fpgaReleaseBuffer_def 1 buffer_list_def split: Option.bind_splits)
    ultimately show thesis using h 1 by (intro released [of h' s1 b rest s2]) auto
  qed
qed

lemma release_sound:
  assumes "vfio_fpgaReleaseBuffer H handle wsid s = Some (r, s')"
  shows "sound H s s'"
  using assms
proof (cases rule: release_cases)
  case (released h b rest s1 s2)
  have "sound H s s2"
    using quiet_sound [OF psys_quiet [OF released(3)]] free_dev_buffer_result [OF released(6)]
    by (auto intro: sound_trans)
  then show ?thesis by (simp add: released(7))
qed (simp add: quiet_sound)


lemma ioaddress_quiet:
  "vfio_fpgaGetIOAddress H handle wsid s = Some (r, a, s') \<Longrightarrow> quiet s s'"
  by (auto simp: vfio_fpgaGetIOAddress_def split: prod.splits if_splits Option.bind_splits option.splits
      dest: psys_quiet)

lemma irq_call_balance:
  "opae_vfio_irq_enable E (Some v) i j fd t = (r, t') \<Longrightarrow> balance E t' q = balance E t q"
  "opae_vfio_irq_disable E (Some v) i j t = (r, t') \<Longrightarrow> balance E t' q = balance E t q"
  using irq_balance [of E] by (auto simp: irq_defs dest!: arg_cong [where f = snd])

lemma register_event_sound:
  "register_event H h ty e w flags s = Some (r, s') \<Longrightarrow> sound H s s'"
  by (cases ty)
    (auto simp: register_event_def Let_def split: Option.bind_splits prod.splits
      intro!: trace_call_sound [of _ _ "s\<lparr>pl_events := _\<rparr>", simplified] irq_call_balance(1))

lemma unregister_event_sound:
  "unregister_event H h ty w s = Some (r, s') \<Longrightarrow> sound H s s'"
  by (cases ty)
    (auto simp: unregister_event_def split: Option.bind_splits prod.splits
      intro!: trace_call_sound irq_call_balance(2))

lemma register_sound:
  assumes "vfio_fpgaRegisterEvent H handle ty eh flags s = Some (r, s')"
  shows "sound H s s'"
  using assms
  by (auto simp: vfio_fpgaRegisterEvent_def split: if_splits Option.bind_splits option.splits
      dest!: handle_lock_cases event_lock_cases register_event_sound)
    (meson quiet_sound sound_trans)+

lemma unregister_sound:
  assumes "vfio_fpgaUnregisterEvent H handle ty eh s = Some (r, s')"
  shows "sound H s s'"
  using assms
  by (auto simp: vfio_fpgaUnregisterEvent_def split: if_splits Option.bind_splits option.splits
      dest!: handle_lock_cases event_lock_cases unregister_event_sound)
    (meson quiet_sound sound_trans)+


lemma psys_upd_brk [simp]: "pl_brk (snd (psys H c s)) = pl_brk s"
  by (simp add: psys_def)

lemma read_attr_quiet: "read_pci_attr_u32 H a n s = (r, v, s') \<Longrightarrow> quiet s s'"
  by (auto simp: read_pci_attr_u32_def read_pci_attr_def Let_def split: prod.splits if_splits
      dest: psys_quiet)

lemma get_device_quiet:
  assumes "get_pci_device H a s = (p, s')"
  shows "quiet s s'"
proof (cases "find_pci_device s a")
  case None
  obtain d s1 where 1: "pmalloc H s = (d, s1)" by fastforce
  obtain r2 v2 s2 where 2: "read_pci_attr_u32 H a ''vendor'' s1 = (r2, v2, s2)" by (metis prod_cases3)
  obtain r3 v3 s3 where 3: "read_pci_attr_u32 H a ''device'' s2 = (r3, v3, s3)" by (metis prod_cases3)
  obtain r4 v4 s4 where 4: "read_pci_attr_u32 H a ''numa_node'' s3 = (r4, v4, s4)" by (metis prod_cases3)
  note q1 = pmalloc_quiet [OF 1]
  note q2 = quiet_trans [OF q1 read_attr_quiet [OF 2]]
  note q3 = quiet_trans [OF q2 read_attr_quiet [OF 3]]
  note q4 = quiet_trans [OF q3 read_attr_quiet [OF 4]]
  from None assms q1 q2 q3 q4 show ?thesis
    unfolding get_pci_device_def by (auto simp: 1 2 3 4 split: prod.splits if_splits)
qed (use assms in \<open>auto simp: get_pci_device_def\<close>)

lemma discover_paths_quiet: "quiet s (discover_paths H ps s)"
proof (induction ps arbitrary: s)
  case (Cons p ps)
  have "quiet s (snd (get_pci_device H a s))" for a by (metis get_device_quiet prod.collapse)
  with Cons.IH show ?case by (auto split: option.splits intro: quiet_trans)
qed simp

lemma initialize_quiet: "vfio_plugin_initialize H s = (r, s') \<Longrightarrow> quiet s s'"
  by (auto simp: vfio_plugin_initialize_def pci_discover_def Let_def split: prod.splits if_splits
      dest!: psys_quiet intro: quiet_trans discover_paths_quiet)

lemma reset_quiet: "vfio_fpgaReset H handle s = Some (r, s') \<Longrightarrow> quiet s s'"
  by (auto simp: vfio_fpgaReset_def Let_def split: Option.bind_splits option.splits if_splits
      reset_fn.splits prod.splits dest!: handle_lock_cases port_reset_quiet)
    (meson quiet_trans)+

lemma mmio_access_quiet:
  assumes "mmio_access H h t n off k action s = Some (r, x, s')"
    and "\<And>a u y u'. action a u = (y, u') \<Longrightarrow> quiet u u'"
  shows "quiet s s'"
  using assms(1)
  by (auto simp: mmio_access_def Let_def split: if_splits prod.splits Option.bind_splits
      dest!: psys_quiet assms(2) intro: quiet_trans)


lemma clone_call_quiet: "vfio_fpgaCloneToken H src dst s = Some (r, t, s') \<Longrightarrow> quiet s s'"
  by (auto simp: vfio_fpgaCloneToken_def split: if_splits Option.bind_splits prod.splits
      dest: pmalloc_quiet)

lemma destroy_token_quiet: "vfio_fpgaDestroyToken t s = Some (r, s') \<Longrightarrow> quiet s s'"
  by (auto simp: vfio_fpgaDestroyToken_def split: option.splits if_splits Option.bind_splits)

lemma finalize_sound: "vfio_plugin_finalize s = Some (r, s') \<Longrightarrow> sound H s s'"
proof -
  have devs: "sound H s (free_devices ps u) = sound H s u" for ps u
    by (induction ps arbitrary: u) (auto simp: free_token_list_def sound_def plugin_inv_def fresh_def
        handles_ok_def handle_ok_def books_def vfio_total_def split: option.splits)
  show "vfio_plugin_finalize s = Some (r, s') \<Longrightarrow> sound H s s'"
    by (auto simp: vfio_plugin_finalize_def free_device_list_def free_buffer_list_def devs
        split: Option.bind_splits)
qed

lemma create_event_quiet: "vfio_fpgaCreateEventHandle H out s = (r, e, s') \<Longrightarrow> quiet s s'"
  by (auto simp: vfio_fpgaCreateEventHandle_def split: if_splits prod.splits
      dest!: psys_quiet pmalloc_quiet) (meson quiet_trans)+

lemma destroy_event_quiet: "vfio_fpgaDestroyEventHandle H e s = Some (r, e', s') \<Longrightarrow> quiet s s'"
  by (auto simp: vfio_fpgaDestroyEventHandle_def split: option.splits if_splits prod.splits
      Option.bind_splits dest!: event_lock_cases psys_quiet intro: quiet_trans)

lemma os_object_quiet: "vfio_fpgaGetOSObjectFromEventHandle H e out s = Some (r, fd, s') \<Longrightarrow> quiet s s'"
  by (auto simp: vfio_fpgaGetOSObjectFromEventHandle_def split: option.splits if_splits prod.splits
      Option.bind_splits dest!: event_lock_cases intro: quiet_trans)

lemmas mmio_defs = vfio_fpgaWriteMMIO64_def vfio_fpgaReadMMIO64_def vfio_fpgaWriteMMIO32_def
  vfio_fpgaReadMMIO32_def vfio_fpgaWriteMMIO512_def with_handle_token_def write_to_def

lemma mmio_quiet:
  "vfio_fpgaWriteMMIO64 H h n off v64 s = Some (r, u, s') \<Longrightarrow> quiet s s'"
  "vfio_fpgaReadMMIO64 H h n off s = Some (r, x64, s') \<Longrightarrow> quiet s s'"
  "vfio_fpgaWriteMMIO32 H h n off v32 s = Some (r, u, s') \<Longrightarrow> quiet s s'"
  "vfio_fpgaReadMMIO32 H h n off s = Some (r, x32, s') \<Longrightarrow> quiet s s'"
  "vfio_fpgaWriteMMIO512 H h n off bs s = Some (r, u, s') \<Longrightarrow> quiet s s'"
  by (auto simp: mmio_defs split: Option.bind_splits option.splits if_splits dest!: mmio_access_quiet)

subsection \<open>No device is forgotten\<close>

text \<open>
  On a machine where no device has a physical function bound to vfio-pci, the devices in the store are those of
  the open handles: opening, walking and closing leave none behind, on any path.
\<close>

definition no_physfn :: "host \<Rightarrow> bool" where
  "no_physfn H \<longleftrightarrow> (\<forall>addr s. fst (physfn_of H addr s) = None)"

definition tidy :: "plugin \<Rightarrow> bool" where
  "tidy s \<longleftrightarrow> dom (pl_vfios s) = (\<Union>w\<in>ran (pl_handles s). pair_devs (vh_pair w))"

text \<open>Steps that keep the handles and the addresses of the devices.\<close>

definition stays :: "plugin \<Rightarrow> plugin \<Rightarrow> bool" where
  "stays s s' \<longleftrightarrow> pl_handles s' = pl_handles s \<and> dom (pl_vfios s') = dom (pl_vfios s)"

lemma stays_refl [simp]: "stays s s"
  by (simp add: stays_def)

lemma stays_trans: "stays a b \<Longrightarrow> stays b c \<Longrightarrow> stays a c"
  by (simp add: stays_def)

lemma quiet_stays: "quiet s s' \<Longrightarrow> stays s s'"
  by (simp add: stays_def quietD)

lemma stays_upd [simp]:
  "stays s (s'\<lparr>pl_buffers := x\<rparr>) = stays s s'" "stays s (s'\<lparr>pl_dangling := d\<rparr>) = stays s s'"
  "stays s (s'\<lparr>pl_events := e\<rparr>) = stays s s'" "stays s (s'\<lparr>pl_trace := t\<rparr>) = stays s s'"
  "stays s (punlock H s') = stays s s'" "stays s (snd (psys H c s')) = stays s s'"
  "stays (s\<lparr>pl_buffers := x\<rparr>) s' = stays s s'" "stays (s\<lparr>pl_events := e\<rparr>) s' = stays s s'"
  by (simp_all add: stays_def punlock_def psys_def)

lemma stays_tidy: "stays s s' \<Longrightarrow> tidy s' = tidy s"
  by (simp add: stays_def tidy_def)

lemma psys_stays: "psys H c s = (r, s') \<Longrightarrow> stays s s'"
  by (rule quiet_stays [OF psys_quiet])

lemma pmalloc_stays: "pmalloc H s = (p, s') \<Longrightarrow> stays s s'"
  by (rule quiet_stays [OF pmalloc_quiet])

lemma free_dev_buffer_stays: "free_dev_buffer H v p s = Some s' \<Longrightarrow> stays s s'"
  by (auto simp: free_dev_buffer_def stays_def insert_absorb domI split: Option.bind_splits prod.splits option.splits
    simp del: dom_eq_empty_conv) (auto split: if_splits)

lemma undo_buffer_stays: "undo_buffer H v virt s = Some s' \<Longrightarrow> stays s s'"
  by (auto simp: undo_buffer_def free_dev_buffer_stays split: if_splits)

lemma link_buffer_stays:
  assumes "link_buffer H v virt iova sz s = Some (r, res, s')"
  shows "stays s s'"
proof -
  obtain b s1 where 1: "pmalloc H s = (b, s1)" by fastforce
  obtain r2 s2 where 2: "psys H P_lock s1 = (r2, s2)" by fastforce
  have s2: "stays s s1" "stays s s2" using pmalloc_stays [OF 1] psys_stays [OF 2] by (auto intro: stays_trans)
  show ?thesis
    using assms s2
    by (auto simp: link_buffer_def 1 2 Let_def split: if_splits Option.bind_splits prod.splits
      dest!: free_dev_buffer_stays undo_buffer_stays psys_stays intro: stays_trans) (meson stays_trans)
qed

lemma prepare_stays:
  assumes "vfio_fpgaPrepareBuffer H handle len ba ws s = Some (r, res, s')"
  shows "stays s s'"
  using assms
proof (cases rule: prepare_cases)
  case (allocated h w ar w' t s1)
  have "stays s s1" using allocated(2,4) by (auto simp: stays_def)
  with allocated(5,6) show ?thesis
    by (cases "ar_code ar = 0") (auto intro: stays_trans link_buffer_stays)
qed simp

lemma release_stays:
  assumes "vfio_fpgaReleaseBuffer H handle wsid s = Some (r, s')"
  shows "stays s s'"
  using assms
proof (cases rule: release_cases)
  case (released h b rest s1 s2)
  have "stays s s2" by (rule stays_trans [OF psys_stays [OF released(3)] free_dev_buffer_stays [OF released(6)]])
  then show ?thesis by (simp add: released(7))
qed (rule quiet_stays)

lemma event_stays:
  "register_event H h ty e w flags s = Some (r, s') \<Longrightarrow> stays s s'"
  "unregister_event H h ty w s = Some (r, s') \<Longrightarrow> stays s s'"
  by (cases ty; auto simp: register_event_def unregister_event_def Let_def split: Option.bind_splits prod.splits)+

lemma register_stays:
  "vfio_fpgaRegisterEvent H handle ty eh flags s = Some (r, s') \<Longrightarrow> stays s s'"
  by (auto simp: vfio_fpgaRegisterEvent_def split: if_splits Option.bind_splits option.splits
      dest!: handle_lock_cases event_lock_cases event_stays quiet_stays) (meson stays_trans)+

lemma unregister_stays:
  "vfio_fpgaUnregisterEvent H handle ty eh s = Some (r, s') \<Longrightarrow> stays s s'"
  by (auto simp: vfio_fpgaUnregisterEvent_def split: if_splits Option.bind_splits option.splits
      dest!: handle_lock_cases event_lock_cases event_stays quiet_stays) (meson stays_trans)+

lemma finalize_stays: "vfio_plugin_finalize s = Some (r, s') \<Longrightarrow> stays s s'"
proof -
  have devs: "stays s (free_devices ps u) = stays s u" for ps u
    by (induction ps arbitrary: u) (auto simp: free_token_list_def stays_def split: option.splits)
  show "vfio_plugin_finalize s = Some (r, s') \<Longrightarrow> stays s s'"
    by (auto simp: vfio_plugin_finalize_def free_device_list_def free_buffer_list_def devs
        split: Option.bind_splits)
qed

lemma open_pair_fails:
  assumes np: "no_physfn H" and fr: "fresh s" and o: "open_vfio_pair H addr s = Some (None, s')"
  shows "stays s s'"
proof -
  obtain a s1 where 1: "pmalloc H s = (a, s1)" by fastforce
  obtain dev s2 where 2: "pmalloc H s1 = (dev, s2)" by fastforce
  obtain s3 where 3: "physfn_of H addr s2 = (None, s3)"
    using np unfolding no_physfn_def by (metis prod.collapse)
  note q1 = pmalloc_quiet [OF 1]
  note q2 = quiet_trans [OF q1 pmalloc_quiet [OF 2]]
  note q3 = quiet_trans [OF q2 physfn_of_quiet [OF 3]]
  show ?thesis
  proof (cases "a = NULL \<or> dev = NULL")
    case True
    then show ?thesis using o quiet_stays [OF q1] quiet_stays [OF q2]
      by (cases "a = NULL"; cases "dev = NULL") (simp_all add: open_vfio_pair_def 1 2)
  next
    case False
    then have brk: "pl_brk s \<le> dev" using pmalloc_new [OF 2] quietD(6) [OF q1] by auto
    then have none: "pl_vfios s dev = None" using fr unfolding fresh_def by (meson domIff not_le)
    obtain r s4 where 4: "open_dev H dev addr None s3 = Some (r, s4)" "r \<noteq> 0"
        "s' = s4\<lparr>pl_vfios := (pl_vfios s4)(dev := None)\<rparr>"
      using o False by (auto simp: open_vfio_pair_def 1 2 3 split: Option.bind_splits if_splits)
    from 4(1) obtain w t where "s4 = s3\<lparr>pl_vfios := (pl_vfios s3)(dev \<mapsto> w), pl_trace := t\<rparr>"
      by (auto simp: open_dev_def split: Option.bind_splits)
    then show ?thesis using 4(3) none quietD(1,3) [OF q3] by (auto simp: stays_def)
  qed
qed

text \<open>The same with the invariant, for the loops.\<close>

definition still :: "plugin \<Rightarrow> plugin \<Rightarrow> bool" where
  "still s s' \<longleftrightarrow> (plugin_inv s \<longrightarrow> plugin_inv s' \<and> stays s s')"

lemma still_trans: "still a b \<Longrightarrow> still b c \<Longrightarrow> still a c"
  by (auto simp: still_def intro: stays_trans)

lemma still_sound: "sound H s s' \<Longrightarrow> (plugin_inv s \<Longrightarrow> stays s s') \<Longrightarrow> still s s'"
  by (simp add: still_def sound_def)

lemma quiet_still: "quiet s s' \<Longrightarrow> still s s'"
  by (rule still_sound [OF quiet_sound]) (simp_all add: quiet_stays)

lemma walk_still:
  assumes rel: "reliable H" and np: "no_physfn H" and w: "vfio_walk H p s = Some (r, s')"
  shows "still s s'"
proof (rule still_sound [OF walk_sound [OF rel w]])
  assume "plugin_inv s"
  then have fr: "fresh s" by (simp add: plugin_inv_def)
  from w show "stays s s'"
  proof (cases rule: walk_cases)
    case (unopened addr)
    then show ?thesis by (rule open_pair_fails [OF np fr])
  next
    case (walked addr pair s1 s2)
    note o = open_pair_result [OF rel fr walked(1)]
    from pair_closed_sound [OF rel fr o walked(2,3)] close_pair_result [OF rel walked(3)] o quietD(3) [OF walked(2)]
    show ?thesis by (simp add: stays_def pair_added_def calm_def)
  qed
qed

lemma enum_devices_still:
  assumes "reliable H" "no_physfn H"
  shows "enum_devices H fs m ps n out s = Some (n', out', s') \<Longrightarrow> still s s'"
proof (induction ps arbitrary: n out s)
  case Nil
  then show ?case by (simp add: still_def)
next
  case (Cons p ps)
  from Cons.prems show ?case
    by (auto split: Option.bind_splits if_splits
        dest!: walk_still [OF assms] quiet_still [OF enum_tokens_quiet] Cons.IH
        intro: still_trans [OF still_trans])
qed

lemma enumerate_still:
  "reliable H \<Longrightarrow> no_physfn H \<Longrightarrow> vfio_fpgaEnumerate H fs m s = Some (r, out, n, s') \<Longrightarrow> still s s'"
  by (auto simp: vfio_fpgaEnumerate_def still_def split: Option.bind_splits dest: enum_devices_still)

lemma open_tidy:
  assumes rel: "reliable H" and np: "no_physfn H" and inv: "plugin_inv s" and t: "tidy s"
    and o: "vfio_fpgaOpen H token out s = Some (r, hp, s')"
  shows "tidy s'"
  using o
proof (cases rule: open_cases)
  case refused
  then show ?thesis using t stays_tidy quiet_stays by blast
next
  case (no_pair s1 addr s2)
  have "fresh s1" using quiet_sound [OF no_pair(3), of H] inv by (simp add: sound_def plugin_inv_def)
  from open_pair_fails [OF np this no_pair(4)] quiet_stays [OF no_pair(3)] quiet_stays [OF no_pair(5)]
  show ?thesis using t stays_tidy stays_trans by blast
next
  case (no_region s1 addr pair s2 s3)
  have fr: "fresh s1" using quiet_sound [OF no_region(3), of H] inv by (simp add: sound_def plugin_inv_def)
  note o = open_pair_result [OF rel fr no_region(4)]
  from pair_closed_sound [OF rel fr o no_region(5,6)] close_pair_result [OF rel no_region(6)] o quietD(3) [OF no_region(5)]
  have "stays s1 s'" by (simp add: stays_def pair_added_def calm_def)
  with quiet_stays [OF no_region(3)] show ?thesis using t stays_tidy stays_trans by blast
next
  case (opened s1 addr pair s2 h w)
  have fr: "fresh s1" using quiet_sound [OF opened(3), of H] inv by (simp add: sound_def plugin_inv_def)
  note p = open_pair_result [OF rel fr opened(10), unfolded pair_added_def]
  have hs: "pl_handles s' = (pl_handles s)(h \<mapsto> w)"
    using p quietD(3) [OF opened(3)] opened(11) by (simp add: calm_def psys_def)
  have "dom (pl_vfios s') = dom (pl_vfios s) \<union> pair_devs pair"
    using p quietD(1) [OF opened(3)] opened(11) by (simp add: psys_def)
  moreover have "ran ((pl_handles s)(h \<mapsto> w)) = insert w (ran (pl_handles s))"
    by (rule ran_map_upd) (rule handle_free [OF inv opened(4)])
  ultimately show ?thesis using t opened(8) unfolding tidy_def hs by auto
qed

lemma close_tidy:
  assumes rel: "reliable H" and inv: "plugin_inv s" and t: "tidy s" and c: "vfio_fpgaClose H h s = Some (r, s')"
  shows "tidy s'"
  using c
proof (cases rule: close_cases)
  case refused
  then show ?thesis using t stays_tidy quiet_stays by blast
next
  case (closed w s1 s2 s3)
  note p = close_pair_result [OF rel closed(3)]
  have hs: "pl_handles s' = (pl_handles s)(h := None)"
    using p quietD(3) [OF closed(2)] quietD(3) [OF closed(4)] closed(5) by (simp add: calm_def)
  have d: "dom (pl_vfios s') = dom (pl_vfios s) - pair_devs (vh_pair w)"
    using p quietD(1) [OF closed(2)] quietD(1) [OF closed(4)] closed(5) by (auto simp: dom_restrict)
  have apart: "pair_devs (vh_pair u) \<inter> pair_devs (vh_pair w) = {}" if "pl_handles s g = Some u" "g \<noteq> h" for g u
    using inv that closed(1) by (simp add: plugin_inv_def handles_ok_def)
  define R where "R = ran ((pl_handles s)(h := None))"
  have "(pl_handles s)(h := None, h \<mapsto> w) = pl_handles s" using closed(1) by auto
  then have "ran (pl_handles s) = insert w R"
    using ran_map_upd [of "(pl_handles s)(h := None)" h w] by (simp add: R_def)
  moreover have "pair_devs (vh_pair u) \<inter> pair_devs (vh_pair w) = {}" if "u \<in> R" for u
    using that apart by (auto simp: R_def ran_def split: if_splits)
  ultimately show ?thesis using t unfolding tidy_def hs d R_def [symmetric] by auto
qed

lemmas call_stays = prepare_stays release_stays register_stays unregister_stays finalize_stays
  quiet_stays [OF reset_quiet] quiet_stays [OF ioaddress_quiet] quiet_stays [OF clone_call_quiet]
  quiet_stays [OF destroy_token_quiet] quiet_stays [OF destroy_event_quiet] quiet_stays [OF os_object_quiet]
  mmio_quiet [THEN quiet_stays]

subsection \<open>Runs of the plugin\<close>

datatype plugin_call =
    V_Initialize
  | V_Finalize
  | V_Enumerate "fpga_properties list option" u32
  | V_CloneToken ptr bool
  | V_DestroyToken "ptr option"
  | V_Open ptr bool
  | V_Close ptr
  | V_Reset ptr
  | V_WriteMMIO64 ptr u32 u64 u64
  | V_ReadMMIO64 ptr u32 u64
  | V_WriteMMIO32 ptr u32 u64 u32
  | V_ReadMMIO32 ptr u32 u64
  | V_WriteMMIO512 ptr u32 u64 "u8 list"
  | V_PrepareBuffer ptr u64 bool bool
  | V_ReleaseBuffer ptr u64
  | V_GetIOAddress ptr u64
  | V_CreateEventHandle bool
  | V_DestroyEventHandle "ptr option"
  | V_GetOSObject ptr bool
  | V_RegisterEvent ptr event_type ptr u32
  | V_UnregisterEvent ptr event_type ptr

fun plugin_exec :: "host \<Rightarrow> plugin_call \<Rightarrow> plugin \<Rightarrow> plugin option" where
  "plugin_exec H V_Initialize s = Some (snd (vfio_plugin_initialize H s))"
| "plugin_exec H V_Finalize s = map_option snd (vfio_plugin_finalize s)"
| "plugin_exec H (V_Enumerate fs m) s = map_option (\<lambda>(r, out, n, s). s) (vfio_fpgaEnumerate H fs m s)"
| "plugin_exec H (V_CloneToken t out) s = map_option (snd \<circ> snd) (vfio_fpgaCloneToken H t out s)"
| "plugin_exec H (V_DestroyToken t) s = map_option snd (vfio_fpgaDestroyToken t s)"
| "plugin_exec H (V_Open t out) s = map_option (snd \<circ> snd) (vfio_fpgaOpen H t out s)"
| "plugin_exec H (V_Close h) s = map_option snd (vfio_fpgaClose H h s)"
| "plugin_exec H (V_Reset h) s = map_option snd (vfio_fpgaReset H h s)"
| "plugin_exec H (V_WriteMMIO64 h n off v) s = map_option (snd \<circ> snd) (vfio_fpgaWriteMMIO64 H h n off v s)"
| "plugin_exec H (V_ReadMMIO64 h n off) s = map_option (snd \<circ> snd) (vfio_fpgaReadMMIO64 H h n off s)"
| "plugin_exec H (V_WriteMMIO32 h n off v) s = map_option (snd \<circ> snd) (vfio_fpgaWriteMMIO32 H h n off v s)"
| "plugin_exec H (V_ReadMMIO32 h n off) s = map_option (snd \<circ> snd) (vfio_fpgaReadMMIO32 H h n off s)"
| "plugin_exec H (V_WriteMMIO512 h n off v) s = map_option (snd \<circ> snd) (vfio_fpgaWriteMMIO512 H h n off v s)"
| "plugin_exec H (V_PrepareBuffer h len ba ws) s = map_option (snd \<circ> snd) (vfio_fpgaPrepareBuffer H h len ba ws s)"
| "plugin_exec H (V_ReleaseBuffer h ws) s = map_option snd (vfio_fpgaReleaseBuffer H h ws s)"
| "plugin_exec H (V_GetIOAddress h ws) s = map_option (snd \<circ> snd) (vfio_fpgaGetIOAddress H h ws s)"
| "plugin_exec H (V_CreateEventHandle out) s = Some (snd (snd (vfio_fpgaCreateEventHandle H out s)))"
| "plugin_exec H (V_DestroyEventHandle e) s = map_option (snd \<circ> snd) (vfio_fpgaDestroyEventHandle H e s)"
| "plugin_exec H (V_GetOSObject e out) s = map_option (snd \<circ> snd) (vfio_fpgaGetOSObjectFromEventHandle H e out s)"
| "plugin_exec H (V_RegisterEvent h ty e fl) s = map_option snd (vfio_fpgaRegisterEvent H h ty e fl s)"
| "plugin_exec H (V_UnregisterEvent h ty e) s = map_option snd (vfio_fpgaUnregisterEvent H h ty e s)"

fun plugin_run :: "host \<Rightarrow> plugin_call list \<Rightarrow> plugin \<Rightarrow> plugin option" where
  "plugin_run H [] s = Some s"
| "plugin_run H (c # cs) s = do { s \<leftarrow> plugin_exec H c s; plugin_run H cs s }"

lemma plugin_run_append:
  "plugin_run H (cs @ ds) s = do { s \<leftarrow> plugin_run H cs s; plugin_run H ds s }"
  by (induction cs arbitrary: s) (auto split: Option.bind_splits)

definition plugin_zero :: plugin where
  "plugin_zero =
     \<lparr>pl_tokens = Map.empty, pl_devices = Map.empty, pl_device_list = [], pl_vfios = Map.empty,
      pl_handles = Map.empty, pl_events = Map.empty, pl_buffers = [], pl_dangling = False,
      pl_brk = 1, pl_writes = [], pl_trace = [], pl_calls = []\<rparr>"


lemmas kept_open_sound = prepare_sound release_sound register_sound unregister_sound

lemmas exec_quiet = clone_call_quiet destroy_token_quiet create_event_quiet destroy_event_quiet
  os_object_quiet mmio_quiet reset_quiet ioaddress_quiet initialize_quiet

lemma exec_sound:
  assumes "reliable H" "plugin_exec H c s = Some s'"
  shows "sound H s s'"
proof (cases c)
  case V_Initialize
  with assms(2) show ?thesis
    by (cases "vfio_plugin_initialize H s") (auto intro: quiet_sound initialize_quiet)
next
  case (V_CreateEventHandle out)
  with assms(2) show ?thesis
    by (cases "vfio_fpgaCreateEventHandle H out s") (auto intro: quiet_sound create_event_quiet)
qed (use assms in \<open>auto intro: finalize_sound quiet_sound exec_quiet dest: enumerate_sound [OF assms(1)]
    open_sound [OF assms(1)] close_sound [OF assms(1)] kept_open_sound\<close>)

lemma run_sound: "reliable H \<Longrightarrow> plugin_run H cs s = Some s' \<Longrightarrow> sound H s s'"
proof (induction cs arbitrary: s)
  case (Cons c cs)
  from Cons.prems(2) obtain s1 where "plugin_exec H c s = Some s1" "plugin_run H cs s1 = Some s'"
    by (auto split: Option.bind_splits)
  with exec_sound [OF Cons.prems(1)] Cons.IH [OF Cons.prems(1)] show ?case
    by (blast intro: sound_trans)
qed simp

lemma exec_tidy:
  assumes "reliable H" "no_physfn H" "plugin_inv s" "tidy s" "plugin_exec H c s = Some s'"
  shows "tidy s'"
proof -
  have that: "stays s s' \<Longrightarrow> tidy s'" using assms(4) stays_tidy by simp
  show ?thesis
  proof (cases c)
    case V_Initialize
    with assms(5) that show ?thesis
      by (cases "vfio_plugin_initialize H s") (auto intro!: that quiet_stays initialize_quiet)
  next
    case (V_CreateEventHandle out)
    with assms(5) that show ?thesis
      by (cases "vfio_fpgaCreateEventHandle H out s") (auto intro!: that quiet_stays create_event_quiet)
  next
    case (V_Enumerate fs m)
    with assms(5) show ?thesis
      using enumerate_still [OF assms(1,2)] assms(3) that by (auto simp: still_def)
  next
    case (V_Open tok out)
    with assms(5) show ?thesis using open_tidy [OF assms(1-4)] by auto
  next
    case (V_Close h)
    with assms(5) show ?thesis using close_tidy [OF assms(1,3,4)] by auto
  qed (use assms(5) that in \<open>auto intro!: that dest: call_stays\<close>)
qed

lemma run_tidy:
  "reliable H \<Longrightarrow> no_physfn H \<Longrightarrow> plugin_inv s \<Longrightarrow> tidy s \<Longrightarrow> plugin_run H cs s = Some s' \<Longrightarrow> tidy s'"
proof (induction cs arbitrary: s)
  case (Cons c cs)
  from Cons.prems(5) obtain s1 where 1: "plugin_exec H c s = Some s1" "plugin_run H cs s1 = Some s'"
    by (auto split: Option.bind_splits)
  have "plugin_inv s1" using exec_sound [OF Cons.prems(1) 1(1)] Cons.prems(3) by (simp add: sound_def)
  moreover have "tidy s1" by (rule exec_tidy [OF Cons.prems(1-4) 1(1)])
  ultimately show ?case using Cons.IH [OF Cons.prems(1,2) _ _ 1(2)] by simp
qed simp

lemma plugin_zero_inv: "plugin_inv plugin_zero" "books H plugin_zero r = 0"
  by (simp_all add: plugin_inv_def fresh_def handles_ok_def plugin_zero_def books_def vfio_total_def)

subsection \<open>A host to try the properties on\<close>

definition demo_host :: host where
  "demo_host =
     \<lparr>os = demo_kernel,
      reg64 = (\<lambda>ws a. 0x1000010000000001),
      port_ack = (\<lambda>ws i. i = 3),
      pans = (\<lambda>cs c. case c of P_malloc \<Rightarrow> 1 | P_eventfd \<Rightarrow> 5 | P_realpath _ _ \<Rightarrow> 1 | _ \<Rightarrow> 0),
      glob_reply = (\<lambda>cs. [''/sys/bus/pci/drivers/vfio-pci/0000:3b:00.1'']),
      attr_reply = (\<lambda>cs addr a. if a = ''numa_node'' then ''-1'' else ''0x8086''),
      path_reply = (\<lambda>cs addr l. ''''),
      uuid_reply = (\<lambda>cs. ''''),
      has_avx512 = False,
      EBADF = 9\<rparr>"

text \<open>
  Enumeration gives the device 1 the token 4 and hands out its copy, the token 5; opening that makes
  the handle 6.
\<close>

definition demo_enum :: "plugin_call list" where
  "demo_enum = [V_Initialize, V_Enumerate None 1]"

lemma demo_reliable: "reliable demo_host"
  by (simp add: reliable_def demo_host_def demo_kernel_def demo_ans_def)

lemma demo_code:
  "do {
     s \<leftarrow> plugin_run demo_host demo_enum plugin_zero;
     t4 \<leftarrow> pl_tokens s 4;
     t5 \<leftarrow> pl_tokens s 5;
     (r, hp, s1) \<leftarrow> vfio_fpgaOpen demo_host 5 True s;
     w \<leftarrow> pl_handles s1 6;
     t \<leftarrow> pl_tokens s1 (vh_token w);
     (r2, x, s2) \<leftarrow> vfio_fpgaPrepareBuffer demo_host 6 5000 True True s1;
     d \<leftarrow> pl_vfios s2 9;
     Some (r, hp, vp_device (vh_pair w), vh_magic w, vt_type t, vt_user_mmio_count t, (vh_mmio_size w, vt_user_mmio t ! 1), r2,
           map_option snd x, map vb_wsid (pl_buffers s2), vt_parent t4, vt_parent t5,
           cont_ranges d, length (cont_buffers d))
   } = Some (FPGA_OK, Some 6, 9, VFIO_HANDLE_MAGIC, FPGA_ACCELERATOR, 1, (0x10000, 0), FPGA_OK, Some 0, [0], NULL, NULL,
         [\<lparr>range_start = 0, range_end = 0xfedfffff\<rparr>, \<lparr>range_start = 0xfef00000, range_end = 0xffffffff\<rparr>], 1)"
  by code_simp

lemma demo_steps:
  obtains s s1 s2 w t virt t4 t5 d where "plugin_run demo_host demo_enum plugin_zero = Some s"
    "pl_tokens s 4 = Some t4" "vt_parent t4 = NULL" "pl_tokens s 5 = Some t5" "vt_parent t5 = NULL"
    "vfio_fpgaOpen demo_host 5 True s = Some (FPGA_OK, Some 6, s1)"
    "pl_handles s1 6 = Some w" "vp_device (vh_pair w) = 9" "vh_magic w = VFIO_HANDLE_MAGIC"
    "pl_tokens s1 (vh_token w) = Some t" "vt_type t = FPGA_ACCELERATOR" "vt_user_mmio_count t = 1"
    "vh_mmio_size w = 0x10000 \<and> vt_user_mmio t ! 1 = 0"
    "vfio_fpgaPrepareBuffer demo_host 6 5000 True True s1 = Some (FPGA_OK, Some (virt, 0), s2)"
    "map vb_wsid (pl_buffers s2) = [0]" "pl_vfios s2 9 = Some d"
    "cont_ranges d = [\<lparr>range_start = 0, range_end = 0xfedfffff\<rparr>,
       \<lparr>range_start = 0xfef00000, range_end = 0xffffffff\<rparr>]" "length (cont_buffers d) = 1"
  using demo_code by (auto split: Option.bind_splits)

lemma demo_handle:
  obtains s w t where "plugin_run demo_host (demo_enum @ [V_Open 5 True]) plugin_zero = Some s"
    "pl_handles s 6 = Some w" "vp_device (vh_pair w) = 9" "vh_magic w = VFIO_HANDLE_MAGIC"
    "pl_tokens s (vh_token w) = Some t" "vt_type t = FPGA_ACCELERATOR" "vt_user_mmio_count t = 1"
    "vh_mmio_size w = 0x10000 \<and> vt_user_mmio t ! 1 = 0"
proof (rule demo_steps)
  fix s s1 w t
  assume "plugin_run demo_host demo_enum plugin_zero = Some s"
    "vfio_fpgaOpen demo_host 5 True s = Some (FPGA_OK, Some 6, s1)"
    and 1: "pl_handles s1 6 = Some w" "vp_device (vh_pair w) = 9" "vh_magic w = VFIO_HANDLE_MAGIC"
    "pl_tokens s1 (vh_token w) = Some t" "vt_type t = FPGA_ACCELERATOR" "vt_user_mmio_count t = 1"
    "vh_mmio_size w = 0x10000 \<and> vt_user_mmio t ! 1 = 0"
  then have "plugin_run demo_host (demo_enum @ [V_Open 5 True]) plugin_zero = Some s1"
    by (simp add: plugin_run_append)
  with that 1 show thesis by blast
qed

subsection \<open>Properties\<close>






end
