(* ===== verification/Vfio_Plugin_Tokens.thy ===== *)
theory Vfio_Plugin_Tokens
  imports Vfio_Plugin_Correct
begin

section \<open>Tokens, registers and buffers of the VFIO plugin\<close>

text \<open>
  What every token of the plugin satisfies, the accesses to registers that rest on it, the copies
  of a token and of its parents, enumeration, and the loops over registers.
\<close>

subsection \<open>The invariant of the tokens\<close>

text \<open>
  At most two of the eight entries of \<^verbatim>\<open>user_mmio\<close> are in use, so the index the MMIO operations
  accept, which may be equal to the count, never leaves the array. Addresses from the break on
  are free.
\<close>

definition token_ok :: "vfio_token \<Rightarrow> bool" where
  "token_ok w \<longleftrightarrow> length (vt_user_mmio w) = 8 \<and> vt_user_mmio_count w \<le> 2 \<and> vt_magic w = VFIO_TOKEN_MAGIC"

definition tokens_ok :: "plugin \<Rightarrow> bool" where
  "tokens_ok s \<longleftrightarrow> (\<forall>t w. pl_tokens s t = Some w \<longrightarrow> token_ok w \<and> t < pl_brk s)"

named_theorems token_steps

lemma tokens_okD: "tokens_ok s \<Longrightarrow> pl_tokens s t = Some w \<Longrightarrow> token_ok w"
  by (simp add: tokens_ok_def)

lemma tokens_ok_below: "tokens_ok s \<Longrightarrow> pl_tokens s t = Some w \<Longrightarrow> t < pl_brk s"
  by (simp add: tokens_ok_def)

lemma tokens_ok_frame [simp]:
  "tokens_ok (s\<lparr>pl_devices := a\<rparr>) = tokens_ok s" "tokens_ok (s\<lparr>pl_device_list := b\<rparr>) = tokens_ok s"
  "tokens_ok (s\<lparr>pl_vfios := c\<rparr>) = tokens_ok s" "tokens_ok (s\<lparr>pl_handles := d\<rparr>) = tokens_ok s"
  "tokens_ok (s\<lparr>pl_events := e\<rparr>) = tokens_ok s" "tokens_ok (s\<lparr>pl_buffers := f\<rparr>) = tokens_ok s"
  "tokens_ok (s\<lparr>pl_dangling := g\<rparr>) = tokens_ok s" "tokens_ok (s\<lparr>pl_writes := h\<rparr>) = tokens_ok s"
  "tokens_ok (s\<lparr>pl_trace := i\<rparr>) = tokens_ok s"
  by (simp_all add: tokens_ok_def)

lemma tokens_ok_upd:
  "tokens_ok s \<Longrightarrow> token_ok w \<Longrightarrow> t < pl_brk s \<Longrightarrow> tokens_ok (s\<lparr>pl_tokens := (pl_tokens s)(t \<mapsto> w)\<rparr>)"
  by (simp add: tokens_ok_def)

lemma tokens_ok_del: "tokens_ok s \<Longrightarrow> tokens_ok (s\<lparr>pl_tokens := (pl_tokens s)(t := None)\<rparr>)"
  by (simp add: tokens_ok_def)

lemma tokens_ok_same:
  "pl_tokens s' = pl_tokens s \<Longrightarrow> pl_brk s \<le> pl_brk s' \<Longrightarrow> tokens_ok s \<Longrightarrow> tokens_ok s'"
  by (auto simp: tokens_ok_def intro: less_le_trans)

lemma psys_tokens_ok [token_steps]: "psys H c s = (r, s') \<Longrightarrow> tokens_ok s \<Longrightarrow> tokens_ok s'"
  by (auto simp: psys_def tokens_ok_def)

lemma snd_psys_tokens_ok [simp]: "tokens_ok (snd (psys H c s)) = tokens_ok s"
  by (simp add: psys_def tokens_ok_def)

lemma punlock_tokens_ok [simp]: "tokens_ok (punlock H s) = tokens_ok s"
  by (simp add: punlock_def)

lemma pmalloc_tokens_ok [token_steps]: "pmalloc H s = (p, s') \<Longrightarrow> tokens_ok s \<Longrightarrow> tokens_ok s'"
  using pmalloc_tokens quietD(6) [OF pmalloc_quiet] tokens_ok_same by blast

lemma pmalloc_fresh:
  "pmalloc H s = (p, s') \<Longrightarrow> tokens_ok s \<Longrightarrow> tokens_ok s' \<and> (p \<noteq> NULL \<longrightarrow> p < pl_brk s')"
  using pmalloc_tokens_ok pmalloc_new by fastforce

lemma upd_token_cases:
  assumes "upd_token t f s = Some s'"
  obtains w where "pl_tokens s t = Some w" "s' = s\<lparr>pl_tokens := (pl_tokens s)(t \<mapsto> f w)\<rparr>"
  using assms by (auto simp: upd_token_def split: Option.bind_splits)

lemma upd_token_ok [token_steps]:
  assumes "upd_token t f s = Some s'" "tokens_ok s" "\<And>w. token_ok w \<Longrightarrow> token_ok (f w)"
  shows "tokens_ok s'"
  using assms(1)
proof (cases rule: upd_token_cases)
  case (1 w)
  with assms(2,3) tokens_okD tokens_ok_below show ?thesis by (auto intro: tokens_ok_upd)
qed

lemma get_token_ok [token_steps]:
  "get_token H p region ty s = Some (t, s') \<Longrightarrow> tokens_ok s \<Longrightarrow> tokens_ok s'"
  by (auto simp: get_token_def token_ok_def split: Option.bind_splits if_splits prod.splits
      dest!: pmalloc_fresh intro!: tokens_ok_upd)

lemma port_reset_tokens_ok [token_steps]:
  "legacy_port_reset H b s = (r, s') \<Longrightarrow> tokens_ok s \<Longrightarrow> tokens_ok s'"
  by (auto simp: legacy_port_reset_def write_reg_def Let_def split: if_splits)

lemma port_reset_tokens: "legacy_port_reset H b s = (r, s') \<Longrightarrow> pl_tokens s' = pl_tokens s"
  by (auto simp: legacy_port_reset_def write_reg_def Let_def split: if_splits)

text \<open>The count is set to 1 before it can be raised to 2.\<close>

lemma walk_port_ok [token_steps]:
  assumes "walk_port H parent region mmio s = Some s'" "tokens_ok s"
  shows "tokens_ok s'"
proof -
  obtain w port s1 where 1: "pl_tokens s parent = Some w"
      "get_token H (vt_device w) region FPGA_ACCELERATOR s = Some (port, s1)"
    using assms(1) by (auto simp: walk_port_def split: Option.bind_splits)
  let ?R = "\<lambda>s. regs H s (mmio + PORT_NEXT_AFU)"
  let ?f = "\<lambda>t. t\<lparr>vt_parent := parent,
      vt_mmio_size := ucast (bits 8 16 (regs H s1 (mmio + PORT_CAPABILITY))),
      vt_user_mmio_count := 1, vt_user_mmio := (vt_user_mmio t)[0 := ucast (bits 0 24 (?R s1))],
      vt_reset := Legacy_Port_Reset\<rparr>"
  obtain s2 where 2: "upd_token port ?f s1 = Some s2"
    using assms(1) 1 by (auto simp: walk_port_def split: Option.bind_splits)
  obtain r s3 where 3: "legacy_port_reset H mmio s2 = (r, s3)" by fastforce
  let ?g = "\<lambda>t. t\<lparr>vt_guid := get_guid (regs H s3) (mmio + bits 0 24 (?R s3) + 8)\<rparr>"
  obtain s4 where 4: "upd_token port ?g s3 = Some s4"
    using assms(1) 1 2 3 by (auto simp: walk_port_def Let_def split: Option.bind_splits)
  obtain hs where 5: "(case find (\<lambda>h. dfh_id (regs H s4) h = PORT_STP_ID) hs of
        None \<Rightarrow> Some s4
      | Some h \<Rightarrow> upd_token port (\<lambda>t. t\<lparr>vt_user_mmio_count := vt_user_mmio_count t + 1,
                     vt_user_mmio := (vt_user_mmio t)[1 := ucast (h - mmio)]\<rparr>) s4) = Some s'"
    using assms(1) 1 2 3 4 by (auto simp: walk_port_def Let_def split: Option.bind_splits)
  have ok1: "tokens_ok s1" by (rule get_token_ok [OF 1(2) assms(2)])
  from 2 obtain w2 where w2: "pl_tokens s1 port = Some w2" "s2 = s1\<lparr>pl_tokens := (pl_tokens s1)(port \<mapsto> ?f w2)\<rparr>"
    by (rule upd_token_cases)
  have f: "token_ok (?f w2)" using tokens_okD [OF ok1 w2(1)] by (simp add: token_ok_def)
  have s2: "tokens_ok s2" "pl_tokens s2 port = Some (?f w2)"
    unfolding w2(2) using tokens_ok_upd [OF ok1 f tokens_ok_below [OF ok1 w2(1)]] by simp_all
  have s3: "tokens_ok s3" "pl_tokens s3 port = Some (?f w2)"
    using tokens_ok_same [OF port_reset_tokens [OF 3] quietD(6) [OF port_reset_quiet [OF 3]] s2(1)]
      s2(2) port_reset_tokens [OF 3] by simp_all
  have g: "token_ok (?g (?f w2))" using f by (simp add: token_ok_def)
  from 4 have "s4 = s3\<lparr>pl_tokens := (pl_tokens s3)(port \<mapsto> ?g (?f w2))\<rparr>"
    by (rule upd_token_cases) (simp add: s3(2))
  then have s4: "tokens_ok s4" "pl_tokens s4 port = Some (?g (?f w2))"
    using tokens_ok_upd [OF s3(1) g tokens_ok_below [OF s3]] by simp_all
  show ?thesis
  proof (cases "find (\<lambda>h. dfh_id (regs H s4) h = PORT_STP_ID) hs")
    case None
    with 5 s4(1) show ?thesis by simp
  next
    case (Some h)
    let ?k = "\<lambda>t. t\<lparr>vt_user_mmio_count := vt_user_mmio_count t + 1,
                     vt_user_mmio := (vt_user_mmio t)[1 := ucast (h - mmio)]\<rparr>"
    from 5 Some have "upd_token port ?k s4 = Some s'" by simp
    then have "s' = s4\<lparr>pl_tokens := (pl_tokens s4)(port \<mapsto> ?k (?g (?f w2)))\<rparr>"
      by (rule upd_token_cases) (simp add: s4(2))
    moreover have "token_ok (?k (?g (?f w2)))" using g by (simp add: token_ok_def)
    ultimately show ?thesis using tokens_ok_upd [OF s4(1) _ tokens_ok_below [OF s4]] by simp
  qed
qed

lemma walk_ports_ok [token_steps]:
  "walk_ports H v fme mmio as s = Some s' \<Longrightarrow> tokens_ok s \<Longrightarrow> tokens_ok s'"
proof (induction as arbitrary: s)
  case (Cons a as)
  from Cons.prems show ?case
    by (auto simp: Let_def split: Option.bind_splits prod.splits option.splits if_splits
        dest: walk_port_ok intro: Cons.IH)
qed simp

lemma walk_fme_ok [token_steps]:
  assumes "walk_fme H p v mmio region s = Some (r, s')" "tokens_ok s"
  shows "tokens_ok s'"
proof -
  obtain fme s1 where 1: "get_token H p region FPGA_DEVICE s = Some (fme, s1)"
    using assms(1) by (auto simp: walk_fme_def split: Option.bind_splits)
  let ?f = "\<lambda>t. t\<lparr>vt_guid := get_guid (regs H s1) (mmio + 8),
            vt_bitstream_id := regs H s1 (mmio + BITSTREAM_ID),
            vt_bitstream_mdata := regs H s1 (mmio + BITSTREAM_MD),
            vt_num_ports := ucast (bits 17 3 (regs H s1 (mmio + FAB_CAPABILITY)))\<rparr>"
  obtain s2 where 2: "upd_token fme ?f s1 = Some s2"
    using assms(1) 1 by (auto simp: walk_fme_def split: Option.bind_splits)
  obtain hs s3 where 3: "(case filter (\<lambda>h. dfh_id (regs H s2) h = PR_FEATURE_ID) hs of
            [] \<Rightarrow> Some s2
          | prs \<Rightarrow> upd_token fme (\<lambda>t. t\<lparr>vt_compat_id := get_guid (regs H s2) (last prs + PR_INTFC_ID_LO)\<rparr>) s2)
      = Some s3"
    and 4: "walk_ports H v fme mmio fme_ports s3 = Some s'"
    using assms(1) 1 2 by (auto simp: walk_fme_def split: Option.bind_splits)
  have "tokens_ok s2"
    by (rule upd_token_ok [OF 2 get_token_ok [OF 1 assms(2)]]) (simp add: token_ok_def)
  then have "tokens_ok s3" using 3 by (auto simp: token_ok_def split: list.splits intro: upd_token_ok)
  with 4 show ?thesis by (rule walk_ports_ok)
qed

lemma walk_bars_ok [token_steps]:
  "walk_bars H p v is s = Some s' \<Longrightarrow> tokens_ok s \<Longrightarrow> tokens_ok s'"
proof (induction "is" arbitrary: s)
  case (Cons i "is")
  from Cons.prems show ?case
    by (auto simp: token_ok_def split: Option.bind_splits prod.splits option.splits if_splits
        dest!: get_token_ok upd_token_ok intro: Cons.IH)
qed simp

lemma walk_regions_ok [token_steps]:
  assumes "walk_regions H p v s = Some (r, s')" "tokens_ok s"
  shows "tokens_ok s'"
  using assms
  by (auto simp: walk_regions_def token_ok_def split: Option.bind_splits prod.splits option.splits if_splits
      dest: walk_fme_ok dest!: get_token_ok upd_token_ok intro: walk_bars_ok)

lemma clone_token_ok [token_steps]:
  assumes "clone_token H src s = Some (t, s')" "tokens_ok s"
  shows "tokens_ok s'"
proof -
  have "tokens_ok s \<longrightarrow> tokens_ok (snd (t, s')) \<and> pl_brk s \<le> pl_brk (snd (t, s'))"
  proof (rule clone_token.raw_induct [where P = "\<lambda>H src s y. tokens_ok s \<longrightarrow> tokens_ok (snd y) \<and> pl_brk s \<le> pl_brk (snd y)",
      OF _ assms(1)])
    fix f H src s y
    assume IH: "\<And>H src s y. f H src s = Some y \<Longrightarrow>
        tokens_ok s \<longrightarrow> tokens_ok (snd y) \<and> pl_brk s \<le> pl_brk (snd y)"
      and b: "(if src = NULL then Some (NULL, s)
        else do {
          w \<leftarrow> pl_tokens s src;
          if vt_magic w \<noteq> VFIO_TOKEN_MAGIC then Some (NULL, s)
          else case pmalloc H s of (t, s) \<Rightarrow>
            if t = NULL then Some (NULL, s)
            else if vt_parent w = NULL then Some (t, s\<lparr>pl_tokens := (pl_tokens s)(t \<mapsto> w)\<rparr>)
            else do {
              (q, s) \<leftarrow> f H (vt_parent w) s;
              Some (t, s\<lparr>pl_tokens := (pl_tokens s)(t \<mapsto> w\<lparr>vt_parent := q\<rparr>)\<rparr>)
            }
        }) = Some y"
    obtain t1 s1 where m: "pmalloc H s = (t1, s1)" by fastforce
    show "tokens_ok s \<longrightarrow> tokens_ok (snd y) \<and> pl_brk s \<le> pl_brk (snd y)"
    proof
      assume ok: "tokens_ok s"
      have s1: "tokens_ok s1" "pl_brk s \<le> pl_brk s1" "t1 \<noteq> NULL \<Longrightarrow> t1 < pl_brk s1"
        using pmalloc_tokens_ok [OF m ok] quietD(6) [OF pmalloc_quiet [OF m]] pmalloc_new [OF m] by auto
      have rec: "tokens_ok s2 \<and> pl_brk s1 \<le> pl_brk s2" if "f H q s1 = Some (q', s2)" for q q' s2
        using IH [OF that] s1(1) by simp
      show "tokens_ok (snd y) \<and> pl_brk s \<le> pl_brk (snd y)"
        using b s1 tokens_okD [OF ok] ok
        by (auto simp: m token_ok_def split: Option.bind_splits if_splits prod.splits
            dest!: rec intro!: tokens_ok_upd)
    qed
  qed
  with assms(2) show ?thesis by simp
qed

lemma close_pair_tokens:
  assumes "close_vfio_pair H pair s = Some s'"
  shows "pl_tokens s' = pl_tokens s" "pl_brk s' = pl_brk s"
  using assms by (auto simp: close_vfio_pair_def close_dev_def split: Option.bind_splits prod.splits if_splits)

lemma open_pair_brk:
  assumes "open_vfio_pair H addr s = Some (p, s')"
  shows "pl_brk s \<le> pl_brk s'"
proof -
  have dev: "open_dev H v a c u = Some (r, u') \<Longrightarrow> pl_brk u' = pl_brk u" for v a c u r u'
    by (auto simp: open_dev_def split: Option.bind_splits)
  show ?thesis
    using assms unfolding open_vfio_pair_def psys_def
    by (auto simp: Let_def split: prod.splits if_splits option.splits Option.bind_splits
        dest!: pmalloc_quiet [THEN quietD(6)] physfn_of_quiet [THEN quietD(6)] dev)
qed

lemma open_pair_ok: "open_vfio_pair H addr s = Some (p, s') \<Longrightarrow> tokens_ok s \<Longrightarrow> tokens_ok s'"
  using open_pair_tokens open_pair_brk tokens_ok_same by blast

lemma close_pair_ok: "close_vfio_pair H pair s = Some s' \<Longrightarrow> tokens_ok s \<Longrightarrow> tokens_ok s'"
  by (rule tokens_ok_same [OF close_pair_tokens(1)]) (simp_all add: close_pair_tokens(2))

lemma walk_ok [token_steps]:
  assumes "vfio_walk H p s = Some (r, s')" "tokens_ok s"
  shows "tokens_ok s'"
  using assms
  by (auto simp: vfio_walk_def split: Option.bind_splits option.splits
      dest!: open_pair_ok walk_regions_ok close_pair_ok)


lemma enum_tokens_ok [token_steps]:
  "enum_tokens H fs m ts n out s = Some (n', out', s') \<Longrightarrow> tokens_ok s \<Longrightarrow> tokens_ok s'"
proof (induction ts arbitrary: n out s)
  case (Cons t ts)
  from Cons.prems show ?case
    by (auto split: Option.bind_splits if_splits dest!: clone_token_ok intro: Cons.IH)
qed simp

lemma enum_devices_ok [token_steps]:
  "enum_devices H fs m ps n out s = Some (n', out', s') \<Longrightarrow> tokens_ok s \<Longrightarrow> tokens_ok s'"
proof (induction ps arbitrary: n out s)
  case (Cons p ps)
  from Cons.prems show ?case
    by (auto split: Option.bind_splits if_splits dest!: walk_ok enum_tokens_ok intro: Cons.IH)
qed simp

lemma finish_open_ok:
  assumes "finish_open H token tok h s = Some (r, hp, s')" "tokens_ok s"
  shows "tokens_ok s'"
proof -
  obtain c s1 dev pair s2 where 1: "clone_token H token s = Some (c, s1)"
    and 2: "open_vfio_pair H (pd_addr dev) s1 = Some (pair, s2)"
    and d: "pl_devices s1 (vt_device tok) = Some dev"
    using assms(1) by (auto simp: finish_open_def split: Option.bind_splits)
  have "tokens_ok s2"
    by (rule open_pair_ok [OF 2 clone_token_ok [OF 1 assms(2)]])
  then show ?thesis
    using assms(1) 1 2 d
    by (auto simp: finish_open_def split: Option.bind_splits option.splits prod.splits
        dest!: close_pair_ok)
qed

lemma open_ok [token_steps]:
  assumes "vfio_fpgaOpen H token out s = Some (r, hp, s')" "tokens_ok s"
  shows "tokens_ok s'"
proof -
  obtain r1 s1 where 1: "psys H P_attr_init s = (r1, s1)" by fastforce
  obtain h s2 where 2: "pmalloc H s1 = (h, s2)" by fastforce
  obtain r3 s3 where 3: "psys H P_attr_settype s2 = (r3, s3)" by fastforce
  obtain r4 s4 where 4: "psys H P_mutex_init s3 = (r4, s4)" by fastforce
  have ok: "tokens_ok s1" "tokens_ok s2" "tokens_ok s3" "tokens_ok s4"
    using assms(2) 1 2 3 4 by (metis psys_tokens_ok pmalloc_tokens_ok)+
  show ?thesis
    using assms ok unfolding vfio_fpgaOpen_def
    by (auto simp: 1 2 3 4 Let_def split: if_splits Option.bind_splits option.splits
        intro: finish_open_ok)
qed


lemma handle_lock_ok: "handle_check_and_lock H h s = Some (w, s') \<Longrightarrow> tokens_ok s \<Longrightarrow> tokens_ok s'"
  by (auto simp: handle_check_and_lock_def split: Option.bind_splits option.splits prod.splits
      dest: psys_tokens_ok)

lemma handle_lock_tokens: "handle_check_and_lock H h s = Some (w, s') \<Longrightarrow> pl_tokens s' = pl_tokens s"
  by (auto simp: handle_check_and_lock_def psys_def split: Option.bind_splits option.splits)

lemma event_lock_tokens: "event_handle_check_and_lock H h s = Some (w, s') \<Longrightarrow> pl_tokens s' = pl_tokens s"
  by (auto simp: event_handle_check_and_lock_def psys_def split: Option.bind_splits option.splits)

lemma close_ok [token_steps]:
  assumes "vfio_fpgaClose H h s = Some (r, s')" "tokens_ok s"
  shows "tokens_ok s'"
proof -
  obtain w s1 where 1: "handle_check_and_lock H h s = Some (w, s1)"
    using assms(1) by (auto simp: vfio_fpgaClose_def split: Option.bind_splits)
  have ok: "tokens_ok s1" by (rule handle_lock_ok [OF 1 assms(2)])
  show ?thesis
  proof (cases w)
    case None
    with assms(1) 1 ok show ?thesis by (simp add: vfio_fpgaClose_def)
  next
    case (Some w)
    then obtain tok s2 where 2: "close_vfio_pair H (vh_pair w)
        (if tok \<noteq> None then s1\<lparr>pl_tokens := (pl_tokens s1)(vh_token w := None)\<rparr> else s1) = Some s2"
      and 3: "token_check s1 (vh_token w) = Some tok"
      using assms(1) 1 by (auto simp: vfio_fpgaClose_def split: Option.bind_splits)
    have "tokens_ok s2"
      using close_pair_ok [OF 2] ok tokens_ok_del by (auto split: if_splits)
    then show ?thesis
      using assms(1) 1 2 3 Some
      by (auto simp: vfio_fpgaClose_def psys_def tokens_ok_def split: if_splits)
  qed
qed

text \<open>Calls that change no token.\<close>

definition same_tokens :: "plugin \<Rightarrow> plugin \<Rightarrow> bool" where
  "same_tokens s s' \<longleftrightarrow> pl_tokens s' = pl_tokens s \<and> pl_brk s \<le> pl_brk s'"

lemma same_tokens_ok: "same_tokens s s' \<Longrightarrow> tokens_ok s \<Longrightarrow> tokens_ok s'"
  using tokens_ok_same by (simp add: same_tokens_def)

lemma quiet_same_tokens: "quiet s s' \<Longrightarrow> pl_tokens s' = pl_tokens s \<Longrightarrow> same_tokens s s'"
  by (simp add: same_tokens_def quiet_def)

lemma free_dev_buffer_tokens: "free_dev_buffer H v p s = Some s' \<Longrightarrow> same_tokens s s'"
  by (auto simp: free_dev_buffer_def same_tokens_def split: Option.bind_splits prod.splits option.splits)

lemma undo_buffer_tokens: "undo_buffer H v p s = Some s' \<Longrightarrow> same_tokens s s'"
  by (auto simp: undo_buffer_def same_tokens_def dest: free_dev_buffer_tokens split: if_splits)

lemma link_buffer_tokens:
  assumes "link_buffer H v virt io sz s = Some (r, x, s')"
  shows "same_tokens s s'"
proof -
  obtain b s1 where 1: "pmalloc H s = (b, s1)" by fastforce
  have "same_tokens s s1"
    by (rule quiet_same_tokens [OF pmalloc_quiet [OF 1] pmalloc_tokens [OF 1]])
  then show ?thesis
    using assms unfolding link_buffer_def psys_def 1
    by (auto simp: Let_def same_tokens_def split: Option.bind_splits if_splits
        dest!: undo_buffer_tokens free_dev_buffer_tokens)
qed

lemma prepare_tokens:
  assumes "vfio_fpgaPrepareBuffer H h len ba ws s = Some (r, x, s')"
  shows "same_tokens s s'"
  using assms
proof (cases rule: prepare_cases)
  case (allocated h w ar w' t s1)
  show ?thesis
  proof (cases "ar_code ar = 0")
    case True
    with allocated(6) link_buffer_tokens have "same_tokens s1 s'" by blast
    with allocated(4) show ?thesis by (simp add: same_tokens_def)
  qed (use allocated(4,5) in \<open>simp add: same_tokens_def\<close>)
qed (simp add: same_tokens_def)

lemma release_tokens: "vfio_fpgaReleaseBuffer H h ws s = Some (r, s') \<Longrightarrow> same_tokens s s'"
  by (auto simp: vfio_fpgaReleaseBuffer_def psys_def punlock_def same_tokens_def
      split: Option.bind_splits option.splits if_splits dest!: free_dev_buffer_tokens)

lemma ioaddress_tokens: "vfio_fpgaGetIOAddress H h ws s = Some (r, a, s') \<Longrightarrow> pl_tokens s' = pl_tokens s"
  by (auto simp: vfio_fpgaGetIOAddress_def psys_def punlock_def split: Option.bind_splits option.splits
      if_splits)

lemma mmio_access_tokens:
  assumes "mmio_access H h t n off k action s = Some (r, x, s')"
    and "\<And>a u y u'. action a u = (y, u') \<Longrightarrow> pl_tokens u' = pl_tokens u"
  shows "pl_tokens s' = pl_tokens s"
  using assms(1)
  by (auto simp: mmio_access_def Let_def psys_def punlock_def split: if_splits prod.splits
      Option.bind_splits dest!: assms(2))

lemma mmio_tokens:
  "vfio_fpgaWriteMMIO64 H h n off v64 s = Some (r, u, s') \<Longrightarrow> pl_tokens s' = pl_tokens s"
  "vfio_fpgaReadMMIO64 H h n off s = Some (r, x64, s') \<Longrightarrow> pl_tokens s' = pl_tokens s"
  "vfio_fpgaWriteMMIO32 H h n off v32 s = Some (r, u, s') \<Longrightarrow> pl_tokens s' = pl_tokens s"
  "vfio_fpgaReadMMIO32 H h n off s = Some (r, x32, s') \<Longrightarrow> pl_tokens s' = pl_tokens s"
  "vfio_fpgaWriteMMIO512 H h n off bs s = Some (r, u, s') \<Longrightarrow> pl_tokens s' = pl_tokens s"
  by (auto simp: mmio_defs split: Option.bind_splits option.splits if_splits dest!: mmio_access_tokens)

lemma reset_tokens: "vfio_fpgaReset H h s = Some (r, s') \<Longrightarrow> pl_tokens s' = pl_tokens s"
  by (auto simp: vfio_fpgaReset_def Let_def psys_def punlock_def
      split: Option.bind_splits option.splits if_splits reset_fn.splits prod.splits
      dest!: handle_lock_tokens port_reset_tokens)

lemma event_tokens:
  "vfio_fpgaCreateEventHandle H out s = (r, e, s') \<Longrightarrow> pl_tokens s' = pl_tokens s"
  "vfio_fpgaDestroyEventHandle H e' s = Some (r, e, s') \<Longrightarrow> pl_tokens s' = pl_tokens s"
  "vfio_fpgaGetOSObjectFromEventHandle H e'' out s = Some (r, fd, s') \<Longrightarrow> pl_tokens s' = pl_tokens s"
  by (auto simp: vfio_fpgaCreateEventHandle_def vfio_fpgaDestroyEventHandle_def psys_def punlock_def
      vfio_fpgaGetOSObjectFromEventHandle_def split: Option.bind_splits option.splits if_splits prod.splits
      dest!: pmalloc_tokens event_lock_tokens)

lemma handle_lock_frame:
  "handle_check_and_lock H h s = Some (w, s') \<Longrightarrow> pl_tokens s' = pl_tokens s \<and> pl_brk s' = pl_brk s"
  by (auto simp: handle_check_and_lock_def psys_def split: Option.bind_splits option.splits)

lemma event_lock_frame:
  "event_handle_check_and_lock H h s = Some (w, s') \<Longrightarrow> pl_tokens s' = pl_tokens s \<and> pl_brk s' = pl_brk s"
  by (auto simp: event_handle_check_and_lock_def psys_def split: Option.bind_splits option.splits)

lemma register_tokens: "vfio_fpgaRegisterEvent H h ty e fl s = Some (r, s') \<Longrightarrow> same_tokens s s'"
  by (cases ty) (auto simp: vfio_fpgaRegisterEvent_def register_event_def psys_def punlock_def same_tokens_def
      split: Option.bind_splits option.splits if_splits prod.splits
      dest!: handle_lock_frame event_lock_frame)

lemma unregister_tokens: "vfio_fpgaUnregisterEvent H h ty e s = Some (r, s') \<Longrightarrow> same_tokens s s'"
  by (cases ty) (auto simp: vfio_fpgaUnregisterEvent_def unregister_event_def psys_def punlock_def same_tokens_def
      split: Option.bind_splits option.splits if_splits prod.splits
      dest!: handle_lock_frame event_lock_frame)

lemma read_attr_tokens: "read_pci_attr_u32 H a n s = (r, v, s') \<Longrightarrow> pl_tokens s' = pl_tokens s"
  by (auto simp: read_pci_attr_u32_def read_pci_attr_def psys_def Let_def split: prod.splits if_splits)

lemma get_device_tokens: "pl_tokens (snd (get_pci_device H a s)) = pl_tokens s"
proof (cases "find_pci_device s a")
  case None
  obtain d s1 where 1: "pmalloc H s = (d, s1)" by fastforce
  obtain r2 v2 s2 where 2: "read_pci_attr_u32 H a ''vendor'' s1 = (r2, v2, s2)" by (metis prod_cases3)
  obtain r3 v3 s3 where 3: "read_pci_attr_u32 H a ''device'' s2 = (r3, v3, s3)" by (metis prod_cases3)
  obtain r4 v4 s4 where 4: "read_pci_attr_u32 H a ''numa_node'' s3 = (r4, v4, s4)" by (metis prod_cases3)
  from None pmalloc_tokens [OF 1] read_attr_tokens [OF 2] read_attr_tokens [OF 3] read_attr_tokens [OF 4]
  show ?thesis unfolding get_pci_device_def by (simp add: 1 2 3 4 split: prod.split)
qed (simp add: get_pci_device_def)

lemma initialize_tokens: "pl_tokens (snd (vfio_plugin_initialize H s)) = pl_tokens s"
proof -
  have dev: "pl_tokens (snd (get_pci_device H a u)) = pl_tokens u" for a u
    by (rule get_device_tokens)
  have "pl_tokens (discover_paths H ps u) = pl_tokens u" for ps u
    by (induction ps arbitrary: u) (auto simp: dev split: option.splits)
  then show ?thesis by (simp add: vfio_plugin_initialize_def pci_discover_def psys_def Let_def)
qed

lemma finalize_ok: "vfio_plugin_finalize s = Some (r, s') \<Longrightarrow> tokens_ok s \<Longrightarrow> tokens_ok s'"
proof -
  have del: "tokens_ok u \<Longrightarrow> tokens_ok (free_token_list ts u)" for ts u
    by (auto simp: free_token_list_def tokens_ok_def restrict_map_def split: if_splits)
  have devs: "tokens_ok u \<Longrightarrow> tokens_ok (free_devices ps u)" for ps u
    by (induction ps arbitrary: u) (auto simp: del split: option.splits)
  show "vfio_plugin_finalize s = Some (r, s') \<Longrightarrow> tokens_ok s \<Longrightarrow> tokens_ok s'"
    by (auto simp: vfio_plugin_finalize_def free_buffer_list_def free_device_list_def
        split: Option.bind_splits intro: devs)
qed

lemmas quiet_calls = ioaddress_quiet mmio_quiet reset_quiet create_event_quiet destroy_event_quiet
  os_object_quiet

lemma quiet_calls_tokens:
  "vfio_fpgaGetIOAddress H h ws s = Some (r, a, s') \<Longrightarrow> same_tokens s s'"
  "vfio_fpgaWriteMMIO64 H h n off v64 s = Some (r, u, s') \<Longrightarrow> same_tokens s s'"
  "vfio_fpgaReadMMIO64 H h n off s = Some (r, x64, s') \<Longrightarrow> same_tokens s s'"
  "vfio_fpgaWriteMMIO32 H h n off v32 s = Some (r, u, s') \<Longrightarrow> same_tokens s s'"
  "vfio_fpgaReadMMIO32 H h n off s = Some (r, x32, s') \<Longrightarrow> same_tokens s s'"
  "vfio_fpgaWriteMMIO512 H h n off bs s = Some (r, u, s') \<Longrightarrow> same_tokens s s'"
  "vfio_fpgaReset H h s = Some (r, s') \<Longrightarrow> same_tokens s s'"
  "vfio_fpgaCreateEventHandle H out s = (r, e, s') \<Longrightarrow> same_tokens s s'"
  "vfio_fpgaDestroyEventHandle H e' s = Some (r, e, s') \<Longrightarrow> same_tokens s s'"
  "vfio_fpgaGetOSObjectFromEventHandle H e'' out s = Some (r, fd, s') \<Longrightarrow> same_tokens s s'"
  by (rule quiet_same_tokens, erule quiet_calls, erule ioaddress_tokens mmio_tokens reset_tokens event_tokens)+

lemmas kept_tokens_ok = prepare_tokens [THEN same_tokens_ok] release_tokens [THEN same_tokens_ok]
  quiet_calls_tokens [THEN same_tokens_ok] register_tokens [THEN same_tokens_ok]
  unregister_tokens [THEN same_tokens_ok]

lemma clone_call_ok:
  "vfio_fpgaCloneToken H t out s = Some (r, c, s') \<Longrightarrow> tokens_ok s \<Longrightarrow> tokens_ok s'"
  by (auto simp: vfio_fpgaCloneToken_def split: if_splits Option.bind_splits prod.splits
      dest: tokens_okD dest!: pmalloc_fresh intro!: tokens_ok_upd)

lemma destroy_call_ok: "vfio_fpgaDestroyToken t s = Some (r, s') \<Longrightarrow> tokens_ok s \<Longrightarrow> tokens_ok s'"
  by (auto simp: vfio_fpgaDestroyToken_def split: if_splits Option.bind_splits option.splits
      intro: tokens_ok_del)

lemma enumerate_ok: "vfio_fpgaEnumerate H fs m s = Some (r, out, n, s') \<Longrightarrow> tokens_ok s \<Longrightarrow> tokens_ok s'"
  by (auto simp: vfio_fpgaEnumerate_def split: Option.bind_splits dest: enum_devices_ok)

lemma exec_tokens_ok:
  assumes "plugin_exec H c s = Some s'" "tokens_ok s"
  shows "tokens_ok s'"
proof (cases c)
  case V_Initialize
  with assms show ?thesis using tokens_ok_same [OF initialize_tokens [of H s]]
      quietD(6) [OF initialize_quiet [OF prod.collapse [symmetric]]] by auto
next
  case (V_CreateEventHandle out)
  with assms show ?thesis
    by (cases "vfio_fpgaCreateEventHandle H out s") (auto dest: kept_tokens_ok)
qed (use assms in \<open>auto dest: open_ok close_ok finalize_ok clone_call_ok destroy_call_ok enumerate_ok
      kept_tokens_ok\<close>)

lemma run_tokens_ok: "plugin_run H cs s = Some s' \<Longrightarrow> tokens_ok s \<Longrightarrow> tokens_ok s'"
  by (induction cs arbitrary: s) (auto split: Option.bind_splits dest: exec_tokens_ok)


lemma plugin_zero_tokens_ok: "tokens_ok plugin_zero"
  by (simp add: tokens_ok_def plugin_zero_def)

subsection \<open>Accesses to registers\<close>

definition mmio_target :: "vfio_handle \<Rightarrow> vfio_token \<Rightarrow> u32 \<Rightarrow> u64 \<Rightarrow> u64" where
  "mmio_target w t n off = vh_mmio_base w + ucast (vt_user_mmio t ! unat n) + take_bit 32 off"

lemma ucast_low: "(ucast (ucast (x :: u64) :: u32) :: u64) = take_bit 32 x"
  by (simp add: bit_eq_iff bit_simps)

lemma target_defined:
  assumes "token_ok t" "n \<le> vt_user_mmio_count t"
  shows "get_user_offset w t n off = Some (mmio_target w t n off)"
proof -
  have "unat n \<le> unat (2 :: u32)"
    using assms unfolding token_ok_def by (meson order_trans word_le_nat_alt)
  then show ?thesis
    using assms(1) by (simp add: get_user_offset_def mmio_target_def token_ok_def ucast_low)
qed

lemma take_bit_32_wraps:
  fixes x :: u64
  shows "take_bit 32 (x + 2 ^ 32) = take_bit 32 x"
proof -
  have "unat (take_bit 32 (x + 2 ^ 32)) = unat (take_bit 32 x)"
    by (simp add: unsigned_take_bit_eq take_bit_eq_mod unat_word_ariths mod_mod_cancel)
  then show ?thesis by (simp add: word_unat_eq_iff)
qed

lemma target_wraps: "mmio_target w t n (off + 2 ^ 32) = mmio_target w t n off"
  by (simp only: mmio_target_def take_bit_32_wraps)

text \<open>
  C9. MMIO, on any handle a client was given and with a lock that works. When the handle has no token, because the memory for its copy
  was not there, every access is undefined. On the handle of an FPGA_DEVICE every access is refused. On any other
  handle an access with a region number above the number of regions is refused and nothing is written; with a
  number up to it, the number itself included, it goes to exactly one address, the base of the region plus the
  offset of the register block plus the offset modulo \<open>2 ^ 32\<close>: it is defined when the bytes lie in the mapping
  and undefined when they do not, for the code does not check. Offsets that differ by \<open>2 ^ 32\<close> reach the same register.
\<close>

theorem plugin_mmio:
  assumes run: "plugin_run H cs plugin_zero = Some s"
    and h: "h \<noteq> NULL" "pl_handles s h = Some w" "vh_magic w = VFIO_HANDLE_MAGIC"
    and locks: "\<And>cs. pans H cs P_lock = 0"
  shows "(pl_tokens s (vh_token w) = None \<longrightarrow>
      vfio_fpgaWriteMMIO64 H h n off v s = None \<and> vfio_fpgaWriteMMIO32 H h n off v' s = None \<and>
      vfio_fpgaReadMMIO64 H h n off s = None \<and> vfio_fpgaReadMMIO32 H h n off s = None) \<and>
    (\<forall>t. pl_tokens s (vh_token w) = Some t \<longrightarrow>
      (vt_type t = FPGA_DEVICE \<longrightarrow>
        vfio_fpgaWriteMMIO64 H h n off v s = Some (FPGA_NOT_SUPPORTED, None, s) \<and>
        vfio_fpgaWriteMMIO32 H h n off v' s = Some (FPGA_NOT_SUPPORTED, None, s) \<and>
        vfio_fpgaReadMMIO64 H h n off s = Some (FPGA_NOT_SUPPORTED, None, s) \<and>
        vfio_fpgaReadMMIO32 H h n off s = Some (FPGA_NOT_SUPPORTED, None, s)) \<and>
      (vt_type t \<noteq> FPGA_DEVICE \<and> vt_user_mmio_count t < n \<longrightarrow>
        vfio_fpgaWriteMMIO64 H h n off v s = Some (FPGA_INVALID_PARAM, None, s) \<and>
        vfio_fpgaWriteMMIO32 H h n off v' s = Some (FPGA_INVALID_PARAM, None, s) \<and>
        vfio_fpgaReadMMIO64 H h n off s = Some (FPGA_INVALID_PARAM, None, s) \<and>
        vfio_fpgaReadMMIO32 H h n off s = Some (FPGA_INVALID_PARAM, None, s) \<and>
        vfio_fpgaMapMMIO h n True s = Some (FPGA_INVALID_PARAM, None, s)) \<and>
      (vt_type t \<noteq> FPGA_DEVICE \<and> n \<le> vt_user_mmio_count t \<longrightarrow>
        (let room = (\<lambda>k. unat (vt_user_mmio t ! unat n) + unat (take_bit 32 off) + k \<le> unat (vh_mmio_size w));
             a = mmio_target w t n off
         in (if room 8
             then (\<exists>s'. vfio_fpgaWriteMMIO64 H h n off v s = Some (FPGA_OK, Some (), s') \<and>
                 pl_writes s' = Write64 a v # pl_writes s) \<and>
               (\<exists>s'. vfio_fpgaReadMMIO64 H h n off s = Some (FPGA_OK, Some (reg64 H (pl_writes s) a), s') \<and>
                 pl_writes s' = pl_writes s)
             else vfio_fpgaWriteMMIO64 H h n off v s = None \<and> vfio_fpgaReadMMIO64 H h n off s = None) \<and>
            (if room 4
             then (\<exists>s'. vfio_fpgaWriteMMIO32 H h n off v' s = Some (FPGA_OK, Some (), s') \<and>
                 pl_writes s' = Write32 a v' # pl_writes s) \<and>
               (\<exists>s'. vfio_fpgaReadMMIO32 H h n off s = Some (FPGA_OK, Some (ucast (reg64 H (pl_writes s) a)), s') \<and>
                 pl_writes s' = pl_writes s)
             else vfio_fpgaWriteMMIO32 H h n off v' s = None \<and> vfio_fpgaReadMMIO32 H h n off s = None)) \<and>
        vfio_fpgaMapMMIO h n True s = Some (FPGA_OK, Some (mmio_target w t n 0), s) \<and>
        mmio_target w t n (off + 2 ^ 32) = mmio_target w t n off))"
proof -
  have toks: "tokens_ok s" by (rule run_tokens_ok [OF run plugin_zero_tokens_ok])
  have hc: "handle_check s h = Some (Some w)" using h by (simp add: handle_check_def)
  note un = mmio_defs vfio_fpgaMapMMIO_def mmio_access_def hc psys_def locks regs_def punlock_def
  have low: "unat (ucast off :: u32) = unat (take_bit 32 off)"
    by (simp add: unsigned_ucast_eq unsigned_take_bit_eq)
  show ?thesis
  proof (intro conjI allI impI)
    fix t assume t: "pl_tokens s (vh_token w) = Some t" "vt_type t \<noteq> FPGA_DEVICE \<and> n \<le> vt_user_mmio_count t"
    note tg = target_defined [OF tokens_okD [OF toks t(1)], of n w]
    show "let room = (\<lambda>k. unat (vt_user_mmio t ! unat n) + unat (take_bit 32 off) + k \<le> unat (vh_mmio_size w));
             a = mmio_target w t n off
         in (if room 8
             then (\<exists>s'. vfio_fpgaWriteMMIO64 H h n off v s = Some (FPGA_OK, Some (), s') \<and>
                 pl_writes s' = Write64 a v # pl_writes s) \<and>
               (\<exists>s'. vfio_fpgaReadMMIO64 H h n off s = Some (FPGA_OK, Some (reg64 H (pl_writes s) a), s') \<and>
                 pl_writes s' = pl_writes s)
             else vfio_fpgaWriteMMIO64 H h n off v s = None \<and> vfio_fpgaReadMMIO64 H h n off s = None) \<and>
            (if room 4
             then (\<exists>s'. vfio_fpgaWriteMMIO32 H h n off v' s = Some (FPGA_OK, Some (), s') \<and>
                 pl_writes s' = Write32 a v' # pl_writes s) \<and>
               (\<exists>s'. vfio_fpgaReadMMIO32 H h n off s = Some (FPGA_OK, Some (ucast (reg64 H (pl_writes s) a)), s') \<and>
                 pl_writes s' = pl_writes s)
             else vfio_fpgaWriteMMIO32 H h n off v' s = None \<and> vfio_fpgaReadMMIO32 H h n off s = None)"
      using t tg by (auto simp: un in_mapping_def low Let_def)
    show "vfio_fpgaMapMMIO h n True s = Some (FPGA_OK, Some (mmio_target w t n 0), s)"
      using t tg by (auto simp: un)
    show "mmio_target w t n (off + 2 ^ 32) = mmio_target w t n off" by (rule target_wraps)
  qed (auto simp: un)
qed

theorem plugin_mmio_witness:
  "\<exists>s s'. plugin_run demo_host (demo_enum @ [V_Open 5 True]) plugin_zero = Some s \<and>
     vfio_fpgaWriteMMIO64 demo_host 6 1 8 5 s = Some (FPGA_OK, Some (), s') \<and>
     vfio_fpgaReadMMIO32 demo_host 6 2 8 s = Some (FPGA_INVALID_PARAM, None, s)"
proof (rule demo_handle)
  fix s w t
  assume s: "plugin_run demo_host (demo_enum @ [V_Open 5 True]) plugin_zero = Some s" "pl_handles s 6 = Some w"
    "vh_magic w = VFIO_HANDLE_MAGIC" "pl_tokens s (vh_token w) = Some t" "vt_type t = FPGA_ACCELERATOR"
    "vt_user_mmio_count t = 1" "vh_mmio_size w = 0x10000 \<and> vt_user_mmio t ! 1 = 0"
  have "(6 :: ptr) \<noteq> NULL" "vt_type t \<noteq> FPGA_DEVICE" "pans demo_host cs P_lock = 0" for cs
    using s(5) by (simp_all add: demo_host_def)
  note p = plugin_mmio [OF s(1) this(1) s(2,3) this(3)]
  from s(7) have "unat (vt_user_mmio t ! 1) + unat (take_bit 32 (8 :: u64)) + 8 \<le> unat (vh_mmio_size w)" by simp
  then show ?thesis using p [of 1 8 5 0] p [of 2 8 5 0] s(1,4-6) by (simp add: Let_def) blast
qed


subsection \<open>Copies of tokens\<close>

text \<open>
  \<open>copied oom b m m' t c\<close> says that \<open>c\<close> is, in the store \<open>m'\<close>, a copy of the token \<open>t\<close> of the store \<open>m\<close>:
  the same contents at an address from \<open>b\<close> on, and a copy of the parent, at a higher address, for a parent. When
  \<open>oom\<close> holds, memory may have run out on the way: then the copy is NULL from there on.
\<close>

inductive copied :: "bool \<Rightarrow> ptr \<Rightarrow> (ptr \<rightharpoonup> vfio_token) \<Rightarrow> (ptr \<rightharpoonup> vfio_token) \<Rightarrow> ptr \<Rightarrow> ptr \<Rightarrow> bool"
  for oom b m m' where
  copied_NULL: "oom \<or> t = NULL \<Longrightarrow> copied oom b m m' t NULL"
| copied_last: "m t = Some w \<Longrightarrow> vt_parent w = NULL \<Longrightarrow> b \<le> c \<Longrightarrow> m' c = Some w \<Longrightarrow> copied oom b m m' t c"
| copied_parent: "m t = Some w \<Longrightarrow> vt_parent w \<noteq> NULL \<Longrightarrow> b \<le> c \<Longrightarrow> m' c = Some (w\<lparr>vt_parent := q\<rparr>) \<Longrightarrow>
    q = NULL \<or> c < q \<Longrightarrow> copied oom b m m' (vt_parent w) q \<Longrightarrow> copied oom b m m' t c"

text \<open>A chain of parents that ends after at most \<open>n\<close> tokens, all of them alive.\<close>

fun parents_end :: "(ptr \<rightharpoonup> vfio_token) \<Rightarrow> nat \<Rightarrow> ptr \<Rightarrow> bool" where
  "parents_end m 0 t \<longleftrightarrow> t = NULL"
| "parents_end m (Suc n) t \<longleftrightarrow>
     t = NULL \<or> (case m t of None \<Rightarrow> False | Some w \<Rightarrow> parents_end m n (vt_parent w))"

text \<open>Tokens were only added, at new addresses.\<close>

definition extends :: "plugin \<Rightarrow> plugin \<Rightarrow> bool" where
  "extends s s' \<longleftrightarrow> (\<forall>t < pl_brk s. pl_tokens s' t = pl_tokens s t) \<and> pl_brk s \<le> pl_brk s' \<and>
     pl_devices s' = pl_devices s"

lemma tokens_ok_free: "tokens_ok s \<Longrightarrow> pl_brk s \<le> t \<Longrightarrow> pl_tokens s t = None"
  using tokens_ok_below by (meson not_le option.exhaust)

lemma extends_refl [simp]: "extends s s"
  by (simp add: extends_def)

lemma extends_trans [trans]: "extends a b \<Longrightarrow> extends b c \<Longrightarrow> extends a c"
  by (simp add: extends_def)

lemma extends_le: "extends s s' \<Longrightarrow> tokens_ok s \<Longrightarrow> pl_tokens s \<subseteq>\<^sub>m pl_tokens s'"
  using tokens_ok_below unfolding extends_def map_le_def by fastforce

lemma extends_upd:
  assumes "extends s s'" "pl_brk s \<le> p"
  shows "extends s (s'\<lparr>pl_tokens := (pl_tokens s')(p \<mapsto> w)\<rparr>)"
  using assms by (auto simp: extends_def)

lemma copied_mono:
  assumes "copied oom b m m' t c" "m' \<subseteq>\<^sub>m m''"
  shows "copied oom b m m'' t c"
proof -
  have "m' x = Some w \<Longrightarrow> m'' x = Some w" for x w
    using assms(2) by (force simp: map_le_def)
  with assms(1) show ?thesis by (induction) (auto intro: copied.intros)
qed

text \<open>
  Cloning a token whose chain of parents ends returns, leaves every other token alone, and makes
  a copy of the whole chain.
\<close>

lemma pmalloc_extends: "pmalloc H s = (p, s') \<Longrightarrow> extends s s'"
  by (auto simp: pmalloc_def psys_def extends_def split: if_splits)

lemma clone_parent:
  assumes par: "clone_token H (vt_parent w) s1 = Some (q, s2)" "extends s1 s2"
      "copied oom b m (pl_tokens s2) (vt_parent w) q" "q = NULL \<or> pl_brk s1 \<le> q"
    and w: "m t = Some w" "vt_parent w \<noteq> NULL"
    and m: "pmalloc H s = (p, s1)" "p \<noteq> NULL" "tokens_ok s" and b: "b \<le> pl_brk s"
  shows "extends s (s2\<lparr>pl_tokens := (pl_tokens s2)(p \<mapsto> w\<lparr>vt_parent := q\<rparr>)\<rparr>)"
    "copied oom b m ((pl_tokens s2)(p \<mapsto> w\<lparr>vt_parent := q\<rparr>)) t p"
proof -
  have new: "p = pl_brk s" "p < pl_brk s1" using pmalloc_new [OF m(1,2)] by auto
  show "extends s (s2\<lparr>pl_tokens := (pl_tokens s2)(p \<mapsto> w\<lparr>vt_parent := q\<rparr>)\<rparr>)"
    by (rule extends_upd [OF extends_trans [OF pmalloc_extends [OF m(1)] par(2)]]) (simp add: new)
  have "pl_tokens s2 p = None"
    using par(2) new pmalloc_tokens [OF m(1)] tokens_ok_free [OF m(3), of p] by (simp add: extends_def)
  then have le: "pl_tokens s2 \<subseteq>\<^sub>m (pl_tokens s2)(p \<mapsto> w\<lparr>vt_parent := q\<rparr>)"
    by (auto simp: map_le_def)
  show "copied oom b m ((pl_tokens s2)(p \<mapsto> w\<lparr>vt_parent := q\<rparr>)) t p"
    by (rule copied_parent [OF w _ _ _ copied_mono [OF par(3) le]]) (use par(4) new b in auto)
qed

lemma clone_returns:
  assumes "parents_end m n t" "m \<subseteq>\<^sub>m pl_tokens s" "tokens_ok s"
    and b: "b \<le> pl_brk s" and mem: "\<And>cs. oom \<or> pans H cs P_malloc \<noteq> 0"
  shows "\<exists>c s'. clone_token H t s = Some (c, s') \<and> extends s s' \<and> tokens_ok s' \<and>
    copied oom b m (pl_tokens s') t c \<and> (c = NULL \<or> pl_brk s \<le> c)"
proof -
  have "\<exists>c s'. clone_token H t s = Some (c, s') \<and> extends s s' \<and> copied oom b m (pl_tokens s') t c \<and>
      (c = NULL \<or> pl_brk s \<le> c)"
    using assms(1-3) b
  proof (induction n arbitrary: t s)
    case 0
    then show ?case by (subst clone_token.simps) (auto intro: copied.intros)
  next
    case (Suc n)
    obtain p s1 where 1: "pmalloc H s = (p, s1)" by fastforce
    note e1 = pmalloc_extends [OF 1] and t1 = pmalloc_tokens [OF 1]
    have ok1: "tokens_ok s1" by (rule pmalloc_tokens_ok [OF 1 Suc.prems(3)])
    show ?case
    proof (cases "t = NULL")
      case True
      then show ?thesis by (subst clone_token.simps) (auto intro: copied.intros)
    next
      case False
      then obtain w where w: "m t = Some w" "parents_end m n (vt_parent w)" "pl_tokens s t = Some w"
        using Suc.prems(1,2) by (force simp: map_le_def split: option.splits)
      have magic: "vt_magic w = VFIO_TOKEN_MAGIC"
        using tokens_okD [OF Suc.prems(3) w(3)] by (simp add: token_ok_def)
      note un = False w magic 1
      consider (full) "p = NULL" | (root) "p \<noteq> NULL" "vt_parent w = NULL"
        | (par) "p \<noteq> NULL" "vt_parent w \<noteq> NULL" by blast
      then show ?thesis
      proof cases
        case full
        then have oom using 1 mem tokens_ok_below [OF Suc.prems(3) w(3)]
          by (auto simp: pmalloc_def psys_def split: if_splits)
        with full show ?thesis using un by (subst clone_token.simps) (auto simp: e1 intro: copied.intros)
      next
        case root
        then show ?thesis
          using un pmalloc_new [OF 1]
          by (subst clone_token.simps) (use Suc.prems(4) in \<open>auto intro!: extends_upd [OF e1] copied_last\<close>)
      next
        case par
        obtain q s2 where 2: "clone_token H (vt_parent w) s1 = Some (q, s2)" "extends s1 s2"
            "copied oom b m (pl_tokens s2) (vt_parent w) q" "q = NULL \<or> pl_brk s1 \<le> q"
          using Suc.IH [OF w(2) _ ok1] Suc.prems(2,4) t1 e1 by (auto simp: extends_def)
        note c = clone_parent [where m = m and oom = oom, OF 2 w(1) par(2) 1 par(1) Suc.prems(3,4)]
        show ?thesis using un par 2(1) c pmalloc_new [OF 1] by (subst clone_token.simps) auto
      qed
    qed
  qed
  with clone_token_ok assms(3) show ?thesis by blast
qed

text \<open>A token that is its own parent is copied without end.\<close>

lemma clone_diverges:
  assumes "pl_tokens s t = Some w" "t \<noteq> NULL" "vt_parent w = t" "tokens_ok s"
    and mem: "\<And>cs. pans H cs P_malloc \<noteq> 0"
  shows "clone_token H t s = None"
proof -
  define self where "self s \<longleftrightarrow> pl_tokens s t = Some w \<and> t < pl_brk s" for s :: plugin
  have w: "vt_magic w = VFIO_TOKEN_MAGIC" using tokens_okD [OF assms(4,1)] by (simp add: token_ok_def)
  have s0: "self s" using assms(1) tokens_ok_below [OF assms(4)] by (auto simp: self_def)
  have no: "\<not> (self s \<and> src = t \<and> H' = H)" if "clone_token H' src s = Some y" for H' src s y
  proof (rule clone_token.raw_induct
      [where P = "\<lambda>H' src s y. \<not> (self s \<and> src = t \<and> H' = H)", OF _ that])
    fix f H' src s y
    assume IH: "\<And>H' src s y. f H' src s = Some y \<Longrightarrow> \<not> (self s \<and> src = t \<and> H' = H)"
      and b: "(if src = NULL then Some (NULL, s)
        else do {
          w \<leftarrow> pl_tokens s src;
          if vt_magic w \<noteq> VFIO_TOKEN_MAGIC then Some (NULL, s)
          else case pmalloc H' s of (t, s) \<Rightarrow>
            if t = NULL then Some (NULL, s)
            else if vt_parent w = NULL then Some (t, s\<lparr>pl_tokens := (pl_tokens s)(t \<mapsto> w)\<rparr>)
            else do {
              (q, s) \<leftarrow> f H' (vt_parent w) s;
              Some (t, s\<lparr>pl_tokens := (pl_tokens s)(t \<mapsto> w\<lparr>vt_parent := q\<rparr>)\<rparr>)
            }
        }) = Some y"
    show "\<not> (self s \<and> src = t \<and> H' = H)"
    proof
      assume a: "self s \<and> src = t \<and> H' = H"
      define s1 where "s1 = snd (pmalloc H s)"
      have m: "pmalloc H s = (pl_brk s, s1)" "self s1" "pl_brk s \<noteq> NULL"
        using a mem by (auto simp: s1_def pmalloc_def psys_def self_def)
      with a b w assms(2,3) obtain z where "f H t s1 = Some z"
        by (auto simp: self_def bind_eq_Some_conv)
      with IH m(2) show False by blast
    qed
  qed
  have "clone_token H t s \<noteq> Some y" for y using no s0 by blast
  then show ?thesis by (cases "clone_token H t s") (simp, blast)
qed


text \<open>
  C10. Copies of a token. Cloning a token that is alive and whose chain of parents ends returns;
  it leaves every other token in place and hands out a new token, the copy of the token, whose parent is a new token,
  the copy of its parent, and so on to the end of the chain: every one of them is at an address that was not in use
  and higher than the one before, and NULL stands only where memory ran out. A token that is its own parent, which the plugin makes
  of a port whose register block lies in the BAR of the management engine, is cloned without end,
  so that opening it does not return.
\<close>

theorem plugin_clone_token:
  assumes run: "plugin_run H cs plugin_zero = Some s" and t: "t \<noteq> NULL" "pl_tokens s t = Some w"
  shows "(parents_end (pl_tokens s) n t \<longrightarrow>
      (\<exists>c s'. clone_token H t s = Some (c, s') \<and> extends s s' \<and>
        copied (\<exists>cs. pans H cs P_malloc = 0) (pl_brk s) (pl_tokens s) (pl_tokens s') t c)) \<and>
    (vt_parent w = t \<and> (\<forall>cs. pans H cs P_malloc \<noteq> 0) \<longrightarrow>
      clone_token H t s = None \<and> finish_open H t w h s = None)"
proof -
  have ok: "tokens_ok s" by (rule run_tokens_ok [OF run plugin_zero_tokens_ok])
  have "clone_token H t s = None" if "vt_parent w = t" "\<forall>cs. pans H cs P_malloc \<noteq> 0"
    using clone_diverges [OF t(2,1) that(1) ok] that(2) by blast
  moreover have "\<exists>c s'. clone_token H t s = Some (c, s') \<and> extends s s' \<and>
      copied (\<exists>cs. pans H cs P_malloc = 0) (pl_brk s) (pl_tokens s) (pl_tokens s') t c"
    if "parents_end (pl_tokens s) n t"
    using clone_returns [OF that map_le_refl ok order_refl, of "\<exists>cs. pans H cs P_malloc = 0" H] by auto
  ultimately show ?thesis by (auto simp: finish_open_def)
qed

theorem plugin_clone_token_witness:
  "\<exists>s c s'. plugin_run demo_host demo_enum plugin_zero = Some s \<and> clone_token demo_host 5 s = Some (c, s') \<and>
     extends s s' \<and> copied False (pl_brk s) (pl_tokens s) (pl_tokens s') 5 c"
proof (rule demo_steps)
  fix s w w'
  assume s: "plugin_run demo_host demo_enum plugin_zero = Some s"
    "pl_tokens s 5 = Some w'" "vt_parent w' = NULL"
  have "(5 :: ptr) \<noteq> NULL" "parents_end (pl_tokens s) (Suc 0) 5" using s by simp_all
  moreover have "(\<exists>cs. pans demo_host cs P_malloc = 0) = False" by (simp add: demo_host_def)
  ultimately show ?thesis using plugin_clone_token [OF s(1) _ s(2), of "Suc 0"] s(1) by auto
qed


subsection \<open>Enumeration\<close>

text \<open>
  A token can be compared with the filters and copied when it is alive, the comparison does not
  follow a stale parent, and its chain of parents ends; it is a match when it passes the filters.
\<close>

definition comparable :: "plugin \<Rightarrow> fpga_properties list option \<Rightarrow> nat \<Rightarrow> ptr \<Rightarrow> bool" where
  "comparable s fs n t \<longleftrightarrow>
     (case pl_tokens s t of
        None \<Rightarrow> False
      | Some w \<Rightarrow> matches_filters s fs w \<noteq> None \<and> parents_end (pl_tokens s) n t)"

text \<open>
  What it means that a token passes, without the order of the tests: some filter agrees with it in the type, the GUID
  and the parent, as far as the filter gives them. Parents agree when they are registers of the same region of the
  same function; a token without a parent, or of an FPGA_DEVICE, agrees with none.
\<close>

definition same_place :: "plugin \<Rightarrow> ptr \<Rightarrow> ptr \<Rightarrow> bool" where
  "same_place s a b \<longleftrightarrow> (\<exists>x y dx dy. pl_tokens s a = Some x \<and> pl_tokens s b = Some y \<and>
     pl_devices s (vt_device x) = Some dx \<and> pl_devices s (vt_device y) = Some dy \<and>
     bdf dx = bdf dy \<and> vt_region x = vt_region y)"

definition agrees :: "plugin \<Rightarrow> vfio_token \<Rightarrow> fpga_properties \<Rightarrow> bool" where
  "agrees s w f \<longleftrightarrow>
     (bit (valid_fields f) FPGA_PROPERTY_OBJTYPE \<longrightarrow> vt_type w = pr_objtype f) \<and>
     (bit (valid_fields f) FPGA_PROPERTY_GUID \<longrightarrow> vt_guid w = pr_guid f) \<and>
     (bit (valid_fields f) FPGA_PROPERTY_PARENT \<longrightarrow>
        vt_type w \<noteq> FPGA_DEVICE \<and> vt_parent w \<noteq> NULL \<and> same_place s (vt_parent w) (pr_parent f))"

definition passes :: "plugin \<Rightarrow> fpga_properties list option \<Rightarrow> ptr \<Rightarrow> bool" where
  "passes s fs t \<longleftrightarrow> (\<exists>w. pl_tokens s t = Some w \<and> (fs = None \<or> (\<exists>f\<in>set (the fs). agrees s w f)))"

lemma field_valid_bit: "FIELD_VALID f n \<longleftrightarrow> bit (valid_fields f) n"
  by (simp add: FIELD_VALID_def bit_iff_odd_drop_bit and_one_eq odd_iff_mod_2_eq_one)

lemma matches_parent_same: "matches_parent s q w = Some c \<Longrightarrow>
    c \<longleftrightarrow> vt_type w \<noteq> FPGA_DEVICE \<and> vt_parent w \<noteq> NULL \<and> same_place s (vt_parent w) q"
  by (auto simp: matches_parent_def same_place_def bind_eq_Some_conv split: if_splits)

lemma matches_filter_agrees: "matches_filter s f w = Some c \<Longrightarrow> c \<longleftrightarrow> agrees s w f"
  by (auto simp: matches_filter_def agrees_def field_valid_bit bind_eq_Some_conv dest: matches_parent_same split: if_splits)

lemma matches_filters_agree:
  assumes "matches_filters s fs w = Some c"
  shows "c \<longleftrightarrow> fs = None \<or> (\<exists>f\<in>set (the fs). agrees s w f)"
proof -
  have "some_filter s gs w = Some c \<Longrightarrow> c \<longleftrightarrow> (\<exists>f\<in>set gs. agrees s w f)" for gs c
    by (induction gs) (auto simp: bind_eq_Some_conv dest: matches_filter_agrees split: if_splits)
  with assms show ?thesis by (cases fs) (auto simp: matches_filters_def)
qed

text \<open>A comparison has the same outcome once tokens were added.\<close>

lemma matches_parent_mono:
  assumes le: "pl_tokens s \<subseteq>\<^sub>m pl_tokens s'" and dev: "pl_devices s' = pl_devices s"
    and p: "matches_parent s q w = Some c"
  shows "matches_parent s' q w = Some c"
proof (cases "vt_type w = FPGA_DEVICE \<or> vt_parent w = NULL")
  case True
  then show ?thesis using p by (simp add: matches_parent_def split: if_splits)
next
  case False
  then obtain tp fp where t: "pl_tokens s (vt_parent w) = Some tp" "pl_tokens s q = Some fp"
    using p by (auto simp: matches_parent_def bind_eq_Some_conv)
  then have "pl_tokens s' (vt_parent w) = Some tp" "pl_tokens s' q = Some fp"
    using le by (simp_all add: map_le_def) (metis domI)+
  then show ?thesis using False p t by (simp add: matches_parent_def dev)
qed

lemma matches_filter_mono:
  assumes "pl_tokens s \<subseteq>\<^sub>m pl_tokens s'" "pl_devices s' = pl_devices s" "matches_filter s f w = Some b"
  shows "matches_filter s' f w = Some b"
proof -
  define par where "par s = (if FIELD_VALID f FPGA_PROPERTY_PARENT then matches_parent s (pr_parent f) w
    else Some True)" for s
  have m: "matches_filter x f w = do { ok \<leftarrow> par x; Some (ok \<and>
       (FIELD_VALID f FPGA_PROPERTY_OBJTYPE \<longrightarrow> pr_objtype f = vt_type w) \<and>
       (FIELD_VALID f FPGA_PROPERTY_GUID \<longrightarrow> pr_guid f = vt_guid w)) }" for x
    by (simp only: matches_filter_def par_def)
  then obtain ok where ok: "par s = Some ok" using assms(3) by (cases "par s") (simp_all only: Option.bind.simps option.simps)
  then have "par s' = Some ok"
    using matches_parent_mono [OF assms(1,2)] by (simp add: par_def split: if_splits)
  with ok assms(3) show ?thesis by (simp only: m)
qed

lemma matches_filters_mono:
  assumes "pl_tokens s \<subseteq>\<^sub>m pl_tokens s'" "pl_devices s' = pl_devices s" "matches_filters s fs w = Some b"
  shows "matches_filters s' fs w = Some b"
proof -
  have some: "some_filter s gs w = Some c \<Longrightarrow> some_filter s' gs w = Some c" for gs c
  proof (induction gs)
    case (Cons f gs)
    then obtain m where m: "matches_filter s f w = Some m" by (cases "matches_filter s f w") simp_all
    with matches_filter_mono [OF assms(1,2) m] Cons show ?case by (simp split: if_splits)
  qed simp
  show ?thesis
  proof (cases fs)
    case None
    with assms(3) show ?thesis by (simp add: matches_filters_def)
  next
    case (Some gs)
    with assms(3) some show ?thesis by (simp add: matches_filters_def)
  qed
qed

lemma enum_tokens_copies:
  assumes "pl_tokens s0 \<subseteq>\<^sub>m pl_tokens s" "pl_devices s = pl_devices s0" "tokens_ok s"
    and "list_all (comparable s0 fs k) ts" "unat n + length ts < 2 ^ 32"
    and b: "b \<le> pl_brk s" and mem: "\<And>cs. oom \<or> pans H cs P_malloc \<noteq> 0"
  shows "\<exists>cs s'. enum_tokens H fs mx ts n out s =
      Some (n + of_nat (length (filter (passes s0 fs) ts)), out @ cs, s') \<and> extends s s' \<and>
      list_all2 (copied oom b (pl_tokens s0) (pl_tokens s'))
        (take (unat mx - unat n) (filter (passes s0 fs) ts)) cs \<and>
      sorted_wrt (\<lambda>c d. c < d \<or> d = NULL) cs \<and> (\<forall>c\<in>set cs. c = NULL \<or> pl_brk s \<le> c)"
  using assms(1-6)
proof (induction ts arbitrary: s n out)
  case Nil
  then show ?case by simp
next
  case (Cons t ts)
  obtain w b' where w: "pl_tokens s0 t = Some w" "matches_filters s0 fs w = Some b'"
      "parents_end (pl_tokens s0) k t"
    using Cons.prems(4) by (auto simp: comparable_def split: option.splits)
  have ws: "pl_tokens s t = Some w" "matches_filters s fs w = Some b'"
    using Cons.prems(1) w(1) matches_filters_mono [OF Cons.prems(1,2) w(2)] by (force simp: map_le_def)+
  have m: "passes s0 fs t = b'" using w matches_filters_agree [OF w(2)] by (simp add: passes_def)
  have n1: "unat (n + 1) = Suc (unat n)" using Cons.prems(5) by (simp add: unat_word_ariths)
  have ts: "list_all (comparable s0 fs k) ts" using Cons.prems(4) by simp
  consider (skip) "\<not> b'" | (copy) b' "n < mx" | (count) b' "\<not> n < mx" by blast
  then show ?case
  proof cases
    case skip
    then show ?thesis using Cons.IH [OF Cons.prems(1-3) ts, of n out] Cons.prems(5,6) ws m by simp
  next
    case copy
    obtain c s1 where c: "clone_token H t s = Some (c, s1)" "extends s s1" "tokens_ok s1"
        "copied oom b (pl_tokens s0) (pl_tokens s1) t c" "c = NULL \<or> pl_brk s \<le> c"
      using clone_returns [OF w(3) Cons.prems(1,3,6) mem] by blast
    have brk: "b \<le> pl_brk s1" "pl_brk s \<le> pl_brk s1" using c(2) Cons.prems(6) by (simp_all add: extends_def)
    have below: "c = NULL \<or> c < pl_brk s1"
      using clone_token_live [OF c(1)] tokens_ok_below [OF c(3)] by auto
    have "pl_tokens s0 \<subseteq>\<^sub>m pl_tokens s1" "pl_devices s1 = pl_devices s0"
      using map_le_trans [OF Cons.prems(1) extends_le [OF c(2) Cons.prems(3)]] c(2) Cons.prems(2)
      by (simp_all add: extends_def)
    from Cons.IH [OF this c(3) ts, of "n + 1" "out @ [c]"] n1 Cons.prems(5)
    obtain cs s' where r: "enum_tokens H fs mx ts (n + 1) (out @ [c]) s1 =
          Some (n + 1 + of_nat (length (filter (passes s0 fs) ts)), (out @ [c]) @ cs, s')" "extends s1 s'"
        "list_all2 (copied oom b (pl_tokens s0) (pl_tokens s'))
          (take (unat mx - Suc (unat n)) (filter (passes s0 fs) ts)) cs"
        "sorted_wrt (\<lambda>c d. c < d \<or> d = NULL) cs" "\<forall>c\<in>set cs. c = NULL \<or> pl_brk s1 \<le> c"
      using brk(1) by auto
    have "unat mx - unat n = Suc (unat mx - Suc (unat n))" using copy(2) by (simp add: word_less_nat_alt)
    with copy m r(3) copied_mono [OF c(4) extends_le [OF r(2) c(3)]]
    have "list_all2 (copied oom b (pl_tokens s0) (pl_tokens s'))
        (take (unat mx - unat n) (filter (passes s0 fs) (t # ts))) (c # cs)" by simp
    moreover have "sorted_wrt (\<lambda>c d. c < d \<or> d = NULL) (c # cs)" "\<forall>x\<in>set (c # cs). x = NULL \<or> pl_brk s \<le> x"
      using r(4,5) below brk(2) c(5) by fastforce+
    ultimately show ?thesis using copy ws m c(1) r(1) extends_trans [OF c(2) r(2)]
      by (intro exI [of _ "c # cs"] exI [of _ s']) (simp add: add.assoc)
  next
    case count
    then have "unat mx - unat n = 0" by (simp add: word_less_nat_alt)
    then show ?thesis
      using Cons.IH [OF Cons.prems(1-3) ts, of "n + 1" out] n1 Cons.prems(5,6) ws m count by (simp add: add.assoc)
  qed
qed

text \<open>
  C11. Enumeration of the tokens of one device. Over a list of tokens that are alive, that can be compared with the
  filters and whose chains of parents end, the inner loop of
  \<^verbatim>\<open>vfio_fpgaEnumerate\<close> counts exactly the tokens that agree with some filter in type, GUID and parent, also those
  the array has no room for, and fills the array with new tokens, the copies of the first of them, in order; no two
  places of the array get the same token, it returns, and
  every token made before stays as it was. The fields of the filters that are about the PCI device are tested by the
  outer loop, on their own: a device can pass them by one filter and its tokens by another.
\<close>

theorem plugin_enum_tokens:
  assumes run: "plugin_run H cs plugin_zero = Some s"
    and ts: "list_all (comparable s fs k) ts" "unat n + length ts < 2 ^ 32"
  shows "\<exists>cs s'. enum_tokens H fs mx ts n out s =
      Some (n + of_nat (length (filter (passes s fs) ts)), out @ cs, s') \<and> extends s s' \<and>
      list_all2 (copied (\<exists>cs. pans H cs P_malloc = 0) (pl_brk s) (pl_tokens s) (pl_tokens s'))
        (take (unat mx - unat n) (filter (passes s fs) ts)) cs \<and>
      sorted_wrt (\<lambda>c d. c < d \<or> d = NULL) cs"
  using enum_tokens_copies [OF map_le_refl refl run_tokens_ok [OF run plugin_zero_tokens_ok] ts order_refl,
    of "\<exists>cs. pans H cs P_malloc = 0" H mx out] by auto

theorem plugin_enum_tokens_witness:
  "\<exists>s c s'. plugin_run demo_host demo_enum plugin_zero = Some s \<and>
     enum_tokens demo_host None 1 [4, 5] 0 [] s = Some (2, [c], s') \<and>
     copied False (pl_brk s) (pl_tokens s) (pl_tokens s') 4 c"
proof (rule demo_steps)
  fix s w w'
  assume s: "plugin_run demo_host demo_enum plugin_zero = Some s"
    and t: "pl_tokens s 4 = Some w" "vt_parent w = NULL" "pl_tokens s 5 = Some w'" "vt_parent w' = NULL"
  have c: "list_all (comparable s None (Suc 0)) [4, 5]" and m: "filter (passes s None) [4, 5] = [4, 5]"
    using t by (simp_all add: comparable_def passes_def matches_filters_def)
  have "(\<exists>cs. pans demo_host cs P_malloc = 0) = False" by (simp add: demo_host_def)
  with plugin_enum_tokens [OF s c, where n = 0 and mx = 1 and out = "[]", unfolded m]
  obtain cs s' where "enum_tokens demo_host None 1 [4, 5] 0 [] s = Some (2, cs, s')"
      "list_all2 (copied False (pl_brk s) (pl_tokens s) (pl_tokens s')) [4] cs" by auto
  then show ?thesis using s by (auto simp: list_all2_Cons1)
qed

subsection \<open>Resetting a port\<close>

lemma port_wait_ok: "c \<le> 1000 \<Longrightarrow> port_wait ack c = FPGA_OK \<longleftrightarrow> (\<exists>i. c \<le> i \<and> i \<le> 1000 \<and> ack i)"
proof (induction "1000 - c" arbitrary: c)
  case 0
  then have "c = 1000" by simp
  then show ?case by (subst port_wait.simps) (use le_antisym in auto)
next
  case (Suc k)
  then have "port_wait ack (Suc c) = FPGA_OK \<longleftrightarrow> (\<exists>i. Suc c \<le> i \<and> i \<le> 1000 \<and> ack i)" by simp
  then have "port_wait ack c = FPGA_OK \<longleftrightarrow> ack c \<or> (\<exists>i. Suc c \<le> i \<and> i \<le> 1000 \<and> ack i)"
    using Suc(2) by (subst port_wait.simps) simp
  also have "\<dots> \<longleftrightarrow> (\<exists>i. c \<le> i \<and> i \<le> 1000 \<and> ack i)"
    using Suc.prems by (metis Suc_leD le_antisym not_less_eq_eq)
  finally show ?case .
qed

lemma port_wait_result: "port_wait ack c = FPGA_OK \<or> port_wait ack c = FPGA_EXCEPTION"
proof (induction "1001 - c" arbitrary: c)
  case 0
  then show ?case by (subst (1 2) port_wait.simps) simp
next
  case (Suc k)
  then have "port_wait ack (Suc c) = FPGA_OK \<or> port_wait ack (Suc c) = FPGA_EXCEPTION" by simp
  then show ?case by (subst (1 2) port_wait.simps) auto
qed

text \<open>
  C12. Reset. A reset of the port behind any handle a client can hold always returns. It succeeds
  when the hardware acknowledges within 1001 looks at the control register, and then the reset bit
  has been set and taken back; else the answer is an exception and the port stays in reset. Either
  way no other register is written.
\<close>

theorem plugin_reset_returns:
  assumes h: "h \<noteq> NULL" "pl_handles s h = Some w" "vh_magic w = VFIO_HANDLE_MAGIC"
    and t: "pl_tokens s (vh_token w) = Some t" "vt_type t = FPGA_ACCELERATOR" "vt_reset t = Legacy_Port_Reset"
    and locks: "\<And>cs. pans H cs P_lock = 0"
    and a: "a = vh_mmio_base w + PORT_CONTROL"
    and set: "ws = Write64 a (reg64 H (pl_writes s) a OR 1) # pl_writes s"
  shows "\<exists>r s'. vfio_fpgaReset H h s = Some (r, s') \<and>
    ((\<exists>i \<le> 1000. port_ack H ws i) \<longrightarrow> r = FPGA_OK \<and> pl_writes s' = Write64 a (reg64 H ws a AND NOT 1) # ws) \<and>
    ((\<forall>i \<le> 1000. \<not> port_ack H ws i) \<longrightarrow> r = FPGA_EXCEPTION \<and> pl_writes s' = ws)"
proof -
  have hc: "handle_check s h = Some (Some w)" using h by (simp add: handle_check_def)
  note un = vfio_fpgaReset_def handle_check_and_lock_def legacy_port_reset_def write_reg_def regs_def
    hc t psys_def locks punlock_def Let_def a set
  show ?thesis
    using port_wait_ok [of 0 "port_ack H ws"] port_wait_result [of "port_ack H ws" 0] by (auto simp: un)
qed


theorem plugin_reset_returns_witness:
  "\<exists>s s'. vfio_fpgaReset demo_host 6 s = Some (FPGA_OK, s') \<and> length (pl_writes s') = 2 + length (pl_writes s)"
proof (rule demo_steps)
  fix s1 :: plugin and w t
  assume s: "pl_handles s1 6 = Some w" "vh_magic w = VFIO_HANDLE_MAGIC"
    "pl_tokens s1 (vh_token w) = Some t" "vt_type t = FPGA_ACCELERATOR"
  define t' where "t' = t\<lparr>vt_reset := Legacy_Port_Reset\<rparr>"
  define s :: plugin where "s = s1\<lparr>pl_tokens := (pl_tokens s1)(vh_token w \<mapsto> t')\<rparr>"
  have p: "(6 :: ptr) \<noteq> NULL" "pl_handles s 6 = Some w" "pl_tokens s (vh_token w) = Some t'"
      "vt_type t' = FPGA_ACCELERATOR" "vt_reset t' = Legacy_Port_Reset"
    using s by (simp_all add: s_def t'_def)
  have lock: "pans demo_host cs P_lock = 0" for cs by (simp add: demo_host_def)
  note r = plugin_reset_returns [OF p(1,2) s(2) p(3-5) lock refl refl]
  have "\<exists>i \<le> 1000. port_ack demo_host ws i" for ws
    by (rule exI [of _ 3]) (simp add: demo_host_def)
  with r show ?thesis by fastforce
qed


subsection \<open>Device feature lists\<close>

text \<open>
  When no header from \<open>e\<close> on has a successor, as when the registers past the end of a region read
  all ones, and a step from below \<open>e\<close> does not wrap, the walk goes upwards and ends.
\<close>

lemma unat_next:
  assumes "unat h + 2 ^ 24 \<le> 2 ^ 64" "next_dfh R h \<noteq> 0"
  shows "unat (next_dfh R h) = unat h + unat (dfh_next R h)" "0 < unat (dfh_next R h)"
    "unat (dfh_next R h) < 2 ^ 24"
proof -
  have n: "next_dfh R h = h + dfh_next R h" "dfh_next R h \<noteq> 0"
    using assms(2) by (auto simp: next_dfh_def split: if_splits)
  show lt: "unat (dfh_next R h) < 2 ^ 24"
    using take_bit_nat_less_exp [of 24 "unat (drop_bit 16 (R h))"]
    by (simp add: dfh_next_def bits_def unsigned_take_bit_eq)
  show "0 < unat (dfh_next R h)" using n(2) by (simp add: unat_gt_0)
  show "unat (next_dfh R h) = unat h + unat (dfh_next R h)"
    unfolding n(1) using assms(1) lt by (simp add: unat_word_ariths)
qed

lemma for_each_dfh_cases:
  "for_each_dfh R stop 0 = Some []"
  "h \<noteq> 0 \<Longrightarrow> stop h \<Longrightarrow> for_each_dfh R stop h = Some [h]"
  "h \<noteq> 0 \<Longrightarrow> \<not> stop h \<Longrightarrow>
    for_each_dfh R stop h = do { hs \<leftarrow> for_each_dfh R stop (next_dfh R h); Some (h # hs) }"
  by (subst for_each_dfh.simps; simp)+

lemma dfh_walk:
  assumes "\<And>a. e \<le> a \<Longrightarrow> next_dfh R a = 0" "unat e + 2 ^ 24 \<le> 2 ^ 64" "h \<noteq> 0"
  shows "\<exists>hs. for_each_dfh R stop h = Some (h # hs) \<and> sorted_wrt (<) (h # hs) \<and>
    successively (\<lambda>a b. b = next_dfh R a \<and> \<not> stop a) (h # hs) \<and>
    (stop (last (h # hs)) \<or> next_dfh R (last (h # hs)) = 0) \<and> length hs \<le> unat e - unat h"
  using assms(3)
proof (induction "unat e - unat h" arbitrary: h rule: less_induct)
  case less
  show ?case
  proof (cases "stop h \<or> next_dfh R h = 0")
    case True
    then have "for_each_dfh R stop h = Some [h]"
      using less.prems for_each_dfh_cases(1) [of R stop] for_each_dfh_cases(2,3) [of h stop R]
      by (cases "stop h") simp_all
    with True show ?thesis by auto
  next
    case False
    then have lt: "unat h < unat e" using assms(1) by (meson not_less word_le_nat_alt)
    have up: "unat h < unat (next_dfh R h)" using unat_next [of h R] assms(2) lt False by simp
    have n: "next_dfh R h \<noteq> 0" "unat e - unat (next_dfh R h) < unat e - unat h"
      using False up lt by (blast, linarith)
    from less.hyps [OF n(2,1)]
    obtain hs where hs: "for_each_dfh R stop (next_dfh R h) = Some (next_dfh R h # hs)"
        "sorted_wrt (<) (next_dfh R h # hs)"
        "successively (\<lambda>a b. b = next_dfh R a \<and> \<not> stop a) (next_dfh R h # hs)"
        "stop (last (next_dfh R h # hs)) \<or> next_dfh R (last (next_dfh R h # hs)) = 0"
        "length hs \<le> unat e - unat (next_dfh R h)"
      by blast
    have "h < next_dfh R h" using up by (simp add: word_less_nat_alt)
    then have "sorted_wrt (<) (h # next_dfh R h # hs)" using hs(2) by (auto intro: less_trans)
    moreover have "length (next_dfh R h # hs) \<le> unat e - unat h" using hs(5) up lt by simp
    moreover have "for_each_dfh R stop h = Some (h # next_dfh R h # hs)"
      using for_each_dfh_cases(3) [of h stop R] less.prems False hs(1) by simp
    ultimately show ?thesis using hs(3,4) False by (intro exI [of _ "next_dfh R h # hs"]) simp
  qed
qed


text \<open>
  C13. Walking a feature list. When the headers from some address on are marked as the last one and
  a step from below it cannot wrap around, the walk from any header returns. It visits the headers
  in increasing order, each the successor of the one before, and stops at the first one that
  stops the loop or has no successor.
\<close>

theorem dfh_walk_returns:
  assumes "\<And>a. e \<le> a \<Longrightarrow> dfh_eol R a = 1" "unat e + 2 ^ 24 \<le> 2 ^ 64" "h \<noteq> 0"
  shows "\<exists>hs. for_each_dfh R stop h = Some (h # hs) \<and> sorted_wrt (<) (h # hs) \<and>
    successively (\<lambda>a b. b = next_dfh R a \<and> \<not> stop a) (h # hs) \<and>
    (stop (last (h # hs)) \<or> next_dfh R (last (h # hs)) = 0) \<and> length hs \<le> unat e - unat h"
  using dfh_walk [OF _ assms(2,3), of R stop] assms(1) by (simp add: next_dfh_def)

text \<open>Headers at 0x1000 and 0x1100, the second of which is the PR feature; all ones past 0x2000.\<close>

theorem dfh_walk_returns_witness:
  "for_each_dfh (\<lambda>a. if 0x2000 \<le> a then -1 else if a = 0x1000 then 0x1000000 else 0x10000000005)
     (\<lambda>h. False) 0x1000 = Some [0x1000, 0x1100]"
proof -
  define R :: registers where
    "R = (\<lambda>a. if 0x2000 \<le> a then -1 else if a = 0x1000 then 0x1000000 else 0x10000000005)"
  have last: "dfh_eol R a = 1" if "0x2000 \<le> a" for a
    using that by (simp add: dfh_eol_def bits_def R_def)
  have next1: "next_dfh R 0x1000 = 0x1100" and next2: "next_dfh R 0x1100 = 0"
    by (simp_all add: next_dfh_def dfh_next_def dfh_eol_def bits_def R_def)
  obtain hs where hs: "for_each_dfh R (\<lambda>h. False) 0x1000 = Some (0x1000 # hs)"
      "successively (\<lambda>a b. b = next_dfh R a \<and> \<not> False) (0x1000 # hs)"
      "next_dfh R (last (0x1000 # hs)) = 0" "sorted_wrt (<) (0x1000 # hs)"
    using dfh_walk_returns [of "0x2000" R "0x1000" "\<lambda>h. False", OF last] by auto
  then have "hs = [0x1100]"
    using next1 next2 by (cases hs; cases "tl hs") (auto simp: next_dfh_def [of R 0] split: if_splits)
  with hs(1) show ?thesis by (simp add: R_def)
qed

end
