(* ===== verification/Vfio_Plugin_Buffers.thy ===== *)
theory Vfio_Plugin_Buffers
  imports Vfio_Plugin_Correct
begin

section \<open>The list of shared buffers of the VFIO plugin\<close>

text \<open>
  The buffers of all handles are in one global list, newest first, and a buffer is named by a
  workspace id, which is one more than the id of the head. This theory shows that the ids of the list are
  always different, that the IO address of a buffer is found under its id, that releasing a
  buffer removes it and nothing else, and that the DMA windows of every open device stay apart.
\<close>

subsection \<open>What a call does to the list\<close>

text \<open>\<open>same_list\<close> is a frame: neither the list nor whether its head was freed has changed.\<close>

definition same_list :: "plugin \<Rightarrow> plugin \<Rightarrow> bool" where
  "same_list s s' \<longleftrightarrow> pl_buffers s' = pl_buffers s \<and> pl_dangling s' = pl_dangling s"

text \<open>
  Unless the head of the list is (or was) freed, a call leaves the list as it is, links a buffer
  in at the front, or unlinks the first one with some id.
\<close>

definition list_step :: "plugin \<Rightarrow> plugin \<Rightarrow> bool" where
  "list_step s s' \<longleftrightarrow> pl_dangling s' \<or> \<not> pl_dangling s \<and>
     (pl_buffers s' = pl_buffers s \<or>
      (\<exists>b. pl_buffers s' = b # pl_buffers s \<and> vb_wsid b = next_wsid (pl_buffers s)) \<or>
      (\<exists>i b. unlink_wsid i (pl_buffers s) = Some (b, pl_buffers s')))"

lemma same_list_refl [simp]: "same_list s s"
  by (simp add: same_list_def)

lemma same_list_trans [trans]: "same_list a b \<Longrightarrow> same_list b c \<Longrightarrow> same_list a c"
  by (simp add: same_list_def)

lemma quiet_list: "quiet s s' \<Longrightarrow> same_list s s'"
  by (simp add: same_list_def quiet_def)

lemma calm_list: "calm s s' \<Longrightarrow> same_list s s'"
  by (simp add: same_list_def calm_def)

lemma same_list_step: "same_list s s' \<Longrightarrow> list_step s s'"
  by (auto simp: same_list_def list_step_def)

lemma open_pair_list: "open_vfio_pair H addr s = Some (p, s') \<Longrightarrow> same_list s s'"
  unfolding open_vfio_pair_def psys_def
  by (auto simp: Let_def same_list_def calm_def split: prod.splits if_splits option.splits Option.bind_splits
      dest!: pmalloc_quiet [THEN quiet_calm] physfn_of_quiet [THEN quiet_calm] open_dev_calm)

lemma close_pair_list: "close_vfio_pair H pair s = Some s' \<Longrightarrow> same_list s s'"
  by (auto simp: close_vfio_pair_def same_list_def calm_def split: Option.bind_splits if_splits
      dest!: close_dev_calm)

lemma walk_list: "vfio_walk H p s = Some (r, s') \<Longrightarrow> same_list s s'"
  by (elim walk_cases) (auto intro: same_list_trans dest!: open_pair_list quiet_list close_pair_list)

lemma enum_devices_list:
  "enum_devices H fs m ps n out s = Some (n', out', s') \<Longrightarrow> same_list s s'"
proof (induction ps arbitrary: n out s)
  case (Cons p ps)
  from Cons.prems show ?case
    by (auto split: Option.bind_splits if_splits
        dest!: walk_list quiet_list [OF enum_tokens_quiet] Cons.IH intro: same_list_trans [OF same_list_trans])
qed simp

lemma enumerate_list: "vfio_fpgaEnumerate H fs m s = Some (r, out, n, s') \<Longrightarrow> same_list s s'"
  by (auto simp: vfio_fpgaEnumerate_def split: Option.bind_splits dest: enum_devices_list)

lemma open_list: "vfio_fpgaOpen H token out s = Some (r, hp, s') \<Longrightarrow> same_list s s'"
proof (elim open_cases)
  fix s1 addr pair s2 h w
  assume "quiet s s1" "open_vfio_pair H addr s1 = Some (Some pair, s2)"
    "s' = snd (psys H P_attr_destroy (s2\<lparr>pl_handles := (pl_handles s2)(h \<mapsto> w)\<rparr>))"
  then show "same_list s s'"
    using open_pair_list [of H addr s1 "Some pair" s2] by (auto simp: same_list_def quiet_def psys_def)
qed (auto intro: same_list_trans dest!: open_pair_list quiet_list close_pair_list)

lemma close_list: "vfio_fpgaClose H h s = Some (r, s') \<Longrightarrow> same_list s s'"
proof (elim close_cases)
  fix w s1 s2 s3
  assume "quiet s s1" "close_vfio_pair H (vh_pair w) s1 = Some s2" "quiet s2 s3"
    "s' = s3\<lparr>pl_handles := (pl_handles s3)(h := None)\<rparr>"
  then show "same_list s s'"
    using close_pair_list [of H "vh_pair w" s1 s2] by (auto simp: same_list_def quiet_def)
qed (auto dest: quiet_list)

lemma same_list_punlock [simp]: "same_list s (punlock H s') = same_list s s'"
  by (simp add: same_list_def punlock_def psys_def)

lemma register_event_list:
  "register_event H h ty e w flags s = Some (r, s') \<Longrightarrow> same_list s s'"
  "unregister_event H h ty w s = Some (r, s') \<Longrightarrow> same_list s s'"
  by (cases ty; auto simp: register_event_def unregister_event_def Let_def same_list_def
      split: Option.bind_splits prod.splits)+

lemma register_list: "vfio_fpgaRegisterEvent H handle ty eh flags s = Some (r, s') \<Longrightarrow> same_list s s'"
  by (auto simp: vfio_fpgaRegisterEvent_def split: if_splits Option.bind_splits option.splits
      dest!: handle_lock_cases event_lock_cases register_event_list quiet_list)
    (meson same_list_trans)+

lemma unregister_list: "vfio_fpgaUnregisterEvent H handle ty eh s = Some (r, s') \<Longrightarrow> same_list s s'"
  by (auto simp: vfio_fpgaUnregisterEvent_def split: if_splits Option.bind_splits option.splits
      dest!: handle_lock_cases event_lock_cases register_event_list quiet_list)
    (meson same_list_trans)+

lemma finalize_list: "vfio_plugin_finalize s = Some (r, s') \<Longrightarrow> list_step s s'"
proof -
  have "pl_buffers (free_devices ps u) = pl_buffers u \<and> pl_dangling (free_devices ps u) = pl_dangling u" for ps u
    by (induction ps arbitrary: u) (auto simp: free_token_list_def split: option.splits)
  then show "vfio_plugin_finalize s = Some (r, s') \<Longrightarrow> list_step s s'"
    by (auto simp: vfio_plugin_finalize_def free_device_list_def free_buffer_list_def buffer_list_def
        list_step_def split: Option.bind_splits if_splits)
qed

lemma prepare_list:
  assumes "vfio_fpgaPrepareBuffer H handle len ba ws s = Some (r, res, s')"
  shows "list_step s s'"
  using assms
proof (cases rule: prepare_cases)
  case (allocated h w ar w' t s1)
  have s1: "same_list s s1" by (simp add: allocated(4) same_list_def)
  show ?thesis
  proof (cases "ar_code ar = 0")
    case True
    then obtain virt iova where
      "link_buffer H (vp_device (vh_pair h)) virt iova (ar_size ar) s1 = Some (r, res, s')"
      using allocated(6) by blast
    then show ?thesis
      using s1 by (cases rule: link_buffer_cases) (auto simp: list_step_def same_list_def psys_def)
  qed (use allocated(5) s1 same_list_step in blast)
qed (simp add: same_list_step)

lemma release_list:
  assumes "vfio_fpgaReleaseBuffer H handle wsid s = Some (r, s')"
  shows "list_step s s'"
  using assms
proof (cases rule: release_cases)
  case (released h b rest s1 s2)
  have "pl_dangling s2 = pl_dangling s"
    using quiet_list [OF psys_quiet [OF released(3)]] free_dev_buffer_result [OF released(6)]
    by (simp add: same_list_def)
  then show ?thesis using released(4,5,7) by (auto simp: list_step_def punlock_def psys_def)
qed (auto intro: same_list_step quiet_list)

lemma exec_list:
  assumes "plugin_exec H c s = Some s'"
  shows "list_step s s'"
proof (cases c)
  case V_Initialize
  with assms show ?thesis
    by (cases "vfio_plugin_initialize H s") (auto intro: same_list_step quiet_list initialize_quiet)
next
  case (V_CreateEventHandle out)
  with assms show ?thesis
    by (cases "vfio_fpgaCreateEventHandle H out s") (auto intro: same_list_step quiet_list create_event_quiet)
qed (use assms in \<open>auto intro: finalize_list prepare_list release_list same_list_step quiet_list exec_quiet
    open_list close_list enumerate_list register_list unregister_list\<close>)


subsection \<open>The ids are different\<close>

definition wsids_ok :: "nat \<Rightarrow> plugin \<Rightarrow> bool" where
  "wsids_ok n s \<longleftrightarrow> \<not> pl_dangling s \<longrightarrow>
     sorted_wrt (>) (map vb_wsid (pl_buffers s)) \<and> (\<forall>b\<in>set (pl_buffers s). unat (vb_wsid b) < n)"

lemma unlink_wsid_Some:
  "unlink_wsid i bs = Some (b, rest) \<Longrightarrow>
    \<exists>pre post. bs = pre @ b # post \<and> rest = pre @ post \<and> vb_wsid b = i \<and> i \<notin> vb_wsid ` set pre"
proof (induction bs arbitrary: rest)
  case (Cons x bs)
  show ?case
  proof (cases "vb_wsid x = i")
    case True
    with Cons.prems have "x # bs = [] @ b # rest \<and> rest = [] @ rest \<and> vb_wsid b = i \<and>
      i \<notin> vb_wsid ` set []" by auto
    then show ?thesis by blast
  next
    case False
    with Cons.prems obtain rest' where r: "unlink_wsid i bs = Some (b, rest')" "rest = x # rest'" by auto
    from Cons.IH [OF r(1)] obtain pre post where
      "bs = pre @ b # post" "rest' = pre @ post" "vb_wsid b = i" "i \<notin> vb_wsid ` set pre" by blast
    with False r(2) have "x # bs = (x # pre) @ b # post \<and> rest = (x # pre) @ post \<and> vb_wsid b = i \<and>
      i \<notin> vb_wsid ` set (x # pre)" by auto
    then show ?thesis by blast
  qed
qed simp

lemma next_wsid_above:
  assumes "sorted_wrt (>) (map vb_wsid bs)" "\<forall>b\<in>set bs. unat (vb_wsid b) < n" "n < 2 ^ 64" "c \<in> set bs"
  shows "vb_wsid c < next_wsid bs"
proof -
  obtain b bs' where bs: "bs = b # bs'" using assms(4) by (cases bs) auto
  then have "unat (vb_wsid b) < n" using assms(2) by simp
  then have "unat (vb_wsid b + 1) = Suc (unat (vb_wsid b))" using assms(3) by (simp add: unat_word_ariths)
  then have "vb_wsid b < next_wsid bs" by (simp add: bs next_wsid_def word_less_nat_alt)
  moreover have "vb_wsid c \<le> vb_wsid b" using assms(1,4) by (auto simp: bs)
  ultimately show ?thesis by (rule le_less_trans [rotated])
qed

lemma next_wsid_below:
  assumes "\<forall>b\<in>set bs. unat (vb_wsid b) < n"
  shows "unat (next_wsid bs) < Suc n"
proof (cases bs)
  case (Cons b bs')
  have "unat (vb_wsid b + 1) \<le> unat (vb_wsid b) + 1" by (simp add: unat_word_ariths)
  with Cons assms show ?thesis by (simp add: next_wsid_def)
qed (simp add: next_wsid_def)

lemma list_step_ok:
  assumes "wsids_ok n s" "list_step s s'" "n < 2 ^ 64"
  shows "wsids_ok (Suc n) s'"
proof (cases "pl_dangling s'")
  case False
  then have live: "sorted_wrt (>) (map vb_wsid (pl_buffers s))" "\<forall>b\<in>set (pl_buffers s). unat (vb_wsid b) < n"
    using assms(1,2) by (auto simp: wsids_ok_def list_step_def)
  consider (same) "pl_buffers s' = pl_buffers s"
    | (linked) b where "pl_buffers s' = b # pl_buffers s" "vb_wsid b = next_wsid (pl_buffers s)"
    | (unlinked) i b where "unlink_wsid i (pl_buffers s) = Some (b, pl_buffers s')"
    using assms(2) False by (auto simp: list_step_def)
  then show ?thesis
  proof cases
    case same
    with live show ?thesis by (auto simp: wsids_ok_def)
  next
    case linked
    with live next_wsid_above [OF live assms(3)] next_wsid_below [OF live(2)] show ?thesis
      by (auto simp: wsids_ok_def)
  next
    case unlinked
    from unlink_wsid_Some [OF this] obtain pre post where
      "pl_buffers s = pre @ b # post" "pl_buffers s' = pre @ post" by blast
    with live show ?thesis by (auto simp: wsids_ok_def sorted_wrt_append less_Suc_eq)
  qed
qed (simp add: wsids_ok_def)

lemma run_wsids_ok:
  "plugin_run H cs s = Some s' \<Longrightarrow> wsids_ok n s \<Longrightarrow> n + length cs \<le> 2 ^ 64 \<Longrightarrow>
    wsids_ok (n + length cs) s'"
proof (induction cs arbitrary: s n)
  case (Cons c cs)
  from Cons.prems(1) obtain s1 where "plugin_exec H c s = Some s1" "plugin_run H cs s1 = Some s'"
    by (auto split: Option.bind_splits)
  with Cons.IH [of s1 "Suc n"] list_step_ok [OF Cons.prems(2) exec_list] Cons.prems(3) show ?case by simp
qed simp

lemma plugin_zero_wsids_ok: "wsids_ok 0 plugin_zero"
  by (simp add: wsids_ok_def plugin_zero_def)

lemma run_zero_wsids:
  assumes "plugin_run H cs plugin_zero = Some s" "length cs < 2 ^ 64" "\<not> pl_dangling s"
  shows "sorted_wrt (>) (map vb_wsid (pl_buffers s))" "\<forall>b\<in>set (pl_buffers s). unat (vb_wsid b) < length cs"
  using run_wsids_ok [OF assms(1) plugin_zero_wsids_ok] assms(2,3) by (simp_all add: wsids_ok_def)

subsection \<open>Preparing and releasing a buffer\<close>

text \<open>\<open>io_address s i\<close> is what the list knows under the id \<open>i\<close>.\<close>

definition io_address :: "plugin \<Rightarrow> u64 \<Rightarrow> u64 option" where
  "io_address s i = map_option vb_iova (find (\<lambda>b. vb_wsid b = i) (pl_buffers s))"

lemma get_io_address:
  assumes "\<not> pl_dangling s" "\<And>cs. pans H cs P_lock = 0"
  shows "\<exists>s'. vfio_fpgaGetIOAddress H h i s =
      Some (if io_address s i = None then FPGA_NOT_FOUND else FPGA_OK, io_address s i, s') \<and> same_list s s'"
  using assms
  by (auto simp: vfio_fpgaGetIOAddress_def io_address_def psys_def buffer_list_def same_list_def punlock_def
      split: option.splits)

text \<open>After \<^verbatim>\<open>vfio_fpgaPrepareBuffer\<close> the new buffer is the head of the list.\<close>

lemma prepared_list:
  assumes "vfio_fpgaPrepareBuffer H h len True True s = Some (FPGA_OK, Some (virt, i), s')"
  obtains w d d' ar t where "pl_handles s h = Some w" "h \<noteq> NULL" "vh_magic w = VFIO_HANDLE_MAGIC"
    "pl_vfios s (vp_device (vh_pair w)) = Some d" "pl_handles s' = pl_handles s" "\<not> pl_dangling s"
    "opae_vfio_buffer_allocate (os H) (Some d) (Some (buffer_len len)) True True (pl_trace s) = (ar, Some d', t)"
    "ar_code ar = 0" "ar_buf ar = Some virt" "i = next_wsid (pl_buffers s)" "\<not> pl_dangling s'"
    "pl_vfios s' = (pl_vfios s)(vp_device (vh_pair w) \<mapsto> d')" "pl_trace s' = t"
    "pl_buffers s' = \<lparr>vb_virtual = virt, vb_iova = the (ar_iova ar), vb_wsid = i, vb_size = ar_size ar,
        vb_device = vp_device (vh_pair w)\<rparr> # pl_buffers s"
  using assms
proof (cases rule: prepare_cases)
  case (allocated w d ar d' t s1)
  have w: "pl_handles s h = Some w" "h \<noteq> NULL" "vh_magic w = VFIO_HANDLE_MAGIC"
    using allocated(1) by (auto simp: handle_check_def split: if_splits Option.bind_splits)
  have code: "ar_code ar = 0" using allocated(5) by fastforce
  then obtain virt' iova where l: "ar_buf ar = Some virt'" "ar_iova ar = Some iova"
      "link_buffer H (vp_device (vh_pair w)) virt' iova (ar_size ar) s1 = Some (FPGA_OK, Some (virt, i), s')"
    using allocated(6) by blast
  from l(3) show thesis
  proof (cases rule: link_buffer_cases)
    case (linked b u2 u3 u4)
    note q = pmalloc_quiet [OF linked(4)] psys_quiet [OF linked(5)] psys_quiet [OF linked(6)]
    show thesis
      by (rule that [OF w(1,2,3) allocated(2) _ _ allocated(3) code])
        (use linked l q allocated(4) in \<open>simp_all add: quiet_def\<close>)
  qed simp_all
qed simp


lemma allocate_free:
  assumes a: "buffer_allocate E v sz True wi t = (res, v1, t1)" "ar_code res = 0" "ar_buf res = Some p"
    and locks: "\<forall>t. ans E t C_lock = 0"
  obtains v2 t2 where "buffer_free E v1 p t1 = (0, v2, t2)" "cont_buffers v2 = cont_buffers v"
    "\<And>x. balance E t2 x = balance E t x"
proof -
  obtain r v2 t2 where f: "buffer_free E v1 p t1 = (r, v2, t2)" by (cases "buffer_free E v1 p t1")
  from a(1) have v: "r = 0 \<and> cont_buffers v2 = cont_buffers v \<and> (\<exists>m. v2 = v\<lparr>iova_alloc := m\<rparr>)"
  proof (cases rule: allocate_cases)
    case (handed ok io m va)
    with a(3) f locks show ?thesis
      by (auto simp: buffer_free_def sys_def malloc_def Let_def split: prod.splits)
  qed (use a(2) in simp_all)
  then have o: "owned v2 x = owned v x" for x by (auto simp: owned_def)
  have "balance E t2 x = balance E t x" for x
    using buffer_allocate_ledger [OF a(1), of x] buffer_free_ledger [OF f, of x] o [of x] by simp
  with v f that show thesis by blast
qed

text \<open>
  Between the traces \<open>t\<close> and \<open>t'\<close> the kernel mapped \<open>sz\<close> bytes of memory at the address \<open>va\<close> and then let the
  device reach exactly these bytes at the IO address \<open>a\<close>.
\<close>

definition mapped_for_dma :: "env \<Rightarrow> int \<Rightarrow> u64 \<Rightarrow> u64 \<Rightarrow> u64 \<Rightarrow> trace \<Rightarrow> trace \<Rightarrow> bool" where
  "mapped_for_dma E fd va sz a t t' \<longleftrightarrow> (\<exists>q p. let m = C_mmap 0 sz (map_flags_for sz) 0 0 in
     t' = q @ C_dma_map fd va sz a # m # p @ t \<and> map_ans E (p @ t) m = Some va \<and>
     0 \<le> ans E (m # p @ t) (C_dma_map fd va sz a))"

lemma allocate_maps:
  assumes "buffer_allocate E v sz True True t = (res, v', t')" "ar_code res = 0"
  shows "\<exists>va a. ar_buf res = Some va \<and> ar_iova res = Some a \<and> ar_size res = round_size (page_size E) sz \<and>
    cont_buffers v' = \<lparr>buffer_ptr = va, buffer_size = ar_size res, buffer_iova = a\<rparr> # cont_buffers v \<and>
    mapped_for_dma E (cont_fd v) va (ar_size res) a t t'"
proof -
  let ?sz = "round_size (page_size E) sz"
  have z: "sz \<noteq> 0" "ans E t C_lock = 0"
    using assms by (auto simp: buffer_allocate_def alloc_fail_def sys_def split: if_splits)
  obtain ok t1 where 1: "malloc E (C_lock # t) = (ok, t1)" by fastforce
  then have t1: "t1 = C_malloc # C_lock # t" by (simp add: malloc_def)
  obtain r io m where 2: "mem_alloc_get ok (iova_alloc v) ?sz = (r, io, m)" by (metis prod_cases3)
  obtain a where a: "(case io of None \<Rightarrow> 0 | Some a \<Rightarrow> a) = a" by simp
  have res: "opae_vfio_iova_reserve E v sz (C_lock # t) = (r, ?sz, io, v\<lparr>iova_alloc := m\<rparr>, t1)"
    using 1 2 by (simp add: opae_vfio_iova_reserve_def Let_def)
  note un = buffer_allocate_def sys_def alloc_fail_def mmap_def opae_vfio_create_buffer_def malloc_def unlock_def res a z
  have r: "r = 0" using assms by (auto simp: un split: if_splits)
  obtain va where va: "map_ans E t1 (C_mmap 0 ?sz (map_flags_for ?sz) 0 0) = Some va"
    using assms r by (auto simp: un split: option.splits)
  let ?m = "C_mmap 0 ?sz (map_flags_for ?sz) 0 0" and ?d = "C_dma_map (cont_fd v) va ?sz a"
  have d: "0 \<le> ans E (?m # t1) ?d"
    using assms r va by (auto simp: un split: if_splits)
  have n: "ans E (?d # ?m # t1) C_malloc \<noteq> 0"
    using assms r va d by (auto simp: un split: if_splits)
  have "res = \<lparr>ar_code = 0, ar_size = ?sz, ar_buf = Some va, ar_iova = Some a\<rparr>"
      "v' = v\<lparr>iova_alloc := m, cont_buffers := \<lparr>buffer_ptr = va, buffer_size = ?sz, buffer_iova = a\<rparr> # cont_buffers v\<rparr>"
      "t' = [C_unlock, C_malloc] @ ?d # ?m # [C_malloc, C_lock] @ t"
    using assms(1) r va d n by (auto simp: un t1 split: if_splits)
  moreover from va d have "mapped_for_dma E (cont_fd v) va ?sz a t ([C_unlock, C_malloc] @ ?d # ?m # [C_malloc, C_lock] @ t)"
    unfolding mapped_for_dma_def t1 Let_def
    by (intro exI [of _ "[C_unlock, C_malloc]"] exI [of _ "[C_malloc, C_lock]"]) simp
  ultimately show ?thesis by simp
qed

text \<open>
  C8. A buffer from its preparation to its release, when the locks work. The memory that \<^verbatim>\<open>mmap\<close> gave, of the
  length asked for rounded up, is the memory returned and the memory that was mapped for DMA; the address it was
  mapped at is the one recorded on the device and the one that is found under the id of the buffer, by any
  handle. The id was not in use, and the addresses under all other ids stay what they
  were; and releasing it by its id takes it out of the list, leaves every other buffer in, and
  gives the kernel back everything the preparation acquired.
\<close>

theorem plugin_buffer_roundtrip:
  assumes run: "plugin_run H cs plugin_zero = Some s" "length cs < 2 ^ 64"
    and locks: "\<And>cs. pans H cs P_lock = 0" "\<forall>t. ans (os H) t C_lock = 0"
    and prep: "vfio_fpgaPrepareBuffer H h len True True s = Some (FPGA_OK, Some (virt, i), s1)"
  shows "i \<notin> vb_wsid ` set (pl_buffers s) \<and>
    (\<exists>a sz w d d' s2. pl_handles s h = Some w \<and> pl_vfios s (vp_device (vh_pair w)) = Some d \<and>
       pl_vfios s1 (vp_device (vh_pair w)) = Some d' \<and> sz = round_size (page_size (os H)) (buffer_len len) \<and>
       mapped_for_dma (os H) (cont_fd d) virt sz a (pl_trace s) (pl_trace s1) \<and>
       cont_buffers d' = \<lparr>buffer_ptr = virt, buffer_size = sz, buffer_iova = a\<rparr> # cont_buffers d \<and>
       vfio_fpgaGetIOAddress H g i s1 = Some (FPGA_OK, Some a, s2) \<and> pl_buffers s2 = pl_buffers s1) \<and>
    (\<forall>j. j = i \<or> io_address s1 j = io_address s j) \<and>
    (\<exists>s2. vfio_fpgaReleaseBuffer H h i s1 = Some (FPGA_OK, s2) \<and> pl_buffers s2 = pl_buffers s \<and>
      balance (os H) (pl_trace s2) x = balance (os H) (pl_trace s) x)"
proof -
  from prep obtain w d d' ar t where p: "pl_handles s h = Some w" "h \<noteq> NULL" "vh_magic w = VFIO_HANDLE_MAGIC"
    "pl_handles s1 = pl_handles s" "\<not> pl_dangling s"
    "opae_vfio_buffer_allocate (os H) (Some d) (Some (buffer_len len)) True True (pl_trace s) = (ar, Some d', t)"
    "ar_code ar = 0" "ar_buf ar = Some virt" "i = next_wsid (pl_buffers s)" "\<not> pl_dangling s1"
    "pl_vfios s1 = (pl_vfios s)(vp_device (vh_pair w) \<mapsto> d')" "pl_trace s1 = t"
    "pl_buffers s1 = \<lparr>vb_virtual = virt, vb_iova = the (ar_iova ar), vb_wsid = i, vb_size = ar_size ar,
        vb_device = vp_device (vh_pair w)\<rparr> # pl_buffers s"
    "pl_vfios s (vp_device (vh_pair w)) = Some d" by (rule prepared_list)
  have alloc: "buffer_allocate (os H) d (buffer_len len) True True (pl_trace s) = (ar, d', t)"
    using p(6) by (auto simp: opae_vfio_buffer_allocate_def split: prod.splits)
  from allocate_maps [OF alloc p(7)] p(8) obtain a where a: "ar_iova ar = Some a"
      "ar_size ar = round_size (page_size (os H)) (buffer_len len)"
      "cont_buffers d' = \<lparr>buffer_ptr = virt, buffer_size = ar_size ar, buffer_iova = a\<rparr> # cont_buffers d"
      "mapped_for_dma (os H) (cont_fd d) virt (ar_size ar) a (pl_trace s) t" by auto
  from alloc p(7,8) locks(2) obtain d2 t2 where f: "buffer_free (os H) d' virt t = (0, d2, t2)"
      "balance (os H) t2 x = balance (os H) (pl_trace s) x" by (rule allocate_free) blast
  have "i \<notin> vb_wsid ` set (pl_buffers s)"
    using next_wsid_above [OF run_zero_wsids [OF run p(5)] run(2)] p(9) by fastforce
  moreover have "\<exists>s2. vfio_fpgaReleaseBuffer H h i s1 = Some (FPGA_OK, s2) \<and> pl_buffers s2 = pl_buffers s \<and>
      balance (os H) (pl_trace s2) x = balance (os H) (pl_trace s) x"
    using p f locks(1) by (simp add: vfio_fpgaReleaseBuffer_def handle_check_def psys_def buffer_list_def
        free_dev_buffer_def opae_vfio_buffer_free_def punlock_def)
  moreover obtain s2 where "vfio_fpgaGetIOAddress H g i s1 = Some (FPGA_OK, Some a, s2)" "pl_buffers s2 = pl_buffers s1"
    using get_io_address [OF p(10) locks(1), of g i] p(13) a(1) by (auto simp: io_address_def same_list_def)
  moreover have "pl_vfios s1 (vp_device (vh_pair w)) = Some d'" by (simp add: p(11))
  moreover have "\<forall>j. j = i \<or> io_address s1 j = io_address s j" by (simp add: p(13) io_address_def)
  ultimately show ?thesis using p(1,14) a(2-4) unfolding p(12) by auto
qed

theorem plugin_buffer_roundtrip_witness:
  "\<exists>s virt s1 s2. plugin_run demo_host (demo_enum @ [V_Open 5 True]) plugin_zero = Some s \<and>
     vfio_fpgaPrepareBuffer demo_host 6 5000 True True s = Some (FPGA_OK, Some (virt, 0), s1) \<and>
     vfio_fpgaReleaseBuffer demo_host 6 0 s1 = Some (FPGA_OK, s2) \<and> pl_buffers s2 = pl_buffers s"
proof (rule demo_steps)
  fix s0 s virt s1
  assume s: "plugin_run demo_host demo_enum plugin_zero = Some s0"
    "vfio_fpgaOpen demo_host 5 True s0 = Some (FPGA_OK, Some 6, s)"
    and p: "vfio_fpgaPrepareBuffer demo_host 6 5000 True True s = Some (FPGA_OK, Some (virt, 0), s1)"
  have run: "plugin_run demo_host (demo_enum @ [V_Open 5 True]) plugin_zero = Some s"
    using s by (simp add: plugin_run_append)
  have len: "length (demo_enum @ [V_Open 5 True]) < 2 ^ 64" by (simp add: demo_enum_def)
  have locks: "pans demo_host cs P_lock = 0" "\<forall>t. ans (os demo_host) t C_lock = 0" for cs
    by (simp_all add: demo_host_def demo_mallocs)
  from plugin_buffer_roundtrip [OF run len locks p] run p show ?thesis by blast
qed


subsection \<open>The DMA windows of open devices\<close>

text \<open>
  Every device the plugin has open keeps the invariant of \<^verbatim>\<open>libopaevfio\<close>, provided the kernel
  reported sensible ranges for it.
\<close>

definition device_ok :: "env \<Rightarrow> opae_vfio \<Rightarrow> bool" where
  "device_ok E w \<longleftrightarrow> good_ranges (cont_ranges w) \<longrightarrow>
     vfio_inv (ranges_space (cont_ranges w)) w \<and> page_multiple E w"

definition devices_ok :: "host \<Rightarrow> plugin \<Rightarrow> bool" where
  "devices_ok H s \<longleftrightarrow> (\<forall>p w. pl_vfios s p = Some w \<longrightarrow> device_ok (os H) w)"

lemma devices_ok_same: "pl_vfios s' = pl_vfios s \<Longrightarrow> devices_ok H s' = devices_ok H s"
  by (simp add: devices_ok_def)

lemma devices_ok_quiet: "quiet s s' \<Longrightarrow> devices_ok H s \<Longrightarrow> devices_ok H s'"
  using devices_ok_same quiet_def by blast

lemma devices_ok_upd:
  "devices_ok H s \<Longrightarrow> device_ok (os H) w \<Longrightarrow> devices_ok H (s\<lparr>pl_vfios := (pl_vfios s)(p \<mapsto> w), pl_trace := t\<rparr>)"
  by (simp add: devices_ok_def)

lemma devices_ok_del: "devices_ok H s \<Longrightarrow> devices_ok H (s\<lparr>pl_vfios := (pl_vfios s)(p := None)\<rparr>)"
  by (simp add: devices_ok_def)

lemma devices_ok_frame [simp]:
  "devices_ok H (s\<lparr>pl_handles := a\<rparr>) = devices_ok H s" "devices_ok H (s\<lparr>pl_buffers := b\<rparr>) = devices_ok H s"
  "devices_ok H (s\<lparr>pl_dangling := c\<rparr>) = devices_ok H s" "devices_ok H (s\<lparr>pl_trace := d\<rparr>) = devices_ok H s"
  "devices_ok H (s\<lparr>pl_events := e\<rparr>) = devices_ok H s" "devices_ok H (snd (psys H c1 s)) = devices_ok H s"
  "devices_ok H (punlock H s) = devices_ok H s"
  by (simp_all add: devices_ok_def psys_def punlock_def)

lemma open_dev_device:
  assumes "open_dev H v addr secret s = Some (r, s')"
  shows "\<exists>w t. s' = s\<lparr>pl_vfios := (pl_vfios s)(v \<mapsto> w), pl_trace := t\<rparr> \<and> (r = 0 \<longrightarrow> device_ok (os H) w)"
proof -
  obtain w t where s': "s' = s\<lparr>pl_vfios := (pl_vfios s)(v \<mapsto> w), pl_trace := t\<rparr>"
    and o: "(case secret of
         None \<Rightarrow> opae_vfio_open (os H) (Some vfio_zero) (Some addr) (pl_trace s)
       | Some tok \<Rightarrow> opae_vfio_secure_open (os H) (Some vfio_zero) (Some addr) (Some tok) (pl_trace s))
       = Some (r, Some w, t)"
    using assms by (auto simp: open_dev_def split: Option.bind_splits option.splits)
  have "device_ok (os H) w" if "r = 0"
  proof -
    from o that obtain tok t0 where i: "opae_vfio_init (os H) addr tok t0 = Some (0, w, t)"
      by (auto simp: opae_vfio_open_def opae_vfio_secure_open_def sys_def
          split: option.splits Option.bind_splits prod.splits if_splits)
    then show ?thesis using init_state [OF i] by (auto simp: device_ok_def page_multiple_def)
  qed
  with s' show ?thesis by blast
qed

lemma open_pair_devices:
  assumes "open_vfio_pair H addr s = Some (p, s')" "devices_ok H s"
  shows "devices_ok H s'"
  using assms unfolding open_vfio_pair_def psys_def devices_ok_def
  by (auto simp: Let_def split: prod.splits if_splits option.splits Option.bind_splits
      dest!: pmalloc_quiet [THEN quietD(1)] physfn_of_quiet [THEN quietD(1)] open_dev_device)

lemma close_pair_devices: "close_vfio_pair H pair s = Some s' \<Longrightarrow> devices_ok H s \<Longrightarrow> devices_ok H s'"
  by (auto simp: close_vfio_pair_def close_dev_def devices_ok_def split: Option.bind_splits prod.splits if_splits)

lemma walk_devices: "vfio_walk H p s = Some (r, s') \<Longrightarrow> devices_ok H s \<Longrightarrow> devices_ok H s'"
  by (elim walk_cases) (blast intro: open_pair_devices close_pair_devices devices_ok_quiet)+

lemma enum_devices_devices:
  "enum_devices H fs m ps n out s = Some (n', out', s') \<Longrightarrow> devices_ok H s \<Longrightarrow> devices_ok H s'"
proof (induction ps arbitrary: n out s)
  case (Cons p ps)
  obtain d where d: "pl_devices s p = Some d"
    using Cons.prems(1) by (cases "pl_devices s p") auto
  show ?case
  proof (cases "pci_matches_filters fs d")
    case False
    then have "enum_devices H fs m ps n out s = Some (n', out', s')" using Cons.prems(1) d by simp
    from Cons.IH [OF this Cons.prems(2)] show ?thesis .
  next
    case True
    then obtain r s1 ts n1 out1 s2 where w: "vfio_walk H p s = Some (r, s1)"
        "enum_tokens H fs m ts n out s1 = Some (n1, out1, s2)"
        "enum_devices H fs m ps n1 out1 s2 = Some (n', out', s')"
      using Cons.prems(1) d by (auto split: Option.bind_splits)
    have "devices_ok H s2"
      by (rule devices_ok_quiet [OF enum_tokens_quiet [OF w(2)] walk_devices [OF w(1) Cons.prems(2)]])
    from Cons.IH [OF w(3) this] show ?thesis .
  qed
qed simp

lemma enumerate_devices:
  "vfio_fpgaEnumerate H fs m s = Some (r, out, n, s') \<Longrightarrow> devices_ok H s \<Longrightarrow> devices_ok H s'"
  by (auto simp: vfio_fpgaEnumerate_def split: Option.bind_splits dest: enum_devices_devices)

lemma open_devices: "vfio_fpgaOpen H token out s = Some (r, hp, s') \<Longrightarrow> devices_ok H s \<Longrightarrow> devices_ok H s'"
  by (elim open_cases) (auto dest: open_pair_devices close_pair_devices devices_ok_quiet)

lemma close_devices: "vfio_fpgaClose H h s = Some (r, s') \<Longrightarrow> devices_ok H s \<Longrightarrow> devices_ok H s'"
  by (elim close_cases) (auto dest: close_pair_devices devices_ok_quiet)

lemma finalize_devices: "vfio_plugin_finalize s = Some (r, s') \<Longrightarrow> devices_ok H s \<Longrightarrow> devices_ok H s'"
proof -
  have "pl_vfios (free_devices ps u) = pl_vfios u" for ps u
    by (induction ps arbitrary: u) (auto simp: free_token_list_def split: option.splits)
  then show "vfio_plugin_finalize s = Some (r, s') \<Longrightarrow> devices_ok H s \<Longrightarrow> devices_ok H s'"
    by (auto simp: vfio_plugin_finalize_def free_device_list_def free_buffer_list_def devices_ok_def
        split: Option.bind_splits)
qed

lemma register_event_vfios:
  "register_event H h ty e w flags s = Some (r, s') \<Longrightarrow> pl_vfios s' = pl_vfios s"
  "unregister_event H h ty w s = Some (r, s') \<Longrightarrow> pl_vfios s' = pl_vfios s"
  by (cases ty; auto simp: register_event_def unregister_event_def Let_def
      split: Option.bind_splits prod.splits)+

lemma punlock_vfios [simp]: "pl_vfios (punlock H s) = pl_vfios s"
  by (simp add: punlock_def psys_def)

lemma register_vfios:
  "vfio_fpgaRegisterEvent H handle ty eh flags s = Some (r, s') \<Longrightarrow> pl_vfios s' = pl_vfios s"
  by (auto simp: vfio_fpgaRegisterEvent_def split: if_splits Option.bind_splits option.splits
      dest!: handle_lock_cases event_lock_cases register_event_vfios simp: quiet_def)

lemma unregister_vfios:
  "vfio_fpgaUnregisterEvent H handle ty eh s = Some (r, s') \<Longrightarrow> pl_vfios s' = pl_vfios s"
  by (auto simp: vfio_fpgaUnregisterEvent_def split: if_splits Option.bind_splits option.splits
      dest!: handle_lock_cases event_lock_cases register_event_vfios simp: quiet_def)

text \<open>Every size the plugin asks for is good, whatever the client asks for.\<close>

lemma round_up_nat_bound:
  assumes "k < 64"
  shows "unat (ROUND_UP n (2 ^ k)) + 2 ^ k \<le> 2 ^ 64"
proof -
  define x where "x = unat (n + 2 ^ k - 1)"
  have r: "unat (ROUND_UP n (2 ^ k)) = x div 2 ^ k * 2 ^ k"
    unfolding ROUND_UP_def x_def by (simp only: minus_eq_not_minus_1 unat_and_not_low)
  have "x < 2 ^ 64" unfolding x_def using unsigned_less [of "n + 2 ^ k - 1"] by simp
  also have "(2 :: nat) ^ 64 = 2 ^ (64 - k) * 2 ^ k" using assms by (simp flip: power_add)
  finally have "x div 2 ^ k < 2 ^ (64 - k)" by (simp add: less_mult_imp_div_less)
  then have "Suc (x div 2 ^ k) * 2 ^ k \<le> 2 ^ (64 - k) * 2 ^ k" by (intro mult_le_mono1) simp
  also have "\<dots> = (2 :: nat) ^ 64" using assms by (simp flip: power_add)
  finally show ?thesis by (simp add: r)
qed

lemma buffer_len_good:
  assumes "page_size E = 2 ^ k" "k \<le> 21"
  shows "good_size E (buffer_len len)"
proof -
  have p: "unat (page_size E) \<le> 2 ^ 21"
    using assms unat_pow2 [of k] power_increasing [of k 21 "2 :: nat"] by simp
  have "unat (buffer_len len) + 2 ^ 21 \<le> 2 ^ 64"
    using round_up_nat_bound [of 30 len] round_up_nat_bound [of 21 len] by (auto simp: buffer_len_def)
  with p show ?thesis by (simp add: good_size_def)
qed


lemma device_ok_step:
  assumes page: "page_size E = 2 ^ k" "k \<le> 21" and ok: "device_ok E w"
  shows "buffer_allocate E w (buffer_len len) wb wi t = (ar, w', t') \<Longrightarrow> device_ok E w'"
    "buffer_free E w p t = (r, w', t') \<Longrightarrow> device_ok E w'"
proof -
  have k: "k < 64" using page(2) by simp
  {
    assume a: "buffer_allocate E w (buffer_len len) wb wi t = (ar, w', t')"
    then have "cont_ranges w' = cont_ranges w" by (cases rule: allocate_cases) simp_all
    with ok vfio_exec_inv [OF _ _ page(1) k, of _ w "Allocate (buffer_len len) wb wi" t w' t'] a
      buffer_len_good [OF page, of len]
    show "device_ok E w'" by (auto simp: device_ok_def)
  }
  assume f: "buffer_free E w p t = (r, w', t')"
  then have "cont_ranges w' = cont_ranges w" by (cases rule: free_cases) simp_all
  with ok vfio_exec_inv [OF _ _ page(1) k, of _ w "Free p" t w' t'] f
  show "device_ok E w'" by (auto simp: device_ok_def)
qed

lemma free_dev_devices:
  assumes "page_size (os H) = 2 ^ k" "k \<le> 21"
    and f: "free_dev_buffer H v p s = Some s'" and ok: "devices_ok H s"
  shows "devices_ok H s'"
proof -
  obtain w r w' t where w: "pl_vfios s v = Some w" "buffer_free (os H) w p (pl_trace s) = (r, w', t)"
      "s' = s\<lparr>pl_vfios := (pl_vfios s)(v \<mapsto> w'), pl_trace := t\<rparr>"
    using f by (cases "pl_vfios s v")
      (auto simp: free_dev_buffer_def opae_vfio_buffer_free_def split: prod.splits)
  have "device_ok (os H) w" using ok w(1) by (simp add: devices_ok_def)
  from device_ok_step(2) [OF assms(1,2) this w(2)] ok show ?thesis
    unfolding w(3) by (rule devices_ok_upd [rotated])
qed

lemma link_buffer_devices:
  assumes "page_size (os H) = 2 ^ k" "k \<le> 21"
    and "link_buffer H v virt iova sz s = Some (r, res, s')" "devices_ok H s"
  shows "devices_ok H s'"
proof -
  obtain b s1 where 1: "pmalloc H s = (b, s1)" by fastforce
  have s1: "devices_ok H s1" by (rule devices_ok_quiet [OF pmalloc_quiet [OF 1] assms(4)])
  have undo: "undo_buffer H v virt u = Some u' \<Longrightarrow> devices_ok H u \<Longrightarrow> devices_ok H u'" for u u'
    by (auto simp: undo_buffer_def split: if_splits dest: free_dev_devices [OF assms(1,2)])
  show ?thesis
    using assms(3) s1
    by (auto simp: link_buffer_def 1 psys_def buffer_list_def Let_def split: if_splits Option.bind_splits
        dest!: undo free_dev_devices [OF assms(1,2)] simp: devices_ok_def)
qed

lemma prepare_devices:
  assumes page: "page_size (os H) = 2 ^ k" "k \<le> 21"
    and p: "vfio_fpgaPrepareBuffer H handle len ba ws s = Some (r, res, s')" and ok: "devices_ok H s"
  shows "devices_ok H s'"
  using p
proof (cases rule: prepare_cases)
  case refused
  with ok show ?thesis by simp
next
  case (allocated h w ar w' t s1)
  have "buffer_allocate (os H) w (buffer_len len) True True (pl_trace s) = (ar, w', t)"
    using allocated(3) by (auto simp: opae_vfio_buffer_allocate_def split: prod.splits)
  moreover have "device_ok (os H) w" using ok allocated(2) by (simp add: devices_ok_def)
  ultimately have "device_ok (os H) w'" using device_ok_step(1) [OF page] by blast
  with ok have s1: "devices_ok H s1" unfolding allocated(4) by (rule devices_ok_upd)
  with allocated(5,6) link_buffer_devices [OF page] show ?thesis by blast
qed

lemma release_devices:
  assumes page: "page_size (os H) = 2 ^ k" "k \<le> 21"
    and "vfio_fpgaReleaseBuffer H handle wsid s = Some (r, s')" and ok: "devices_ok H s"
  shows "devices_ok H s'"
  using assms(3)
proof (cases rule: release_cases)
  case unchanged
  with ok show ?thesis by (blast intro: devices_ok_quiet)
next
  case (released h b rest s1 s2)
  have "devices_ok H s2"
    by (rule free_dev_devices [OF page released(6) devices_ok_quiet [OF psys_quiet [OF released(3)] ok]])
  then show ?thesis by (simp add: released(7))
qed

lemma exec_devices:
  assumes page: "page_size (os H) = 2 ^ k" "k \<le> 21"
    and e: "plugin_exec H c s = Some s'" and ok: "devices_ok H s"
  shows "devices_ok H s'"
proof (cases c)
  case V_Initialize
  with e ok show ?thesis
    by (cases "vfio_plugin_initialize H s") (auto intro: devices_ok_quiet initialize_quiet)
next
  case (V_CreateEventHandle out)
  with e ok show ?thesis
    by (cases "vfio_fpgaCreateEventHandle H out s") (auto intro: devices_ok_quiet create_event_quiet)
next
  case (V_RegisterEvent h ty eh fl)
  with e ok show ?thesis using devices_ok_same [OF register_vfios] by auto
next
  case (V_UnregisterEvent h ty eh)
  with e ok show ?thesis using devices_ok_same [OF unregister_vfios] by auto
qed (use e ok in \<open>auto dest: exec_quiet [THEN devices_ok_quiet] finalize_devices enumerate_devices
    open_devices close_devices prepare_devices [OF page] release_devices [OF page]\<close>)

lemma run_devices:
  assumes "page_size (os H) = 2 ^ k" "k \<le> 21"
  shows "plugin_run H cs s = Some s' \<Longrightarrow> devices_ok H s \<Longrightarrow> devices_ok H s'"
  by (induction cs arbitrary: s) (auto split: Option.bind_splits dest: exec_devices [OF assms])

text \<open>
  C7. The DMA windows behind the plugin. Whatever sequence of calls a client makes, with buffers of
  any length, the windows of the live buffers of every device the plugin has open are not empty,
  disjoint, whole pages, and inside the ranges the kernel reported for the device. A page has a power of two of
  bytes, at most 2 MB, and the ranges reported for the device do not overlap, are not empty and leave out the last
  address.
\<close>

theorem plugin_windows_apart:
  assumes "page_size (os H) = 2 ^ k" "k \<le> 21"
    and "plugin_run H cs plugin_zero = Some s" "pl_vfios s p = Some v" "good_ranges (cont_ranges v)"
  shows "sorted_wrt (\<lambda>a b. block (window a) \<inter> block (window b) = {}) (cont_buffers v) \<and>
    (\<forall>b\<in>set (cont_buffers v). block (window b) \<noteq> {} \<and>
       block (window b) \<subseteq> ranges_space (cont_ranges v) \<and>
       unat (page_size (os H)) dvd unat (buffer_size b))"
proof -
  have "devices_ok H plugin_zero" by (simp add: devices_ok_def plugin_zero_def)
  from run_devices [OF assms(1,2,3) this] assms(4,5)
  have i: "vfio_inv (ranges_space (cont_ranges v)) v" "page_multiple (os H) v"
    by (simp_all add: devices_ok_def device_ok_def)
  from inv_windows [OF i(1)] i(2) show ?thesis by (simp add: page_multiple_def block_nonempty)
qed

theorem plugin_windows_apart_witness:
  "\<exists>s v b. plugin_run demo_host (demo_enum @ [V_Open 5 True, V_PrepareBuffer 6 5000 True True]) plugin_zero = Some s \<and>
     pl_vfios s 9 = Some v \<and> cont_buffers v = [b] \<and> block (window b) \<noteq> {} \<and>
     block (window b) \<subseteq> ranges_space (cont_ranges v)"
proof (rule demo_steps)
  fix s s1 s2 virt v
  assume s: "plugin_run demo_host demo_enum plugin_zero = Some s"
    "vfio_fpgaOpen demo_host 5 True s = Some (FPGA_OK, Some 6, s1)"
    "vfio_fpgaPrepareBuffer demo_host 6 5000 True True s1 = Some (FPGA_OK, Some (virt, 0), s2)"
    and d: "pl_vfios s2 9 = Some v" "cont_ranges v = [\<lparr>range_start = 0, range_end = 0xfedfffff\<rparr>,
       \<lparr>range_start = 0xfef00000, range_end = 0xffffffff\<rparr>]" "length (cont_buffers v) = 1"
  have run: "plugin_run demo_host (demo_enum @ [V_Open 5 True, V_PrepareBuffer 6 5000 True True]) plugin_zero = Some s2"
    using s by (simp add: plugin_run_append)
  have page: "page_size (os demo_host) = 2 ^ 12" by (simp only: demo_host_def host.simps demo_page)
  have "good_ranges (cont_ranges v)" by (simp only: d(2) demo_ranges)
  from plugin_windows_apart [OF page _ run d(1) this] run d show ?thesis
    by (auto simp: length_Suc_conv)
qed

end
