(* ===== verification/Wsid_List.thy ===== *)
theory Wsid_List
  imports Opae_Prelude "HOL-Library.Multiset"
begin

section \<open>The workspace-id hash table (plugins/xfpga/wsid_list.c)\<close>

text \<open>
  \<^verbatim>\<open>struct wsid_tracker\<close> is an array of singly linked buckets; a bucket is the list of
  its entries from the head. A pointer to an entry is modelled by the entry, since callers
  only read through it. The outcomes of \<^verbatim>\<open>malloc\<close> and \<^verbatim>\<open>calloc\<close> are arguments.
\<close>

record wsid_map =
  wm_wsid :: u64
  wm_addr :: u64
  wm_phys :: u64
  wm_len :: u64
  wm_offset :: u64
  wm_index :: u32
  wm_flags :: u32

record wsid_tracker =
  n_hash_buckets :: u64
  table :: "wsid_map list list"

definition wsid_tracker_init :: "bool \<Rightarrow> bool \<Rightarrow> u32 \<Rightarrow> wsid_tracker option" where
  "wsid_tracker_init malloc_ok calloc_ok n =
     (if n = 0 \<or> n > 16384 then None
      else if \<not> malloc_ok then None
      else if \<not> calloc_ok then None
      else Some \<lparr>n_hash_buckets = ucast n, table = replicate (unat n) []\<rparr>)"

definition wsid_hash :: "wsid_tracker \<Rightarrow> u64 \<Rightarrow> u32" where
  "wsid_hash root wsid = (let h = wsid mod 17659 in ucast (h mod n_hash_buckets root))"

definition wsid_add ::
  "bool \<Rightarrow> wsid_tracker \<Rightarrow> u64 \<Rightarrow> u64 \<Rightarrow> u64 \<Rightarrow> u64 \<Rightarrow> u64 \<Rightarrow> u64 \<Rightarrow> u32 \<Rightarrow> bool \<times> wsid_tracker"
where
  "wsid_add malloc_ok root wsid addr phys len offset index flags =
     (let idx = unat (wsid_hash root wsid) in
      if \<not> malloc_ok then (False, root)
      else
        (let tmp = \<lparr>wm_wsid = wsid, wm_addr = addr, wm_phys = phys, wm_len = len,
                    wm_offset = offset, wm_index = ucast index, wm_flags = flags\<rparr>
         in (True, root\<lparr>table := (table root)[idx := tmp # table root ! idx]\<rparr>)))"

text \<open>
  The loop of \<^verbatim>\<open>wsid_del\<close> from entry \<open>tmp\<close> with the entries after it: the entry
  after \<open>tmp\<close> that has the id is unlinked, None when there is none.
\<close>

fun del_after :: "u64 \<Rightarrow> wsid_map \<Rightarrow> wsid_map list \<Rightarrow> wsid_map list option" where
  "del_after wsid tmp [] = None"
| "del_after wsid tmp (nxt # rest) =
     (if wm_wsid nxt \<noteq> wsid then map_option (Cons tmp) (del_after wsid nxt rest)
      else Some (tmp # rest))"

definition wsid_del :: "wsid_tracker \<Rightarrow> u64 \<Rightarrow> bool \<times> wsid_tracker" where
  "wsid_del root wsid =
     (let idx = unat (wsid_hash root wsid) in
      case table root ! idx of
        [] \<Rightarrow> (False, root)
      | tmp # rest \<Rightarrow>
          (if wm_wsid tmp = wsid then (True, root\<lparr>table := (table root)[idx := rest]\<rparr>)
           else case del_after wsid tmp rest of
                  None \<Rightarrow> (False, root)
                | Some b \<Rightarrow> (True, root\<lparr>table := (table root)[idx := b]\<rparr>)))"

text \<open>
  Clean-up visits every entry, bucket by bucket, and calls \<open>clean\<close> on it when there is one;
  \<open>s\<close> is what the callback acts on.
\<close>

fun cleanup_bucket :: "(wsid_map \<Rightarrow> 's \<Rightarrow> 's) option \<Rightarrow> wsid_map list \<Rightarrow> 's \<Rightarrow> 's" where
  "cleanup_bucket clean [] s = s"
| "cleanup_bucket clean (tmp # rest) s =
     cleanup_bucket clean rest (case clean of None \<Rightarrow> s | Some f \<Rightarrow> f tmp s)"

fun cleanup_table :: "(wsid_map \<Rightarrow> 's \<Rightarrow> 's) option \<Rightarrow> wsid_map list list \<Rightarrow> 's \<Rightarrow> 's" where
  "cleanup_table clean [] s = s"
| "cleanup_table clean (b # bs) s = cleanup_table clean bs (cleanup_bucket clean b s)"

definition wsid_tracker_cleanup ::
  "wsid_tracker option \<Rightarrow> (wsid_map \<Rightarrow> 's \<Rightarrow> 's) option \<Rightarrow> 's \<Rightarrow> 's" where
  "wsid_tracker_cleanup root clean s =
     (case root of None \<Rightarrow> s | Some t \<Rightarrow> cleanup_table clean (table t) s)"

fun bucket_find :: "(wsid_map \<Rightarrow> bool) \<Rightarrow> wsid_map list \<Rightarrow> wsid_map option" where
  "bucket_find p [] = None"
| "bucket_find p (tmp # rest) = (if p tmp then Some tmp else bucket_find p rest)"

definition wsid_find :: "wsid_tracker \<Rightarrow> u64 \<Rightarrow> wsid_map option" where
  "wsid_find root wsid =
     bucket_find (\<lambda>tmp. wm_wsid tmp = wsid) (table root ! unat (wsid_hash root wsid))"

fun find_in_buckets :: "u32 \<Rightarrow> wsid_map list list \<Rightarrow> wsid_map option" where
  "find_in_buckets index [] = None"
| "find_in_buckets index (b # bs) =
     (case bucket_find (\<lambda>tmp. wm_index tmp = index) b of
        Some tmp \<Rightarrow> Some tmp
      | None \<Rightarrow> find_in_buckets index bs)"

definition wsid_find_by_index :: "wsid_tracker \<Rightarrow> u32 \<Rightarrow> wsid_map option" where
  "wsid_find_by_index root index = find_in_buckets index (table root)"

subsection \<open>Well-formed trackers\<close>

definition wsid_inv :: "wsid_tracker \<Rightarrow> bool" where
  "wsid_inv t \<longleftrightarrow>
     0 < n_hash_buckets t \<and> n_hash_buckets t \<le> 16384 \<and>
     length (table t) = unat (n_hash_buckets t) \<and>
     (\<forall>i < length (table t). \<forall>e\<in>set (table t ! i). unat (wsid_hash t (wm_wsid e)) = i)"

lemma wsid_hash_less [wsid_facts]:
  assumes "wsid_inv t"
  shows "unat (wsid_hash t w) < length (table t)"
proof -
  let ?h = "(w mod 17659) mod n_hash_buckets t"
  have n: "0 < unat (n_hash_buckets t)" "unat (n_hash_buckets t) \<le> 16384"
    using assms by (simp_all add: wsid_inv_def word_less_nat_alt word_le_nat_alt)
  have lt: "unat ?h < unat (n_hash_buckets t)"
    using n(1) by (simp add: unat_mod)
  with n(2) have "unat ?h < 2 ^ 32" by simp
  then have "unat (ucast ?h :: u32) = unat ?h"
    by (simp add: unsigned_ucast_eq take_bit_nat_eq_self)
  with lt assms show ?thesis by (simp add: wsid_hash_def wsid_inv_def Let_def)
qed

lemma wsid_hash_upd [simp]: "wsid_hash (t\<lparr>table := x\<rparr>) w = wsid_hash t w"
  by (simp add: wsid_hash_def)

lemma wsid_inv_update:
  assumes "wsid_inv t" "\<forall>e\<in>set b. unat (wsid_hash t (wm_wsid e)) = i"
  shows "wsid_inv (t\<lparr>table := (table t)[i := b]\<rparr>)"
proof -
  have "unat (wsid_hash t (wm_wsid e)) = j"
    if "j < length (table t)" "e \<in> set ((table t)[i := b] ! j)" for j e
    using that assms by (cases "j = i") (auto simp: wsid_inv_def)
  with assms(1) show ?thesis by (simp add: wsid_inv_def)
qed

lemma wsid_bucket_hash:
  "wsid_inv t \<Longrightarrow> e \<in> set (table t ! unat (wsid_hash t w)) \<Longrightarrow>
     unat (wsid_hash t (wm_wsid e)) = unat (wsid_hash t w)"
  using wsid_hash_less [of t w] by (simp add: wsid_inv_def)

text \<open>The entries of one id, newest first: what the table stands for.\<close>

definition wsid_stack :: "wsid_tracker \<Rightarrow> u64 \<Rightarrow> wsid_map list" where
  "wsid_stack t w = filter (\<lambda>e. wm_wsid e = w) (table t ! unat (wsid_hash t w))"

lemma bucket_find_filter: "bucket_find p b = (case filter p b of [] \<Rightarrow> None | e # _ \<Rightarrow> Some e)"
  by (induction b) auto

lemma del_after_filter:
  "del_after w tmp rest = (if filter (\<lambda>e. wm_wsid e = w) rest = [] then None
     else Some (tmp # remove1 (hd (filter (\<lambda>e. wm_wsid e = w) rest)) rest))"
proof (induction w tmp rest rule: del_after.induct)
  case (2 w tmp nxt rest)
  have "hd (filter (\<lambda>e. wm_wsid e = w) rest) \<noteq> nxt"
    if "wm_wsid nxt \<noteq> w" "filter (\<lambda>e. wm_wsid e = w) rest \<noteq> []"
    using that hd_in_set [OF that(2)] by auto
  with 2 show ?case by auto
qed simp

lemma filter_remove1_hd:
  "filter p b = e # es \<Longrightarrow> filter p (remove1 e b) = es"
proof (induction b arbitrary: es)
  case (Cons x b)
  have "e \<in> set (filter p (x # b))" using Cons.prems by simp
  then have "p e" by (auto split: if_splits)
  with Cons show ?case by (auto split: if_splits)
qed simp

lemma filter_remove1_other: "\<not> p e \<Longrightarrow> filter p (remove1 e b) = filter p b"
  by (induction b) auto

text \<open>Deleting an id takes its newest entry out of its bucket, and nothing else.\<close>

lemma wsid_del_eq:
  "wsid_del t w = (case wsid_stack t w of
      [] \<Rightarrow> (False, t)
    | e # _ \<Rightarrow> (True, t\<lparr>table := (table t)[unat (wsid_hash t w) :=
                   remove1 e (table t ! unat (wsid_hash t w))]\<rparr>))"
proof (cases "table t ! unat (wsid_hash t w)")
  case Nil
  then show ?thesis by (simp add: wsid_del_def wsid_stack_def)
next
  case (Cons tmp rest)
  have "hd (filter (\<lambda>e. wm_wsid e = w) rest) \<noteq> tmp"
    if "wm_wsid tmp \<noteq> w" "filter (\<lambda>e. wm_wsid e = w) rest \<noteq> []"
    using that hd_in_set [OF that(2)] by auto
  with Cons show ?thesis
    by (auto simp: wsid_del_def wsid_stack_def del_after_filter Let_def split: list.splits)
qed

subsection \<open>The contract of a table of stacks\<close>

datatype ('k, 'e) table_op = Add 'e | Del 'k

text \<open>What the operations mean: every key has a stack, adding pushes, deleting pops.\<close>

fun stack_op :: "('e \<Rightarrow> 'k) \<Rightarrow> ('k, 'e) table_op \<Rightarrow> ('k \<Rightarrow> 'e list) \<Rightarrow> 'k \<Rightarrow> 'e list" where
  "stack_op key (Add e) st = st(key e := e # st (key e))"
| "stack_op key (Del k) st = st(k := tl (st k))"

locale stack_table =
  fixes inv :: "'t \<Rightarrow> bool"
    and stack :: "'t \<Rightarrow> 'k \<Rightarrow> 'e list"
    and key :: "'e \<Rightarrow> 'k"
    and add :: "'t \<Rightarrow> 'e \<Rightarrow> bool \<times> 't"
    and del :: "'t \<Rightarrow> 'k \<Rightarrow> bool \<times> 't"
    and find :: "'t \<Rightarrow> 'k \<Rightarrow> 'e option"
  assumes add_law: "inv t \<Longrightarrow> add t e = (b, t') \<Longrightarrow>
      b \<and> inv t' \<and> stack t' = (stack t)(key e := e # stack t (key e))"
    and del_law: "inv t \<Longrightarrow> del t k = (b, t') \<Longrightarrow>
      (b \<longleftrightarrow> stack t k \<noteq> []) \<and> inv t' \<and> stack t' = (stack t)(k := tl (stack t k))"
    and find_law: "inv t \<Longrightarrow> find t k = (case stack t k of [] \<Rightarrow> None | e # _ \<Rightarrow> Some e)"
begin

fun table_op :: "('k, 'e) table_op \<Rightarrow> 't \<Rightarrow> 't" where
  "table_op (Add e) t = snd (add t e)"
| "table_op (Del k) t = snd (del t k)"

lemma table_op_ok:
  "inv t \<Longrightarrow> inv (table_op op t) \<and> stack (table_op op t) = stack_op key op (stack t)"
proof (cases op)
  case (Add e)
  moreover obtain b t' where "add t e = (b, t')" by fastforce
  moreover assume "inv t"
  ultimately show ?thesis using add_law by simp
next
  case (Del k)
  moreover obtain b t' where "del t k = (b, t')" by fastforce
  moreover assume "inv t"
  ultimately show ?thesis using del_law by simp
qed

lemma fold_table_op:
  "inv t \<Longrightarrow> inv (fold table_op ops t) \<and>
     stack (fold table_op ops t) = fold (stack_op key) ops (stack t)"
  by (induction ops arbitrary: t) (simp_all add: table_op_ok)

lemma find_after:
  assumes "inv t"
  shows "find (fold table_op ops t) k =
    (case fold (stack_op key) ops (stack t) k of [] \<Rightarrow> None | e # _ \<Rightarrow> Some e)"
  using fold_table_op [OF assms, of ops] find_law by simp

lemma find_after_add:
  assumes "inv t" "add t e = (b, t')"
  shows "find t' k = (if k = key e then Some e else find t k)"
  using add_law [OF assms] find_law assms(1) by simp

lemma find_after_add_del:
  assumes "inv t" "add t e = (b, t')" "del t' (key e) = (b', t'')"
  shows "b' \<and> find t'' = find t"
proof -
  have t': "inv t'" "stack t' = (stack t)(key e := e # stack t (key e))"
    using add_law [OF assms(1,2)] by simp_all
  from del_law [OF t'(1) assms(3)] t'(2) have "b' \<and> inv t'' \<and> stack t'' = stack t" by auto
  then show ?thesis using find_law assms(1) by (simp add: fun_eq_iff)
qed

end

text \<open>Adding an entry given as a record; the C function takes the fields one by one.\<close>

definition wsid_add_entry :: "wsid_tracker \<Rightarrow> wsid_map \<Rightarrow> bool \<times> wsid_tracker" where
  "wsid_add_entry t e =
     wsid_add True t (wm_wsid e) (wm_addr e) (wm_phys e) (wm_len e) (wm_offset e)
       (ucast (wm_index e)) (wm_flags e)"

lemma wsid_add_entry_eq:
  "wsid_add_entry t e = (True, t\<lparr>table := (table t)[unat (wsid_hash t (wm_wsid e)) :=
     e # table t ! unat (wsid_hash t (wm_wsid e))]\<rparr>)"
  by (cases e) (simp add: wsid_add_entry_def wsid_add_def Let_def)

lemma wsid_stack_update:
  assumes "wsid_inv t"
  shows "wsid_stack (t\<lparr>table := (table t)[unat (wsid_hash t k) := b]\<rparr>) w =
    (if unat (wsid_hash t w) = unat (wsid_hash t k) then filter (\<lambda>e. wm_wsid e = w) b
     else wsid_stack t w)"
  using wsid_hash_less [OF assms] by (simp add: wsid_stack_def)

interpretation wsid: stack_table wsid_inv wsid_stack wm_wsid wsid_add_entry wsid_del wsid_find
proof (unfold_locales, goal_cases)
  case (1 t e b t')
  let ?i = "unat (wsid_hash t (wm_wsid e))"
  have t': "b" "t' = t\<lparr>table := (table t)[?i := e # table t ! ?i]\<rparr>"
    using 1(2) by (simp_all add: wsid_add_entry_eq)
  have "wsid_inv t'"
    unfolding t'(2) using wsid_bucket_hash [OF 1(1)]
    by (intro wsid_inv_update [OF 1(1)]) auto
  moreover have "wsid_stack t' = (wsid_stack t)(wm_wsid e := e # wsid_stack t (wm_wsid e))"
    unfolding t'(2) by (rule ext) (simp add: wsid_stack_update [OF 1(1)], auto simp: wsid_stack_def)
  ultimately show ?case using t'(1) by simp
next
  case (2 t k b t')
  let ?i = "unat (wsid_hash t k)"
  show ?case
  proof (cases "wsid_stack t k")
    case Nil
    then show ?thesis using 2 by (auto simp: wsid_del_eq)
  next
    case (Cons e es)
    then have t': "b" "t' = t\<lparr>table := (table t)[?i := remove1 e (table t ! ?i)]\<rparr>"
      using 2(2) by (simp_all add: wsid_del_eq)
    have e: "e \<in> set (wsid_stack t k)" using Cons by simp
    then have ke: "wm_wsid e = k" by (simp add: wsid_stack_def)
    have "wsid_inv t'"
      unfolding t'(2) using wsid_bucket_hash [OF 2(1)] set_remove1_subset [of e "table t ! ?i"]
      by (intro wsid_inv_update [OF 2(1)]) auto
    moreover have "wsid_stack t' = (wsid_stack t)(k := tl (wsid_stack t k))"
    proof (rule ext)
      fix w
      show "wsid_stack t' w = ((wsid_stack t)(k := tl (wsid_stack t k))) w"
      proof (cases "w = k")
        case True
        with Cons show ?thesis
          unfolding t'(2) by (simp add: wsid_stack_update [OF 2(1)])
            (rule filter_remove1_hd, simp add: wsid_stack_def)
      next
        case False
        then show ?thesis
          unfolding t'(2) using ke
          by (simp add: wsid_stack_update [OF 2(1)] filter_remove1_other) (simp add: wsid_stack_def)
      qed
    qed
    ultimately show ?thesis using t'(1) Cons by simp
  qed
next
  case (3 t k)
  then show ?case by (simp add: wsid_find_def wsid_stack_def bucket_find_filter)
qed

subsection \<open>Clean-up\<close>

lemma cleanup_table_None: "cleanup_table None bs s = s"
proof -
  have b: "cleanup_bucket None b s = s" for b and s :: 'a
    by (induction b) simp_all
  show ?thesis by (induction bs) (simp_all add: b)
qed

lemma cleanup_table_Some: "cleanup_table (Some f) bs s = fold f (concat bs) s"
proof -
  have b: "cleanup_bucket (Some f) b s = fold f b s" for b s
    by (induction b arbitrary: s) simp_all
  show ?thesis by (induction bs arbitrary: s) (simp_all add: b)
qed

text \<open>In the whole table, an entry occurs as often as in the stack of its own id.\<close>

lemma count_concat_buckets:
  assumes "wsid_inv t"
  shows "count (mset (concat (table t))) e = count (mset (wsid_stack t (wm_wsid e))) e"
proof -
  let ?h = "unat (wsid_hash t (wm_wsid e))"
  note h = wsid_hash_less [OF assms, of "wm_wsid e"]
  have split: "table t = take ?h (table t) @ table t ! ?h # drop (Suc ?h) (table t)"
    by (rule take_drop_nth [OF h])
  have other: "e \<notin> set (table t ! i)" if "i < length (table t)" "i \<noteq> ?h" for i
    using assms that by (auto simp: wsid_inv_def)
  have "\<forall>b\<in>set (take ?h (table t)). e \<notin> set b" "\<forall>b\<in>set (drop (Suc ?h) (table t)). e \<notin> set b"
    unfolding all_set_conv_all_nth using other h by simp_all
  then have "count (mset (concat (take ?h (table t)))) e = 0"
    "count (mset (concat (drop (Suc ?h) (table t)))) e = 0"
    by (auto simp: count_eq_zero_iff)
  then have "count (mset (concat (table t))) e = count (mset (table t ! ?h)) e"
    by (subst split) simp
  also have "\<dots> = count (mset (wsid_stack t (wm_wsid e))) e"
    by (simp add: wsid_stack_def)
  finally show ?thesis .
qed

subsection \<open>Properties\<close>

lemma wsid_tracker_init_inv:
  assumes "wsid_tracker_init mo co n = Some t"
  shows "wsid_inv t \<and> wsid_stack t = (\<lambda>_. [])"
proof -
  have n: "0 < n" "n \<le> 16384" and t: "t = \<lparr>n_hash_buckets = ucast n, table = replicate (unat n) []\<rparr>"
    using assms by (auto simp: wsid_tracker_init_def word_gt_0 split: if_splits)
  have u: "unat (ucast n :: u64) = unat n"
    by (simp add: unsigned_ucast_eq take_bit_nat_eq_self less_le_trans [OF unsigned_less])
  have "wsid_inv t"
    using n u by (simp add: t wsid_inv_def word_less_nat_alt word_le_nat_alt)
  then show ?thesis
    using wsid_hash_less [of t] by (auto simp: wsid_stack_def t)
qed

text \<open>
  C29. After any sequence of additions and deletions on a fresh tracker, looking an id up gives
  what a table of stacks would give: the newest entry of that id that has not been deleted.
  Hashing, the bucket lists and the unlinking loop are invisible.
\<close>

theorem wsid_find_refines_stacks:
  assumes "wsid_tracker_init True True n = Some t"
  shows "wsid_find (fold wsid.table_op ops t) w =
    (case fold (stack_op wm_wsid) ops (\<lambda>_. []) w of [] \<Rightarrow> None | e # _ \<Rightarrow> Some e)"
  using wsid_tracker_init_inv [OF assms] wsid.find_after [of t ops w] by simp

definition wsid_entry :: "u64 \<Rightarrow> u64 \<Rightarrow> wsid_map" where
  "wsid_entry w a = \<lparr>wm_wsid = w, wm_addr = a, wm_phys = 0, wm_len = 0, wm_offset = a,
     wm_index = 0, wm_flags = 0\<rparr>"

theorem wsid_find_refines_stacks_witness:
  "wsid_find (fold wsid.table_op
      [Add (wsid_entry 1 10), Add (wsid_entry 5 20), Add (wsid_entry 1 30), Del 1]
      \<lparr>n_hash_buckets = 4, table = [[], [], [], []]\<rparr>) 1 = Some (wsid_entry 1 10)"
proof -
  have i: "wsid_tracker_init True True 4 =
      Some \<lparr>n_hash_buckets = 4, table = [[], [], [], []]\<rparr>"
    by (simp add: wsid_tracker_init_def) (simp add: eval_nat_numeral)
  show ?thesis
    by (subst wsid_find_refines_stacks [OF i]) (simp add: wsid_entry_def)
qed

text \<open>
  Clean-up with a callback visits every entry of the tracker exactly once (an entry that is
  in the table twice, twice): the visited entries are those of the stacks of all ids. Without
  a callback, or on a NULL tracker, nothing is called.
\<close>

theorem wsid_cleanup_visits_all:
  assumes "wsid_inv t"
  shows "count (mset (wsid_tracker_cleanup (Some t) (Some (\<lambda>e seen. e # seen)) [])) e =
      count (mset (wsid_stack t (wm_wsid e))) e \<and>
    wsid_tracker_cleanup (Some t) None s = s \<and> wsid_tracker_cleanup None f s = s"
proof -
  have f: "fold (\<lambda>e seen. e # seen) xs acc = rev xs @ acc" for xs acc :: "wsid_map list"
    by (induction xs arbitrary: acc) simp_all
  then show ?thesis
    using count_concat_buckets [OF assms, of e]
    by (simp add: wsid_tracker_cleanup_def cleanup_table_None cleanup_table_Some)
qed

theorem wsid_cleanup_visits_all_witness:
  "count (mset (wsid_tracker_cleanup
     (Some \<lparr>n_hash_buckets = 2, table = [[], [wsid_entry 3 1, wsid_entry 1 2]]\<rparr>)
     (Some (\<lambda>e seen. e # seen)) [])) (wsid_entry 1 2) = 1"
proof -
  let ?t = "\<lparr>n_hash_buckets = 2, table = [[], [wsid_entry 3 1, wsid_entry 1 2]]\<rparr>"
  have inv: "wsid_inv ?t"
    by (auto simp: wsid_inv_def less_Suc_eq wsid_hash_def wsid_entry_def)
  show ?thesis
    using wsid_cleanup_visits_all [OF inv, of "wsid_entry 1 2" "()" None]
    by (simp add: wsid_stack_def wsid_hash_def wsid_entry_def)
qed

end
