(* ===== verification/Plugin_Mgr.thy ===== *)
theory Plugin_Mgr
  imports Opae_State
begin

unbundle bit_operations_syntax

section \<open>The plugin manager (libopae-c/pluginmgr.c)\<close>

text \<open>
  The manager reads the configuration, loads the plugins it names, or the native plugins of the
  PCI devices it detects, configures them, keeps their adapter tables in a list and runs their
  initialize and finalize routines. What it asks of the system (dlopen, dlsym, dlclose, the
  sysfs files, the password entry) and of json-c is the record \<open>env\<close> of parameters. The addresses
  of adapter tables come from the same heap as the objects.
\<close>

subsection \<open>State and environment\<close>

record platform_data =
  pd_vendor_id :: u16
  pd_device_id :: u16
  pd_native_plugin :: string
  pd_flags :: u32

definition OPAE_PLATFORM_DATA_DETECTED :: u32 where "OPAE_PLATFORM_DATA_DETECTED = 1"
definition OPAE_PLATFORM_DATA_LOADED :: u32 where "OPAE_PLATFORM_DATA_LOADED = 2"

definition xfpga_so :: string where "xfpga_so = ''libxfpga.so''"
definition opae_v_so :: string where "opae_v_so = ''libopae-v.so''"

text \<open>The table, without the entry of zeroes that ends it.\<close>

definition platform_data_table :: "platform_data list" where
  "platform_data_table = map (\<lambda>(v, d, n). \<lparr>pd_vendor_id = v, pd_device_id = d, pd_native_plugin = n,
       pd_flags = 0\<rparr>)
     [(0x1c2c, 0x1000, xfpga_so), (0x1c2c, 0x1001, xfpga_so), (0x8086, 0xbcbd, xfpga_so),
      (0x8086, 0xbcc0, xfpga_so), (0x8086, 0xbcc1, xfpga_so), (0x8086, 0x09c4, xfpga_so),
      (0x8086, 0x09c5, xfpga_so), (0x8086, 0x0b2b, xfpga_so), (0x8086, 0x0b2c, xfpga_so),
      (0x8086, 0x0b30, xfpga_so), (0x8086, 0x0b31, xfpga_so), (0x8086, 0xbcce, xfpga_so),
      (0x8086, 0xbcce, opae_v_so), (0x8086, 0xaf00, xfpga_so), (0x8086, 0xaf00, opae_v_so),
      (0x8086, 0xaf01, opae_v_so)]"

record plugin_cfg =
  pc_name :: string
  pc_plugin :: string
  pc_enabled :: bool
  pc_cfg :: string

text \<open>A sysfs file read with \<^verbatim>\<open>fopen\<close> and \<^verbatim>\<open>fscanf ("%x")\<close>.\<close>

datatype hex_file = No_File | Eof | Hex u32

record ('p, 'j) env =
  search_paths :: "string list"
  dlopen :: "string \<Rightarrow> ptr option"
  dlsym_configure :: "ptr \<Rightarrow> (string \<Rightarrow> 'p adapter \<Rightarrow> int \<times> 'p adapter) option"
  dlclose :: "ptr \<Rightarrow> int"
  pw_dir :: "string option"
  canonicalize :: "string \<Rightarrow> string option"
  fopen :: "string \<Rightarrow> string option"
  pci_devices :: "(string \<times> hex_file \<times> hex_file) list option"
  json_parse :: "string \<Rightarrow> 'j option"
  json_get_ex :: "'j \<Rightarrow> string \<Rightarrow> 'j option"
  json_array :: "'j \<Rightarrow> 'j list option"
  json_get_string :: "'j \<Rightarrow> string"
  json_get_string_len :: "'j \<Rightarrow> nat"
  json_to_plain :: "'j \<Rightarrow> string option"
  json_get_boolean :: "'j \<Rightarrow> bool"

record 'p mgr =
  mg_lib :: "'p lib"
  initialized :: bool
  finalizing :: bool
  config_list :: "plugin_cfg list"
  plugin_count :: int
  platforms :: "platform_data list"
  list_lock :: nat

text \<open>The outcome of a \<^verbatim>\<open>malloc\<close> whose memory holds no object of the store.\<close>

definition malloc_ok :: "'p lib \<Rightarrow> bool \<times> 'p lib" where
  "malloc_ok s = (case mallocs s of False # ms \<Rightarrow> (False, s\<lparr>mallocs := ms\<rparr>)
                  | _ \<Rightarrow> (True, s\<lparr>mallocs := tl (mallocs s)\<rparr>))"

subsection \<open>Finding files\<close>

definition PATH_MAX :: nat where "PATH_MAX = 4096"

definition opae_home_cfg_files :: "string list" where
  "opae_home_cfg_files = [''/.local/opae.cfg'', ''/.local/opae/opae.cfg'', ''/.config/opae/opae.cfg'']"

definition opae_sys_cfg_files :: "string list" where
  "opae_sys_cfg_files = [''/usr/local/etc/opae/opae.cfg'', ''/etc/opae/opae.cfg'']"

fun first_found :: "(string \<Rightarrow> 'a option) \<Rightarrow> string list \<Rightarrow> 'a option" where
  "first_found f [] = None"
| "first_found f (p # ps) = (case f p of Some r \<Rightarrow> Some r | None \<Rightarrow> first_found f ps)"

text \<open>
  Undefined when there is no password entry, or when the home directory and the file name do
  not fit the buffer.
\<close>

definition find_cfg :: "('p, 'j) env \<Rightarrow> string option option" where
  "find_cfg e = (case pw_dir e of None \<Rightarrow> None
     | Some home \<Rightarrow>
         (let home = take (PATH_MAX - 1) home;
              fits = (\<lambda>f. length home + length f < PATH_MAX);
              search = (\<lambda>fs. first_found (canonicalize e) (map ((@) home) fs));
              ok = takeWhile fits opae_home_cfg_files
          in case search ok of
               Some f \<Rightarrow> Some (Some f)
             | None \<Rightarrow> if ok \<noteq> opae_home_cfg_files then None
                       else Some (first_found (canonicalize e) opae_sys_cfg_files)))"

definition opae_plugin_mgr_find_plugin :: "('p, 'j) env \<Rightarrow> string \<Rightarrow> ptr option" where
  "opae_plugin_mgr_find_plugin e lib_path =
     first_found (dlopen e) (map (\<lambda>d. take (PATH_MAX - 1) (d @ lib_path)) (search_paths e))"

subsection \<open>Adapters\<close>

definition empty_adapter :: "string \<Rightarrow> ptr \<Rightarrow> 'p adapter" where
  "empty_adapter path h = \<lparr>ad_path = path, ad_dl_handle = h, ad_fn = (\<lambda>_. None),
     ad_initialize = None, ad_finalize = None\<rparr>"

definition opae_plugin_mgr_alloc_adapter ::
  "('p, 'j) env \<Rightarrow> string \<Rightarrow> 'p mgr \<Rightarrow> ptr \<times> 'p mgr" where
  "opae_plugin_mgr_alloc_adapter e lib_path m =
     (case opae_plugin_mgr_find_plugin e lib_path of
        None \<Rightarrow> (NULL, m)
      | Some h \<Rightarrow>
          (case malloc_ok (mg_lib m) of (ok, s) \<Rightarrow>
             if \<not> ok then (NULL, m\<lparr>mg_lib := s\<rparr>)
             else (brk s, m\<lparr>mg_lib := s\<lparr>adapters := (adapters s)(brk s \<mapsto> empty_adapter lib_path h),
                                   brk := Suc (brk s)\<rparr>\<rparr>)))"

definition opae_plugin_mgr_free_adapter ::
  "('p, 'j) env \<Rightarrow> ptr \<Rightarrow> 'p mgr \<Rightarrow> (int \<times> 'p mgr) option" where
  "opae_plugin_mgr_free_adapter e adapter m = do {
     ad \<leftarrow> adapters (mg_lib m) adapter;
     Some (dlclose e (ad_dl_handle ad),
           m\<lparr>mg_lib := (mg_lib m)\<lparr>adapters := (adapters (mg_lib m))(adapter := None)\<rparr>\<rparr>)
   }"

definition opae_plugin_mgr_configure_plugin ::
  "('p, 'j) env \<Rightarrow> ptr \<Rightarrow> string \<Rightarrow> 'p mgr \<Rightarrow> (int \<times> 'p mgr) option" where
  "opae_plugin_mgr_configure_plugin e adapter config m = do {
     ad \<leftarrow> adapters (mg_lib m) adapter;
     case dlsym_configure e (ad_dl_handle ad) of
       None \<Rightarrow> Some (1, m)
     | Some cfg \<Rightarrow> (case cfg config ad of (res, ad) \<Rightarrow>
         Some (res, m\<lparr>mg_lib := (mg_lib m)\<lparr>adapters := (adapters (mg_lib m))(adapter \<mapsto> ad)\<rparr>\<rparr>))
   }"

definition opae_plugin_mgr_register_adapter :: "ptr \<Rightarrow> 'p mgr \<Rightarrow> int \<times> 'p mgr" where
  "opae_plugin_mgr_register_adapter adapter m =
     (0, m\<lparr>mg_lib := (mg_lib m)\<lparr>adapter_list := adapter_list (mg_lib m) @ [adapter]\<rparr>\<rparr>)"

subsection \<open>Configuration\<close>

definition opae_plugin_mgr_reset_cfg :: "'p mgr \<Rightarrow> 'p mgr" where
  "opae_plugin_mgr_reset_cfg m = m\<lparr>config_list := [], plugin_count := 0\<rparr>"

definition opae_plugin_mgr_add_plugin :: "plugin_cfg \<Rightarrow> 'p mgr \<Rightarrow> 'p mgr" where
  "opae_plugin_mgr_add_plugin cfg m =
     m\<lparr>config_list := config_list m @ [cfg], plugin_count := plugin_count m + 1\<rparr>"

definition PLUGIN_NAME_MAX :: nat where "PLUGIN_NAME_MAX = 64"
definition MAX_PLUGIN_CFG_SIZE :: nat where "MAX_PLUGIN_CFG_SIZE = 8192"
definition MAX_CFG_SIZE :: nat where "MAX_CFG_SIZE = 4096"

definition process_plugin :: "('p, 'j) env \<Rightarrow> string \<Rightarrow> 'j \<Rightarrow> 'p mgr \<Rightarrow> int \<times> 'p mgr" where
  "process_plugin e name j_config m =
     (case (json_get_ex e j_config ''plugin'', json_get_ex e j_config ''configuration'',
            json_get_ex e j_config ''enabled'') of
        (Some j_plugin, Some j_plugin_cfg, Some j_enabled) \<Rightarrow>
          if json_get_string_len e j_plugin > PLUGIN_NAME_MAX then (1, m)
          else (case malloc_ok (mg_lib m) of (ok, s) \<Rightarrow>
            let m = m\<lparr>mg_lib := s\<rparr> in
            if \<not> ok then (1, m)
            else case json_to_plain e j_plugin_cfg of
              None \<Rightarrow> (1, m)
            | Some stringified \<Rightarrow>
                if length stringified + 1 \<ge> MAX_PLUGIN_CFG_SIZE then (1, m)
                else (case malloc_ok (mg_lib m) of (ok, s) \<Rightarrow>
                  let m = m\<lparr>mg_lib := s\<rparr> in
                  if \<not> ok then (1, m)
                  else (0, opae_plugin_mgr_add_plugin
                       \<lparr>pc_name = take (PLUGIN_NAME_MAX - 1) name,
                        pc_plugin = take (PLUGIN_NAME_MAX - 1) (json_get_string e j_plugin),
                        pc_enabled = json_get_boolean e j_enabled, pc_cfg = stringified\<rparr> m)))
      | _ \<Rightarrow> (1, m))"

fun process_plugins :: "('p, 'j) env \<Rightarrow> 'j \<Rightarrow> 'j list \<Rightarrow> 'p mgr \<Rightarrow> int \<times> 'p mgr" where
  "process_plugins e j_configs [] m = (0, m)"
| "process_plugins e j_configs (j_plugin # js) m =
     (let plugin_name = json_get_string e j_plugin in
      case (case json_get_ex e j_configs plugin_name of
              Some j_config \<Rightarrow> process_plugin e plugin_name j_config m
            | None \<Rightarrow> (1, m)) of
        (n, m) \<Rightarrow> (case process_plugins e j_configs js m of (k, m) \<Rightarrow> (n + k, m)))"

definition process_cfg_buffer :: "('p, 'j) env \<Rightarrow> string \<Rightarrow> 'p mgr \<Rightarrow> int \<times> 'p mgr" where
  "process_cfg_buffer e buffer m =
     (case json_parse e buffer of
        None \<Rightarrow> (1, m)
      | Some root \<Rightarrow>
          (case json_get_ex e root ''plugins'' of
             None \<Rightarrow> (1, m)
           | Some j_plugins \<Rightarrow>
               (case json_get_ex e root ''configurations'' of
                  None \<Rightarrow> (1, m)
                | Some j_configs \<Rightarrow>
                    (case json_array e j_plugins of
                       None \<Rightarrow> (1, m)
                     | Some ps \<Rightarrow> process_plugins e j_configs ps m))))"

text \<open>
  The file is read one byte at a time into a buffer of 4096 bytes; the byte is read, and stored,
  before the count is tested. A store outside the buffer is undefined (None). The buffer starts
  as zeroes and is handed to the parser as a C string, which must end inside it.
\<close>

fun read_cfg :: "nat \<Rightarrow> string \<Rightarrow> char list \<Rightarrow> (bool \<times> char list) option" where
  "read_cfg total_read [] buffer = Some (True, buffer)"
| "read_cfg total_read (c # rest) buffer =
     (if total_read \<ge> length buffer then None
      else if total_read < MAX_CFG_SIZE
      then read_cfg (Suc total_read) rest (buffer[total_read := c])
      else Some (False, buffer[total_read := c]))"

definition c_string :: "char list \<Rightarrow> string option" where
  "c_string buf = (if CHR 0x00 \<in> set buf then Some (takeWhile (\<lambda>c. c \<noteq> CHR 0x00) buf) else None)"

definition opae_plugin_mgr_parse_config ::
  "('p, 'j) env \<Rightarrow> string option \<Rightarrow> 'p mgr \<Rightarrow> (int \<times> 'p mgr) option" where
  "opae_plugin_mgr_parse_config e filename m =
     (case filename of
        None \<Rightarrow> Some (1, m)
      | Some f \<Rightarrow>
          (case fopen e f of
             None \<Rightarrow> Some (1, m)
           | Some content \<Rightarrow> do {
               (feof, buffer) \<leftarrow> read_cfg 0 content (replicate MAX_CFG_SIZE (CHR 0x00));
               if \<not> feof then Some (1, m)
               else do {
                 str \<leftarrow> c_string buffer;
                 Some (process_cfg_buffer e str m)
               }
             }))"

subsection \<open>Detecting platforms\<close>

definition opae_plugin_mgr_detect_platform :: "u16 \<Rightarrow> u16 \<Rightarrow> 'p mgr \<Rightarrow> 'p mgr" where
  "opae_plugin_mgr_detect_platform vendor device m =
     m\<lparr>platforms := map (\<lambda>pd. if pd_vendor_id pd = vendor \<and> pd_device_id pd = device
                          then pd\<lparr>pd_flags := pd_flags pd OR OPAE_PLATFORM_DATA_DETECTED\<rparr> else pd)
                       (platforms m)\<rparr>"

fun detect_devices :: "(string \<times> hex_file \<times> hex_file) list \<Rightarrow> 'p mgr \<Rightarrow> int \<times> 'p mgr" where
  "detect_devices [] m = (0, m)"
| "detect_devices ((d_name, vendor_file, device_file) # ds) m =
     (if d_name = ''.'' \<or> d_name = ''..'' then detect_devices ds m
      else case vendor_file of
        Hex vendor \<Rightarrow>
          (case device_file of
             Hex device \<Rightarrow>
               detect_devices ds (opae_plugin_mgr_detect_platform (ucast vendor) (ucast device) m)
           | _ \<Rightarrow> (1, m))
      | _ \<Rightarrow> (1, m))"

definition opae_plugin_mgr_detect_platforms :: "('p, 'j) env \<Rightarrow> 'p mgr \<Rightarrow> int \<times> 'p mgr" where
  "opae_plugin_mgr_detect_platforms e m =
     (case pci_devices e of None \<Rightarrow> (1, m) | Some ds \<Rightarrow> detect_devices ds m)"

subsection \<open>Loading plugins\<close>

text \<open>Load, configure and register one plugin; a plugin that fails is freed again.\<close>

definition load_plugin ::
  "('p, 'j) env \<Rightarrow> string \<Rightarrow> string \<Rightarrow> 'p mgr \<Rightarrow> (bool \<times> int \<times> 'p mgr) option" where
  "load_plugin e path config m =
     (case opae_plugin_mgr_alloc_adapter e path m of (adapter, m) \<Rightarrow>
        if adapter = NULL then Some (False, 1, m)
        else do {
          (res, m) \<leftarrow> opae_plugin_mgr_configure_plugin e adapter config m;
          if res \<noteq> 0 then do {
            (_, m) \<leftarrow> opae_plugin_mgr_free_adapter e adapter m;
            Some (True, 1, m)
          } else case opae_plugin_mgr_register_adapter adapter m of (res, m) \<Rightarrow>
            if res \<noteq> 0 then do {
              (_, m) \<leftarrow> opae_plugin_mgr_free_adapter e adapter m;
              Some (True, 1, m)
            } else Some (True, 0, m)
        })"

definition opae_plugin_mgr_load_cfg_plugin ::
  "('p, 'j) env \<Rightarrow> plugin_cfg \<Rightarrow> 'p mgr \<Rightarrow> (int \<times> 'p mgr) option" where
  "opae_plugin_mgr_load_cfg_plugin e cfg m =
     (if pc_enabled cfg
      then map_option (\<lambda>(_, res, m). (res, m)) (load_plugin e (pc_plugin cfg) (pc_cfg cfg) m)
      else Some (0, m))"

fun load_cfgs :: "('p, 'j) env \<Rightarrow> plugin_cfg list \<Rightarrow> 'p mgr \<Rightarrow> (int \<times> 'p mgr) option" where
  "load_cfgs e [] m = Some (0, m)"
| "load_cfgs e (c # cs) m = do {
     (n, m) \<leftarrow> opae_plugin_mgr_load_cfg_plugin e c m;
     (k, m) \<leftarrow> load_cfgs e cs m;
     Some (n + k, m)
   }"

definition opae_plugin_mgr_load_cfg_plugins ::
  "('p, 'j) env \<Rightarrow> 'p mgr \<Rightarrow> (int \<times> 'p mgr) option" where
  "opae_plugin_mgr_load_cfg_plugins e m = load_cfgs e (config_list m) m"

definition platform_flag :: "u32 \<Rightarrow> platform_data \<Rightarrow> bool" where
  "platform_flag b pd \<longleftrightarrow> pd_flags pd AND b \<noteq> 0"

definition already_loaded :: "string \<Rightarrow> platform_data list \<Rightarrow> bool" where
  "already_loaded native pds \<longleftrightarrow>
     (\<exists>pd \<in> set pds. pd_native_plugin pd = native \<and> platform_flag OPAE_PLATFORM_DATA_LOADED pd)"

text \<open>The loop over the table, from index \<open>i\<close>: the table is updated as plugins are loaded.\<close>

fun load_natives ::
  "nat \<Rightarrow> ('p, 'j) env \<Rightarrow> nat \<Rightarrow> int \<Rightarrow> int \<Rightarrow> 'p mgr \<Rightarrow> (int \<times> int \<times> 'p mgr) option" where
  "load_natives 0 e i detected errors m = Some (errors, detected, m)"
| "load_natives (Suc n) e i detected errors m =
     (let pd = platforms m ! i in
      if \<not> platform_flag OPAE_PLATFORM_DATA_DETECTED pd
      then load_natives n e (Suc i) detected errors m
      else if already_loaded (pd_native_plugin pd) (platforms m)
      then load_natives n e (Suc i) (detected + 1) errors m
      else do {
        (loaded, res, m) \<leftarrow> load_plugin e (pd_native_plugin pd) '''' m;
        if \<not> loaded then Some (errors + 1, detected + 1, m)
        else if res \<noteq> 0 then load_natives n e (Suc i) (detected + 1) (errors + 1) m
        else load_natives n e (Suc i) (detected + 1) errors
               (m\<lparr>platforms := (platforms m)[i := pd\<lparr>pd_flags :=
                   pd_flags pd OR OPAE_PLATFORM_DATA_LOADED\<rparr>]\<rparr>)
      })"

definition opae_plugin_mgr_load_dflt_plugins ::
  "('p, 'j) env \<Rightarrow> 'p mgr \<Rightarrow> (int \<times> int \<times> 'p mgr) option" where
  "opae_plugin_mgr_load_dflt_plugins e m =
     (case opae_plugin_mgr_detect_platforms e m of (errors, m) \<Rightarrow>
        if errors \<noteq> 0 then Some (errors, 0, m)
        else load_natives (length (platforms m)) e 0 0 0 m)"

subsection \<open>Initialize and finalize\<close>

fun initialize_adapters :: "ptr list \<Rightarrow> 'p lib \<Rightarrow> (int \<times> 'p lib) option" where
  "initialize_adapters [] s = Some (0, s)"
| "initialize_adapters (a # as) s = do {
     ad \<leftarrow> adapters s a;
     let (err, s) = (case ad_initialize ad of
                       None \<Rightarrow> (0, s)
                     | Some f \<Rightarrow> (case f (plug s) of (res, w) \<Rightarrow>
                                   (if res \<noteq> 0 then 1 else 0, s\<lparr>plug := w\<rparr>)));
     (n, s) \<leftarrow> initialize_adapters as s;
     Some (err + n, s)
   }"

definition opae_plugin_mgr_initialize_all :: "'p mgr \<Rightarrow> (int \<times> 'p mgr) option" where
  "opae_plugin_mgr_initialize_all m =
     map_option (\<lambda>(n, s). (n, m\<lparr>mg_lib := s\<rparr>)) (initialize_adapters (adapter_list (mg_lib m)) (mg_lib m))"

fun finalize_adapters ::
  "('p, 'j) env \<Rightarrow> ptr list \<Rightarrow> 'p mgr \<Rightarrow> (int \<times> 'p mgr) option" where
  "finalize_adapters e [] m = Some (0, m)"
| "finalize_adapters e (a # as) m = do {
     ad \<leftarrow> adapters (mg_lib m) a;
     let (err, m) = (case ad_finalize ad of
                       None \<Rightarrow> (0, m)
                     | Some f \<Rightarrow> (case f (plug (mg_lib m)) of (res, w) \<Rightarrow>
                                   (if res \<noteq> 0 then 1 else 0, m\<lparr>mg_lib := (mg_lib m)\<lparr>plug := w\<rparr>\<rparr>)));
     (r, m) \<leftarrow> opae_plugin_mgr_free_adapter e a m;
     (n, m) \<leftarrow> finalize_adapters e as m;
     Some (err + (if r \<noteq> 0 then 1 else 0) + n, m)
   }"

definition opae_plugin_mgr_finalize_all ::
  "('p, 'j) env \<Rightarrow> 'p mgr \<Rightarrow> (int \<times> 'p mgr) option" where
  "opae_plugin_mgr_finalize_all e m =
     (let m = m\<lparr>list_lock := Suc (list_lock m)\<rparr> in
      if finalizing m then Some (0, m)
      else do {
        (errors, m) \<leftarrow> finalize_adapters e (adapter_list (mg_lib m)) (m\<lparr>finalizing := True\<rparr>);
        let m = m\<lparr>mg_lib := (mg_lib m)\<lparr>adapter_list := []\<rparr>,
                  platforms := map (\<lambda>pd. pd\<lparr>pd_flags := 0\<rparr>) (platforms m)\<rparr>;
        Some (errors, (opae_plugin_mgr_reset_cfg m)\<lparr>initialized := False, finalizing := False,
                        list_lock := list_lock m - 1\<rparr>)
      })"

definition opae_plugin_mgr_initialize ::
  "('p, 'j) env \<Rightarrow> string option \<Rightarrow> 'p mgr \<Rightarrow> (int \<times> 'p mgr) option" where
  "opae_plugin_mgr_initialize e cfg_file m =
     (let m = m\<lparr>plugin_count := 0, list_lock := Suc (list_lock m)\<rparr> in
      if initialized m then Some (0, m\<lparr>list_lock := list_lock m - 1\<rparr>)
      else do {
        found_cfg \<leftarrow> find_cfg e;
        let use_cfg = (case cfg_file of Some f \<Rightarrow> Some f | None \<Rightarrow> found_cfg);
        m \<leftarrow> (case use_cfg of
               None \<Rightarrow> Some m
             | Some _ \<Rightarrow> map_option snd (opae_plugin_mgr_parse_config e use_cfg m));
        (errors, platforms_detected, m) \<leftarrow>
          (if plugin_count m \<noteq> 0
           then map_option (\<lambda>(n, m). (n, 0, m)) (opae_plugin_mgr_load_cfg_plugins e m)
           else opae_plugin_mgr_load_dflt_plugins e m);
        if errors \<noteq> 0 then Some (errors, m\<lparr>list_lock := list_lock m - 1\<rparr>)
        else do {
          (n, m) \<leftarrow> opae_plugin_mgr_initialize_all m;
          let errors = errors + n;
          let m = (if errors = 0 \<and> (plugin_count m \<noteq> 0 \<or> platforms_detected \<noteq> 0)
                   then m\<lparr>initialized := True\<rparr> else m);
          Some (errors, m\<lparr>list_lock := list_lock m - 1\<rparr>)
        }
      })"

subsection \<open>Visiting the adapters\<close>

definition OPAE_ENUM_STOP :: int where "OPAE_ENUM_STOP = 1"
definition OPAE_ENUM_CONTINUE :: int where "OPAE_ENUM_CONTINUE = 0"

fun visit_adapters ::
  "(ptr \<Rightarrow> 'c \<Rightarrow> 'p lib \<Rightarrow> (int \<times> 'c \<times> 'p lib) option) \<Rightarrow> ptr list \<Rightarrow> 'c \<Rightarrow> 'p lib \<Rightarrow>
   (int \<times> 'c \<times> 'p lib) option" where
  "visit_adapters callback [] ctx s = Some (OPAE_ENUM_CONTINUE, ctx, s)"
| "visit_adapters callback (a # as) ctx s = do {
     (cb_res, ctx, s) \<leftarrow> callback a ctx s;
     if cb_res \<noteq> 0 then Some (cb_res, ctx, s) else visit_adapters callback as ctx s
   }"

definition opae_plugin_mgr_for_each_adapter ::
  "(ptr \<Rightarrow> 'c \<Rightarrow> 'p lib \<Rightarrow> (int \<times> 'c \<times> 'p lib) option) option \<Rightarrow> 'c \<Rightarrow> 'p lib \<Rightarrow>
   (int \<times> 'c \<times> 'p lib) option" where
  "opae_plugin_mgr_for_each_adapter callback ctx s =
     (case callback of
        None \<Rightarrow> Some (OPAE_ENUM_STOP, ctx, s)
      | Some cb \<Rightarrow> visit_adapters cb (adapter_list s) ctx s)"

end
