(* ===== verification/Plugin_Correct.thy ===== *)
theory Plugin_Correct
  imports Plugin_Mgr
begin

section \<open>Correctness of the plugin manager\<close>

text \<open>
  No adapter is lost: those in the store are the registered ones, before and after every call.
  Then: when a configuration file overruns the parser's buffer, which platforms are detected, how
  often a native plugin is loaded, what finalizing leaves behind.
\<close>

subsection \<open>Configuration files\<close>

lemma read_cfg_spec:
  "length buf = MAX_CFG_SIZE \<Longrightarrow> k \<le> MAX_CFG_SIZE \<Longrightarrow>
   read_cfg k c buf = (if k + length c \<le> MAX_CFG_SIZE
     then Some (True, take k buf @ c @ drop (k + length c) buf) else None)"
proof (induction c arbitrary: k buf)
  case (Cons x c)
  show ?case
  proof (cases "k < MAX_CFG_SIZE")
    case True
    have "take (Suc k) (buf[k := x]) = take k buf @ [x]"
      using True Cons.prems by (simp add: take_Suc_conv_app_nth)
    then show ?thesis using True Cons by auto
  next
    case False
    then show ?thesis using Cons.prems by simp
  qed
qed simp

lemma parse_config_None:
  "opae_plugin_mgr_parse_config e filename m = None \<longleftrightarrow>
   (\<exists>f content. filename = Some f \<and> fopen e f = Some content \<and>
      (4096 < length content \<or> length content = 4096 \<and> CHR 0x00 \<notin> set content))"
proof (cases "filename = None \<or> fopen e (the filename) = None")
  case True
  then show ?thesis by (auto simp: opae_plugin_mgr_parse_config_def split: option.splits)
next
  case False
  then obtain f c where f: "filename = Some f" "fopen e f = Some c" by auto
  have "CHR 0x00 \<in> set (c @ replicate (4096 - length c) (CHR 0x00)) \<longleftrightarrow>
      \<not> (4096 \<le> length c \<and> CHR 0x00 \<notin> set c)" by auto
  then show ?thesis using read_cfg_spec [of "replicate MAX_CFG_SIZE (CHR 0x00)" 0 c]
    by (auto simp: opae_plugin_mgr_parse_config_def f MAX_CFG_SIZE_def c_string_def bind_eq_None_conv)
qed

text \<open>
  C34. Reading a configuration file is undefined, by a store one byte past the buffer or by a
  string that does not end inside it, exactly when the file is longer than 4096 bytes, or has
  exactly 4096 bytes and none of them is zero.
\<close>

theorem parse_config_overrun:
  "opae_plugin_mgr_parse_config e filename m = None \<longleftrightarrow>
   (\<exists>f content. filename = Some f \<and> fopen e f = Some content \<and>
      (4096 < length content \<or> length content = 4096 \<and> CHR 0x00 \<notin> set content))"
  by (rule parse_config_None)

subsection \<open>Detection\<close>

definition device_ids :: "(string \<times> hex_file \<times> hex_file) list \<Rightarrow> (u16 \<times> u16) set" where
  "device_ids ds = {(ucast v, ucast d) | v d. \<exists>n. (n, Hex v, Hex d) \<in> set ds \<and> n \<noteq> ''.'' \<and> n \<noteq> ''..''}"

definition mark :: "(u16 \<times> u16) set \<Rightarrow> platform_data \<Rightarrow> platform_data" where
  "mark ids pd = (if (pd_vendor_id pd, pd_device_id pd) \<in> ids
     then pd\<lparr>pd_flags := pd_flags pd OR OPAE_PLATFORM_DATA_DETECTED\<rparr> else pd)"

lemma mark_mark: "mark A (mark B pd) = mark (A \<union> B) pd"
  by (cases pd) (simp add: mark_def or.assoc)

lemma mark_comp [simp]: "mark A \<circ> mark B = mark (A \<union> B)"
  by (simp add: fun_eq_iff mark_mark)

lemma mark_native [simp]: "pd_native_plugin (mark S pd) = pd_native_plugin pd"
  by (simp add: mark_def)

lemma mark_empty: "mark {} = id"
  by (simp add: mark_def fun_eq_iff)

lemma detect_platform_mark:
  "opae_plugin_mgr_detect_platform v d m = m\<lparr>platforms := map (mark {(v, d)}) (platforms m)\<rparr>"
  by (simp add: opae_plugin_mgr_detect_platform_def mark_def)

lemma device_ids_Cons:
  "device_ids ((n, Hex v, Hex d) # ds) =
     (if n = ''.'' \<or> n = ''..'' then device_ids ds else insert (ucast v, ucast d) (device_ids ds))"
  "n = ''.'' \<or> n = ''..'' \<Longrightarrow> device_ids ((n, x, y) # ds) = device_ids ds"
  by (auto simp: device_ids_def)

lemma detect_devices_mark:
  "detect_devices ds m = (0, m') \<Longrightarrow> m' = m\<lparr>platforms := map (mark (device_ids ds)) (platforms m)\<rparr>"
proof (induction ds arbitrary: m)
  case Nil
  then show ?case by (simp add: device_ids_def mark_empty)
next
  case (Cons x ds)
  obtain n vf df where x: "x = (n, vf, df)" by (cases x)
  show ?case
  proof (cases "n = ''.'' \<or> n = ''..''")
    case True
    then show ?thesis using Cons by (auto simp: x device_ids_Cons(2))
  next
    case False
    then obtain v d where vd: "vf = Hex v" "df = Hex d"
      using Cons.prems by (auto simp: x split: hex_file.splits)
    then have "detect_devices ds (opae_plugin_mgr_detect_platform (ucast v) (ucast d) m) = (0, m')"
      using Cons.prems False by (simp add: x)
    from Cons.IH [OF this] show ?thesis
      using False by (simp add: detect_platform_mark x vd device_ids_Cons(1) mark_mark)
  qed
qed

text \<open>
  When detection succeeds, the entries of the platform table flagged as detected are those
  that were, and those whose vendor and device id are the ids of a PCI device; nothing else
  changes. Ids are compared as 16-bit numbers.
\<close>

theorem detect_platforms_spec:
  assumes "opae_plugin_mgr_detect_platforms e m = (0, m')"
  shows "\<exists>ds. pci_devices e = Some ds \<and> m' = m\<lparr>platforms := platforms m'\<rparr> \<and>
    platforms m' = map (\<lambda>pd. if (pd_vendor_id pd, pd_device_id pd) \<in> device_ids ds
      then pd\<lparr>pd_flags := pd_flags pd OR OPAE_PLATFORM_DATA_DETECTED\<rparr> else pd) (platforms m)"
proof -
  obtain ds where ds: "pci_devices e = Some ds" "detect_devices ds m = (0, m')"
    using assms by (auto simp: opae_plugin_mgr_detect_platforms_def split: option.splits)
  from detect_devices_mark [OF ds(2)] ds(1) show ?thesis by (simp add: mark_def)
qed

subsection \<open>No adapter is lost\<close>

text \<open>The adapters in the store are the registered ones, each registered once.\<close>

definition mgr_inv :: "'p mgr \<Rightarrow> bool" where
  "mgr_inv m \<longleftrightarrow> distinct (adapter_list (mg_lib m)) \<and>
     set (adapter_list (mg_lib m)) = dom (adapters (mg_lib m)) \<and>
     (\<forall>a \<in> dom (adapters (mg_lib m)). 0 < a \<and> a < brk (mg_lib m)) \<and> 0 < brk (mg_lib m)"

text \<open>What loading keeps: all but the store of adapters.\<close>

definition loads :: "'p mgr \<Rightarrow> 'p mgr \<Rightarrow> bool" where
  "loads m m' \<longleftrightarrow> mgr_inv m' \<and> platforms m' = platforms m \<and> list_lock m' = list_lock m \<and>
     initialized m' = initialized m \<and> finalizing m' = finalizing m \<and> plugin_count m' = plugin_count m \<and>
     config_list m' = config_list m \<and>
     (\<exists>l. adapter_list (mg_lib m') = adapter_list (mg_lib m) @ l)"

lemma malloc_keeps: "malloc_ok s = (ok, s') \<Longrightarrow> \<exists>ms. s' = s\<lparr>mallocs := ms\<rparr>"
  by (auto simp: malloc_ok_def split: list.splits bool.splits)

lemma load_plugin_ok:
  assumes inv: "mgr_inv m"
  shows "\<exists>l res m'. load_plugin e path config m = Some (l, res, m') \<and> loads m m' \<and>
    (if l \<and> res = 0 then \<exists>a. adapter_list (mg_lib m') = adapter_list (mg_lib m) @ [a]
     else adapter_list (mg_lib m') = adapter_list (mg_lib m)) \<and> res \<in> {0, 1}"
proof (cases "opae_plugin_mgr_find_plugin e path")
  case None
  then show ?thesis using inv by (intro exI [of _ False])
      (simp add: load_plugin_def opae_plugin_mgr_alloc_adapter_def loads_def)
next
  case (Some h)
  obtain ok s where ok: "malloc_ok (mg_lib m) = (ok, s)" by force
  then obtain ms where s: "s = (mg_lib m)\<lparr>mallocs := ms\<rparr>" using malloc_keeps by blast
  let ?a = "brk (mg_lib m)"
  have a: "?a \<noteq> 0" "adapters (mg_lib m) ?a = None"
    using inv by (auto simp: mgr_inv_def dom_def)
  have r: "(adapters (mg_lib m))(?a := None) = adapters (mg_lib m)" using a(2) by auto
  show ?thesis
  proof (cases ok)
    case False
    then show ?thesis using inv ok Some s by (intro exI [of _ False])
      (simp add: load_plugin_def opae_plugin_mgr_alloc_adapter_def loads_def mgr_inv_def)
  next
    case True
    let ?ad = "empty_adapter path h"
    have sw: "s\<lparr>adapters := x, brk := b\<rparr> = s\<lparr>brk := b, adapters := x\<rparr>" for x b by simp
    let ?m = "m\<lparr>mg_lib := s\<lparr>brk := Suc ?a, adapters := (adapters s)(?a \<mapsto> ?ad)\<rparr>\<rparr>"
    have al: "opae_plugin_mgr_alloc_adapter e path m = (?a, ?m)"
      using True ok Some by (simp add: opae_plugin_mgr_alloc_adapter_def sw) (simp add: s)
    have free: "loads m (m\<lparr>mg_lib := s\<lparr>brk := Suc ?a, adapters := adapters (mg_lib m)\<rparr>\<rparr>)"
      using inv s by (auto simp: loads_def mgr_inv_def less_Suc_eq)
    have reg: "loads m (m\<lparr>mg_lib := s\<lparr>brk := Suc ?a, adapters := (adapters (mg_lib m))(?a \<mapsto> x),
        adapter_list := adapter_list (mg_lib m) @ [?a]\<rparr>\<rparr>)" for x
      using inv s a by (auto simp: loads_def mgr_inv_def less_Suc_eq)
    obtain res m2 where "opae_plugin_mgr_configure_plugin e ?a config ?m = Some (res, m2)"
      and m2: "\<exists>x. m2 = m\<lparr>mg_lib := s\<lparr>brk := Suc ?a, adapters := (adapters (mg_lib m))(?a \<mapsto> x)\<rparr>\<rparr>"
      by (cases "dlsym_configure e h"; cases "(the (dlsym_configure e h)) config ?ad")
        (auto simp: opae_plugin_mgr_configure_plugin_def empty_adapter_def s)
    then obtain x where cf: "opae_plugin_mgr_configure_plugin e ?a config ?m =
        Some (res, m\<lparr>mg_lib := s\<lparr>brk := Suc ?a, adapters := (adapters (mg_lib m))(?a \<mapsto> x)\<rparr>\<rparr>)" by blast
    show ?thesis
    proof (cases "res = 0")
      case True
      let ?r = "m\<lparr>mg_lib := s\<lparr>brk := Suc ?a, adapters := (adapters (mg_lib m))(?a \<mapsto> x),
        adapter_list := adapter_list (mg_lib m) @ [?a]\<rparr>\<rparr>"
      have "load_plugin e path config m = Some (True, 0, ?r)"
        using True a(1) cf by (simp add: load_plugin_def al opae_plugin_mgr_register_adapter_def) (simp add: s)
      then show ?thesis using reg [of x] by (intro exI [of _ True] exI [of _ 0] exI [of _ ?r]) simp
    next
      case False
      let ?r = "m\<lparr>mg_lib := s\<lparr>brk := Suc ?a, adapters := adapters (mg_lib m)\<rparr>\<rparr>"
      have "load_plugin e path config m = Some (True, 1, ?r)"
        using False a(1) cf r by (simp add: load_plugin_def al opae_plugin_mgr_free_adapter_def)
      moreover have "adapter_list (mg_lib ?r) = adapter_list (mg_lib m)" by (simp add: s)
      ultimately show ?thesis using free by (intro exI [of _ True] exI [of _ 1] exI [of _ ?r]) simp
    qed
  qed
qed

lemma loads_refl: "mgr_inv m \<Longrightarrow> loads m m"
  by (simp add: loads_def)

lemma loads_trans: "loads m1 m2 \<Longrightarrow> loads m2 m3 \<Longrightarrow> loads m1 m3"
  by (auto simp: loads_def)

lemma load_cfgs_ok: "mgr_inv m \<Longrightarrow> \<exists>n m'. load_cfgs e cs m = Some (n, m') \<and> loads m m' \<and> 0 \<le> n"
proof (induction cs arbitrary: m)
  case Nil
  then show ?case by (simp add: loads_refl)
next
  case (Cons c cs)
  obtain n m1 where 1: "opae_plugin_mgr_load_cfg_plugin e c m = Some (n, m1)" "loads m m1" "0 \<le> n"
    using load_plugin_ok [OF Cons.prems, of e "pc_plugin c" "pc_cfg c"] loads_refl [OF Cons.prems]
    by (cases "pc_enabled c") (fastforce simp: opae_plugin_mgr_load_cfg_plugin_def)+
  then have "mgr_inv m1" by (simp add: loads_def)
  from Cons.IH [OF this] 1 show ?case using loads_trans by fastforce
qed

text \<open>The native plugins that some entry of the table is flagged to have loaded.\<close>

definition loaded_natives :: "platform_data list \<Rightarrow> string set" where
  "loaded_natives pds = {pd_native_plugin pd | pd. pd \<in> set pds \<and> platform_flag OPAE_PLATFORM_DATA_LOADED pd}"

lemma finite_loaded [simp]: "finite (loaded_natives pds)"
proof -
  have "loaded_natives pds \<subseteq> pd_native_plugin ` set pds" by (auto simp: loaded_natives_def)
  then show ?thesis by (rule finite_subset) simp
qed

lemma already_loaded_iff: "already_loaded n pds \<longleftrightarrow> n \<in> loaded_natives pds"
  by (auto simp: already_loaded_def loaded_natives_def)

lemma loaded_natives_upd:
  assumes "i < length pds" "pd = pds ! i" "\<not> platform_flag OPAE_PLATFORM_DATA_LOADED pd"
  shows "loaded_natives (pds[i := pd\<lparr>pd_flags := pd_flags pd OR OPAE_PLATFORM_DATA_LOADED\<rparr>]) =
    insert (pd_native_plugin pd) (loaded_natives pds)"
proof -
  let ?pd = "pd\<lparr>pd_flags := pd_flags pd OR OPAE_PLATFORM_DATA_LOADED\<rparr>"
  have f: "platform_flag OPAE_PLATFORM_DATA_LOADED ?pd"
    by (simp add: platform_flag_def OPAE_PLATFORM_DATA_LOADED_def bit.conj_disj_distrib2 or_eq_0_iff)
  have e: "x \<in> set (pds[i := ?pd]) \<longleftrightarrow> x = ?pd \<or> (\<exists>j < length pds. j \<noteq> i \<and> x = pds ! j)" for x
    using assms(1) by (auto simp: in_set_conv_nth nth_list_update)
  have e2: "x \<in> set pds \<longleftrightarrow> x = pd \<or> (\<exists>j < length pds. j \<noteq> i \<and> x = pds ! j)" for x
    using assms(1,2) by (auto simp: in_set_conv_nth)
  show ?thesis unfolding loaded_natives_def e e2 using assms(3) f
    by (auto intro: exI [of _ ?pd])
qed

lemma load_natives_ok:
  assumes "mgr_inv m" "i + n = length (platforms m)" "0 \<le> errors" "0 \<le> detected"
  shows "\<exists>errors' detected' m'. load_natives n e i detected errors m = Some (errors', detected', m') \<and>
    mgr_inv m' \<and> list_lock m' = list_lock m \<and> initialized m' = initialized m \<and>
    finalizing m' = finalizing m \<and> plugin_count m' = plugin_count m \<and> config_list m' = config_list m \<and>
    map pd_native_plugin (platforms m') = map pd_native_plugin (platforms m) \<and>
    0 \<le> errors' \<and> 0 \<le> detected' \<and>
    length (adapter_list (mg_lib m')) + card (loaded_natives (platforms m)) =
      length (adapter_list (mg_lib m)) + card (loaded_natives (platforms m'))"
  using assms
proof (induction n arbitrary: i detected errors m)
  case (Suc n)
  let ?pd = "platforms m ! i"
  have i: "i < length (platforms m)" "Suc i + n = length (platforms m)" using Suc.prems(2) by simp_all
  consider (skip) "\<not> platform_flag OPAE_PLATFORM_DATA_DETECTED ?pd"
    | (again) "platform_flag OPAE_PLATFORM_DATA_DETECTED ?pd" "already_loaded (pd_native_plugin ?pd) (platforms m)"
    | (load) "platform_flag OPAE_PLATFORM_DATA_DETECTED ?pd" "\<not> already_loaded (pd_native_plugin ?pd) (platforms m)"
    by blast
  then show ?case
  proof cases
    case skip
    then show ?thesis using Suc.IH [OF Suc.prems(1) i(2) Suc.prems(3,4)] by simp
  next
    case again
    then show ?thesis using Suc.IH [OF Suc.prems(1) i(2), of errors "detected + 1"] Suc.prems by simp
  next
    case load
    obtain l res m1 where ld: "load_plugin e (pd_native_plugin ?pd) [] m = Some (l, res, m1)" "loads m m1"
      and lst: "if l \<and> res = 0 then \<exists>a. adapter_list (mg_lib m1) = adapter_list (mg_lib m) @ [a]
        else adapter_list (mg_lib m1) = adapter_list (mg_lib m)"
      using load_plugin_ok [OF Suc.prems(1), of e "pd_native_plugin ?pd" "[]"] by blast
    have m1: "mgr_inv m1" "platforms m1 = platforms m" using ld(2) by (simp_all add: loads_def)
    consider (none) "\<not> l" | (bad) "l" "res \<noteq> 0" | (good) "l" "res = 0" by blast
    then show ?thesis
    proof cases
      case none
      then show ?thesis using load ld lst Suc.prems(3,4) by (simp add: Let_def loads_def)
    next
      case bad
      have "Suc i + n = length (platforms m1)" using i m1 by simp
      from Suc.IH [OF m1(1) this, of "errors + 1" "detected + 1"]
      show ?thesis using bad load ld lst Suc.prems(3,4) by (simp add: Let_def loads_def)
    next
      case good
      let ?pds = "(platforms m)[i := ?pd\<lparr>pd_flags := pd_flags ?pd OR OPAE_PLATFORM_DATA_LOADED\<rparr>]"
      let ?m = "m1\<lparr>platforms := ?pds\<rparr>"
      have nl: "\<not> platform_flag OPAE_PLATFORM_DATA_LOADED ?pd" using load(2) i(1) by (auto simp: already_loaded_def)
      have c: "card (loaded_natives ?pds) = Suc (card (loaded_natives (platforms m)))"
        using loaded_natives_upd [OF i(1) refl nl] load(2) by (simp add: already_loaded_iff)
      have nm: "map pd_native_plugin ?pds = map pd_native_plugin (platforms m)"
        using i(1) by (auto simp: list_eq_iff_nth_eq nth_list_update)
      have im: "mgr_inv ?m" "Suc i + n = length (platforms ?m)" using m1 i by (simp_all add: mgr_inv_def)
      have rec: "load_natives (Suc n) e i detected errors m = load_natives n e (Suc i) (detected + 1) errors ?m"
        using good load ld(1) m1(2) by (simp add: Let_def)
      obtain a where "adapter_list (mg_lib m1) = adapter_list (mg_lib m) @ [a]" using lst good by auto
      then show ?thesis
        using Suc.IH [OF im, of errors "detected + 1"] Suc.prems(3,4) ld(2) c nm
        unfolding rec by (auto simp: loads_def)
    qed
  qed
qed simp

lemma mark_natives [simp]: "map pd_native_plugin (map (mark S) pds) = map pd_native_plugin pds"
  "loaded_natives (map (mark S) pds) = loaded_natives pds"
proof -
  have "platform_flag OPAE_PLATFORM_DATA_LOADED (mark S pd) = platform_flag OPAE_PLATFORM_DATA_LOADED pd" for pd
    by (simp add: mark_def platform_flag_def OPAE_PLATFORM_DATA_LOADED_def OPAE_PLATFORM_DATA_DETECTED_def
        bit.conj_disj_distrib2)
  then show "map pd_native_plugin (map (mark S) pds) = map pd_native_plugin pds"
    "loaded_natives (map (mark S) pds) = loaded_natives pds"
    by (auto simp: loaded_natives_def image_iff) (metis mark_native)
qed

lemma detect_devices_some: "\<exists>S n. detect_devices ds m = (n, m\<lparr>platforms := map (mark S) (platforms m)\<rparr>) \<and> 0 \<le> n"
proof (induction ds m rule: detect_devices.induct)
  case (1 m)
  then show ?case by (intro exI [of _ "{}"]) (simp add: mark_empty)
next
  case (2 d v f ds m)
  have same: "\<exists>S. m = m\<lparr>platforms := map (mark S) (platforms m)\<rparr>"
    by (rule exI [of _ "{}"]) (simp add: mark_empty)
  show ?case
  proof (cases "(d = ''.'' \<or> d = ''..'') \<or> (\<forall>x y. v = Hex x \<longrightarrow> f \<noteq> Hex y)")
    case True
    then show ?thesis using 2(1) same by (auto split: hex_file.split)
  next
    case False
    then obtain x y where h: "\<not> (d = ''.'' \<or> d = ''..'')" "v = Hex x" "f = Hex y" by blast
    from 2(2) [OF h] show ?thesis using h by (auto simp: detect_platform_mark mark_mark)
  qed
qed

lemma load_dflt_ok:
  assumes "mgr_inv m"
  shows "\<exists>errors detected m'. opae_plugin_mgr_load_dflt_plugins e m = Some (errors, detected, m') \<and> mgr_inv m' \<and>
    list_lock m' = list_lock m \<and> initialized m' = initialized m \<and>
    0 \<le> errors \<and> config_list m' = config_list m \<and> plugin_count m' = plugin_count m \<and>
    map pd_native_plugin (platforms m') = map pd_native_plugin (platforms m) \<and>
    length (adapter_list (mg_lib m')) + card (loaded_natives (platforms m)) =
      length (adapter_list (mg_lib m)) + card (loaded_natives (platforms m'))"
proof -
  obtain n m1 where d: "opae_plugin_mgr_detect_platforms e m = (n, m1)" by force
  then obtain S where S: "m1 = m\<lparr>platforms := map (mark S) (platforms m)\<rparr>" "0 \<le> n"
    using detect_devices_some [of "the (pci_devices e)" m] mark_empty
    by (cases "pci_devices e") (auto simp: opae_plugin_mgr_detect_platforms_def intro: that [of "{}"])
  have i: "mgr_inv m1" using assms by (simp add: S mgr_inv_def)
  show ?thesis
  proof (cases "n = 0")
    case False
    then show ?thesis using i S by (simp add: opae_plugin_mgr_load_dflt_plugins_def d)
  next
    case True
    then show ?thesis using load_natives_ok [OF i, of 0 "length (platforms m1)" 0 0 e] S
      by (auto simp: opae_plugin_mgr_load_dflt_plugins_def d)
  qed
qed

text \<open>
  From the first table entry on, loading the native plugins registers one adapter for every
  native plugin it newly flags as loaded, so each is loaded at most once however many table
  entries name it; whether it succeeds or not, no adapter is lost.
\<close>

theorem natives_loaded_once:
  assumes "mgr_inv m"
  shows "\<exists>errors detected m'. opae_plugin_mgr_load_dflt_plugins e m = Some (errors, detected, m') \<and> mgr_inv m' \<and>
    map pd_native_plugin (platforms m') = map pd_native_plugin (platforms m) \<and>
    length (adapter_list (mg_lib m')) + card (loaded_natives (platforms m)) =
      length (adapter_list (mg_lib m)) + card (loaded_natives (platforms m'))"
  using load_dflt_ok [OF assms, of e] by (elim exE conjE) (intro exI conjI)

subsection \<open>Initialize and finalize\<close>

text \<open>Reading a configuration changes the list of plugins to load, and allocates.\<close>

definition configures :: "'p mgr \<Rightarrow> 'p mgr \<Rightarrow> bool" where
  "configures m m' \<longleftrightarrow> (\<exists>ms cl pc. m' = m\<lparr>mg_lib := (mg_lib m)\<lparr>mallocs := ms\<rparr>, config_list := cl, plugin_count := pc\<rparr>)"

lemma configuresI: "configures m m"
  unfolding configures_def
  by (rule exI [of _ "mallocs (mg_lib m)"], rule exI [of _ "config_list m"], rule exI [of _ "plugin_count m"]) simp

lemma configures_trans: "configures m1 m2 \<Longrightarrow> configures m2 m3 \<Longrightarrow> configures m1 m3"
  unfolding configures_def by (elim exE) (simp, blast)

lemma process_plugin_configures: "process_plugin e name j m = (n, m') \<Longrightarrow> configures m m'"
proof -
  have c: "configures m (m\<lparr>mg_lib := (mg_lib m)\<lparr>mallocs := ms\<rparr>\<rparr>)"
    "configures m (m\<lparr>mg_lib := (mg_lib m)\<lparr>mallocs := ms\<rparr>, config_list := cl, plugin_count := pc\<rparr>)" for ms cl pc
    unfolding configures_def
    by (intro exI [of _ ms] exI [of _ "config_list m"] exI [of _ "plugin_count m"] exI, simp)+
  assume "process_plugin e name j m = (n, m')"
  then show ?thesis
    by (auto simp: process_plugin_def opae_plugin_mgr_add_plugin_def Let_def configuresI c
        dest!: malloc_keeps split: option.splits prod.splits if_splits)
qed

lemma process_plugins_configures: "process_plugins e jc js m = (n, m') \<Longrightarrow> configures m m'"
proof (induction js arbitrary: m n)
  case Nil
  then show ?case by (simp add: configuresI)
next
  case (Cons j js)
  then show ?case using process_plugin_configures configures_trans configuresI
    by (fastforce simp: Let_def split: option.splits prod.splits)
qed

lemma process_cfg_configures: "configures m (snd (process_cfg_buffer e buffer m))"
proof -
  have "configures m (snd (process_plugins e jc js m))" for jc js
    using process_plugins_configures [of e jc js m] by (metis prod.collapse)
  then show ?thesis by (auto simp: process_cfg_buffer_def configuresI split: option.split)
qed

lemma parse_config_configures:
  "opae_plugin_mgr_parse_config e f m = Some (n, m') \<Longrightarrow> configures m m'"
  using process_cfg_configures [of m e]
  by (auto simp: opae_plugin_mgr_parse_config_def bind_eq_Some_conv configuresI
      split: option.splits if_splits) (metis snd_conv)

lemma initialize_adapters_ok:
  "set as \<subseteq> dom (adapters s) \<Longrightarrow> \<exists>n w. initialize_adapters as s = Some (n, s\<lparr>plug := w\<rparr>) \<and> 0 \<le> n"
proof (induction as arbitrary: s)
  case Nil
  have "s = s\<lparr>plug := plug s\<rparr>" by simp
  then show ?case by (metis initialize_adapters.simps(1) order_refl)
next
  case (Cons a as)
  then obtain ad where ad: "adapters s a = Some ad" by auto
  obtain err w where e: "(case ad_initialize ad of None \<Rightarrow> (0, s)
      | Some f \<Rightarrow> (case f (plug s) of (res, w) \<Rightarrow> (if res \<noteq> 0 then 1 else 0, s\<lparr>plug := w\<rparr>))) = (err :: int, s\<lparr>plug := w\<rparr>)"
    and p: "0 \<le> err"
    by (cases "ad_initialize ad"; cases "(the (ad_initialize ad)) (plug s)") (auto intro: that [of 0 "plug s"])
  have "set as \<subseteq> dom (adapters (s\<lparr>plug := w\<rparr>))" using Cons.prems by simp
  from Cons.IH [OF this] show ?case using p by (auto simp: ad e)
qed

lemma finalize_adapters_ok:
  "set as \<subseteq> dom (adapters (mg_lib m)) \<Longrightarrow> distinct as \<Longrightarrow>
   \<exists>n w. finalize_adapters e as m = Some (n, m\<lparr>mg_lib := (mg_lib m)\<lparr>plug := w,
     adapters := adapters (mg_lib m) |` (- set as)\<rparr>\<rparr>) \<and> 0 \<le> n"
proof (induction as arbitrary: m)
  case Nil
  have "adapters (mg_lib m) |` UNIV = adapters (mg_lib m)" by (simp add: restrict_map_def)
  then have "m = m\<lparr>mg_lib := (mg_lib m)\<lparr>plug := plug (mg_lib m), adapters := adapters (mg_lib m) |` (- {})\<rparr>\<rparr>" by simp
  then show ?case by (metis finalize_adapters.simps(1) order_refl empty_set)
next
  case (Cons a as)
  then obtain ad where ad: "adapters (mg_lib m) a = Some ad" by auto
  obtain err w where e: "(case ad_finalize ad of None \<Rightarrow> (0, m)
      | Some f \<Rightarrow> (case f (plug (mg_lib m)) of (res, w) \<Rightarrow> (if res \<noteq> 0 then 1 else 0, m\<lparr>mg_lib := (mg_lib m)\<lparr>plug := w\<rparr>\<rparr>)))
      = (err :: int, m\<lparr>mg_lib := (mg_lib m)\<lparr>plug := w\<rparr>\<rparr>)"
    and p: "0 \<le> err"
    by (cases "ad_finalize ad"; cases "(the (ad_finalize ad)) (plug (mg_lib m))") (auto intro: that [of 0 "plug (mg_lib m)"])
  let ?m = "m\<lparr>mg_lib := (mg_lib m)\<lparr>plug := w, adapters := (adapters (mg_lib m))(a := None)\<rparr>\<rparr>"
  have "set as \<subseteq> dom (adapters (mg_lib ?m))" "distinct as" using Cons.prems by auto
  from Cons.IH [OF this] obtain n v where ih: "finalize_adapters e as ?m = Some (n, ?m\<lparr>mg_lib := (mg_lib ?m)\<lparr>plug := v,
     adapters := adapters (mg_lib ?m) |` (- set as)\<rparr>\<rparr>)" "0 \<le> n" by blast
  have "((adapters (mg_lib m))(a := None)) |` (- set as) = adapters (mg_lib m) |` (- set (a # as))"
    by (auto simp: restrict_map_def fun_eq_iff)
  then show ?case using p ih by (auto simp: ad e opae_plugin_mgr_free_adapter_def)
qed

subsection \<open>Which plugins are loaded\<close>

text \<open>The registered adapters, in their order, and the adapter that a plugin of this path and configuration fills in.\<close>

definition registered :: "'p mgr \<Rightarrow> 'p adapter list" where
  "registered m = map (\<lambda>a. the (adapters (mg_lib m) a)) (adapter_list (mg_lib m))"

definition plugin_of :: "('p, 'j) env \<Rightarrow> string \<times> string \<Rightarrow> 'p adapter" where
  "plugin_of e = (\<lambda>(path, config).
     let h = the (opae_plugin_mgr_find_plugin e path) in
     snd (the (dlsym_configure e h) config (empty_adapter path h)))"

text \<open>The first occurrence of every element.\<close>

fun firsts :: "'a list \<Rightarrow> 'a list" where
  "firsts [] = []"
| "firsts (x # xs) = x # filter (\<lambda>y. y \<noteq> x) (firsts xs)"

lemma firsts_filter: "firsts (filter P xs) = filter P (firsts xs)"
proof (induction xs)
  case (Cons x xs)
  have "filter (\<lambda>y. y \<noteq> x) (filter P ys) = filter P (filter (\<lambda>y. y \<noteq> x) ys)" for ys
    by (simp add: conj_commute)
  moreover have "\<not> P x \<Longrightarrow> filter P (filter (\<lambda>y. y \<noteq> x) ys) = filter P ys" for ys
    by (induction ys) auto
  ultimately show ?case using Cons.IH by simp
qed simp

text \<open>The native plugins of the detected entries of the table that are not among those loaded before.\<close>

definition wanted_natives :: "string set \<Rightarrow> platform_data list \<Rightarrow> string list" where
  "wanted_natives L pds = firsts (filter (\<lambda>n. n \<notin> L)
     (map pd_native_plugin (filter (platform_flag OPAE_PLATFORM_DATA_DETECTED) pds)))"

lemma wanted_natives_simps [simp]:
  "wanted_natives L [] = []"
  "\<not> platform_flag OPAE_PLATFORM_DATA_DETECTED pd \<Longrightarrow> wanted_natives L (pd # pds) = wanted_natives L pds"
  "pd_native_plugin pd \<in> L \<Longrightarrow> wanted_natives L (pd # pds) = wanted_natives L pds"
  by (simp_all add: wanted_natives_def)

lemma wanted_natives_load:
  assumes "platform_flag OPAE_PLATFORM_DATA_DETECTED pd" "pd_native_plugin pd \<notin> L"
  shows "wanted_natives L (pd # pds) = pd_native_plugin pd # wanted_natives (insert (pd_native_plugin pd) L) pds"
proof -
  have "filter (\<lambda>n. n \<notin> insert x L) xs = filter (\<lambda>y. y \<noteq> x) (filter (\<lambda>n. n \<notin> L) xs)" for x xs
    by (simp add: conj_commute)
  with assms show ?thesis by (simp add: wanted_natives_def firsts_filter)
qed

lemma load_plugin_unloaded: "load_plugin e path config m = Some (False, res, m') \<Longrightarrow> res \<noteq> 0"
  by (auto simp: load_plugin_def bind_eq_Some_conv split: if_splits prod.splits)

lemma load_plugin_registers:
  assumes inv: "mgr_inv m" and ld: "load_plugin e path config m = Some (True, 0, m')"
  shows "registered m' = registered m @ [plugin_of e (path, config)]"
proof -
  obtain h where h: "opae_plugin_mgr_find_plugin e path = Some h"
    using ld by (cases "opae_plugin_mgr_find_plugin e path")
      (simp_all add: load_plugin_def opae_plugin_mgr_alloc_adapter_def)
  obtain ok s where ok: "malloc_ok (mg_lib m) = (ok, s)" by force
  then obtain ms where s: "s = (mg_lib m)\<lparr>mallocs := ms\<rparr>" using malloc_keeps by blast
  have a: "brk (mg_lib m) \<noteq> 0" "\<forall>x\<in>set (adapter_list (mg_lib m)). x \<noteq> brk (mg_lib m)"
    using inv by (auto simp: mgr_inv_def)
  have ok2: ok using ld h ok s
    by (cases ok) (simp_all add: load_plugin_def opae_plugin_mgr_alloc_adapter_def)
  obtain cfg where cfg: "dlsym_configure e h = Some cfg"
    using ld h ok ok2 a by (cases "dlsym_configure e h")
      (auto simp: load_plugin_def opae_plugin_mgr_alloc_adapter_def opae_plugin_mgr_configure_plugin_def s
        empty_adapter_def opae_plugin_mgr_free_adapter_def)
  obtain r ad where c: "cfg config (empty_adapter path h) = (r, ad)" by force
  have dl: "ad_dl_handle (empty_adapter path h) = h" by (simp add: empty_adapter_def)
  show ?thesis using ld h ok ok2 a cfg c
    by (auto simp: load_plugin_def opae_plugin_mgr_alloc_adapter_def opae_plugin_mgr_configure_plugin_def s dl
      opae_plugin_mgr_free_adapter_def opae_plugin_mgr_register_adapter_def registered_def plugin_of_def split: if_splits)
qed

lemma load_cfgs_registers:
  "mgr_inv m \<Longrightarrow> load_cfgs e cs m = Some (0, m') \<Longrightarrow>
   registered m' = registered m @ map (plugin_of e) (map (\<lambda>c. (pc_plugin c, pc_cfg c)) (filter pc_enabled cs))"
proof (induction cs arbitrary: m)
  case (Cons c cs)
  obtain n k m1 where 1: "opae_plugin_mgr_load_cfg_plugin e c m = Some (n, m1)" "load_cfgs e cs m1 = Some (k, m')"
      "n + k = 0"
    using Cons.prems(2) by (auto simp: bind_eq_Some_conv)
  show ?case
  proof (cases "pc_enabled c")
    case False
    then show ?thesis using 1 Cons.IH [of m] Cons.prems(1) by (simp add: opae_plugin_mgr_load_cfg_plugin_def)
  next
    case True
    obtain l res m2 where l: "load_plugin e (pc_plugin c) (pc_cfg c) m = Some (l, res, m2)" "loads m m2" "res \<in> {0, 1}"
      using load_plugin_ok [OF Cons.prems(1), of e "pc_plugin c" "pc_cfg c"] by blast
    then have r: "res = n" "m2 = m1" using 1(1) True by (simp_all add: opae_plugin_mgr_load_cfg_plugin_def)
    have m1: "mgr_inv m1" using l(2) r(2) by (simp add: loads_def)
    have "0 \<le> k" using load_cfgs_ok [OF m1, of e cs] 1(2) by auto
    then have z: "n = 0" "k = 0" using 1(3) l(3) r(1) by auto
    then have "l" using load_plugin_unloaded [of e "pc_plugin c" "pc_cfg c" m res m2] l(1) r by (cases l) simp_all
    then show ?thesis
      using load_plugin_registers [OF Cons.prems(1)] l(1) Cons.IH [OF m1] 1(2) True r z by simp
  qed
qed simp

lemma load_natives_errors:
  "mgr_inv m \<Longrightarrow> i + n = length (platforms m) \<Longrightarrow>
   load_natives n e i detected errors m = Some (k, detected', m') \<Longrightarrow> errors \<le> k"
proof (induction n arbitrary: i detected errors m)
  case (Suc n)
  let ?pd = "platforms m ! i"
  have i: "Suc i + n = length (platforms m)" using Suc.prems(2) by simp
  obtain l res m1 where ld: "load_plugin e (pd_native_plugin ?pd) [] m = Some (l, res, m1)" "loads m m1"
    using load_plugin_ok [OF Suc.prems(1), of e "pd_native_plugin ?pd" "[]"] by blast
  have p: "platforms m1 = platforms m" using ld(2) by (simp add: loads_def)
  have m1: "mgr_inv m1" "Suc i + n = length (platforms m1)" using ld(2) i by (simp_all add: loads_def)
  have up: "mgr_inv (m1\<lparr>platforms := x\<rparr>)" for x using m1 by (simp add: mgr_inv_def)
  let ?m = "m1\<lparr>platforms := (platforms m)[i := ?pd\<lparr>pd_flags := pd_flags ?pd OR OPAE_PLATFORM_DATA_LOADED\<rparr>]\<rparr>"
  have um: "mgr_inv ?m" "Suc i + n = length (platforms ?m)" using up i by simp_all
  consider "load_natives n e (Suc i) detected errors m = Some (k, detected', m')"
    | "load_natives n e (Suc i) (detected + 1) errors m = Some (k, detected', m')"
    | "k = errors + 1"
    | "load_natives n e (Suc i) (detected + 1) (errors + 1) m1 = Some (k, detected', m')"
    | "load_natives n e (Suc i) (detected + 1) errors ?m = Some (k, detected', m')"
    using Suc.prems(3) by (auto simp: Let_def ld(1) p split: if_splits)
  then show ?case
    using Suc.IH [OF Suc.prems(1) i] Suc.IH [OF m1] Suc.IH [OF um] by cases fastforce+
qed simp

lemma load_natives_registers:
  assumes "mgr_inv m" "i + n = length (platforms m)" "0 \<le> errors"
    and "load_natives n e i detected errors m = Some (0, detected', m')"
  shows "registered m' = registered m @
      map (\<lambda>n. plugin_of e (n, [])) (wanted_natives (loaded_natives (platforms m)) (drop i (platforms m))) \<and>
    detected' = detected + int (length (filter (platform_flag OPAE_PLATFORM_DATA_DETECTED) (drop i (platforms m))))"
  using assms
proof (induction n arbitrary: i detected errors m)
  case (Suc n)
  let ?pd = "platforms m ! i"
  have i: "i < length (platforms m)" "Suc i + n = length (platforms m)" using Suc.prems(2) by simp_all
  have d: "drop i (platforms m) = ?pd # drop (Suc i) (platforms m)" using i(1) by (simp add: Cons_nth_drop_Suc)
  note run = Suc.prems(4)
  show ?case
  proof (cases "platform_flag OPAE_PLATFORM_DATA_DETECTED ?pd")
    case False
    then show ?thesis using Suc.IH [OF Suc.prems(1) i(2) Suc.prems(3)] run by (simp add: d)
  next
    case det: True
    show ?thesis
    proof (cases "already_loaded (pd_native_plugin ?pd) (platforms m)")
      case True
      then show ?thesis using Suc.IH [OF Suc.prems(1) i(2) Suc.prems(3), of "detected + 1"] run det
        by (simp add: d already_loaded_iff)
    next
      case new: False
      obtain l res m1 where ld: "load_plugin e (pd_native_plugin ?pd) [] m = Some (l, res, m1)" "loads m m1"
        using load_plugin_ok [OF Suc.prems(1), of e "pd_native_plugin ?pd" "[]"] by blast
      have m1: "mgr_inv m1" "platforms m1 = platforms m" using ld(2) by (simp_all add: loads_def)
      have i1: "Suc i + n = length (platforms m1)" using i m1 by simp
      have l: l
        using run det new ld(1) Suc.prems(3) by (cases l) (auto simp: Let_def)
      moreover have "res = 0"
      proof (rule ccontr)
        assume "res \<noteq> 0"
        then have "load_natives n e (Suc i) (detected + 1) (errors + 1) m1 = Some (0, detected', m')"
          using run det new ld(1) l by (simp add: Let_def)
        from load_natives_errors [OF m1(1) i1 this] show False using Suc.prems(3) by simp
      qed
      ultimately have ld0: "load_plugin e (pd_native_plugin ?pd) [] m = Some (True, 0, m1)" using ld(1) by simp
      let ?pds = "(platforms m)[i := ?pd\<lparr>pd_flags := pd_flags ?pd OR OPAE_PLATFORM_DATA_LOADED\<rparr>]"
      let ?m = "m1\<lparr>platforms := ?pds\<rparr>"
      have "\<not> platform_flag OPAE_PLATFORM_DATA_LOADED ?pd" using new i(1) by (auto simp: already_loaded_def)
      note L = loaded_natives_upd [OF i(1) refl this]
      have im: "mgr_inv ?m" "Suc i + n = length (platforms ?m)" using m1 i by (simp_all add: mgr_inv_def)
      have "load_natives n e (Suc i) (detected + 1) errors ?m = Some (0, detected', m')"
        using run det new ld0 m1(2) by (simp add: Let_def)
      from Suc.IH [OF im Suc.prems(3) this] show ?thesis
        using load_plugin_registers [OF Suc.prems(1) ld0] wanted_natives_load [OF det] new
        by (simp add: d L registered_def already_loaded_iff det)
    qed
  qed
qed simp

text \<open>The entries of the table whose device is there, and the plugins to load: those the configuration enables, or
  without one the native plugins of the devices.\<close>

definition present :: "('p, 'j) env \<Rightarrow> platform_data \<Rightarrow> bool" where
  "present e pd \<longleftrightarrow> platform_flag OPAE_PLATFORM_DATA_DETECTED pd \<or>
     (\<exists>ds. pci_devices e = Some ds \<and> (pd_vendor_id pd, pd_device_id pd) \<in> device_ids ds)"

definition to_load :: "('p, 'j) env \<Rightarrow> platform_data list \<Rightarrow> 'p mgr \<Rightarrow> (string \<times> string) list" where
  "to_load e pds m =
     (if plugin_count m \<noteq> 0 then [(pc_plugin c, pc_cfg c). c \<leftarrow> config_list m, pc_enabled c]
      else [(n, []). n \<leftarrow> firsts [pd_native_plugin pd. pd \<leftarrow> pds, present e pd \<and> pd_native_plugin pd \<notin> loaded_natives pds]])"

lemma concat_filter: "concat (map (\<lambda>x. if P x then [f x] else []) xs) = map f (filter P xs)"
  by (induction xs) simp_all

lemma mark_detected: "platform_flag OPAE_PLATFORM_DATA_DETECTED (mark S pd) \<longleftrightarrow>
    platform_flag OPAE_PLATFORM_DATA_DETECTED pd \<or> (pd_vendor_id pd, pd_device_id pd) \<in> S"
  by (simp add: mark_def platform_flag_def OPAE_PLATFORM_DATA_DETECTED_def bit.conj_disj_distrib2 or_eq_0_iff)

lemma load_dflt_registers:
  assumes "mgr_inv m" "opae_plugin_mgr_load_dflt_plugins e m = Some (0, detected, m')" "plugin_count m' = 0"
  shows "registered m' = registered m @ map (plugin_of e) (to_load e (platforms m) m') \<and>
    (detected \<noteq> 0 \<longleftrightarrow> (\<exists>pd\<in>set (platforms m). present e pd))"
proof -
  obtain m1 where d: "opae_plugin_mgr_detect_platforms e m = (0, m1)"
      "load_natives (length (platforms m1)) e 0 0 0 m1 = Some (0, detected, m')"
    using assms(2) by (auto simp: opae_plugin_mgr_load_dflt_plugins_def split: prod.splits if_splits)
  obtain ds where ds: "pci_devices e = Some ds" "detect_devices ds m = (0, m1)"
    using d(1) by (auto simp: opae_plugin_mgr_detect_platforms_def split: option.splits)
  note m1 = detect_devices_mark [OF ds(2)]
  have p: "platform_flag OPAE_PLATFORM_DATA_DETECTED \<circ> mark (device_ids ds) = present e"
    by (rule ext) (simp add: mark_detected present_def ds(1))
  have i: "mgr_inv m1" using assms(1) by (simp add: m1 mgr_inv_def)
  have r: "registered m1 = registered m" by (simp add: m1 registered_def)
  have f: "filter (platform_flag OPAE_PLATFORM_DATA_DETECTED) (platforms m1) = map (mark (device_ids ds)) (filter (present e) (platforms m))"
    by (simp add: m1 filter_map p)
  have w: "map (\<lambda>n. (n, [])) (wanted_natives (loaded_natives (platforms m1)) (platforms m1)) = to_load e (platforms m) m'"
    using assms(3) by (simp add: wanted_natives_def f to_load_def concat_filter filter_map o_def)
      (simp add: m1 conj_commute)
  from load_natives_registers [OF i, of 0 "length (platforms m1)" 0 e 0 detected m'] d(2)
  have "registered m' = registered m @ map (plugin_of e) (map (\<lambda>n. (n, [])) (wanted_natives (loaded_natives (platforms m1)) (platforms m1)))"
    "detected = int (length (filter (present e) (platforms m)))"
    by (simp_all add: r f o_def)
  then show ?thesis unfolding w by (auto simp: filter_empty_conv)
qed


text \<open>
  Finalizing calls every adapter's finalizer, unloads and frees every adapter, empties the list
  and the configuration and clears the flags of the platform table, so that the library can be
  initialized again; its lock is released. A call from within a finalizer returns at once with the
  lock still held.
\<close>

theorem finalize_all_spec:
  assumes "mgr_inv m"
  shows "\<exists>n m'. opae_plugin_mgr_finalize_all e m = Some (n, m') \<and>
    (if finalizing m then n = 0 \<and> m' = m\<lparr>list_lock := Suc (list_lock m)\<rparr>
     else adapters (mg_lib m') = Map.empty \<and> adapter_list (mg_lib m') = [] \<and> mgr_inv m' \<and>
       config_list m' = [] \<and> plugin_count m' = 0 \<and> \<not> initialized m' \<and> \<not> finalizing m' \<and>
       (\<forall>pd \<in> set (platforms m'). pd_flags pd = 0) \<and> list_lock m' = list_lock m)"
proof (cases "finalizing m")
  case True
  then show ?thesis by (simp add: opae_plugin_mgr_finalize_all_def)
next
  case False
  let ?m = "m\<lparr>list_lock := Suc (list_lock m), finalizing := True\<rparr>"
  let ?as = "adapter_list (mg_lib m)"
  have d: "set ?as \<subseteq> dom (adapters (mg_lib ?m))" "distinct ?as" "adapters (mg_lib m) |` (- set ?as) = Map.empty"
    using assms by (auto simp: mgr_inv_def restrict_map_def fun_eq_iff dom_def)
  obtain n w where n: "finalize_adapters e ?as ?m = Some (n, ?m\<lparr>mg_lib := (mg_lib ?m)\<lparr>plug := w,
      adapters := adapters (mg_lib ?m) |` (- set ?as)\<rparr>\<rparr>)"
    using finalize_adapters_ok [OF d(1,2), of e] by blast
  show ?thesis using False n d(3) assms
    by (auto simp: opae_plugin_mgr_finalize_all_def opae_plugin_mgr_reset_cfg_def mgr_inv_def)
qed

subsection \<open>The theorems on a concrete environment\<close>

text \<open>One device of the platform that both native plugins support, and both plugins to load.\<close>

definition demo_env :: "(unit, unit) env" where
  "demo_env = \<lparr>search_paths = [[]], dlopen = (\<lambda>_. Some 11), dlsym_configure = (\<lambda>_. Some (\<lambda>_ ad. (0, ad))),
     dlclose = (\<lambda>_. 0), pw_dir = Some ''/root'', canonicalize = (\<lambda>_. None),
     fopen = (\<lambda>f. if f = ''big'' then Some (replicate 4097 CHR ''x'') else None),
     pci_devices = Some [(''.'', No_File, No_File), (''0000:05:00.0'', Hex 0x8086, Hex 0xbcce)],
     json_parse = (\<lambda>_. None), json_get_ex = (\<lambda>_ _. None), json_array = (\<lambda>_. None),
     json_get_string = (\<lambda>_. []), json_get_string_len = (\<lambda>_. 0), json_to_plain = (\<lambda>_. None),
     json_get_boolean = (\<lambda>_. True)\<rparr>"

definition small_env :: "(unit, unit) env" where
  "small_env = demo_env\<lparr>fopen := (\<lambda>_. None)\<rparr>"

definition demo_mgr :: "unit mgr" where
  "demo_mgr = \<lparr>mg_lib = \<lparr>mem = Map.empty, brk = 1, mallocs = [], tok_list = [], adapters = Map.empty,
     adapter_list = [], plug = ()\<rparr>, initialized = False, finalizing = False, config_list = [],
     plugin_count = 0, platforms = platform_data_table, list_lock = 0\<rparr>"

lemma demo_mgr_inv: "mgr_inv demo_mgr"
  by (simp add: mgr_inv_def demo_mgr_def)

theorem parse_config_overrun_witness:
  "opae_plugin_mgr_parse_config demo_env (Some ''big'') demo_mgr = None"
  by (simp add: parse_config_overrun demo_env_def)

theorem detect_platforms_spec_witness:
  "\<exists>m'. opae_plugin_mgr_detect_platforms demo_env demo_mgr = (0, m') \<and>
     (platforms m' ! 11, platforms m' ! 12, platforms m' ! 13) =
       ((platform_data_table ! 11)\<lparr>pd_flags := 1\<rparr>, (platform_data_table ! 12)\<lparr>pd_flags := 1\<rparr>, platform_data_table ! 13)"
proof -
  let ?m = "opae_plugin_mgr_detect_platform 0x8086 0xbcce demo_mgr"
  have d: "opae_plugin_mgr_detect_platforms demo_env demo_mgr = (0, ?m)"
    by (simp add: opae_plugin_mgr_detect_platforms_def demo_env_def)
  have ids: "device_ids [(''.'', No_File, No_File), (''0000:05:00.0'', Hex 0x8086, Hex 0xbcce)] = {(0x8086, 0xbcce)}"
    by (auto simp: device_ids_def)
  from detect_platforms_spec [OF d] have "platforms ?m = map (\<lambda>pd. if (pd_vendor_id pd, pd_device_id pd) \<in> {(0x8086, 0xbcce)}
      then pd\<lparr>pd_flags := pd_flags pd OR OPAE_PLATFORM_DATA_DETECTED\<rparr> else pd) (platforms demo_mgr)"
    by (auto simp: demo_env_def ids)
  with d show ?thesis
    by (simp add: demo_mgr_def platform_data_table_def OPAE_PLATFORM_DATA_DETECTED_def nth_Cons')
qed

theorem natives_loaded_once_witness:
  "\<exists>errors detected m'. opae_plugin_mgr_load_dflt_plugins demo_env demo_mgr = Some (errors, detected, m') \<and>
     length (adapter_list (mg_lib m')) = card (loaded_natives (platforms m'))"
proof -
  have "loaded_natives (platforms demo_mgr) = {}"
    by (auto simp: loaded_natives_def demo_mgr_def platform_data_table_def platform_flag_def)
  with natives_loaded_once [OF demo_mgr_inv, of demo_env] show ?thesis by (auto simp: demo_mgr_def)
qed


theorem finalize_all_spec_witness:
  "\<exists>n m'. opae_plugin_mgr_finalize_all demo_env demo_mgr = Some (n, m') \<and> adapter_list (mg_lib m') = [] \<and>
     list_lock m' = 0"
proof -
  have "\<not> finalizing demo_mgr" "list_lock demo_mgr = 0" by (simp_all add: demo_mgr_def)
  with finalize_all_spec [OF demo_mgr_inv, of demo_env] show ?thesis by auto
qed

end
