(* ===== verification/Api_Shell.thy ===== *)
theory Api_Shell
  imports Props Plugin_Mgr
begin

section \<open>The API functions (libopae-c/api-shell.c)\<close>

text \<open>
  Every function validates the wrapped objects it is given, finds the plugin's function in the
  adapter table and calls it on the unwrapped object. An output pointer is an address, NULL when
  the caller passes none; what a call stores through it is in the result. A string, buffer or
  array argument is an option, None for NULL.
\<close>

subsection \<open>Calls that are only forwarded\<close>

text \<open>\<open>oks\<close>: the conditions of the \<^verbatim>\<open>ASSERT_NOT_NULL\<close> checks that follow the validation.\<close>

definition call_entry ::
  "ptr \<Rightarrow> entry \<Rightarrow> arg list \<Rightarrow> 'p lib \<Rightarrow> (fpga_result \<times> arg list \<times> 'p lib) option" where
  "call_entry adapter e args s = do {
     fn \<leftarrow> adapter_fn s adapter e;
     case fn of
       None \<Rightarrow> Some (FPGA_NOT_SUPPORTED, [], s)
     | Some f \<Rightarrow> (case call_plugin f args s of ((res, out), s) \<Rightarrow> Some (res, out, s))
   }"

definition forward_handle ::
  "entry \<Rightarrow> bool list \<Rightarrow> arg list \<Rightarrow> 'p lib \<Rightarrow> ptr \<Rightarrow> (fpga_result \<times> arg list \<times> 'p lib) option" where
  "forward_handle e oks args s handle = do {
     wrapped_handle \<leftarrow> opae_validate_wrapped_handle s handle;
     if wrapped_handle = NULL \<or> False \<in> set oks then Some (FPGA_INVALID_PARAM, [], s)
     else do {
       h \<leftarrow> get_handle s wrapped_handle;
       call_entry (wh_adapter h) e (Ptr (wh_opae_handle h) # args) s
     }
   }"

definition forward_token ::
  "entry \<Rightarrow> bool list \<Rightarrow> arg list \<Rightarrow> 'p lib \<Rightarrow> ptr \<Rightarrow> (fpga_result \<times> arg list \<times> 'p lib) option" where
  "forward_token e oks args s token = do {
     wrapped_token \<leftarrow> opae_validate_wrapped_token s token;
     if wrapped_token = NULL \<or> False \<in> set oks then Some (FPGA_INVALID_PARAM, [], s)
     else do {
       w \<leftarrow> get_tok s wrapped_token;
       call_entry (wt_adapter w) e (Ptr (wt_opae_token w) # args) s
     }
   }"

definition forward_object ::
  "entry \<Rightarrow> bool list \<Rightarrow> arg list \<Rightarrow> 'p lib \<Rightarrow> ptr \<Rightarrow> (fpga_result \<times> arg list \<times> 'p lib) option" where
  "forward_object e oks args s obj = do {
     wrapped_object \<leftarrow> opae_validate_wrapped_object s obj;
     if wrapped_object = NULL \<or> False \<in> set oks then Some (FPGA_INVALID_PARAM, [], s)
     else do {
       b \<leftarrow> get_obj s wrapped_object;
       call_entry (wo_adapter b) e (Ptr (wo_opae_object b) # args) s
     }
   }"

definition fpgaReset ::
  "'p lib \<Rightarrow> ptr \<Rightarrow> (fpga_result \<times> arg list \<times> 'p lib) option" where
  "fpgaReset s handle =
     forward_handle E_Reset [] [] s handle"

definition fpgaWriteMMIO64 ::
  "'p lib \<Rightarrow> ptr \<Rightarrow> u32 \<Rightarrow> u64 \<Rightarrow> u64 \<Rightarrow> (fpga_result \<times> arg list \<times> 'p lib) option" where
  "fpgaWriteMMIO64 s handle mmio_num offset value =
     forward_handle E_WriteMMIO64 [] [W32 mmio_num, W64 offset, W64 value] s handle"

definition fpgaReadMMIO64 ::
  "'p lib \<Rightarrow> ptr \<Rightarrow> u32 \<Rightarrow> u64 \<Rightarrow> ptr \<Rightarrow> (fpga_result \<times> arg list \<times> 'p lib) option" where
  "fpgaReadMMIO64 s handle mmio_num offset value =
     forward_handle E_ReadMMIO64 [] [W32 mmio_num, W64 offset, Ptr value] s handle"

definition fpgaWriteMMIO32 ::
  "'p lib \<Rightarrow> ptr \<Rightarrow> u32 \<Rightarrow> u64 \<Rightarrow> u32 \<Rightarrow> (fpga_result \<times> arg list \<times> 'p lib) option" where
  "fpgaWriteMMIO32 s handle mmio_num offset value =
     forward_handle E_WriteMMIO32 [] [W32 mmio_num, W64 offset, W32 value] s handle"

definition fpgaReadMMIO32 ::
  "'p lib \<Rightarrow> ptr \<Rightarrow> u32 \<Rightarrow> u64 \<Rightarrow> ptr \<Rightarrow> (fpga_result \<times> arg list \<times> 'p lib) option" where
  "fpgaReadMMIO32 s handle mmio_num offset value =
     forward_handle E_ReadMMIO32 [] [W32 mmio_num, W64 offset, Ptr value] s handle"

definition fpgaWriteMMIO512 ::
  "'p lib \<Rightarrow> ptr \<Rightarrow> u32 \<Rightarrow> u64 \<Rightarrow> ptr \<Rightarrow> (fpga_result \<times> arg list \<times> 'p lib) option" where
  "fpgaWriteMMIO512 s handle mmio_num offset value =
     forward_handle E_WriteMMIO512 [] [W32 mmio_num, W64 offset, Ptr value] s handle"

definition fpgaMapMMIO ::
  "'p lib \<Rightarrow> ptr \<Rightarrow> u32 \<Rightarrow> ptr \<Rightarrow> (fpga_result \<times> arg list \<times> 'p lib) option" where
  "fpgaMapMMIO s handle mmio_num mmio_ptr =
     forward_handle E_MapMMIO [] [W32 mmio_num, Ptr mmio_ptr] s handle"

definition fpgaUnmapMMIO ::
  "'p lib \<Rightarrow> ptr \<Rightarrow> u32 \<Rightarrow> (fpga_result \<times> arg list \<times> 'p lib) option" where
  "fpgaUnmapMMIO s handle mmio_num =
     forward_handle E_UnmapMMIO [] [W32 mmio_num] s handle"

text \<open>
  An exception for preallocated buffers: with no length, a NULL address asks whether the plugin
  supports them.
\<close>

definition fpgaPrepareBuffer ::
  "'p lib \<Rightarrow> ptr \<Rightarrow> u64 \<Rightarrow> ptr \<Rightarrow> ptr \<Rightarrow> u32 \<Rightarrow> (fpga_result \<times> arg list \<times> 'p lib) option" where
  "fpgaPrepareBuffer s handle len buf_addr wsid flags =
     forward_handle E_PrepareBuffer
       [flags AND FPGA_BUF_PREALLOCATED \<noteq> 0 \<and> \<not> len > 0 \<or> buf_addr \<noteq> NULL, wsid \<noteq> NULL]
       [W64 len, Ptr buf_addr, Ptr wsid, W32 flags] s handle"

definition fpgaReleaseBuffer ::
  "'p lib \<Rightarrow> ptr \<Rightarrow> u64 \<Rightarrow> (fpga_result \<times> arg list \<times> 'p lib) option" where
  "fpgaReleaseBuffer s handle wsid =
     forward_handle E_ReleaseBuffer [] [W64 wsid] s handle"

definition fpgaGetIOAddress ::
  "'p lib \<Rightarrow> ptr \<Rightarrow> u64 \<Rightarrow> ptr \<Rightarrow> (fpga_result \<times> arg list \<times> 'p lib) option" where
  "fpgaGetIOAddress s handle wsid ioaddr =
     forward_handle E_GetIOAddress [ioaddr \<noteq> NULL] [W64 wsid, Ptr ioaddr] s handle"

definition fpgaReadError ::
  "'p lib \<Rightarrow> ptr \<Rightarrow> u32 \<Rightarrow> ptr \<Rightarrow> (fpga_result \<times> arg list \<times> 'p lib) option" where
  "fpgaReadError s token error_num value =
     forward_token E_ReadError [value \<noteq> NULL] [W32 error_num, Ptr value] s token"

definition fpgaClearError ::
  "'p lib \<Rightarrow> ptr \<Rightarrow> u32 \<Rightarrow> (fpga_result \<times> arg list \<times> 'p lib) option" where
  "fpgaClearError s token error_num =
     forward_token E_ClearError [] [W32 error_num] s token"

definition fpgaClearAllErrors ::
  "'p lib \<Rightarrow> ptr \<Rightarrow> (fpga_result \<times> arg list \<times> 'p lib) option" where
  "fpgaClearAllErrors s token =
     forward_token E_ClearAllErrors [] [] s token"

definition fpgaGetErrorInfo ::
  "'p lib \<Rightarrow> ptr \<Rightarrow> u32 \<Rightarrow> ptr \<Rightarrow> (fpga_result \<times> arg list \<times> 'p lib) option" where
  "fpgaGetErrorInfo s token error_num error_info =
     forward_token E_GetErrorInfo [error_info \<noteq> NULL] [W32 error_num, Ptr error_info] s token"

definition fpgaAssignPortToInterface ::
  "'p lib \<Rightarrow> ptr \<Rightarrow> u32 \<Rightarrow> u32 \<Rightarrow> u32 \<Rightarrow> (fpga_result \<times> arg list \<times> 'p lib) option" where
  "fpgaAssignPortToInterface s handle interface_num slot_num flags =
     forward_handle E_AssignPortToInterface [] [W32 interface_num, W32 slot_num, W32 flags] s handle"

definition fpgaAssignToInterface ::
  "'p lib \<Rightarrow> ptr \<Rightarrow> ptr \<Rightarrow> u32 \<Rightarrow> u32 \<Rightarrow> (fpga_result \<times> arg list \<times> 'p lib) option" where
  "fpgaAssignToInterface s fpga accelerator host_interface flags = do {
     wrapped_handle \<leftarrow> opae_validate_wrapped_handle s fpga;
     wrapped_token \<leftarrow> opae_validate_wrapped_token s accelerator;
     if wrapped_handle = NULL \<or> wrapped_token = NULL then Some (FPGA_INVALID_PARAM, [], s)
     else do {
       h \<leftarrow> get_handle s wrapped_handle;
       w \<leftarrow> get_tok s wrapped_token;
       call_entry (wh_adapter h) E_AssignToInterface
         [Ptr (wh_opae_handle h), Ptr (wt_opae_token w), W32 host_interface, W32 flags] s
     }
   }"

definition fpgaReleaseFromInterface ::
  "'p lib \<Rightarrow> ptr \<Rightarrow> ptr \<Rightarrow> (fpga_result \<times> arg list \<times> 'p lib) option" where
  "fpgaReleaseFromInterface s fpga accelerator = do {
     wrapped_handle \<leftarrow> opae_validate_wrapped_handle s fpga;
     wrapped_token \<leftarrow> opae_validate_wrapped_token s accelerator;
     if wrapped_handle = NULL \<or> wrapped_token = NULL then Some (FPGA_INVALID_PARAM, [], s)
     else do {
       h \<leftarrow> get_handle s wrapped_handle;
       w \<leftarrow> get_tok s wrapped_token;
       call_entry (wh_adapter h) E_ReleaseFromInterface
         [Ptr (wh_opae_handle h), Ptr (wt_opae_token w)] s
     }
   }"

definition fpgaReconfigureSlot ::
  "'p lib \<Rightarrow> ptr \<Rightarrow> u32 \<Rightarrow> u8 list option \<Rightarrow> u64 \<Rightarrow> u32 \<Rightarrow>
   (fpga_result \<times> arg list \<times> 'p lib) option" where
  "fpgaReconfigureSlot s fpga slot bitstream bitstream_len flags =
     forward_handle E_ReconfigureSlot [bitstream \<noteq> None]
       [W32 slot, Bytes (the bitstream), W64 bitstream_len, W32 flags] s fpga"

definition fpgaObjectRead ::
  "'p lib \<Rightarrow> ptr \<Rightarrow> ptr \<Rightarrow> u64 \<Rightarrow> u64 \<Rightarrow> u32 \<Rightarrow> (fpga_result \<times> arg list \<times> 'p lib) option" where
  "fpgaObjectRead s obj buffer offset len flags =
     forward_object E_ObjectRead [buffer \<noteq> NULL] [Ptr buffer, W64 offset, W64 len, W32 flags] s obj"

definition fpgaObjectGetSize ::
  "'p lib \<Rightarrow> ptr \<Rightarrow> ptr \<Rightarrow> u32 \<Rightarrow> (fpga_result \<times> arg list \<times> 'p lib) option" where
  "fpgaObjectGetSize s obj value flags =
     forward_object E_ObjectGetSize [value \<noteq> NULL] [Ptr value, W32 flags] s obj"

definition fpgaObjectGetType ::
  "'p lib \<Rightarrow> ptr \<Rightarrow> ptr \<Rightarrow> (fpga_result \<times> arg list \<times> 'p lib) option" where
  "fpgaObjectGetType s obj type =
     forward_object E_ObjectGetType [type \<noteq> NULL] [Ptr type] s obj"

definition fpgaObjectRead64 ::
  "'p lib \<Rightarrow> ptr \<Rightarrow> ptr \<Rightarrow> u32 \<Rightarrow> (fpga_result \<times> arg list \<times> 'p lib) option" where
  "fpgaObjectRead64 s obj value flags =
     forward_object E_ObjectRead64 [value \<noteq> NULL] [Ptr value, W32 flags] s obj"

definition fpgaObjectWrite64 ::
  "'p lib \<Rightarrow> ptr \<Rightarrow> u64 \<Rightarrow> u32 \<Rightarrow> (fpga_result \<times> arg list \<times> 'p lib) option" where
  "fpgaObjectWrite64 s obj value flags =
     forward_object E_ObjectWrite64 [] [W64 value, W32 flags] s obj"

definition fpgaSetUserClock ::
  "'p lib \<Rightarrow> ptr \<Rightarrow> u64 \<Rightarrow> u64 \<Rightarrow> u32 \<Rightarrow> (fpga_result \<times> arg list \<times> 'p lib) option" where
  "fpgaSetUserClock s handle high_clk low_clk flags =
     forward_handle E_SetUserClock [] [W64 high_clk, W64 low_clk, W32 flags] s handle"

definition fpgaGetUserClock ::
  "'p lib \<Rightarrow> ptr \<Rightarrow> ptr \<Rightarrow> ptr \<Rightarrow> u32 \<Rightarrow> (fpga_result \<times> arg list \<times> 'p lib) option" where
  "fpgaGetUserClock s handle high_clk low_clk flags =
     forward_handle E_GetUserClock [low_clk \<noteq> NULL, high_clk \<noteq> NULL] [Ptr high_clk, Ptr low_clk, W32 flags] s handle"

definition fpgaGetNumMetrics ::
  "'p lib \<Rightarrow> ptr \<Rightarrow> ptr \<Rightarrow> (fpga_result \<times> arg list \<times> 'p lib) option" where
  "fpgaGetNumMetrics s handle num_metrics =
     forward_handle E_GetNumMetrics [num_metrics \<noteq> NULL] [Ptr num_metrics] s handle"

definition fpgaGetMetricsInfo ::
  "'p lib \<Rightarrow> ptr \<Rightarrow> ptr \<Rightarrow> ptr \<Rightarrow> (fpga_result \<times> arg list \<times> 'p lib) option" where
  "fpgaGetMetricsInfo s handle metric_info num_metrics =
     forward_handle E_GetMetricsInfo [metric_info \<noteq> NULL, num_metrics \<noteq> NULL] [Ptr metric_info, Ptr num_metrics] s handle"

text \<open>
  The check of \<^verbatim>\<open>num_metric_indexes\<close> is a check that it is not zero; \<^verbatim>\<open>metric_num\<close> is not checked.
\<close>

definition fpgaGetMetricsByIndex ::
  "'p lib \<Rightarrow> ptr \<Rightarrow> ptr \<Rightarrow> u64 \<Rightarrow> ptr \<Rightarrow> (fpga_result \<times> arg list \<times> 'p lib) option" where
  "fpgaGetMetricsByIndex s handle metric_num num_metric_indexes metrics =
     forward_handle E_GetMetricsByIndex [num_metric_indexes \<noteq> 0, metrics \<noteq> NULL] [Ptr metric_num, W64 num_metric_indexes, Ptr metrics] s handle"

definition fpgaGetMetricsByName ::
  "'p lib \<Rightarrow> ptr \<Rightarrow> string list option \<Rightarrow> u64 \<Rightarrow> ptr \<Rightarrow> (fpga_result \<times> arg list \<times> 'p lib) option"
where
  "fpgaGetMetricsByName s handle metrics_names num_metric_names metrics =
     forward_handle E_GetMetricsByName [metrics_names \<noteq> None, metrics \<noteq> NULL]
       [Strs (the metrics_names), W64 num_metric_names, Ptr metrics] s handle"

definition fpgaGetMetricsThresholdInfo ::
  "'p lib \<Rightarrow> ptr \<Rightarrow> ptr \<Rightarrow> ptr \<Rightarrow> (fpga_result \<times> arg list \<times> 'p lib) option" where
  "fpgaGetMetricsThresholdInfo s handle metric_thresholds num_thresholds =
     forward_handle E_GetMetricsThresholdInfo [num_thresholds \<noteq> NULL] [Ptr metric_thresholds, Ptr num_thresholds] s handle"

subsection \<open>Calls that need no plugin\<close>

definition fpgaGetNumUmsg :: "'p lib \<Rightarrow> ptr \<Rightarrow> ptr \<Rightarrow> fpga_result \<times> 'p lib" where
  "fpgaGetNumUmsg s handle value = (FPGA_NOT_SUPPORTED, s)"

definition fpgaSetUmsgAttributes :: "'p lib \<Rightarrow> ptr \<Rightarrow> u64 \<Rightarrow> fpga_result \<times> 'p lib" where
  "fpgaSetUmsgAttributes s handle value = (FPGA_NOT_SUPPORTED, s)"

definition fpgaTriggerUmsg :: "'p lib \<Rightarrow> ptr \<Rightarrow> u64 \<Rightarrow> fpga_result \<times> 'p lib" where
  "fpgaTriggerUmsg s handle value = (FPGA_NOT_SUPPORTED, s)"

definition fpgaGetUmsgPtr :: "'p lib \<Rightarrow> ptr \<Rightarrow> ptr \<Rightarrow> fpga_result \<times> 'p lib" where
  "fpgaGetUmsgPtr s handle value = (FPGA_NOT_SUPPORTED, s)"

text \<open>
  The version and the hash of the commit are macros of the build: \<open>ver\<close>, \<open>version_string\<close>,
  \<open>commit_hash\<close>, \<open>dirty\<close>. \<open>len\<close> is the size of the caller's buffer, \<open>buf\<close> whether it is non-NULL; the
  result is the C string stored, without its terminator.
\<close>

definition fpgaGetOPAECVersion :: "fpga_version \<Rightarrow> bool \<Rightarrow> fpga_result \<times> fpga_version option" where
  "fpgaGetOPAECVersion ver version =
     (if \<not> version then (FPGA_INVALID_PARAM, None) else (FPGA_OK, Some ver))"

definition snprintf_s :: "nat \<Rightarrow> string \<Rightarrow> string" where
  "snprintf_s len str = take (len - 1) str"

definition fpgaGetOPAECVersionString ::
  "string \<Rightarrow> bool \<Rightarrow> nat \<Rightarrow> fpga_result \<times> string option" where
  "fpgaGetOPAECVersionString version_string buf len =
     (if \<not> buf then (FPGA_INVALID_PARAM, None)
      else if len \<le> length version_string + 1 then (FPGA_INVALID_PARAM, None)
      else (FPGA_OK, Some (snprintf_s len version_string)))"

definition fpgaGetOPAECBuildString ::
  "string \<Rightarrow> bool \<Rightarrow> bool \<Rightarrow> nat \<Rightarrow> fpga_result \<times> string option" where
  "fpgaGetOPAECBuildString commit_hash dirty buf len =
     (if \<not> buf then (FPGA_INVALID_PARAM, None)
      else if len = 0 then (FPGA_INVALID_PARAM, None)
      else (FPGA_OK, Some (snprintf_s len (commit_hash @ (if dirty then ''*'' else [])))))"

definition fpgaErrStr :: "fpga_result \<Rightarrow> string" where
  "fpgaErrStr e = (case e of
     FPGA_OK \<Rightarrow> ''success''
   | FPGA_INVALID_PARAM \<Rightarrow> ''invalid parameter''
   | FPGA_BUSY \<Rightarrow> ''resource busy''
   | FPGA_EXCEPTION \<Rightarrow> ''exception''
   | FPGA_NOT_FOUND \<Rightarrow> ''not found''
   | FPGA_NO_MEMORY \<Rightarrow> ''no memory''
   | FPGA_NOT_SUPPORTED \<Rightarrow> ''not supported''
   | FPGA_NO_DRIVER \<Rightarrow> ''no driver available''
   | FPGA_NO_DAEMON \<Rightarrow> ''no fpga daemon running''
   | FPGA_NO_ACCESS \<Rightarrow> ''insufficient privileges''
   | FPGA_RECONF_ERROR \<Rightarrow> ''reconfiguration error'')"

definition fpgaInitialize ::
  "('p, 'j) env \<Rightarrow> string option \<Rightarrow> 'p mgr \<Rightarrow> (fpga_result \<times> 'p mgr) option" where
  "fpgaInitialize e config_file m =
     map_option (\<lambda>(n, m). (if n \<noteq> 0 then FPGA_EXCEPTION else FPGA_OK, m))
       (opae_plugin_mgr_initialize e config_file m)"

definition fpgaFinalize :: "('p, 'j) env \<Rightarrow> 'p mgr \<Rightarrow> (fpga_result \<times> 'p mgr) option" where
  "fpgaFinalize e m =
     map_option (\<lambda>(n, m). (if n \<noteq> 0 then FPGA_EXCEPTION else FPGA_OK, m))
       (opae_plugin_mgr_finalize_all e m)"

subsection \<open>Opening and closing\<close>

definition out_ptr :: "arg list \<Rightarrow> ptr" where
  "out_ptr out = (case out of Ptr p # _ \<Rightarrow> p | _ \<Rightarrow> NULL)"

definition fpgaOpen ::
  "'p lib \<Rightarrow> ptr \<Rightarrow> ptr \<Rightarrow> u32 \<Rightarrow> (fpga_result \<times> ptr option \<times> 'p lib) option" where
  "fpgaOpen s token handle flags = do {
     wrapped_token \<leftarrow> opae_validate_wrapped_token s token;
     if wrapped_token = NULL \<or> handle = NULL then Some (FPGA_INVALID_PARAM, None, s)
     else do {
       w \<leftarrow> get_tok s wrapped_token;
       op \<leftarrow> adapter_fn s (wt_adapter w) E_Open;
       cl \<leftarrow> adapter_fn s (wt_adapter w) E_Close;
       case (op, cl) of
         (Some f, Some g) \<Rightarrow>
           (case call_plugin f [Ptr (wt_opae_token w), W32 flags] s of ((res, out), s) \<Rightarrow>
              if res \<noteq> FPGA_OK then Some (res, None, s)
              else do {
                (wrapped_handle, s) \<leftarrow> opae_allocate_wrapped_handle s wrapped_token (out_ptr out)
                                       (wt_adapter w);
                if wrapped_handle = NULL
                then (case call_plugin g [Ptr (out_ptr out)] s of (_, s) \<Rightarrow>
                        Some (FPGA_NO_MEMORY, Some NULL, s))
                else Some (FPGA_OK, Some wrapped_handle, s)
              })
       | _ \<Rightarrow> Some (FPGA_NOT_SUPPORTED, None, s)
     }
   }"

definition fpgaClose :: "'p lib \<Rightarrow> ptr \<Rightarrow> (fpga_result \<times> 'p lib) option" where
  "fpgaClose s handle = do {
     wrapped_handle \<leftarrow> opae_validate_wrapped_handle s handle;
     if wrapped_handle = NULL then Some (FPGA_INVALID_PARAM, s)
     else do {
       h \<leftarrow> get_handle s wrapped_handle;
       fn \<leftarrow> adapter_fn s (wh_adapter h) E_Close;
       case fn of
         None \<Rightarrow> Some (FPGA_NOT_SUPPORTED, s)
       | Some f \<Rightarrow> (case call_plugin f [Ptr (wh_opae_handle h)] s of ((res, _), s) \<Rightarrow> do {
             s \<leftarrow> opae_destroy_wrapped_handle s wrapped_handle;
             Some (res, s)
           })
     }
   }"

subsection \<open>Tokens\<close>

definition fpgaCloneToken ::
  "'p lib \<Rightarrow> ptr \<Rightarrow> ptr \<Rightarrow> (fpga_result \<times> ptr option \<times> 'p lib) option" where
  "fpgaCloneToken s src dst = do {
     wrapped_src_token \<leftarrow> opae_validate_wrapped_token s src;
     if wrapped_src_token = NULL \<or> dst = NULL then Some (FPGA_INVALID_PARAM, None, s)
     else do {
       w \<leftarrow> get_tok s wrapped_src_token;
       cl \<leftarrow> adapter_fn s (wt_adapter w) E_CloneToken;
       de \<leftarrow> adapter_fn s (wt_adapter w) E_DestroyToken;
       case (cl, de) of
         (Some f, Some g) \<Rightarrow>
           (case call_plugin f [Ptr (wt_opae_token w)] s of ((res, out), s) \<Rightarrow>
              if res \<noteq> FPGA_OK then Some (res, None, s)
              else do {
                (wrapped_dst_token, s) \<leftarrow> opae_allocate_wrapped_token s (out_ptr out) (wt_adapter w);
                if wrapped_dst_token = NULL
                then (case call_plugin g [Ptr (out_ptr out)] s of (_, s) \<Rightarrow>
                        Some (FPGA_NO_MEMORY, Some NULL, s))
                else Some (FPGA_OK, Some wrapped_dst_token, s)
              })
       | _ \<Rightarrow> Some (FPGA_NOT_SUPPORTED, None, s)
     }
   }"

text \<open>\<^verbatim>\<open>fpgaDestroyToken\<close> takes the address of the caller's token, and leaves the token there.\<close>

definition fpgaDestroyToken :: "'p lib \<Rightarrow> ptr option \<Rightarrow> (fpga_result \<times> 'p lib) option" where
  "fpgaDestroyToken s token =
     (case token of
        None \<Rightarrow> Some (FPGA_INVALID_PARAM, s)
      | Some t \<Rightarrow> do {
          wrapped_token \<leftarrow> opae_validate_wrapped_token s t;
          if wrapped_token \<noteq> NULL then opae_destroy_wrapped_token s wrapped_token
          else Some (FPGA_INVALID_PARAM, s)
        })"

subsection \<open>Properties of a token or a handle\<close>

text \<open>
  A plugin's \<^verbatim>\<open>fpgaUpdateProperties\<close> sets the fields of an object through the functions of
  \<^verbatim>\<open>props.c\<close>; its reply holds the new contents, of which lock and magic stay. A plugin's
  \<^verbatim>\<open>fpgaGetProperties\<close> creates an object; its reply holds the contents. Replying FPGA_OK without an
  object leaves the caller's pointer uninitialized, which is undefined.
\<close>

definition plugin_update ::
  "(arg list \<Rightarrow> 'p \<Rightarrow> reply \<times> 'p) \<Rightarrow> ptr \<Rightarrow> ptr \<Rightarrow> 'p lib \<Rightarrow> (fpga_result \<times> 'p lib) option" where
  "plugin_update f opae_token props s = do {
     p \<leftarrow> get_props s props;
     case call_plugin f [Ptr opae_token, Props p] s of ((res, out), s) \<Rightarrow>
       (case out of
          Props q # _ \<Rightarrow>
            Some (res, put_obj props (OProps (q\<lparr>pr_lock := pr_lock p, pr_magic := pr_magic p\<rparr>)) s)
        | _ \<Rightarrow> Some (res, s))
   }"

definition plugin_get ::
  "(arg list \<Rightarrow> 'p \<Rightarrow> reply \<times> 'p) \<Rightarrow> ptr \<Rightarrow> 'p lib \<Rightarrow> (fpga_result \<times> ptr \<times> 'p lib) option" where
  "plugin_get f opae_ptr s =
     (case call_plugin f [Ptr opae_ptr] s of ((res, out), s) \<Rightarrow>
        if res \<noteq> FPGA_OK then Some (res, NULL, s)
        else case out of
          Props q # _ \<Rightarrow>
            Some (res, brk s, (put_obj (brk s)
              (OProps (q\<lparr>pr_lock := 0, pr_magic := FPGA_PROPERTY_MAGIC\<rparr>)) s)\<lparr>brk := Suc (brk s)\<rparr>)
        | _ \<Rightarrow> None)"

text \<open>Segment, bus, device and object type, when all four are set.\<close>

definition pci_address ::
  "'p lib \<Rightarrow> ptr \<Rightarrow> (((u16 \<times> u8 \<times> u8) \<times> u32) option \<times> 'p lib) option" where
  "pci_address s props = do {
     (r, segment, s) \<leftarrow> fpgaPropertiesGetSegment s props True;
     if r \<noteq> FPGA_OK then Some (None, s) else do {
     (r, bus, s) \<leftarrow> fpgaPropertiesGetBus s props True;
     if r \<noteq> FPGA_OK then Some (None, s) else do {
     (r, device, s) \<leftarrow> fpgaPropertiesGetDevice s props True;
     if r \<noteq> FPGA_OK then Some (None, s) else do {
     (r, ty, s) \<leftarrow> fpgaPropertiesGetObjectType s props True;
     if r \<noteq> FPGA_OK then Some (None, s)
     else Some (Some ((the segment, the bus, the device), the ty), s) }}}
   }"

text \<open>The loop over the tokens in use, for a parent of the device at \<open>child\<close>.\<close>

fun find_parent ::
  "(u16 \<times> u8 \<times> u8) \<Rightarrow> ptr \<Rightarrow> ptr list \<Rightarrow> 'p lib \<Rightarrow> (ptr \<times> 'p lib) option" where
  "find_parent child parent_props [] s = Some (NULL, s)"
| "find_parent child parent_props (p # ps) s = do {
     w \<leftarrow> get_tok s p;
     fn \<leftarrow> adapter_fn s (wt_adapter w) E_UpdateProperties;
     case fn of
       None \<Rightarrow> find_parent child parent_props ps s
     | Some f \<Rightarrow> do {
         (res, s) \<leftarrow> plugin_update f (wt_opae_token w) parent_props s;
         if res \<noteq> FPGA_OK then Some (NULL, s)
         else do {
           (a, s) \<leftarrow> pci_address s parent_props;
           case a of
             None \<Rightarrow> find_parent child parent_props ps s
           | Some (addr, ty) \<Rightarrow>
               if ty = FPGA_ACCELERATOR then find_parent child parent_props ps s
               else if addr = child then do {
                 s \<leftarrow> opae_upref_wrapped_token s p;
                 Some (p, s)
               } else find_parent child parent_props ps s
         }
       }
   }"

definition opae_get_parent_token :: "bool \<Rightarrow> 'p lib \<Rightarrow> ptr \<Rightarrow> (ptr \<times> 'p lib) option" where
  "opae_get_parent_token mutex_ok s child = do {
     w \<leftarrow> get_tok s child;
     fn \<leftarrow> adapter_fn s (wt_adapter w) E_UpdateProperties;
     case fn of
       None \<Rightarrow> Some (NULL, s)
     | Some f \<Rightarrow>
         (case opae_properties_create mutex_ok s of (child_props, s) \<Rightarrow>
           if child_props = NULL then Some (NULL, s)
           else case opae_properties_create mutex_ok s of (parent_props, s) \<Rightarrow>
             if parent_props = NULL then do {
               (_, _, s) \<leftarrow> fpgaDestroyProperties s (Some child_props);
               Some (NULL, s)
             } else do {
               (res, s) \<leftarrow> plugin_update f (wt_opae_token w) child_props s;
               (parent, s) \<leftarrow>
                 (if res \<noteq> FPGA_OK then Some (NULL, s)
                  else do {
                    (a, s) \<leftarrow> pci_address s child_props;
                    case a of
                      None \<Rightarrow> Some (NULL, s)
                    | Some (addr, ty) \<Rightarrow>
                        if ty = FPGA_DEVICE then Some (NULL, s)
                        else find_parent addr parent_props (tok_list s) s
                  });
               (_, _, s) \<leftarrow> fpgaDestroyProperties s (Some parent_props);
               (_, _, s) \<leftarrow> fpgaDestroyProperties s (Some child_props);
               Some (parent, s)
             })
   }"

text \<open>Store the wrapped parent, when there is one, in the locked object at \<open>p\<close>, and unlock it.\<close>

definition set_wrapped_parent :: "ptr \<Rightarrow> ptr \<Rightarrow> 'p lib \<Rightarrow> 'p lib option" where
  "set_wrapped_parent p wrapped_parent s = do {
     w \<leftarrow> get_props s p;
     let s = (if wrapped_parent \<noteq> NULL
              then put_obj p (OProps ((SET_FIELD_VALID FPGA_PROPERTY_PARENT w)
                                        \<lparr>pr_parent := wrapped_parent\<rparr>)) s
              else s);
     unlock_properties p s
   }"

definition fpgaGetPropertiesFromHandle ::
  "bool \<Rightarrow> 'p lib \<Rightarrow> ptr \<Rightarrow> ptr \<Rightarrow> (fpga_result \<times> ptr option \<times> 'p lib) option" where
  "fpgaGetPropertiesFromHandle mutex_ok s handle prop = do {
     wrapped_handle \<leftarrow> opae_validate_wrapped_handle s handle;
     if wrapped_handle = NULL \<or> prop = NULL then Some (FPGA_INVALID_PARAM, None, s)
     else do {
       h \<leftarrow> get_handle s wrapped_handle;
       fn \<leftarrow> adapter_fn s (wh_adapter h) E_GetPropertiesFromHandle;
       case fn of
         None \<Rightarrow> Some (FPGA_NOT_SUPPORTED, None, s)
       | Some f \<Rightarrow> do {
           (res, pr, s) \<leftarrow> plugin_get f (wh_opae_handle h) s;
           if res \<noteq> FPGA_OK then Some (res, None, s)
           else do {
             (p, s) \<leftarrow> opae_validate_and_lock_properties s pr;
             if p = NULL then Some (FPGA_INVALID_PARAM, Some pr, s)
             else do {
               (wrapped_parent, s) \<leftarrow> opae_get_parent_token mutex_ok s (wh_token h);
               s \<leftarrow> set_wrapped_parent p wrapped_parent s;
               Some (res, Some pr, s)
             }
           }
         }
     }
   }"

definition fpgaGetProperties ::
  "bool \<Rightarrow> 'p lib \<Rightarrow> ptr \<Rightarrow> ptr \<Rightarrow> (fpga_result \<times> ptr option \<times> 'p lib) option" where
  "fpgaGetProperties mutex_ok s token prop = do {
     wrapped_token \<leftarrow> opae_validate_wrapped_token s token;
     if prop = NULL then Some (FPGA_INVALID_PARAM, None, s)
     else if token = NULL then
       (case opae_properties_create mutex_ok s of (pr, s) \<Rightarrow>
          if pr = NULL then Some (FPGA_NO_MEMORY, None, s) else Some (FPGA_OK, Some pr, s))
     else if wrapped_token = NULL then Some (FPGA_INVALID_PARAM, None, s)
     else do {
       w \<leftarrow> get_tok s wrapped_token;
       fn \<leftarrow> adapter_fn s (wt_adapter w) E_GetProperties;
       case fn of
         None \<Rightarrow> Some (FPGA_NOT_SUPPORTED, None, s)
       | Some f \<Rightarrow> do {
           (res, pr, s) \<leftarrow> plugin_get f (wt_opae_token w) s;
           if res \<noteq> FPGA_OK then Some (res, None, s)
           else do {
             (p, s) \<leftarrow> opae_validate_and_lock_properties s pr;
             if p = NULL then Some (FPGA_INVALID_PARAM, Some pr, s)
             else do {
               (wrapped_parent, s) \<leftarrow> opae_get_parent_token mutex_ok s wrapped_token;
               s \<leftarrow> set_wrapped_parent p wrapped_parent s;
               Some (res, Some pr, s)
             }
           }
         }
     }
   }"

definition fpgaUpdateProperties ::
  "bool \<Rightarrow> 'p lib \<Rightarrow> ptr \<Rightarrow> ptr \<Rightarrow> (fpga_result \<times> 'p lib) option" where
  "fpgaUpdateProperties mutex_ok s token prop = do {
     wrapped_token \<leftarrow> opae_validate_wrapped_token s token;
     if wrapped_token = NULL then Some (FPGA_INVALID_PARAM, s)
     else do {
       w \<leftarrow> get_tok s wrapped_token;
       fn \<leftarrow> adapter_fn s (wt_adapter w) E_UpdateProperties;
       case fn of
         None \<Rightarrow> Some (FPGA_NOT_SUPPORTED, s)
       | Some f \<Rightarrow> do {
           (p, s) \<leftarrow> opae_validate_and_lock_properties s prop;
           if p = NULL then Some (FPGA_INVALID_PARAM, s)
           else do {
             q \<leftarrow> get_props s p;
             s \<leftarrow> (if FIELD_VALID q FPGA_PROPERTY_PARENT then do {
                     wrapped_parent \<leftarrow> opae_validate_wrapped_token s (pr_parent q);
                     s \<leftarrow> (if wrapped_parent \<noteq> NULL
                           then map_option snd (opae_destroy_wrapped_token s wrapped_parent)
                           else Some s);
                     Some (put_obj p (OProps ((CLEAR_FIELD_VALID FPGA_PROPERTY_PARENT q)
                                                \<lparr>pr_parent := NULL\<rparr>)) s)
                   } else Some s);
             w \<leftarrow> get_tok s wrapped_token;
             (res, s) \<leftarrow> plugin_update f (wt_opae_token w) p s;
             if res \<noteq> FPGA_OK then do {
               s \<leftarrow> unlock_properties p s;
               Some (res, s)
             } else do {
               (wrapped_parent, s) \<leftarrow> opae_get_parent_token mutex_ok s wrapped_token;
               s \<leftarrow> set_wrapped_parent p wrapped_parent s;
               Some (res, s)
             }
           }
         }
     }
   }"

subsection \<open>Event handles\<close>

text \<open>
  An event handle is created empty; the first registration asks the plugin of the device for its
  own handle and sets the CREATED flag. \<open>with_event\<close> runs a body under the handle's lock, which
  every path releases.
\<close>

definition with_event ::
  "ptr \<Rightarrow> (wrapped_event_handle \<Rightarrow> 'p lib \<Rightarrow> (fpga_result \<times> arg list \<times> 'p lib) option) \<Rightarrow> 'p lib \<Rightarrow>
   (fpga_result \<times> arg list \<times> 'p lib) option" where
  "with_event we body s = do {
     e \<leftarrow> get_event s we;
     let e = e\<lparr>we_lock := Suc (we_lock e)\<rparr>;
     (res, out, s) \<leftarrow> body e (put_obj we (OEvent e) s);
     e \<leftarrow> get_event s we;
     Some (res, out, put_obj we (OEvent (e\<lparr>we_lock := we_lock e - 1\<rparr>)) s)
   }"

definition event_created :: "wrapped_event_handle \<Rightarrow> bool" where
  "event_created e \<longleftrightarrow> we_flags e AND OPAE_WRAPPED_EVENT_HANDLE_CREATED \<noteq> 0"

definition fpgaCreateEventHandle ::
  "bool \<Rightarrow> 'p lib \<Rightarrow> ptr \<Rightarrow> fpga_result \<times> ptr option \<times> 'p lib" where
  "fpgaCreateEventHandle mutex_ok s event_handle =
     (if event_handle = NULL then (FPGA_INVALID_PARAM, None, s)
      else case opae_allocate_wrapped_event_handle mutex_ok s NULL NULL of (we, s) \<Rightarrow>
        if we = NULL then (FPGA_NO_MEMORY, None, s) else (FPGA_OK, Some we, s))"

definition fpgaDestroyEventHandle :: "'p lib \<Rightarrow> ptr option \<Rightarrow> (fpga_result \<times> 'p lib) option" where
  "fpgaDestroyEventHandle s event_handle =
     (case event_handle of
        None \<Rightarrow> Some (FPGA_INVALID_PARAM, s)
      | Some eh \<Rightarrow> do {
          we \<leftarrow> opae_validate_wrapped_event_handle s eh;
          if we = NULL then Some (FPGA_INVALID_PARAM, s)
          else do {
            e \<leftarrow> get_event s we;
            if event_created e then do {
              fn \<leftarrow> adapter_fn s (we_adapter e) E_DestroyEventHandle;
              case fn of
                None \<Rightarrow> Some (FPGA_NOT_SUPPORTED, s)
              | Some f \<Rightarrow>
                  if we_opae_event_handle e = NULL then Some (FPGA_INVALID_PARAM, s)
                  else do {
                    (res, _, s) \<leftarrow> with_event we (\<lambda>e s.
                      case call_plugin f [Ptr (we_opae_event_handle e)] s of ((res, out), s) \<Rightarrow>
                        Some (res, out, s)) s;
                    s \<leftarrow> opae_destroy_wrapped_event_handle s we;
                    Some (res, s)
                  }
            } else do {
              s \<leftarrow> opae_destroy_wrapped_event_handle s we;
              Some (FPGA_OK, s)
            }
          }
        })"

definition fpgaGetOSObjectFromEventHandle ::
  "'p lib \<Rightarrow> ptr \<Rightarrow> ptr \<Rightarrow> (fpga_result \<times> arg list \<times> 'p lib) option" where
  "fpgaGetOSObjectFromEventHandle s eh fd = do {
     we \<leftarrow> opae_validate_wrapped_event_handle s eh;
     if fd = NULL \<or> we = NULL then Some (FPGA_INVALID_PARAM, [], s)
     else with_event we (\<lambda>e s.
       if \<not> event_created e then Some (FPGA_INVALID_PARAM, [], s)
       else if we_opae_event_handle e = NULL then Some (FPGA_INVALID_PARAM, [], s)
       else call_entry (we_adapter e) E_GetOSObjectFromEventHandle
              [Ptr (we_opae_event_handle e), Ptr fd] s) s
   }"

text \<open>
  The first half of a registration: create the plugin's event handle when there is none. The
  result is the code to return at once, or None to go on.
\<close>

definition create_event ::
  "wrapped_handle \<Rightarrow> ptr \<Rightarrow> wrapped_event_handle \<Rightarrow> 'p lib \<Rightarrow>
   (fpga_result option \<times> wrapped_event_handle \<times> 'p lib) option" where
  "create_event h we e s =
     (if event_created e then Some (None, e, s)
      else do {
        fn \<leftarrow> adapter_fn s (wh_adapter h) E_CreateEventHandle;
        case fn of
          None \<Rightarrow> Some (Some FPGA_NOT_SUPPORTED, e, s)
        | Some f \<Rightarrow> (case call_plugin f [] s of ((res, out), s) \<Rightarrow>
            let e = (case out of Ptr p # _ \<Rightarrow> e\<lparr>we_opae_event_handle := p\<rparr> | _ \<Rightarrow> e) in
            if res \<noteq> FPGA_OK then Some (Some res, e, put_obj we (OEvent e) s)
            else let e = e\<lparr>we_adapter := wh_adapter h,
                           we_flags := we_flags e OR OPAE_WRAPPED_EVENT_HANDLE_CREATED\<rparr>
                 in Some (None, e, put_obj we (OEvent e) s))
      })"

definition fpgaRegisterEvent ::
  "'p lib \<Rightarrow> ptr \<Rightarrow> u32 \<Rightarrow> ptr \<Rightarrow> u32 \<Rightarrow> (fpga_result \<times> arg list \<times> 'p lib) option" where
  "fpgaRegisterEvent s handle event_type event_handle flags = do {
     wh \<leftarrow> opae_validate_wrapped_handle s handle;
     we \<leftarrow> opae_validate_wrapped_event_handle s event_handle;
     if wh = NULL \<or> we = NULL then Some (FPGA_INVALID_PARAM, [], s)
     else do {
       h \<leftarrow> get_handle s wh;
       with_event we (\<lambda>e s. do {
         (stop, e, s) \<leftarrow> create_event h we e s;
         case stop of
           Some res \<Rightarrow> Some (res, [], s)
         | None \<Rightarrow>
             if we_opae_event_handle e = NULL then Some (FPGA_INVALID_PARAM, [], s)
             else if we_adapter e = NULL then Some (FPGA_INVALID_PARAM, [], s)
             else call_entry (we_adapter e) E_RegisterEvent
                    [Ptr (wh_opae_handle h), W32 event_type, Ptr (we_opae_event_handle e), W32 flags] s
       }) s
     }
   }"

definition fpgaUnregisterEvent ::
  "'p lib \<Rightarrow> ptr \<Rightarrow> u32 \<Rightarrow> ptr \<Rightarrow> (fpga_result \<times> arg list \<times> 'p lib) option" where
  "fpgaUnregisterEvent s handle event_type event_handle = do {
     wh \<leftarrow> opae_validate_wrapped_handle s handle;
     we \<leftarrow> opae_validate_wrapped_event_handle s event_handle;
     if wh = NULL \<or> we = NULL then Some (FPGA_INVALID_PARAM, [], s)
     else do {
       h \<leftarrow> get_handle s wh;
       with_event we (\<lambda>e s.
         if \<not> event_created e then Some (FPGA_INVALID_PARAM, [], s)
         else if we_opae_event_handle e = NULL then Some (FPGA_INVALID_PARAM, [], s)
         else call_entry (we_adapter e) E_UnregisterEvent
                [Ptr (wh_opae_handle h), W32 event_type, Ptr (we_opae_event_handle e)] s) s
     }
   }"

subsection \<open>Objects\<close>

text \<open>
  The part the four lookups share: call the plugin through the given adapter and wrap what it
  returns; when that fails the plugin's object is destroyed again.
\<close>

definition get_wrapped_object ::
  "ptr \<Rightarrow> entry \<Rightarrow> arg list \<Rightarrow> 'p lib \<Rightarrow> (fpga_result \<times> ptr option \<times> 'p lib) option" where
  "get_wrapped_object adapter e args s = do {
     get \<leftarrow> adapter_fn s adapter e;
     de \<leftarrow> adapter_fn s adapter E_DestroyObject;
     case (get, de) of
       (Some f, Some g) \<Rightarrow>
         (case call_plugin f args s of ((res, out), s) \<Rightarrow>
            if res \<noteq> FPGA_OK then Some (res, None, s)
            else (case opae_allocate_wrapped_object s (out_ptr out) adapter of (wobj, s) \<Rightarrow>
              if wobj = NULL
              then (case call_plugin g [Ptr (out_ptr out)] s of (_, s) \<Rightarrow>
                      Some (FPGA_NO_MEMORY, Some NULL, s))
              else Some (FPGA_OK, Some wobj, s)))
     | _ \<Rightarrow> Some (FPGA_NOT_SUPPORTED, None, s)
   }"

definition fpgaTokenGetObject ::
  "'p lib \<Rightarrow> ptr \<Rightarrow> string option \<Rightarrow> ptr \<Rightarrow> u32 \<Rightarrow> (fpga_result \<times> ptr option \<times> 'p lib) option" where
  "fpgaTokenGetObject s token name object flags = do {
     wrapped_token \<leftarrow> opae_validate_wrapped_token s token;
     if wrapped_token = NULL \<or> name = None \<or> object = NULL then Some (FPGA_INVALID_PARAM, None, s)
     else do {
       w \<leftarrow> get_tok s wrapped_token;
       get_wrapped_object (wt_adapter w) E_TokenGetObject
         [Ptr (wt_opae_token w), Str (the name), W32 flags] s
     }
   }"

definition fpgaHandleGetObject ::
  "'p lib \<Rightarrow> ptr \<Rightarrow> string option \<Rightarrow> ptr \<Rightarrow> u32 \<Rightarrow> (fpga_result \<times> ptr option \<times> 'p lib) option" where
  "fpgaHandleGetObject s handle name object flags = do {
     wrapped_handle \<leftarrow> opae_validate_wrapped_handle s handle;
     if wrapped_handle = NULL \<or> name = None \<or> object = NULL then Some (FPGA_INVALID_PARAM, None, s)
     else do {
       h \<leftarrow> get_handle s wrapped_handle;
       get_wrapped_object (wh_adapter h) E_HandleGetObject
         [Ptr (wh_opae_handle h), Str (the name), W32 flags] s
     }
   }"

definition fpgaObjectGetObjectAt ::
  "'p lib \<Rightarrow> ptr \<Rightarrow> u64 \<Rightarrow> ptr \<Rightarrow> (fpga_result \<times> ptr option \<times> 'p lib) option" where
  "fpgaObjectGetObjectAt s parent index object = do {
     wrapped_object \<leftarrow> opae_validate_wrapped_object s parent;
     if wrapped_object = NULL \<or> object = NULL then Some (FPGA_INVALID_PARAM, None, s)
     else do {
       b \<leftarrow> get_obj s wrapped_object;
       get_wrapped_object (wo_adapter b) E_ObjectGetObjectAt [Ptr (wo_opae_object b), W64 index] s
     }
   }"

definition fpgaObjectGetObject ::
  "'p lib \<Rightarrow> ptr \<Rightarrow> string option \<Rightarrow> ptr \<Rightarrow> u32 \<Rightarrow> (fpga_result \<times> ptr option \<times> 'p lib) option" where
  "fpgaObjectGetObject s parent name object flags = do {
     wrapped_object \<leftarrow> opae_validate_wrapped_object s parent;
     if wrapped_object = NULL \<or> name = None \<or> object = NULL then Some (FPGA_INVALID_PARAM, None, s)
     else do {
       b \<leftarrow> get_obj s wrapped_object;
       get_wrapped_object (wo_adapter b) E_ObjectGetObject
         [Ptr (wo_opae_object b), Str (the name), W32 flags] s
     }
   }"

definition fpgaDestroyObject :: "'p lib \<Rightarrow> ptr option \<Rightarrow> (fpga_result \<times> 'p lib) option" where
  "fpgaDestroyObject s obj =
     (case obj of
        None \<Rightarrow> Some (FPGA_INVALID_PARAM, s)
      | Some ob \<Rightarrow> do {
          wrapped_object \<leftarrow> opae_validate_wrapped_object s ob;
          if wrapped_object = NULL then Some (FPGA_INVALID_PARAM, s)
          else do {
            b \<leftarrow> get_obj s wrapped_object;
            fn \<leftarrow> adapter_fn s (wo_adapter b) E_DestroyObject;
            case fn of
              None \<Rightarrow> Some (FPGA_NOT_SUPPORTED, s)
            | Some f \<Rightarrow> (case call_plugin f [Ptr (wo_opae_object b)] s of ((res, _), s) \<Rightarrow> do {
                  s \<leftarrow> opae_destroy_wrapped_object s wrapped_object;
                  Some (res, s)
                })
          }
        })"

subsection \<open>Enumeration\<close>

text \<open>
  \<open>ec_wrapped\<close> are the tokens stored in the caller's array so far, \<open>ec_array\<close> the array the plugins
  store theirs in (None when the caller only counts). A plugin replies with the number of its
  matches and the tokens it stored, from the start of that array; storing past the space it was
  given is undefined.
\<close>

record enum_ctx =
  ec_filters :: "fpga_properties list"
  ec_max :: u32
  ec_wrapped :: "ptr list"
  ec_array :: "ptr list option"
  ec_num_matches :: u32
  ec_errors :: u32

fun wrap_tokens ::
  "ptr \<Rightarrow> ptr list \<Rightarrow> enum_ctx \<Rightarrow> 'p lib \<Rightarrow> (bool \<times> enum_ctx \<times> 'p lib) option" where
  "wrap_tokens adapter [] ctx s = Some (True, ctx, s)"
| "wrap_tokens adapter (t # ts) ctx s = do {
     (wt, s) \<leftarrow> opae_allocate_wrapped_token s t adapter;
     if wt = NULL then Some (False, ctx\<lparr>ec_errors := ec_errors ctx + 1\<rparr>, s)
     else wrap_tokens adapter ts (ctx\<lparr>ec_wrapped := ec_wrapped ctx @ [wt]\<rparr>) s
   }"

definition enum_reply :: "arg list \<Rightarrow> u32 \<times> ptr list" where
  "enum_reply out =
     (case out of W32 n # Ptrs ts # _ \<Rightarrow> (n, ts) | W32 n # _ \<Rightarrow> (n, []) | _ \<Rightarrow> (0, []))"

definition opae_enumerate ::
  "ptr \<Rightarrow> enum_ctx \<Rightarrow> 'p lib \<Rightarrow> (int \<times> enum_ctx \<times> 'p lib) option" where
  "opae_enumerate adapter ctx s =
     (let space_remaining = ec_max ctx - of_nat (length (ec_wrapped ctx)) in
      if ec_array ctx \<noteq> None \<and> space_remaining = 0 then Some (OPAE_ENUM_STOP, ctx, s)
      else do {
        fn \<leftarrow> adapter_fn s adapter E_Enumerate;
        case fn of
          None \<Rightarrow> Some (OPAE_ENUM_CONTINUE, ctx, s)
        | Some f \<Rightarrow>
            (case call_plugin f (W32 space_remaining # map Props (ec_filters ctx)) s of ((res, out), s) \<Rightarrow>
              if res \<noteq> FPGA_OK
              then Some (OPAE_ENUM_CONTINUE, ctx\<lparr>ec_errors := ec_errors ctx + 1\<rparr>, s)
              else do {
                let (num_matches, toks) = enum_reply out;
                let ctx = ctx\<lparr>ec_num_matches := ec_num_matches ctx + num_matches\<rparr>;
                case ec_array ctx of
                  None \<Rightarrow> Some (OPAE_ENUM_CONTINUE, ctx, s)
                | Some arr \<Rightarrow>
                    if length toks > unat space_remaining then None
                    else do {
                      let arr = toks @ drop (length toks) arr;
                      let n = min (unat space_remaining) (unat num_matches);
                      (ok, ctx, s) \<leftarrow> wrap_tokens adapter (take n arr) (ctx\<lparr>ec_array := Some arr\<rparr>) s;
                      Some (if \<not> ok \<or> of_nat (length (ec_wrapped ctx)) = ec_max ctx
                            then OPAE_ENUM_STOP else OPAE_ENUM_CONTINUE, ctx, s)
                    }
              })
      })"

text \<open>
  The filters' wrapped parents are replaced by the plugins' tokens for the time of the
  enumeration. The result is FPGA_OK or the error that ends the loop, with the list of what to
  put back, the last filter first.
\<close>

fun unwrap_filters ::
  "ptr list \<Rightarrow> (ptr \<times> ptr) list \<Rightarrow> 'p lib \<Rightarrow> (fpga_result \<times> (ptr \<times> ptr) list \<times> 'p lib) option" where
  "unwrap_filters [] ptf_list s = Some (FPGA_OK, ptf_list, s)"
| "unwrap_filters (flt # fs) ptf_list s = do {
     (p, s) \<leftarrow> opae_validate_and_lock_properties s flt;
     if p = NULL then Some (FPGA_INVALID_PARAM, ptf_list, s)
     else do {
       q \<leftarrow> get_props s p;
       if FIELD_VALID q FPGA_PROPERTY_PARENT then do {
         wrapped_parent \<leftarrow> opae_validate_wrapped_token s (pr_parent q);
         if wrapped_parent = NULL then do {
           s \<leftarrow> unlock_properties p s;
           Some (FPGA_INVALID_PARAM, ptf_list, s)
         } else case malloc_ok s of (ok, s) \<Rightarrow>
           if \<not> ok then do {
             s \<leftarrow> unlock_properties p s;
             Some (FPGA_NO_MEMORY, ptf_list, s)
           } else do {
             w \<leftarrow> get_tok s wrapped_parent;
             s \<leftarrow> unlock_properties p (put_obj p (OProps (q\<lparr>pr_parent := wt_opae_token w\<rparr>)) s);
             unwrap_filters fs ((flt, wrapped_parent) # ptf_list) s
           }
       } else do {
         s \<leftarrow> unlock_properties p s;
         unwrap_filters fs ptf_list s
       }
     }
   }"

fun rewrap_filters :: "(ptr \<times> ptr) list \<Rightarrow> 'p lib \<Rightarrow> 'p lib option" where
  "rewrap_filters [] s = Some s"
| "rewrap_filters ((prop, wt) # ptf_list) s = do {
     (p, s) \<leftarrow> opae_validate_and_lock_properties s prop;
     if p = NULL then rewrap_filters ptf_list s
     else do {
       q \<leftarrow> get_props s p;
       s \<leftarrow> unlock_properties p (put_obj p (OProps (q\<lparr>pr_parent := wt\<rparr>)) s);
       rewrap_filters ptf_list s
     }
   }"

fun get_all_props :: "'p lib \<Rightarrow> ptr list \<Rightarrow> fpga_properties list option" where
  "get_all_props s [] = Some []"
| "get_all_props s (p # ps) = do { q \<leftarrow> get_props s p; qs \<leftarrow> get_all_props s ps; Some (q # qs) }"

text \<open>
  The result is the code, the number stored through \<^verbatim>\<open>num_matches\<close> (if anything was) and the tokens
  stored in the caller's array. \<open>tokens\<close>: the array is not NULL; \<open>num_filters\<close> is the length of
  \<open>filters\<close>.
\<close>

definition fpgaEnumerate ::
  "'p lib \<Rightarrow> ptr list option \<Rightarrow> u32 \<Rightarrow> bool \<Rightarrow> u32 \<Rightarrow> ptr \<Rightarrow>
   (fpga_result \<times> u32 option \<times> ptr list \<times> 'p lib) option" where
  "fpgaEnumerate s filters num_filters tokens max_tokens num_matches =
     (if num_matches = NULL then Some (FPGA_INVALID_PARAM, None, [], s)
      else if max_tokens > 0 \<and> \<not> tokens then Some (FPGA_INVALID_PARAM, None, [], s)
      else if num_filters > 0 \<and> filters = None then Some (FPGA_INVALID_PARAM, None, [], s)
      else if num_filters = 0 \<and> filters \<noteq> None then Some (FPGA_INVALID_PARAM, None, [], s)
      else case (if tokens then malloc_ok s else (True, s)) of (ok, s) \<Rightarrow>
        if \<not> ok then Some (FPGA_NO_MEMORY, Some 0, [], s)
        else do {
          let fs = (case filters of None \<Rightarrow> [] | Some l \<Rightarrow> take (unat num_filters) l);
          (res, ptf_list, s) \<leftarrow> unwrap_filters fs [] s;
          (res, n, toks, s) \<leftarrow>
            (if res \<noteq> FPGA_OK then Some (res, 0, [], s)
             else do {
               qs \<leftarrow> get_all_props s fs;
               (_, ctx, s) \<leftarrow> opae_plugin_mgr_for_each_adapter (Some opae_enumerate)
                 \<lparr>ec_filters = qs, ec_max = max_tokens, ec_wrapped = [],
                  ec_array = (if tokens then Some (replicate (unat max_tokens) NULL) else None),
                  ec_num_matches = 0, ec_errors = 0\<rparr> s;
               Some (if ec_errors ctx > 0 then FPGA_EXCEPTION else FPGA_OK, ec_num_matches ctx,
                     ec_wrapped ctx, s)
             });
          s \<leftarrow> rewrap_filters ptf_list s;
          Some (res, Some n, toks, s)
        })"

subsection \<open>Calls keep the objects in order\<close>

lemma fpgaOpen_ok:
  assumes inv: "lib_inv own s" and t: "t \<in> tok_dom (mem s)" "refs own (mem s) t + 1 < 2 ^ 32"
  shows "\<exists>r h s'. fpgaOpen s t out flags = Some (r, h, s') \<and> lib_inv own s' \<and>
    adapters s' = adapters s \<and>
    (if r = FPGA_OK
     then \<exists>p w. h = Some p \<and> mem s p = None \<and> mem s' p = Some (OHandle w) \<and> wh_token w = t \<and>
            (\<forall>q. q \<noteq> t \<longrightarrow> q \<noteq> p \<longrightarrow> mem s' q = mem s q)
     else mem s' = mem s)"
proof -
  obtain w where w: "mem s t = Some (OTok w)" using tok_domD [OF t(1)] by auto
  note tok = lib_inv_tok [OF inv w]
  obtain op where op: "adapter_fn s (wt_adapter w) E_Open = Some op" using adapter_fn_dom [OF tok(4)] ..
  obtain cl where cl: "adapter_fn s (wt_adapter w) E_Close = Some cl" using adapter_fn_dom [OF tok(4)] ..
  have v: "opae_validate_wrapped_token s t = Some t" by (rule validate_token_ok [OF inv t(1)]) simp
  show ?thesis
  proof (cases "out = NULL \<or> op = None \<or> cl = None")
    case True
    then show ?thesis using inv w tok(5)
      by (auto simp: fpgaOpen_def v op cl split: option.split)
  next
    case False
    then obtain f g where f: "op = Some f" "cl = Some g" by auto
    obtain res ou pl where c: "call_plugin f [Ptr (wt_opae_token w), W32 flags] s =
        ((res, ou), s\<lparr>plug := pl\<rparr>)" using call_plugin_eq [of f _ s] by (metis prod.collapse)
    show ?thesis
    proof (cases "res = FPGA_OK")
      case False
      then show ?thesis using inv w tok(5) \<open>\<not> (out = NULL \<or> op = None \<or> cl = None)\<close>
        by (simp add: fpgaOpen_def v op cl f c)
    next
      case True
      have i: "lib_inv own (s\<lparr>plug := pl\<rparr>)" using inv by simp
      obtain p s' where a: "opae_allocate_wrapped_handle (s\<lparr>plug := pl\<rparr>) t (out_ptr ou) (wt_adapter w) =
            Some (p, s')" "lib_inv own s'" "adapters s' = adapters s"
        and p: "p = NULL \<and> mem s' = mem s \<or>
          p \<noteq> NULL \<and> mem s p = None \<and> mem s' p = Some (OHandle \<lparr>wh_magic = OPAE_WRAPPED_HANDLE_MAGIC,
            wh_token = t, wh_opae_handle = out_ptr ou, wh_adapter = wt_adapter w\<rparr>) \<and>
          (\<forall>q. q \<noteq> t \<longrightarrow> q \<noteq> p \<longrightarrow> mem s' q = mem s q)"
        using alloc_handle_ok [OF i, of t "wt_adapter w" "out_ptr ou"] t tok(4) by auto
      obtain r2 pl2 where c2: "call_plugin g [Ptr (out_ptr ou)] s' = (r2, s'\<lparr>plug := pl2\<rparr>)"
        using call_plugin_eq by metis
      show ?thesis using p a w tok(5) True False
        by (auto simp: fpgaOpen_def v op cl f c c2)
    qed
  qed
qed

lemma fpgaClose_ok:
  assumes inv: "lib_inv own s" and m: "mem s h = Some (OHandle w)"
  shows "\<exists>r s'. fpgaClose s h = Some (r, s') \<and> lib_inv own s' \<and> adapters s' = adapters s \<and>
    (mem s' = mem s \<and> r = FPGA_NOT_SUPPORTED \<or>
     mem s' h = None \<and> (\<forall>q. q \<noteq> h \<longrightarrow> q \<noteq> wh_token w \<longrightarrow> mem s' q = mem s q))"
proof -
  note v = validate_ok(1) [OF inv m]
  have wf: "wh_adapter w \<in> dom (adapters s)" "h \<noteq> 0" using lib_inv_wf [OF inv m] by auto
  obtain cl where cl: "adapter_fn s (wh_adapter w) E_Close = Some cl" using adapter_fn_dom [OF wf(1)] ..
  show ?thesis
  proof (cases cl)
    case None
    then show ?thesis using inv m wf(2) by (simp add: fpgaClose_def v cl)
  next
    case (Some f)
    obtain res ou pl where c: "call_plugin f [Ptr (wh_opae_handle w)] s = ((res, ou), s\<lparr>plug := pl\<rparr>)"
      using call_plugin_eq [of f _ s] by (metis prod.collapse)
    obtain r s' where d: "opae_downref_wrapped_token (s\<lparr>plug := pl\<rparr>) (wh_token w) =
          Some (r, put_obj h (OHandle w) s')"
      and s': "mem s' h = None" "lib_inv own s'" "\<forall>q. q \<noteq> h \<longrightarrow> q \<noteq> wh_token w \<longrightarrow> mem s' q = mem s q"
        "adapters s' = adapters s"
      using free_holder [of own "s\<lparr>plug := pl\<rparr>" h "OHandle w" "wh_token w"] inv m by auto
    have "fpgaClose s h = Some (res, s')"
      using m wf(2) by (simp add: fpgaClose_def v cl Some c opae_destroy_wrapped_handle_def d
          free_obj_idem s')
    with s' show ?thesis by auto
  qed
qed

lemma fpgaCloneToken_ok:
  assumes inv: "lib_inv own s" and t: "t \<in> tok_dom (mem s)"
  shows "\<exists>r d s'. fpgaCloneToken s t out = Some (r, d, s') \<and> adapters s' = adapters s \<and>
    (if r = FPGA_OK
     then \<exists>p. d = Some p \<and> mem s p = None \<and> own p = 0 \<and> lib_inv (own(p := 1)) s' \<and>
            p \<in> tok_dom (mem s') \<and> (\<forall>q. q \<noteq> p \<longrightarrow> mem s' q = mem s q)
     else mem s' = mem s \<and> lib_inv own s')"
proof -
  obtain w where w: "mem s t = Some (OTok w)" using tok_domD [OF t] by auto
  note tok = lib_inv_tok [OF inv w]
  obtain op where op: "adapter_fn s (wt_adapter w) E_CloneToken = Some op"
    using adapter_fn_dom [OF tok(4)] ..
  obtain cl where cl: "adapter_fn s (wt_adapter w) E_DestroyToken = Some cl"
    using adapter_fn_dom [OF tok(4)] ..
  have v: "opae_validate_wrapped_token s t = Some t" by (rule validate_token_ok [OF inv t]) simp
  have new: "mem s (brk s) = None" using inv by (cases "mem s (brk s)") (auto simp: lib_inv_def)
  show ?thesis
  proof (cases "out = NULL \<or> op = None \<or> cl = None")
    case True
    then show ?thesis using inv w tok(5)
      by (auto simp: fpgaCloneToken_def v op cl split: option.split)
  next
    case False
    then obtain f g where f: "op = Some f" "cl = Some g" by auto
    obtain res ou pl where c: "call_plugin f [Ptr (wt_opae_token w)] s = ((res, ou), s\<lparr>plug := pl\<rparr>)"
      using call_plugin_eq [of f _ s] by (metis prod.collapse)
    show ?thesis
    proof (cases "res = FPGA_OK")
      case False
      then show ?thesis using inv w tok(5) \<open>\<not> (out = NULL \<or> op = None \<or> cl = None)\<close>
        by (simp add: fpgaCloneToken_def v op cl f c)
    next
      case True
      have i: "lib_inv own (s\<lparr>plug := pl\<rparr>)" using inv by simp
      obtain p s' where a: "opae_allocate_wrapped_token (s\<lparr>plug := pl\<rparr>) (out_ptr ou) (wt_adapter w) =
            Some (p, s')" "adapters s' = adapters s"
        and p: "p = 0 \<and> mem s' = mem s \<and> lib_inv own s' \<or>
          p = brk s \<and> p \<noteq> 0 \<and> own p = 0 \<and> lib_inv (own(p := 1)) s' \<and>
          (\<exists>w. mem s' = (mem s)(p \<mapsto> OTok w))"
        using alloc_token_ok [OF i, of "wt_adapter w" "out_ptr ou"] tok(4) by auto
      obtain r2 pl2 where c2: "call_plugin g [Ptr (out_ptr ou)] s' = (r2, s'\<lparr>plug := pl2\<rparr>)"
        using call_plugin_eq by metis
      show ?thesis using p a w tok(5) True False new
        by (auto simp: fpgaCloneToken_def v op cl f c c2 tok_dom_def)
    qed
  qed
qed

lemma fpgaDestroyToken_ok:
  assumes inv: "lib_inv own s" and t: "0 < own t"
  shows "\<exists>r s'. fpgaDestroyToken s (Some t) = Some (r, s') \<and> lib_inv (own(t := own t - 1)) s' \<and>
    adapters s' = adapters s \<and> (\<forall>q. q \<noteq> t \<longrightarrow> mem s' q = mem s q) \<and>
    (t \<in> tok_dom (mem s') \<longleftrightarrow> 1 < refs own (mem s) t)"
proof -
  have td: "t \<in> tok_dom (mem s)" by (rule own_tok [OF inv t])
  have "opae_validate_wrapped_token s t = Some t" by (rule validate_token_ok [OF inv td]) simp
  moreover have "t \<noteq> 0" using tok_domD [OF td] lib_inv_tok(5) [OF inv] by blast
  moreover obtain r s' where "opae_downref_wrapped_token s t = Some (r, s')"
    "lib_inv (own(t := own t - 1)) s'" "adapters s' = adapters s" "\<forall>q. q \<noteq> t \<longrightarrow> mem s' q = mem s q"
    "t \<in> tok_dom (mem s') \<longleftrightarrow> 1 < refs own (mem s) t"
    using downref_ok [OF inv t td] by auto
  ultimately show ?thesis by (simp add: fpgaDestroyToken_def opae_destroy_wrapped_token_def)
qed

text \<open>Objects and event handles hold no token, so that only their own cell changes.\<close>

lemma lib_inv_put_free:
  assumes "lib_inv own s" "mem s a = Some ob" "held ob = None" "\<not> is_tok ob"
  shows "held x = None \<Longrightarrow> \<not> is_tok x \<Longrightarrow> wf_obj (adapters s) x \<Longrightarrow> lib_inv own (put_obj a x s)"
    "lib_inv own (free_obj a s)"
proof -
  show "lib_inv own (put_obj a x s)" if "held x = None" "\<not> is_tok x" "wf_obj (adapters s) x"
    by (rule lib_inv_put [OF assms(1,2,4)]) (use that assms(3) in \<open>simp_all add: held_by_def\<close>)
  show "lib_inv own (free_obj a s)"
    by (rule lib_inv_free [OF assms(1,2,4)]) (use assms(3) in \<open>simp add: held_by_def\<close>)
qed

lemma get_wrapped_object_ok:
  assumes inv: "lib_inv own s" and a: "adapter \<in> dom (adapters s)"
  shows "\<exists>r b s'. get_wrapped_object adapter e args s = Some (r, b, s') \<and> lib_inv own s' \<and>
    adapters s' = adapters s \<and>
    (if r = FPGA_OK
     then \<exists>p w. b = Some p \<and> mem s p = None \<and> mem s' = (mem s)(p \<mapsto> OObj w) \<and> wo_adapter w = adapter
     else mem s' = mem s)"
proof -
  obtain op where op: "adapter_fn s adapter e = Some op" using adapter_fn_dom [OF a] ..
  obtain cl where cl: "adapter_fn s adapter E_DestroyObject = Some cl" using adapter_fn_dom [OF a] ..
  have new: "mem s (brk s) = None" "brk s \<noteq> 0"
    using inv by (cases "mem s (brk s)"; auto simp: lib_inv_def)+
  show ?thesis
  proof (cases "op = None \<or> cl = None")
    case True
    then show ?thesis using inv by (auto simp: get_wrapped_object_def op cl split: option.split)
  next
    case False
    then obtain f g where f: "op = Some f" "cl = Some g" by auto
    obtain res ou pl where c: "call_plugin f args s = ((res, ou), s\<lparr>plug := pl\<rparr>)"
      using call_plugin_eq [of f _ s] by (metis prod.collapse)
    let ?s = "s\<lparr>plug := pl\<rparr>"
    let ?o = "OObj \<lparr>wo_magic = OPAE_WRAPPED_OBJECT_MAGIC, wo_opae_object = out_ptr ou, wo_adapter = adapter\<rparr>"
    show ?thesis
    proof (cases "res = FPGA_OK")
      case False
      then show ?thesis using inv by (simp add: get_wrapped_object_def op cl f c)
    next
      case True
      show ?thesis
      proof (cases rule: alloc_obj_cases [of ?s ?o])
        case (fail ms)
        obtain r2 pl2 where c2: "call_plugin g [Ptr (out_ptr ou)] (?s\<lparr>mallocs := ms\<rparr>) =
            (r2, ?s\<lparr>mallocs := ms\<rparr>\<lparr>plug := pl2\<rparr>)" using call_plugin_eq by metis
        show ?thesis using inv True
          by (simp add: get_wrapped_object_def op cl f c opae_allocate_wrapped_object_def fail(2) c2)
      next
        case ok
        have "lib_inv own ((put_obj (brk ?s) ?o ?s)\<lparr>brk := Suc (brk ?s), mallocs := tl (mallocs ?s)\<rparr>)"
          by (rule lib_inv_new) (use inv a in \<open>simp_all add: held_by_def\<close>)
        moreover have "\<exists>w. (mem s)(brk s \<mapsto> ?o) = (mem s)(brk s \<mapsto> OObj w) \<and> wo_adapter w = adapter"
          by (rule exI [where x = "\<lparr>wo_magic = OPAE_WRAPPED_OBJECT_MAGIC, wo_opae_object = out_ptr ou,
            wo_adapter = adapter\<rparr>"]) simp
        ultimately show ?thesis using True new
          by (simp add: get_wrapped_object_def op cl f c opae_allocate_wrapped_object_def ok(2))
      qed
    qed
  qed
qed

lemma fpgaDestroyObject_ok:
  assumes inv: "lib_inv own s" and m: "mem s b = Some (OObj w)"
  shows "\<exists>r s'. fpgaDestroyObject s (Some b) = Some (r, s') \<and> lib_inv own s' \<and>
    adapters s' = adapters s \<and>
    (r = FPGA_NOT_SUPPORTED \<and> mem s' = mem s \<or> mem s' = (mem s)(b := None))"
proof -
  note v = validate_ok(3) [OF inv m]
  have wf: "wo_adapter w \<in> dom (adapters s)" "b \<noteq> 0" using lib_inv_wf [OF inv m] by auto
  obtain cl where cl: "adapter_fn s (wo_adapter w) E_DestroyObject = Some cl"
    using adapter_fn_dom [OF wf(1)] ..
  show ?thesis
  proof (cases cl)
    case None
    then show ?thesis using inv m wf(2) by (simp add: fpgaDestroyObject_def v cl)
  next
    case (Some f)
    obtain res ou pl where c: "call_plugin f [Ptr (wo_opae_object w)] s = ((res, ou), s\<lparr>plug := pl\<rparr>)"
      using call_plugin_eq [of f _ s] by (metis prod.collapse)
    have "lib_inv own (free_obj b (s\<lparr>plug := pl\<rparr>))"
      by (rule lib_inv_put_free(2) [of own _ b "OObj w"]) (use inv m in simp_all)
    then show ?thesis using m wf(2)
      by (simp add: fpgaDestroyObject_def v cl Some c opae_destroy_wrapped_object_def)
  qed
qed

subsection \<open>Event handles, call by call\<close>

text \<open>
  An event handle is unregistered (no CREATED flag) or registered with the adapter that created
  it. A body run under the lock keeps it well formed.
\<close>

lemma event_wf:
  assumes "lib_inv own s" "mem s e = Some (OEvent v)"
  shows "we_magic v = OPAE_WRAPPED_EVENT_HANDLE_MAGIC" "event_created v \<Longrightarrow> we_adapter v \<in> dom (adapters s)"
    "e \<noteq> 0"
  using lib_inv_wf [OF assms] by (auto simp: event_created_def)

lemma with_event_ok:
  assumes inv: "lib_inv own s" and m: "mem s e = Some (OEvent v)"
    and body: "\<exists>r out s' v'. body (v\<lparr>we_lock := Suc (we_lock v)\<rparr>)
        (put_obj e (OEvent (v\<lparr>we_lock := Suc (we_lock v)\<rparr>)) s) = Some (r, out, s') \<and>
      (\<exists>pl. s' = put_obj e (OEvent v') (s\<lparr>plug := pl\<rparr>)) \<and> we_lock v' = Suc (we_lock v) \<and>
      wf_obj (adapters s) (OEvent v') \<and> P r v'"
  shows "\<exists>r out s' v'. with_event e body s = Some (r, out, s') \<and> lib_inv own s' \<and>
    adapters s' = adapters s \<and> mem s' = (mem s)(e \<mapsto> OEvent (v'\<lparr>we_lock := we_lock v\<rparr>)) \<and> P r v'"
proof -
  obtain r out s' v' pl where b: "body (v\<lparr>we_lock := Suc (we_lock v)\<rparr>)
        (put_obj e (OEvent (v\<lparr>we_lock := Suc (we_lock v)\<rparr>)) s) = Some (r, out, s')"
      "s' = put_obj e (OEvent v') (s\<lparr>plug := pl\<rparr>)" "we_lock v' = Suc (we_lock v)"
      "wf_obj (adapters s) (OEvent v')" "P r v'" using body by blast
  let ?x = "OEvent (v'\<lparr>we_lock := we_lock v\<rparr>)"
  have "lib_inv own (put_obj e ?x (s\<lparr>plug := pl\<rparr>))"
    by (rule lib_inv_put_free(1) [of own _ e "OEvent v"]) (use inv m b(4) in simp_all)
  then show ?thesis using m b
    by (intro exI [of _ r] exI [of _ out] exI [of _ "put_obj e ?x (s\<lparr>plug := pl\<rparr>)"] exI [of _ v'])
      (simp add: with_event_def)
qed

lemma call_entry_ok:
  assumes "a \<in> dom (adapters s)"
  shows "\<exists>r out pl. call_entry a e args s = Some (r, out, s\<lparr>plug := pl\<rparr>)"
proof -
  obtain fn where fn: "adapter_fn s a e = Some fn" using adapter_fn_dom [OF assms] ..
  show ?thesis
  proof (cases fn)
    case None
    then show ?thesis by (intro exI [of _ "plug s"] exI) (simp add: call_entry_def fn)
  next
    case (Some f)
    obtain res ou pl where c: "call_plugin f args s = ((res, ou), s\<lparr>plug := pl\<rparr>)"
      using call_plugin_eq [of f _ s] by (metis prod.collapse)
    then have "call_entry a e args s = Some (res, ou, s\<lparr>plug := pl\<rparr>)" by (simp add: call_entry_def fn Some)
    then show ?thesis by blast
  qed
qed

lemma put_obj_plug: "(put_obj a x s)\<lparr>plug := pl\<rparr> = put_obj a x (s\<lparr>plug := pl\<rparr>)"
  by (simp add: put_obj_def)

lemma fpgaCreateEventHandle_ok:
  assumes inv: "lib_inv own s"
  shows "\<exists>r h s'. fpgaCreateEventHandle mutex_ok s out = (r, h, s') \<and> lib_inv own s' \<and>
    adapters s' = adapters s \<and>
    (if r = FPGA_OK
     then \<exists>p v. h = Some p \<and> mem s p = None \<and> mem s' = (mem s)(p \<mapsto> OEvent v) \<and> \<not> event_created v
     else mem s' = mem s)"
proof (cases "out = NULL")
  case False
  let ?v = "\<lparr>we_magic = OPAE_WRAPPED_EVENT_HANDLE_MAGIC, we_lock = 0, we_flags = 0,
             we_opae_event_handle = NULL, we_adapter = NULL\<rparr>"
  have new: "mem s (brk s) = None" "brk s \<noteq> 0"
    using inv by (cases "mem s (brk s)"; auto simp: lib_inv_def)+
  show ?thesis
  proof (cases rule: alloc_obj_cases [of s "OEvent ?v"])
    case (fail ms)
    then show ?thesis using inv False
      by (simp add: fpgaCreateEventHandle_def opae_allocate_wrapped_event_handle_def)
  next
    case ok
    let ?n = "(put_obj (brk s) (OEvent ?v) s)\<lparr>brk := Suc (brk s), mallocs := tl (mallocs s)\<rparr>"
    have i: "lib_inv own ?n" by (rule lib_inv_new [OF inv]) (simp_all add: held_by_def)
    show ?thesis
    proof (cases mutex_ok)
      case True
      have "\<exists>v. (mem s)(brk s \<mapsto> OEvent ?v) = (mem s)(brk s \<mapsto> OEvent v) \<and> \<not> event_created v"
        by (rule exI [of _ ?v]) (simp add: event_created_def)
      then show ?thesis using True i new False
        by (simp add: fpgaCreateEventHandle_def opae_allocate_wrapped_event_handle_def ok(2))
    next
      case mo: False
      have "lib_inv own (free_obj (brk s) ?n)"
        by (rule lib_inv_put_free(2) [OF i, of _ "OEvent ?v"]) simp_all
      moreover have "mem (free_obj (brk s) ?n) = mem s" using new by (simp add: fun_eq_iff)
      ultimately show ?thesis using mo new False
        by (simp add: fpgaCreateEventHandle_def opae_allocate_wrapped_event_handle_def ok(2))
    qed
  qed
qed (use inv in \<open>simp add: fpgaCreateEventHandle_def\<close>)

lemma created_flag [simp]: "event_created (v\<lparr>we_lock := n\<rparr>) = event_created v"
  by (simp add: event_created_def)

lemma wf_event:
  "wf_obj ads (OEvent v) \<longleftrightarrow> we_magic v = OPAE_WRAPPED_EVENT_HANDLE_MAGIC \<and>
     (event_created v \<longrightarrow> we_adapter v \<in> dom ads)"
  by (simp add: event_created_def)

declare wf_obj.simps(4) [simp del]

lemma create_event_ok:
  assumes h: "wh_adapter h \<in> dom (adapters s)" and v: "wf_obj (adapters s) (OEvent v)"
  shows "\<exists>stop v' pl. create_event h e v (put_obj e (OEvent v) s) =
      Some (stop, v', put_obj e (OEvent v') (s\<lparr>plug := pl\<rparr>)) \<and> wf_obj (adapters s) (OEvent v') \<and>
    we_lock v' = we_lock v \<and> (stop = None \<longrightarrow> event_created v') \<and> stop \<noteq> Some FPGA_OK \<and>
    (stop \<noteq> None \<longrightarrow> event_created v' = event_created v)"
proof (cases "event_created v")
  case True
  then show ?thesis using v by (intro exI [of _ None] exI [of _ v] exI [of _ "plug s"])
    (simp add: create_event_def)
next
  case False
  let ?s = "put_obj e (OEvent v) s"
  obtain fn where fn: "adapter_fn ?s (wh_adapter h) E_CreateEventHandle = Some fn"
    using adapter_fn_dom [of _ ?s] h by auto
  show ?thesis
  proof (cases fn)
    case None
    then show ?thesis using v False
      by (intro exI [of _ "Some FPGA_NOT_SUPPORTED"] exI [of _ v] exI [of _ "plug s"])
        (simp add: create_event_def fn)
  next
    case (Some f)
    obtain res ou pl where c: "call_plugin f [] ?s = ((res, ou), ?s\<lparr>plug := pl\<rparr>)"
      using call_plugin_eq [of f _ ?s] by (metis prod.collapse)
    let ?v = "case ou of Ptr p # _ \<Rightarrow> v\<lparr>we_opae_event_handle := p\<rparr> | _ \<Rightarrow> v"
    have k: "we_lock ?v = we_lock v" "event_created ?v = event_created v" "we_magic ?v = we_magic v"
      "we_flags ?v = we_flags v"
      by (auto simp: event_created_def split: list.split arg.split)
    let ?w = "?v\<lparr>we_adapter := wh_adapter h, we_flags := we_flags v OR OPAE_WRAPPED_EVENT_HANDLE_CREATED\<rparr>"
    have cr: "event_created ?w" by (simp add: event_created_def bit_eq_iff bit_simps)
      (auto simp: OPAE_WRAPPED_EVENT_HANDLE_CREATED_def bit_1_iff)
    show ?thesis
    proof (cases "res = FPGA_OK")
      case True
      then show ?thesis using False v h k cr
        by (intro exI [of _ None] exI [of _ ?w] exI [of _ pl])
          (simp add: create_event_def fn Some c Let_def put_obj_plug wf_event)
    next
      case False
      then show ?thesis using \<open>\<not> event_created v\<close> v k
        by (intro exI [of _ "Some res"] exI [of _ ?v] exI [of _ pl])
          (simp add: create_event_def fn Some c Let_def put_obj_plug wf_event)
    qed
  qed
qed

lemma fpgaRegisterEvent_ok:
  assumes inv: "lib_inv own s" and m: "mem s h = Some (OHandle w)" "mem s e = Some (OEvent v)"
  shows "\<exists>r out s' v'. fpgaRegisterEvent s h ty e flags = Some (r, out, s') \<and> lib_inv own s' \<and>
    adapters s' = adapters s \<and> mem s' = (mem s)(e \<mapsto> OEvent v') \<and> we_lock v' = we_lock v \<and>
    (r = FPGA_OK \<longrightarrow> event_created v')"
proof -
  note v = validate_ok(1) [OF inv m(1)] validate_ok(2) [OF inv m(2)]
  have wf: "wh_adapter w \<in> dom (adapters s)" "h \<noteq> 0" "e \<noteq> 0" "wf_obj (adapters s) (OEvent v)"
    using lib_inv_wf [OF inv m(1)] lib_inv_wf [OF inv m(2)] by auto
  let ?body = "\<lambda>e' s. do {
         (stop, e', s) \<leftarrow> create_event w e e' s;
         case stop of
           Some res \<Rightarrow> Some (res, [], s)
         | None \<Rightarrow>
             if we_opae_event_handle e' = NULL then Some (FPGA_INVALID_PARAM, [], s)
             else if we_adapter e' = NULL then Some (FPGA_INVALID_PARAM, [], s)
             else call_entry (we_adapter e') E_RegisterEvent
                    [Ptr (wh_opae_handle w), W32 ty, Ptr (we_opae_event_handle e'), W32 flags] s
       }"
  let ?v = "v\<lparr>we_lock := Suc (we_lock v)\<rparr>"
  have wfv: "wf_obj (adapters s) (OEvent ?v)" using wf(4) by (simp add: wf_event)
  obtain stop v' pl where c: "create_event w e ?v (put_obj e (OEvent ?v) s) =
      Some (stop, v', put_obj e (OEvent v') (s\<lparr>plug := pl\<rparr>))" "wf_obj (adapters s) (OEvent v')"
      "we_lock v' = Suc (we_lock v)" "stop = None \<longrightarrow> event_created v'" "stop \<noteq> Some FPGA_OK"
    using create_event_ok [OF wf(1) wfv, of e] by auto
  have "\<exists>r out pl. ?body ?v (put_obj e (OEvent ?v) s) =
      Some (r, out, put_obj e (OEvent v') (s\<lparr>plug := pl\<rparr>)) \<and> (stop = None \<or> stop = Some r)"
  proof (cases "stop = None \<and> we_opae_event_handle v' \<noteq> NULL \<and> we_adapter v' \<noteq> NULL")
    case True
    then have "we_adapter v' \<in> dom (adapters (put_obj e (OEvent v') (s\<lparr>plug := pl\<rparr>)))"
      using c(2,4) by (simp add: wf_event)
    from call_entry_ok [OF this, of E_RegisterEvent "[Ptr (wh_opae_handle w), W32 ty,
        Ptr (we_opae_event_handle v'), W32 flags]"] obtain r out pl' where
      "call_entry (we_adapter v') E_RegisterEvent [Ptr (wh_opae_handle w), W32 ty,
        Ptr (we_opae_event_handle v'), W32 flags] (put_obj e (OEvent v') (s\<lparr>plug := pl\<rparr>)) =
      Some (r, out, (put_obj e (OEvent v') (s\<lparr>plug := pl\<rparr>))\<lparr>plug := pl'\<rparr>)" by blast
    with True show ?thesis by (simp add: c(1) put_obj_plug) blast
  next
    case False
    then show ?thesis by (auto simp: c(1) split: option.split)
  qed
  then obtain r out pl' where b: "?body ?v (put_obj e (OEvent ?v) s) =
      Some (r, out, put_obj e (OEvent v') (s\<lparr>plug := pl'\<rparr>))" "stop = None \<or> stop = Some r"
    by (elim exE conjE) (rule that)
  have "r = FPGA_OK \<longrightarrow> event_created v'" using b(2) c(4,5) by auto
  then have "\<exists>r out s' v''. ?body ?v (put_obj e (OEvent ?v) s) = Some (r, out, s') \<and>
      (\<exists>pl. s' = put_obj e (OEvent v'') (s\<lparr>plug := pl\<rparr>)) \<and> we_lock v'' = Suc (we_lock v) \<and>
      wf_obj (adapters s) (OEvent v'') \<and> (r = FPGA_OK \<longrightarrow> event_created v'')"
    by (intro exI [of _ r] exI [of _ out] exI [of _ "put_obj e (OEvent v') (s\<lparr>plug := pl'\<rparr>)"]
        exI [of _ v'] conjI exI [of _ pl'] b(1) c(2,3) refl)
  from with_event_ok [OF inv m(2), where body = ?body and P = "\<lambda>r v'. r = FPGA_OK \<longrightarrow> event_created v'", OF this]
  obtain r out s' v'' where r: "with_event e ?body s = Some (r, out, s')" "lib_inv own s'"
      "adapters s' = adapters s" "mem s' = (mem s)(e \<mapsto> OEvent (v''\<lparr>we_lock := we_lock v\<rparr>))"
      "r = FPGA_OK \<longrightarrow> event_created v''"
    by (elim exE conjE) (rule that)
  have "fpgaRegisterEvent s h ty e flags = Some (r, out, s')"
    using m(1) wf(2,3) r(1) by (simp add: fpgaRegisterEvent_def v)
  then show ?thesis using r(2-5)
    by (intro exI [of _ r] exI [of _ out] exI [of _ s'] exI [of _ "v''\<lparr>we_lock := we_lock v\<rparr>"]) simp
qed

lemma with_event_plug:
  assumes inv: "lib_inv own s" and m: "mem s e = Some (OEvent v)"
    and body: "\<And>v s. wf_obj (adapters s) (OEvent v) \<Longrightarrow> \<exists>r out pl. body v s = Some (r, out, s\<lparr>plug := pl\<rparr>)"
  shows "\<exists>r out pl. with_event e body s = Some (r, out, s\<lparr>plug := pl\<rparr>)"
proof -
  let ?v = "v\<lparr>we_lock := Suc (we_lock v)\<rparr>"
  have "wf_obj (adapters (put_obj e (OEvent ?v) s)) (OEvent ?v)"
    using lib_inv_wf [OF inv m] by (simp add: wf_event)
  from body [OF this] obtain r out pl where
    "body ?v (put_obj e (OEvent ?v) s) = Some (r, out, put_obj e (OEvent ?v) (s\<lparr>plug := pl\<rparr>))"
    by (auto simp: put_obj_plug)
  then have "with_event e body s = Some (r, out, s\<lparr>plug := pl\<rparr>)"
    using m by (simp add: with_event_def put_obj_idem)
  then show ?thesis by blast
qed

lemma fpgaUnregisterEvent_ok:
  assumes inv: "lib_inv own s" and m: "mem s h = Some (OHandle w)" "mem s e = Some (OEvent v)"
  shows "\<exists>r out pl. fpgaUnregisterEvent s h ty e = Some (r, out, s\<lparr>plug := pl\<rparr>)"
proof -
  note v = validate_ok(1) [OF inv m(1)] validate_ok(2) [OF inv m(2)]
  have wf: "h \<noteq> 0" "e \<noteq> 0" using lib_inv_wf [OF inv m(1)] lib_inv_wf [OF inv m(2)] by auto
  let ?body = "\<lambda>e s. if \<not> event_created e then Some (FPGA_INVALID_PARAM, [], s)
         else if we_opae_event_handle e = NULL then Some (FPGA_INVALID_PARAM, [], s)
         else call_entry (we_adapter e) E_UnregisterEvent
                [Ptr (wh_opae_handle w), W32 ty, Ptr (we_opae_event_handle e)] s"
  have "\<exists>r out pl. ?body v s = Some (r, out, s\<lparr>plug := pl\<rparr>)" if "wf_obj (adapters s) (OEvent v)"
    for v and s :: "'a lib"
  proof (cases "event_created v \<and> we_opae_event_handle v \<noteq> NULL")
    case True
    with that have "we_adapter v \<in> dom (adapters s)" by (simp add: wf_event)
    from call_entry_ok [OF this] True show ?thesis by simp
  next
    case False
    then show ?thesis by (intro exI [of _ FPGA_INVALID_PARAM] exI [of _ "[]"] exI [of _ "plug s"]) auto
  qed
  from with_event_plug [OF inv m(2), of ?body, OF this] show ?thesis
    using m(1) wf by (auto simp: fpgaUnregisterEvent_def v)
qed

lemma fpgaGetOSObjectFromEventHandle_ok:
  assumes inv: "lib_inv own s" and m: "mem s e = Some (OEvent v)"
  shows "\<exists>r out pl. fpgaGetOSObjectFromEventHandle s e fd = Some (r, out, s\<lparr>plug := pl\<rparr>)"
proof (cases "fd = NULL")
  case True
  note v = validate_ok(2) [OF inv m]
  show ?thesis using True
    by (intro exI [of _ FPGA_INVALID_PARAM] exI [of _ "[]"] exI [of _ "plug s"])
      (simp add: fpgaGetOSObjectFromEventHandle_def v)
next
  case False
  note v = validate_ok(2) [OF inv m]
  have wf: "e \<noteq> 0" using lib_inv_wf [OF inv m] by auto
  let ?body = "\<lambda>e s. if \<not> event_created e then Some (FPGA_INVALID_PARAM, [], s)
       else if we_opae_event_handle e = NULL then Some (FPGA_INVALID_PARAM, [], s)
       else call_entry (we_adapter e) E_GetOSObjectFromEventHandle
              [Ptr (we_opae_event_handle e), Ptr fd] s"
  have "\<exists>r out pl. ?body v s = Some (r, out, s\<lparr>plug := pl\<rparr>)" if "wf_obj (adapters s) (OEvent v)"
    for v and s :: "'a lib"
  proof (cases "event_created v \<and> we_opae_event_handle v \<noteq> NULL")
    case True
    with that have "we_adapter v \<in> dom (adapters s)" by (simp add: wf_event)
    from call_entry_ok [OF this] True show ?thesis by simp
  next
    case False
    then show ?thesis by (intro exI [of _ FPGA_INVALID_PARAM] exI [of _ "[]"] exI [of _ "plug s"]) auto
  qed
  from with_event_plug [OF inv m, of ?body, OF this] show ?thesis
    using False wf by (auto simp: fpgaGetOSObjectFromEventHandle_def v)
qed

lemma fpgaDestroyEventHandle_ok:
  assumes inv: "lib_inv own s" and m: "mem s e = Some (OEvent v)"
  shows "\<exists>r s'. fpgaDestroyEventHandle s (Some e) = Some (r, s') \<and> lib_inv own s' \<and>
    adapters s' = adapters s \<and>
    (mem s' = mem s \<and> event_created v \<and> r \<in> {FPGA_NOT_SUPPORTED, FPGA_INVALID_PARAM} \<or>
     mem s' = (mem s)(e := None))"
proof -
  note v = validate_ok(2) [OF inv m]
  note wf = event_wf [OF inv m]
  have free: "lib_inv own (free_obj e (s\<lparr>plug := pl\<rparr>))" for pl
    by (rule lib_inv_put_free(2) [of own _ e "OEvent v"]) (use inv m in simp_all)
  show ?thesis
  proof (cases "event_created v")
    case False
    then have "fpgaDestroyEventHandle s (Some e) = Some (FPGA_OK, free_obj e s)"
      using m wf(3) by (simp add: fpgaDestroyEventHandle_def v opae_destroy_wrapped_event_handle_def)
    then show ?thesis using free [of "plug s"] by simp
  next
    case True
    obtain cl where cl: "adapter_fn s (we_adapter v) E_DestroyEventHandle = Some cl"
      using adapter_fn_dom [OF wf(2) [OF True]] ..
    show ?thesis
    proof (cases "cl = None \<or> we_opae_event_handle v = NULL")
      case bad: True
      then show ?thesis using m wf(3) True inv
        by (cases cl) (auto simp: fpgaDestroyEventHandle_def v cl)
    next
      case False
      then obtain f where f: "cl = Some f" by auto
      let ?body = "\<lambda>e s. case call_plugin f [Ptr (we_opae_event_handle e)] s of ((res, out), s) \<Rightarrow>
          Some (res, out, s)"
      have b: "\<exists>r out pl. ?body v s = Some (r, out, s\<lparr>plug := pl\<rparr>)" for v and s :: "'a lib"
      proof -
        obtain r pl where "call_plugin f [Ptr (we_opae_event_handle v)] s = (r, s\<lparr>plug := pl\<rparr>)"
          using call_plugin_eq by metis
        then show ?thesis by (cases r) auto
      qed
      from with_event_plug [OF inv m, of ?body, OF b] obtain r out pl where
        w: "with_event e ?body s = Some (r, out, s\<lparr>plug := pl\<rparr>)" by blast
      have "fpgaDestroyEventHandle s (Some e) = Some (r, free_obj e (s\<lparr>plug := pl\<rparr>))"
        using m wf(3) True False
        by (simp add: fpgaDestroyEventHandle_def v cl f w opae_destroy_wrapped_event_handle_def)
      then show ?thesis using free by simp
    qed
  qed
qed

end
