(* ===== verification/Api_Props.thy ===== *)
theory Api_Props
  imports Api_Shell
begin

section \<open>Filling properties objects (api-shell.c)\<close>

text \<open>
  The calls that have a plugin fill a properties object and add the wrapped parent: no path of
  \<^verbatim>\<open>opae_get_parent_token\<close>, \<^verbatim>\<open>fpgaGetProperties\<close>, \<^verbatim>\<open>fpgaGetPropertiesFromHandle\<close> or
  \<^verbatim>\<open>fpgaUpdateProperties\<close> is undefined, leaves a lock held, loses a token or keeps one too many.
\<close>

subsection \<open>The parent of a token\<close>

text \<open>
  What the library relies on of a plugin's property functions: an object they fill is well formed
  and has no parent (both plugins of the repository clear that field), and success of the two
  getters comes with an object.
\<close>

definition filled_ok :: "reply \<Rightarrow> bool" where
  "filled_ok r \<longleftrightarrow> (\<forall>q. take 1 (snd r) = [Props q] \<longrightarrow>
     length (pr_guid q) = 16 \<and> length (pr_u q) = 24 \<and> \<not> FIELD_VALID q FPGA_PROPERTY_PARENT)"

definition props_plugin :: "'p adapter \<Rightarrow> bool" where
  "props_plugin ad \<longleftrightarrow>
     (\<forall>f args w. ad_fn ad E_UpdateProperties = Some f \<longrightarrow> filled_ok (fst (f args w))) \<and>
     (\<forall>e \<in> {E_GetProperties, E_GetPropertiesFromHandle}. \<forall>f args w. ad_fn ad e = Some f \<longrightarrow>
        filled_ok (fst (f args w)) \<and>
        (fst (fst (f args w)) = FPGA_OK \<longrightarrow> (\<exists>q rest. snd (fst (f args w)) = Props q # rest)))"

definition props_plugins :: "(ptr \<rightharpoonup> 'p adapter) \<Rightarrow> bool" where
  "props_plugins ads \<longleftrightarrow> (\<forall>ad \<in> ran ads. props_plugin ad)"

lemma plugin_update_ok:
  assumes inv: "lib_inv own s" and m: "mem s a = Some (OProps p)" "\<not> FIELD_VALID p FPGA_PROPERTY_PARENT"
    and pl: "props_plugins (adapters s)" "adapter_fn s ad E_UpdateProperties = Some (Some f)"
  shows "\<exists>r q pl. plugin_update f t a s = Some (r, put_obj a (OProps q) (s\<lparr>plug := pl\<rparr>)) \<and>
    wf_props q \<and> pr_lock q = pr_lock p \<and> \<not> FIELD_VALID q FPGA_PROPERTY_PARENT \<and>
    lib_inv own (put_obj a (OProps q) (s\<lparr>plug := pl\<rparr>))"
proof -
  have wf: "wf_props p" using lib_inv_wf [OF inv m(1)] by (simp add: wf_props_def)
  obtain r out w where f: "f [Ptr t, Props p] (plug s) = ((r, out), w)" by (metis prod.collapse)
  obtain adp where "adapters s ad = Some adp" "ad_fn adp E_UpdateProperties = Some f"
    using pl(2) by (auto simp: adapter_fn_def)
  then have fill: "filled_ok (r, out)"
    using pl(1) f unfolding props_plugins_def props_plugin_def by (metis fst_conv ranI)
  let ?q = "case out of Props q # _ \<Rightarrow> q\<lparr>pr_lock := pr_lock p, pr_magic := pr_magic p\<rparr> | _ \<Rightarrow> p"
  have q: "wf_props ?q \<and> pr_lock ?q = pr_lock p \<and> \<not> FIELD_VALID ?q FPGA_PROPERTY_PARENT"
    using fill wf m(2) by (auto simp: filled_ok_def wf_props_def split: list.split arg.split)
  have "plugin_update f t a s = Some (r, put_obj a (OProps ?q) (s\<lparr>plug := w\<rparr>))"
    using m(1) f by (auto simp: plugin_update_def call_plugin_def put_obj_idem split: list.split arg.split)
  moreover have "lib_inv own (put_obj a (OProps ?q) (s\<lparr>plug := w\<rparr>))"
    by (rule lib_inv_put_free(1) [of own _ a "OProps p"]) (use inv m q in \<open>simp_all add: wf_props_def\<close>)
  ultimately show ?thesis using q by blast
qed

lemma pci_address_ok:
  assumes m: "mem s a = Some (OProps p)" "a \<noteq> 0" "wf_props p"
  shows "\<exists>x. pci_address s a = Some (x, s)"
  unfolding pci_address_def fpgaPropertiesGetSegment_def fpgaPropertiesGetBus_def
    fpgaPropertiesGetDevice_def fpgaPropertiesGetObjectType_def
  by (simp add: f_segment.get_reads [OF m] f_bus.get_reads [OF m] f_device.get_reads [OF m]
      f_objtype.get_reads [OF m])

lemma refs_props:
  "mem s a = Some (OProps p) \<Longrightarrow> \<not> FIELD_VALID p FPGA_PROPERTY_PARENT \<Longrightarrow>
   \<not> FIELD_VALID q FPGA_PROPERTY_PARENT \<Longrightarrow> refs own ((mem s)(a \<mapsto> OProps q)) t = refs own (mem s) t"
  by (rule refs_upd_same) (simp add: held_by_def)

lemma find_parent_ok:
  assumes "lib_inv own s" "mem s a = Some (OProps p)" "\<not> FIELD_VALID p FPGA_PROPERTY_PARENT"
    "props_plugins (adapters s)" "set ps \<subseteq> tok_dom (mem s)" "\<forall>t. refs own (mem s) t + 1 < 2 ^ 32"
  shows "\<exists>r s' q. find_parent child a ps s = Some (r, s') \<and> adapters s' = adapters s \<and>
    mem s' a = Some (OProps q) \<and> \<not> FIELD_VALID q FPGA_PROPERTY_PARENT \<and>
    (\<forall>x. x \<noteq> a \<longrightarrow> x \<noteq> r \<longrightarrow> mem s' x = mem s x) \<and> (r = NULL \<or> r \<in> set ps) \<and>
    (if r = NULL then lib_inv own s' else lib_inv (own(r := Suc (own r))) s')"
  using assms
proof (induction ps arbitrary: s p)
  case (Cons t ps)
  note inv = Cons.prems(1) and m = Cons.prems(2,3)
  have td: "t \<in> tok_dom (mem s)" using Cons.prems(5) by simp
  then obtain w where w: "mem s t = Some (OTok w)" using tok_domD by blast
  note tok = lib_inv_tok [OF inv w]
  obtain fn where fn: "adapter_fn s (wt_adapter w) E_UpdateProperties = Some fn"
    using adapter_fn_dom [OF tok(4)] ..
  show ?case
  proof (cases fn)
    case None
    have e: "find_parent child a (t # ps) s = find_parent child a ps s" using None w by (simp add: fn)
    have "set ps \<subseteq> tok_dom (mem s)" using Cons.prems(5) by simp
    from Cons.IH [OF inv m Cons.prems(4) this Cons.prems(6)] obtain r s' q where
      "find_parent child a ps s = Some (r, s')" "adapters s' = adapters s"
      "mem s' a = Some (OProps q)" "\<not> FIELD_VALID q FPGA_PROPERTY_PARENT"
      "\<forall>x. x \<noteq> a \<longrightarrow> x \<noteq> r \<longrightarrow> mem s' x = mem s x" "r = NULL \<or> r \<in> set ps"
      "if r = NULL then lib_inv own s' else lib_inv (own(r := Suc (own r))) s'"
      by (elim exE conjE) (rule that)
    then show ?thesis unfolding e by (intro exI [of _ r] exI [of _ s'] exI [of _ q]) auto
  next
    case (Some f)
    obtain r q pl where u: "plugin_update f (wt_opae_token w) a s =
          Some (r, put_obj a (OProps q) (s\<lparr>plug := pl\<rparr>))"
      and q: "wf_props q" "\<not> FIELD_VALID q FPGA_PROPERTY_PARENT"
        "lib_inv own (put_obj a (OProps q) (s\<lparr>plug := pl\<rparr>))"
      using plugin_update_ok [OF inv m Cons.prems(4)] fn Some by blast
    let ?s = "put_obj a (OProps q) (s\<lparr>plug := pl\<rparr>)"
    have a0: "a \<noteq> 0" using lib_inv_wf [OF inv m(1)] by simp
    have td': "set (t # ps) \<subseteq> tok_dom (mem ?s)" using Cons.prems(5) m(1) by (auto simp: tok_dom_def)
    have b': "\<forall>t. refs own (mem ?s) t + 1 < 2 ^ 32" using Cons.prems(6) refs_props [OF m q(2)] by simp
    have ih: "\<exists>r s' q. find_parent child a ps ?s = Some (r, s') \<and> adapters s' = adapters s \<and>
        mem s' a = Some (OProps q) \<and> \<not> FIELD_VALID q FPGA_PROPERTY_PARENT \<and>
        (\<forall>x. x \<noteq> a \<longrightarrow> x \<noteq> r \<longrightarrow> mem s' x = mem s x) \<and> (r = NULL \<or> r \<in> set ps) \<and>
        (if r = NULL then lib_inv own s' else lib_inv (own(r := Suc (own r))) s')"
    proof -
      have 1: "mem ?s a = Some (OProps q)" "props_plugins (adapters ?s)" "set ps \<subseteq> tok_dom (mem ?s)"
        using Cons.prems(4) td' by (simp_all del: tok_dom_upd)
      obtain r s' q' where ih: "find_parent child a ps ?s = Some (r, s')" "adapters s' = adapters ?s"
        "mem s' a = Some (OProps q')" "\<not> FIELD_VALID q' FPGA_PROPERTY_PARENT"
        "\<forall>x. x \<noteq> a \<longrightarrow> x \<noteq> r \<longrightarrow> mem s' x = mem ?s x" "r = NULL \<or> r \<in> set ps"
        "if r = NULL then lib_inv own s' else lib_inv (own(r := Suc (own r))) s'"
        using Cons.IH [OF q(3) 1(1) q(2) 1(2,3) b'] by (elim exE conjE) (rule that)
      show ?thesis by (intro exI [of _ r] exI [of _ s'] exI [of _ q']) (use ih in simp)
    qed
    have up: "\<exists>s'. opae_upref_wrapped_token ?s t = Some s' \<and> adapters s' = adapters s \<and>
        mem s' a = Some (OProps q) \<and> (\<forall>x. x \<noteq> a \<longrightarrow> x \<noteq> t \<longrightarrow> mem s' x = mem s x) \<and>
        lib_inv (own(t := Suc (own t))) s'"
      using upref_take [OF q(3), of t] td' b' w m(1) by auto
    obtain x where pci: "pci_address ?s a = Some (x, ?s)"
      using pci_address_ok [of ?s a q] q(1) a0 by auto
    have stop: "find_parent child a (t # ps) s = Some (NULL, ?s)" if "r \<noteq> FPGA_OK"
      using that w by (simp add: fn Some u)
    show ?thesis
    proof (cases "r = FPGA_OK")
      case False
      from stop [OF this] q show ?thesis by simp
    next
      case True
      show ?thesis
      proof (cases "\<exists>ty. x = Some (child, ty) \<and> ty \<noteq> FPGA_ACCELERATOR")
        case hit: True
        then show ?thesis using up True w q(2) tok(5) by (auto simp: fn Some u pci)
      next
        case False
        then have "find_parent child a (t # ps) s = find_parent child a ps ?s"
          using True w by (auto simp: fn Some u pci split: option.split)
        with ih show ?thesis by (elim exE conjE, intro exI conjI) auto
      qed
    qed
  qed
qed simp

lemma wf_empty_properties [simp]: "wf_props empty_properties" "\<not> FIELD_VALID empty_properties b"
  "pr_magic empty_properties = FPGA_PROPERTY_MAGIC" "length (pr_guid empty_properties) = 16"
  "length (pr_u empty_properties) = 24"
  by (simp_all add: wf_props_def empty_properties_def FIELD_VALID_def)

lemma properties_create_ok:
  assumes inv: "lib_inv own s"
  shows "\<exists>p s'. opae_properties_create mutex_ok s = (p, s') \<and> lib_inv own s' \<and>
    adapters s' = adapters s \<and> tok_list s' = tok_list s \<and>
    (p = NULL \<and> mem s' = mem s \<or>
     p \<noteq> NULL \<and> mem s p = None \<and> mem s' = (mem s)(p \<mapsto> OProps empty_properties))"
proof -
  have new: "mem s (brk s) = None" "brk s \<noteq> 0"
    using inv by (cases "mem s (brk s)"; auto simp: lib_inv_def)+
  show ?thesis
  proof (cases rule: alloc_obj_cases [of s "OProps empty_properties"])
    case (fail ms)
    then show ?thesis using inv by (simp add: opae_properties_create_def)
  next
    case ok
    let ?n = "(put_obj (brk s) (OProps empty_properties) s)\<lparr>brk := Suc (brk s), mallocs := tl (mallocs s)\<rparr>"
    have i: "lib_inv own ?n"
      by (rule lib_inv_new [OF inv]) (simp_all add: held_by_def)
    show ?thesis
    proof (cases mutex_ok)
      case True
      then show ?thesis using i new by (simp add: opae_properties_create_def ok(2))
    next
      case False
      have "lib_inv own (free_obj (brk s) ?n)"
        by (rule lib_inv_put_free(2) [OF i, of _ "OProps empty_properties"]) simp_all
      moreover have "mem (free_obj (brk s) ?n) = mem s" using new by (simp add: fun_eq_iff)
      ultimately show ?thesis using False new by (simp add: opae_properties_create_def ok(2))
    qed
  qed
qed

lemma destroy_no_parent:
  assumes "mem s a = Some (OProps p)" "a \<noteq> 0" "wf_props p" "\<not> FIELD_VALID p FPGA_PROPERTY_PARENT"
  shows "fpgaDestroyProperties s (Some a) = Some (FPGA_OK, Some NULL, free_obj a s)"
  using assms by (simp add: fpgaDestroyProperties_def opae_validate_and_lock_properties_def
      unlock_properties_def wf_props_def)

lemma props_wf: "lib_inv own s \<Longrightarrow> mem s a = Some (OProps p) \<Longrightarrow> wf_props p \<and> a \<noteq> 0"
  using lib_inv_wf [of own s a "OProps p"] by (simp add: wf_props_def)

lemma free_props:
  "lib_inv own s \<Longrightarrow> mem s a = Some (OProps p) \<Longrightarrow> \<not> FIELD_VALID p FPGA_PROPERTY_PARENT \<Longrightarrow>
   lib_inv own (free_obj a s)"
  by (rule lib_inv_put_free(2) [of own s a "OProps p"]) simp_all

lemma opae_get_parent_token_ok:
  assumes inv: "lib_inv own s" and t: "child \<in> tok_dom (mem s)"
    and pl: "props_plugins (adapters s)" and b: "\<forall>t. refs own (mem s) t + 1 < 2 ^ 32"
  shows "\<exists>r s'. opae_get_parent_token mutex_ok s child = Some (r, s') \<and> adapters s' = adapters s \<and>
    (\<forall>x. x \<noteq> r \<longrightarrow> mem s' x = mem s x) \<and> (r = NULL \<or> r \<in> tok_dom (mem s)) \<and>
    (if r = NULL then lib_inv own s' else lib_inv (own(r := Suc (own r))) s')"
proof -
  obtain w where w: "mem s child = Some (OTok w)" using tok_domD [OF t] by auto
  obtain fn where fn: "adapter_fn s (wt_adapter w) E_UpdateProperties = Some fn"
    using adapter_fn_dom [OF lib_inv_tok(4) [OF inv w]] ..
  show ?thesis
  proof (cases fn)
    case None
    then show ?thesis using inv w by (simp add: opae_get_parent_token_def fn)
  next
    case (Some f)
    obtain c s1 where c: "opae_properties_create mutex_ok s = (c, s1)" "lib_inv own s1"
      "adapters s1 = adapters s" "tok_list s1 = tok_list s"
      "c = NULL \<and> mem s1 = mem s \<or> c \<noteq> NULL \<and> mem s c = None \<and> mem s1 = (mem s)(c \<mapsto> OProps empty_properties)"
      using properties_create_ok [OF inv] by blast
    show ?thesis
    proof (cases "c = NULL")
      case True
      then show ?thesis using c w by (simp add: opae_get_parent_token_def fn Some)
    next
      case c0: False
      obtain p s2 where p: "opae_properties_create mutex_ok s1 = (p, s2)" "lib_inv own s2"
        "adapters s2 = adapters s1" "tok_list s2 = tok_list s1"
        "p = NULL \<and> mem s2 = mem s1 \<or> p \<noteq> NULL \<and> mem s1 p = None \<and> mem s2 = (mem s1)(p \<mapsto> OProps empty_properties)"
        using properties_create_ok [OF c(2)] by blast
      have m1: "mem s c = None" "mem s1 = (mem s)(c \<mapsto> OProps empty_properties)" using c(5) c0 by auto
      show ?thesis
      proof (cases "p = NULL")
        case True
        then have m2: "mem s2 c = Some (OProps empty_properties)" using p(5) m1 by simp
        have "lib_inv own (free_obj c s2)" by (rule free_props [OF p(2) m2]) simp
        moreover have "mem (free_obj c s2) = mem s" using True p(5) m1 by (auto simp: fun_eq_iff)
        ultimately show ?thesis using True p(1,3) c(1,3) c0 w destroy_no_parent [OF m2 c0]
          by (simp add: opae_get_parent_token_def fn Some)
      next
        case p0: False
        have m2: "mem s p = None" "p \<noteq> c" "mem s2 = (mem s)(c \<mapsto> OProps empty_properties, p \<mapsto> OProps empty_properties)"
          using p(5) p0 m1 by (auto split: if_splits)
        have m2': "mem s2 c = Some (OProps empty_properties)" using m2 by simp
        have ads: "adapters s2 = adapters s" "tok_list s2 = tok_list s" using c p by simp_all
        have fn2: "adapter_fn s2 (wt_adapter w) E_UpdateProperties = Some (Some f)"
          using fn Some ads by (simp add: adapter_fn_def)
        obtain r q w3 where u: "plugin_update f (wt_opae_token w) c s2 =
              Some (r, put_obj c (OProps q) (s2\<lparr>plug := w3\<rparr>))"
          and q: "wf_props q" "\<not> FIELD_VALID q FPGA_PROPERTY_PARENT"
            "lib_inv own (put_obj c (OProps q) (s2\<lparr>plug := w3\<rparr>))"
          using plugin_update_ok [OF p(2) m2' _ _ fn2, of "wt_opae_token w"] pl ads by auto
        let ?s = "put_obj c (OProps q) (s2\<lparr>plug := w3\<rparr>)"
        have m3: "mem ?s p = Some (OProps empty_properties)" "mem ?s c = Some (OProps q)"
          using m2 by simp_all
        have b3: "\<forall>t. refs own (mem ?s) t + 1 < 2 ^ 32"
          using b m1(1) m2 q(2) by (simp add: held_by_def)
        have tl: "set (tok_list ?s) = tok_dom (mem ?s)" using q(3) by (simp add: lib_inv_def)
        obtain x where pci: "pci_address ?s c = Some (x, ?s)" using pci_address_ok [OF m3(2) c0 q(1)] ..
        let ?mid = "if r \<noteq> FPGA_OK then Some (NULL, ?s)
           else do { (a, s) \<leftarrow> pci_address ?s c;
                     case a of None \<Rightarrow> Some (NULL, s)
                     | Some (addr, ty) \<Rightarrow> if ty = FPGA_DEVICE then Some (NULL, s)
                                         else find_parent addr p (tok_list s) s }"
        have "\<exists>par st e. ?mid = Some (par, st) \<and> adapters st = adapters ?s \<and>
            mem st p = Some (OProps e) \<and> \<not> FIELD_VALID e FPGA_PROPERTY_PARENT \<and>
            (\<forall>x. x \<noteq> p \<longrightarrow> x \<noteq> par \<longrightarrow> mem st x = mem ?s x) \<and> (par = NULL \<or> par \<in> set (tok_list ?s)) \<and>
            (if par = NULL then lib_inv own st else lib_inv (own(par := Suc (own par))) st)"
        proof (cases "r = FPGA_OK \<and> (\<exists>addr ty. x = Some (addr, ty) \<and> ty \<noteq> FPGA_DEVICE)")
          case True
          then obtain addr ty where x: "x = Some (addr, ty)" "ty \<noteq> FPGA_DEVICE" "r = FPGA_OK" by auto
          have "?mid = find_parent addr p (tok_list ?s) ?s" using x by (simp add: pci)
          then show ?thesis
            using find_parent_ok [OF q(3) m3(1) _ _ _ b3, of "tok_list ?s" addr] tl pl ads by simp
        next
          case False
          then have "?mid = Some (NULL, ?s)" by (auto simp: pci split: option.split)
          then show ?thesis using m3 q by simp
        qed
        then obtain par st e where mid: "?mid = Some (par, st)" "adapters st = adapters ?s"
            "mem st p = Some (OProps e)" "\<not> FIELD_VALID e FPGA_PROPERTY_PARENT"
            "\<forall>x. x \<noteq> p \<longrightarrow> x \<noteq> par \<longrightarrow> mem st x = mem ?s x" "par = NULL \<or> par \<in> set (tok_list ?s)"
            "if par = NULL then lib_inv own st else lib_inv (own(par := Suc (own par))) st"
          by (elim exE conjE) (rule that)
        let ?own = "if par = NULL then own else own(par := Suc (own par))"
        let ?f = "free_obj c (free_obj p st)"
        have i4: "lib_inv ?own st" using mid(7) by (cases "par = NULL") simp_all
        have par: "par \<noteq> c" "par \<noteq> p"
          using mid(6) tl m3 c0 p0 by (auto simp: tok_dom_def)
        have mc: "mem (free_obj p st) c = Some (OProps q)" using mid(5) par m2(2) m3(2) by simp
        note i5 = free_props [OF i4 mid(3,4)]
        have "opae_get_parent_token mutex_ok s child = Some (par, ?f)"
          using w c0 p0 mid(1) destroy_no_parent [OF mid(3) p0 _ mid(4)] props_wf [OF i4 mid(3)]
            destroy_no_parent [OF mc c0 q(1,2)]
          by (simp add: opae_get_parent_token_def fn Some c(1) p(1) u)
        moreover have "mem ?f x = mem s x" if "x \<noteq> par" for x
          using that mid(5) m1(1) m2 by (cases "x = c"; cases "x = p") simp_all
        moreover have "lib_inv ?own ?f" by (rule free_props [OF i5 mc q(2)])
        moreover have "par = NULL \<or> par \<in> tok_dom (mem s)"
          using mid(6) tl par m2 by (auto simp: tok_dom_def)
        ultimately show ?thesis using mid(2) ads by (intro exI [of _ par] exI [of _ ?f]) (simp split: if_splits)
      qed
    qed
  qed
qed

lemma set_wrapped_parent_ok:
  assumes inv: "lib_inv (if par = NULL then own else own(par := Suc (own par))) s"
    and m: "mem s a = Some (OProps q)" "\<not> FIELD_VALID q FPGA_PROPERTY_PARENT"
  shows "\<exists>q'. set_wrapped_parent a par s = Some (put_obj a (OProps q') s) \<and> wf_props q' \<and>
    lib_inv own (put_obj a (OProps q') s) \<and> pr_lock q' = pr_lock q - 1 \<and>
    held (OProps q') = (if par = NULL then None else Some par)"
proof -
  let ?u = "if par = NULL then q
            else (SET_FIELD_VALID FPGA_PROPERTY_PARENT q)\<lparr>pr_parent := par\<rparr>"
  let ?q = "?u\<lparr>pr_lock := pr_lock q - 1\<rparr>"
  have wf: "wf_props ?q" using props_wf [OF inv m(1)] by (simp add: wf_props_def)
  have h: "held (OProps ?q) = (if par = NULL then None else Some par)"
    using m(2) by (simp add: FPGA_PROPERTY_PARENT_def)
  have "lib_inv own (put_obj a (OProps ?q) s)"
    by (rule lib_inv_put [OF inv m(1)])
      (use wf h m(2) in \<open>simp_all add: wf_props_def held_by_def del: held.simps\<close>, simp)
  moreover have "set_wrapped_parent a par s = Some (put_obj a (OProps ?q) s)"
    using m(1) by (simp add: set_wrapped_parent_def unlock_properties_def put_obj_idem)
  ultimately show ?thesis using wf h by (intro exI [of _ ?q]) simp
qed

lemma null_none: "lib_inv own s \<Longrightarrow> mem s 0 = None"
  using lib_inv_wf [of own s 0] by (cases "mem s 0") auto

lemma fill_parent_ok:
  assumes inv: "lib_inv own s" and m: "mem s a = Some (OProps q)" "\<not> FIELD_VALID q FPGA_PROPERTY_PARENT"
    and t: "child \<in> tok_dom (mem s)"
    and pl: "props_plugins (adapters s)" and b: "\<forall>t. refs own (mem s) t + 1 < 2 ^ 32"
  shows "\<exists>s' q'. do { (wp, s) \<leftarrow> opae_get_parent_token mutex_ok s child; set_wrapped_parent a wp s } = Some s' \<and>
    lib_inv own s' \<and> adapters s' = adapters s \<and> mem s' a = Some (OProps q') \<and> wf_props q' \<and>
    pr_lock q' = pr_lock q - 1 \<and> (\<forall>x. x \<noteq> a \<longrightarrow> x \<notin> tok_dom (mem s) \<longrightarrow> mem s' x = mem s x)"
proof -
  obtain par st where g: "opae_get_parent_token mutex_ok s child = Some (par, st)"
      "adapters st = adapters s" "\<forall>x. x \<noteq> par \<longrightarrow> mem st x = mem s x" "par = NULL \<or> par \<in> tok_dom (mem s)"
      "if par = NULL then lib_inv own st else lib_inv (own(par := Suc (own par))) st"
    using opae_get_parent_token_ok [OF inv t pl b, of mutex_ok] by (elim exE conjE) (rule that)
  have i: "lib_inv (if par = NULL then own else own(par := Suc (own par))) st"
    using g(5) by (cases "par = NULL") simp_all
  have "a \<noteq> par" using g(4) m(1) props_wf [OF inv m(1)] by (auto simp: tok_dom_def)
  then have ma: "mem st a = Some (OProps q)" using g(3) m(1) by simp
  obtain q' where q': "set_wrapped_parent a par st = Some (put_obj a (OProps q') st)" "wf_props q'"
      "lib_inv own (put_obj a (OProps q') st)" "pr_lock q' = pr_lock q - 1"
    using set_wrapped_parent_ok [OF i ma m(2)] by auto
  have "mem (put_obj a (OProps q') st) x = mem s x" if "x \<noteq> a" "x \<notin> tok_dom (mem s)" for x
    using that g(3,4) null_none [OF inv] null_none [OF i] by (cases "x = par") auto
  with g(1,2) q' show ?thesis
    by (intro exI [of _ "put_obj a (OProps q') st"] exI [of _ q']) simp
qed

lemma plugin_get_ok:
  assumes inv: "lib_inv own s" and pl: "props_plugins (adapters s)" "adapter_fn s ad e = Some (Some f)"
    and e: "e \<in> {E_GetProperties, E_GetPropertiesFromHandle}"
  shows "\<exists>r p s'. plugin_get f h s = Some (r, p, s') \<and> lib_inv own s' \<and> adapters s' = adapters s \<and>
    (if r = FPGA_OK
     then mem s p = None \<and> (\<exists>q. mem s' = (mem s)(p \<mapsto> OProps q) \<and> \<not> FIELD_VALID q FPGA_PROPERTY_PARENT \<and> pr_lock q = 0)
     else mem s' = mem s)"
proof -
  obtain r out w where f: "f [Ptr h] (plug s) = ((r, out), w)" by (metis prod.collapse)
  obtain adp where "adapters s ad = Some adp" "ad_fn adp e = Some f"
    using pl(2) by (auto simp: adapter_fn_def)
  then have fill: "filled_ok (r, out)" "r = FPGA_OK \<longrightarrow> (\<exists>q rest. out = Props q # rest)"
    using pl(1) e f unfolding props_plugins_def props_plugin_def by (metis fst_conv snd_conv ranI)+
  show ?thesis
  proof (cases "r = FPGA_OK")
    case False
    then show ?thesis using inv f by (simp add: plugin_get_def call_plugin_def)
  next
    case True
    then obtain q rest where out: "out = Props q # rest" using fill(2) by auto
    let ?q = "q\<lparr>pr_lock := 0, pr_magic := FPGA_PROPERTY_MAGIC\<rparr>"
    let ?s = "s\<lparr>plug := w\<rparr>"
    let ?n = "(put_obj (brk s) (OProps ?q) ?s)\<lparr>brk := Suc (brk s)\<rparr>"
    have q: "length (pr_guid q) = 16" "length (pr_u q) = 24" "\<not> FIELD_VALID q FPGA_PROPERTY_PARENT"
      using fill(1) out by (simp_all add: filled_ok_def)
    have "lib_inv own ((put_obj (brk ?s) (OProps ?q) ?s)\<lparr>brk := Suc (brk ?s), mallocs := mallocs s\<rparr>)"
      by (rule lib_inv_new) (use inv q in \<open>simp_all add: held_by_def\<close>)
    then have "lib_inv own ?n" by (rule lib_inv_cong) (simp_all add: put_obj_def)
    moreover have "mem s (brk s) = None" using inv by (cases "mem s (brk s)") (auto simp: lib_inv_def)
    moreover have "plugin_get f h s = Some (r, brk s, ?n)"
      using f True out by (simp add: plugin_get_def call_plugin_def)
    ultimately show ?thesis using True q(3)
      by (intro exI [of _ r] exI [of _ "brk s"] exI [of _ ?n]) (auto intro!: exI [of _ ?q])
  qed
qed

text \<open>What the two getters do with the object: lock it, look the parent up, store it, unlock.\<close>

lemma wrap_filled_ok:
  assumes inv: "lib_inv own s" and m: "mem s p = Some (OProps q)" "\<not> FIELD_VALID q FPGA_PROPERTY_PARENT"
    and t: "child \<in> tok_dom (mem s)"
    and pl: "props_plugins (adapters s)" and b: "\<forall>t. refs own (mem s) t + 1 < 2 ^ 32"
  shows "\<exists>s' q'. do { (p, s) \<leftarrow> opae_validate_and_lock_properties s p;
      if p = NULL then Some (FPGA_INVALID_PARAM, Some pr, s)
      else do { (wp, s) \<leftarrow> opae_get_parent_token mutex_ok s child;
                s \<leftarrow> set_wrapped_parent p wp s; Some (res, Some pr, s) } } = Some (res, Some pr, s') \<and>
    lib_inv own s' \<and> adapters s' = adapters s \<and> mem s' p = Some (OProps q') \<and> pr_lock q' = pr_lock q \<and>
    (\<forall>x. x \<noteq> p \<longrightarrow> x \<notin> tok_dom (mem s) \<longrightarrow> mem s' x = mem s x)"
proof -
  let ?q = "q\<lparr>pr_lock := Suc (pr_lock q)\<rparr>" and ?l = "put_obj p (OProps (q\<lparr>pr_lock := Suc (pr_lock q)\<rparr>)) s"
  note l = lock_ok [OF inv m(1)]
  have i: "lib_inv own ?l"
    by (rule lib_inv_put_free(1) [OF inv m(1)]) (use m(2) l(3) in \<open>simp_all add: wf_props_def\<close>)
  have td: "tok_dom (mem ?l) = tok_dom (mem s)" using m(1) by (auto simp: tok_dom_def)
  have bl: "\<forall>t. refs own (mem ?l) t + 1 < 2 ^ 32" using b m by (simp add: held_by_def)
  obtain s' q' where f: "do { (wp, s) \<leftarrow> opae_get_parent_token mutex_ok ?l child; set_wrapped_parent p wp s } = Some s'"
    "lib_inv own s'" "adapters s' = adapters s" "mem s' p = Some (OProps q')" "pr_lock q' = pr_lock q"
    "\<forall>x. x \<noteq> p \<longrightarrow> x \<notin> tok_dom (mem s) \<longrightarrow> mem s' x = mem s x"
    using fill_parent_ok [OF i, of p ?q child mutex_ok] m(2) t td pl bl by auto
  then obtain wp st where "opae_get_parent_token mutex_ok ?l child = Some (wp, st)"
    "set_wrapped_parent p wp st = Some s'" by (auto simp: bind_eq_Some_conv)
  with f l show ?thesis by (intro exI [of _ s'] exI [of _ q']) simp
qed

lemma get_and_wrap_ok:
  assumes inv: "lib_inv own s" and t: "child \<in> tok_dom (mem s)"
    and pl: "props_plugins (adapters s)" "adapter_fn s ad e = Some (Some f)"
    and e: "e \<in> {E_GetProperties, E_GetPropertiesFromHandle}"
    and b: "\<forall>t. refs own (mem s) t + 1 < 2 ^ 32"
  shows "\<exists>r p s'. do { (res, pr, s) \<leftarrow> plugin_get f h s;
      if res \<noteq> FPGA_OK then Some (res, None, s)
      else do { (p, s) \<leftarrow> opae_validate_and_lock_properties s pr;
        if p = NULL then Some (FPGA_INVALID_PARAM, Some pr, s)
        else do { (wp, s) \<leftarrow> opae_get_parent_token mutex_ok s child;
                  s \<leftarrow> set_wrapped_parent p wp s; Some (res, Some pr, s) } } } = Some (r, p, s') \<and> lib_inv own s' \<and>
    adapters s' = adapters s \<and>
    (if r = FPGA_OK
     then \<exists>a q. p = Some a \<and> mem s a = None \<and> mem s' a = Some (OProps q) \<and> pr_lock q = 0 \<and>
            (\<forall>x. x \<noteq> a \<longrightarrow> x \<notin> tok_dom (mem s) \<longrightarrow> mem s' x = mem s x)
     else mem s' = mem s)"
proof -
  obtain r a st where g: "plugin_get f h s = Some (r, a, st)" "lib_inv own st"
    "adapters st = adapters s" "if r = FPGA_OK then mem s a = None \<and> (\<exists>q. mem st = (mem s)(a \<mapsto> OProps q) \<and>
       \<not> FIELD_VALID q FPGA_PROPERTY_PARENT \<and> pr_lock q = 0) else mem st = mem s"
    using plugin_get_ok [OF inv pl e, of h] by (elim exE conjE) (rule that)
  show ?thesis
  proof (cases "r = FPGA_OK")
    case False
    then show ?thesis using g by simp
  next
    case True
    then obtain q where q: "mem s a = None" "mem st = (mem s)(a \<mapsto> OProps q)"
      "\<not> FIELD_VALID q FPGA_PROPERTY_PARENT" "pr_lock q = 0" using g(4) by auto
    have td: "tok_dom (mem st) = tok_dom (mem s)" using q(1,2) by (auto simp: tok_dom_def)
    have bs: "\<forall>t. refs own (mem st) t + 1 < 2 ^ 32" using b q by (simp add: held_by_def)
    have ma: "mem st a = Some (OProps q)" using q(2) by simp
    have ads: "props_plugins (adapters st)" using pl(1) g(3) by simp
    have tst: "child \<in> tok_dom (mem st)" using t td by simp
    obtain s' q' where wr: "do { (p, s) \<leftarrow> opae_validate_and_lock_properties st a;
        if p = NULL then Some (FPGA_INVALID_PARAM, Some a, s)
        else do { (wp, s) \<leftarrow> opae_get_parent_token mutex_ok s child;
                  s \<leftarrow> set_wrapped_parent p wp s; Some (r, Some a, s) } } = Some (r, Some a, s')"
      "lib_inv own s'" "adapters s' = adapters st" "mem s' a = Some (OProps q')" "pr_lock q' = pr_lock q"
      "\<forall>x. x \<noteq> a \<longrightarrow> x \<notin> tok_dom (mem st) \<longrightarrow> mem s' x = mem st x"
      using wrap_filled_ok [OF g(2) ma q(3) tst ads bs, of a mutex_ok r]
      by (elim exE conjE) (rule that)
    show ?thesis
      by (intro exI [of _ r] exI [of _ "Some a"] exI [of _ s']) (use wr g(1,3) True q td in auto)
  qed
qed

lemma fpgaGetProperties_ok:
  assumes inv: "lib_inv own s" and t: "t = NULL \<or> t \<in> tok_dom (mem s)"
    and pl: "props_plugins (adapters s)" and b: "\<forall>t. refs own (mem s) t + 1 < 2 ^ 32"
  shows "\<exists>r p s'. fpgaGetProperties mutex_ok s t out = Some (r, p, s') \<and> lib_inv own s' \<and>
    adapters s' = adapters s \<and>
    (if r = FPGA_OK
     then \<exists>a q. p = Some a \<and> mem s a = None \<and> mem s' a = Some (OProps q) \<and> pr_lock q = 0 \<and>
            (\<forall>x. x \<noteq> a \<longrightarrow> x \<notin> tok_dom (mem s) \<longrightarrow> mem s' x = mem s x)
     else mem s' = mem s)"
proof (cases "out = NULL \<or> t = NULL")
  case True
  show ?thesis
  proof (cases "out = NULL")
    case True
    then have "\<exists>v. opae_validate_wrapped_token s t = Some v"
      using t validate_token_ok [OF inv, of t s]
      by (auto simp: opae_validate_wrapped_token_def validate_magic_def)
    then show ?thesis using True inv by (auto simp: fpgaGetProperties_def)
  next
    case False
    then show ?thesis using True properties_create_ok [OF inv, of mutex_ok]
      by (auto simp: fpgaGetProperties_def opae_validate_wrapped_token_def validate_magic_def
          split: if_splits)
  qed
next
  case False
  then have td: "t \<in> tok_dom (mem s)" using t by simp
  obtain w where w: "mem s t = Some (OTok w)" using tok_domD [OF td] by auto
  have v: "opae_validate_wrapped_token s t = Some t" by (rule validate_token_ok [OF inv td]) simp
  obtain fn where fn: "adapter_fn s (wt_adapter w) E_GetProperties = Some fn"
    using adapter_fn_dom [OF lib_inv_tok(4) [OF inv w]] ..
  show ?thesis
  proof (cases fn)
    case None
    then show ?thesis using inv w v fn False by (simp add: fpgaGetProperties_def)
  next
    case (Some f)
    have "adapter_fn s (wt_adapter w) E_GetProperties = Some (Some f)" using fn Some by simp
    from get_and_wrap_ok [OF inv td pl this _ b, of "wt_opae_token w" mutex_ok] show ?thesis
      using w v fn Some False by (simp add: fpgaGetProperties_def)
  qed
qed

lemma fpgaGetPropertiesFromHandle_ok:
  assumes inv: "lib_inv own s" and m: "mem s h = Some (OHandle w)"
    and pl: "props_plugins (adapters s)" and b: "\<forall>t. refs own (mem s) t + 1 < 2 ^ 32"
  shows "\<exists>r p s'. fpgaGetPropertiesFromHandle mutex_ok s h out = Some (r, p, s') \<and> lib_inv own s' \<and>
    adapters s' = adapters s \<and>
    (if r = FPGA_OK
     then \<exists>a q. p = Some a \<and> mem s a = None \<and> mem s' a = Some (OProps q) \<and> pr_lock q = 0 \<and>
            (\<forall>x. x \<noteq> a \<longrightarrow> x \<notin> tok_dom (mem s) \<longrightarrow> mem s' x = mem s x)
     else mem s' = mem s)"
proof -
  note v = validate_ok(1) [OF inv m]
  have wf: "wh_adapter w \<in> dom (adapters s)" "h \<noteq> 0" using lib_inv_wf [OF inv m] by auto
  have td: "wh_token w \<in> tok_dom (mem s)" using held_tok [OF inv m] by simp
  obtain fn where fn: "adapter_fn s (wh_adapter w) E_GetPropertiesFromHandle = Some fn"
    using adapter_fn_dom [OF wf(1)] ..
  show ?thesis
  proof (cases "out = NULL \<or> fn = None")
    case True
    then show ?thesis using inv m v fn wf(2) by (auto simp: fpgaGetPropertiesFromHandle_def)
  next
    case False
    then obtain f where f: "fn = Some f" by auto
    have "adapter_fn s (wh_adapter w) E_GetPropertiesFromHandle = Some (Some f)" using fn f by simp
    from get_and_wrap_ok [OF inv td pl this _ b, of "wh_opae_handle w" mutex_ok] show ?thesis
      using m v fn f wf(2) False by (simp add: fpgaGetPropertiesFromHandle_def)
  qed
qed

lemma CLEAR_FIELD_VALID_parent [simp]:
  "\<not> FIELD_VALID (CLEAR_FIELD_VALID b p) b"
  "\<not> FIELD_VALID ((CLEAR_FIELD_VALID b p)\<lparr>pr_parent := x\<rparr>) b"
  by (simp_all add: FIELD_VALID_bit CLEAR_FIELD_VALID_def bit_simps)

lemma CLEAR_FIELD_VALID_sel [simp]:
  "pr_lock (CLEAR_FIELD_VALID b p) = pr_lock p" "pr_magic (CLEAR_FIELD_VALID b p) = pr_magic p"
  "pr_guid (CLEAR_FIELD_VALID b p) = pr_guid p" "pr_u (CLEAR_FIELD_VALID b p) = pr_u p"
  by (simp_all add: CLEAR_FIELD_VALID_def)

lemma unlock_ok:
  assumes inv: "lib_inv own s" and m: "mem s a = Some (OProps q)"
  shows "unlock_properties a s = Some (put_obj a (OProps (q\<lparr>pr_lock := pr_lock q - 1\<rparr>)) s)"
    "lib_inv own (put_obj a (OProps (q\<lparr>pr_lock := pr_lock q - 1\<rparr>)) s)"
proof -
  show "unlock_properties a s = Some (put_obj a (OProps (q\<lparr>pr_lock := pr_lock q - 1\<rparr>)) s)"
    using m by (simp add: unlock_properties_def)
  show "lib_inv own (put_obj a (OProps (q\<lparr>pr_lock := pr_lock q - 1\<rparr>)) s)"
    by (rule lib_inv_put [OF inv m])
      (use lib_inv_wf [OF inv m] in \<open>simp_all add: held_by_def\<close>)
qed

lemma fpgaUpdateProperties_ok:
  assumes inv: "lib_inv own s" and t: "0 < own t" and m: "mem s a = Some (OProps p)"
    and pl: "props_plugins (adapters s)" and b: "\<forall>t. refs own (mem s) t + 1 < 2 ^ 32"
  shows "\<exists>r s' q. fpgaUpdateProperties mutex_ok s t a = Some (r, s') \<and> lib_inv own s' \<and>
    adapters s' = adapters s \<and> mem s' a = Some (OProps q) \<and> pr_lock q = pr_lock p"
proof -
  have td: "t \<in> tok_dom (mem s)" by (rule own_tok [OF inv t])
  obtain w where w: "mem s t = Some (OTok w)" using tok_domD [OF td] by auto
  have v: "opae_validate_wrapped_token s t = Some t" by (rule validate_token_ok [OF inv td]) simp
  have t0: "t \<noteq> 0" by (rule lib_inv_tok(5) [OF inv w])
  obtain fn where fn: "adapter_fn s (wt_adapter w) E_UpdateProperties = Some fn"
    using adapter_fn_dom [OF lib_inv_tok(4) [OF inv w]] ..
  note l = lock_ok [OF inv m]
  let ?p = "p\<lparr>pr_lock := Suc (pr_lock p)\<rparr>"
  let ?release = "do {
      q \<leftarrow> get_props (put_obj a (OProps ?p) s) a;
      if FIELD_VALID q FPGA_PROPERTY_PARENT then do {
         wp \<leftarrow> opae_validate_wrapped_token (put_obj a (OProps ?p) s) (pr_parent q);
         s \<leftarrow> (if wp \<noteq> NULL then map_option snd (opae_destroy_wrapped_token (put_obj a (OProps ?p) s) wp)
              else Some (put_obj a (OProps ?p) s));
         Some (put_obj a (OProps ((CLEAR_FIELD_VALID FPGA_PROPERTY_PARENT q)\<lparr>pr_parent := NULL\<rparr>)) s)
      } else Some (put_obj a (OProps ?p) s) }"
  have "\<exists>st q. ?release = Some st \<and> lib_inv own st \<and> adapters st = adapters s \<and>
      mem st a = Some (OProps q) \<and> \<not> FIELD_VALID q FPGA_PROPERTY_PARENT \<and> pr_lock q = Suc (pr_lock p) \<and>
      (\<forall>u. refs own (mem st) u \<le> refs own (mem s) u)"
  proof (cases "FIELD_VALID p FPGA_PROPERTY_PARENT")
    case False
    have "lib_inv own (put_obj a (OProps ?p) s)"
      by (rule lib_inv_put_free(1) [OF inv m]) (use False l(3) in \<open>simp_all add: wf_props_def\<close>)
    then show ?thesis using False m
      by (intro exI [of _ "put_obj a (OProps ?p) s"] exI [of _ ?p]) (simp add: held_by_def)
  next
    case True
    let ?q = "(CLEAR_FIELD_VALID FPGA_PROPERTY_PARENT ?p)\<lparr>pr_parent := NULL\<rparr>"
    obtain r st where d: "\<And>ob. opae_downref_wrapped_token (put_obj a ob s) (pr_parent p) =
        Some (r, put_obj a ob st)" and st: "mem st a = None" "lib_inv own st" "brk st = brk s"
        "adapters st = adapters s" "\<forall>u. refs own (mem st) u \<le> refs own (mem s) u"
      using drop_parent [OF inv m True] by (elim exE conjE) (rule that; simp)
    have "lib_inv own (put_obj a (OProps ?q) st)"
      by (rule lib_inv_set_mem [OF st(2), of a "Some (OProps ?q)" "brk s"])
        (use lib_inv_wf [OF inv m] st in \<open>simp_all add: tok_dom_def held_by_def\<close>)
    moreover have "?release = Some (put_obj a (OProps ?q) st)"
      using True parent_valid [OF inv m True] by (simp add: d opae_destroy_wrapped_token_def)
    moreover have "refs own (mem (put_obj a (OProps ?q) st)) u = refs own (mem st) u" for u
      using st(1) by (simp add: held_by_def)
    ultimately show ?thesis using st
      by (intro exI [of _ "put_obj a (OProps ?q) st"] exI [of _ ?q]) simp
  qed
  then obtain st q where rel: "?release = Some st" "lib_inv own st" "adapters st = adapters s"
      "mem st a = Some (OProps q)" "\<not> FIELD_VALID q FPGA_PROPERTY_PARENT" "pr_lock q = Suc (pr_lock p)"
      "\<forall>u. refs own (mem st) u \<le> refs own (mem s) u"
    by (elim exE conjE) (rule that)
  show ?thesis
  proof (cases fn)
    case None
    then show ?thesis using inv w v t0 fn m by (simp add: fpgaUpdateProperties_def)
  next
    case (Some f)
    obtain w2 where w2: "mem st t = Some (OTok w2)" using tok_domD [OF own_tok [OF rel(2) t]] by auto
    have fst: "adapter_fn st (wt_adapter w) E_UpdateProperties = Some (Some f)"
      using fn Some rel(3) by (simp add: adapter_fn_def)
    have pst: "props_plugins (adapters st)" using pl rel(3) by simp
    obtain r q2 pl2 where u: "plugin_update f (wt_opae_token w2) a st =
          Some (r, put_obj a (OProps q2) (st\<lparr>plug := pl2\<rparr>))"
      and q2: "wf_props q2" "pr_lock q2 = pr_lock q" "\<not> FIELD_VALID q2 FPGA_PROPERTY_PARENT"
        "lib_inv own (put_obj a (OProps q2) (st\<lparr>plug := pl2\<rparr>))"
      using plugin_update_ok [OF rel(2,4,5) pst fst, of "wt_opae_token w2"] by (elim exE conjE) (rule that)
    let ?u = "put_obj a (OProps q2) (st\<lparr>plug := pl2\<rparr>)"
    have mu: "mem ?u a = Some (OProps q2)" by simp
    have run: "fpgaUpdateProperties mutex_ok s t a =
       (if r \<noteq> FPGA_OK then do { s \<leftarrow> unlock_properties a ?u; Some (r, s) }
        else do { (wp, s) \<leftarrow> opae_get_parent_token mutex_ok ?u t;
                  s \<leftarrow> set_wrapped_parent a wp s; Some (r, s) })"
      using rel(1) w w2 t0 l(2) m u fn Some
      by (cases "FIELD_VALID p FPGA_PROPERTY_PARENT")
        (auto simp: fpgaUpdateProperties_def v l(1) bind_eq_Some_conv)
    show ?thesis
    proof (cases "r = FPGA_OK")
      case False
      then show ?thesis using run unlock_ok [OF q2(4) mu] q2(2) rel(3,6) by simp
    next
      case True
      have tu: "t \<in> tok_dom (mem ?u)" by (rule own_tok [OF q2(4) t])
      have bu: "\<forall>t. refs own (mem ?u) t + 1 < 2 ^ 32"
      proof
        fix u
        have "refs own (mem ?u) u = refs own (mem st) u" using rel(4,5) q2(3) by (simp add: held_by_def)
        also have "... \<le> refs own (mem s) u" using rel(7) by simp
        finally show "refs own (mem ?u) u + 1 < 2 ^ 32" using b by (meson add_le_mono1 order_le_less_trans)
      qed
      have pu: "props_plugins (adapters ?u)" using pst by simp
      obtain s' q' where f: "do { (wp, s) \<leftarrow> opae_get_parent_token mutex_ok ?u t; set_wrapped_parent a wp s } = Some s'"
        "lib_inv own s'" "adapters s' = adapters ?u" "mem s' a = Some (OProps q')" "pr_lock q' = pr_lock q2 - 1"
        using fill_parent_ok [OF q2(4) mu q2(3) tu pu bu, of mutex_ok] by (elim exE conjE) (rule that)
      then obtain wp st' where "opae_get_parent_token mutex_ok ?u t = Some (wp, st')"
        "set_wrapped_parent a wp st' = Some s'" by (auto simp: bind_eq_Some_conv)
      then show ?thesis using run True q2(2) rel(3,6) f
        by (intro exI [of _ r] exI [of _ s'] exI [of _ q']) simp
    qed
  qed
qed

end
