(* ===== verification/Api_Enum.thy ===== *)
theory Api_Enum
  imports Api_Shell
begin

section \<open>Enumeration (api-shell.c)\<close>

text \<open>
  \<^verbatim>\<open>fpgaEnumerate\<close> puts the filters' wrapped parents back and hands out fresh tokens, on every path.
\<close>

subsection \<open>Enumeration keeps the objects in order\<close>

text \<open>
  \<open>grows own s new s'\<close>: the only change of memory is the new tokens \<open>new\<close>, of which the client owns
  one reference each.
\<close>

definition grows :: "(ptr \<Rightarrow> nat) \<Rightarrow> 'p lib \<Rightarrow> ptr list \<Rightarrow> 'p lib \<Rightarrow> bool" where
  "grows own s new s' \<longleftrightarrow> lib_inv (\<lambda>t. own t + of_bool (t \<in> set new)) s' \<and> distinct new \<and>
     (\<forall>t \<in> set new. mem s t = None \<and> t \<in> tok_dom (mem s')) \<and>
     (\<forall>a. a \<notin> set new \<longrightarrow> mem s' a = mem s a) \<and> brk s \<le> brk s' \<and> adapters s' = adapters s \<and>
     adapter_list s' = adapter_list s"

lemma grows_refl: "lib_inv own s \<Longrightarrow> grows own s [] s"
  by (simp add: grows_def)

lemma grows_plug: "grows own s new s' \<Longrightarrow> grows own s new (s'\<lparr>plug := w\<rparr>)"
  "grows own (s\<lparr>plug := w\<rparr>) new s' \<Longrightarrow> grows own s new s'"
  by (simp_all add: grows_def)

lemma grows_trans:
  assumes "grows own s n1 s1" "grows (\<lambda>t. own t + of_bool (t \<in> set n1)) s1 n2 s2"
  shows "grows own s (n1 @ n2) s2"
proof -
  have d: "t \<notin> set n2" if "t \<in> set n1" for t
    using assms that by (force simp: grows_def tok_dom_def)
  have d2: "mem s t = None" if "t \<in> set n2" for t
  proof -
    have "t \<notin> set n1" using d that by blast
    then have "mem s1 t = mem s t" using assms(1) by (simp add: grows_def)
    then show ?thesis using assms(2) that by (simp add: grows_def)
  qed
  have d3: "t \<in> tok_dom (mem s2)" if "t \<in> set n1" for t
  proof -
    have "mem s2 t = mem s1 t" using assms(2) d [OF that] by (simp add: grows_def)
    then show ?thesis using assms(1) that by (simp add: grows_def tok_dom_def)
  qed
  have "(\<lambda>t. own t + of_bool (t \<in> set n1) + of_bool (t \<in> set n2)) =
      (\<lambda>t. own t + of_bool (t \<in> set (n1 @ n2)))"
    using d by (auto simp: fun_eq_iff)
  with assms d d2 d3 show ?thesis
    unfolding grows_def by auto
qed

lemma alloc_token_grows:
  assumes inv: "lib_inv own s" and ad: "a \<in> dom (adapters s)"
  shows "\<exists>p s'. opae_allocate_wrapped_token s tk a = Some (p, s') \<and>
    (if p = NULL then grows own s [] s' else grows own s [p] s')"
proof -
  have new: "mem s (brk s) = None" using inv by (cases "mem s (brk s)") (auto simp: lib_inv_def)
  obtain p s' where a: "opae_allocate_wrapped_token s tk a = Some (p, s')" "adapters s' = adapters s"
    and p: "p = 0 \<and> mem s' = mem s \<and> brk s' = brk s \<and> lib_inv own s' \<or>
      p = brk s \<and> p \<noteq> 0 \<and> own p = 0 \<and> lib_inv (own(p := 1)) s' \<and>
      (\<exists>w. mem s' = (mem s)(p \<mapsto> OTok w)) \<and> brk s' = Suc (brk s)"
    using alloc_token_ok [OF inv ad, of tk] by blast
  have al: "adapter_list s' = adapter_list s"
    using a(1) by (auto simp: opae_allocate_wrapped_token_def alloc_obj_def opae_upref_wrapped_token_def
        bind_eq_Some_conv put_obj_def split: list.splits bool.splits if_splits)
  show ?thesis
  proof (cases "p = 0")
    case True
    then show ?thesis using p a al inv by (auto simp: grows_def lib_inv_def)
  next
    case False
    have "own(p := 1) = (\<lambda>t. own t + of_bool (t \<in> set [p]))" using p False by (auto simp: fun_eq_iff)
    then show ?thesis using p False a al new by (auto simp: grows_def tok_dom_def)
  qed
qed

lemma wrap_tokens_grows:
  assumes "lib_inv own s" "a \<in> dom (adapters s)"
  shows "\<exists>ok ctx' s' new. wrap_tokens a ts ctx s = Some (ok, ctx', s') \<and> grows own s new s' \<and>
    ec_wrapped ctx' = ec_wrapped ctx @ new \<and> length new \<le> length ts \<and>
    ec_max ctx' = ec_max ctx \<and> ec_array ctx' = ec_array ctx \<and> ec_filters ctx' = ec_filters ctx \<and>
    ec_num_matches ctx' = ec_num_matches ctx \<and>
    ec_errors ctx' = ec_errors ctx + (if ok then 0 else 1) \<and> (ok \<longrightarrow> length new = length ts)"
  using assms
proof (induction ts arbitrary: own ctx s)
  case Nil
  then show ?case using grows_refl [OF Nil(1)]
    by (intro exI [of _ True] exI [of _ ctx] exI [of _ s] exI [of _ "[]"]) simp
next
  case (Cons t ts)
  obtain p s1 where a: "opae_allocate_wrapped_token s t a = Some (p, s1)"
    "if p = NULL then grows own s [] s1 else grows own s [p] s1"
    using alloc_token_grows [OF Cons.prems] by blast
  show ?case
  proof (cases "p = NULL")
    case True
    then show ?thesis using a
      by (intro exI [of _ False] exI [of _ "ctx\<lparr>ec_errors := ec_errors ctx + 1\<rparr>"] exI [of _ s1]
          exI [of _ "[]"]) simp
  next
    case False
    let ?ctx = "ctx\<lparr>ec_wrapped := ec_wrapped ctx @ [p]\<rparr>" and ?own = "\<lambda>t. own t + of_bool (t \<in> set [p])"
    have g: "grows own s [p] s1" using a False by simp
    then have i: "lib_inv ?own s1" "a \<in> dom (adapters s1)" using Cons.prems(2) by (simp_all add: grows_def)
    obtain ok ctx' s' new where ih: "wrap_tokens a ts ?ctx s1 = Some (ok, ctx', s')" "grows ?own s1 new s'"
      "ec_wrapped ctx' = ec_wrapped ?ctx @ new" "length new \<le> length ts"
      "ec_max ctx' = ec_max ?ctx" "ec_array ctx' = ec_array ?ctx" "ec_filters ctx' = ec_filters ?ctx"
      "ec_num_matches ctx' = ec_num_matches ?ctx"
      "ec_errors ctx' = ec_errors ?ctx + (if ok then 0 else 1)" "ok \<longrightarrow> length new = length ts"
      using Cons.IH [OF i, of ?ctx] by (elim exE conjE) (rule that)
    show ?thesis using ih(1,3-) grows_trans [OF g ih(2)] a(1) False
      by (intro exI [of _ ok] exI [of _ ctx'] exI [of _ s'] exI [of _ "p # new"]) simp
  qed
qed

text \<open>
  What the library relies on of a plugin's \<^verbatim>\<open>fpgaEnumerate\<close>: a successful call stores no more tokens
  than it was given space for.
\<close>

definition enum_plugins :: "(ptr \<rightharpoonup> 'p adapter) \<Rightarrow> bool" where
  "enum_plugins ads \<longleftrightarrow> (\<forall>ad \<in> ran ads. \<forall>f n qs w res out. ad_fn ad E_Enumerate = Some f \<longrightarrow>
     fst (f (W32 n # qs) w) = (res, out) \<longrightarrow> res = FPGA_OK \<longrightarrow>
     (\<exists>k ts. out = [W32 k, Ptrs ts] \<and> length ts \<le> unat n))"

lemma opae_enumerate_grows:
  assumes inv: "lib_inv own s" and a: "a \<in> dom (adapters s)" and pl: "enum_plugins (adapters s)"
    and len: "length (ec_wrapped ctx) \<le> unat (ec_max ctx)"
  shows "\<exists>cb ctx' s' new. opae_enumerate a ctx s = Some (cb, ctx', s') \<and> grows own s new s' \<and>
    ec_wrapped ctx' = ec_wrapped ctx @ new \<and> length (ec_wrapped ctx') \<le> unat (ec_max ctx) \<and>
    ec_max ctx' = ec_max ctx"
proof -
  let ?sp = "ec_max ctx - of_nat (length (ec_wrapped ctx))"
  have "unat (ec_max ctx) < 2 ^ LENGTH(32)" by (rule unsigned_less)
  then have lt: "length (ec_wrapped ctx) < 2 ^ 32" using len by simp
  then have n: "unat (of_nat (length (ec_wrapped ctx)) :: u32) = length (ec_wrapped ctx)"
    by (simp add: unat_of_nat)
  then have sp: "unat ?sp = unat (ec_max ctx) - length (ec_wrapped ctx)"
    using len by (simp add: unat_sub_le word_le_nat_alt)
  have same: ?thesis if "opae_enumerate a ctx s = Some (cb, ctx', s\<lparr>plug := w\<rparr>)"
    "ec_wrapped ctx' = ec_wrapped ctx" "ec_max ctx' = ec_max ctx" for cb ctx' w
    using that len grows_plug(1) [OF grows_refl [OF inv]]
    by (intro exI [of _ cb] exI [of _ ctx'] exI [of _ "s\<lparr>plug := w\<rparr>"] exI [of _ "[]"]) simp
  show ?thesis
  proof (cases "ec_array ctx \<noteq> None \<and> ?sp = 0")
    case True
    then show ?thesis by (intro same [of OPAE_ENUM_STOP ctx "plug s"]) (simp_all add: opae_enumerate_def)
  next
    case False
    obtain fn where fn: "adapter_fn s a E_Enumerate = Some fn" using adapter_fn_dom [OF a] ..
    show ?thesis
    proof (cases fn)
      case None
      then show ?thesis using False
        by (intro same [of OPAE_ENUM_CONTINUE ctx "plug s"]) (auto simp: opae_enumerate_def Let_def fn)
    next
      case (Some f)
      obtain res out w where f: "f (W32 ?sp # map Props (ec_filters ctx)) (plug s) = ((res, out), w)"
        by (metis prod.collapse)
      have c: "call_plugin f (W32 ?sp # map Props (ec_filters ctx)) s = ((res, out), s\<lparr>plug := w\<rparr>)"
        by (simp add: call_plugin_def f)
      show ?thesis
      proof (cases "res = FPGA_OK")
        case bad: False
        then show ?thesis using False
          by (intro same [of OPAE_ENUM_CONTINUE "ctx\<lparr>ec_errors := ec_errors ctx + 1\<rparr>" w])
            (auto simp: opae_enumerate_def Let_def fn Some c)
      next
        case True
        obtain ad where "adapters s a = Some ad" "ad_fn ad E_Enumerate = Some f"
          using fn Some by (auto simp: adapter_fn_def)
        then obtain k ts where out: "out = [W32 k, Ptrs ts]" "length ts \<le> unat ?sp"
          using pl True f unfolding enum_plugins_def by (metis fst_conv ranI)
        let ?ctx = "ctx\<lparr>ec_num_matches := ec_num_matches ctx + k\<rparr>"
        show ?thesis
        proof (cases "ec_array ctx")
          case None
          then show ?thesis
            by (intro same [of OPAE_ENUM_CONTINUE ?ctx w]) (auto simp: opae_enumerate_def Let_def fn Some c True out enum_reply_def)
        next
          case arr: (Some arr)
          let ?arr = "ts @ drop (length ts) arr"
          let ?n = "min (unat ?sp) (unat k)"
          have i: "lib_inv own (s\<lparr>plug := w\<rparr>)" "a \<in> dom (adapters (s\<lparr>plug := w\<rparr>))" using inv a by simp_all
          obtain ok ctx' s' new where wr: "wrap_tokens a (take ?n ?arr) (?ctx\<lparr>ec_array := Some ?arr\<rparr>)
              (s\<lparr>plug := w\<rparr>) = Some (ok, ctx', s')" "grows own (s\<lparr>plug := w\<rparr>) new s'"
            "ec_wrapped ctx' = ec_wrapped ctx @ new" "length new \<le> length (take ?n ?arr)"
            "ec_max ctx' = ec_max ctx"
            using wrap_tokens_grows [OF i, of "take ?n ?arr" "?ctx\<lparr>ec_array := Some ?arr\<rparr>"]
            by auto
          have "length (ec_wrapped ctx') \<le> unat (ec_max ctx)" using wr(3,4) sp len by simp
          moreover have "\<exists>cb. opae_enumerate a ctx s = Some (cb, ctx', s')"
            using False arr wr(1) out(2) by (simp add: opae_enumerate_def Let_def fn Some c True out(1) enum_reply_def)
          ultimately show ?thesis using wr(3,5) grows_plug(2) [OF wr(2)] by blast
        qed
      qed
    qed
  qed
qed

lemma visit_grows:
  assumes "lib_inv own s" "set as \<subseteq> dom (adapters s)" "enum_plugins (adapters s)"
    "length (ec_wrapped ctx) \<le> unat (ec_max ctx)"
  shows "\<exists>cb ctx' s' new. visit_adapters opae_enumerate as ctx s = Some (cb, ctx', s') \<and>
    grows own s new s' \<and> ec_wrapped ctx' = ec_wrapped ctx @ new \<and>
    length (ec_wrapped ctx') \<le> unat (ec_max ctx)"
  using assms
proof (induction as arbitrary: own ctx s)
  case Nil
  then show ?case using grows_refl [OF Nil(1)]
    by (intro exI [of _ OPAE_ENUM_CONTINUE] exI [of _ ctx] exI [of _ s] exI [of _ "[]"]) simp
next
  case (Cons a as)
  obtain cb c1 s1 n1 where e: "opae_enumerate a ctx s = Some (cb, c1, s1)" "grows own s n1 s1"
    "ec_wrapped c1 = ec_wrapped ctx @ n1" "length (ec_wrapped c1) \<le> unat (ec_max ctx)"
    "ec_max c1 = ec_max ctx"
    using opae_enumerate_grows [OF Cons.prems(1) _ Cons.prems(3,4), of a] Cons.prems(2) by auto
  show ?case
  proof (cases "cb = 0")
    case False
    then show ?thesis using e by (intro exI [of _ cb] exI [of _ c1] exI [of _ s1] exI [of _ n1]) simp
  next
    case True
    let ?own = "\<lambda>t. own t + of_bool (t \<in> set n1)"
    have i: "lib_inv ?own s1" "set as \<subseteq> dom (adapters s1)" "enum_plugins (adapters s1)"
      "length (ec_wrapped c1) \<le> unat (ec_max c1)"
      using e Cons.prems(2,3) by (auto simp: grows_def)
    obtain cb' c2 s2 n2 where ih: "visit_adapters opae_enumerate as c1 s1 = Some (cb', c2, s2)"
      "grows ?own s1 n2 s2" "ec_wrapped c2 = ec_wrapped c1 @ n2" "length (ec_wrapped c2) \<le> unat (ec_max c1)"
      using Cons.IH [OF i] by (elim exE conjE) (rule that)
    show ?thesis using ih(1,3,4) e True grows_trans [OF e(2) ih(2)]
      by (intro exI [of _ cb'] exI [of _ c2] exI [of _ s2] exI [of _ "n1 @ n2"]) simp
  qed
qed

subsection \<open>Enumeration does not look at the filters' objects\<close>

lemma alloc_token_put:
  "a < brk s \<Longrightarrow> opae_allocate_wrapped_token (put_obj a ob s) t ad =
   map_option (map_prod id (put_obj a ob)) (opae_allocate_wrapped_token s t ad)"
  by (cases "mallocs s"; cases "brk s = 0")
    (auto simp: opae_allocate_wrapped_token_def alloc_obj_def opae_upref_wrapped_token_def put_obj_def
      fun_upd_twist split: bool.split)

lemma alloc_token_brk: "opae_allocate_wrapped_token s t ad = Some (p, s') \<Longrightarrow> brk s \<le> brk s'"
  by (auto simp: opae_allocate_wrapped_token_def alloc_obj_def opae_upref_wrapped_token_def
      bind_eq_Some_conv put_obj_def Let_def split: list.splits bool.splits if_splits)

lemma wrap_tokens_put:
  "a < brk s \<Longrightarrow> wrap_tokens ad ts ctx (put_obj a ob s) =
   map_option (map_prod id (map_prod id (put_obj a ob))) (wrap_tokens ad ts ctx s) \<and>
   (\<forall>ok ctx' s'. wrap_tokens ad ts ctx s = Some (ok, ctx', s') \<longrightarrow> brk s \<le> brk s')"
proof (induction ts arbitrary: ctx s)
  case (Cons t ts)
  show ?case
  proof (cases "opae_allocate_wrapped_token s t ad")
    case None
    then show ?thesis using Cons.prems by (simp add: alloc_token_put)
  next
    case (Some r)
    then obtain p s1 where s1: "opae_allocate_wrapped_token s t ad = Some (p, s1)" by (cases r) auto
    have b: "brk s \<le> brk s1" by (rule alloc_token_brk [OF s1])
    with Cons.prems have "a < brk s1" by simp
    note ih = Cons.IH [OF this, THEN conjunct1] Cons.IH [OF this, THEN conjunct2, rule_format]
    show ?thesis
    proof (intro conjI allI impI)
      show "wrap_tokens ad (t # ts) ctx (put_obj a ob s) =
          map_option (map_prod id (map_prod id (put_obj a ob))) (wrap_tokens ad (t # ts) ctx s)"
        using Cons.prems by (simp add: alloc_token_put s1 ih(1) id_def)
      show "brk s \<le> brk s'" if "wrap_tokens ad (t # ts) ctx s = Some (ok, ctx', s')" for ok ctx' s'
        using that b ih(2) by (cases "p = NULL") (simp_all add: s1, blast intro: le_trans)
    qed
  qed
qed simp

lemma call_plugin_put:
  "call_plugin f args (put_obj a ob s) = map_prod id (put_obj a ob) (call_plugin f args s)"
  by (simp add: call_plugin_def put_obj_plug split: prod.split)

lemma adapter_fn_put [simp]: "adapter_fn (put_obj a ob s) ad e = adapter_fn s ad e"
  by (simp add: adapter_fn_def)

lemma opae_enumerate_put:
  assumes a: "a < brk s"
  shows "opae_enumerate ad ctx (put_obj a ob s) =
     map_option (map_prod id (map_prod id (put_obj a ob))) (opae_enumerate ad ctx s)" (is "?l = ?r")
    and "opae_enumerate ad ctx s = Some (cb, ctx', s') \<Longrightarrow> brk s \<le> brk s'" (is "?e \<Longrightarrow> _")
proof -
  let ?sp = "ec_max ctx - of_nat (length (ec_wrapped ctx))"
  have "?l = ?r \<and> (?e \<longrightarrow> brk s \<le> brk s')"
  proof (cases "ec_array ctx \<noteq> None \<and> ?sp = 0")
    case True
    then show ?thesis by (simp add: opae_enumerate_def)
  next
    case False
    show ?thesis
    proof (cases "adapter_fn s ad E_Enumerate")
      case None
      then show ?thesis using False by (auto simp: opae_enumerate_def Let_def)
    next
      case fn: (Some fn)
      show ?thesis
      proof (cases fn)
        case None
        then show ?thesis using False fn by (auto simp: opae_enumerate_def Let_def)
      next
        case (Some f)
        obtain res out w where c: "call_plugin f (W32 ?sp # map Props (ec_filters ctx)) s =
            ((res, out), s\<lparr>plug := w\<rparr>)"
          using call_plugin_eq [of f _ s] by (metis prod.collapse)
        note c2 = call_plugin_put [of f "W32 ?sp # map Props (ec_filters ctx)" a ob s, unfolded c]
        have as: "a < brk (s\<lparr>plug := w\<rparr>)" using a by simp
        note wr = wrap_tokens_put [OF as, THEN conjunct1]
          wrap_tokens_put [OF as, THEN conjunct2, rule_format]
        obtain n ts where nt: "enum_reply out = (n, ts)" by (cases "enum_reply out")
        show ?thesis
        proof (cases "res = FPGA_OK")
          case bad: False
          then show ?thesis using False by (auto simp: opae_enumerate_def Let_def fn Some c c2)
        next
          case True
          show ?thesis
          proof (cases "ec_array ctx")
            case None
            then show ?thesis by (auto simp: opae_enumerate_def Let_def fn Some c c2 True nt)
          next
            case arr: (Some arr)
            show ?thesis
            proof (cases "length ts > unat ?sp")
              case True
              then show ?thesis using False arr \<open>res = FPGA_OK\<close> nt
                by (simp add: opae_enumerate_def Let_def fn Some c c2)
            next
              case len: False
              let ?arr = "ts @ drop (length ts) arr" and ?n = "min (unat ?sp) (unat n)"
              let ?ctx = "ctx\<lparr>ec_num_matches := ec_num_matches ctx + n, ec_array := Some (ts @ drop (length ts) arr)\<rparr>"
              show ?thesis
                using False arr \<open>res = FPGA_OK\<close> nt len
                  wr(1) [of ad "take ?n ?arr" ?ctx ob] wr(2) [of ad "take ?n ?arr" ?ctx]
                by (cases "wrap_tokens ad (take ?n ?arr) ?ctx (s\<lparr>plug := w\<rparr>)")
                  (auto simp: opae_enumerate_def Let_def fn Some c c2)
            qed
          qed
        qed
      qed
    qed
  qed
  then show "?l = ?r" "?e \<Longrightarrow> brk s \<le> brk s'" by simp_all
qed

lemma visit_put:
  "a < brk s \<Longrightarrow> visit_adapters opae_enumerate ads ctx (put_obj a ob s) =
   map_option (map_prod id (map_prod id (put_obj a ob))) (visit_adapters opae_enumerate ads ctx s)"
proof (induction ads arbitrary: ctx s)
  case (Cons ad ads)
  show ?case
  proof (cases "opae_enumerate ad ctx s")
    case None
    then show ?thesis using Cons.prems by (simp add: opae_enumerate_put(1))
  next
    case (Some r)
    then obtain cb c1 s1 where e: "opae_enumerate ad ctx s = Some (cb, c1, s1)" by (cases r) auto
    have "a < brk s1" using opae_enumerate_put(2) [OF Cons.prems e] Cons.prems by simp
    from Cons.IH [OF this] show ?thesis using Cons.prems e by (simp add: opae_enumerate_put(1) id_def)
  qed
qed simp

subsection \<open>The filters come back\<close>

text \<open>\<open>restore R s\<close> is \<open>s\<close> with the filters listed in \<open>R\<close> as they were.\<close>

definition restore :: "(ptr \<times> fpga_properties) list \<Rightarrow> 'p lib \<Rightarrow> 'p lib" where
  "restore R s = s\<lparr>mem := (\<lambda>a. case map_of R a of Some p \<Rightarrow> Some (OProps p) | None \<Rightarrow> mem s a)\<rparr>"

definition fixups :: "(ptr \<times> fpga_properties) list \<Rightarrow> (ptr \<times> ptr) list" where
  "fixups R = map (\<lambda>(a, p). (a, pr_parent p)) R"

definition unwrapped :: "(ptr \<times> fpga_properties) list \<Rightarrow> 'p lib \<Rightarrow> bool" where
  "unwrapped R s \<longleftrightarrow> distinct (map fst R) \<and>
     (\<forall>(a, p) \<in> set R. a \<noteq> 0 \<and> a < brk s \<and> wf_props p \<and>
        (\<exists>raw. mem s a = Some (OProps (p\<lparr>pr_parent := raw\<rparr>))))"

lemma restore_simps [simp]:
  "restore [] s = s" "restore ((a, p) # R) s = put_obj a (OProps p) (restore R s)"
  "brk (restore R s) = brk s" "adapters (restore R s) = adapters s"
  "adapter_list (restore R s) = adapter_list s"
  by (auto simp: restore_def put_obj_def fun_eq_iff)

lemma mem_restore: "a \<notin> fst ` set R \<Longrightarrow> mem (restore R s) a = mem s a"
  using map_of_eq_None_iff [of R a] by (simp add: restore_def)

lemma restore_put: "a \<notin> fst ` set R \<Longrightarrow> restore R (put_obj a ob s) = put_obj a ob (restore R s)"
  using map_of_eq_None_iff [of R a]
  by (intro lib.equality) (auto simp: restore_def put_obj_def fun_eq_iff cong: option.case_cong)

lemma restore_mallocs: "restore R (s\<lparr>mallocs := ms\<rparr>) = (restore R s)\<lparr>mallocs := ms\<rparr>"
  by (rule lib.equality) (simp_all add: restore_def cong: option.case_cong)

lemma visit_restore:
  "\<forall>a \<in> fst ` set R. a < brk s \<Longrightarrow> visit_adapters opae_enumerate ads ctx (restore R s) =
   map_option (map_prod id (map_prod id (restore R))) (visit_adapters opae_enumerate ads ctx s)"
proof (induction R)
  case Nil
  have "restore [] = (id :: 'a lib \<Rightarrow> 'a lib)" by (simp add: fun_eq_iff)
  then show ?case by (simp add: id_def map_prod_def option.map_ident)
next
  case (Cons x R)
  obtain a p where x: "x = (a, p)" by (cases x)
  have r: "restore (x # R) = put_obj a (OProps p) \<circ> restore R" by (simp add: x fun_eq_iff)
  have "a < brk (restore R s)" using Cons.prems x by simp
  from visit_put [OF this, of ads ctx "OProps p"] Cons show ?case
    by (cases "visit_adapters opae_enumerate ads ctx s") (auto simp: r)
qed

lemma rewrap_restores:
  "unwrapped R s \<Longrightarrow> rewrap_filters (fixups R) s = Some (restore R s)"
proof (induction R arbitrary: s)
  case (Cons x R)
  obtain a p where x: "x = (a, p)" by (cases x)
  obtain raw where raw: "mem s a = Some (OProps (p\<lparr>pr_parent := raw\<rparr>))" "a \<noteq> 0" "wf_props p"
    using Cons.prems by (auto simp: unwrapped_def x)
  have na: "a \<notin> fst ` set R" using Cons.prems by (auto simp: unwrapped_def x)
  have u: "unwrapped R (put_obj a (OProps p) s)"
    using Cons.prems na by (force simp: unwrapped_def x image_iff)
  have "rewrap_filters (fixups (x # R)) s = rewrap_filters (fixups R) (put_obj a (OProps p) s)"
    using raw by (simp add: fixups_def x opae_validate_and_lock_properties_def wf_props_def
        unlock_properties_def)
  also have "... = Some (restore R (put_obj a (OProps p) s))" by (rule Cons.IH [OF u])
  finally show ?case by (simp add: x restore_put [OF na])
qed (simp add: fixups_def)

lemma malloc_ok_eq: "\<exists>ok ms. malloc_ok s = (ok, s\<lparr>mallocs := ms\<rparr>)"
  by (auto simp: malloc_ok_def split: list.split bool.split)

lemma unwrap_ok:
  assumes "lib_inv own (restore R s)" "unwrapped R s" "distinct fs" "set fs \<inter> fst ` set R = {}"
    "\<forall>f \<in> set fs. \<exists>p. mem s f = Some (OProps p)"
  shows "\<exists>res R' s' ms. unwrap_filters fs (fixups R) s = Some (res, fixups R', s') \<and>
    unwrapped R' s' \<and> restore R' s' = (restore R s)\<lparr>mallocs := ms\<rparr> \<and>
    (\<forall>a. (\<exists>p. mem s a = Some (OProps p)) \<longrightarrow> (\<exists>p. mem s' a = Some (OProps p)))"
  using assms
proof (induction fs arbitrary: R s)
  case Nil
  then show ?case
    by (intro exI [of _ FPGA_OK] exI [of _ R] exI [of _ s] exI [of _ "mallocs s"])
      (simp add: restore_def)
next
  case (Cons f fs)
  note inv = Cons.prems(1)
  obtain p where p: "mem s f = Some (OProps p)" using Cons.prems(5) by auto
  have nf: "f \<notin> fst ` set R" using Cons.prems(4) by auto
  have rp: "mem (restore R s) f = Some (OProps p)" using p by (simp add: mem_restore [OF nf])
  have wf: "wf_props p" "f \<noteq> 0" "f < brk s"
    using lib_inv_wf [OF inv rp] by (simp_all add: wf_props_def)
  let ?p = "p\<lparr>pr_lock := Suc (pr_lock p)\<rparr>"
  have lock: "opae_validate_and_lock_properties s f = Some (f, put_obj f (OProps ?p) s)"
    using p wf by (simp add: opae_validate_and_lock_properties_def wf_props_def)
  show ?case
  proof (cases "FIELD_VALID p FPGA_PROPERTY_PARENT")
    case False
    have e: "unwrap_filters (f # fs) (fixups R) s = unwrap_filters fs (fixups R) s"
      using wf(2) p False by (simp add: lock unlock_properties_def put_obj_idem)
    show ?thesis unfolding e using Cons.prems by (intro Cons.IH) auto
  next
    case True
    let ?t = "pr_parent p"
    note t = parent_tok [OF inv rp True]
    have nt: "?t \<notin> fst ` set R"
    proof
      assume "?t \<in> fst ` set R"
      then obtain q where "map_of R ?t = Some q" by (metis map_of_eq_None_iff not_Some_eq)
      then have "mem (restore R s) ?t = Some (OProps q)" by (simp add: restore_def)
      with tok_domD [OF t(1)] show False by auto
    qed
    have mt: "mem (restore R s) ?t = mem s ?t" by (rule mem_restore [OF nt])
    obtain w where w: "mem s ?t = Some (OTok w)" using tok_domD [OF t(1)] mt by auto
    have v: "opae_validate_wrapped_token (put_obj f (OProps ?p) s) ?t = Some ?t"
      by (rule validate_token_ok [OF inv t(1)]) (use mt t(2) in simp)
    have t0: "?t \<noteq> 0" using tok_domD [OF t(1)] lib_inv_tok(5) [OF inv] by blast
    obtain ok ms where mo: "malloc_ok (put_obj f (OProps ?p) s) = (ok, put_obj f (OProps ?p) (s\<lparr>mallocs := ms\<rparr>))"
      using malloc_ok_eq [of "put_obj f (OProps ?p) s"] by (auto simp: put_obj_upd)
    show ?thesis
    proof (cases ok)
      case False
      have "unwrap_filters (f # fs) (fixups R) s = Some (FPGA_NO_MEMORY, fixups R, s\<lparr>mallocs := ms\<rparr>)"
        using wf(2) p True False t0 by (simp add: lock v mo unlock_properties_def put_obj_idem)
      moreover have "unwrapped R (s\<lparr>mallocs := ms\<rparr>)" using Cons.prems(2) by (simp add: unwrapped_def)
      ultimately show ?thesis by (simp add: restore_mallocs) blast
    next
      case ok: True
      let ?q = "OProps (p\<lparr>pr_parent := wt_opae_token w\<rparr>)"
      let ?s = "put_obj f ?q (s\<lparr>mallocs := ms\<rparr>)" and ?R = "(f, p) # R"
      have e: "unwrap_filters (f # fs) (fixups R) s = unwrap_filters fs (fixups ?R) ?s"
        using wf(2) p True ok t0 w t(2) by (simp add: lock v mo unlock_properties_def fixups_def)
      have r: "restore ?R ?s = (restore R s)\<lparr>mallocs := ms\<rparr>"
        using rp by (simp add: restore_put [OF nf] restore_mallocs put_obj_idem)
      have i: "lib_inv own (restore ?R ?s)" using inv unfolding r by simp
      have u: "unwrapped ?R ?s" using Cons.prems(2) nf wf by (force simp: unwrapped_def image_iff)
      have d: "distinct fs" "set fs \<inter> fst ` set ?R = {}" "\<forall>f \<in> set fs. \<exists>p. mem ?s f = Some (OProps p)"
        using Cons.prems(3-5) by auto
      obtain res R' s' ms' where ih: "unwrap_filters fs (fixups ?R) ?s = Some (res, fixups R', s')"
        "unwrapped R' s'" "restore R' s' = (restore ?R ?s)\<lparr>mallocs := ms'\<rparr>"
        "\<forall>a. (\<exists>p. mem ?s a = Some (OProps p)) \<longrightarrow> (\<exists>p. mem s' a = Some (OProps p))"
        using Cons.IH [OF i u d] by (elim exE conjE) (rule that)
      have "(\<exists>p. mem s a = Some (OProps p)) \<longrightarrow> (\<exists>p. mem s' a = Some (OProps p))" for a
        using ih(4) [rule_format, of a] by (cases "a = f") auto
      moreover have "restore R' s' = (restore R s)\<lparr>mallocs := ms'\<rparr>" using ih(3) unfolding r by simp
      ultimately show ?thesis unfolding e using ih(1,2)
        by (intro exI [of _ res] exI [of _ R'] exI [of _ s'] exI [of _ ms']) simp
    qed
  qed
qed

lemma get_all_props_ok:
  "\<forall>f \<in> set fs. \<exists>p. mem s f = Some (OProps p) \<Longrightarrow> \<exists>qs. get_all_props s fs = Some qs"
  by (induction fs) auto

lemma grows_mallocs: "grows own (s\<lparr>mallocs := ms\<rparr>) new s' = grows own s new s'"
  by (simp add: grows_def)

lemma fpgaEnumerate_ok:
  assumes inv: "lib_inv own s" and fs: "case filters of None \<Rightarrow> True | Some l \<Rightarrow>
      distinct l \<and> (\<forall>f \<in> set l. \<exists>p. mem s f = Some (OProps p))"
    and ads: "set (adapter_list s) \<subseteq> dom (adapters s)" and pl: "enum_plugins (adapters s)"
  shows "\<exists>r n toks s'. fpgaEnumerate s filters num_filters tokens max_tokens num_matches =
      Some (r, n, toks, s') \<and> grows own s toks s' \<and> length toks \<le> unat max_tokens"
proof (cases "num_matches = NULL \<or> max_tokens > 0 \<and> \<not> tokens \<or> num_filters > 0 \<and> filters = None \<or>
    num_filters = 0 \<and> filters \<noteq> None")
  case True
  then have "fpgaEnumerate s filters num_filters tokens max_tokens num_matches =
      Some (FPGA_INVALID_PARAM, None, [], s)" by (auto simp: fpgaEnumerate_def)
  then show ?thesis using grows_refl [OF inv] by auto
next
  case False
  obtain ok ms where mo: "(if tokens then malloc_ok s else (True, s)) = (ok, s\<lparr>mallocs := ms\<rparr>)"
    using malloc_ok_eq [of s] by (cases tokens) (force, auto intro: that [of True "mallocs s"])
  let ?s = "s\<lparr>mallocs := ms\<rparr>"
  let ?fs = "case filters of None \<Rightarrow> [] | Some l \<Rightarrow> take (unat num_filters) l"
  show ?thesis
  proof (cases ok)
    case bad: False
    then have "fpgaEnumerate s filters num_filters tokens max_tokens num_matches =
        Some (FPGA_NO_MEMORY, Some 0, [], ?s)" using False mo by (auto simp: fpgaEnumerate_def)
    moreover have "grows own s [] ?s" using grows_refl [of own ?s] inv by (simp add: grows_mallocs)
    ultimately show ?thesis by auto
  next
    case ok: True
    have f: "distinct ?fs" "\<forall>f \<in> set ?fs. \<exists>p. mem ?s f = Some (OProps p)"
      using fs by (auto split: option.split dest: in_set_takeD)
    have i: "lib_inv own (restore [] ?s)" using inv by simp
    have u: "unwrapped [] ?s" by (simp add: unwrapped_def)
    have dis: "set ?fs \<inter> fst ` set [] = {}" by simp
    obtain res R st ms' where un: "unwrap_filters ?fs (fixups []) ?s = Some (res, fixups R, st)"
      "unwrapped R st" "restore R st = (restore [] ?s)\<lparr>mallocs := ms'\<rparr>"
      "\<forall>a. (\<exists>p. mem ?s a = Some (OProps p)) \<longrightarrow> (\<exists>p. mem st a = Some (OProps p))"
      using unwrap_ok [OF i u f(1) dis f(2)] by (elim exE conjE) (rule that)
    have rst: "restore R st = s\<lparr>mallocs := ms'\<rparr>" using un(3) by simp
    let ?visit = "\<lambda>s. do {
        qs \<leftarrow> get_all_props st ?fs;
        (_, ctx, s) \<leftarrow> opae_plugin_mgr_for_each_adapter (Some opae_enumerate)
          \<lparr>ec_filters = qs, ec_max = max_tokens, ec_wrapped = [],
           ec_array = (if tokens then Some (replicate (unat max_tokens) NULL) else None),
           ec_num_matches = 0, ec_errors = 0\<rparr> s;
        Some (if ec_errors ctx > 0 then FPGA_EXCEPTION else FPGA_OK, ec_num_matches ctx, ec_wrapped ctx, s) }"
    have run: "fpgaEnumerate s filters num_filters tokens max_tokens num_matches = do {
        (res, n, toks, s) \<leftarrow> (if res \<noteq> FPGA_OK then Some (res, 0, [], st) else ?visit st);
        s \<leftarrow> rewrap_filters (fixups R) s; Some (res, Some n, toks, s) }"
    proof -
      have g: "(num_matches = NULL) = False" "(max_tokens > 0 \<and> \<not> tokens) = False"
        "(num_filters > 0 \<and> filters = None) = False" "(num_filters = 0 \<and> filters \<noteq> None) = False"
        "(\<not> ok) = False" using False ok by blast+
      have un': "unwrap_filters ?fs [] ?s = Some (res, fixups R, st)" using un(1) by (simp add: fixups_def)
      show ?thesis unfolding fpgaEnumerate_def g if_False mo prod.case Let_def un' bind.bind_lunit by (rule refl)
    qed
    show ?thesis
    proof (cases "res = FPGA_OK")
      case False
      have "grows own s [] (restore R st)"
        using grows_refl [of own "s\<lparr>mallocs := ms'\<rparr>"] inv by (simp add: rst grows_mallocs)
      then show ?thesis using False by (simp add: run rewrap_restores [OF un(2)])
    next
      case True
      have "\<forall>f \<in> set ?fs. \<exists>p. mem st f = Some (OProps p)" using f(2) un(4) by blast
      then obtain qs where qs: "get_all_props st ?fs = Some qs" using get_all_props_ok by blast
      let ?ctx = "\<lparr>ec_filters = qs, ec_max = max_tokens, ec_wrapped = [],
           ec_array = (if tokens then Some (replicate (unat max_tokens) NULL) else None),
           ec_num_matches = 0, ec_errors = 0\<rparr>"
      have al: "adapter_list st = adapter_list s"
        using arg_cong [OF rst, of adapter_list] by simp
      have R: "\<forall>a \<in> fst ` set R. a < brk st" using un(2) by (auto simp: unwrapped_def)
      have iv: "lib_inv own (restore R st)" "set (adapter_list s) \<subseteq> dom (adapters (restore R st))"
        "enum_plugins (adapters (restore R st))" using inv ads pl unfolding rst by simp_all
      obtain cb ctx' s' new where vis: "visit_adapters opae_enumerate (adapter_list s) ?ctx (restore R st) =
          Some (cb, ctx', s')" "grows own (restore R st) new s'" "ec_wrapped ctx' = ec_wrapped ?ctx @ new"
          "length (ec_wrapped ctx') \<le> unat (ec_max ?ctx)"
        using visit_grows [OF iv, of ?ctx] by auto
      then obtain s2 where s2: "visit_adapters opae_enumerate (adapter_list s) ?ctx st = Some (cb, ctx', s2)"
          "s' = restore R s2" using visit_restore [OF R, of "adapter_list s" ?ctx] by auto
      have keep: "mem s2 a = Some ob" if "mem st a = Some ob" "a < brk st" for a ob
      proof -
        have "put_obj a ob st = st" using that(1) by (rule put_obj_idem)
        then have "s2 = put_obj a ob s2"
          using visit_put [OF that(2), of "adapter_list s" ?ctx ob] s2(1) by simp
        from arg_cong [OF this, of "\<lambda>s. mem s a"] show ?thesis by simp
      qed
      have "brk st \<le> brk s2" using vis(2) s2(2) by (simp add: grows_def)
      have "a \<noteq> 0 \<and> a < brk s2 \<and> wf_props p \<and> (\<exists>raw. mem s2 a = Some (OProps (p\<lparr>pr_parent := raw\<rparr>)))"
        if "(a, p) \<in> set R" for a p
      proof -
        obtain raw where "a \<noteq> 0" "a < brk st" "wf_props p" "mem st a = Some (OProps (p\<lparr>pr_parent := raw\<rparr>))"
          using un(2) \<open>(a, p) \<in> set R\<close> by (auto simp: unwrapped_def)
        then show ?thesis using keep \<open>brk st \<le> brk s2\<close> by auto
      qed
      then have "unwrapped R s2" using un(2) by (auto simp: unwrapped_def)
      then have "rewrap_filters (fixups R) s2 = Some s'" by (simp add: rewrap_restores s2(2))
      moreover have "grows own s new s'" using vis(2) unfolding rst by (simp add: grows_mallocs)
      ultimately show ?thesis using vis(3,4) True s2(1)
        by (simp add: run qs opae_plugin_mgr_for_each_adapter_def al)
    qed
  qed
qed

end
