(* ===== verification/Api_Client.thy ===== *)
theory Api_Client
  imports Api_Props Api_Enum
begin

section \<open>A client of the library\<close>

subsection \<open>No call changes the adapters\<close>

text \<open>\<open>opt_all Q m\<close>: when the computation \<open>m\<close> is defined, \<open>Q\<close> holds of its result.\<close>

definition opt_all :: "('a \<Rightarrow> bool) \<Rightarrow> 'a option \<Rightarrow> bool" where
  "opt_all Q m \<longleftrightarrow> (\<forall>x. m = Some x \<longrightarrow> Q x)"

named_theorems keeps_list \<open>rules for computations that keep the adapters\<close>

text \<open>The part of the state that only the plugin manager changes.\<close>

definition ads :: "'p lib \<Rightarrow> ptr list \<times> (ptr \<rightharpoonup> 'p adapter)" where
  "ads s = (adapter_list s, adapters s)"

lemma ads_simps [simp]:
  "ads (free_obj p s) = ads s" "ads (put_obj p ob s) = ads s" "ads (s\<lparr>tok_list := ts\<rparr>) = ads s"
  "ads (s\<lparr>brk := b\<rparr>) = ads s" "ads (s\<lparr>mem := m\<rparr>) = ads s" "ads (s\<lparr>mallocs := ms\<rparr>) = ads s"
  "ads (s\<lparr>plug := w\<rparr>) = ads s"
  by (simp_all add: ads_def free_obj_def)

lemma opt_all_simps [simp]: "opt_all Q (Some x) = Q x" "opt_all Q None"
  "opt_all Q (m \<bind> f) = opt_all (\<lambda>x. opt_all Q (f x)) m"
  "opt_all Q (map_option g m) = opt_all (\<lambda>x. Q (g x)) m"
  by (auto simp: opt_all_def bind_eq_Some_conv)

lemma opt_all_get [keeps_list]:
  "(\<And>x. Q1 x) \<Longrightarrow> opt_all Q1 (get_tok s p)"
  "(\<And>x. Q2 x) \<Longrightarrow> opt_all Q2 (get_props s p)"
  "(\<And>x. Q3 x) \<Longrightarrow> opt_all Q3 (get_handle s p)"
  "(\<And>x. Q4 x) \<Longrightarrow> opt_all Q4 (get_event s p)"
  "(\<And>x. Q5 x) \<Longrightarrow> opt_all Q5 (get_obj s p)"
  "(\<And>x. Q6 x) \<Longrightarrow> opt_all Q6 (adapter_fn s a e)"
  "(\<And>x. Q7 x) \<Longrightarrow> opt_all Q7 (opae_validate_wrapped_token s p)"
  "(\<And>x. Q7 x) \<Longrightarrow> opt_all Q7 (opae_validate_wrapped_handle s p)"
  "(\<And>x. Q7 x) \<Longrightarrow> opt_all Q7 (opae_validate_wrapped_event_handle s p)"
  "(\<And>x. Q7 x) \<Longrightarrow> opt_all Q7 (opae_validate_wrapped_object s p)"
  by (simp_all add: opt_all_def)

lemma snd_alloc:
  "alloc_obj ob s = (p, s') \<Longrightarrow> ads s' = ads s"
  "call_plugin f args s = (r, s') \<Longrightarrow> ads s' = ads s"
  by (auto simp: alloc_obj_def call_plugin_def split: list.splits bool.splits prod.splits)

lemma upref_list [keeps_list]:
  "(\<And>s'. ads s' = ads s \<Longrightarrow> Q s') \<Longrightarrow> opt_all Q (opae_upref_wrapped_token s t)"
  by (auto simp: opae_upref_wrapped_token_def Let_def intro!: keeps_list)

lemma downref_list [keeps_list]:
  "(\<And>r s'. ads s' = ads s \<Longrightarrow> Q (r, s')) \<Longrightarrow> opt_all Q (opae_downref_wrapped_token s t)"
  by (auto simp: opae_downref_wrapped_token_def Let_def dest!: snd_alloc intro!: keeps_list
      split: option.split prod.split)

lemma lock_list [keeps_list]:
  "(\<And>p s'. ads s' = ads s \<Longrightarrow> Q (p, s')) \<Longrightarrow> opt_all Q (opae_validate_and_lock_properties s a)"
  "(\<And>s'. ads s' = ads s \<Longrightarrow> R s') \<Longrightarrow> opt_all R (unlock_properties a s)"
  by (auto simp: opae_validate_and_lock_properties_def unlock_properties_def intro!: keeps_list)

lemma create_list: "opae_properties_create ok s = (p, s') \<Longrightarrow> ads s' = ads s"
  by (auto simp: opae_properties_create_def dest!: snd_alloc split: prod.splits if_splits)

lemma fpgaOpen_list: "opt_all (\<lambda>(r, h, s'). ads s' = ads s) (fpgaOpen s t out flags)"
  by (auto simp: fpgaOpen_def opae_allocate_wrapped_handle_def Let_def dest!: snd_alloc intro!: keeps_list split: option.split prod.split)

lemma fpgaClose_list: "opt_all (\<lambda>(r, s'). ads s' = ads s) (fpgaClose s h)"
  by (auto simp: fpgaClose_def opae_destroy_wrapped_handle_def Let_def dest!: snd_alloc intro!: keeps_list split: option.split prod.split)

lemma fpgaCloneToken_list: "opt_all (\<lambda>(r, d, s'). ads s' = ads s) (fpgaCloneToken s t out)"
  by (auto simp: fpgaCloneToken_def opae_allocate_wrapped_token_def Let_def dest!: snd_alloc intro!: keeps_list split: option.split prod.split)

lemma fpgaDestroyToken_list: "opt_all (\<lambda>(r, s'). ads s' = ads s) (fpgaDestroyToken s t)"
  by (auto simp: fpgaDestroyToken_def opae_destroy_wrapped_token_def Let_def dest!: snd_alloc intro!: keeps_list split: option.split prod.split)

lemma fpgaDestroyProperties_list [keeps_list]:
  "(\<And>r p s'. ads s' = ads s \<Longrightarrow> Q (r, p, s')) \<Longrightarrow> opt_all Q (fpgaDestroyProperties s a)"
  by (auto simp: fpgaDestroyProperties_def opae_destroy_wrapped_token_def Let_def dest!: snd_alloc create_list intro!: keeps_list split: option.split prod.split)

lemma fpgaCloneProperties_list: "opt_all (\<lambda>(r, p, s'). ads s' = ads s) (fpgaCloneProperties ok s a d)"
  by (auto simp: fpgaCloneProperties_def Let_def dest!: snd_alloc create_list intro!: keeps_list split: option.split prod.split)

lemma fpgaClearProperties_list: "opt_all (\<lambda>(r, s'). ads s' = ads s) (fpgaClearProperties s a)"
  by (auto simp: fpgaClearProperties_def Let_def dest!: snd_alloc create_list intro!: keeps_list split: option.split prod.split)

lemma fpgaPropertiesSetParent_list: "opt_all (\<lambda>(r, s'). ads s' = ads s) (fpgaPropertiesSetParent s a t)"
  by (auto simp: fpgaPropertiesSetParent_def opae_destroy_wrapped_token_def Let_def dest!: snd_alloc create_list intro!: keeps_list split: option.split prod.split)

lemma props_get_list [keeps_list]:
  "(\<And>r v s'. ads s' = ads s \<Longrightarrow> Q (r, v, s')) \<Longrightarrow> opt_all Q (props_get g s a out)"
  by (auto simp: props_get_def Let_def intro!: keeps_list split: option.split prod.split)

lemma pci_address_list [keeps_list]:
  "(\<And>x s'. ads s' = ads s \<Longrightarrow> Q (x, s')) \<Longrightarrow> opt_all Q (pci_address s a)"
  by (auto simp: pci_address_def fpgaPropertiesGetSegment_def fpgaPropertiesGetBus_def
      fpgaPropertiesGetDevice_def fpgaPropertiesGetObjectType_def intro!: keeps_list)

lemma plugin_props_list [keeps_list]:
  "(\<And>r s'. ads s' = ads s \<Longrightarrow> Q (r, s')) \<Longrightarrow> opt_all Q (plugin_update f t a s)"
  "(\<And>r p s'. ads s' = ads s \<Longrightarrow> R (r, p, s')) \<Longrightarrow> opt_all R (plugin_get f t s)"
  by (auto simp: plugin_update_def plugin_get_def dest!: snd_alloc intro!: keeps_list
      split: prod.split list.split arg.split)

lemma find_parent_list [keeps_list]:
  "(\<And>r s'. ads s' = ads s \<Longrightarrow> Q (r, s')) \<Longrightarrow> opt_all Q (find_parent c a ps s)"
  by (induction ps arbitrary: s) (auto intro!: keeps_list split: option.split)

lemma opae_get_parent_token_list [keeps_list]:
  "(\<And>r s'. ads s' = ads s \<Longrightarrow> Q (r, s')) \<Longrightarrow> opt_all Q (opae_get_parent_token ok s t)"
  by (auto simp: opae_get_parent_token_def Let_def dest!: snd_alloc create_list intro!: keeps_list split: option.split prod.split)

lemma set_wrapped_parent_list [keeps_list]:
  "(\<And>s'. ads s' = ads s \<Longrightarrow> Q s') \<Longrightarrow> opt_all Q (set_wrapped_parent a t s)"
  by (auto simp: set_wrapped_parent_def Let_def dest!: snd_alloc create_list intro!: keeps_list split: option.split prod.split)

lemma fpgaGetPropertiesFromHandle_list: "opt_all (\<lambda>(r, p, s'). ads s' = ads s) (fpgaGetPropertiesFromHandle ok s h out)"
  by (auto simp: fpgaGetPropertiesFromHandle_def Let_def dest!: snd_alloc create_list intro!: keeps_list split: option.split prod.split)

lemma fpgaGetProperties_list: "opt_all (\<lambda>(r, p, s'). ads s' = ads s) (fpgaGetProperties ok s t out)"
  by (auto simp: fpgaGetProperties_def Let_def dest!: snd_alloc create_list intro!: keeps_list split: option.split prod.split)

lemma fpgaUpdateProperties_list: "opt_all (\<lambda>(r, s'). ads s' = ads s) (fpgaUpdateProperties ok s t a)"
  by (auto simp: fpgaUpdateProperties_def opae_destroy_wrapped_token_def Let_def dest!: snd_alloc create_list intro!: keeps_list split: option.split prod.split)

lemma call_entry_list [keeps_list]:
  "(\<And>r out s'. ads s' = ads s \<Longrightarrow> Q (r, out, s')) \<Longrightarrow> opt_all Q (call_entry a e args s)"
  by (auto simp: call_entry_def dest!: snd_alloc intro!: keeps_list split: option.split prod.split)

lemma with_event_list [keeps_list]:
  assumes "\<And>r out s'. ads s' = ads s \<Longrightarrow> Q (r, out, s')"
    and "\<And>e s. opt_all (\<lambda>(r, out, s'). ads s' = ads s) (body e s)"
  shows "opt_all Q (with_event we body s)"
  using assms by (fastforce simp: with_event_def opt_all_def bind_eq_Some_conv Let_def)

lemma create_event_list [keeps_list]:
  "(\<And>r e s'. ads s' = ads s \<Longrightarrow> Q (r, e, s')) \<Longrightarrow> opt_all Q (create_event h we e s)"
  by (auto simp: create_event_def Let_def dest!: snd_alloc intro!: keeps_list split: option.split prod.split)

lemma fpgaCreateEventHandle_list:
  "fpgaCreateEventHandle ok s out = (r, h, s') \<Longrightarrow> ads s' = ads s"
  by (auto simp: fpgaCreateEventHandle_def opae_allocate_wrapped_event_handle_def dest!: snd_alloc
      split: prod.splits if_splits)

lemma fpgaDestroyEventHandle_list: "opt_all (\<lambda>(r, s'). ads s' = ads s) (fpgaDestroyEventHandle s e)"
  by (auto simp: fpgaDestroyEventHandle_def opae_destroy_wrapped_event_handle_def Let_def dest!: snd_alloc create_list intro!: keeps_list split: option.split prod.split)

lemma fpgaGetOSObjectFromEventHandle_list: "opt_all (\<lambda>(r, out, s'). ads s' = ads s) (fpgaGetOSObjectFromEventHandle s e fd)"
  by (auto simp: fpgaGetOSObjectFromEventHandle_def Let_def dest!: snd_alloc create_list intro!: keeps_list split: option.split prod.split)

lemma fpgaRegisterEvent_list: "opt_all (\<lambda>(r, out, s'). ads s' = ads s) (fpgaRegisterEvent s h ty e flags)"
  by (auto simp: fpgaRegisterEvent_def Let_def dest!: snd_alloc create_list intro!: keeps_list split: option.split prod.split)

lemma fpgaUnregisterEvent_list: "opt_all (\<lambda>(r, out, s'). ads s' = ads s) (fpgaUnregisterEvent s h ty e)"
  by (auto simp: fpgaUnregisterEvent_def Let_def dest!: snd_alloc create_list intro!: keeps_list split: option.split prod.split)

lemma get_wrapped_object_list [keeps_list]:
  "(\<And>r b s'. ads s' = ads s \<Longrightarrow> Q (r, b, s')) \<Longrightarrow> opt_all Q (get_wrapped_object a e args s)"
  by (auto simp: get_wrapped_object_def opae_allocate_wrapped_object_def dest!: snd_alloc intro!: keeps_list
      split: option.split prod.split)

lemma fpgaTokenGetObject_list: "opt_all (\<lambda>(r, b, s'). ads s' = ads s) (fpgaTokenGetObject s t name out flags)"
  by (auto simp: fpgaTokenGetObject_def Let_def dest!: snd_alloc create_list intro!: keeps_list split: option.split prod.split)

lemma fpgaHandleGetObject_list: "opt_all (\<lambda>(r, b, s'). ads s' = ads s) (fpgaHandleGetObject s h name out flags)"
  by (auto simp: fpgaHandleGetObject_def Let_def dest!: snd_alloc create_list intro!: keeps_list split: option.split prod.split)

lemma fpgaObjectGetObject_list: "opt_all (\<lambda>(r, b, s'). ads s' = ads s) (fpgaObjectGetObject s b name out flags)"
  by (auto simp: fpgaObjectGetObject_def Let_def dest!: snd_alloc create_list intro!: keeps_list split: option.split prod.split)

lemma fpgaObjectGetObjectAt_list: "opt_all (\<lambda>(r, b, s'). ads s' = ads s) (fpgaObjectGetObjectAt s b i out)"
  by (auto simp: fpgaObjectGetObjectAt_def Let_def dest!: snd_alloc create_list intro!: keeps_list split: option.split prod.split)

lemma fpgaDestroyObject_list: "opt_all (\<lambda>(r, s'). ads s' = ads s) (fpgaDestroyObject s b)"
  by (auto simp: fpgaDestroyObject_def opae_destroy_wrapped_object_def Let_def dest!: snd_alloc create_list intro!: keeps_list split: option.split prod.split)

subsection \<open>The calls\<close>

text \<open>The setters of a properties object, with the value to store.\<close>

datatype (plugins only:) setter =
    Set_ObjectType u32 | Set_Segment u16 | Set_Bus u8 | Set_Device u8 | Set_Function u8
  | Set_SocketID u8 | Set_DeviceID u16 | Set_VendorID u16 | Set_ObjectID u64 | Set_NumErrors u32
  | Set_GUID "u8 list option" | Set_NumSlots u32 | Set_BBSID u64 | Set_BBSVersion fpga_version
  | Set_AcceleratorState u32 | Set_NumMMIO u32 | Set_NumInterrupts u32

primrec set_prop :: "setter \<Rightarrow> 'p lib \<Rightarrow> ptr \<Rightarrow> (fpga_result \<times> 'p lib) option" where
  "set_prop (Set_ObjectType v) s a = fpgaPropertiesSetObjectType s a v"
| "set_prop (Set_Segment v) s a = fpgaPropertiesSetSegment s a v"
| "set_prop (Set_Bus v) s a = fpgaPropertiesSetBus s a v"
| "set_prop (Set_Device v) s a = fpgaPropertiesSetDevice s a v"
| "set_prop (Set_Function v) s a = fpgaPropertiesSetFunction s a v"
| "set_prop (Set_SocketID v) s a = fpgaPropertiesSetSocketID s a v"
| "set_prop (Set_DeviceID v) s a = fpgaPropertiesSetDeviceID s a v"
| "set_prop (Set_VendorID v) s a = fpgaPropertiesSetVendorID s a v"
| "set_prop (Set_ObjectID v) s a = fpgaPropertiesSetObjectID s a v"
| "set_prop (Set_NumErrors v) s a = fpgaPropertiesSetNumErrors s a v"
| "set_prop (Set_GUID v) s a = fpgaPropertiesSetGUID s a v"
| "set_prop (Set_NumSlots v) s a = fpgaPropertiesSetNumSlots s a v"
| "set_prop (Set_BBSID v) s a = fpgaPropertiesSetBBSID s a v"
| "set_prop (Set_BBSVersion v) s a = fpgaPropertiesSetBBSVersion s a v"
| "set_prop (Set_AcceleratorState v) s a = fpgaPropertiesSetAcceleratorState s a v"
| "set_prop (Set_NumMMIO v) s a = fpgaPropertiesSetNumMMIO s a v"
| "set_prop (Set_NumInterrupts v) s a = fpgaPropertiesSetNumInterrupts s a v"

text \<open>
  A call with its arguments. A boolean says whether the mutex functions succeed in it; the calls
  that only forward are named by the entry of the adapter table.
\<close>

datatype (plugins only:) api_call =
    C_Open ptr ptr u32
  | C_Close ptr
  | C_CloneToken ptr ptr
  | C_DestroyToken "ptr option"
  | C_Enumerate "ptr list option" u32 bool u32 ptr
  | C_GetProperties bool ptr ptr
  | C_GetPropertiesFromHandle bool ptr ptr
  | C_UpdateProperties bool ptr ptr
  | C_CloneProperties bool ptr bool
  | C_DestroyProperties "ptr option"
  | C_ClearProperties ptr
  | C_SetParent ptr ptr
  | C_SetProp ptr setter
  | C_CreateEventHandle bool ptr
  | C_RegisterEvent ptr u32 ptr u32
  | C_UnregisterEvent ptr u32 ptr
  | C_GetOSObject ptr ptr
  | C_DestroyEventHandle "ptr option"
  | C_TokenGetObject ptr "string option" ptr u32
  | C_HandleGetObject ptr "string option" ptr u32
  | C_ObjectGetObject ptr "string option" ptr u32
  | C_ObjectGetObjectAt ptr u64 ptr
  | C_DestroyObject "ptr option"
  | C_Handle entry "bool list" "arg list" ptr
  | C_Token entry "bool list" "arg list" ptr
  | C_Object entry "bool list" "arg list" ptr
  | C_AssignToInterface ptr ptr u32 u32
  | C_ReleaseFromInterface ptr ptr

type_synonym 'p client = "(ptr \<Rightarrow> nat) \<times> 'p lib"

text \<open>
  Running a call updates the library and what the client owns: a token is gained by cloning and
  by enumerating and given up by destroying. None when the call is undefined.
\<close>

primrec exec :: "api_call \<Rightarrow> (ptr \<Rightarrow> nat) \<Rightarrow> 'p lib \<Rightarrow> 'p client option" where
  "exec (C_Open t out flags) own s = do { (_, _, s) \<leftarrow> fpgaOpen s t out flags; Some (own, s) }"
| "exec (C_Close h) own s = do { (_, s) \<leftarrow> fpgaClose s h; Some (own, s) }"
| "exec (C_CloneToken t out) own s = do {
     (r, d, s) \<leftarrow> fpgaCloneToken s t out;
     Some (if r = FPGA_OK then own(the d := 1) else own, s) }"
| "exec (C_DestroyToken t) own s = do {
     (_, s') \<leftarrow> fpgaDestroyToken s t;
     Some (case t of
             Some p \<Rightarrow> if p \<in> tok_dom (mem s) then own(p := own p - 1) else own
           | None \<Rightarrow> own, s') }"
| "exec (C_Enumerate filters n tokens max_tokens num) own s = do {
     (_, _, toks, s) \<leftarrow> fpgaEnumerate s filters n tokens max_tokens num;
     Some (\<lambda>t. own t + of_bool (t \<in> set toks), s) }"
| "exec (C_GetProperties ok t out) own s = do { (_, _, s) \<leftarrow> fpgaGetProperties ok s t out; Some (own, s) }"
| "exec (C_GetPropertiesFromHandle ok h out) own s = do {
     (_, _, s) \<leftarrow> fpgaGetPropertiesFromHandle ok s h out; Some (own, s) }"
| "exec (C_UpdateProperties ok t a) own s = do { (_, s) \<leftarrow> fpgaUpdateProperties ok s t a; Some (own, s) }"
| "exec (C_CloneProperties ok a out) own s = do { (_, _, s) \<leftarrow> fpgaCloneProperties ok s a out; Some (own, s) }"
| "exec (C_DestroyProperties a) own s = do { (_, _, s) \<leftarrow> fpgaDestroyProperties s a; Some (own, s) }"
| "exec (C_ClearProperties a) own s = do { (_, s) \<leftarrow> fpgaClearProperties s a; Some (own, s) }"
| "exec (C_SetParent a t) own s = do { (_, s) \<leftarrow> fpgaPropertiesSetParent s a t; Some (own, s) }"
| "exec (C_SetProp a v) own s = do { (_, s) \<leftarrow> set_prop v s a; Some (own, s) }"
| "exec (C_CreateEventHandle ok out) own s =
     (case fpgaCreateEventHandle ok s out of (_, _, s) \<Rightarrow> Some (own, s))"
| "exec (C_RegisterEvent h ty e flags) own s = do {
     (_, _, s) \<leftarrow> fpgaRegisterEvent s h ty e flags; Some (own, s) }"
| "exec (C_UnregisterEvent h ty e) own s = do { (_, _, s) \<leftarrow> fpgaUnregisterEvent s h ty e; Some (own, s) }"
| "exec (C_GetOSObject e fd) own s = do {
     (_, _, s) \<leftarrow> fpgaGetOSObjectFromEventHandle s e fd; Some (own, s) }"
| "exec (C_DestroyEventHandle e) own s = do { (_, s) \<leftarrow> fpgaDestroyEventHandle s e; Some (own, s) }"
| "exec (C_TokenGetObject t name out flags) own s = do {
     (_, _, s) \<leftarrow> fpgaTokenGetObject s t name out flags; Some (own, s) }"
| "exec (C_HandleGetObject h name out flags) own s = do {
     (_, _, s) \<leftarrow> fpgaHandleGetObject s h name out flags; Some (own, s) }"
| "exec (C_ObjectGetObject b name out flags) own s = do {
     (_, _, s) \<leftarrow> fpgaObjectGetObject s b name out flags; Some (own, s) }"
| "exec (C_ObjectGetObjectAt b i out) own s = do {
     (_, _, s) \<leftarrow> fpgaObjectGetObjectAt s b i out; Some (own, s) }"
| "exec (C_DestroyObject b) own s = do { (_, s) \<leftarrow> fpgaDestroyObject s b; Some (own, s) }"
| "exec (C_Handle e oks args h) own s = do { (_, _, s) \<leftarrow> forward_handle e oks args s h; Some (own, s) }"
| "exec (C_Token e oks args t) own s = do { (_, _, s) \<leftarrow> forward_token e oks args s t; Some (own, s) }"
| "exec (C_Object e oks args b) own s = do { (_, _, s) \<leftarrow> forward_object e oks args s b; Some (own, s) }"
| "exec (C_AssignToInterface h t i flags) own s = do {
     (_, _, s) \<leftarrow> fpgaAssignToInterface s h t i flags; Some (own, s) }"
| "exec (C_ReleaseFromInterface h t) own s = do {
     (_, _, s) \<leftarrow> fpgaReleaseFromInterface s h t; Some (own, s) }"

text \<open>
  What a client must respect: pointers are NULL or point at live objects, whatever their kind;
  a properties argument points at a properties object; a token that is destroyed, or given to
  \<^verbatim>\<open>fpgaPropertiesSetParent\<close> or \<^verbatim>\<open>fpgaUpdateProperties\<close>, is one the client owns a reference of.
\<close>

definition live :: "'p lib \<Rightarrow> ptr \<Rightarrow> bool" where
  "live s p \<longleftrightarrow> p = NULL \<or> mem s p \<noteq> None"

definition props_at :: "'p lib \<Rightarrow> ptr \<Rightarrow> bool" where
  "props_at s a \<longleftrightarrow> (case mem s a of Some (OProps _) \<Rightarrow> True | _ \<Rightarrow> False)"

primrec allowed :: "api_call \<Rightarrow> (ptr \<Rightarrow> nat) \<Rightarrow> 'p lib \<Rightarrow> bool" where
  "allowed (C_Open t out flags) own s = live s t"
| "allowed (C_Close h) own s = live s h"
| "allowed (C_CloneToken t out) own s = live s t"
| "allowed (C_DestroyToken t) own s =
     (case t of None \<Rightarrow> True | Some p \<Rightarrow> live s p \<and> (p \<in> tok_dom (mem s) \<longrightarrow> 0 < own p))"
| "allowed (C_Enumerate filters n tokens max_tokens num) own s =
     (case filters of None \<Rightarrow> True | Some l \<Rightarrow> distinct l \<and> (\<forall>f \<in> set l. props_at s f))"
| "allowed (C_GetProperties ok t out) own s = live s t"
| "allowed (C_GetPropertiesFromHandle ok h out) own s = live s h"
| "allowed (C_UpdateProperties ok t a) own s =
     (live s t \<and> (t \<in> tok_dom (mem s) \<longrightarrow> 0 < own t) \<and> props_at s a)"
| "allowed (C_CloneProperties ok a out) own s = props_at s a"
| "allowed (C_DestroyProperties a) own s = (case a of None \<Rightarrow> True | Some p \<Rightarrow> props_at s p)"
| "allowed (C_ClearProperties a) own s = props_at s a"
| "allowed (C_SetParent a t) own s = (props_at s a \<and> 0 < own t)"
| "allowed (C_SetProp a v) own s =
     (props_at s a \<and> (case v of Set_GUID g \<Rightarrow> g \<noteq> None \<and> length (the g) = 16 | _ \<Rightarrow> True))"
| "allowed (C_CreateEventHandle ok out) own s = True"
| "allowed (C_RegisterEvent h ty e flags) own s = (live s h \<and> live s e)"
| "allowed (C_UnregisterEvent h ty e) own s = (live s h \<and> live s e)"
| "allowed (C_GetOSObject e fd) own s = live s e"
| "allowed (C_DestroyEventHandle e) own s = (case e of None \<Rightarrow> True | Some p \<Rightarrow> live s p)"
| "allowed (C_TokenGetObject t name out flags) own s = live s t"
| "allowed (C_HandleGetObject h name out flags) own s = live s h"
| "allowed (C_ObjectGetObject b name out flags) own s = live s b"
| "allowed (C_ObjectGetObjectAt b i out) own s = live s b"
| "allowed (C_DestroyObject b) own s = (case b of None \<Rightarrow> True | Some p \<Rightarrow> live s p)"
| "allowed (C_Handle e oks args h) own s = live s h"
| "allowed (C_Token e oks args t) own s = live s t"
| "allowed (C_Object e oks args b) own s = live s b"
| "allowed (C_AssignToInterface h t i flags) own s = (live s h \<and> live s t)"
| "allowed (C_ReleaseFromInterface h t) own s = (live s h \<and> live s t)"

subsection \<open>Every allowed call is defined and keeps the objects in order\<close>

definition client_inv :: "(ptr \<Rightarrow> nat) \<Rightarrow> 'p lib \<Rightarrow> bool" where
  "client_inv own s \<longleftrightarrow> lib_inv own s \<and> set (adapter_list s) \<subseteq> dom (adapters s) \<and>
     props_plugins (adapters s) \<and> enum_plugins (adapters s)"

definition room :: "(ptr \<Rightarrow> nat) \<Rightarrow> 'p lib \<Rightarrow> bool" where
  "room own s \<longleftrightarrow> (\<forall>t. refs own (mem s) t + 1 < 2 ^ 32)"

definition safe :: "api_call \<Rightarrow> (ptr \<Rightarrow> nat) \<Rightarrow> 'p lib \<Rightarrow> bool" where
  "safe c own s \<longleftrightarrow> (\<exists>own' s'. exec c own s = Some (own', s') \<and> lib_inv own' s')"

lemma magic_kind:
  assumes "wf_obj m ob"
  shows "obj_magic ob = OPAE_WRAPPED_TOKEN_MAGIC \<longleftrightarrow> (\<exists>w. ob = OTok w)"
    "obj_magic ob = OPAE_WRAPPED_HANDLE_MAGIC \<longleftrightarrow> (\<exists>w. ob = OHandle w)"
    "obj_magic ob = OPAE_WRAPPED_EVENT_HANDLE_MAGIC \<longleftrightarrow> (\<exists>w. ob = OEvent w)"
    "obj_magic ob = OPAE_WRAPPED_OBJECT_MAGIC \<longleftrightarrow> (\<exists>w. ob = OObj w)"
  using assms by (cases ob; simp add: wf_obj.simps; simp add: wrapped_magics)+

lemma validate_live:
  assumes inv: "lib_inv own s" and l: "live s p"
  shows
    "opae_validate_wrapped_token s p = Some (if p \<in> tok_dom (mem s) then p else NULL)"
    "opae_validate_wrapped_handle s p = Some (if \<exists>w. mem s p = Some (OHandle w) then p else NULL)"
    "opae_validate_wrapped_event_handle s p = Some (if \<exists>w. mem s p = Some (OEvent w) then p else NULL)"
    "opae_validate_wrapped_object s p = Some (if \<exists>w. mem s p = Some (OObj w) then p else NULL)"
proof -
  have "mem s NULL = None" using lib_inv_wf [OF inv] by (metis less_numeral_extra(3) option.exhaust)
  moreover have wf: "wf_obj (adapters s) ob" if "mem s p = Some ob" for ob
    using lib_inv_wf [OF inv that] by simp
  ultimately show
    "opae_validate_wrapped_token s p = Some (if p \<in> tok_dom (mem s) then p else NULL)"
    "opae_validate_wrapped_handle s p = Some (if \<exists>w. mem s p = Some (OHandle w) then p else NULL)"
    "opae_validate_wrapped_event_handle s p = Some (if \<exists>w. mem s p = Some (OEvent w) then p else NULL)"
    "opae_validate_wrapped_object s p = Some (if \<exists>w. mem s p = Some (OObj w) then p else NULL)"
    using l magic_kind [OF wf] unfolding live_def
    by (auto simp: opae_validate_wrapped_token_def opae_validate_wrapped_handle_def
        opae_validate_wrapped_event_handle_def opae_validate_wrapped_object_def validate_magic_def
        tok_dom_def)
qed

lemma exec_C_Open:
  assumes inv: "lib_inv own s" and l: "live s t" and r: "room own s"
  shows "safe (C_Open t out flags) own s"
proof (cases "t \<in> tok_dom (mem s)")
  case True
  then show ?thesis using fpgaOpen_ok [OF inv True, of out flags] r by (auto simp: safe_def room_def)
next
  case False
  then show ?thesis using inv by (simp add: safe_def fpgaOpen_def validate_live [OF inv l])
qed

lemma exec_C_Close:
  assumes inv: "lib_inv own s" and l: "live s h"
  shows "safe (C_Close h) own s"
proof (cases "\<exists>w. mem s h = Some (OHandle w)")
  case True
  then obtain w where "mem s h = Some (OHandle w)" ..
  from fpgaClose_ok [OF inv this] show ?thesis by (auto simp: safe_def)
next
  case False
  then show ?thesis using inv by (simp add: safe_def fpgaClose_def validate_live [OF inv l])
qed

lemma exec_C_CloneToken:
  assumes inv: "lib_inv own s" and l: "live s t"
  shows "safe (C_CloneToken t out) own s"
proof (cases "t \<in> tok_dom (mem s)")
  case True
  then show ?thesis using fpgaCloneToken_ok [OF inv True, of out] by (auto simp: safe_def split: if_splits)
next
  case False
  then show ?thesis using inv by (simp add: safe_def fpgaCloneToken_def validate_live [OF inv l])
qed

lemma exec_C_DestroyToken:
  assumes inv: "lib_inv own s" and l: "allowed (C_DestroyToken t) own s"
  shows "safe (C_DestroyToken t) own s"
proof (cases t)
  case None
  then show ?thesis using inv by (simp add: safe_def fpgaDestroyToken_def)
next
  case (Some p)
  then have p: "live s p" "p \<in> tok_dom (mem s) \<longrightarrow> 0 < own p" using l by simp_all
  show ?thesis
  proof (cases "p \<in> tok_dom (mem s)")
    case True
    then show ?thesis using fpgaDestroyToken_ok [OF inv, of p] p Some by (auto simp: safe_def)
  next
    case False
    then show ?thesis using inv Some by (simp add: safe_def fpgaDestroyToken_def validate_live [OF inv p(1)])
  qed
qed

lemma props_atD: "props_at s a \<Longrightarrow> \<exists>p. mem s a = Some (OProps p)"
  by (auto simp: props_at_def split: option.splits obj.splits)

lemma exec_C_Enumerate:
  assumes inv: "client_inv own s" and l: "allowed (C_Enumerate filters n tokens mx num) own s"
  shows "safe (C_Enumerate filters n tokens mx num) own s"
proof -
  have l': "case filters of None \<Rightarrow> True | Some l \<Rightarrow>
      distinct l \<and> (\<forall>f \<in> set l. \<exists>p. mem s f = Some (OProps p))"
    using l props_atD [of s] by (auto split: option.splits)
  show ?thesis
    using fpgaEnumerate_ok [OF _ l', of own n tokens mx num] inv
    by (auto simp: safe_def client_inv_def grows_def)
qed

lemma exec_C_GetProperties:
  assumes inv: "client_inv own s" and l: "live s t" and r: "room own s"
  shows "safe (C_GetProperties ok t out) own s"
proof (cases "t = NULL \<or> t \<in> tok_dom (mem s)")
  case True
  then show ?thesis using fpgaGetProperties_ok [of own s t ok out] inv r
    by (auto simp: safe_def room_def client_inv_def)
next
  case False
  have i: "lib_inv own s" using inv by (simp add: client_inv_def)
  show ?thesis using False i by (simp add: safe_def fpgaGetProperties_def validate_live [OF i l])
qed

lemma exec_C_GetPropertiesFromHandle:
  assumes inv: "client_inv own s" and l: "live s h" and r: "room own s"
  shows "safe (C_GetPropertiesFromHandle ok h out) own s"
proof (cases "\<exists>w. mem s h = Some (OHandle w)")
  case True
  then obtain w where "mem s h = Some (OHandle w)" ..
  then show ?thesis using fpgaGetPropertiesFromHandle_ok [of own s h w ok out] inv r
    by (auto simp: safe_def room_def client_inv_def)
next
  case False
  have i: "lib_inv own s" using inv by (simp add: client_inv_def)
  show ?thesis using False i by (simp add: safe_def fpgaGetPropertiesFromHandle_def validate_live [OF i l])
qed

lemma exec_C_UpdateProperties:
  assumes inv: "client_inv own s" and l: "allowed (C_UpdateProperties ok t a) own s" and r: "room own s"
  shows "safe (C_UpdateProperties ok t a) own s"
proof (cases "t \<in> tok_dom (mem s)")
  case True
  obtain p where "mem s a = Some (OProps p)" using l props_atD by auto
  then show ?thesis using True l fpgaUpdateProperties_ok [of own s t a p ok] inv r
    by (auto simp: safe_def room_def client_inv_def)
next
  case False
  have i: "lib_inv own s" "live s t" using inv l by (simp_all add: client_inv_def)
  show ?thesis using False i by (simp add: safe_def fpgaUpdateProperties_def validate_live [OF i])
qed

lemma exec_C_props:
  assumes inv: "lib_inv own s" and m: "props_at s a" and r: "room own s"
  shows "safe (C_CloneProperties ok a out) own s" "safe (C_DestroyProperties (Some a)) own s"
    "safe (C_ClearProperties a) own s" "0 < own t \<Longrightarrow> safe (C_SetParent a t) own s"
proof -
  obtain p where p: "mem s a = Some (OProps p)" using props_atD [OF m] by blast
  show "safe (C_CloneProperties ok a out) own s"
  proof (cases out)
    case True
    then show ?thesis using fpgaCloneProperties_ok [OF inv p, of ok] r
      by (fastforce simp: safe_def room_def split: if_splits)
  next
    case False
    then show ?thesis using inv by (simp add: safe_def fpgaCloneProperties_def)
  qed
  show "safe (C_DestroyProperties (Some a)) own s"
    using fpgaDestroyProperties_ok [OF inv p] by (auto simp: safe_def)
  show "safe (C_ClearProperties a) own s"
    using fpgaClearProperties_ok [OF inv p] by (auto simp: safe_def)
  show "safe (C_SetParent a t) own s" if "0 < own t"
    using fpgaPropertiesSetParent_ok [OF inv p that] r by (auto simp: safe_def room_def)
qed

text \<open>A setter leaves the parent alone, so nothing changes hands.\<close>

lemma sets_field_ok:
  assumes inv: "lib_inv own s" and m: "mem s a = Some (OProps p)" and f: "f \<noteq> Parent"
    and st: "sets_field s a p f x m'"
  shows "\<exists>r s'. m' = Some (r, s') \<and> lib_inv own s'"
proof (cases "has_type p (field_type f)")
  case True
  then obtain q where q: "m' = Some (FPGA_OK, put_obj a (OProps q) s)" "wf_props q"
      "props_view q = (props_view p)(f \<mapsto> x)" using st by (auto simp: sets_field_def)
  have "props_view q Parent = props_view p Parent" using q(3) f by simp
  then have h: "held (OProps q) = held (OProps p)"
    by (auto simp: props_view_def has_type_def FPGA_PROPERTY_PARENT_def split: if_splits)
  have "lib_inv own (put_obj a (OProps q) s)"
    by (rule lib_inv_put [OF inv m]) (use q(2) h in \<open>simp_all add: held_by_def wf_props_def\<close>)
  with q(1) show ?thesis by blast
next
  case False
  then show ?thesis using st inv by (simp add: sets_field_def)
qed

lemma set_prop_ok:
  assumes inv: "lib_inv own s" and p: "mem s a = Some (OProps p)"
    and g: "\<And>g. x = Set_GUID g \<Longrightarrow> g \<noteq> None \<and> length (the g) = 16"
  shows "\<exists>r s'. set_prop x s a = Some (r, s') \<and> lib_inv own s'"
proof -
  have w: "mem s a = Some (OProps p)" "a \<noteq> 0" "wf_props p"
    using p lib_inv_wf [OF inv p] by (simp_all add: wf_props_def)
  show ?thesis
  proof (cases x)
    case (Set_ObjectType v)
    let ?q = "SET_FIELD_VALID FPGA_PROPERTY_OBJTYPE (p\<lparr>pr_objtype := v\<rparr>)"
    have "set_prop x s a = Some (FPGA_OK, put_obj a (OProps ?q) s)"
      using w by (simp add: Set_ObjectType fpgaPropertiesSetObjectType_def props_set_def wf_props_def
          opae_validate_and_lock_properties_def unlock_properties_def SET_FIELD_VALID_def)
    moreover have "lib_inv own (put_obj a (OProps ?q) s)"
      by (rule lib_inv_put [OF inv p])
        (use w in \<open>simp_all add: held_by_def wf_props_def property_bits\<close>)
    ultimately show ?thesis by blast
  next
    case (Set_GUID h)
    then obtain y where y: "h = Some y" "length y = 16" using g by auto
    show ?thesis unfolding Set_GUID y set_prop.simps fpgaPropertiesSetGUID_def option.case
      by (rule sets_field_ok [OF inv p _ f_guid.set_sets_field [OF w]]) (simp_all add: y)
  next
    case (Set_Function v)
    show ?thesis
    proof (cases "v > 7")
      case True
      then show ?thesis using inv by (simp add: Set_Function fpgaPropertiesSetFunction_def)
    next
      case False
      have "sets_field s a p Function (VInt (unat v)) (fpgaPropertiesSetFunction s a v)"
        using False f_function.set_sets_field [OF w] by (simp add: fpgaPropertiesSetFunction_def)
      from sets_field_ok [OF inv p _ this] show ?thesis by (simp add: Set_Function)
    qed
  next
    case (Set_Segment v)
    show ?thesis unfolding Set_Segment set_prop.simps fpgaPropertiesSetSegment_def
      by (rule sets_field_ok [OF inv p _ f_segment.set_sets_field [OF w]]) simp_all
  next
    case (Set_Bus v)
    show ?thesis unfolding Set_Bus set_prop.simps fpgaPropertiesSetBus_def
      by (rule sets_field_ok [OF inv p _ f_bus.set_sets_field [OF w]]) simp_all
  next
    case (Set_Device v)
    show ?thesis unfolding Set_Device set_prop.simps fpgaPropertiesSetDevice_def
      by (rule sets_field_ok [OF inv p _ f_device.set_sets_field [OF w]]) simp_all
  next
    case (Set_SocketID v)
    show ?thesis unfolding Set_SocketID set_prop.simps fpgaPropertiesSetSocketID_def
      by (rule sets_field_ok [OF inv p _ f_socket_id.set_sets_field [OF w]]) simp_all
  next
    case (Set_DeviceID v)
    show ?thesis unfolding Set_DeviceID set_prop.simps fpgaPropertiesSetDeviceID_def
      by (rule sets_field_ok [OF inv p _ f_device_id.set_sets_field [OF w]]) simp_all
  next
    case (Set_VendorID v)
    show ?thesis unfolding Set_VendorID set_prop.simps fpgaPropertiesSetVendorID_def
      by (rule sets_field_ok [OF inv p _ f_vendor_id.set_sets_field [OF w]]) simp_all
  next
    case (Set_ObjectID v)
    show ?thesis unfolding Set_ObjectID set_prop.simps fpgaPropertiesSetObjectID_def
      by (rule sets_field_ok [OF inv p _ f_object_id.set_sets_field [OF w]]) simp_all
  next
    case (Set_NumErrors v)
    show ?thesis unfolding Set_NumErrors set_prop.simps fpgaPropertiesSetNumErrors_def
      by (rule sets_field_ok [OF inv p _ f_num_errors.set_sets_field [OF w]]) simp_all
  next
    case (Set_NumSlots v)
    show ?thesis unfolding Set_NumSlots set_prop.simps fpgaPropertiesSetNumSlots_def
      by (rule sets_field_ok [OF inv p _ f_num_slots.set_sets_field [OF w]]) simp_all
  next
    case (Set_BBSID v)
    show ?thesis unfolding Set_BBSID set_prop.simps fpgaPropertiesSetBBSID_def
      by (rule sets_field_ok [OF inv p _ f_bbs_id.set_sets_field [OF w]]) simp_all
  next
    case (Set_BBSVersion v)
    show ?thesis unfolding Set_BBSVersion set_prop.simps fpgaPropertiesSetBBSVersion_def
      by (rule sets_field_ok [OF inv p _ f_bbs_version.set_sets_field [OF w]]) simp_all
  next
    case (Set_AcceleratorState v)
    show ?thesis unfolding Set_AcceleratorState set_prop.simps fpgaPropertiesSetAcceleratorState_def
      by (rule sets_field_ok [OF inv p _ f_state.set_sets_field [OF w]]) simp_all
  next
    case (Set_NumMMIO v)
    show ?thesis unfolding Set_NumMMIO set_prop.simps fpgaPropertiesSetNumMMIO_def
      by (rule sets_field_ok [OF inv p _ f_num_mmio.set_sets_field [OF w]]) simp_all
  next
    case (Set_NumInterrupts v)
    show ?thesis unfolding Set_NumInterrupts set_prop.simps fpgaPropertiesSetNumInterrupts_def
      by (rule sets_field_ok [OF inv p _ f_num_interrupts.set_sets_field [OF w]]) simp_all
  qed
qed

lemma exec_C_CreateEventHandle:
  assumes "lib_inv own s"
  shows "safe (C_CreateEventHandle ok out) own s"
  using fpgaCreateEventHandle_ok [OF assms, of ok out] by (auto simp: safe_def)

lemma exec_C_RegisterEvent:
  assumes inv: "lib_inv own s" and l: "live s h" "live s e"
  shows "safe (C_RegisterEvent h ty e flags) own s"
proof (cases "(\<exists>w. mem s h = Some (OHandle w)) \<and> (\<exists>v. mem s e = Some (OEvent v))")
  case True
  then obtain w v where "mem s h = Some (OHandle w)" "mem s e = Some (OEvent v)" by blast
  from fpgaRegisterEvent_ok [OF inv this, of ty flags] show ?thesis by (auto simp: safe_def)
next
  case False
  then show ?thesis using inv by (elim de_Morgan_conj [THEN iffD1, THEN disjE])
    (simp_all add: safe_def fpgaRegisterEvent_def validate_live [OF inv] l)
qed

lemma exec_C_UnregisterEvent:
  assumes inv: "lib_inv own s" and l: "live s h" "live s e"
  shows "safe (C_UnregisterEvent h ty e) own s"
proof (cases "(\<exists>w. mem s h = Some (OHandle w)) \<and> (\<exists>v. mem s e = Some (OEvent v))")
  case True
  then obtain w v where "mem s h = Some (OHandle w)" "mem s e = Some (OEvent v)" by blast
  from fpgaUnregisterEvent_ok [OF inv this, of ty] inv show ?thesis by (auto simp: safe_def)
next
  case False
  then show ?thesis using inv by (elim de_Morgan_conj [THEN iffD1, THEN disjE])
    (simp_all add: safe_def fpgaUnregisterEvent_def validate_live [OF inv] l)
qed

lemma exec_C_GetOSObject:
  assumes inv: "lib_inv own s" and l: "live s e"
  shows "safe (C_GetOSObject e fd) own s"
proof (cases "\<exists>v. mem s e = Some (OEvent v)")
  case True
  then obtain v where "mem s e = Some (OEvent v)" by blast
  from fpgaGetOSObjectFromEventHandle_ok [OF inv this, of fd] inv show ?thesis by (auto simp: safe_def)
next
  case False
  then show ?thesis using inv
    by (simp add: safe_def fpgaGetOSObjectFromEventHandle_def validate_live [OF inv] l)
qed

lemma exec_C_DestroyEventHandle:
  assumes inv: "lib_inv own s" and l: "live s e"
  shows "safe (C_DestroyEventHandle (Some e)) own s"
proof (cases "\<exists>v. mem s e = Some (OEvent v)")
  case True
  then obtain v where "mem s e = Some (OEvent v)" by blast
  from fpgaDestroyEventHandle_ok [OF inv this] show ?thesis by (auto simp: safe_def)
next
  case False
  then show ?thesis using inv by (simp add: safe_def fpgaDestroyEventHandle_def validate_live [OF inv] l)
qed

lemma exec_C_DestroyObject:
  assumes inv: "lib_inv own s" and l: "live s b"
  shows "safe (C_DestroyObject (Some b)) own s"
proof (cases "\<exists>v. mem s b = Some (OObj v)")
  case True
  then obtain v where "mem s b = Some (OObj v)" by blast
  from fpgaDestroyObject_ok [OF inv this] show ?thesis by (auto simp: safe_def)
next
  case False
  then show ?thesis using inv by (simp add: safe_def fpgaDestroyObject_def validate_live [OF inv] l)
qed

lemma adapter_of_kind:
  assumes "lib_inv own s"
  shows "mem s t = Some (OTok w) \<Longrightarrow> wt_adapter w \<in> dom (adapters s)"
    "mem s h = Some (OHandle x) \<Longrightarrow> wh_adapter x \<in> dom (adapters s)"
    "mem s b = Some (OObj y) \<Longrightarrow> wo_adapter y \<in> dom (adapters s)"
  using lib_inv_wf [OF assms] by (fastforce simp: wf_obj.simps)+

text \<open>The four lookups: the same steps, on a token, a handle or an object.\<close>

lemma get_wrapped_object_some:
  assumes "lib_inv own s" "a \<in> dom (adapters s)"
  shows "\<exists>r b s'. get_wrapped_object a e args s = Some (r, b, s') \<and> lib_inv own s'"
  using get_wrapped_object_ok [OF assms] by blast

lemma exec_C_get_object:
  assumes inv: "lib_inv own s" and l: "live s p"
  shows "safe (C_TokenGetObject p name out flags) own s" "safe (C_HandleGetObject p name out flags) own s"
    "safe (C_ObjectGetObject p name out flags) own s" "safe (C_ObjectGetObjectAt p i out) own s"
proof -
  note v = validate_live [OF inv l]
  note ad = adapter_of_kind [OF inv]
  show "safe (C_TokenGetObject p name out flags) own s"
  proof (cases "p \<in> tok_dom (mem s) \<and> p \<noteq> NULL \<and> name \<noteq> None \<and> out \<noteq> NULL")
    case True
    then obtain w where w: "mem s p = Some (OTok w)" by (auto simp: tok_dom_def)
    from get_wrapped_object_some [OF inv ad(1) [OF w], of "E_TokenGetObject" "[Ptr (wt_opae_token w), Str (the name), W32 flags]"]
    show ?thesis using True w by (auto simp: safe_def fpgaTokenGetObject_def v)
  next
    case False
    then show ?thesis using inv by (auto simp: safe_def fpgaTokenGetObject_def v)
  qed
  show "safe (C_HandleGetObject p name out flags) own s"
  proof (cases "(\<exists>w. mem s p = Some (OHandle w)) \<and> p \<noteq> NULL \<and> name \<noteq> None \<and> out \<noteq> NULL")
    case True
    then obtain w where w: "mem s p = Some (OHandle w)" by blast
    from get_wrapped_object_some [OF inv ad(2) [OF w], of "E_HandleGetObject" "[Ptr (wh_opae_handle w), Str (the name), W32 flags]"]
    show ?thesis using True w by (auto simp: safe_def fpgaHandleGetObject_def v)
  next
    case False
    then show ?thesis using inv by (auto simp: safe_def fpgaHandleGetObject_def v)
  qed
  show "safe (C_ObjectGetObject p name out flags) own s"
  proof (cases "(\<exists>w. mem s p = Some (OObj w)) \<and> p \<noteq> NULL \<and> name \<noteq> None \<and> out \<noteq> NULL")
    case True
    then obtain w where w: "mem s p = Some (OObj w)" by blast
    from get_wrapped_object_some [OF inv ad(3) [OF w], of "E_ObjectGetObject" "[Ptr (wo_opae_object w), Str (the name), W32 flags]"]
    show ?thesis using True w by (auto simp: safe_def fpgaObjectGetObject_def v)
  next
    case False
    then show ?thesis using inv by (auto simp: safe_def fpgaObjectGetObject_def v)
  qed
  show "safe (C_ObjectGetObjectAt p i out) own s"
  proof (cases "(\<exists>w. mem s p = Some (OObj w)) \<and> p \<noteq> NULL \<and> out \<noteq> NULL")
    case True
    then obtain w where w: "mem s p = Some (OObj w)" by blast
    from get_wrapped_object_some [OF inv ad(3) [OF w], of "E_ObjectGetObjectAt" "[Ptr (wo_opae_object w), W64 i]"]
    show ?thesis using True w by (auto simp: safe_def fpgaObjectGetObjectAt_def v)
  next
    case False
    then show ?thesis using inv by (auto simp: safe_def fpgaObjectGetObjectAt_def v)
  qed
qed

lemma exec_C_forward:
  assumes inv: "lib_inv own s" and l: "live s p"
  shows "safe (C_Handle e oks args p) own s" "safe (C_Token e oks args p) own s"
    "safe (C_Object e oks args p) own s"
proof -
  note v = validate_live [OF inv l]
  note ad = adapter_of_kind [OF inv]
  show "safe (C_Handle e oks args p) own s"
  proof (cases "(\<exists>w. mem s p = Some (OHandle w)) \<and> p \<noteq> NULL \<and> False \<notin> set oks")
    case True
    then obtain w where w: "mem s p = Some (OHandle w)" by blast
    from call_entry_ok [OF ad(2) [OF w], of e "Ptr (wh_opae_handle w) # args"]
    show ?thesis using True w inv by (auto simp: safe_def forward_handle_def v)
  next
    case False
    then show ?thesis using inv by (auto simp: safe_def forward_handle_def v)
  qed
  show "safe (C_Token e oks args p) own s"
  proof (cases "p \<in> tok_dom (mem s) \<and> p \<noteq> NULL \<and> False \<notin> set oks")
    case True
    then obtain w where w: "mem s p = Some (OTok w)" by (auto simp: tok_dom_def)
    from call_entry_ok [OF ad(1) [OF w], of e "Ptr (wt_opae_token w) # args"]
    show ?thesis using True w inv by (auto simp: safe_def forward_token_def v)
  next
    case False
    then show ?thesis using inv by (auto simp: safe_def forward_token_def v)
  qed
  show "safe (C_Object e oks args p) own s"
  proof (cases "(\<exists>w. mem s p = Some (OObj w)) \<and> p \<noteq> NULL \<and> False \<notin> set oks")
    case True
    then obtain w where w: "mem s p = Some (OObj w)" by blast
    from call_entry_ok [OF ad(3) [OF w], of e "Ptr (wo_opae_object w) # args"]
    show ?thesis using True w inv by (auto simp: safe_def forward_object_def v)
  next
    case False
    then show ?thesis using inv by (auto simp: safe_def forward_object_def v)
  qed
qed

lemma exec_C_interface:
  assumes inv: "lib_inv own s" and l: "live s h" "live s t"
  shows "safe (C_AssignToInterface h t i flags) own s" "safe (C_ReleaseFromInterface h t) own s"
proof -
  note v = validate_live [OF inv l(1)] validate_live [OF inv l(2)]
  have "safe (C_AssignToInterface h t i flags) own s \<and> safe (C_ReleaseFromInterface h t) own s"
  proof (cases "(\<exists>w. mem s h = Some (OHandle w)) \<and> h \<noteq> NULL \<and> t \<in> tok_dom (mem s) \<and> t \<noteq> NULL")
    case True
    then obtain x w where w: "mem s h = Some (OHandle x)" "mem s t = Some (OTok w)" by (auto simp: tok_dom_def)
    note c = call_entry_ok [OF adapter_of_kind(2) [OF inv w(1)]]
    from c [of E_AssignToInterface "[Ptr (wh_opae_handle x), Ptr (wt_opae_token w), W32 i, W32 flags]"]
      c [of E_ReleaseFromInterface "[Ptr (wh_opae_handle x), Ptr (wt_opae_token w)]"]
    show ?thesis using True w inv by (auto simp: safe_def fpgaAssignToInterface_def fpgaReleaseFromInterface_def v)
  next
    case False
    then show ?thesis using inv by (auto simp: safe_def fpgaAssignToInterface_def fpgaReleaseFromInterface_def v)
  qed
  then show "safe (C_AssignToInterface h t i flags) own s" "safe (C_ReleaseFromInterface h t) own s" by simp_all
qed

lemma allowed_safe:
  assumes inv: "client_inv own s" and r: "room own s" and al: "allowed c own s"
  shows "safe c own s"
proof -
  have i: "lib_inv own s" using inv by (simp add: client_inv_def)
  have none: "safe (C_DestroyProperties None) own s" "safe (C_DestroyEventHandle None) own s"
    "safe (C_DestroyObject None) own s"
    using i by (simp_all add: safe_def fpgaDestroyProperties_def fpgaDestroyEventHandle_def fpgaDestroyObject_def)
  note rules = exec_C_Open [OF i _ r] exec_C_Close [OF i] exec_C_CloneToken [OF i] exec_C_DestroyToken [OF i]
    exec_C_Enumerate [OF inv] exec_C_GetProperties [OF inv _ r] exec_C_GetPropertiesFromHandle [OF inv _ r]
    exec_C_UpdateProperties [OF inv _ r] exec_C_props [OF i _ r] exec_C_CreateEventHandle [OF i]
    exec_C_RegisterEvent [OF i] exec_C_UnregisterEvent [OF i] exec_C_GetOSObject [OF i]
    exec_C_DestroyEventHandle [OF i] exec_C_DestroyObject [OF i] exec_C_get_object [OF i]
    exec_C_forward [OF i] exec_C_interface [OF i] none
  show ?thesis
  proof (cases c)
    case (C_SetProp a x)
    then obtain p where "mem s a = Some (OProps p)" using al props_atD by auto
    then have "\<exists>r s'. set_prop x s a = Some (r, s') \<and> lib_inv own s'"
      by (rule set_prop_ok [OF i]) (use al in \<open>simp add: C_SetProp\<close>)
    then show ?thesis by (auto simp: C_SetProp safe_def)
  qed (use al in \<open>auto intro!: rules split: option.splits\<close>)
qed

lemma forward_list:
  "opt_all (\<lambda>(r, out, s'). ads s' = ads s) (forward_handle e oks args s p)"
  "opt_all (\<lambda>(r, out, s'). ads s' = ads s) (forward_token e oks args s p)"
  "opt_all (\<lambda>(r, out, s'). ads s' = ads s) (forward_object e oks args s p)"
  "opt_all (\<lambda>(r, out, s'). ads s' = ads s) (fpgaAssignToInterface s p q i flags)"
  "opt_all (\<lambda>(r, out, s'). ads s' = ads s) (fpgaReleaseFromInterface s p q)"
  by (auto simp: forward_handle_def forward_token_def forward_object_def fpgaAssignToInterface_def
      fpgaReleaseFromInterface_def intro!: keeps_list)

lemma props_set_list: "opt_all (\<lambda>(r, s'). ads s' = ads s) (props_set body s a)"
  by (auto simp: props_set_def intro!: keeps_list split: prod.split)

lemma set_prop_list: "opt_all (\<lambda>(r, s'). ads s' = ads s) (set_prop x s a)"
proof (cases x)
  case (Set_GUID g)
  then show ?thesis
    by (cases g) (auto simp: fpgaPropertiesSetGUID_def props_set_list intro!: keeps_list)
qed (simp_all add: fpgaPropertiesSetObjectType_def fpgaPropertiesSetSegment_def fpgaPropertiesSetBus_def
    fpgaPropertiesSetDevice_def fpgaPropertiesSetFunction_def fpgaPropertiesSetSocketID_def
    fpgaPropertiesSetDeviceID_def fpgaPropertiesSetVendorID_def fpgaPropertiesSetObjectID_def
    fpgaPropertiesSetNumErrors_def fpgaPropertiesSetNumSlots_def fpgaPropertiesSetBBSID_def
    fpgaPropertiesSetBBSVersion_def fpgaPropertiesSetAcceleratorState_def fpgaPropertiesSetNumMMIO_def
    fpgaPropertiesSetNumInterrupts_def props_set_list)

lemma ads_bind:
  "opt_all (\<lambda>(r, s'). ads s' = l) m \<Longrightarrow> opt_all (\<lambda>(own', s'). ads s' = l) (m \<bind> (\<lambda>(r, s'). Some (g r, s')))"
  "opt_all (\<lambda>(r, x, s'). ads s' = l) m3 \<Longrightarrow>
    opt_all (\<lambda>(own', s'). ads s' = l) (m3 \<bind> (\<lambda>(r, x, s'). Some (h r x, s')))"
  by (auto simp: opt_all_def bind_eq_Some_conv)

lemma fpgaDestroyProperties_ads: "opt_all (\<lambda>(r, x, s'). ads s' = ads s) (fpgaDestroyProperties s a)"
  by (auto intro!: keeps_list)

lemmas call_ads = fpgaOpen_list fpgaClose_list fpgaCloneToken_list fpgaDestroyToken_list fpgaGetProperties_list
    fpgaGetPropertiesFromHandle_list fpgaUpdateProperties_list fpgaCloneProperties_list
    fpgaClearProperties_list fpgaPropertiesSetParent_list set_prop_list fpgaRegisterEvent_list
    fpgaUnregisterEvent_list fpgaGetOSObjectFromEventHandle_list fpgaDestroyEventHandle_list
    fpgaTokenGetObject_list fpgaHandleGetObject_list fpgaObjectGetObject_list fpgaObjectGetObjectAt_list
    fpgaDestroyObject_list forward_list fpgaDestroyProperties_ads

lemma exec_ads:
  assumes inv: "client_inv own s" and al: "allowed c own s"
  shows "opt_all (\<lambda>(own', s'). ads s' = ads s) (exec c own s)"
proof (cases c)
  case (C_Enumerate filters n tokens mx num)
  have "case filters of None \<Rightarrow> True | Some l \<Rightarrow>
      distinct l \<and> (\<forall>f \<in> set l. \<exists>p. mem s f = Some (OProps p))"
    using al props_atD [of s] by (auto simp: C_Enumerate split: option.splits)
  from fpgaEnumerate_ok [OF _ this, of own n tokens mx num] inv show ?thesis
    by (auto simp: C_Enumerate client_inv_def grows_def ads_def)
next
  case (C_CreateEventHandle ok out)
  then show ?thesis using fpgaCreateEventHandle_list [of ok s out] by (auto split: prod.split)
qed (simp only: exec.simps, rule ads_bind, rule call_ads)+

subsection \<open>Reachable states\<close>

text \<open>
  The library starts with the adapters the plugin manager loaded and no objects. Between two
  calls the plugins' state may change, and whether an allocation succeeds is open.
\<close>

definition fresh_lib :: "'p lib \<Rightarrow> bool" where
  "fresh_lib s \<longleftrightarrow> mem s = Map.empty \<and> tok_list s = [] \<and> 0 < brk s \<and>
     set (adapter_list s) \<subseteq> dom (adapters s) \<and> props_plugins (adapters s) \<and> enum_plugins (adapters s)"

inductive client_reach :: "'p lib \<Rightarrow> (ptr \<Rightarrow> nat) \<Rightarrow> 'p lib \<Rightarrow> bool" for s0 where
  start: "client_reach s0 (\<lambda>_. 0) s0"
| world: "client_reach s0 own s \<Longrightarrow> client_reach s0 own (s\<lparr>plug := w, mallocs := ms\<rparr>)"
| call: "client_reach s0 own s \<Longrightarrow> room own s \<Longrightarrow> allowed c own s \<Longrightarrow> exec c own s = Some (own', s') \<Longrightarrow>
    client_reach s0 own' s'"

lemma fresh_inv: "fresh_lib s \<Longrightarrow> client_inv (\<lambda>_. 0) s"
  by (simp add: fresh_lib_def client_inv_def lib_inv_def refs_def holders_def tok_dom_def)

lemma exec_inv:
  assumes "client_inv own s" "room own s" "allowed c own s"
  shows "\<exists>own' s'. exec c own s = Some (own', s') \<and> client_inv own' s'"
proof -
  obtain own' s' where "exec c own s = Some (own', s')" "lib_inv own' s'"
    using allowed_safe [OF assms] by (auto simp: safe_def)
  moreover from this have "ads s' = ads s" using exec_ads [OF assms(1,3)] by (simp add: opt_all_def)
  ultimately show ?thesis using assms(1) by (simp add: client_inv_def ads_def)
qed

lemma client_reach_inv: "client_reach s0 own s \<Longrightarrow> fresh_lib s0 \<Longrightarrow> client_inv own s"
proof (induction rule: client_reach.induct)
  case start
  then show ?case by (rule fresh_inv)
next
  case (world own s w ms)
  then show ?case by (simp add: client_inv_def lib_inv_def)
next
  case (call own s c own' s')
  then show ?case using exec_inv [of own s c] by simp
qed

end
