(* ===== verification/Api_Correct.thy ===== *)
theory Api_Correct
  imports Api_Client
begin

section \<open>Correctness of the API for its clients\<close>

text \<open>
  The theorems on the library as a client sees it, each on a concrete library with one plugin that
  enumerates one token, opens it and closes it.
\<close>

subsection \<open>A library with one plugin\<close>

definition one_plugin :: "unit adapter" where
  "one_plugin = \<lparr>ad_path = ''libxfpga.so'', ad_dl_handle = 1,
     ad_fn = (\<lambda>e.
       if e = E_Enumerate then Some (\<lambda>args w. case args of
           W32 n # _ \<Rightarrow> ((FPGA_OK, [W32 1, Ptrs (if n = 0 then [] else [99])]), w)
         | _ \<Rightarrow> ((FPGA_EXCEPTION, []), w))
       else if e = E_Open then Some (\<lambda>_ w. ((FPGA_OK, [Ptr 55]), w))
       else if e = E_Close then Some (\<lambda>_ w. ((FPGA_OK, []), w))
       else if e = E_Reset then Some (\<lambda>args w. ((FPGA_OK, args), w))
       else None),
     ad_initialize = None, ad_finalize = None\<rparr>"

definition one_lib :: "unit lib" where
  "one_lib = \<lparr>mem = Map.empty, brk = 1, mallocs = [], tok_list = [], adapters = [7 \<mapsto> one_plugin],
     adapter_list = [7], plug = ()\<rparr>"

definition one_token :: "unit lib" where
  "one_token = one_lib\<lparr>mem := [1 \<mapsto> OTok \<lparr>wt_magic = OPAE_WRAPPED_TOKEN_MAGIC, wt_opae_token = 99,
     wt_ref_count = 1, wt_adapter = 7\<rparr>], brk := 2, tok_list := [1]\<rparr>"

definition own_one :: "ptr \<Rightarrow> nat" where
  "own_one = (\<lambda>t. of_bool (t = 1))"

lemma one_fresh: "fresh_lib one_lib"
proof -
  have "enum_plugins [7 \<mapsto> one_plugin]"
    by (auto simp: enum_plugins_def one_plugin_def Let_def word_gt_0 unat_gt_0 Suc_le_eq split: if_splits)
  moreover have "props_plugins [7 \<mapsto> one_plugin]"
    by (auto simp: props_plugins_def props_plugin_def one_plugin_def)
  ultimately show ?thesis by (simp add: fresh_lib_def one_lib_def)
qed

lemma one_enumerates: "fpgaEnumerate one_lib None 0 True 1 4 = Some (FPGA_OK, Some 1, [1], one_token)"
  by (simp add: fpgaEnumerate_def one_lib_def malloc_ok_def opae_plugin_mgr_for_each_adapter_def
      opae_enumerate_def adapter_fn_def one_plugin_def call_plugin_def enum_reply_def
      opae_allocate_wrapped_token_def alloc_obj_def opae_upref_wrapped_token_def put_obj_def Let_def
      one_token_def)

lemma one_room: "room (\<lambda>_. 0) one_lib" "room own_one one_token"
proof -
  have "holders (mem one_token) t = {}" "holders (mem one_lib) t = {}" for t
    by (simp_all add: holders_def one_token_def one_lib_def held_by_def)
  then show "room (\<lambda>_. 0) one_lib" "room own_one one_token"
    by (simp_all add: room_def refs_def own_one_def)
qed

lemma one_reach: "client_reach one_lib own_one one_token"
  by (rule client_reach.call [OF client_reach.start one_room(1), where c = "C_Enumerate None 0 True 1 4"])
    (simp_all add: one_enumerates own_one_def fun_eq_iff)

lemma one_inv: "lib_inv own_one one_token"
  using client_reach_inv [OF one_reach one_fresh] by (simp add: client_inv_def)

subsection \<open>No call is undefined, no count is wrong, nothing leaks\<close>

text \<open>
  C1. Whatever calls a client makes, in any order, as long as its pointers are NULL or point at
  live objects and it destroys only tokens it owns: no call ever touches freed memory, an
  uninitialized pointer or an object of the wrong kind, on any path, whether the plugins and the
  allocations succeed or fail.
\<close>

theorem api_never_undefined:
  assumes "fresh_lib s0" "client_reach s0 own s" "room own s" "allowed c own s"
  shows "exec c own s \<noteq> None"
  using exec_inv [OF client_reach_inv [OF assms(2,1)] assms(3,4)] by auto

theorem api_never_undefined_witness:
  "exec (C_Open 1 2 0) own_one one_token \<noteq> None \<and> exec (C_Close 1) own_one one_token \<noteq> None"
proof -
  have l: "live one_token 1" by (simp add: live_def one_token_def)
  show ?thesis
    using api_never_undefined [OF one_fresh one_reach one_room(2), of "C_Open 1 2 0"]
      api_never_undefined [OF one_fresh one_reach one_room(2), of "C_Close 1"] l by simp
qed

text \<open>
  C2. In every reachable state the counter of a token is exactly the number of references to it,
  from the client and from handles and properties objects, and it is not zero; nothing refers to
  a token that is gone; and the list of tokens in use has every token once.
\<close>

theorem api_refcounts_exact:
  assumes "fresh_lib s0" "client_reach s0 own s"
  shows "(\<forall>t w. mem s t = Some (OTok w) \<longrightarrow> unat (wt_ref_count w) = own t + card (holders (mem s) t) \<and>
      wt_ref_count w \<noteq> 0) \<and>
    (\<forall>t. t \<notin> tok_dom (mem s) \<longrightarrow> own t = 0 \<and> holders (mem s) t = {}) \<and>
    distinct (tok_list s) \<and> set (tok_list s) = tok_dom (mem s)"
proof -
  have inv: "lib_inv own s" using client_reach_inv [OF assms(2,1)] by (simp add: client_inv_def)
  then have "unat (wt_ref_count w) = own t + card (holders (mem s) t) \<and> wt_ref_count w \<noteq> 0"
    if "mem s t = Some (OTok w)" for t w
    using lib_inv_tok(1,2) [OF inv that] by (auto simp: refs_def)
  moreover have "own t = 0 \<and> holders (mem s) t = {}" if "t \<notin> tok_dom (mem s)" for t
    using inv that finite_holders [OF inv, of t] by (auto simp: lib_inv_def refs_def)
  ultimately show ?thesis using inv by (simp add: lib_inv_def)
qed

theorem api_refcounts_exact_witness:
  "holders (mem one_token) 2 = {} \<and> distinct (tok_list one_token)"
  using api_refcounts_exact [OF one_fresh one_reach] by (auto simp: own_one_def tok_dom_def one_token_def one_lib_def)

text \<open>
  C30. No token leaks: once the client has destroyed the tokens it owned, closed its handles and
  destroyed its properties objects, no wrapped token is left.
\<close>

theorem api_no_token_leak:
  assumes "fresh_lib s0" "client_reach s0 own s" and "\<forall>t. own t = 0"
    and "\<forall>p w. mem s p \<noteq> Some (OHandle w)" "\<forall>p w. mem s p \<noteq> Some (OProps w)"
  shows "tok_dom (mem s) = {} \<and> opae_wrapped_tokens_in_use s = 0"
proof -
  have inv: "lib_inv own s" using client_reach_inv [OF assms(2,1)] by (simp add: client_inv_def)
  have "held_by (mem s p) t = 0" for p t
    using assms(4,5) by (cases "mem s p"; simp add: held_by_def; case_tac a) auto
  then have "holders (mem s) t = {}" for t by (simp add: holders_def)
  then have "tok_dom (mem s) = {}"
    using inv assms(3) by (auto simp: lib_inv_def refs_def tok_dom_def)
  then show ?thesis using inv by (simp add: opae_wrapped_tokens_in_use_def lib_inv_def)
qed

theorem api_no_token_leak_witness:
  "\<exists>own s. client_reach one_lib own s \<and> brk s = 2 \<and> opae_wrapped_tokens_in_use s = 0"
proof -
  let ?s = "one_token\<lparr>mem := Map.empty, tok_list := []\<rparr>"
  have "fpgaDestroyToken one_token (Some 1) = Some (FPGA_NOT_SUPPORTED, ?s)"
    by (simp add: fpgaDestroyToken_def opae_validate_wrapped_token_def validate_magic_def one_token_def
        one_lib_def opae_destroy_wrapped_token_def opae_downref_wrapped_token_def adapter_fn_def put_obj_def
        free_obj_def one_plugin_def Let_def)
  then have "client_reach one_lib (own_one(1 := own_one 1 - 1)) ?s"
    by (intro client_reach.call [OF one_reach one_room(2), where c = "C_DestroyToken (Some 1)"])
      (simp_all add: live_def tok_dom_def own_one_def, simp_all add: one_token_def)
  moreover from api_no_token_leak [OF one_fresh this]
  have "opae_wrapped_tokens_in_use ?s = 0" by (simp add: own_one_def)
  ultimately show ?thesis by (intro exI conjI) (simp_all add: one_token_def)
qed

subsection \<open>Open and close\<close>

lemma open_result:
  assumes inv: "lib_inv own s" and w: "mem s t = Some (OTok w)" and b: "refs own (mem s) t + 1 < 2 ^ 32"
    and op: "fpgaOpen s t out flags = Some (FPGA_OK, Some h, s')"
  shows "\<exists>oh f g. adapter_fn s (wt_adapter w) E_Close = Some (Some g) \<and> h = brk s \<and> ads s' = ads s \<and>
    adapter_fn s (wt_adapter w) E_Open = Some (Some f) \<and>
    oh = out_ptr (snd (fst (f [Ptr (wt_opae_token w), W32 flags] (plug s)))) \<and>
    tok_list s' = tok_list s \<and> mem s' = (mem s)
      (h \<mapsto> OHandle \<lparr>wh_magic = OPAE_WRAPPED_HANDLE_MAGIC, wh_token = t, wh_opae_handle = oh,
         wh_adapter = wt_adapter w\<rparr>, t \<mapsto> OTok (w\<lparr>wt_ref_count := wt_ref_count w + 1\<rparr>))"
proof -
  have t: "t \<in> tok_dom (mem s)" using w by (simp add: tok_dom_def)
  have v: "opae_validate_wrapped_token s t = Some t" by (rule validate_token_ok [OF inv t refl])
  have c: "wt_ref_count w + 1 \<noteq> 1" using lib_inv_tok(1,2) [OF inv w] by auto
  have tb: "t \<noteq> brk s" "brk s \<noteq> 0" using lib_inv_wf [OF inv w] by auto
  obtain f g where fg: "adapter_fn s (wt_adapter w) E_Open = Some (Some f)"
      "adapter_fn s (wt_adapter w) E_Close = Some (Some g)"
    using op w v by (auto simp: fpgaOpen_def bind_eq_Some_conv split: if_splits option.splits)
  obtain res ou pl where cp: "call_plugin f [Ptr (wt_opae_token w), W32 flags] s = ((res, ou), s\<lparr>plug := pl\<rparr>)"
    using call_plugin_eq [of f _ s] by (metis prod.collapse)
  then have ou: "snd (fst (f [Ptr (wt_opae_token w), W32 flags] (plug s))) = ou"
    by (auto simp: call_plugin_def split: prod.splits)
  show ?thesis
  proof (cases rule: alloc_obj_cases [of "s\<lparr>plug := pl\<rparr>" "OHandle \<lparr>wh_magic = OPAE_WRAPPED_HANDLE_MAGIC,
      wh_token = t, wh_opae_handle = out_ptr ou, wh_adapter = wt_adapter w\<rparr>"])
    case (fail ms)
    then show ?thesis using op w v
      by (auto simp: fpgaOpen_def fg cp opae_allocate_wrapped_handle_def split: if_splits prod.splits)
  next
    case ok
    then show ?thesis using op w v c tb
      by (auto simp: fpgaOpen_def fg cp opae_allocate_wrapped_handle_def opae_upref_wrapped_token_def
          Let_def ads_def ou split: if_splits)
  qed
qed

text \<open>
  Closing what was just opened restores the store: the handle is gone, the token has its
  count back, no other object changed.
\<close>

theorem fpga_open_close:
  assumes "lib_inv own s" "mem s t = Some (OTok w)" "refs own (mem s) t + 1 < 2 ^ 32"
    and "fpgaOpen s t out flags = Some (FPGA_OK, Some h, s')"
  shows "\<exists>r s''. fpgaClose s' h = Some (r, s'') \<and> mem s'' = mem s \<and> tok_list s'' = tok_list s \<and>
    lib_inv own s''"
proof -
  obtain oh g where o: "adapter_fn s (wt_adapter w) E_Close = Some (Some g)" "h = brk s" "ads s' = ads s"
      "tok_list s' = tok_list s" and m: "mem s' = (mem s)(h \<mapsto> OHandle \<lparr>wh_magic = OPAE_WRAPPED_HANDLE_MAGIC,
         wh_token = t, wh_opae_handle = oh, wh_adapter = wt_adapter w\<rparr>,
         t \<mapsto> OTok (w\<lparr>wt_ref_count := wt_ref_count w + 1\<rparr>))"
    using open_result [OF assms] by (elim exE conjE) (rule that)
  have inv': "lib_inv own s'"
    using fpgaOpen_ok [OF assms(1) _ assms(3), of out flags] assms(2,4) by (auto simp: tok_dom_def)
  have h: "h \<noteq> 0" "h \<noteq> t" "mem s h = None"
    using lib_inv_wf [OF assms(1,2)] lib_inv_wf [OF assms(1), of h] o(2) by (cases "mem s h"; auto)+
  have z: "wt_ref_count w \<noteq> 0" using lib_inv_tok(1,2) [OF assms(1,2)] by auto
  have g: "adapter_fn s' (wt_adapter w) E_Close = Some (Some g)" using o(1,3) by (simp add: adapter_fn_def ads_def)
  obtain r ou pl where cp: "call_plugin g [Ptr oh] s' = ((r, ou), s'\<lparr>plug := pl\<rparr>)"
    using call_plugin_eq [of g _ s'] by (metis prod.collapse)
  have v: "opae_validate_wrapped_handle s' h = Some h"
    by (rule validate_ok(1) [OF inv']) (use m h in auto)
  have e: "(mem s)(h := None, t \<mapsto> OTok w) = mem s" using h assms(2) by (auto simp: fun_eq_iff)
  have c: "\<exists>s''. fpgaClose s' h = Some (r, s'') \<and> mem s'' = (mem s)(h := None, t \<mapsto> OTok w) \<and> tok_list s'' = tok_list s"
    using h m g z o(4) by (simp add: fpgaClose_def v cp opae_destroy_wrapped_handle_def
        opae_downref_wrapped_token_def Let_def free_obj_def fun_upd_twist)
  then obtain s'' where s'': "fpgaClose s' h = Some (r, s'')" "mem s'' = mem s" "tok_list s'' = tok_list s"
    unfolding e by blast
  moreover obtain x where "mem s' h = Some (OHandle x)" using m h(2) by auto
  then have "lib_inv own s''" using fpgaClose_ok [OF inv', of h x] s''(1) by simp
  ultimately show ?thesis by blast
qed

theorem fpga_open_close_witness:
  "\<exists>s' r s''. fpgaOpen one_token 1 2 0 = Some (FPGA_OK, Some 2, s') \<and> fpgaClose s' 2 = Some (r, s'') \<and>
     mem s'' = mem one_token"
proof -
  have "\<exists>s'. fpgaOpen one_token 1 2 0 = Some (FPGA_OK, Some 2, s')"
    by (simp add: fpgaOpen_def opae_validate_wrapped_token_def validate_magic_def one_token_def one_lib_def
        adapter_fn_def one_plugin_def call_plugin_def opae_allocate_wrapped_handle_def alloc_obj_def
        opae_upref_wrapped_token_def Let_def out_ptr_def)
  then obtain s' where o: "fpgaOpen one_token 1 2 0 = Some (FPGA_OK, Some 2, s')" ..
  obtain w where w: "mem one_token 1 = Some (OTok w)" by (simp add: one_token_def)
  have "refs own_one (mem one_token) 1 + 1 < 2 ^ 32" using one_room(2) by (simp add: room_def)
  from fpga_open_close [OF one_inv w this o] o show ?thesis by blast
qed

subsection \<open>Enumeration\<close>

text \<open>
  C31. \<^verbatim>\<open>fpgaEnumerate\<close> is defined for any filters that are live property objects, no two of them the same, and on
  every path, errors included, all it changes in memory are the tokens it hands out: these are new, distinct, valid, as many as there was
  space for at most, and the client owns one reference to each. In particular the wrapped
  parents of the filters, which are replaced for the time of the call, are back.
\<close>

theorem fpgaEnumerate_spec:
  assumes inv: "lib_inv own s" and fs: "\<forall>l. filters = Some l \<longrightarrow>
      distinct l \<and> (\<forall>f \<in> set l. \<exists>p. mem s f = Some (OProps p))"
    and ads: "set (adapter_list s) \<subseteq> dom (adapters s)" and pl: "enum_plugins (adapters s)"
  shows "\<exists>r n toks s'. fpgaEnumerate s filters num_filters tokens max_tokens num_matches =
      Some (r, n, toks, s') \<and> lib_inv (\<lambda>t. own t + of_bool (t \<in> set toks)) s' \<and>
    distinct toks \<and> length toks \<le> unat max_tokens \<and>
    (\<forall>t \<in> set toks. mem s t = None \<and> opae_validate_wrapped_token s' t = Some t) \<and>
    (\<forall>a. a \<notin> set toks \<longrightarrow> mem s' a = mem s a)"
proof -
  have "case filters of None \<Rightarrow> True | Some l \<Rightarrow>
      distinct l \<and> (\<forall>f \<in> set l. \<exists>p. mem s f = Some (OProps p))"
    using fs by (auto split: option.split)
  from fpgaEnumerate_ok [OF inv this ads pl, of num_filters tokens max_tokens num_matches]
  obtain r n toks s' where e: "fpgaEnumerate s filters num_filters tokens max_tokens num_matches =
      Some (r, n, toks, s')" and g: "grows own s toks s'" "length toks \<le> unat max_tokens"
    by (elim exE conjE) (rule that)
  then have i: "lib_inv (\<lambda>t. own t + of_bool (t \<in> set toks)) s'" by (simp add: grows_def)
  have "opae_validate_wrapped_token s' t = Some t" if "t \<in> set toks" for t
    using validate_token_ok [OF i _ refl] that g(1) by (simp add: grows_def)
  then show ?thesis using e g i by (auto simp: grows_def)
qed

text \<open>The library after the properties at 2 were given the token at 1 for a parent.\<close>

definition child_filter :: fpga_properties where
  "child_filter = SET_FIELD_VALID FPGA_PROPERTY_PARENT (empty_properties\<lparr>pr_parent := 1\<rparr>)"

definition with_filter :: "unit lib" where
  "with_filter = one_token\<lparr>mem := [1 \<mapsto> OTok \<lparr>wt_magic = OPAE_WRAPPED_TOKEN_MAGIC, wt_opae_token = 99,
     wt_ref_count = 2, wt_adapter = 7\<rparr>, 2 \<mapsto> OProps child_filter], brk := 3\<rparr>"

lemma child_filter [simp]:
  "FIELD_VALID child_filter FPGA_PROPERTY_PARENT" "pr_parent child_filter = 1"
  "pr_magic child_filter = FPGA_PROPERTY_MAGIC" "pr_lock child_filter = 0"
  by (simp_all add: child_filter_def FIELD_VALID_def SET_FIELD_VALID_def empty_properties_def FPGA_PROPERTY_PARENT_def bit_simps)

lemma with_filter_inv: "lib_inv own_one with_filter"
proof -
  have "holders (mem with_filter) t = (if t = 1 then {2} else {})" for t
    by (auto simp: holders_def with_filter_def held_by_def)
  then have r: "refs own_one (mem with_filter) t = (if t = 1 then 2 else 0)" for t
    by (simp add: refs_def own_one_def)
  have "wf_obj (adapters with_filter) (OProps child_filter)"
    by (simp add: child_filter_def SET_FIELD_VALID_def empty_properties_def)
  with r show ?thesis
    by (auto simp: lib_inv_def tok_dom_def) (auto simp: with_filter_def one_token_def one_lib_def split: if_splits)
qed

theorem fpgaEnumerate_spec_witness:
  "\<exists>s'. fpgaEnumerate with_filter (Some [2]) 1 True 1 4 = Some (FPGA_OK, Some 1, [3], s') \<and>
     mem s' 2 = Some (OProps child_filter) \<and> opae_validate_wrapped_token s' 3 = Some 3"
proof -
  have a: "set (adapter_list with_filter) \<subseteq> dom (adapters with_filter)" "enum_plugins (adapters with_filter)"
    using fresh_inv [OF one_fresh] by (simp_all add: client_inv_def with_filter_def one_token_def)
  have f: "\<forall>l. Some [2] = Some l \<longrightarrow> distinct l \<and> (\<forall>f\<in>set l. \<exists>p. mem with_filter f = Some (OProps p))"
    by (simp add: with_filter_def)
  have "map_option (\<lambda>(r, n, toks, _). (r, n, toks)) (fpgaEnumerate with_filter (Some [2]) 1 True 1 4) =
      Some (FPGA_OK, Some 1, [3])"
    by (simp add: fpgaEnumerate_def with_filter_def one_token_def one_lib_def malloc_ok_def opae_plugin_mgr_for_each_adapter_def
      opae_validate_and_lock_properties_def opae_validate_wrapped_token_def validate_magic_def get_props_def get_tok_def
      unlock_properties_def opae_enumerate_def adapter_fn_def one_plugin_def call_plugin_def enum_reply_def
      opae_allocate_wrapped_token_def alloc_obj_def opae_upref_wrapped_token_def put_obj_def Let_def)
  moreover have "mem with_filter 2 = Some (OProps child_filter)" by (simp add: with_filter_def)
  ultimately show ?thesis
    using fpgaEnumerate_spec [OF with_filter_inv f a, of 1 True 1 4] by auto
qed

subsection \<open>Calls that are only forwarded\<close>

text \<open>What the caller gets from the plugin's function \<open>e\<close> for the device behind a handle, token or object.\<close>

definition reply_of :: "'p lib \<Rightarrow> ptr \<Rightarrow> entry \<Rightarrow> arg list \<Rightarrow> (fpga_result \<times> arg list \<times> 'p lib) option" where
  "reply_of s a e args = do {
     ad \<leftarrow> adapters s a;
     Some (case ad_fn ad e of
             None \<Rightarrow> (FPGA_NOT_SUPPORTED, [], s)
           | Some f \<Rightarrow> (fst (fst (f args (plug s))), snd (fst (f args (plug s))), s\<lparr>plug := snd (f args (plug s))\<rparr>))
   }"

definition handle_reply :: "'p lib \<Rightarrow> ptr \<Rightarrow> bool \<Rightarrow> entry \<Rightarrow> arg list \<Rightarrow> (fpga_result \<times> arg list \<times> 'p lib) option" where
  "handle_reply s h ok e args =
     (case mem s h of
        Some (OHandle w) \<Rightarrow> if ok then reply_of s (wh_adapter w) e (Ptr (wh_opae_handle w) # args)
                           else Some (FPGA_INVALID_PARAM, [], s)
      | _ \<Rightarrow> Some (FPGA_INVALID_PARAM, [], s))"

definition token_reply :: "'p lib \<Rightarrow> ptr \<Rightarrow> bool \<Rightarrow> entry \<Rightarrow> arg list \<Rightarrow> (fpga_result \<times> arg list \<times> 'p lib) option" where
  "token_reply s t ok e args =
     (case mem s t of
        Some (OTok w) \<Rightarrow> if ok then reply_of s (wt_adapter w) e (Ptr (wt_opae_token w) # args)
                        else Some (FPGA_INVALID_PARAM, [], s)
      | _ \<Rightarrow> Some (FPGA_INVALID_PARAM, [], s))"

definition object_reply :: "'p lib \<Rightarrow> ptr \<Rightarrow> bool \<Rightarrow> entry \<Rightarrow> arg list \<Rightarrow> (fpga_result \<times> arg list \<times> 'p lib) option" where
  "object_reply s b ok e args =
     (case mem s b of
        Some (OObj w) \<Rightarrow> if ok then reply_of s (wo_adapter w) e (Ptr (wo_opae_object w) # args)
                        else Some (FPGA_INVALID_PARAM, [], s)
      | _ \<Rightarrow> Some (FPGA_INVALID_PARAM, [], s))"

lemma call_entry_reply: "a \<in> dom (adapters s) \<Longrightarrow> call_entry a e args s = reply_of s a e args"
  by (auto simp: call_entry_def reply_of_def adapter_fn_def call_plugin_def split: option.split prod.split)

lemma forward_reply:
  assumes inv: "lib_inv own s" and l: "live s p"
  shows "forward_handle e oks args s p = handle_reply s p (False \<notin> set oks) e args"
    "forward_token e oks args s p = token_reply s p (False \<notin> set oks) e args"
    "forward_object e oks args s p = object_reply s p (False \<notin> set oks) e args"
proof -
  note v = validate_live [OF inv l] and ad = adapter_of_kind [OF inv]
  have n: "mem s 0 = None" using lib_inv_wf [OF inv, of 0] by (cases "mem s 0") auto
  show "forward_handle e oks args s p = handle_reply s p (False \<notin> set oks) e args"
    using n ad(2) by (auto simp: forward_handle_def handle_reply_def v call_entry_reply
        split: option.split obj.split)
  show "forward_token e oks args s p = token_reply s p (False \<notin> set oks) e args"
    using n ad(1) by (auto simp: forward_token_def token_reply_def v call_entry_reply tok_dom_def
        split: option.split obj.split)
  show "forward_object e oks args s p = object_reply s p (False \<notin> set oks) e args"
    using n ad(3) by (auto simp: forward_object_def object_reply_def v call_entry_reply
        split: option.split obj.split)
qed

lemma opened_handle_reply:
  assumes "lib_inv own0 s0 \<and> mem s0 t = Some (OTok w) \<and> refs own0 (mem s0) t + 1 < 2 ^ 32 \<and>
      fpgaOpen s0 t out fl = Some (FPGA_OK, Some h, s1) \<and> mem s h = mem s1 h"
  shows "\<exists>f. adapter_fn s0 (wt_adapter w) E_Open = Some (Some f) \<and>
    (\<forall>ok e args. handle_reply s h ok e args =
      (if ok then reply_of s (wt_adapter w) e
         (Ptr (out_ptr (snd (fst (f [Ptr (wt_opae_token w), W32 fl] (plug s0))))) # args)
       else Some (FPGA_INVALID_PARAM, [], s)))"
proof -
  have o: "lib_inv own0 s0" "mem s0 t = Some (OTok w)" "refs own0 (mem s0) t + 1 < 2 ^ 32"
      "fpgaOpen s0 t out fl = Some (FPGA_OK, Some h, s1)" and m: "mem s h = mem s1 h"
    using assms by blast+
  obtain oh f where f: "adapter_fn s0 (wt_adapter w) E_Open = Some (Some f)"
      "oh = out_ptr (snd (fst (f [Ptr (wt_opae_token w), W32 fl] (plug s0))))" "h = brk s0"
      "mem s1 = (mem s0)(h \<mapsto> OHandle \<lparr>wh_magic = OPAE_WRAPPED_HANDLE_MAGIC, wh_token = t, wh_opae_handle = oh,
         wh_adapter = wt_adapter w\<rparr>, t \<mapsto> OTok (w\<lparr>wt_ref_count := wt_ref_count w + 1\<rparr>))"
    using open_result [OF o] by (elim exE conjE) (rule that)
  have "h \<noteq> t" using f(3) lib_inv_wf [OF o(1,2)] by auto
  then have "mem s h = Some (OHandle \<lparr>wh_magic = OPAE_WRAPPED_HANDLE_MAGIC, wh_token = t, wh_opae_handle = oh,
         wh_adapter = wt_adapter w\<rparr>)"
    using m f(4) by simp
  with f(1) show ?thesis unfolding f(2) by (intro exI [of _ f]) (simp add: handle_reply_def)
qed

lemma handle_replies:
  assumes "lib_inv own s" "live s h"
  shows "fpgaReset s h = handle_reply s h True E_Reset [] \<and>
    fpgaReadMMIO64 s h n off v = handle_reply s h True E_ReadMMIO64 [W32 n, W64 off, Ptr v] \<and>
    fpgaWriteMMIO64 s h n off x = handle_reply s h True E_WriteMMIO64 [W32 n, W64 off, W64 x] \<and>
    fpgaReadMMIO32 s h n off v = handle_reply s h True E_ReadMMIO32 [W32 n, W64 off, Ptr v] \<and>
    fpgaWriteMMIO32 s h n off y = handle_reply s h True E_WriteMMIO32 [W32 n, W64 off, W32 y] \<and>
    fpgaWriteMMIO512 s h n off v = handle_reply s h True E_WriteMMIO512 [W32 n, W64 off, Ptr v] \<and>
    fpgaMapMMIO s h n v = handle_reply s h True E_MapMMIO [W32 n, Ptr v] \<and>
    fpgaUnmapMMIO s h n = handle_reply s h True E_UnmapMMIO [W32 n] \<and>
    fpgaPrepareBuffer s h len a v flags = handle_reply s h (v \<noteq> NULL \<and> (a \<noteq> NULL \<or> flags AND 1 \<noteq> 0 \<and> len = 0)) E_PrepareBuffer [W64 len, Ptr a, Ptr v, W32 flags] \<and>
    fpgaReleaseBuffer s h x = handle_reply s h True E_ReleaseBuffer [W64 x] \<and>
    fpgaGetIOAddress s h x v = handle_reply s h (v \<noteq> NULL) E_GetIOAddress [W64 x, Ptr v] \<and>
    fpgaAssignPortToInterface s h n y flags = handle_reply s h True E_AssignPortToInterface [W32 n, W32 y, W32 flags] \<and>
    fpgaSetUserClock s h off x flags = handle_reply s h True E_SetUserClock [W64 off, W64 x, W32 flags] \<and>
    fpgaGetUserClock s h a v flags = handle_reply s h (a \<noteq> NULL \<and> v \<noteq> NULL) E_GetUserClock [Ptr a, Ptr v, W32 flags] \<and>
    fpgaGetNumMetrics s h v = handle_reply s h (v \<noteq> NULL) E_GetNumMetrics [Ptr v] \<and>
    fpgaGetMetricsInfo s h a v = handle_reply s h (a \<noteq> NULL \<and> v \<noteq> NULL) E_GetMetricsInfo [Ptr a, Ptr v] \<and>
    fpgaGetMetricsByIndex s h a x v = handle_reply s h (x \<noteq> 0 \<and> v \<noteq> NULL) E_GetMetricsByIndex [Ptr a, W64 x, Ptr v] \<and>
    fpgaGetMetricsThresholdInfo s h a v = handle_reply s h (v \<noteq> NULL) E_GetMetricsThresholdInfo [Ptr a, Ptr v]"
  unfolding fpgaReset_def fpgaReadMMIO64_def fpgaWriteMMIO64_def fpgaReadMMIO32_def fpgaWriteMMIO32_def fpgaWriteMMIO512_def fpgaMapMMIO_def fpgaUnmapMMIO_def fpgaPrepareBuffer_def fpgaReleaseBuffer_def fpgaGetIOAddress_def fpgaAssignPortToInterface_def fpgaSetUserClock_def fpgaGetUserClock_def fpgaGetNumMetrics_def fpgaGetMetricsInfo_def fpgaGetMetricsByIndex_def fpgaGetMetricsThresholdInfo_def
    FPGA_BUF_PREALLOCATED_def forward_reply [OF assms] by (auto simp: word_gt_0 intro!: arg_cong [where f = "\<lambda>ok. handle_reply s h ok e args" for e args])

text \<open>
  C32. A call on a handle, given NULL or any live object, is refused with FPGA_INVALID_PARAM and no
  effect unless it is a wrapped handle and the required output pointers are there; else exactly
  one function, that of the call, of the adapter recorded in the wrapper, is called on the
  plugin's own handle and its result comes back, or FPGA_NOT_SUPPORTED when it has none. When the handle
  is one that \<^verbatim>\<open>fpgaOpen\<close> gave out for a token and that still stands as it was given out, the adapter is the
  adapter of that token, and the plugin's handle is what the open function of this adapter answered for the
  plugin's own token. The
  pointer \<^verbatim>\<open>metric_num\<close> of \<^verbatim>\<open>fpgaGetMetricsByIndex\<close> is not among those that are checked.
\<close>

theorem handle_calls_forward:
  assumes "lib_inv own s" "live s h"
  shows "fpgaReset s h = handle_reply s h True E_Reset [] \<and>
    fpgaReadMMIO64 s h n off v = handle_reply s h True E_ReadMMIO64 [W32 n, W64 off, Ptr v] \<and>
    fpgaWriteMMIO64 s h n off x = handle_reply s h True E_WriteMMIO64 [W32 n, W64 off, W64 x] \<and>
    fpgaReadMMIO32 s h n off v = handle_reply s h True E_ReadMMIO32 [W32 n, W64 off, Ptr v] \<and>
    fpgaWriteMMIO32 s h n off y = handle_reply s h True E_WriteMMIO32 [W32 n, W64 off, W32 y] \<and>
    fpgaWriteMMIO512 s h n off v = handle_reply s h True E_WriteMMIO512 [W32 n, W64 off, Ptr v] \<and>
    fpgaMapMMIO s h n v = handle_reply s h True E_MapMMIO [W32 n, Ptr v] \<and>
    fpgaUnmapMMIO s h n = handle_reply s h True E_UnmapMMIO [W32 n] \<and>
    fpgaPrepareBuffer s h len a v flags = handle_reply s h (v \<noteq> NULL \<and> (a \<noteq> NULL \<or> flags AND 1 \<noteq> 0 \<and> len = 0)) E_PrepareBuffer [W64 len, Ptr a, Ptr v, W32 flags] \<and>
    fpgaReleaseBuffer s h x = handle_reply s h True E_ReleaseBuffer [W64 x] \<and>
    fpgaGetIOAddress s h x v = handle_reply s h (v \<noteq> NULL) E_GetIOAddress [W64 x, Ptr v] \<and>
    fpgaAssignPortToInterface s h n y flags = handle_reply s h True E_AssignPortToInterface [W32 n, W32 y, W32 flags] \<and>
    fpgaSetUserClock s h off x flags = handle_reply s h True E_SetUserClock [W64 off, W64 x, W32 flags] \<and>
    fpgaGetUserClock s h a v flags = handle_reply s h (a \<noteq> NULL \<and> v \<noteq> NULL) E_GetUserClock [Ptr a, Ptr v, W32 flags] \<and>
    fpgaGetNumMetrics s h v = handle_reply s h (v \<noteq> NULL) E_GetNumMetrics [Ptr v] \<and>
    fpgaGetMetricsInfo s h a v = handle_reply s h (a \<noteq> NULL \<and> v \<noteq> NULL) E_GetMetricsInfo [Ptr a, Ptr v] \<and>
    fpgaGetMetricsByIndex s h a x v = handle_reply s h (x \<noteq> 0 \<and> v \<noteq> NULL) E_GetMetricsByIndex [Ptr a, W64 x, Ptr v] \<and>
    fpgaGetMetricsThresholdInfo s h a v = handle_reply s h (v \<noteq> NULL) E_GetMetricsThresholdInfo [Ptr a, Ptr v] \<and>
    (\<forall>own0 s0 t w out fl s1. lib_inv own0 s0 \<and> mem s0 t = Some (OTok w) \<and> refs own0 (mem s0) t + 1 < 2 ^ 32 \<and>
        fpgaOpen s0 t out fl = Some (FPGA_OK, Some h, s1) \<and> mem s h = mem s1 h \<longrightarrow>
      (\<exists>f. adapter_fn s0 (wt_adapter w) E_Open = Some (Some f) \<and>
        (\<forall>ok e args. handle_reply s h ok e args =
          (if ok then reply_of s (wt_adapter w) e
             (Ptr (out_ptr (snd (fst (f [Ptr (wt_opae_token w), W32 fl] (plug s0))))) # args)
           else Some (FPGA_INVALID_PARAM, [], s)))))"
proof -
  have opened: "\<forall>own0 s0 t w out fl s1. lib_inv own0 s0 \<and> mem s0 t = Some (OTok w) \<and> refs own0 (mem s0) t + 1 < 2 ^ 32 \<and>
        fpgaOpen s0 t out fl = Some (FPGA_OK, Some h, s1) \<and> mem s h = mem s1 h \<longrightarrow> (\<exists>f. adapter_fn s0 (wt_adapter w) E_Open = Some (Some f) \<and>
        (\<forall>ok e args. handle_reply s h ok e args =
          (if ok then reply_of s (wt_adapter w) e
             (Ptr (out_ptr (snd (fst (f [Ptr (wt_opae_token w), W32 fl] (plug s0))))) # args)
           else Some (FPGA_INVALID_PARAM, [], s))))"
    by (intro allI impI, erule opened_handle_reply)
  note both = conjI [OF handle_replies [OF assms] opened]
  show ?thesis using both unfolding conj_assoc .
qed

theorem handle_calls_forward_witness:
  "\<exists>s'. fpgaOpen one_token 1 2 0 = Some (FPGA_OK, Some 2, s') \<and> fpgaReset s' 2 = Some (FPGA_OK, [Ptr 55], s')"
proof -
  have "\<exists>s'. fpgaOpen one_token 1 2 0 = Some (FPGA_OK, Some 2, s') \<and> adapters s' = [7 \<mapsto> one_plugin] \<and> brk s' = 3"
    by (simp add: fpgaOpen_def opae_validate_wrapped_token_def validate_magic_def one_token_def one_lib_def
        adapter_fn_def one_plugin_def call_plugin_def opae_allocate_wrapped_handle_def alloc_obj_def
        opae_upref_wrapped_token_def Let_def out_ptr_def)
  then obtain s' where o: "fpgaOpen one_token 1 2 0 = Some (FPGA_OK, Some 2, s')" "adapters s' = [7 \<mapsto> one_plugin]" by blast
  let ?w = "\<lparr>wt_magic = OPAE_WRAPPED_TOKEN_MAGIC, wt_opae_token = 99, wt_ref_count = 1, wt_adapter = 7\<rparr>"
  have w: "mem one_token 1 = Some (OTok ?w)" by (simp add: one_token_def)
  have r: "refs own_one (mem one_token) 1 + 1 < 2 ^ 32" using one_room(2) by (simp add: room_def)
  have i: "lib_inv own_one s'"
    using fpgaOpen_ok [OF one_inv _ r, of 2 0] w o(1) by (auto simp: tok_dom_def)
  have l: "live s' 2" using open_result [OF one_inv w r o(1)] by (auto simp: live_def)
  have "fpgaReset s' 2 = reply_of s' 7 E_Reset [Ptr 55]"
  proof -
    note f = handle_calls_forward [OF i l, of 0 0 0 0 0 0 0 0]
    have r1: "fpgaReset s' 2 = handle_reply s' 2 True E_Reset []" using f by blast
    have "\<forall>own0 s0 t w out fl s1. lib_inv own0 s0 \<and> mem s0 t = Some (OTok w) \<and> refs own0 (mem s0) t + 1 < 2 ^ 32 \<and>
        fpgaOpen s0 t out fl = Some (FPGA_OK, Some 2, s1) \<and> mem s' 2 = mem s1 2 \<longrightarrow>
      (\<exists>f. adapter_fn s0 (wt_adapter w) E_Open = Some (Some f) \<and>
        (\<forall>ok e args. handle_reply s' 2 ok e args =
          (if ok then reply_of s' (wt_adapter w) e
             (Ptr (out_ptr (snd (fst (f [Ptr (wt_opae_token w), W32 fl] (plug s0))))) # args)
           else Some (FPGA_INVALID_PARAM, [], s'))))"
      using f by blast
    then have "\<exists>f. adapter_fn one_token (wt_adapter ?w) E_Open = Some (Some f) \<and>
        (\<forall>ok e args. handle_reply s' 2 ok e args =
          (if ok then reply_of s' (wt_adapter ?w) e
             (Ptr (out_ptr (snd (fst (f [Ptr (wt_opae_token ?w), W32 0] (plug one_token))))) # args)
           else Some (FPGA_INVALID_PARAM, [], s')))"
      using one_inv w r o(1) by blast
    then obtain g where g: "adapter_fn one_token 7 E_Open = Some (Some g)"
        "\<And>ok e args. handle_reply s' 2 ok e args = (if ok then reply_of s' 7 e
           (Ptr (out_ptr (snd (fst (g [Ptr 99, W32 0] (plug one_token))))) # args) else Some (FPGA_INVALID_PARAM, [], s'))"
      by auto
    show ?thesis unfolding r1 g(2) using g(1)
      by (auto simp: adapter_fn_def one_token_def one_lib_def one_plugin_def out_ptr_def)
  qed
  then show ?thesis using o by (simp add: reply_of_def one_plugin_def)
qed

text \<open>
  Calls on a token and on an object are checked and forwarded to the plugin in the same way.
\<close>

theorem token_object_calls_forward:
  assumes "lib_inv own s" "live s t"
  shows "fpgaReadError s t n v = token_reply s t (v \<noteq> NULL) E_ReadError [W32 n, Ptr v] \<and>
    fpgaClearError s t n = token_reply s t True E_ClearError [W32 n] \<and>
    fpgaClearAllErrors s t = token_reply s t True E_ClearAllErrors [] \<and>
    fpgaGetErrorInfo s t n v = token_reply s t (v \<noteq> NULL) E_GetErrorInfo [W32 n, Ptr v] \<and>
    fpgaObjectRead s t v off len flags = object_reply s t (v \<noteq> NULL) E_ObjectRead [Ptr v, W64 off, W64 len, W32 flags] \<and>
    fpgaObjectGetSize s t v flags = object_reply s t (v \<noteq> NULL) E_ObjectGetSize [Ptr v, W32 flags] \<and>
    fpgaObjectGetType s t v = object_reply s t (v \<noteq> NULL) E_ObjectGetType [Ptr v] \<and>
    fpgaObjectRead64 s t v flags = object_reply s t (v \<noteq> NULL) E_ObjectRead64 [Ptr v, W32 flags] \<and>
    fpgaObjectWrite64 s t off flags = object_reply s t True E_ObjectWrite64 [W64 off, W32 flags]"
  unfolding fpgaReadError_def fpgaClearError_def fpgaClearAllErrors_def fpgaGetErrorInfo_def fpgaObjectRead_def fpgaObjectGetSize_def fpgaObjectGetType_def fpgaObjectRead64_def fpgaObjectWrite64_def
    forward_reply [OF assms] by simp

theorem token_object_calls_forward_witness:
  "fpgaClearAllErrors one_token 1 = Some (FPGA_NOT_SUPPORTED, [], one_token) \<and>
   fpgaObjectRead64 one_token 1 8 0 = Some (FPGA_INVALID_PARAM, [], one_token)"
proof -
  have l: "live one_token 1" by (simp add: live_def one_token_def)
  have "fpgaClearAllErrors one_token 1 = token_reply one_token 1 True E_ClearAllErrors []"
    "fpgaObjectRead64 one_token 1 8 0 = object_reply one_token 1 True E_ObjectRead64 [Ptr 8, W32 0]"
    using token_object_calls_forward [OF one_inv l] by auto
  then show ?thesis by (simp add: token_reply_def object_reply_def reply_of_def one_token_def one_lib_def one_plugin_def)
qed

end
