(* ===== verification/Xfpga_Drv.thy ===== *)
theory Xfpga_Drv
  imports Opae_State Wsid_List
begin

section \<open>Drivers of the xfpga plugin (plugins/xfpga/opae_drv.c)\<close>

text \<open>
  The plugin talks to one of two kernel drivers, the upstream DFL driver and the older Intel
  driver, through a table of functions that is chosen once, by the directory the driver leaves in
  sysfs. An entry of the table may be NULL.

  What a system call answers is a function of the calls made before it (\<open>xans\<close>): 0 or an errno,
  a descriptor or minus an errno for \<^verbatim>\<open>open\<close>. What it stores through its argument is
  a function of the calls made before it as well. Both are arbitrary. None is undefined behaviour,
  as in the other components.
\<close>

datatype driver = Dfl | Intel

datatype request =
    Get_api_version
  | Fme_get_info
  | Port_get_info
  | Port_get_region_info u32
  | Port_dma_map u32 u64 u64
  | Port_dma_unmap u64
  | Port_umsg_set_mode u32
  | Port_umsg_set_base_addr u64
  | Port_umsg_enable
  | Port_umsg_disable
  | Fme_err_set_irq u32 int
  | Port_err_set_irq u32 int
  | Port_uafu_set_irq u32 u32 "int list"
  | Fme_port_assign u32
  | Fme_port_release u32
  | Fme_port_pr u32 u32 u64
  | Port_reset
  | Port_err_get_irq_num
  | Port_uint_get_irq_num
  | Fme_err_get_irq_num
  | Fme_err_set_irqs u32 u32 "int list"
  | Port_err_set_irqs u32 u32 "int list"
  | Port_uint_set_irqs u32 u32 "int list"

text \<open>Where a mapping comes from: anonymous memory of some page size, or a region of a device.\<close>

datatype mapping = Map_4K | Map_2M | Map_1G | Map_region int u64

datatype xcall =
    X_malloc
  | X_lock
  | X_unlock
  | X_attr_init
  | X_attr_settype
  | X_mutex_init
  | X_attr_destroy
  | X_mutex_destroy
  | X_stat string
  | X_open string bool
  | X_close int
  | X_ioctl driver int request
  | X_mmap mapping u64
  | X_munmap u64 u64

type_synonym xcalls = "xcall list"

record opae_fme_info =
  fi_flags :: u32
  fi_capability :: u32

record opae_port_info =
  pi_flags :: u32
  pi_capability :: u32
  pi_num_regions :: u32
  pi_num_umsgs :: u32
  pi_num_uafu_irqs :: u32

record opae_port_region_info =
  ri_flags :: u32
  ri_size :: u64
  ri_offset :: u64

text \<open>The stores to device memory: one address, and what is written there.\<close>

datatype store =
    Store32 u64 u32
  | Store64 u64 u64
  | Store512 u64 "u8 list"

record xenv =
  xans :: "xcalls \<Rightarrow> xcall \<Rightarrow> int"
  fme_info_reply :: "xcalls \<Rightarrow> opae_fme_info"
  port_info_reply :: "xcalls \<Rightarrow> opae_port_info"
  region_reply :: "xcalls \<Rightarrow> opae_port_region_info"
  iova_reply :: "xcalls \<Rightarrow> u64"
  status_reply :: "xcalls \<Rightarrow> u64"
  irqs_reply :: "xcalls \<Rightarrow> u32"
  map_reply :: "xcalls \<Rightarrow> u64"
  load :: "store list \<Rightarrow> u64 \<Rightarrow> u64"
  getpid :: u64
  page_bytes :: u64
  cpu_avx512f :: bool

subsection \<open>The state of the plugin\<close>

definition FPGA_TOKEN_MAGIC :: u64 where "FPGA_TOKEN_MAGIC = 0x46504741544f4b4e"
definition FPGA_HANDLE_MAGIC :: u64 where "FPGA_HANDLE_MAGIC = 0x46504741484e444c"

record error_list =
  el_name :: string
  el_can_clear :: bool
  el_error_file :: string
  el_clear_file :: string

record xfpga_token =
  xt_device_instance :: u32
  xt_subdev_instance :: u32
  xt_magic :: u64
  xt_sysfspath :: string
  xt_devpath :: string
  xt_errors :: "error_list list"

text \<open>
  A handle, without the fields of the metrics. \<open>xh_umsg_iova\<close> is the address the driver gave, kept
  in a pointer.
\<close>

record xfpga_handle =
  xh_magic :: u64
  xh_token :: ptr
  xh_fddev :: int
  xh_fdfpgad :: int
  xh_wsid_root :: wsid_tracker
  xh_mmio_root :: wsid_tracker
  xh_umsg_virt :: u64
  xh_umsg_size :: u64
  xh_umsg_iova :: u64
  xh_flags :: u32

text \<open>\<open>xf_io\<close> is the driver \<^verbatim>\<open>io_ptr\<close> points to, \<open>xf_ctr\<close> the static counter of \<^verbatim>\<open>wsid_gen\<close>.\<close>

record xfpga =
  xf_io :: "driver option"
  xf_tokens :: "ptr \<rightharpoonup> xfpga_token"
  xf_handles :: "ptr \<rightharpoonup> xfpga_handle"
  xf_brk :: ptr
  xf_ctr :: u64
  xf_stores :: "store list"
  xf_calls :: xcalls

definition xsys :: "xenv \<Rightarrow> xcall \<Rightarrow> xfpga \<Rightarrow> int \<times> xfpga" where
  "xsys E c s = (xans E (xf_calls s) c, s\<lparr>xf_calls := c # xf_calls s\<rparr>)"

subsection \<open>Requests to the driver\<close>

definition EINVAL :: int where "EINVAL = 22"
definition ENOTSUP :: int where "ENOTSUP = 95"

definition opae_ioctl :: "xenv \<Rightarrow> driver \<Rightarrow> int \<Rightarrow> request \<Rightarrow> xfpga \<Rightarrow> fpga_result \<times> xfpga" where
  "opae_ioctl E d fd req s =
     (case xsys E (X_ioctl d fd req) s of (e, s) \<Rightarrow>
        (if e = 0 then FPGA_OK
         else if e = EINVAL then FPGA_INVALID_PARAM
         else if e = ENOTSUP then FPGA_NOT_SUPPORTED
         else FPGA_EXCEPTION, s))"

text \<open>A request that stores its answer: \<open>out\<close> is None when the caller's pointer is NULL.\<close>

definition ioctl_out ::
  "xenv \<Rightarrow> driver \<Rightarrow> int \<Rightarrow> request \<Rightarrow> (xcalls \<Rightarrow> 'a) \<Rightarrow> bool \<Rightarrow> xfpga \<Rightarrow> fpga_result \<times> 'a option \<times> xfpga" where
  "ioctl_out E d fd req reply out s =
     (if \<not> out then (FPGA_INVALID_PARAM, None, s)
      else case opae_ioctl E d fd req s of (res, s') \<Rightarrow>
        (res, if res = FPGA_OK then Some (reply (xf_calls s)) else None, s'))"

definition intel_fpga_version :: "xenv \<Rightarrow> int \<Rightarrow> xfpga \<Rightarrow> fpga_result \<times> xfpga" where
  "intel_fpga_version E fd s = opae_ioctl E Intel fd Get_api_version s"

definition intel_get_fme_info ::
  "xenv \<Rightarrow> int \<Rightarrow> bool \<Rightarrow> xfpga \<Rightarrow> fpga_result \<times> opae_fme_info option \<times> xfpga" where
  "intel_get_fme_info E fd info s = ioctl_out E Intel fd Fme_get_info (fme_info_reply E) info s"

definition FPGA_PORT_CAP_UAFU_IRQ :: u32 where "FPGA_PORT_CAP_UAFU_IRQ = 2"
definition OPAE_PORT_CAP_UAFU_IRQS :: u32 where "OPAE_PORT_CAP_UAFU_IRQS = 0x80000000"

text \<open>The structure the caller passes, or None for NULL, as the function leaves it.\<close>

definition intel_get_port_info ::
  "xenv \<Rightarrow> int \<Rightarrow> opae_port_info option \<Rightarrow> xfpga \<Rightarrow> fpga_result \<times> opae_port_info option \<times> xfpga" where
  "intel_get_port_info E fd info s =
     (case info of
        None \<Rightarrow> (FPGA_INVALID_PARAM, None, s)
      | Some info \<Rightarrow>
          (case opae_ioctl E Intel fd Port_get_info s of (res, s') \<Rightarrow>
             if res \<noteq> FPGA_OK then (res, Some info, s')
             else let pinfo = port_info_reply E (xf_calls s) in
               (res, Some (pinfo\<lparr>pi_capability := pi_capability pinfo OR
                  (if pi_capability pinfo AND FPGA_PORT_CAP_UAFU_IRQ \<noteq> 0 then OPAE_PORT_CAP_UAFU_IRQS else 0)\<rparr>),
                s')))"

definition intel_get_port_region_info ::
  "xenv \<Rightarrow> int \<Rightarrow> u32 \<Rightarrow> bool \<Rightarrow> xfpga \<Rightarrow> fpga_result \<times> opae_port_region_info option \<times> xfpga" where
  "intel_get_port_region_info E fd index info s =
     ioctl_out E Intel fd (Port_get_region_info index) (region_reply E) info s"

definition intel_port_map ::
  "xenv \<Rightarrow> int \<Rightarrow> u64 \<Rightarrow> u64 \<Rightarrow> u32 \<Rightarrow> bool \<Rightarrow> xfpga \<Rightarrow> fpga_result \<times> u64 option \<times> xfpga" where
  "intel_port_map E fd addr len flags io_addr s =
     ioctl_out E Intel fd (Port_dma_map flags addr len) (iova_reply E) io_addr s"

definition intel_port_unmap :: "xenv \<Rightarrow> int \<Rightarrow> u64 \<Rightarrow> xfpga \<Rightarrow> fpga_result \<times> xfpga" where
  "intel_port_unmap E fd io_addr s = opae_ioctl E Intel fd (Port_dma_unmap io_addr) s"

definition intel_port_umsg_cfg :: "xenv \<Rightarrow> int \<Rightarrow> u32 \<Rightarrow> u32 \<Rightarrow> xfpga \<Rightarrow> fpga_result \<times> xfpga" where
  "intel_port_umsg_cfg E fd flags hint_bitmap s =
     opae_ioctl E Intel fd (Port_umsg_set_mode hint_bitmap) s"

definition intel_port_umsg_set_base_addr :: "xenv \<Rightarrow> int \<Rightarrow> u32 \<Rightarrow> u64 \<Rightarrow> xfpga \<Rightarrow> fpga_result \<times> xfpga" where
  "intel_port_umsg_set_base_addr E fd flags io_addr s =
     opae_ioctl E Intel fd (Port_umsg_set_base_addr io_addr) s"

definition intel_port_umsg_enable :: "xenv \<Rightarrow> int \<Rightarrow> xfpga \<Rightarrow> fpga_result \<times> xfpga" where
  "intel_port_umsg_enable E fd s = opae_ioctl E Intel fd Port_umsg_enable s"

definition intel_port_umsg_disable :: "xenv \<Rightarrow> int \<Rightarrow> xfpga \<Rightarrow> fpga_result \<times> xfpga" where
  "intel_port_umsg_disable E fd s = opae_ioctl E Intel fd Port_umsg_disable s"

definition intel_fme_set_err_irq :: "xenv \<Rightarrow> int \<Rightarrow> u32 \<Rightarrow> int \<Rightarrow> xfpga \<Rightarrow> fpga_result \<times> xfpga" where
  "intel_fme_set_err_irq E fd flags evtfd s = opae_ioctl E Intel fd (Fme_err_set_irq flags evtfd) s"

definition intel_port_set_err_irq :: "xenv \<Rightarrow> int \<Rightarrow> u32 \<Rightarrow> int \<Rightarrow> xfpga \<Rightarrow> fpga_result \<times> xfpga" where
  "intel_port_set_err_irq E fd flags evtfd s = opae_ioctl E Intel fd (Port_err_set_irq flags evtfd) s"

text \<open>
  The requests with a list of descriptors. The size of the request is computed in 32 bits, with a
  header of \<open>hdr\<close> bytes, and the copy of the descriptors in 64: when the size wraps, or the caller's array
  is shorter than \<open>num\<close>, the copy leaves a buffer.
\<close>

definition irq_size :: "u32 \<Rightarrow> u32 \<Rightarrow> u32" where
  "irq_size hdr num = hdr + num * 4"

definition set_irqs ::
  "xenv \<Rightarrow> driver \<Rightarrow> u32 \<Rightarrow> int \<Rightarrow> (int list \<Rightarrow> request) \<Rightarrow> u32 \<Rightarrow> int list option \<Rightarrow> xfpga \<Rightarrow>
     (fpga_result \<times> xfpga) option" where
  "set_irqs E d hdr fd req num eventfd s =
     (case eventfd of
        None \<Rightarrow> Some (FPGA_INVALID_PARAM, s)
      | Some fds \<Rightarrow>
          (if num = 0 then Some (FPGA_INVALID_PARAM, s)
           else case xsys E X_malloc s of (ok, s) \<Rightarrow>
             if ok = 0 then Some (FPGA_NO_MEMORY, s)
             else if unat hdr + unat num * 4 \<le> unat (irq_size hdr num) \<and> unat num \<le> length fds
             then Some (opae_ioctl E d fd (req (take (unat num) fds)) s)
             else None))"

definition intel_port_set_user_irq ::
  "xenv \<Rightarrow> int \<Rightarrow> u32 \<Rightarrow> u32 \<Rightarrow> u32 \<Rightarrow> int list option \<Rightarrow> xfpga \<Rightarrow> (fpga_result \<times> xfpga) option" where
  "intel_port_set_user_irq E fd flags start num eventfd s =
     set_irqs E Intel 16 fd (Port_uafu_set_irq start num) num eventfd s"

definition intel_fme_port_assign :: "xenv \<Rightarrow> int \<Rightarrow> u32 \<Rightarrow> u32 \<Rightarrow> xfpga \<Rightarrow> fpga_result \<times> xfpga" where
  "intel_fme_port_assign E fd flags port_id s = opae_ioctl E Intel fd (Fme_port_assign port_id) s"

definition intel_fme_port_release :: "xenv \<Rightarrow> int \<Rightarrow> u32 \<Rightarrow> u32 \<Rightarrow> xfpga \<Rightarrow> fpga_result \<times> xfpga" where
  "intel_fme_port_release E fd flags port_id s = opae_ioctl E Intel fd (Fme_port_release port_id) s"

text \<open>The status is stored whatever the result; it is 0 unless the driver wrote it.\<close>

definition intel_fme_port_pr ::
  "xenv \<Rightarrow> int \<Rightarrow> u32 \<Rightarrow> u32 \<Rightarrow> u32 \<Rightarrow> u64 \<Rightarrow> bool \<Rightarrow> xfpga \<Rightarrow> fpga_result \<times> u64 option \<times> xfpga" where
  "intel_fme_port_pr E fd flags port_id sz addr status s =
     (if \<not> status then (FPGA_INVALID_PARAM, None, s)
      else case opae_ioctl E Intel fd (Fme_port_pr port_id sz addr) s of (res, s') \<Rightarrow>
        (res, Some (status_reply E (xf_calls s)), s'))"

definition intel_fme_port_reset :: "xenv \<Rightarrow> int \<Rightarrow> xfpga \<Rightarrow> fpga_result \<times> xfpga" where
  "intel_fme_port_reset E fd s = opae_ioctl E Intel fd Port_reset s"

definition dfl_fpga_version :: "xenv \<Rightarrow> int \<Rightarrow> xfpga \<Rightarrow> fpga_result \<times> xfpga" where
  "dfl_fpga_version E fd s = opae_ioctl E Dfl fd Get_api_version s"

text \<open>Two fields of the caller's structure are left alone.\<close>

definition dfl_get_port_info ::
  "xenv \<Rightarrow> int \<Rightarrow> opae_port_info option \<Rightarrow> xfpga \<Rightarrow> fpga_result \<times> opae_port_info option \<times> xfpga" where
  "dfl_get_port_info E fd info s =
     (case info of
        None \<Rightarrow> (FPGA_INVALID_PARAM, None, s)
      | Some info \<Rightarrow>
          (case opae_ioctl E Dfl fd Port_get_info s of (res, s') \<Rightarrow>
             if res \<noteq> FPGA_OK then (res, Some info, s')
             else let pinfo = port_info_reply E (xf_calls s) in
               (res, Some (info\<lparr>pi_flags := pi_flags pinfo, pi_num_regions := pi_num_regions pinfo,
                                pi_num_umsgs := pi_num_umsgs pinfo\<rparr>), s')))"

definition dfl_get_port_region_info ::
  "xenv \<Rightarrow> int \<Rightarrow> u32 \<Rightarrow> bool \<Rightarrow> xfpga \<Rightarrow> fpga_result \<times> opae_port_region_info option \<times> xfpga" where
  "dfl_get_port_region_info E fd index info s =
     ioctl_out E Dfl fd (Port_get_region_info index) (region_reply E) info s"

definition dfl_port_map ::
  "xenv \<Rightarrow> int \<Rightarrow> u64 \<Rightarrow> u64 \<Rightarrow> u32 \<Rightarrow> bool \<Rightarrow> xfpga \<Rightarrow> fpga_result \<times> u64 option \<times> xfpga" where
  "dfl_port_map E fd addr len flags io_addr s =
     ioctl_out E Dfl fd (Port_dma_map flags addr len) (iova_reply E) io_addr s"

definition dfl_port_unmap :: "xenv \<Rightarrow> int \<Rightarrow> u64 \<Rightarrow> xfpga \<Rightarrow> fpga_result \<times> xfpga" where
  "dfl_port_unmap E fd io_addr s = opae_ioctl E Dfl fd (Port_dma_unmap io_addr) s"

definition dfl_fme_port_assign :: "xenv \<Rightarrow> int \<Rightarrow> u32 \<Rightarrow> u32 \<Rightarrow> xfpga \<Rightarrow> fpga_result \<times> xfpga" where
  "dfl_fme_port_assign E fd flags port_id s = opae_ioctl E Dfl fd (Fme_port_assign port_id) s"

definition dfl_fme_port_release :: "xenv \<Rightarrow> int \<Rightarrow> u32 \<Rightarrow> u32 \<Rightarrow> xfpga \<Rightarrow> fpga_result \<times> xfpga" where
  "dfl_fme_port_release E fd flags port_id s = opae_ioctl E Dfl fd (Fme_port_release port_id) s"

definition dfl_fme_port_pr ::
  "xenv \<Rightarrow> int \<Rightarrow> u32 \<Rightarrow> u32 \<Rightarrow> u32 \<Rightarrow> u64 \<Rightarrow> bool \<Rightarrow> xfpga \<Rightarrow> fpga_result \<times> u64 option \<times> xfpga" where
  "dfl_fme_port_pr E fd flags port_id sz addr status s =
     (if \<not> status then (FPGA_INVALID_PARAM, None, s)
      else case opae_ioctl E Dfl fd (Fme_port_pr port_id sz addr) s of (res, s) \<Rightarrow> (res, Some 0, s))"

definition dfl_fme_port_reset :: "xenv \<Rightarrow> int \<Rightarrow> xfpga \<Rightarrow> fpga_result \<times> xfpga" where
  "dfl_fme_port_reset E fd s = opae_ioctl E Dfl fd Port_reset s"

definition dfl_port_get_err_irq :: "xenv \<Rightarrow> int \<Rightarrow> bool \<Rightarrow> xfpga \<Rightarrow> fpga_result \<times> u32 option \<times> xfpga" where
  "dfl_port_get_err_irq E fd num_irqs s = ioctl_out E Dfl fd Port_err_get_irq_num (irqs_reply E) num_irqs s"

definition dfl_port_get_user_irq :: "xenv \<Rightarrow> int \<Rightarrow> bool \<Rightarrow> xfpga \<Rightarrow> fpga_result \<times> u32 option \<times> xfpga" where
  "dfl_port_get_user_irq E fd num_irqs s = ioctl_out E Dfl fd Port_uint_get_irq_num (irqs_reply E) num_irqs s"

definition dfl_fme_get_err_irq :: "xenv \<Rightarrow> int \<Rightarrow> bool \<Rightarrow> xfpga \<Rightarrow> fpga_result \<times> u32 option \<times> xfpga" where
  "dfl_fme_get_err_irq E fd num_irqs s = ioctl_out E Dfl fd Fme_err_get_irq_num (irqs_reply E) num_irqs s"

definition dfl_set_irq ::
  "xenv \<Rightarrow> int \<Rightarrow> u32 \<Rightarrow> u32 \<Rightarrow> int list option \<Rightarrow> (u32 \<Rightarrow> u32 \<Rightarrow> int list \<Rightarrow> request) \<Rightarrow> xfpga \<Rightarrow>
     (fpga_result \<times> xfpga) option" where
  "dfl_set_irq E fd start num eventfd ioctl_id s =
     set_irqs E Dfl 8 fd (ioctl_id start num) num eventfd s"

definition dfl_fme_set_err_irq ::
  "xenv \<Rightarrow> int \<Rightarrow> u32 \<Rightarrow> u32 \<Rightarrow> int list option \<Rightarrow> xfpga \<Rightarrow> (fpga_result \<times> xfpga) option" where
  "dfl_fme_set_err_irq E fd start num eventfd s = dfl_set_irq E fd start num eventfd Fme_err_set_irqs s"

definition dfl_port_set_err_irq ::
  "xenv \<Rightarrow> int \<Rightarrow> u32 \<Rightarrow> u32 \<Rightarrow> int list option \<Rightarrow> xfpga \<Rightarrow> (fpga_result \<times> xfpga) option" where
  "dfl_port_set_err_irq E fd start num eventfd s = dfl_set_irq E fd start num eventfd Port_err_set_irqs s"

definition dfl_port_set_user_irq ::
  "xenv \<Rightarrow> int \<Rightarrow> u32 \<Rightarrow> u32 \<Rightarrow> int list option \<Rightarrow> xfpga \<Rightarrow> (fpga_result \<times> xfpga) option" where
  "dfl_port_set_user_irq E fd start num eventfd s = dfl_set_irq E fd start num eventfd Port_uint_set_irqs s"

subsection \<open>The table of functions\<close>

type_synonym 'a out_fn = "xfpga \<Rightarrow> fpga_result \<times> 'a option \<times> xfpga"
type_synonym call_fn = "xfpga \<Rightarrow> fpga_result \<times> xfpga"
type_synonym irq_fn = "xfpga \<Rightarrow> (fpga_result \<times> xfpga) option"

record ioctl_ops =
  op_get_fme_info :: "(xenv \<Rightarrow> int \<Rightarrow> bool \<Rightarrow> opae_fme_info out_fn) option"
  op_get_port_info :: "(xenv \<Rightarrow> int \<Rightarrow> opae_port_info option \<Rightarrow> opae_port_info out_fn) option"
  op_get_port_region_info :: "(xenv \<Rightarrow> int \<Rightarrow> u32 \<Rightarrow> bool \<Rightarrow> opae_port_region_info out_fn) option"
  op_port_map :: "(xenv \<Rightarrow> int \<Rightarrow> u64 \<Rightarrow> u64 \<Rightarrow> u32 \<Rightarrow> bool \<Rightarrow> u64 out_fn) option"
  op_port_unmap :: "(xenv \<Rightarrow> int \<Rightarrow> u64 \<Rightarrow> call_fn) option"
  op_port_umsg_cfg :: "(xenv \<Rightarrow> int \<Rightarrow> u32 \<Rightarrow> u32 \<Rightarrow> call_fn) option"
  op_port_umsg_set_base_addr :: "(xenv \<Rightarrow> int \<Rightarrow> u32 \<Rightarrow> u64 \<Rightarrow> call_fn) option"
  op_port_umsg_enable :: "(xenv \<Rightarrow> int \<Rightarrow> call_fn) option"
  op_port_umsg_disable :: "(xenv \<Rightarrow> int \<Rightarrow> call_fn) option"
  op_fme_set_err_irq :: "(xenv \<Rightarrow> int \<Rightarrow> u32 \<Rightarrow> int \<Rightarrow> call_fn) option"
  op_port_set_err_irq :: "(xenv \<Rightarrow> int \<Rightarrow> u32 \<Rightarrow> int \<Rightarrow> call_fn) option"
  op_port_set_user_irq :: "(xenv \<Rightarrow> int \<Rightarrow> u32 \<Rightarrow> u32 \<Rightarrow> u32 \<Rightarrow> int list option \<Rightarrow> irq_fn) option"
  op_fme_port_assign :: "(xenv \<Rightarrow> int \<Rightarrow> u32 \<Rightarrow> u32 \<Rightarrow> call_fn) option"
  op_fme_port_release :: "(xenv \<Rightarrow> int \<Rightarrow> u32 \<Rightarrow> u32 \<Rightarrow> call_fn) option"
  op_fme_port_pr :: "(xenv \<Rightarrow> int \<Rightarrow> u32 \<Rightarrow> u32 \<Rightarrow> u32 \<Rightarrow> u64 \<Rightarrow> bool \<Rightarrow> u64 out_fn) option"
  op_fme_port_reset :: "(xenv \<Rightarrow> int \<Rightarrow> call_fn) option"
  op_dfl_port_get_err_irq :: "(xenv \<Rightarrow> int \<Rightarrow> bool \<Rightarrow> u32 out_fn) option"
  op_dfl_port_get_user_irq :: "(xenv \<Rightarrow> int \<Rightarrow> bool \<Rightarrow> u32 out_fn) option"
  op_dfl_fme_get_err_irq :: "(xenv \<Rightarrow> int \<Rightarrow> bool \<Rightarrow> u32 out_fn) option"
  op_dfl_fme_set_err_irq :: "(xenv \<Rightarrow> int \<Rightarrow> u32 \<Rightarrow> u32 \<Rightarrow> int list option \<Rightarrow> irq_fn) option"
  op_dfl_port_set_err_irq :: "(xenv \<Rightarrow> int \<Rightarrow> u32 \<Rightarrow> u32 \<Rightarrow> int list option \<Rightarrow> irq_fn) option"
  op_dfl_port_set_user_irq :: "(xenv \<Rightarrow> int \<Rightarrow> u32 \<Rightarrow> u32 \<Rightarrow> int list option \<Rightarrow> irq_fn) option"

fun ioctl_table :: "driver \<Rightarrow> ioctl_ops" where
  "ioctl_table Dfl =
     \<lparr>op_get_fme_info = None,
      op_get_port_info = Some dfl_get_port_info,
      op_get_port_region_info = Some dfl_get_port_region_info,
      op_port_map = Some dfl_port_map,
      op_port_unmap = Some dfl_port_unmap,
      op_port_umsg_cfg = None,
      op_port_umsg_set_base_addr = None,
      op_port_umsg_enable = None,
      op_port_umsg_disable = None,
      op_fme_set_err_irq = None,
      op_port_set_err_irq = None,
      op_port_set_user_irq = None,
      op_fme_port_assign = Some dfl_fme_port_assign,
      op_fme_port_release = Some dfl_fme_port_release,
      op_fme_port_pr = Some dfl_fme_port_pr,
      op_fme_port_reset = Some dfl_fme_port_reset,
      op_dfl_port_get_err_irq = Some dfl_port_get_err_irq,
      op_dfl_port_get_user_irq = Some dfl_port_get_user_irq,
      op_dfl_fme_get_err_irq = Some dfl_fme_get_err_irq,
      op_dfl_fme_set_err_irq = Some dfl_fme_set_err_irq,
      op_dfl_port_set_err_irq = Some dfl_port_set_err_irq,
      op_dfl_port_set_user_irq = Some dfl_port_set_user_irq\<rparr>"
| "ioctl_table Intel =
     \<lparr>op_get_fme_info = Some intel_get_fme_info,
      op_get_port_info = Some intel_get_port_info,
      op_get_port_region_info = Some intel_get_port_region_info,
      op_port_map = Some intel_port_map,
      op_port_unmap = Some intel_port_unmap,
      op_port_umsg_cfg = Some intel_port_umsg_cfg,
      op_port_umsg_set_base_addr = Some intel_port_umsg_set_base_addr,
      op_port_umsg_enable = Some intel_port_umsg_enable,
      op_port_umsg_disable = Some intel_port_umsg_disable,
      op_fme_set_err_irq = Some intel_fme_set_err_irq,
      op_port_set_err_irq = Some intel_port_set_err_irq,
      op_port_set_user_irq = Some intel_port_set_user_irq,
      op_fme_port_assign = Some intel_fme_port_assign,
      op_fme_port_release = Some intel_fme_port_release,
      op_fme_port_pr = Some intel_fme_port_pr,
      op_fme_port_reset = Some intel_fme_port_reset,
      op_dfl_port_get_err_irq = None,
      op_dfl_port_get_user_irq = None,
      op_dfl_fme_get_err_irq = None,
      op_dfl_fme_set_err_irq = None,
      op_dfl_port_set_err_irq = None,
      op_dfl_port_set_user_irq = None\<rparr>"

definition opae_ioctl_initialize :: "xenv \<Rightarrow> xfpga \<Rightarrow> int \<times> xfpga" where
  "opae_ioctl_initialize E s =
     (case xsys E (X_stat ''/sys/class/fpga_region'') s of (r, s) \<Rightarrow>
      if r = 0 then (0, s\<lparr>xf_io := Some Dfl\<rparr>)
      else case xsys E (X_stat ''/sys/class/fpga'') s of (r, s) \<Rightarrow>
        if r = 0 then (0, s\<lparr>xf_io := Some Intel\<rparr>)
        else (1, s))"

text \<open>
  The macro \<^verbatim>\<open>IOCTL\<close>: \<open>fail\<close> is the return of a result code, \<open>call\<close> the call through the table.
\<close>

definition IOCTL ::
  "(ioctl_ops \<Rightarrow> 'f option) \<Rightarrow> (fpga_result \<Rightarrow> xfpga \<Rightarrow> 'r) \<Rightarrow> ('f \<Rightarrow> xfpga \<Rightarrow> 'r) \<Rightarrow> xfpga \<Rightarrow> 'r" where
  "IOCTL fn fail call s =
     (case xf_io s of
        None \<Rightarrow> fail FPGA_EXCEPTION s
      | Some d \<Rightarrow>
          (case fn (ioctl_table d) of
             None \<Rightarrow> fail FPGA_NOT_SUPPORTED s
           | Some f \<Rightarrow> call f s))"

abbreviation fail_out :: "fpga_result \<Rightarrow> 'a out_fn" where "fail_out r s \<equiv> (r, None, s)"
abbreviation fail_call :: "fpga_result \<Rightarrow> call_fn" where "fail_call r s \<equiv> (r, s)"
abbreviation fail_irq :: "fpga_result \<Rightarrow> irq_fn" where "fail_irq r s \<equiv> Some (r, s)"

definition opae_get_fme_info :: "xenv \<Rightarrow> int \<Rightarrow> bool \<Rightarrow> opae_fme_info out_fn" where
  "opae_get_fme_info E fd info = IOCTL op_get_fme_info fail_out (\<lambda>f. f E fd info)"

definition opae_get_port_info :: "xenv \<Rightarrow> int \<Rightarrow> opae_port_info option \<Rightarrow> opae_port_info out_fn" where
  "opae_get_port_info E fd info = IOCTL op_get_port_info (\<lambda>r s. (r, info, s)) (\<lambda>f. f E fd info)"

definition opae_get_port_region_info :: "xenv \<Rightarrow> int \<Rightarrow> u32 \<Rightarrow> bool \<Rightarrow> opae_port_region_info out_fn" where
  "opae_get_port_region_info E fd index info =
     IOCTL op_get_port_region_info fail_out (\<lambda>f. f E fd index info)"

definition opae_port_map :: "xenv \<Rightarrow> int \<Rightarrow> u64 \<Rightarrow> u64 \<Rightarrow> u32 \<Rightarrow> bool \<Rightarrow> u64 out_fn" where
  "opae_port_map E fd addr len flags io_addr =
     IOCTL op_port_map fail_out (\<lambda>f. f E fd addr len flags io_addr)"

definition opae_port_unmap :: "xenv \<Rightarrow> int \<Rightarrow> u64 \<Rightarrow> call_fn" where
  "opae_port_unmap E fd io_addr = IOCTL op_port_unmap fail_call (\<lambda>f. f E fd io_addr)"

definition opae_port_umsg_cfg :: "xenv \<Rightarrow> int \<Rightarrow> u32 \<Rightarrow> u32 \<Rightarrow> call_fn" where
  "opae_port_umsg_cfg E fd flags hint_bitmap =
     IOCTL op_port_umsg_cfg fail_call (\<lambda>f. f E fd flags hint_bitmap)"

definition opae_port_umsg_set_base_addr :: "xenv \<Rightarrow> int \<Rightarrow> u32 \<Rightarrow> u64 \<Rightarrow> call_fn" where
  "opae_port_umsg_set_base_addr E fd flags io_addr =
     IOCTL op_port_umsg_set_base_addr fail_call (\<lambda>f. f E fd flags io_addr)"

definition opae_port_umsg_enable :: "xenv \<Rightarrow> int \<Rightarrow> call_fn" where
  "opae_port_umsg_enable E fd = IOCTL op_port_umsg_enable fail_call (\<lambda>f. f E fd)"

definition opae_port_umsg_disable :: "xenv \<Rightarrow> int \<Rightarrow> call_fn" where
  "opae_port_umsg_disable E fd = IOCTL op_port_umsg_disable fail_call (\<lambda>f. f E fd)"

definition opae_fme_set_err_irq :: "xenv \<Rightarrow> int \<Rightarrow> u32 \<Rightarrow> int \<Rightarrow> call_fn" where
  "opae_fme_set_err_irq E fd flags eventfd = IOCTL op_fme_set_err_irq fail_call (\<lambda>f. f E fd flags eventfd)"

definition opae_port_set_err_irq :: "xenv \<Rightarrow> int \<Rightarrow> u32 \<Rightarrow> int \<Rightarrow> call_fn" where
  "opae_port_set_err_irq E fd flags eventfd = IOCTL op_port_set_err_irq fail_call (\<lambda>f. f E fd flags eventfd)"

definition opae_port_set_user_irq :: "xenv \<Rightarrow> int \<Rightarrow> u32 \<Rightarrow> u32 \<Rightarrow> u32 \<Rightarrow> int list option \<Rightarrow> irq_fn" where
  "opae_port_set_user_irq E fd flags start num eventfd =
     IOCTL op_port_set_user_irq fail_irq (\<lambda>f. f E fd flags start num eventfd)"

definition opae_fme_port_assign :: "xenv \<Rightarrow> int \<Rightarrow> u32 \<Rightarrow> u32 \<Rightarrow> call_fn" where
  "opae_fme_port_assign E fd flags port_id = IOCTL op_fme_port_assign fail_call (\<lambda>f. f E fd flags port_id)"

definition opae_fme_port_release :: "xenv \<Rightarrow> int \<Rightarrow> u32 \<Rightarrow> u32 \<Rightarrow> call_fn" where
  "opae_fme_port_release E fd flags port_id = IOCTL op_fme_port_release fail_call (\<lambda>f. f E fd flags port_id)"

definition opae_fme_port_pr :: "xenv \<Rightarrow> int \<Rightarrow> u32 \<Rightarrow> u32 \<Rightarrow> u32 \<Rightarrow> u64 \<Rightarrow> bool \<Rightarrow> u64 out_fn" where
  "opae_fme_port_pr E fd flags port_id sz addr status =
     IOCTL op_fme_port_pr fail_out (\<lambda>f. f E fd flags port_id sz addr status)"

definition opae_fme_port_reset :: "xenv \<Rightarrow> int \<Rightarrow> call_fn" where
  "opae_fme_port_reset E fd = IOCTL op_fme_port_reset fail_call (\<lambda>f. f E fd)"

definition opae_dfl_port_get_err_irq :: "xenv \<Rightarrow> int \<Rightarrow> bool \<Rightarrow> u32 out_fn" where
  "opae_dfl_port_get_err_irq E fd num_irqs = IOCTL op_dfl_port_get_err_irq fail_out (\<lambda>f. f E fd num_irqs)"

definition opae_dfl_port_get_user_irq :: "xenv \<Rightarrow> int \<Rightarrow> bool \<Rightarrow> u32 out_fn" where
  "opae_dfl_port_get_user_irq E fd num_irqs = IOCTL op_dfl_port_get_user_irq fail_out (\<lambda>f. f E fd num_irqs)"

definition opae_dfl_fme_get_err_irq :: "xenv \<Rightarrow> int \<Rightarrow> bool \<Rightarrow> u32 out_fn" where
  "opae_dfl_fme_get_err_irq E fd num_irqs = IOCTL op_dfl_fme_get_err_irq fail_out (\<lambda>f. f E fd num_irqs)"

definition opae_dfl_port_set_err_irq :: "xenv \<Rightarrow> int \<Rightarrow> u32 \<Rightarrow> u32 \<Rightarrow> int list option \<Rightarrow> irq_fn" where
  "opae_dfl_port_set_err_irq E fd start num eventfd =
     IOCTL op_dfl_port_set_err_irq fail_irq (\<lambda>f. f E fd start num eventfd)"

definition opae_dfl_port_set_user_irq :: "xenv \<Rightarrow> int \<Rightarrow> u32 \<Rightarrow> u32 \<Rightarrow> int list option \<Rightarrow> irq_fn" where
  "opae_dfl_port_set_user_irq E fd start num eventfd =
     IOCTL op_dfl_port_set_user_irq fail_irq (\<lambda>f. f E fd start num eventfd)"

definition opae_dfl_fme_set_err_irq :: "xenv \<Rightarrow> int \<Rightarrow> u32 \<Rightarrow> u32 \<Rightarrow> int list option \<Rightarrow> irq_fn" where
  "opae_dfl_fme_set_err_irq E fd start num eventfd =
     IOCTL op_dfl_fme_set_err_irq fail_irq (\<lambda>f. f E fd start num eventfd)"

end
