(* ===== verification/Xfpga_Handle.thy ===== *)
theory Xfpga_Handle
  imports Xfpga_Drv
begin

section \<open>Handles of the xfpga plugin: registers, shared buffers and user messages\<close>

text \<open>
  \<^verbatim>\<open>open.c\<close>, \<^verbatim>\<open>close.c\<close>, \<^verbatim>\<open>mmio.c\<close>, \<^verbatim>\<open>buffer.c\<close>, \<^verbatim>\<open>umsg.c\<close>, \<^verbatim>\<open>mmap.c\<close>, \<^verbatim>\<open>reset.c\<close> and \<^verbatim>\<open>hostif.c\<close>
  of \<^verbatim>\<open>plugins/xfpga\<close>, with the checks of \<^verbatim>\<open>common.c\<close>. A handle owns two tables of workspace ids: one
  for the mapped register regions and one for the shared buffers.

  Handles live in a store from addresses to handles, and so do the tokens that enumeration made. A
  freed handle is no longer in the store, so using it is undefined. Memory is an address of 64
  bits; what the plugin itself stores to device memory is recorded, and what it loads is a function of
  those stores. The mutexes are recursive and a call takes and releases them as the code does.
\<close>

subsection \<open>Checks and ids (common.c)\<close>

definition xmalloc :: "xenv \<Rightarrow> xfpga \<Rightarrow> ptr \<times> xfpga" where
  "xmalloc E s =
     (case xsys E X_malloc s of (r, s) \<Rightarrow>
        (if r \<noteq> 0 then (xf_brk s, s\<lparr>xf_brk := Suc (xf_brk s)\<rparr>) else (NULL, s)))"

definition xunlock :: "xenv \<Rightarrow> xfpga \<Rightarrow> xfpga" where
  "xunlock E s = snd (xsys E X_unlock s)"

definition xhandle_check_and_lock :: "xenv \<Rightarrow> ptr \<Rightarrow> xfpga \<Rightarrow> (fpga_result \<times> xfpga) option" where
  "xhandle_check_and_lock E handle s =
     (if handle = NULL then Some (FPGA_INVALID_PARAM, s)
      else do {
        h \<leftarrow> xf_handles s handle;
        (case xsys E X_lock s of (r, s) \<Rightarrow>
           if r \<noteq> 0 then Some (FPGA_EXCEPTION, s)
           else if xh_magic h \<noteq> FPGA_HANDLE_MAGIC then Some (FPGA_INVALID_PARAM, xunlock E s)
           else Some (FPGA_OK, s))
      })"

text \<open>
  The frame of every operation on a handle: \<open>body\<close> runs with the handle locked and the label
  \<^verbatim>\<open>out_unlock\<close> unlocks it.
\<close>

definition with_xhandle ::
  "xenv \<Rightarrow> ptr \<Rightarrow> (xfpga_handle \<Rightarrow> xfpga \<Rightarrow> (fpga_result \<times> 'a option \<times> xfpga) option) \<Rightarrow> xfpga \<Rightarrow>
     (fpga_result \<times> 'a option \<times> xfpga) option" where
  "with_xhandle E handle body s = do {
     (result, s) \<leftarrow> xhandle_check_and_lock E handle s;
     (if result \<noteq> FPGA_OK then Some (result, None, s)
      else do {
        h \<leftarrow> xf_handles s handle;
        (result, out, s) \<leftarrow> body h s;
        Some (result, out, xunlock E s)
      })
   }"

definition upd_xhandle :: "ptr \<Rightarrow> (xfpga_handle \<Rightarrow> xfpga_handle) \<Rightarrow> xfpga \<Rightarrow> xfpga" where
  "upd_xhandle p f s = s\<lparr>xf_handles := (xf_handles s)(p := map_option f (xf_handles s p))\<rparr>"

definition wsid_gen :: "xenv \<Rightarrow> xfpga \<Rightarrow> u64 \<times> xfpga" where
  "wsid_gen E s =
     (xf_ctr s XOR push_bit 40 (getpid E mod 16777216), s\<lparr>xf_ctr := xf_ctr s + 1\<rparr>)"

subsection \<open>Anonymous memory (mmap.c, buffer.c)\<close>

definition KB :: u64 where "KB = 1024"
definition MB :: u64 where "MB = 1024 * KB"
definition GB :: u64 where "GB = 1024 * MB"

definition map_kind :: "u64 \<Rightarrow> mapping" where
  "map_kind len = (if len > 2 * MB then Map_1G else if len > 4 * KB then Map_2M else Map_4K)"

text \<open>\<open>mmap\<close>: 0 and the address, or an errno.\<close>

definition xmmap :: "xenv \<Rightarrow> mapping \<Rightarrow> u64 \<Rightarrow> xfpga \<Rightarrow> int \<times> u64 \<times> xfpga" where
  "xmmap E k len s = (case xsys E (X_mmap k len) s of (r, s') \<Rightarrow> (r, map_reply E (xf_calls s), s'))"

definition alloc_buffer :: "xenv \<Rightarrow> u64 \<Rightarrow> xfpga \<Rightarrow> u64 \<times> xfpga" where
  "alloc_buffer E len s =
     (case xmmap E (map_kind len) len s of (r, addr, s) \<Rightarrow> (if r \<noteq> 0 then 0 else addr, s))"

text \<open>The length that is unmapped: whole huge pages.\<close>

definition mapped_len :: "u64 \<Rightarrow> u64" where
  "mapped_len len =
     (if len > 2 * MB then (len + (1 * GB - 1)) AND NOT (1 * GB - 1)
      else if len > 4 * KB then 2 * MB else len)"

definition free_buffer :: "xenv \<Rightarrow> u64 \<Rightarrow> u64 \<Rightarrow> xfpga \<Rightarrow> int \<times> xfpga" where
  "free_buffer E addr len s = xsys E (X_munmap addr (mapped_len len)) s"

definition ENOMEM :: int where "ENOMEM = 12"

definition xbuffer_allocate :: "xenv \<Rightarrow> u64 \<Rightarrow> xfpga \<Rightarrow> fpga_result \<times> u64 \<times> xfpga" where
  "xbuffer_allocate E len s =
     (case xmmap E (map_kind len) len s of (r, addr, s) \<Rightarrow>
        if r \<noteq> 0 then (if r = ENOMEM then FPGA_NO_MEMORY else FPGA_INVALID_PARAM, 0, s)
        else (FPGA_OK, addr, s))"

definition xbuffer_release :: "xenv \<Rightarrow> u64 \<Rightarrow> u64 \<Rightarrow> xfpga \<Rightarrow> fpga_result \<times> xfpga" where
  "xbuffer_release E addr len s =
     (case xsys E (X_munmap addr (mapped_len len)) s of (r, s) \<Rightarrow>
        (if r \<noteq> 0 then FPGA_INVALID_PARAM else FPGA_OK, s))"

subsection \<open>Opening a handle (open.c)\<close>

definition EACCES :: int where "EACCES = 13"
definition EBUSY :: int where "EBUSY = 16"
definition FPGA_OPEN_SHARED :: u32 where "FPGA_OPEN_SHARED = 1"
definition OPAE_FLAG_HAS_MMX512 :: u32 where "OPAE_FLAG_HAS_MMX512 = 1"

definition tracker_init :: "xenv \<Rightarrow> u32 \<Rightarrow> xfpga \<Rightarrow> wsid_tracker option \<times> xfpga" where
  "tracker_init E n s =
     (case xsys E X_malloc s of (ok, s) \<Rightarrow>
      if ok = 0 then (None, s)
      else case xsys E X_malloc s of (ok, s) \<Rightarrow> (wsid_tracker_init True (ok \<noteq> 0) n, s))"

text \<open>
  The part after the tables exist: the labels \<^verbatim>\<open>out_attr_destroy\<close> and \<^verbatim>\<open>out_free\<close> give back
  the descriptor.
\<close>

definition open_device ::
  "xenv \<Rightarrow> ptr \<Rightarrow> ptr \<Rightarrow> xfpga_token \<Rightarrow> u32 \<Rightarrow> wsid_tracker \<Rightarrow> wsid_tracker \<Rightarrow> xfpga \<Rightarrow>
     fpga_result \<times> ptr option \<times> xfpga" where
  "open_device E handle token t flags mmio_root wsid_root s =
     (case xsys E (X_open (xt_devpath t) (flags AND FPGA_OPEN_SHARED = 0)) s of (fddev, s) \<Rightarrow>
      if fddev < 0 then
        (if fddev = - EACCES then FPGA_NO_ACCESS else if fddev = - EBUSY then FPGA_BUSY
         else FPGA_NO_DRIVER, None, s)
      else case xsys E X_attr_init s of (r, s) \<Rightarrow>
      if r \<noteq> 0 then (FPGA_EXCEPTION, None, snd (xsys E (X_close fddev) s))
      else case xsys E X_attr_settype s of (r, s) \<Rightarrow>
      case (if r \<noteq> 0 then (r, s) else xsys E X_mutex_init s) of (r, s) \<Rightarrow>
      if r \<noteq> 0 then
        (FPGA_EXCEPTION, None, snd (xsys E (X_close fddev) (snd (xsys E X_attr_destroy s))))
      else
        (FPGA_OK, Some handle,
         (snd (xsys E X_attr_destroy s))\<lparr>xf_handles := (xf_handles s)(handle \<mapsto>
           \<lparr>xh_magic = FPGA_HANDLE_MAGIC, xh_token = token, xh_fddev = fddev, xh_fdfpgad = -1,
            xh_wsid_root = wsid_root, xh_mmio_root = mmio_root,
            xh_umsg_virt = 0, xh_umsg_size = 0, xh_umsg_iova = 0,
            xh_flags = (if cpu_avx512f E then OPAE_FLAG_HAS_MMX512 else 0)\<rparr>)\<rparr>))"

definition xfpga_fpgaOpen ::
  "xenv \<Rightarrow> ptr \<Rightarrow> bool \<Rightarrow> u32 \<Rightarrow> xfpga \<Rightarrow> (fpga_result \<times> ptr option \<times> xfpga) option" where
  "xfpga_fpgaOpen E token handle flags s =
     (if token = NULL \<or> \<not> handle \<or> flags AND NOT FPGA_OPEN_SHARED \<noteq> 0 then Some (FPGA_INVALID_PARAM, None, s)
      else do {
        t \<leftarrow> xf_tokens s token;
        (if xt_magic t \<noteq> FPGA_TOKEN_MAGIC then Some (FPGA_INVALID_PARAM, None, s)
         else case xmalloc E s of (h, s) \<Rightarrow>
         if h = NULL then Some (FPGA_NO_MEMORY, None, s)
         else case tracker_init E 4 s of (mmio_root, s) \<Rightarrow>
         case mmio_root of
           None \<Rightarrow> Some (FPGA_NO_MEMORY, None, s)
         | Some mmio_root \<Rightarrow>
             (case tracker_init E 16384 s of (wsid_root, s) \<Rightarrow>
              case wsid_root of
                None \<Rightarrow> Some (FPGA_NO_MEMORY, None, s)
              | Some wsid_root \<Rightarrow> Some (open_device E h token t flags mmio_root wsid_root s)))
      })"

subsection \<open>Register regions (mmio.c)\<close>

definition AFU_PERMISSION :: u32 where "AFU_PERMISSION = 7"

definition port_mmap_region ::
  "xenv \<Rightarrow> ptr \<Rightarrow> u64 \<Rightarrow> u64 \<Rightarrow> xfpga \<Rightarrow> (fpga_result \<times> u64 option \<times> xfpga) option" where
  "port_mmap_region E handle sz offset s =
     with_xhandle E handle (\<lambda>h s.
       case xmmap E (Map_region (xh_fddev h) offset) sz s of (r, addr, s) \<Rightarrow>
         Some (if r \<noteq> 0 then (FPGA_INVALID_PARAM, None, s) else (FPGA_OK, Some addr, s))) s"

text \<open>An entry is added to a table of a handle; the first result says whether \<^verbatim>\<open>malloc\<close> succeeded.\<close>

definition add_mmio ::
  "xenv \<Rightarrow> ptr \<Rightarrow> u64 \<Rightarrow> u64 \<Rightarrow> u64 \<Rightarrow> u32 \<Rightarrow> xfpga \<Rightarrow> (bool \<times> xfpga) option" where
  "add_mmio E handle wsid addr len mmio_num s = do {
     h \<leftarrow> xf_handles s handle;
     let (ok, s) = xsys E X_malloc s;
     let (added, root) = wsid_add (ok \<noteq> 0) (xh_mmio_root h) wsid addr 0 len addr (ucast mmio_num) 0;
     Some (added, upd_xhandle handle (\<lambda>h. h\<lparr>xh_mmio_root := root\<rparr>) s)
   }"

definition map_mmio_region :: "xenv \<Rightarrow> ptr \<Rightarrow> u32 \<Rightarrow> xfpga \<Rightarrow> (fpga_result \<times> xfpga) option" where
  "map_mmio_region E handle mmio_num s = do {
     h \<leftarrow> xf_handles s handle;
     let (result, rinfo, s) = opae_get_port_region_info E (xh_fddev h) mmio_num True s;
     (case rinfo of
        Some rinfo \<Rightarrow>
          (if result \<noteq> FPGA_OK \<or> ri_flags rinfo \<noteq> AFU_PERMISSION then Some (FPGA_NO_ACCESS, s)
           else do {
             (result, addr, s) \<leftarrow> port_mmap_region E handle (ri_size rinfo) (ri_offset rinfo) s;
             (case addr of
                None \<Rightarrow> Some (result, s)
              | Some addr \<Rightarrow> do {
                  let (wsid, s) = wsid_gen E s;
                  (added, s) \<leftarrow> add_mmio E handle wsid addr (ri_size rinfo) mmio_num s;
                  (if added then Some (FPGA_OK, s)
                   else case xsys E (X_munmap addr (ri_size rinfo)) s of (r, s) \<Rightarrow>
                     Some (if r \<noteq> 0 then FPGA_INVALID_PARAM else FPGA_NO_MEMORY, s))
                })
           })
      | None \<Rightarrow> Some (FPGA_NO_ACCESS, s))
   }"

definition find_or_map_wm ::
  "xenv \<Rightarrow> ptr \<Rightarrow> u32 \<Rightarrow> xfpga \<Rightarrow> (fpga_result \<times> wsid_map option \<times> xfpga) option" where
  "find_or_map_wm E handle mmio_num s = do {
     h \<leftarrow> xf_handles s handle;
     (case wsid_find_by_index (xh_mmio_root h) mmio_num of
        Some wm \<Rightarrow> Some (FPGA_OK, Some wm, s)
      | None \<Rightarrow> do {
          (result, s) \<leftarrow> map_mmio_region E handle mmio_num s;
          (if result \<noteq> FPGA_OK then Some (result, None, s)
           else do {
             h \<leftarrow> xf_handles s handle;
             (case wsid_find_by_index (xh_mmio_root h) mmio_num of
                None \<Rightarrow> Some (FPGA_NO_MEMORY, None, s)
              | Some wm \<Rightarrow> Some (FPGA_OK, Some wm, s))
           })
        })
   }"

text \<open>
  What the accesses share: \<open>act\<close> accesses \<open>width\<close> bytes. The code compares the offset with the
  length only, so an access may reach past the end of the region, which is undefined.
\<close>

definition region_access ::
  "xenv \<Rightarrow> ptr \<Rightarrow> u32 \<Rightarrow> u64 \<Rightarrow> nat \<Rightarrow> (u64 \<Rightarrow> xfpga \<Rightarrow> 'a option \<times> xfpga) \<Rightarrow> xfpga \<Rightarrow>
     (fpga_result \<times> 'a option \<times> xfpga) option" where
  "region_access E handle mmio_num offset width act s = do {
     (result, wm, s) \<leftarrow> find_or_map_wm E handle mmio_num s;
     (case wm of
        None \<Rightarrow> Some (result, None, s)
      | Some wm \<Rightarrow>
          (if offset > wm_len wm then Some (FPGA_INVALID_PARAM, None, s)
           else if unat offset + width \<le> unat (wm_len wm)
           then case act (wm_offset wm + offset) s of (out, s) \<Rightarrow> Some (FPGA_OK, out, s)
           else None))
   }"

definition store_to :: "store \<Rightarrow> xfpga \<Rightarrow> unit option \<times> xfpga" where
  "store_to w s = (None, s\<lparr>xf_stores := w # xf_stores s\<rparr>)"

definition xfpga_fpgaWriteMMIO32 ::
  "xenv \<Rightarrow> ptr \<Rightarrow> u32 \<Rightarrow> u64 \<Rightarrow> u32 \<Rightarrow> xfpga \<Rightarrow> (fpga_result \<times> unit option \<times> xfpga) option" where
  "xfpga_fpgaWriteMMIO32 E handle mmio_num offset val s =
     (if offset mod 4 \<noteq> 0 then Some (FPGA_INVALID_PARAM, None, s)
      else with_xhandle E handle (\<lambda>_. region_access E handle mmio_num offset 4 (\<lambda>a. store_to (Store32 a val))) s)"

definition xfpga_fpgaReadMMIO32 ::
  "xenv \<Rightarrow> ptr \<Rightarrow> u32 \<Rightarrow> u64 \<Rightarrow> xfpga \<Rightarrow> (fpga_result \<times> u32 option \<times> xfpga) option" where
  "xfpga_fpgaReadMMIO32 E handle mmio_num offset s =
     (if offset mod 4 \<noteq> 0 then Some (FPGA_INVALID_PARAM, None, s)
      else with_xhandle E handle (\<lambda>_. region_access E handle mmio_num offset 4
        (\<lambda>a s. (Some (ucast (load E (xf_stores s) a)), s))) s)"

definition xfpga_fpgaWriteMMIO64 ::
  "xenv \<Rightarrow> ptr \<Rightarrow> u32 \<Rightarrow> u64 \<Rightarrow> u64 \<Rightarrow> xfpga \<Rightarrow> (fpga_result \<times> unit option \<times> xfpga) option" where
  "xfpga_fpgaWriteMMIO64 E handle mmio_num offset val s =
     (if offset mod 8 \<noteq> 0 then Some (FPGA_INVALID_PARAM, None, s)
      else with_xhandle E handle (\<lambda>_. region_access E handle mmio_num offset 8 (\<lambda>a. store_to (Store64 a val))) s)"

definition xfpga_fpgaReadMMIO64 ::
  "xenv \<Rightarrow> ptr \<Rightarrow> u32 \<Rightarrow> u64 \<Rightarrow> xfpga \<Rightarrow> (fpga_result \<times> u64 option \<times> xfpga) option" where
  "xfpga_fpgaReadMMIO64 E handle mmio_num offset s =
     (if offset mod 8 \<noteq> 0 then Some (FPGA_INVALID_PARAM, None, s)
      else with_xhandle E handle (\<lambda>_. region_access E handle mmio_num offset 8
        (\<lambda>a s. (Some (load E (xf_stores s) a), s))) s)"

definition xfpga_fpgaWriteMMIO512 ::
  "xenv \<Rightarrow> ptr \<Rightarrow> u32 \<Rightarrow> u64 \<Rightarrow> u8 list \<Rightarrow> xfpga \<Rightarrow> (fpga_result \<times> unit option \<times> xfpga) option" where
  "xfpga_fpgaWriteMMIO512 E handle mmio_num offset val s =
     (if offset mod 64 \<noteq> 0 then Some (FPGA_INVALID_PARAM, None, s)
      else with_xhandle E handle (\<lambda>h s.
        if xh_flags h AND OPAE_FLAG_HAS_MMX512 = 0 then Some (FPGA_NOT_SUPPORTED, None, s)
        else region_access E handle mmio_num offset 64 (\<lambda>a. store_to (Store512 a val)) s) s)"

text \<open>The address is handed out when there is a place for it.\<close>

definition xfpga_fpgaMapMMIO ::
  "xenv \<Rightarrow> ptr \<Rightarrow> u32 \<Rightarrow> bool \<Rightarrow> xfpga \<Rightarrow> (fpga_result \<times> u64 option \<times> xfpga) option" where
  "xfpga_fpgaMapMMIO E handle mmio_num mmio_ptr s =
     with_xhandle E handle (\<lambda>_ s. do {
       (result, wm, s) \<leftarrow> find_or_map_wm E handle mmio_num s;
       Some (result, if mmio_ptr then map_option wm_addr wm else None, s)
     }) s"

definition xfpga_fpgaUnmapMMIO ::
  "xenv \<Rightarrow> ptr \<Rightarrow> u32 \<Rightarrow> xfpga \<Rightarrow> (fpga_result \<times> unit option \<times> xfpga) option" where
  "xfpga_fpgaUnmapMMIO E handle mmio_num s =
     with_xhandle E handle (\<lambda>h s.
       case wsid_find_by_index (xh_mmio_root h) mmio_num of
         None \<Rightarrow> Some (FPGA_INVALID_PARAM, None, s)
       | Some wm \<Rightarrow>
           (case xsys E (X_munmap (wm_offset wm) (wm_len wm)) s of (r, s) \<Rightarrow>
            if r \<noteq> 0 then Some (FPGA_INVALID_PARAM, None, s)
            else Some (FPGA_OK, None, upd_xhandle handle
              (\<lambda>h. h\<lparr>xh_mmio_root := snd (wsid_del (xh_mmio_root h) (wm_wsid wm))\<rparr>) s))) s"

subsection \<open>Shared buffers (buffer.c)\<close>

definition FPGA_BUF_QUIET :: u32 where "FPGA_BUF_QUIET = 2"
definition FPGA_BUF_READ_ONLY :: u32 where "FPGA_BUF_READ_ONLY = 4"

definition FPGA_DMA_TO_DEV :: u32 where "FPGA_DMA_TO_DEV = 1"

definition add_buffer ::
  "xenv \<Rightarrow> ptr \<Rightarrow> u64 \<Rightarrow> u64 \<Rightarrow> u64 \<Rightarrow> u64 \<Rightarrow> u32 \<Rightarrow> xfpga \<Rightarrow> (bool \<times> xfpga) option" where
  "add_buffer E handle wsid addr io_addr len flags s = do {
     h \<leftarrow> xf_handles s handle;
     let (ok, s) = xsys E X_malloc s;
     let (added, root) = wsid_add (ok \<noteq> 0) (xh_wsid_root h) wsid addr io_addr len 0 0 flags;
     Some (added, upd_xhandle handle (\<lambda>h. h\<lparr>xh_wsid_root := root\<rparr>) s)
   }"

text \<open>A length rounded up to whole pages of \<open>pg\<close> bytes.\<close>

definition whole_pages :: "u64 \<Rightarrow> u64 \<Rightarrow> u64" where
  "whole_pages pg len = (if len AND (pg - 1) \<noteq> 0 then pg + (len AND NOT (pg - 1)) else len)"

text \<open>
  \<^verbatim>\<open>xfpga_fpgaPrepareBuffer\<close> from the mapping for DMA on. The outputs are the address and the id;
  when the table cannot be extended only the id has been stored.
\<close>

definition share_buffer ::
  "xenv \<Rightarrow> ptr \<Rightarrow> xfpga_handle \<Rightarrow> u64 \<Rightarrow> u64 \<Rightarrow> u32 \<Rightarrow> xfpga \<Rightarrow>
     (fpga_result \<times> (u64 option \<times> u64) option \<times> xfpga) option" where
  "share_buffer E handle h addr len flags s =
     (let preallocated = flags AND FPGA_BUF_PREALLOCATED \<noteq> 0;
          map_flags = (if flags AND FPGA_BUF_READ_ONLY \<noteq> 0 then FPGA_DMA_TO_DEV else 0) in
      case opae_port_map E (xh_fddev h) addr len map_flags True s of
        (_, None, s) \<Rightarrow>
          Some (FPGA_INVALID_PARAM, None,
                if preallocated then s else snd (xbuffer_release E addr len s))
      | (_, Some io_addr, s) \<Rightarrow> do {
          let (wsid, s) = wsid_gen E s;
          (added, s) \<leftarrow> add_buffer E handle wsid addr io_addr len flags s;
          (if \<not> added then
             Some (FPGA_NO_MEMORY, Some (None, wsid),
                   if preallocated then s else snd (xbuffer_release E addr len s))
           else Some (FPGA_OK, Some (Some addr, wsid), s))
        })"

text \<open>
  \<open>buf_addr\<close> is None for a NULL pointer, else what it points to. The outputs are the address stored
  there and the id.
\<close>

definition xfpga_fpgaPrepareBuffer ::
  "xenv \<Rightarrow> ptr \<Rightarrow> u64 \<Rightarrow> u64 option \<Rightarrow> bool \<Rightarrow> u32 \<Rightarrow> xfpga \<Rightarrow>
     (fpga_result \<times> (u64 option \<times> u64) option \<times> xfpga) option" where
  "xfpga_fpgaPrepareBuffer E handle len buf_addr wsid flags s =
     with_xhandle E handle (\<lambda>h s.
       let preallocated = flags AND FPGA_BUF_PREALLOCATED \<noteq> 0; pg = page_bytes E in
       if \<not> wsid then Some (FPGA_INVALID_PARAM, None, s)
       else if flags AND NOT (FPGA_BUF_PREALLOCATED OR FPGA_BUF_QUIET OR FPGA_BUF_READ_ONLY) \<noteq> 0
       then Some (FPGA_INVALID_PARAM, None, s)
       else if preallocated then
         (case buf_addr of
            None \<Rightarrow> Some (if len = 0 then FPGA_OK else FPGA_INVALID_PARAM, None, s)
          | Some addr \<Rightarrow>
              (if addr = 0 \<or> len = 0 \<or> len AND (pg - 1) \<noteq> 0 then Some (FPGA_INVALID_PARAM, None, s)
               else share_buffer E handle h addr len flags s))
       else if buf_addr = None \<or> len = 0 then Some (FPGA_INVALID_PARAM, None, s)
       else
         (let len = whole_pages pg len in
          case xbuffer_allocate E len s of (result, addr, s) \<Rightarrow>
            if result \<noteq> FPGA_OK then Some (result, None, s)
            else share_buffer E handle h addr len flags s)) s"

definition del_buffer :: "ptr \<Rightarrow> u64 \<Rightarrow> xfpga \<Rightarrow> xfpga" where
  "del_buffer handle wsid =
     upd_xhandle handle (\<lambda>h. h\<lparr>xh_wsid_root := snd (wsid_del (xh_wsid_root h) wsid)\<rparr>)"

definition xfpga_fpgaReleaseBuffer ::
  "xenv \<Rightarrow> ptr \<Rightarrow> u64 \<Rightarrow> xfpga \<Rightarrow> (fpga_result \<times> unit option \<times> xfpga) option" where
  "xfpga_fpgaReleaseBuffer E handle wsid s =
     with_xhandle E handle (\<lambda>h s.
       case wsid_find (xh_wsid_root h) wsid of
         None \<Rightarrow> Some (FPGA_INVALID_PARAM, None, s)
       | Some wm \<Rightarrow>
           (case opae_port_unmap E (xh_fddev h) (wm_phys wm) s of (r, s) \<Rightarrow>
            if r \<noteq> FPGA_OK then Some (FPGA_INVALID_PARAM, None, del_buffer handle wsid s)
            else if wm_flags wm AND FPGA_BUF_PREALLOCATED \<noteq> 0
            then Some (FPGA_OK, None, del_buffer handle wsid s)
            else case xbuffer_release E (wm_addr wm) (wm_len wm) s of (result, s) \<Rightarrow>
              Some (result, None, del_buffer handle wsid s))) s"

definition xfpga_fpgaGetIOAddress ::
  "xenv \<Rightarrow> ptr \<Rightarrow> u64 \<Rightarrow> xfpga \<Rightarrow> (fpga_result \<times> u64 option \<times> xfpga) option" where
  "xfpga_fpgaGetIOAddress E handle wsid s =
     with_xhandle E handle (\<lambda>h s.
       case wsid_find (xh_wsid_root h) wsid of
         None \<Rightarrow> Some (FPGA_NOT_FOUND, None, s)
       | Some wm \<Rightarrow> Some (FPGA_OK, Some (wm_phys wm), s)) s"

subsection \<open>User messages (umsg.c)\<close>

definition no_port_info :: opae_port_info where
  "no_port_info = \<lparr>pi_flags = 0, pi_capability = 0, pi_num_regions = 0, pi_num_umsgs = 0, pi_num_uafu_irqs = 0\<rparr>"

definition xfpga_fpgaGetNumUmsg ::
  "xenv \<Rightarrow> ptr \<Rightarrow> bool \<Rightarrow> xfpga \<Rightarrow> (fpga_result \<times> u64 option \<times> xfpga) option" where
  "xfpga_fpgaGetNumUmsg E handle out s =
     (if \<not> out then Some (FPGA_INVALID_PARAM, None, s)
      else with_xhandle E handle (\<lambda>h s.
        if xh_fddev h < 0 then Some (FPGA_INVALID_PARAM, None, s)
        else case opae_get_port_info E (xh_fddev h) (Some no_port_info) s of (result, info, s) \<Rightarrow>
          Some (result, if result = FPGA_OK then map_option (\<lambda>i. ucast (pi_num_umsgs i)) info else None, s)) s)"

definition xfpga_fpgaSetUmsgAttributes ::
  "xenv \<Rightarrow> ptr \<Rightarrow> u64 \<Rightarrow> xfpga \<Rightarrow> (fpga_result \<times> unit option \<times> xfpga) option" where
  "xfpga_fpgaSetUmsgAttributes E handle val s =
     with_xhandle E handle (\<lambda>h s.
       if xh_fddev h < 0 then Some (FPGA_INVALID_PARAM, None, s)
       else case opae_port_umsg_cfg E (xh_fddev h) 0 (ucast val) s of (result, s) \<Rightarrow>
         Some (result, None, s)) s"

text \<open>
  The labels \<^verbatim>\<open>umsg_map_exit\<close> and \<^verbatim>\<open>umsg_exit\<close>: the result of unmapping replaces the error that led
  here.
\<close>

definition umsg_map_exit :: "xenv \<Rightarrow> int \<Rightarrow> u64 \<Rightarrow> u64 \<Rightarrow> u64 \<Rightarrow> xfpga \<Rightarrow> fpga_result \<times> u64 option \<times> xfpga" where
  "umsg_map_exit E fd umsg_virt umsg_size io_addr s =
     (case opae_port_unmap E fd io_addr s of (result, s) \<Rightarrow>
        (result, None, snd (free_buffer E umsg_virt umsg_size s)))"

text \<open>The rest of \<^verbatim>\<open>xfpga_fpgaGetUmsgPtr\<close> when the messages are not mapped yet.\<close>

definition map_umsg :: "xenv \<Rightarrow> ptr \<Rightarrow> int \<Rightarrow> xfpga \<Rightarrow> fpga_result \<times> u64 option \<times> xfpga" where
  "map_umsg E handle fd s =
     (case opae_get_port_info E fd (Some no_port_info) s of
        (result, None, s) \<Rightarrow> (result, None, s)
      | (result, Some info, s) \<Rightarrow>
      if result \<noteq> FPGA_OK then (result, None, s)
      else let umsg_size = ucast (pi_num_umsgs info) * page_bytes E in
      case alloc_buffer E umsg_size s of (umsg_virt, s) \<Rightarrow>
      if umsg_virt = 0 then (FPGA_NO_MEMORY, None, s)
      else case opae_port_map E fd umsg_virt umsg_size 0 True s of
        (result, None, s) \<Rightarrow> (result, None, snd (free_buffer E umsg_virt umsg_size s))
      | (result, Some io_addr, s) \<Rightarrow>
      case opae_port_umsg_set_base_addr E fd 0 io_addr s of (result, s) \<Rightarrow>
      if result \<noteq> FPGA_OK then umsg_map_exit E fd umsg_virt umsg_size io_addr s
      else case opae_port_umsg_enable E fd s of (result, s) \<Rightarrow>
      if result \<noteq> FPGA_OK then umsg_map_exit E fd umsg_virt umsg_size io_addr s
      else (FPGA_OK, Some umsg_virt, upd_xhandle handle (\<lambda>h. h\<lparr>xh_umsg_iova := io_addr,
             xh_umsg_virt := umsg_virt, xh_umsg_size := umsg_size\<rparr>) s))"

text \<open>The output is what is stored through the pointer of the caller, None when nothing is.\<close>

definition xfpga_fpgaGetUmsgPtr ::
  "xenv \<Rightarrow> ptr \<Rightarrow> bool \<Rightarrow> xfpga \<Rightarrow> (fpga_result \<times> u64 option \<times> xfpga) option" where
  "xfpga_fpgaGetUmsgPtr E handle umsg_ptr s =
     (if \<not> umsg_ptr then Some (FPGA_INVALID_PARAM, None, s)
      else with_xhandle E handle (\<lambda>h s.
        if xh_fddev h < 0 then Some (FPGA_INVALID_PARAM, None, s)
        else if xh_umsg_iova h \<noteq> 0 then Some (FPGA_OK, Some (xh_umsg_virt h), s)
        else Some (map_umsg E handle (xh_fddev h) s)) s)"

definition free_umsg_buffer :: "xenv \<Rightarrow> ptr \<Rightarrow> xfpga \<Rightarrow> (fpga_result \<times> unit option \<times> xfpga) option" where
  "free_umsg_buffer E handle s =
     with_xhandle E handle (\<lambda>h s.
       if xh_umsg_virt h = 0 then Some (FPGA_OK, None, s)
       else
         (let (_, s) = opae_port_umsg_disable E (xh_fddev h) s;
              (_, s) = opae_port_umsg_set_base_addr E (xh_fddev h) 0 0 s;
              (_, s) = opae_port_unmap E (xh_fddev h) (xh_umsg_iova h) s;
              (_, s) = free_buffer E (xh_umsg_virt h) (xh_umsg_size h) s
          in Some (FPGA_OK, None, upd_xhandle handle
               (\<lambda>h. h\<lparr>xh_umsg_virt := 0, xh_umsg_size := 0, xh_umsg_iova := 0\<rparr>) s))) s"

text \<open>The pointer starts as NULL; storing through NULL is undefined.\<close>

definition xfpga_fpgaTriggerUmsg ::
  "xenv \<Rightarrow> ptr \<Rightarrow> u64 \<Rightarrow> xfpga \<Rightarrow> (fpga_result \<times> unit option \<times> xfpga) option" where
  "xfpga_fpgaTriggerUmsg E handle val s =
     with_xhandle E handle (\<lambda>h s.
       if xh_fddev h < 0 then Some (FPGA_INVALID_PARAM, None, s)
       else do {
         (result, umsg_ptr, s) \<leftarrow> xfpga_fpgaGetUmsgPtr E handle True s;
         (if result \<noteq> FPGA_OK then Some (result, None, s)
          else do {
            p \<leftarrow> umsg_ptr;
            Some (FPGA_OK, None, s\<lparr>xf_stores := Store64 p val # xf_stores s\<rparr>)
          })
       }) s"

subsection \<open>Resetting, assigning ports (reset.c, hostif.c)\<close>

definition xfpga_fpgaReset :: "xenv \<Rightarrow> ptr \<Rightarrow> xfpga \<Rightarrow> (fpga_result \<times> unit option \<times> xfpga) option" where
  "xfpga_fpgaReset E handle s =
     with_xhandle E handle (\<lambda>h s.
       if xh_fddev h < 0 then Some (FPGA_INVALID_PARAM, None, s)
       else case opae_fme_port_reset E (xh_fddev h) s of (result, s) \<Rightarrow> Some (result, None, s)) s"

definition xfpga_fpgaAssignPortToInterface ::
  "xenv \<Rightarrow> ptr \<Rightarrow> u32 \<Rightarrow> u32 \<Rightarrow> u32 \<Rightarrow> xfpga \<Rightarrow> (fpga_result \<times> unit option \<times> xfpga) option" where
  "xfpga_fpgaAssignPortToInterface E handle interface_num slot_num flags s =
     with_xhandle E handle (\<lambda>h s.
       if xh_fddev h < 0 then Some (FPGA_INVALID_PARAM, None, s)
       else case (if interface_num = 0 then opae_fme_port_assign E (xh_fddev h) flags slot_num s
                  else if interface_num = 1 then opae_fme_port_release E (xh_fddev h) flags slot_num s
                  else (FPGA_INVALID_PARAM, s)) of
         (result, s) \<Rightarrow> Some (result, None, s)) s"

subsection \<open>Closing a handle (close.c)\<close>

definition unmap_mmio_region :: "xenv \<Rightarrow> wsid_map \<Rightarrow> xfpga \<Rightarrow> xfpga" where
  "unmap_mmio_region E wm s = snd (xsys E (X_munmap (wm_offset wm) (wm_len wm)) s)"

definition xfpga_fpgaClose :: "xenv \<Rightarrow> ptr \<Rightarrow> xfpga \<Rightarrow> (fpga_result \<times> xfpga) option" where
  "xfpga_fpgaClose E handle s = do {
     (result, s) \<leftarrow> xhandle_check_and_lock E handle s;
     (if result \<noteq> FPGA_OK then Some (result, s)
      else do {
        h \<leftarrow> xf_handles s handle;
        (if xh_fddev h = -1 then Some (FPGA_INVALID_PARAM, xunlock E s)
         else do {
           let s = wsid_tracker_cleanup (Some (xh_wsid_root h)) None s;
           let s = wsid_tracker_cleanup (Some (xh_mmio_root h)) (Some (unmap_mmio_region E)) s;
           (_, _, s) \<leftarrow> free_umsg_buffer E handle s;
           let s = snd (xsys E (X_close (xh_fddev h)) s);
           let s = (if 0 \<le> xh_fdfpgad h then snd (xsys E (X_close (xh_fdfpgad h)) s) else s);
           let s = snd (xsys E X_mutex_destroy (xunlock E s));
           Some (FPGA_OK, s\<lparr>xf_handles := (xf_handles s)(handle := None)\<rparr>)
         })
      })
   }"

end
