(* ===== verification/Xfpga_Ledger.thy ===== *)
theory Xfpga_Ledger
  imports Xfpga_Handle
begin

section \<open>The ledger of the xfpga plugin\<close>

text \<open>
  What the kernel has granted and taken back, what a handle holds, the invariant of the two tables of a
  handle, and the steps of a handle that keep both: the frame shared by the operations, the
  calls of the driver, and the mapping of a region.
\<close>

subsection \<open>The entries of a table\<close>

definition entries :: "wsid_tracker \<Rightarrow> wsid_map multiset" where
  "entries t = mset (concat (table t))"

lemma count_entries: "wsid_inv t \<Longrightarrow> count (entries t) e = count (mset (wsid_stack t (wm_wsid e))) e"
  unfolding entries_def by (rule count_concat_buckets)

lemma entries_stack: "wsid_inv t \<Longrightarrow> e \<in># entries t \<longleftrightarrow> e \<in> set (wsid_stack t (wm_wsid e))"
  by (simp add: count_entries flip: count_greater_zero_iff) (simp add: count_greater_zero_iff)

lemma stack_key: "e \<in> set (wsid_stack t w) \<Longrightarrow> wm_wsid e = w"
  by (simp add: wsid_stack_def)

lemma entries_add:
  assumes "wsid_inv t" "e = \<lparr>wm_wsid = w, wm_addr = a, wm_phys = p, wm_len = l, wm_offset = off,
      wm_index = i, wm_flags = f\<rparr>" "wsid_add True t w a p l off (ucast i) f = (b, t')"
  shows "b" "wsid_inv t'" "wsid_stack t' = (wsid_stack t)(w := e # wsid_stack t w)"
    "entries t' = add_mset e (entries t)"
proof -
  have "wsid_add_entry t e = (b, t')" using assms(2,3) by (simp add: wsid_add_entry_def)
  from wsid.add_law [OF assms(1) this] assms(2)
  show l: "b" "wsid_inv t'" "wsid_stack t' = (wsid_stack t)(w := e # wsid_stack t w)" by simp_all
  show "entries t' = add_mset e (entries t)"
    by (rule multiset_eqI) (use assms(1,2) l(2,3) in \<open>auto simp: count_entries\<close>)
qed

lemma entries_del:
  assumes "wsid_inv t" "wsid_find t w = Some e"
  shows "wsid_inv (snd (wsid_del t w))" "wsid_stack (snd (wsid_del t w)) = (wsid_stack t)(w := tl (wsid_stack t w))"
    "entries t = add_mset e (entries (snd (wsid_del t w)))" "wm_wsid e = w"
proof -
  obtain es where st: "wsid_stack t w = e # es"
    using assms wsid.find_law [OF assms(1), of w] by (auto split: list.splits)
  obtain b t' where d: "wsid_del t w = (b, t')" by fastforce
  from wsid.del_law [OF assms(1) d] st d
  show l: "wsid_inv (snd (wsid_del t w))"
      "wsid_stack (snd (wsid_del t w)) = (wsid_stack t)(w := tl (wsid_stack t w))" by simp_all
  show k: "wm_wsid e = w" using stack_key [of e t w] st by simp
  show "entries t = add_mset e (entries (snd (wsid_del t w)))"
    by (rule multiset_eqI) (use assms(1) l k st in \<open>auto simp: count_entries\<close>)
qed

lemma bucket_find_Some: "bucket_find p b = Some e \<Longrightarrow> e \<in> set b \<and> p e"
  by (induction b) (auto split: if_splits)

lemma bucket_find_None: "bucket_find p b = None \<longleftrightarrow> (\<forall>e\<in>set b. \<not> p e)"
  by (induction b) auto

lemma find_by_index_Some:
  "wsid_find_by_index t i = Some e \<Longrightarrow> e \<in># entries t \<and> wm_index e = i"
proof -
  have "find_in_buckets i bs = Some e \<Longrightarrow> e \<in> set (concat bs) \<and> wm_index e = i" for bs
    by (induction bs) (auto split: option.splits dest: bucket_find_Some)
  then show "wsid_find_by_index t i = Some e \<Longrightarrow> e \<in># entries t \<and> wm_index e = i"
    unfolding wsid_find_by_index_def entries_def by (metis set_mset_mset)
qed

lemma find_by_index_None:
  "wsid_find_by_index t i = None \<longleftrightarrow> (\<forall>e. e \<in># entries t \<longrightarrow> wm_index e \<noteq> i)"
proof -
  have "find_in_buckets i bs = None \<longleftrightarrow> (\<forall>e\<in>set (concat bs). wm_index e \<noteq> i)" for bs
    by (induction bs) (auto simp: bucket_find_None split: option.splits dest: bucket_find_Some)
  then show ?thesis by (auto simp: wsid_find_by_index_def entries_def)
qed

subsection \<open>The ledger\<close>

text \<open>
  A descriptor, a mapping with the length it takes up, and a mapping for DMA behind a descriptor.
\<close>

datatype xresource = X_fd int | X_map u64 u64 | X_dma int u64

text \<open>
  What a call adds to the resources, after the calls \<open>cs\<close>. Anonymous memory takes up whole huge
  pages.
\<close>

fun xdelta :: "xenv \<Rightarrow> xcalls \<Rightarrow> xcall \<Rightarrow> xresource \<Rightarrow> int" where
  "xdelta E cs (X_open p x) r = of_bool (0 \<le> xans E cs (X_open p x) \<and> r = X_fd (xans E cs (X_open p x)))"
| "xdelta E cs (X_close fd) r = - of_bool (r = X_fd fd)"
| "xdelta E cs (X_mmap (Map_region fd off) len) r =
     of_bool (xans E cs (X_mmap (Map_region fd off) len) = 0 \<and> r = X_map (map_reply E cs) len)"
| "xdelta E cs (X_mmap k len) r =
     of_bool (xans E cs (X_mmap k len) = 0 \<and> r = X_map (map_reply E cs) (mapped_len len))"
| "xdelta E cs (X_munmap a len) r = - of_bool (xans E cs (X_munmap a len) = 0 \<and> r = X_map a len)"
| "xdelta E cs (X_ioctl d fd (Port_dma_map fl a len)) r =
     of_bool (xans E cs (X_ioctl d fd (Port_dma_map fl a len)) = 0 \<and> r = X_dma fd (iova_reply E cs))"
| "xdelta E cs (X_ioctl d fd (Port_dma_unmap io)) r =
     - of_bool (xans E cs (X_ioctl d fd (Port_dma_unmap io)) = 0 \<and> r = X_dma fd io)"
| "xdelta E cs c r = 0"

fun xbalance :: "xenv \<Rightarrow> xcalls \<Rightarrow> xresource \<Rightarrow> int" where
  "xbalance E [] r = 0"
| "xbalance E (c # cs) r = xbalance E cs r + xdelta E cs c r"

text \<open>What a handle holds.\<close>

definition mmio_owned :: "wsid_map \<Rightarrow> xresource \<Rightarrow> int" where
  "mmio_owned e r = of_bool (r = X_map (wm_offset e) (wm_len e))"

definition buffer_held :: "int \<Rightarrow> wsid_map \<Rightarrow> xresource \<Rightarrow> int" where
  "buffer_held fd e r = of_bool (r = X_dma fd (wm_phys e)) +
     (if wm_flags e AND FPGA_BUF_PREALLOCATED \<noteq> 0 then 0
      else of_bool (r = X_map (wm_addr e) (mapped_len (wm_len e))))"

definition umsg_owned :: "xfpga_handle \<Rightarrow> xresource \<Rightarrow> int" where
  "umsg_owned h r = (if xh_umsg_virt h = 0 then 0 else
     of_bool (r = X_map (xh_umsg_virt h) (mapped_len (xh_umsg_size h))) +
     of_bool (r = X_dma (xh_fddev h) (xh_umsg_iova h)))"

definition buffers_owned :: "xfpga_handle \<Rightarrow> xresource \<Rightarrow> int" where
  "buffers_owned h r = (\<Sum>e\<in>#entries (xh_wsid_root h). buffer_held (xh_fddev h) e r)"

definition xowned :: "xfpga_handle \<Rightarrow> xresource \<Rightarrow> int" where
  "xowned h r = of_bool (r = X_fd (xh_fddev h)) + (\<Sum>e\<in>#entries (xh_mmio_root h). mmio_owned e r) +
     buffers_owned h r + umsg_owned h r"

subsection \<open>Steps of a handle\<close>

text \<open>
  A kernel that can give back what it has granted, and grants nothing at address 0; \<^verbatim>\<open>malloc\<close> and the
  locks do not fail.
\<close>

definition kind :: "xenv \<Rightarrow> bool" where
  "kind E \<longleftrightarrow> (\<forall>cs. xans E cs X_malloc \<noteq> 0 \<and> xans E cs X_lock = 0 \<and>
     (\<forall>a l. xans E cs (X_munmap a l) = 0) \<and> (\<forall>d fd io. xans E cs (X_ioctl d fd (Port_dma_unmap io)) = 0) \<and>
     map_reply E cs \<noteq> 0 \<and> iova_reply E cs \<noteq> 0)"

lemma kindD:
  assumes "kind E"
  shows "xans E cs X_malloc \<noteq> 0" "xans E cs X_lock = 0" "xans E cs (X_munmap a l) = 0"
    "xans E cs (X_ioctl d fd (Port_dma_unmap io)) = 0" "map_reply E cs \<noteq> 0" "iova_reply E cs \<noteq> 0"
  using assms by (simp_all add: kind_def)

text \<open>Steps that only make calls that neither acquire nor release anything.\<close>

definition xquiet :: "xenv \<Rightarrow> xfpga \<Rightarrow> xfpga \<Rightarrow> bool" where
  "xquiet E s s' \<longleftrightarrow> (\<exists>cs. s' = s\<lparr>xf_calls := cs\<rparr> \<and> (\<forall>r. xbalance E cs r = xbalance E (xf_calls s) r))"

lemma xquiet_refl [simp]: "xquiet E s s"
  unfolding xquiet_def by (rule exI [of _ "xf_calls s"]) simp

lemma xquiet_trans [trans]: "xquiet E a b \<Longrightarrow> xquiet E b c \<Longrightarrow> xquiet E a c"
  by (auto simp: xquiet_def)

lemma xquietD:
  assumes "xquiet E s s'"
  shows "xf_handles s' = xf_handles s" "xf_io s' = xf_io s" "xf_tokens s' = xf_tokens s" "xf_brk s' = xf_brk s"
    "xf_ctr s' = xf_ctr s" "xbalance E (xf_calls s') r = xbalance E (xf_calls s) r" "xf_stores s' = xf_stores s"
  using assms by (auto simp: xquiet_def)

lemma xsys_quiet: "(\<And>r. xdelta E (xf_calls s) c r = 0) \<Longrightarrow> xsys E c s = (a, s') \<Longrightarrow> xquiet E s s'"
  by (auto simp: xsys_def xquiet_def)

lemma xunlock_quiet: "xquiet E s (xunlock E s)"
  by (auto simp: xunlock_def xsys_def xquiet_def)

text \<open>The ids of the register regions come from the counter, and a region is in the table at most once.\<close>

definition wsid_mask :: "xenv \<Rightarrow> u64" where
  "wsid_mask E = push_bit 40 (getpid E mod 16777216)"

definition mmio_ok :: "xenv \<Rightarrow> u64 \<Rightarrow> wsid_tracker \<Rightarrow> bool" where
  "mmio_ok E c t \<longleftrightarrow> wsid_inv t \<and> (\<forall>w. length (wsid_stack t w) \<le> 1) \<and>
     (\<forall>e. e \<in># entries t \<longrightarrow> wm_wsid e XOR wsid_mask E < c) \<and>
     (\<forall>i. size (filter_mset (\<lambda>e. wm_index e = i) (entries t)) \<le> 1)"

definition xhandle_ok :: "xenv \<Rightarrow> u64 \<Rightarrow> xfpga_handle \<Rightarrow> bool" where
  "xhandle_ok E c h \<longleftrightarrow> xh_magic h = FPGA_HANDLE_MAGIC \<and> wsid_inv (xh_wsid_root h) \<and> mmio_ok E c (xh_mmio_root h) \<and>
     (xh_umsg_iova h = 0 \<longrightarrow> xh_umsg_virt h = 0) \<and> 0 \<le> xh_fddev h \<and> xh_fdfpgad h < 0"

lemma mmio_ok_mono: "mmio_ok E c t \<Longrightarrow> c \<le> d \<Longrightarrow> mmio_ok E d t"
  by (auto simp: mmio_ok_def intro: less_le_trans)

text \<open>A step changes one handle, draws at most one id, and keeps the ledger and the invariant.\<close>

definition xstep :: "xenv \<Rightarrow> ptr \<Rightarrow> xfpga \<Rightarrow> xfpga \<Rightarrow> bool" where
  "xstep E p s s' \<longleftrightarrow> xf_io s' = xf_io s \<and> xf_tokens s' = xf_tokens s \<and> xf_brk s' = xf_brk s \<and>
     (xf_ctr s' = xf_ctr s \<or> xf_ctr s' = xf_ctr s + 1) \<and>
     (\<exists>h h'. xf_handles s p = Some h \<and> xf_handles s' = (xf_handles s)(p \<mapsto> h') \<and> xhandle_ok E (xf_ctr s') h' \<and>
        (\<forall>r. xbalance E (xf_calls s') r - xowned h' r = xbalance E (xf_calls s) r - xowned h r))"

lemma xquiet_xstep:
  "xquiet E s s' \<Longrightarrow> xf_handles s p = Some h \<Longrightarrow> xhandle_ok E (xf_ctr s) h \<Longrightarrow> xstep E p s s'"
  by (auto simp: xstep_def xquiet_def intro!: exI [of _ h])

lemma xstep_quiet_left: "xquiet E s s1 \<Longrightarrow> xstep E p s1 s2 \<Longrightarrow> xstep E p s s2"
  by (auto simp: xstep_def xquiet_def)

lemma xstep_quiet_right: "xstep E p s s1 \<Longrightarrow> xquiet E s1 s2 \<Longrightarrow> xstep E p s s2"
  by (auto simp: xstep_def xquiet_def)

lemma xlock_cases:
  assumes "kind E" "xhandle_check_and_lock E p s = Some (r, s')" "xf_handles s p = Some h" "xhandle_ok E c h"
  shows "xquiet E s s'" "p \<noteq> NULL \<Longrightarrow> r = FPGA_OK" "p = NULL \<Longrightarrow> r = FPGA_INVALID_PARAM"
proof -
  have "xquiet E s (s\<lparr>xf_calls := X_lock # xf_calls s\<rparr>)" by (auto simp: xquiet_def)
  then show "xquiet E s s'" "p \<noteq> NULL \<Longrightarrow> r = FPGA_OK" "p = NULL \<Longrightarrow> r = FPGA_INVALID_PARAM"
    using assms by (auto simp: xhandle_check_and_lock_def xsys_def kindD xhandle_ok_def split: if_splits)
qed

lemma with_xhandle_step:
  assumes "kind E" "with_xhandle E p body s = Some (r, x, s')" "xf_handles s p = Some h" "xhandle_ok E (xf_ctr s) h"
    and "\<And>s1 r x s2. xquiet E s s1 \<Longrightarrow> body h s1 = Some (r, x, s2) \<Longrightarrow> xstep E p s1 s2"
  shows "xstep E p s s'"
proof -
  obtain r1 s1 where 1: "xhandle_check_and_lock E p s = Some (r1, s1)"
    using assms(2) by (auto simp: with_xhandle_def split: Option.bind_splits)
  note q = xlock_cases [OF assms(1) 1 assms(3,4)]
  show ?thesis
  proof (cases "r1 = FPGA_OK")
    case True
    then obtain r2 x2 s2 where b: "body h s1 = Some (r2, x2, s2)" "s' = xunlock E s2"
      using assms(2,3) 1 xquietD(1) [OF q(1)] by (auto simp: with_xhandle_def split: Option.bind_splits)
    from xstep_quiet_right [OF xstep_quiet_left [OF q(1) assms(5) [OF q(1) b(1)]] xunlock_quiet] b(2)
    show ?thesis by simp
  next
    case False
    then have "s' = s1" using assms(2) 1 by (simp add: with_xhandle_def)
    with q(1) assms(3,4) show ?thesis by (simp add: xquiet_xstep)
  qed
qed

subsection \<open>Calls through the table of the driver\<close>

definition ioctl_result :: "int \<Rightarrow> fpga_result" where
  "ioctl_result e = (if e = 0 then FPGA_OK else if e = EINVAL then FPGA_INVALID_PARAM
     else if e = ENOTSUP then FPGA_NOT_SUPPORTED else FPGA_EXCEPTION)"

lemma ioctl_result_ok [simp]: "ioctl_result e = FPGA_OK \<longleftrightarrow> e = 0"
  by (simp add: ioctl_result_def)

lemma opae_ioctl_eq:
  "opae_ioctl E d fd q s = (ioctl_result (xans E (xf_calls s) (X_ioctl d fd q)),
     s\<lparr>xf_calls := X_ioctl d fd q # xf_calls s\<rparr>)"
  by (simp add: opae_ioctl_def xsys_def ioctl_result_def)

lemmas drv_defs = IOCTL_def opae_ioctl_eq ioctl_out_def
  opae_port_map_def dfl_port_map_def intel_port_map_def
  opae_port_unmap_def dfl_port_unmap_def intel_port_unmap_def
  opae_get_port_region_info_def dfl_get_port_region_info_def intel_get_port_region_info_def
  opae_get_port_info_def dfl_get_port_info_def intel_get_port_info_def
  opae_port_umsg_cfg_def intel_port_umsg_cfg_def
  opae_port_umsg_set_base_addr_def intel_port_umsg_set_base_addr_def
  opae_port_umsg_enable_def intel_port_umsg_enable_def opae_port_umsg_disable_def intel_port_umsg_disable_def
  opae_fme_port_reset_def dfl_fme_port_reset_def intel_fme_port_reset_def
  opae_fme_port_assign_def dfl_fme_port_assign_def intel_fme_port_assign_def
  opae_fme_port_release_def dfl_fme_port_release_def intel_fme_port_release_def

lemma port_map_eq:
  assumes "xf_io s = Some d"
  shows "opae_port_map E fd a l fl True s =
    (let c = X_ioctl d fd (Port_dma_map fl a l); e = xans E (xf_calls s) c in
     (ioctl_result e, if e = 0 then Some (iova_reply E (xf_calls s)) else None, s\<lparr>xf_calls := c # xf_calls s\<rparr>))"
  using assms by (cases d) (simp_all add: drv_defs Let_def)

lemma port_unmap_eq:
  assumes "xf_io s = Some d" "kind E"
  shows "opae_port_unmap E fd io s = (FPGA_OK, s\<lparr>xf_calls := X_ioctl d fd (Port_dma_unmap io) # xf_calls s\<rparr>)"
  using assms by (cases d) (simp_all add: drv_defs kindD)

lemma driver_quiet:
  "opae_get_port_region_info E fd i b s = (r, ri, s') \<Longrightarrow> xquiet E s s'"
  "opae_get_port_info E fd pi s = (r, po, s') \<Longrightarrow> xquiet E s s'"
  "opae_port_umsg_cfg E fd fl hb s = (r, s') \<Longrightarrow> xquiet E s s'"
  "opae_port_umsg_set_base_addr E fd fl io s = (r, s') \<Longrightarrow> xquiet E s s'"
  "opae_port_umsg_enable E fd s = (r, s') \<Longrightarrow> xquiet E s s'"
  "opae_port_umsg_disable E fd s = (r, s') \<Longrightarrow> xquiet E s s'"
  "opae_fme_port_reset E fd s = (r, s') \<Longrightarrow> xquiet E s s'"
  "opae_fme_port_assign E fd fl port s = (r, s') \<Longrightarrow> xquiet E s s'"
  "opae_fme_port_release E fd fl port s = (r, s') \<Longrightarrow> xquiet E s s'"
  by (cases "xf_io s"; cases "the (xf_io s)";
      force simp: drv_defs xquiet_def Let_def split: if_splits option.splits)+

subsection \<open>Register regions\<close>

lemma wsid_xor: "(c XOR wsid_mask E) XOR wsid_mask E = c"
  by (simp add: xor.assoc)

lemma mmio_ok_fresh:
  assumes "mmio_ok E c t"
  shows "wsid_stack t (c XOR wsid_mask E) = []"
proof (rule ccontr)
  assume "wsid_stack t (c XOR wsid_mask E) \<noteq> []"
  then obtain e where e: "e \<in> set (wsid_stack t (c XOR wsid_mask E))" by (meson list.set_sel(1))
  then have w: "wm_wsid e = c XOR wsid_mask E" by (rule stack_key)
  with e assms have "e \<in># entries t" by (simp add: entries_stack mmio_ok_def)
  with assms w have "(c XOR wsid_mask E) XOR wsid_mask E < c" by (force simp: mmio_ok_def)
  then show False by (simp add: wsid_xor)
qed

lemma mmio_ok_add:
  assumes "mmio_ok E c t" "c < c + 1" "wsid_find_by_index t i = None"
    and "wsid_add True t (c XOR wsid_mask E) a 0 len a (ucast i) 0 = (b, t')"
  shows "b" "mmio_ok E (c + 1) t'"
    "entries t' = add_mset \<lparr>wm_wsid = c XOR wsid_mask E, wm_addr = a, wm_phys = 0, wm_len = len,
       wm_offset = a, wm_index = i, wm_flags = 0\<rparr> (entries t)"
proof -
  have inv: "wsid_inv t" using assms(1) by (simp add: mmio_ok_def)
  note e = entries_add [OF inv refl assms(4)]
  show "b" "entries t' = add_mset \<lparr>wm_wsid = c XOR wsid_mask E, wm_addr = a, wm_phys = 0, wm_len = len,
       wm_offset = a, wm_index = i, wm_flags = 0\<rparr> (entries t)" using e by simp_all
  have "filter_mset (\<lambda>e. wm_index e = i) (entries t) = {#}"
    using assms(3) by (auto simp: find_by_index_None filter_mset_eq_conv)
  then show "mmio_ok E (c + 1) t'"
    using assms(1,2) e mmio_ok_fresh [OF assms(1)]
    by (auto simp: mmio_ok_def wsid_xor intro: less_trans)
qed

lemma mmio_ok_del:
  assumes "mmio_ok E c t" "e \<in># entries t"
  shows "wsid_find t (wm_wsid e) = Some e" "mmio_ok E c (snd (wsid_del t (wm_wsid e)))"
    "entries t = add_mset e (entries (snd (wsid_del t (wm_wsid e))))"
proof -
  have inv: "wsid_inv t" and one: "length (wsid_stack t (wm_wsid e)) \<le> 1"
    using assms(1) by (simp_all add: mmio_ok_def)
  have "e \<in> set (wsid_stack t (wm_wsid e))" using assms(2) entries_stack [OF inv] by simp
  with one have st: "wsid_stack t (wm_wsid e) = [e]"
    by (cases "wsid_stack t (wm_wsid e)") auto
  then show f: "wsid_find t (wm_wsid e) = Some e" using wsid.find_law [OF inv] by simp
  note d = entries_del [OF inv f]
  show "entries t = add_mset e (entries (snd (wsid_del t (wm_wsid e))))" by (rule d(3))
  have sub: "x \<in># entries (snd (wsid_del t (wm_wsid e))) \<Longrightarrow> x \<in># entries t" for x by (simp add: d(3))
  have "size (filter_mset P (entries (snd (wsid_del t (wm_wsid e))))) \<le> size (filter_mset P (entries t))" for P
    by (simp add: d(3))
  then have "size (filter_mset (\<lambda>x. wm_index x = i) (entries (snd (wsid_del t (wm_wsid e))))) \<le> 1" for i
    using assms(1) unfolding mmio_ok_def by (meson le_trans)
  moreover have "length (wsid_stack (snd (wsid_del t (wm_wsid e))) w) \<le> 1" for w
    using assms(1) st d(2) unfolding mmio_ok_def by simp
  ultimately show "mmio_ok E c (snd (wsid_del t (wm_wsid e)))"
    using sub assms(1) d(1) unfolding mmio_ok_def by blast
qed

lemma xowned_mmio:
  "xowned (h\<lparr>xh_mmio_root := t\<rparr>) r = xowned h r +
    (\<Sum>e\<in>#entries t. mmio_owned e r) - (\<Sum>e\<in>#entries (xh_mmio_root h). mmio_owned e r)"
  by (simp add: xowned_def buffers_owned_def umsg_owned_def)

lemma xowned_wsid:
  "xowned (h\<lparr>xh_wsid_root := t\<rparr>) r = xowned h r +
    (\<Sum>e\<in>#entries t. buffer_held (xh_fddev h) e r) - buffers_owned h r"
  by (simp add: xowned_def buffers_owned_def umsg_owned_def)

text \<open>The ways through the mapping of a region.\<close>

lemma port_mmap_eq:
  assumes "kind E" "xf_handles s p = Some h" "xhandle_ok E c h"
  shows "port_mmap_region E p sz off s = Some (if p = NULL then (FPGA_INVALID_PARAM, None, s)
    else let q = X_mmap (Map_region (xh_fddev h) off) sz; cs = X_lock # xf_calls s; a = xans E cs q in
      (if a \<noteq> 0 then FPGA_INVALID_PARAM else FPGA_OK, if a \<noteq> 0 then None else Some (map_reply E cs),
       s\<lparr>xf_calls := X_unlock # q # cs\<rparr>))"
  using assms
  by (simp add: port_mmap_region_def with_xhandle_def xhandle_check_and_lock_def xsys_def xunlock_def xmmap_def
      kindD xhandle_ok_def Let_def)

lemma add_mmio_step:
  assumes "kind E" "xf_handles s p = Some h" "xhandle_ok E (xf_ctr s) h" "xf_ctr s < xf_ctr s + 1"
    and "wsid_find_by_index (xh_mmio_root h) i = None" "wsid_gen E s = (w, s1)"
  obtains s2 t' where "add_mmio E p w a len i s1 = Some (True, s2)"
    "xf_io s2 = xf_io s" "xf_tokens s2 = xf_tokens s" "xf_brk s2 = xf_brk s" "xf_ctr s2 = xf_ctr s + 1"
    "xf_stores s2 = xf_stores s"
    "xf_handles s2 = (xf_handles s)(p \<mapsto> h\<lparr>xh_mmio_root := t'\<rparr>)"
    "xhandle_ok E (xf_ctr s + 1) (h\<lparr>xh_mmio_root := t'\<rparr>)"
    "\<And>r. xbalance E (xf_calls s2) r = xbalance E (xf_calls s) r"
    "entries t' = add_mset \<lparr>wm_wsid = w, wm_addr = a, wm_phys = 0, wm_len = len,
       wm_offset = a, wm_index = i, wm_flags = 0\<rparr> (entries (xh_mmio_root h))"
proof -
  have w: "w = xf_ctr s XOR wsid_mask E" "s1 = s\<lparr>xf_ctr := xf_ctr s + 1\<rparr>"
    using assms(6) by (auto simp: wsid_gen_def wsid_mask_def)
  obtain b t' where a: "wsid_add True (xh_mmio_root h) w a 0 len a (ucast i) 0 = (b, t')" by fastforce
  have ok: "mmio_ok E (xf_ctr s) (xh_mmio_root h)" using assms(3) by (simp add: xhandle_ok_def)
  note e = mmio_ok_add [OF ok assms(4,5) a [unfolded w(1)], folded w(1)]
  show ?thesis
    by (rule that [of "s\<lparr>xf_ctr := xf_ctr s + 1, xf_calls := X_malloc # xf_calls s,
        xf_handles := (xf_handles s)(p \<mapsto> h\<lparr>xh_mmio_root := t'\<rparr>)\<rparr>" t'])
      (use assms(1-3) a e w in \<open>simp_all add: add_mmio_def xsys_def kindD upd_xhandle_def xhandle_ok_def\<close>)
qed

lemma map_region_cases:
  assumes "kind E" "map_mmio_region E p i s = Some (r, s')" "xf_handles s p = Some h" "xhandle_ok E (xf_ctr s) h"
    and "xf_ctr s < xf_ctr s + 1" "wsid_find_by_index (xh_mmio_root h) i = None"
  obtains (failed) "r \<noteq> FPGA_OK" "xquiet E s s'"
    | (mapped) e t' where "r = FPGA_OK" "wm_index e = i" "wm_addr e = wm_offset e"
      "entries t' = add_mset e (entries (xh_mmio_root h))"
      "xf_handles s' = (xf_handles s)(p \<mapsto> h\<lparr>xh_mmio_root := t'\<rparr>)"
      "xf_io s' = xf_io s" "xf_tokens s' = xf_tokens s" "xf_brk s' = xf_brk s" "xf_ctr s' = xf_ctr s + 1"
      "xhandle_ok E (xf_ctr s') (h\<lparr>xh_mmio_root := t'\<rparr>)"
      "\<And>r. xbalance E (xf_calls s') r = xbalance E (xf_calls s) r + mmio_owned e r"
proof -
  obtain r1 ri s1 where 1: "opae_get_port_region_info E (xh_fddev h) i True s = (r1, ri, s1)"
    by (metis prod_cases3)
  note q1 = driver_quiet(1) [OF 1]
  note d1 = xquietD [OF q1]
  have h1: "xf_handles s1 p = Some h" "xhandle_ok E (xf_ctr s1) h" using assms(3,4) d1 by simp_all
  consider (denied) "s' = s1" "r = FPGA_NO_ACCESS"
    | (granted) ri' where "ri = Some ri'" "r1 = FPGA_OK" "ri_flags ri' = AFU_PERMISSION"
    using assms(2,3) 1 by (auto simp: map_mmio_region_def split: option.splits if_splits)
  then show ?thesis
  proof cases
    case denied
    with q1 failed show ?thesis by simp
  next
    case granted
    let ?q = "X_mmap (Map_region (xh_fddev h) (ri_offset ri')) (ri_size ri')" and ?cs = "X_lock # xf_calls s1"
    let ?s2 = "s1\<lparr>xf_calls := X_unlock # ?q # ?cs\<rparr>"
    note m = port_mmap_eq [OF assms(1) h1, of "ri_size ri'" "ri_offset ri'"]
    show ?thesis
    proof (cases "p = NULL \<or> xans E ?cs ?q \<noteq> 0")
      case True
      then have "(s' = s1 \<or> s' = ?s2 \<and> xans E ?cs ?q \<noteq> 0) \<and> r \<noteq> FPGA_OK"
        using assms(2,3) 1 m granted by (auto simp: map_mmio_region_def Let_def split: if_splits)
      moreover have "xans E ?cs ?q \<noteq> 0 \<Longrightarrow> xquiet E s1 ?s2" by (auto simp: xquiet_def)
      ultimately have "xquiet E s1 s'" "r \<noteq> FPGA_OK" by auto
      with xquiet_trans [OF q1] failed show ?thesis by blast
    next
      case False
      let ?a = "map_reply E ?cs"
      obtain w s3 where w: "wsid_gen E ?s2 = (w, s3)" by fastforce
      let ?e = "\<lparr>wm_wsid = w, wm_addr = ?a, wm_phys = 0, wm_len = ri_size ri', wm_offset = ?a, wm_index = i, wm_flags = 0\<rparr>"
      have h2: "xf_handles ?s2 p = Some h" "xhandle_ok E (xf_ctr ?s2) h" "xf_ctr ?s2 < xf_ctr ?s2 + 1"
        using h1 d1(5) assms(5) by simp_all
      from add_mmio_step [OF assms(1) h2 assms(6) w, of ?a "ri_size ri'"] obtain s4 t' where
        4: "add_mmio E p w ?a (ri_size ri') i s3 = Some (True, s4)"
        "xf_io s4 = xf_io ?s2" "xf_tokens s4 = xf_tokens ?s2" "xf_brk s4 = xf_brk ?s2" "xf_ctr s4 = xf_ctr ?s2 + 1"
        "xf_handles s4 = (xf_handles ?s2)(p \<mapsto> h\<lparr>xh_mmio_root := t'\<rparr>)"
        "xhandle_ok E (xf_ctr ?s2 + 1) (h\<lparr>xh_mmio_root := t'\<rparr>)"
        "\<And>r. xbalance E (xf_calls s4) r = xbalance E (xf_calls ?s2) r"
        "entries t' = add_mset ?e (entries (xh_mmio_root h))"
        by metis
      have "s' = s4 \<and> r = FPGA_OK"
        using assms(2,3) 1 m granted False w 4(1)
        by (auto simp: map_mmio_region_def Let_def split: if_splits)
      with 4 d1 False show ?thesis
        by (intro mapped [of ?e t']) (auto simp: mmio_owned_def)
    qed
  qed
qed

lemma map_region_step:
  assumes "kind E" "map_mmio_region E p i s = Some (r, s')" "xf_handles s p = Some h" "xhandle_ok E (xf_ctr s) h"
    and "xf_ctr s < xf_ctr s + 1" "wsid_find_by_index (xh_mmio_root h) i = None"
  shows "xstep E p s s'"
proof (cases rule: map_region_cases [OF assms])
  case 1
  with assms(3,4) show ?thesis by (simp add: xquiet_xstep)
next
  case (2 e t')
  then show ?thesis
    unfolding xstep_def using assms(3)
    by (intro conjI exI [of _ h] exI [of _ "h\<lparr>xh_mmio_root := t'\<rparr>"]) (simp_all add: xowned_mmio)
qed

end
