(* ===== verification/Xfpga_Runs.thy ===== *)
theory Xfpga_Runs
  imports Xfpga_Ledger
begin

section \<open>Runs of the xfpga plugin\<close>

text \<open>
  Every operation on a handle is a step of the ledger (\<open>xstep\<close>); opening and closing add and remove a
  handle. A run is a sequence of calls from any state in which the invariant \<open>xplugin_ok\<close> holds.
\<close>

subsection \<open>Register regions\<close>

lemma xstep_handle:
  assumes "xstep E p s s'"
  obtains h' where "xf_handles s' p = Some h'" "xhandle_ok E (xf_ctr s') h'"
  using assms by (auto simp: xstep_def)

lemma find_or_map_step:
  assumes "kind E" "find_or_map_wm E p i s = Some (r, wm, s')" "xf_handles s p = Some h" "xhandle_ok E (xf_ctr s) h"
    and "xf_ctr s < xf_ctr s + 1"
  shows "xstep E p s s'"
proof (cases "wsid_find_by_index (xh_mmio_root h) i")
  case (Some e)
  then show ?thesis using assms(2-4) by (auto simp: find_or_map_wm_def intro: xquiet_xstep)
next
  case None
  obtain r1 where m: "map_mmio_region E p i s = Some (r1, s')"
    using assms(2,3) None by (auto simp: find_or_map_wm_def split: Option.bind_splits if_splits option.splits)
  from map_region_step [OF assms(1) m assms(3,4,5) None] show ?thesis .
qed

lemma xstep_stores: "xstep E p s (s'\<lparr>xf_stores := w\<rparr>) \<longleftrightarrow> xstep E p s s'"
  by (simp add: xstep_def)

lemma region_access_step:
  assumes "kind E" "region_access E p i off width act s = Some (r, x, s')"
    and "xf_handles s p = Some h" "xhandle_ok E (xf_ctr s) h" "xf_ctr s < xf_ctr s + 1"
    and "\<And>a s. \<exists>w. snd (act a s) = s\<lparr>xf_stores := w\<rparr>"
  shows "xstep E p s s'"
proof -
  obtain r1 wm s1 where 1: "find_or_map_wm E p i s = Some (r1, wm, s1)"
    using assms(2) by (auto simp: region_access_def split: Option.bind_splits)
  note st = find_or_map_step [OF assms(1) 1 assms(3-5)]
  have "s' = s1 \<or> (\<exists>a. s' = snd (act a s1))"
    using assms(2) 1 by (auto simp: region_access_def split: option.splits if_splits prod.splits) (metis snd_conv)
  with st assms(6) show ?thesis by (metis xstep_stores)
qed

text \<open>The bodies under the frame see the state after the lock.\<close>

lemma with_xhandle_region_step:
  assumes "kind E" "with_xhandle E p body s = Some (r, x, s')" "xf_handles s p = Some h" "xhandle_ok E (xf_ctr s) h"
    and "xf_ctr s < xf_ctr s + 1"
    and "\<And>s1 r x s2. xf_handles s1 p = Some h \<Longrightarrow> xhandle_ok E (xf_ctr s1) h \<Longrightarrow> xf_ctr s1 < xf_ctr s1 + 1 \<Longrightarrow>
      xf_io s1 = xf_io s \<Longrightarrow> body h s1 = Some (r, x, s2) \<Longrightarrow> xstep E p s1 s2"
  shows "xstep E p s s'"
proof (rule with_xhandle_step [OF assms(1-4)])
  fix s1 r x s2
  assume "xquiet E s s1" and b: "body h s1 = Some (r, x, s2)"
  then show "xstep E p s1 s2" using assms(3-5) by (intro assms(6) [OF _ _ _ _ b]) (simp_all add: xquietD)
qed

lemmas mmio_op_defs = xfpga_fpgaWriteMMIO32_def xfpga_fpgaReadMMIO32_def xfpga_fpgaWriteMMIO64_def
  xfpga_fpgaReadMMIO64_def xfpga_fpgaWriteMMIO512_def

lemma store_to_only: "\<exists>w. snd (store_to v s) = s\<lparr>xf_stores := w\<rparr>"
  by (auto simp: store_to_def)

lemma load_only: "\<exists>w. snd (x, s) = s\<lparr>xf_stores := w\<rparr>"
  by (rule exI [of _ "xf_stores s"]) simp

lemma mmio_frame_step:
  assumes "(if bad then Some (FPGA_INVALID_PARAM, None, s)
      else with_xhandle E p (\<lambda>h s. if deny h then Some (FPGA_NOT_SUPPORTED, None, s)
        else region_access E p i off width act s) s) = Some (r, x, s')"
    and "kind E" "xf_handles s p = Some h" "xhandle_ok E (xf_ctr s) h" "xf_ctr s < xf_ctr s + 1"
    and "\<And>a s. \<exists>w. snd (act a s) = s\<lparr>xf_stores := w\<rparr>"
  shows "xstep E p s s'"
proof (cases bad)
  case True
  with assms show ?thesis by (auto intro: xquiet_xstep)
next
  case False
  then have b: "with_xhandle E p (\<lambda>h s. if deny h then Some (FPGA_NOT_SUPPORTED, None, s)
        else region_access E p i off width act s) s = Some (r, x, s')" using assms(1) by simp
  show ?thesis
    by (rule with_xhandle_region_step [OF assms(2) b assms(3-5)])
      (auto split: if_splits intro: xquiet_xstep region_access_step [OF assms(2)] assms(6))
qed

lemma mmio_access_step:
  assumes "(if bad then Some (FPGA_INVALID_PARAM, None, s)
      else with_xhandle E p (\<lambda>_. region_access E p i off width act) s) = Some (r, x, s')"
    and "kind E" "xf_handles s p = Some h" "xhandle_ok E (xf_ctr s) h" "xf_ctr s < xf_ctr s + 1"
    and "\<And>a s. \<exists>w. snd (act a s) = s\<lparr>xf_stores := w\<rparr>"
  shows "xstep E p s s'"
  by (rule mmio_frame_step [where deny = "\<lambda>_. False" and bad = bad and i = i and off = off and width = width
        and act = act and r = r and x = x, OF _ assms(2-6)])
    (use assms(1) in \<open>simp split: if_split_asm\<close>)

lemma mmio_ops_step:
  assumes "kind E" "xf_handles s p = Some h" "xhandle_ok E (xf_ctr s) h" "xf_ctr s < xf_ctr s + 1"
  shows "xfpga_fpgaWriteMMIO32 E p i off v32 s = Some (r, x, s') \<Longrightarrow> xstep E p s s'"
    "xfpga_fpgaReadMMIO32 E p i off s = Some (r, y32, s') \<Longrightarrow> xstep E p s s'"
    "xfpga_fpgaWriteMMIO64 E p i off v64 s = Some (r, x, s') \<Longrightarrow> xstep E p s s'"
    "xfpga_fpgaReadMMIO64 E p i off s = Some (r, y64, s') \<Longrightarrow> xstep E p s s'"
    "xfpga_fpgaWriteMMIO512 E p i off v512 s = Some (r, x, s') \<Longrightarrow> xstep E p s s'"
  unfolding mmio_op_defs
  by - (erule mmio_access_step [OF _ assms] mmio_frame_step [OF _ assms]; rule store_to_only load_only)+

text \<open>Mapping for the caller, and unmapping.\<close>

lemma sum_mset_del:
  assumes "entries t = add_mset e (entries t')"
  shows "(\<Sum>x\<in>#entries t. f x) = f e + (\<Sum>x\<in>#entries t'. f x)"
  by (simp add: assms)

lemma map_ops_step:
  assumes "kind E" "xf_handles s p = Some h" "xhandle_ok E (xf_ctr s) h" "xf_ctr s < xf_ctr s + 1"
  shows "xfpga_fpgaMapMMIO E p i out s = Some (r, y, s') \<Longrightarrow> xstep E p s s'"
    "xfpga_fpgaUnmapMMIO E p i s = Some (r, x, s') \<Longrightarrow> xstep E p s s'"
proof -
  assume m: "xfpga_fpgaMapMMIO E p i out s = Some (r, y, s')"
  show "xstep E p s s'"
    by (rule with_xhandle_region_step [OF assms(1) m [unfolded xfpga_fpgaMapMMIO_def] assms(2-4)])
      (auto split: Option.bind_splits intro: find_or_map_step [OF assms(1)])
next
  assume u: "xfpga_fpgaUnmapMMIO E p i s = Some (r, x, s')"
  show "xstep E p s s'"
  proof (rule with_xhandle_region_step [OF assms(1) u [unfolded xfpga_fpgaUnmapMMIO_def] assms(2-4)])
    fix s1 r x s2
    assume s1: "xf_handles s1 p = Some h" "xhandle_ok E (xf_ctr s1) h"
      and b: "(case wsid_find_by_index (xh_mmio_root h) i of None \<Rightarrow> Some (FPGA_INVALID_PARAM, None, s1)
       | Some wm \<Rightarrow>
           (case xsys E (X_munmap (wm_offset wm) (wm_len wm)) s1 of (r, s) \<Rightarrow>
            if r \<noteq> 0 then Some (FPGA_INVALID_PARAM, None, s)
            else Some (FPGA_OK, None, upd_xhandle p
              (\<lambda>h. h\<lparr>xh_mmio_root := snd (wsid_del (xh_mmio_root h) (wm_wsid wm))\<rparr>) s))) = Some (r, x, s2)"
    show "xstep E p s1 s2"
    proof (cases "wsid_find_by_index (xh_mmio_root h) i")
      case None
      with b s1 show ?thesis by (auto intro: xquiet_xstep)
    next
      case (Some e)
      have ok: "mmio_ok E (xf_ctr s1) (xh_mmio_root h)" using s1(2) by (simp add: xhandle_ok_def)
      note d = mmio_ok_del [OF ok find_by_index_Some [OF Some, THEN conjunct1]]
      show ?thesis
        using b Some s1 d(2) assms(1)
        by (auto simp: xsys_def kindD upd_xhandle_def xstep_def xhandle_ok_def xowned_mmio
            sum_mset_del [OF d(3)] mmio_owned_def)
    qed
  qed
qed

lemma xstepI:
  assumes "xf_handles s p = Some h" "xf_handles s' = (xf_handles s)(p \<mapsto> h')" "xf_io s' = xf_io s"
    and "xf_tokens s' = xf_tokens s" "xf_brk s' = xf_brk s" "xf_ctr s' = xf_ctr s \<or> xf_ctr s' = xf_ctr s + 1"
    and "xhandle_ok E (xf_ctr s') h'"
    and "\<And>r. xbalance E (xf_calls s') r - xowned h' r = xbalance E (xf_calls s) r - xowned h r"
  shows "xstep E p s s'"
  using assms unfolding xstep_def by blast

subsection \<open>Shared buffers\<close>

lemma xmmap_eq:
  "xmmap E k len s = (xans E (xf_calls s) (X_mmap k len), map_reply E (xf_calls s),
     s\<lparr>xf_calls := X_mmap k len # xf_calls s\<rparr>)"
  by (simp add: xmmap_def xsys_def)

lemma xdelta_anonymous:
  "xdelta E cs (X_mmap (map_kind len) l) r =
     of_bool (xans E cs (X_mmap (map_kind len) l) = 0 \<and> r = X_map (map_reply E cs) (mapped_len l))"
  by (simp add: map_kind_def)

lemma xbuffer_release_eq:
  assumes "kind E"
  shows "xbuffer_release E a len s = (FPGA_OK, s\<lparr>xf_calls := X_munmap a (mapped_len len) # xf_calls s\<rparr>)"
  using assms by (simp add: xbuffer_release_def xsys_def kindD)

text \<open>
  Sharing memory that is already owned: it is kept when the handle takes it over, and given back
  otherwise. \<open>due\<close> is what was acquired for it.
\<close>

definition buffer_memory :: "u32 \<Rightarrow> u64 \<Rightarrow> u64 \<Rightarrow> xresource \<Rightarrow> int" where
  "buffer_memory flags addr len r = (if flags AND FPGA_BUF_PREALLOCATED \<noteq> 0 then 0
     else of_bool (r = X_map addr (mapped_len len)))"

lemma share_buffer_eq:
  assumes "kind E" "xf_io s = Some d" "xf_handles s p = Some h"
    and "q = X_ioctl d (xh_fddev h) (Port_dma_map (if flags AND FPGA_BUF_READ_ONLY \<noteq> 0 then FPGA_DMA_TO_DEV else 0) addr len)"
    and "a = xans E (xf_calls s) q" "io = iova_reply E (xf_calls s)" "w = xf_ctr s XOR wsid_mask E"
    and "wsid_add True (xh_wsid_root h) w addr io len 0 0 flags = (True, t')"
  shows "share_buffer E p h addr len flags s = Some
    (if a \<noteq> 0 then (FPGA_INVALID_PARAM, None, s\<lparr>xf_calls := (if flags AND FPGA_BUF_PREALLOCATED \<noteq> 0 then []
         else [X_munmap addr (mapped_len len)]) @ q # xf_calls s\<rparr>)
     else (FPGA_OK, Some (Some addr, w), s\<lparr>xf_ctr := xf_ctr s + 1, xf_calls := X_malloc # q # xf_calls s,
         xf_handles := (xf_handles s)(p \<mapsto> h\<lparr>xh_wsid_root := t'\<rparr>)\<rparr>))"
  using assms
  by (simp add: share_buffer_def port_map_eq Let_def xbuffer_release_eq wsid_gen_def wsid_mask_def add_buffer_def
      xsys_def kindD upd_xhandle_def)

lemma share_buffer_step:
  assumes "kind E" "xf_io s = Some d" "xf_handles s p = Some h" "xhandle_ok E (xf_ctr s) h" "xf_ctr s < xf_ctr s + 1"
    and "share_buffer E p h addr len flags s = Some (r, x, s')"
    and "s = s0\<lparr>xf_calls := cs\<rparr>" "\<And>r. xbalance E cs r = xbalance E (xf_calls s0) r + buffer_memory flags addr len r"
  shows "xstep E p s0 s'"
proof -
  let ?q = "X_ioctl d (xh_fddev h) (Port_dma_map (if flags AND FPGA_BUF_READ_ONLY \<noteq> 0 then FPGA_DMA_TO_DEV else 0) addr len)"
  let ?io = "iova_reply E (xf_calls s)" and ?w = "xf_ctr s XOR wsid_mask E"
  have inv: "wsid_inv (xh_wsid_root h)" using assms(4) by (simp add: xhandle_ok_def)
  obtain b t' where a: "wsid_add True (xh_wsid_root h) ?w addr ?io len 0 0 flags = (b, t')" by fastforce
  note e = entries_add [where i = 0, OF inv refl, simplified, OF a]
  note eq = share_buffer_eq [OF assms(1-3) refl refl refl refl,
      where flags = flags and addr = addr and len = len and t' = t']
  show ?thesis
  proof (cases "xans E (xf_calls s) ?q = 0")
    case False
    then have "s' = s\<lparr>xf_calls := (if flags AND FPGA_BUF_PREALLOCATED \<noteq> 0 then []
         else [X_munmap addr (mapped_len len)]) @ ?q # xf_calls s\<rparr>"
      using eq a e(1) assms(6) by simp
    then have "xquiet E s0 s'"
      using False assms(1,7,8) by (auto simp: xquiet_def buffer_memory_def kindD)
    with assms(3,4,7) show ?thesis by (auto intro: xquiet_xstep)
  next
    case True
    then have "s' = s\<lparr>xf_ctr := xf_ctr s + 1, xf_calls := X_malloc # ?q # xf_calls s,
         xf_handles := (xf_handles s)(p \<mapsto> h\<lparr>xh_wsid_root := t'\<rparr>)\<rparr>"
      using eq a e(1) assms(6) by simp
    then show ?thesis
      using True assms(3,4,5,7,8) e(2,4)
      by (intro xstepI [where h = h and h' = "h\<lparr>xh_wsid_root := t'\<rparr>"])
        (auto simp: xhandle_ok_def xowned_wsid buffers_owned_def buffer_held_def buffer_memory_def
          intro: mmio_ok_mono less_imp_le)
  qed
qed

lemma xprepare_cases:
  assumes "(if c0 then Some (FPGA_INVALID_PARAM, None, s)
       else if c1 then Some (FPGA_INVALID_PARAM, None, s)
       else if pre then
         (case a of
            None \<Rightarrow> Some (if c2 then FPGA_OK else FPGA_INVALID_PARAM, None, s)
          | Some addr \<Rightarrow> (if c3 addr then Some (FPGA_INVALID_PARAM, None, s) else sh addr len s))
       else if c4 then Some (FPGA_INVALID_PARAM, None, s)
       else
         (case xbuffer_allocate E l s of (result, addr, s) \<Rightarrow>
            if result \<noteq> FPGA_OK then Some (result, None, s) else sh addr l s)) = Some (r, x, s')"
  obtains (none) "s' = s" "x = None"
    | (pre) addr where "pre" "sh addr len s = Some (r, x, s')"
    | (nomem) "xans E (xf_calls s) (X_mmap (map_kind l) l) \<noteq> 0" "x = None" "s' = s\<lparr>xf_calls := X_mmap (map_kind l) l # xf_calls s\<rparr>"
    | (mem) "\<not> pre" "xans E (xf_calls s) (X_mmap (map_kind l) l) = 0"
        "sh (map_reply E (xf_calls s)) l (s\<lparr>xf_calls := X_mmap (map_kind l) l # xf_calls s\<rparr>) = Some (r, x, s')"
proof (cases "c0 \<or> c1")
  case True
  with assms show ?thesis by (intro none) (simp_all split: if_split_asm)
next
  case early: False
  show ?thesis
  proof (cases pre)
    case True
    show ?thesis
    proof (cases a)
      case None
      with assms early True show ?thesis by (intro none) (simp_all split: if_split_asm)
    next
      case (Some addr)
      show ?thesis
      proof (cases "c3 addr")
        case False
        with assms early True Some show ?thesis by (intro pre) simp_all
      qed (use assms early True Some in \<open>intro none, simp_all\<close>)
    qed
  next
    case pre: False
    consider "c4" | "\<not> c4" "xans E (xf_calls s) (X_mmap (map_kind l) l) \<noteq> 0"
      | "\<not> c4" "xans E (xf_calls s) (X_mmap (map_kind l) l) = 0" by blast
    then show ?thesis
    proof cases
      case 1
      with assms early pre show ?thesis by (intro none) simp_all
    next
      case 2
      with assms early pre show ?thesis
        by (intro nomem) (simp_all add: xbuffer_allocate_def xmmap_eq split: if_split_asm)
    next
      case 3
      with assms early pre show ?thesis by (intro mem) (simp_all add: xbuffer_allocate_def xmmap_eq)
    qed
  qed
qed

lemma prepare_step:
  assumes "kind E" "xf_handles s p = Some h" "xhandle_ok E (xf_ctr s) h" "xf_ctr s < xf_ctr s + 1" "xf_io s = Some d"
    and "xfpga_fpgaPrepareBuffer E p len a w flags s = Some (r, x, s')"
  shows "xstep E p s s'"
proof (rule with_xhandle_region_step [OF assms(1) assms(6) [unfolded xfpga_fpgaPrepareBuffer_def] assms(2-4)])
  fix s1 r x s2
  assume s1: "xf_handles s1 p = Some h" "xhandle_ok E (xf_ctr s1) h" "xf_ctr s1 < xf_ctr s1 + 1" "xf_io s1 = xf_io s"
    and b: "(let preallocated = flags AND FPGA_BUF_PREALLOCATED \<noteq> 0; pg = page_bytes E in
       if \<not> w then Some (FPGA_INVALID_PARAM, None, s1)
       else if flags AND NOT (FPGA_BUF_PREALLOCATED OR FPGA_BUF_QUIET OR FPGA_BUF_READ_ONLY) \<noteq> 0
       then Some (FPGA_INVALID_PARAM, None, s1)
       else if preallocated then
         (case a of
            None \<Rightarrow> Some (if len = 0 then FPGA_OK else FPGA_INVALID_PARAM, None, s1)
          | Some addr \<Rightarrow>
              (if addr = 0 \<or> len = 0 \<or> len AND (pg - 1) \<noteq> 0 then Some (FPGA_INVALID_PARAM, None, s1)
               else share_buffer E p h addr len flags s1))
       else if a = None \<or> len = 0 then Some (FPGA_INVALID_PARAM, None, s1)
       else
         (let len = whole_pages pg len in
          case xbuffer_allocate E len s1 of (result, addr, s) \<Rightarrow>
            if result \<noteq> FPGA_OK then Some (result, None, s)
            else share_buffer E p h addr len flags s)) = Some (r, x, s2)"
  note io = s1(4) [unfolded assms(5)]
  let ?len = "whole_pages (page_bytes E) len"
  let ?q = "X_mmap (map_kind ?len) ?len" and ?cs = "xf_calls s1"
  let ?sm = "s1\<lparr>xf_calls := ?q # ?cs\<rparr>"
  from b [unfolded Let_def] show "xstep E p s1 s2"
  proof (cases rule: xprepare_cases)
    case none
    with s1 show ?thesis by (auto intro: xquiet_xstep)
  next
    case pre
    show ?thesis
      by (rule share_buffer_step [OF assms(1) io s1(1-3) pre(2), where cs = "xf_calls s1"])
        (use pre(1) in \<open>simp_all add: buffer_memory_def\<close>)
  next
    case nomem
    then have "xquiet E s1 s2" by (auto simp: xquiet_def xdelta_anonymous)
    with s1 show ?thesis by (auto intro: xquiet_xstep)
  next
    case mem
    show ?thesis
      by (rule share_buffer_step [OF assms(1) _ _ _ _ mem(3), where d = d and cs = "?q # ?cs"])
        (use mem(1,2) s1 io in \<open>simp_all add: buffer_memory_def xdelta_anonymous\<close>)
  qed
qed

lemma release_step:
  assumes "kind E" "xf_handles s p = Some h" "xhandle_ok E (xf_ctr s) h" "xf_ctr s < xf_ctr s + 1" "xf_io s = Some d"
    and "xfpga_fpgaReleaseBuffer E p w s = Some (r, x, s')"
  shows "xstep E p s s'"
proof (rule with_xhandle_region_step [OF assms(1) assms(6) [unfolded xfpga_fpgaReleaseBuffer_def] assms(2-4)])
  fix s1 r x s2
  assume s1: "xf_handles s1 p = Some h" "xhandle_ok E (xf_ctr s1) h" "xf_ctr s1 < xf_ctr s1 + 1" "xf_io s1 = xf_io s"
    and b: "(case wsid_find (xh_wsid_root h) w of
         None \<Rightarrow> Some (FPGA_INVALID_PARAM, None, s1)
       | Some wm \<Rightarrow>
           (case opae_port_unmap E (xh_fddev h) (wm_phys wm) s1 of (r, s) \<Rightarrow>
            if r \<noteq> FPGA_OK then Some (FPGA_INVALID_PARAM, None, del_buffer p w s)
            else if wm_flags wm AND FPGA_BUF_PREALLOCATED \<noteq> 0
            then Some (FPGA_OK, None, del_buffer p w s)
            else case xbuffer_release E (wm_addr wm) (wm_len wm) s of (result, s) \<Rightarrow>
              Some (result, None, del_buffer p w s))) = Some (r, x, s2)"
  show "xstep E p s1 s2"
  proof (cases "wsid_find (xh_wsid_root h) w")
    case None
    with b s1 show ?thesis by (auto intro: xquiet_xstep)
  next
    case (Some e)
    have inv: "wsid_inv (xh_wsid_root h)" using s1(2) by (simp add: xhandle_ok_def)
    note d = entries_del [OF inv Some]
    show ?thesis
      using b Some s1 d(1) assms(1,5)
      by (intro xstepI [where h = h and h' = "h\<lparr>xh_wsid_root := snd (wsid_del (xh_wsid_root h) w)\<rparr>"])
        (auto simp: port_unmap_eq xbuffer_release_eq del_buffer_def upd_xhandle_def xhandle_ok_def xowned_wsid
          buffers_owned_def sum_mset_del [OF d(3)] buffer_held_def kindD split: if_split_asm)
  qed
qed

lemma ioaddress_step:
  assumes "kind E" "xf_handles s p = Some h" "xhandle_ok E (xf_ctr s) h" "xf_ctr s < xf_ctr s + 1"
    and "xfpga_fpgaGetIOAddress E p w s = Some (r, x, s')"
  shows "xstep E p s s'"
  by (rule with_xhandle_region_step [OF assms(1) assms(5) [unfolded xfpga_fpgaGetIOAddress_def] assms(2-4)])
    (auto split: option.split_asm intro: xquiet_xstep)

subsection \<open>User messages, resetting and assigning\<close>

lemma alloc_buffer_eq:
  assumes "kind E"
  shows "alloc_buffer E len s = (let q = X_mmap (map_kind len) len in
    (if xans E (xf_calls s) q = 0 then map_reply E (xf_calls s) else 0, s\<lparr>xf_calls := q # xf_calls s\<rparr>))"
  using assms by (simp add: alloc_buffer_def xmmap_eq Let_def)

lemma free_buffer_eq:
  assumes "kind E"
  shows "free_buffer E a len s = (0, s\<lparr>xf_calls := X_munmap a (mapped_len len) # xf_calls s\<rparr>)"
  using assms by (simp add: free_buffer_def xsys_def kindD)

text \<open>Changes to the calls that add up to \<open>f\<close>.\<close>

definition xspent :: "xenv \<Rightarrow> (xresource \<Rightarrow> int) \<Rightarrow> xfpga \<Rightarrow> xfpga \<Rightarrow> bool" where
  "xspent E f s s' \<longleftrightarrow> (\<exists>cs. s' = s\<lparr>xf_calls := cs\<rparr> \<and> (\<forall>r. xbalance E cs r = xbalance E (xf_calls s) r + f r))"

lemma xspent_quiet: "xspent E f s s1 \<Longrightarrow> xquiet E s1 s2 \<Longrightarrow> xspent E f s s2"
  by (auto simp: xspent_def xquiet_def)

lemma xquiet_spent: "xquiet E s s1 \<Longrightarrow> xspent E f s1 s2 \<Longrightarrow> xspent E f s s2"
  by (auto simp: xspent_def xquiet_def)

lemma xspent_trans: "xspent E f s s1 \<Longrightarrow> xspent E g s1 s2 \<Longrightarrow> xspent E (\<lambda>r. f r + g r) s s2"
  by (auto simp: xspent_def)

lemma xspent_none: "xspent E f s s' \<Longrightarrow> (\<And>r. f r = 0) \<Longrightarrow> xquiet E s s'"
  by (auto simp: xspent_def xquiet_def)

lemma xspentD:
  assumes "xspent E f s s'"
  shows "xf_handles s' = xf_handles s" "xf_io s' = xf_io s" "xf_tokens s' = xf_tokens s" "xf_brk s' = xf_brk s"
    "xf_ctr s' = xf_ctr s" "xbalance E (xf_calls s') r = xbalance E (xf_calls s) r + f r" "xf_stores s' = xf_stores s"
  using assms by (auto simp: xspent_def)

abbreviation umsg_parts :: "int \<Rightarrow> u64 \<Rightarrow> u64 \<Rightarrow> u64 \<Rightarrow> xresource \<Rightarrow> int" where
  "umsg_parts fd virt sz io r \<equiv> of_bool (r = X_map virt (mapped_len sz)) + of_bool (r = X_dma fd io)"

lemma free_parts:
  assumes "kind E" "xf_io s = Some d" "opae_port_unmap E fd io s = (r1, s1)" "free_buffer E virt sz s1 = (r2, s2)"
  shows "xspent E (\<lambda>r. - umsg_parts fd virt sz io r) s s2" "r1 = FPGA_OK"
  using assms by (auto simp: port_unmap_eq free_buffer_eq xspent_def kindD)

lemma umsg_exit_quiet:
  assumes "kind E" "xf_io t = Some d" "xspent E (umsg_parts fd virt sz io) s t"
    and "umsg_map_exit E fd virt sz io t = (r, x, s')"
  shows "xquiet E s s'" "x = None"
proof -
  obtain ra sa rb sb where ab: "opae_port_unmap E fd io t = (ra, sa)" "free_buffer E virt sz sa = (rb, sb)"
    by fastforce
  have "xquiet E s sb"
    by (rule xspent_none [OF xspent_trans [OF assms(3) free_parts(1) [OF assms(1,2) ab]]]) simp
  then show "xquiet E s s'" "x = None" using assms(4) ab by (auto simp: umsg_map_exit_def)
qed

text \<open>Either nothing is left over, or the memory and its mapping are the new messages of the handle.\<close>

lemma map_umsg_cases:
  assumes "kind E" "xf_io s = Some d" "map_umsg E p fd s = (r, x, s')"
  obtains (failed) "xquiet E s s'" "x = None"
  | (mapped) virt sz io s1 where "virt \<noteq> 0" "io \<noteq> 0" "x = Some virt" "r = FPGA_OK"
      "xspent E (umsg_parts fd virt sz io) s s1"
      "s' = upd_xhandle p (\<lambda>h. h\<lparr>xh_umsg_iova := io, xh_umsg_virt := virt, xh_umsg_size := sz\<rparr>) s1"
proof -
  obtain r1 info s1 where 1: "opae_get_port_info E fd (Some no_port_info) s = (r1, info, s1)"
    by (metis prod_cases3)
  note q1 = driver_quiet(2) [OF 1]
  note e1 = xquietD [OF q1]
  show ?thesis
  proof (cases "r1 \<noteq> FPGA_OK \<or> info = None")
    case True
    then have "s' = s1" "x = None" using assms(3) 1 by (auto simp: map_umsg_def split: option.split_asm if_split_asm)
    then show ?thesis using q1 failed by simp
  next
    case False
    then obtain i where i: "info = Some i" "r1 = FPGA_OK" by auto
    let ?sz = "ucast (pi_num_umsgs i) * page_bytes E" and ?v = "map_reply E (xf_calls s1)"
    let ?q = "X_mmap (map_kind ?sz) ?sz"
    let ?s2 = "s1\<lparr>xf_calls := ?q # xf_calls s1\<rparr>"
    show ?thesis
    proof (cases "xans E (xf_calls s1) ?q = 0")
      case False
      then have "s' = ?s2" "x = None" using assms(1,3) 1 i by (auto simp: map_umsg_def alloc_buffer_eq Let_def)
      moreover have "xquiet E s1 ?s2" using False by (auto simp: xquiet_def xdelta_anonymous)
      ultimately show ?thesis using failed xquiet_trans [OF q1] by simp
    next
      case ok: True
      have sp: "xspent E (\<lambda>r. of_bool (r = X_map ?v (mapped_len ?sz))) s ?s2"
        by (rule xquiet_spent [OF q1]) (use ok in \<open>auto simp: xspent_def xdelta_anonymous\<close>)
      have v: "?v \<noteq> 0" using assms(1) by (simp add: kindD)
      let ?io = "iova_reply E (xf_calls ?s2)" and ?m = "X_ioctl d fd (Port_dma_map 0 ?v ?sz)"
      let ?s3 = "?s2\<lparr>xf_calls := ?m # xf_calls ?s2\<rparr>"
      have pm: "opae_port_map E fd ?v ?sz 0 True ?s2 = (ioctl_result (xans E (xf_calls ?s2) ?m),
          if xans E (xf_calls ?s2) ?m = 0 then Some ?io else None, ?s3)"
        using port_map_eq [of ?s2 d E fd ?v ?sz 0] e1(2) assms(2) by (simp add: Let_def)
      show ?thesis
      proof (cases "xans E (xf_calls ?s2) ?m = 0")
        case False
        have s': "s' = ?s3\<lparr>xf_calls := X_munmap ?v (mapped_len ?sz) # xf_calls ?s3\<rparr>" "x = None"
          using assms(1,3) 1 i v ok pm False by (auto simp: map_umsg_def alloc_buffer_eq Let_def free_buffer_eq)
        have "xspent E (\<lambda>r. - of_bool (r = X_map ?v (mapped_len ?sz))) ?s2 s'"
          unfolding s' using False assms(1) by (auto simp: xspent_def kindD)
        from xspent_none [OF xspent_trans [OF sp this]] show ?thesis using failed s'(2) by simp
      next
        case True
        have sp3: "xspent E (umsg_parts fd ?v ?sz ?io) s ?s3"
          by (rule xspent_trans [OF sp]) (use True in \<open>auto simp: xspent_def\<close>)
        obtain r4 s4 where 4: "opae_port_umsg_set_base_addr E fd 0 ?io ?s3 = (r4, s4)" by fastforce
        obtain r5 s5 where 5: "opae_port_umsg_enable E fd s4 = (r5, s5)" by fastforce
        note sp4 = xspent_quiet [OF sp3 driver_quiet(4) [OF 4]]
        note sp5 = xspent_quiet [OF sp4 driver_quiet(5) [OF 5]]
        have io: "xf_io s4 = Some d" "xf_io s5 = Some d"
          using xspentD(2) [OF sp4] xspentD(2) [OF sp5] assms(2) by simp_all
        note undo = umsg_exit_quiet [OF assms(1) io(1) sp4] umsg_exit_quiet [OF assms(1) io(2) sp5]
        show ?thesis
        proof (cases "r4 = FPGA_OK \<and> r5 = FPGA_OK")
          case True
          then show ?thesis
            using assms(1,3) 1 i v ok pm \<open>xans E (xf_calls ?s2) ?m = 0\<close> 4 5
            by (intro mapped [OF v kindD(6) [OF assms(1)] _ _ sp5])
              (auto simp: map_umsg_def alloc_buffer_eq Let_def)
        next
          case False
          then have "umsg_map_exit E fd ?v ?sz ?io s4 = (r, x, s') \<or> umsg_map_exit E fd ?v ?sz ?io s5 = (r, x, s')"
            using assms(1,3) 1 i v ok pm \<open>xans E (xf_calls ?s2) ?m = 0\<close> 4 5
            by (auto simp: map_umsg_def alloc_buffer_eq Let_def split: if_split_asm)
          then show ?thesis using undo failed by blast
        qed
      qed
    qed
  qed
qed

lemma umsgptr_step:
  assumes "kind E" "xf_handles s p = Some h" "xhandle_ok E (xf_ctr s) h" "xf_ctr s < xf_ctr s + 1" "xf_io s = Some d"
    and "xfpga_fpgaGetUmsgPtr E p out s = Some (r, x, s')"
  shows "xstep E p s s'"
proof (cases out)
  case False
  with assms show ?thesis by (auto simp: xfpga_fpgaGetUmsgPtr_def intro: xquiet_xstep)
next
  case True
  note u = assms(6) [unfolded xfpga_fpgaGetUmsgPtr_def if_not_P [OF not_not [THEN iffD2, OF True]]]
  show ?thesis
  proof (rule with_xhandle_region_step [OF assms(1) u assms(2-4)])
    fix s1 r x s2
    assume s1: "xf_handles s1 p = Some h" "xhandle_ok E (xf_ctr s1) h" "xf_ctr s1 < xf_ctr s1 + 1" "xf_io s1 = xf_io s"
      and b: "(if xh_fddev h < 0 then Some (FPGA_INVALID_PARAM, None, s1)
        else if xh_umsg_iova h \<noteq> 0 then Some (FPGA_OK, Some (xh_umsg_virt h), s1)
        else Some (map_umsg E p (xh_fddev h) s1)) = Some (r, x, s2)"
    show "xstep E p s1 s2"
    proof (cases "xh_fddev h < 0 \<or> xh_umsg_iova h \<noteq> 0")
      case True
      with b s1 show ?thesis by (auto intro: xquiet_xstep split: if_split_asm)
    next
      case False
      then have m: "map_umsg E p (xh_fddev h) s1 = (r, x, s2)" and v: "xh_umsg_virt h = 0"
        using b s1(2) by (auto simp: xhandle_ok_def)
      show ?thesis
      proof (cases rule: map_umsg_cases [OF assms(1) s1(4) [unfolded assms(5)] m])
        case 1
        with s1 show ?thesis by (auto intro: xquiet_xstep)
      next
        case (2 virt sz io t)
        then show ?thesis using s1(1,2) v
          by (intro xstepI [where h = h and h' = "h\<lparr>xh_umsg_iova := io, xh_umsg_virt := virt, xh_umsg_size := sz\<rparr>"])
            (auto simp: xspentD upd_xhandle_def xhandle_ok_def xowned_def buffers_owned_def umsg_owned_def)
      qed
    qed
  qed
qed

lemma trigger_step:
  assumes "kind E" "xf_handles s p = Some h" "xhandle_ok E (xf_ctr s) h" "xf_ctr s < xf_ctr s + 1" "xf_io s = Some d"
    and "xfpga_fpgaTriggerUmsg E p v s = Some (r, x, s')"
  shows "xstep E p s s'"
proof (rule with_xhandle_region_step [OF assms(1) assms(6) [unfolded xfpga_fpgaTriggerUmsg_def] assms(2-4)])
  fix s1 r x s2
  assume s1: "xf_handles s1 p = Some h" "xhandle_ok E (xf_ctr s1) h" "xf_ctr s1 < xf_ctr s1 + 1" "xf_io s1 = xf_io s"
    and b: "(if xh_fddev h < 0 then Some (FPGA_INVALID_PARAM, None, s1)
       else do {
         (result, umsg_ptr, s) \<leftarrow> xfpga_fpgaGetUmsgPtr E p True s1;
         (if result \<noteq> FPGA_OK then Some (result, None, s)
          else do {
            q \<leftarrow> umsg_ptr;
            Some (FPGA_OK, None, s\<lparr>xf_stores := Store64 q v # xf_stores s\<rparr>)
          })
       }) = Some (r, x, s2)"
  show "xstep E p s1 s2"
  proof (cases "xh_fddev h < 0")
    case True
    with b s1 show ?thesis by (auto intro: xquiet_xstep)
  next
    case False
    then obtain r3 x3 s3 where g: "xfpga_fpgaGetUmsgPtr E p True s1 = Some (r3, x3, s3)"
      using b by (auto split: Option.bind_splits)
    note st = umsgptr_step [OF assms(1) s1(1-3) s1(4) [unfolded assms(5)] g]
    have "\<exists>w. s2 = s3\<lparr>xf_stores := w\<rparr>"
      using b g False by (auto split: Option.bind_splits if_split_asm intro: exI [of _ "xf_stores s3"])
    with st show ?thesis by (auto simp: xstep_stores)
  qed
qed

lemma quiet_body_step:
  assumes "with_xhandle E p body s = Some (r, x, s')"
    and "kind E" "xf_handles s p = Some h" "xhandle_ok E (xf_ctr s) h" "xf_ctr s < xf_ctr s + 1"
    and "\<And>s1 r x s2. body h s1 = Some (r, x, s2) \<Longrightarrow> xquiet E s1 s2"
  shows "xstep E p s s'"
  by (rule with_xhandle_region_step [OF assms(2,1,3,4,5)]) (rule xquiet_xstep [OF assms(6)])

lemma umsg_ops_step:
  assumes "kind E" "xf_handles s p = Some h" "xhandle_ok E (xf_ctr s) h" "xf_ctr s < xf_ctr s + 1"
  shows "xfpga_fpgaGetNumUmsg E p out s = Some (r, y, s') \<Longrightarrow> xstep E p s s'"
    "xfpga_fpgaSetUmsgAttributes E p v s = Some (r, x, s') \<Longrightarrow> xstep E p s s'"
    "xfpga_fpgaReset E p s = Some (r, x, s') \<Longrightarrow> xstep E p s s'"
    "xfpga_fpgaAssignPortToInterface E p i slot fl s = Some (r, x, s') \<Longrightarrow> xstep E p s s'"
  unfolding xfpga_fpgaGetNumUmsg_def xfpga_fpgaSetUmsgAttributes_def xfpga_fpgaReset_def
    xfpga_fpgaAssignPortToInterface_def
     apply (cases out)
      apply (simp, erule quiet_body_step [OF _ assms], auto split: if_split_asm prod.split_asm dest: driver_quiet)[1]
  using assms apply (simp add: xquiet_xstep)
  by (erule quiet_body_step [OF _ assms], auto split: if_split_asm prod.split_asm dest: driver_quiet)+

subsection \<open>Opening and closing\<close>

lemma tracker_init_eq:
  assumes "kind E" "0 < n" "n \<le> 16384"
  shows "\<exists>t. tracker_init E n s = (Some t, s\<lparr>xf_calls := X_malloc # X_malloc # xf_calls s\<rparr>) \<and> wsid_inv t \<and>
    entries t = {#}"
proof -
  let ?t = "\<lparr>n_hash_buckets = ucast n, table = replicate (unat n) []\<rparr>"
  have i: "wsid_tracker_init True True n = Some ?t"
    using assms(2,3) by (auto simp: wsid_tracker_init_def)
  have "entries ?t = {#}" by (simp add: entries_def)
  with i wsid_tracker_init_inv [OF i] assms(1) show ?thesis by (simp add: tracker_init_def xsys_def kindD)
qed

lemma mmio_ok_empty:
  assumes "wsid_inv t" "entries t = {#}"
  shows "mmio_ok E c t"
proof -
  have "wsid_stack t w = []" for w
    using entries_stack [OF assms(1)] assms(2) stack_key [of _ t w] by (metis empty_iff list.set_sel(1) set_mset_empty)
  with assms show ?thesis by (simp add: mmio_ok_def)
qed

text \<open>A new handle owns its descriptor only; when there is no new handle, nothing is kept.\<close>

definition xopened :: "xenv \<Rightarrow> xfpga \<Rightarrow> fpga_result \<Rightarrow> ptr option \<Rightarrow> xfpga \<Rightarrow> bool" where
  "xopened E s r out s' \<longleftrightarrow>
     xf_io s' = xf_io s \<and> xf_tokens s' = xf_tokens s \<and> xf_ctr s' = xf_ctr s \<and> xf_brk s \<le> xf_brk s' \<and>
     ((r \<noteq> FPGA_OK \<and> out = None \<and> xf_handles s' = xf_handles s \<and>
        (\<forall>x. xbalance E (xf_calls s') x = xbalance E (xf_calls s) x)) \<or>
      (\<exists>h. r = FPGA_OK \<and> out = Some (xf_brk s) \<and> xf_brk s < xf_brk s' \<and>
        xf_handles s' = (xf_handles s)(xf_brk s \<mapsto> h) \<and> xhandle_ok E (xf_ctr s) h \<and>
        entries (xh_wsid_root h) = {#} \<and>
        (\<forall>x. xbalance E (xf_calls s') x = xbalance E (xf_calls s) x + xowned h x)))"

lemma open_device_opened:
  assumes "wsid_inv mr" "entries mr = {#}" "entries wr = {#}" "wsid_inv wr"
    and "s1 = s\<lparr>xf_brk := Suc (xf_brk s), xf_calls := cs\<rparr>" "\<And>x. xbalance E cs x = xbalance E (xf_calls s) x"
  shows "case open_device E (xf_brk s) token t flags mr wr s1 of (r, out, s') \<Rightarrow> xopened E s r out s'"
proof -
  obtain r out s' where o: "open_device E (xf_brk s) token t flags mr wr s1 = (r, out, s')" by (metis prod_cases3)
  let ?c1 = "X_open (xt_devpath t) (flags AND FPGA_OPEN_SHARED = 0)"
  let ?fd = "xans E cs ?c1"
  let ?h = "\<lparr>xh_magic = FPGA_HANDLE_MAGIC, xh_token = token, xh_fddev = ?fd, xh_fdfpgad = -1,
            xh_wsid_root = wr, xh_mmio_root = mr, xh_umsg_virt = 0, xh_umsg_size = 0, xh_umsg_iova = 0,
            xh_flags = (if cpu_avx512f E then OPAE_FLAG_HAS_MMX512 else 0)\<rparr>"
  let ?ok = "0 \<le> ?fd \<and> xans E (?c1 # cs) X_attr_init = 0 \<and> xans E (X_attr_init # ?c1 # cs) X_attr_settype = 0 \<and>
      xans E (X_attr_settype # X_attr_init # ?c1 # cs) X_mutex_init = 0"
  have "xopened E s r out s'"
  proof (cases ?ok)
    case True
    have "xhandle_ok E (xf_ctr s) ?h" using True assms(1-4) by (simp add: xhandle_ok_def mmio_ok_empty)
    moreover have "xowned ?h x = of_bool (x = X_fd ?fd)" for x
      using assms(2,3) by (simp add: xowned_def buffers_owned_def umsg_owned_def)
    ultimately show ?thesis
      using o True assms(3,5,6) by (auto simp: open_device_def xsys_def xopened_def)
  next
    case False
    have "r \<noteq> FPGA_OK \<and> out = None \<and> xf_io s' = xf_io s \<and> xf_tokens s' = xf_tokens s \<and> xf_ctr s' = xf_ctr s \<and>
        xf_brk s \<le> xf_brk s' \<and> xf_handles s' = xf_handles s \<and> (\<forall>x. xbalance E (xf_calls s') x = xbalance E cs x)"
      using o False assms(5) by (auto simp: open_device_def xsys_def split: if_split_asm)
    with assms(6) show ?thesis by (simp add: xopened_def)
  qed
  with o show ?thesis by simp
qed

lemma open_opened:
  assumes "kind E" "xfpga_fpgaOpen E token b flags s = Some (r, out, s')" "NULL < xf_brk s"
  shows "xopened E s r out s'"
proof -
  let ?s1 = "s\<lparr>xf_calls := X_malloc # xf_calls s, xf_brk := Suc (xf_brk s)\<rparr>"
  have m: "xmalloc E s = (xf_brk s, ?s1)" using assms(1) by (simp add: xmalloc_def xsys_def kindD)
  obtain mr where mr: "tracker_init E 4 ?s1 = (Some mr, ?s1\<lparr>xf_calls := X_malloc # X_malloc # xf_calls ?s1\<rparr>)"
      "wsid_inv mr" "entries mr = {#}"
    using tracker_init_eq [OF assms(1), of 4] by fastforce
  let ?s2 = "?s1\<lparr>xf_calls := X_malloc # X_malloc # xf_calls ?s1\<rparr>"
  obtain wr where wr: "tracker_init E 16384 ?s2 = (Some wr, ?s2\<lparr>xf_calls := X_malloc # X_malloc # xf_calls ?s2\<rparr>)"
      "wsid_inv wr" "entries wr = {#}"
    using tracker_init_eq [OF assms(1), of 16384] by fastforce
  let ?s3 = "?s2\<lparr>xf_calls := X_malloc # X_malloc # xf_calls ?s2\<rparr>"
  have "s' = s \<and> r = FPGA_INVALID_PARAM \<and> out = None \<or>
      (\<exists>t. open_device E (xf_brk s) token t flags mr wr ?s3 = (r, out, s'))"
    using assms(2,3) m mr(1) wr(1) by (auto simp: xfpga_fpgaOpen_def split: if_split_asm Option.bind_split_asm)
  moreover have o: "case open_device E (xf_brk s) token t flags mr wr ?s3 of (r, out, s') \<Rightarrow> xopened E s r out s'" for t
    by (rule open_device_opened [where cs = "xf_calls ?s3"]) (use mr wr in simp_all)
  ultimately consider "s' = s" "r = FPGA_INVALID_PARAM" "out = None"
    | t where "open_device E (xf_brk s) token t flags mr wr ?s3 = (r, out, s')" by blast
  then show ?thesis
  proof cases
    case 1
    then show ?thesis by (simp add: xopened_def)
  next
    case (2 t)
    with o [of t] show ?thesis by simp
  qed
qed

text \<open>Closing gives back what the handle owns, the shared buffers apart.\<close>

lemma free_umsg_spent:
  assumes "kind E" "xf_io s = Some d" "xf_handles s p = Some h" "xhandle_ok E c h" "p \<noteq> NULL"
  shows "\<exists>h' s'. free_umsg_buffer E p s = Some (FPGA_OK, None, s') \<and> xf_io s' = xf_io s \<and> xf_tokens s' = xf_tokens s \<and>
    xf_brk s' = xf_brk s \<and> xf_ctr s' = xf_ctr s \<and> xf_handles s' = (xf_handles s)(p \<mapsto> h') \<and>
    (\<forall>r. xbalance E (xf_calls s') r = xbalance E (xf_calls s) r - umsg_owned h r)"
proof -
  let ?s1 = "s\<lparr>xf_calls := X_lock # xf_calls s\<rparr>"
  have lock: "xhandle_check_and_lock E p s = Some (FPGA_OK, ?s1)"
    using assms by (simp add: xhandle_check_and_lock_def xsys_def kindD xhandle_ok_def)
  show ?thesis
  proof (cases "xh_umsg_virt h = 0")
    case True
    then show ?thesis using lock assms(3)
      by (intro exI [of _ h] exI [of _ "xunlock E ?s1"])
        (auto simp: free_umsg_buffer_def with_xhandle_def umsg_owned_def xunlock_def xsys_def)
  next
    case False
    obtain r2 s2 where 2: "opae_port_umsg_disable E (xh_fddev h) ?s1 = (r2, s2)" by fastforce
    obtain r3 s3 where 3: "opae_port_umsg_set_base_addr E (xh_fddev h) 0 0 s2 = (r3, s3)" by fastforce
    obtain r4 s4 where 4: "opae_port_unmap E (xh_fddev h) (xh_umsg_iova h) s3 = (r4, s4)" by fastforce
    obtain r5 s5 where 5: "free_buffer E (xh_umsg_virt h) (xh_umsg_size h) s4 = (r5, s5)" by fastforce
    have q: "xquiet E s s3"
      using xquiet_trans [OF driver_quiet(6) [OF 2] driver_quiet(4) [OF 3]] by (auto simp: xquiet_def)
    note sp = xquiet_spent [OF q free_parts(1) [OF assms(1) _ 4 5], of d]
    let ?s6 = "upd_xhandle p (\<lambda>h. h\<lparr>xh_umsg_virt := 0, xh_umsg_size := 0, xh_umsg_iova := 0\<rparr>) s5"
    have f: "free_umsg_buffer E p s = Some (FPGA_OK, None, xunlock E ?s6)"
      using lock assms(3) 2 3 4 5 False by (simp add: free_umsg_buffer_def with_xhandle_def)
    show ?thesis
      using f sp xquietD(2) [OF q] assms(2,3) False
      by (intro exI [of _ "h\<lparr>xh_umsg_virt := 0, xh_umsg_size := 0, xh_umsg_iova := 0\<rparr>"] exI [of _ "xunlock E ?s6"])
        (auto simp: xunlock_def xsys_def upd_xhandle_def xspentD umsg_owned_def)
  qed
qed

lemma unmap_regions_spent:
  assumes "kind E"
  shows "xspent E (\<lambda>r. - (\<Sum>e\<leftarrow>es. mmio_owned e r)) s (fold (unmap_mmio_region E) es s)"
proof (induction es arbitrary: s)
  case Nil
  show ?case by (auto simp: xspent_def intro: exI [of _ "xf_calls s"])
next
  case (Cons e es)
  have "xspent E (\<lambda>r. - mmio_owned e r) s (unmap_mmio_region E e s)"
    using assms by (auto simp: unmap_mmio_region_def xsys_def xspent_def mmio_owned_def kindD)
  from xspent_trans [OF this Cons.IH] show ?case by (simp add: algebra_simps)
qed

lemma close_spent:
  assumes "kind E" "xf_io s = Some d" "xf_handles s p = Some h" "xhandle_ok E (xf_ctr s) h" "p \<noteq> NULL"
  shows "\<exists>s'. xfpga_fpgaClose E p s = Some (FPGA_OK, s') \<and> xf_io s' = xf_io s \<and> xf_tokens s' = xf_tokens s \<and>
    xf_brk s' = xf_brk s \<and> xf_ctr s' = xf_ctr s \<and> xf_handles s' = (xf_handles s)(p := None) \<and>
    (\<forall>r. xbalance E (xf_calls s') r = xbalance E (xf_calls s) r - xowned h r + buffers_owned h r)"
proof -
  let ?s1 = "s\<lparr>xf_calls := X_lock # xf_calls s\<rparr>"
  have lock: "xhandle_check_and_lock E p s = Some (FPGA_OK, ?s1)"
    using assms by (simp add: xhandle_check_and_lock_def xsys_def kindD xhandle_ok_def)
  let ?es = "concat (table (xh_mmio_root h))"
  let ?s2 = "fold (unmap_mmio_region E) ?es ?s1"
  have u: "xspent E (\<lambda>r. - (\<Sum>e\<leftarrow>?es. mmio_owned e r)) s ?s2"
    by (rule xquiet_spent [OF _ unmap_regions_spent [OF assms(1)]]) (auto simp: xquiet_def)
  obtain h' s3 where 3: "free_umsg_buffer E p ?s2 = Some (FPGA_OK, None, s3)" "xf_io s3 = xf_io ?s2"
      "xf_tokens s3 = xf_tokens ?s2" "xf_brk s3 = xf_brk ?s2" "xf_ctr s3 = xf_ctr ?s2"
      "xf_handles s3 = (xf_handles ?s2)(p \<mapsto> h')"
      "\<And>r. xbalance E (xf_calls s3) r = xbalance E (xf_calls ?s2) r - umsg_owned h r"
    using free_umsg_spent [of E ?s2 d p h "xf_ctr s"] assms xspentD [OF u] by auto
  have sum: "(\<Sum>e\<leftarrow>?es. mmio_owned e r) = (\<Sum>e\<in>#entries (xh_mmio_root h). mmio_owned e r)" for r
    by (simp add: entries_def flip: sum_mset_sum_list)
  show ?thesis
    using lock assms(3,4) 3 xspentD [OF u] sum
    by (auto simp: xfpga_fpgaClose_def wsid_tracker_cleanup_def cleanup_table_None cleanup_table_Some xsys_def
        xunlock_def xhandle_ok_def xowned_def)
qed

subsection \<open>Runs of the plugin\<close>

text \<open>Calls of the plugin, and a sequence of them; None when the C behaviour is undefined.\<close>

datatype xop =
    Call_open ptr u32
  | Call_close ptr
  | Call_write32 ptr u32 u64 u32
  | Call_read32 ptr u32 u64
  | Call_write64 ptr u32 u64 u64
  | Call_read64 ptr u32 u64
  | Call_write512 ptr u32 u64 "u8 list"
  | Call_map ptr u32 bool
  | Call_unmap ptr u32
  | Call_prepare ptr u64 "u64 option" bool u32
  | Call_release ptr u64
  | Call_io_address ptr u64
  | Call_num_umsg ptr bool
  | Call_umsg_attributes ptr u64
  | Call_umsg_ptr ptr bool
  | Call_trigger ptr u64
  | Call_reset ptr
  | Call_assign ptr u32 u32 u32

definition final_state :: "(fpga_result \<times> 'a \<times> xfpga) option \<Rightarrow> xfpga option" where
  "final_state x = map_option (\<lambda>(_, _, s). s) x"

fun xop_run :: "xenv \<Rightarrow> xop \<Rightarrow> xfpga \<Rightarrow> xfpga option" where
  "xop_run E (Call_open t fl) s = final_state (xfpga_fpgaOpen E t True fl s)"
| "xop_run E (Call_close p) s = map_option snd (xfpga_fpgaClose E p s)"
| "xop_run E (Call_write32 p i off v) s = final_state (xfpga_fpgaWriteMMIO32 E p i off v s)"
| "xop_run E (Call_read32 p i off) s = final_state (xfpga_fpgaReadMMIO32 E p i off s)"
| "xop_run E (Call_write64 p i off v) s = final_state (xfpga_fpgaWriteMMIO64 E p i off v s)"
| "xop_run E (Call_read64 p i off) s = final_state (xfpga_fpgaReadMMIO64 E p i off s)"
| "xop_run E (Call_write512 p i off v) s = final_state (xfpga_fpgaWriteMMIO512 E p i off v s)"
| "xop_run E (Call_map p i b) s = final_state (xfpga_fpgaMapMMIO E p i b s)"
| "xop_run E (Call_unmap p i) s = final_state (xfpga_fpgaUnmapMMIO E p i s)"
| "xop_run E (Call_prepare p len a b fl) s = final_state (xfpga_fpgaPrepareBuffer E p len a b fl s)"
| "xop_run E (Call_release p w) s = final_state (xfpga_fpgaReleaseBuffer E p w s)"
| "xop_run E (Call_io_address p w) s = final_state (xfpga_fpgaGetIOAddress E p w s)"
| "xop_run E (Call_num_umsg p b) s = final_state (xfpga_fpgaGetNumUmsg E p b s)"
| "xop_run E (Call_umsg_attributes p v) s = final_state (xfpga_fpgaSetUmsgAttributes E p v s)"
| "xop_run E (Call_umsg_ptr p b) s = final_state (xfpga_fpgaGetUmsgPtr E p b s)"
| "xop_run E (Call_trigger p v) s = final_state (xfpga_fpgaTriggerUmsg E p v s)"
| "xop_run E (Call_reset p) s = final_state (xfpga_fpgaReset E p s)"
| "xop_run E (Call_assign p i slot fl) s = final_state (xfpga_fpgaAssignPortToInterface E p i slot fl s)"

text \<open>The buffers that were not released when their handle is closed.\<close>

fun xop_leak :: "xop \<Rightarrow> xfpga \<Rightarrow> xresource \<Rightarrow> int" where
  "xop_leak (Call_close p) s r = (case xf_handles s p of None \<Rightarrow> 0 | Some h \<Rightarrow> buffers_owned h r)"
| "xop_leak _ s r = 0"

fun xruns :: "xenv \<Rightarrow> xop list \<Rightarrow> xfpga \<Rightarrow> (xfpga \<times> (xresource \<Rightarrow> int)) option" where
  "xruns E [] s = Some (s, \<lambda>_. 0)"
| "xruns E (op # ops) s = do {
     s1 \<leftarrow> xop_run E op s;
     (s2, l) \<leftarrow> xruns E ops s1;
     Some (s2, \<lambda>r. xop_leak op s r + l r)
   }"

text \<open>The plugin with room for \<open>n\<close> more ids, and what the kernel has granted beyond what handles own.\<close>

definition xplugin_ok :: "xenv \<Rightarrow> nat \<Rightarrow> xfpga \<Rightarrow> bool" where
  "xplugin_ok E n s \<longleftrightarrow> xf_io s \<noteq> None \<and> NULL < xf_brk s \<and> finite (dom (xf_handles s)) \<and>
     unat (xf_ctr s) + n < 2 ^ 64 \<and>
     (\<forall>p h. xf_handles s p = Some h \<longrightarrow> NULL < p \<and> p < xf_brk s \<and> xhandle_ok E (xf_ctr s) h)"

definition handles_owned :: "xfpga \<Rightarrow> xresource \<Rightarrow> int" where
  "handles_owned s r = (\<Sum>p\<in>dom (xf_handles s). xowned (the (xf_handles s p)) r)"

lemma sum_dom_upd:
  fixes f :: "'a \<Rightarrow> int"
  assumes "finite (dom m)"
  shows "m p = None \<Longrightarrow> (\<Sum>q\<in>dom (m(p \<mapsto> h)). f (the ((m(p \<mapsto> h)) q))) = (\<Sum>q\<in>dom m. f (the (m q))) + f h"
    and "m p = Some h' \<Longrightarrow> (\<Sum>q\<in>dom (m(p := None)). f (the ((m(p := None)) q))) = (\<Sum>q\<in>dom m. f (the (m q))) - f h'"
    and "m p = Some h' \<Longrightarrow> (\<Sum>q\<in>dom (m(p \<mapsto> h)). f (the ((m(p \<mapsto> h)) q))) = (\<Sum>q\<in>dom m. f (the (m q))) - f h' + f h"
proof -
  have same: "(\<Sum>q\<in>A - {p}. f (the ((m(p := x)) q))) = (\<Sum>q\<in>A - {p}. f (the (m q)))" for x A
    by (rule sum.cong) auto
  show "m p = None \<Longrightarrow> (\<Sum>q\<in>dom (m(p \<mapsto> h)). f (the ((m(p \<mapsto> h)) q))) = (\<Sum>q\<in>dom m. f (the (m q))) + f h"
    using assms same [of "Some h" "dom m"] by (simp add: sum.insert_remove domIff)
  show "m p = Some h' \<Longrightarrow> (\<Sum>q\<in>dom (m(p := None)). f (the ((m(p := None)) q))) = (\<Sum>q\<in>dom m. f (the (m q))) - f h'"
    using assms same [of None "dom m"] sum.remove [of "dom m" p "\<lambda>q. f (the (m q))"] by (simp add: domI)
  show "m p = Some h' \<Longrightarrow> (\<Sum>q\<in>dom (m(p \<mapsto> h)). f (the ((m(p \<mapsto> h)) q))) = (\<Sum>q\<in>dom m. f (the (m q))) - f h' + f h"
    using assms same [of "Some h" "dom m"] sum.remove [of "dom m" p "\<lambda>q. f (the (m q))"]
    by (simp add: sum.insert_remove domI)
qed

lemma with_xhandle_None:
  "xf_handles s p = None \<Longrightarrow> with_xhandle E p body s = Some (r, x, s') \<Longrightarrow> s' = s"
  by (auto simp: with_xhandle_def xhandle_check_and_lock_def split: if_split_asm)

fun op_handle :: "xop \<Rightarrow> ptr option" where
  "op_handle (Call_open t fl) = None"
| "op_handle (Call_close p) = None"
| "op_handle (Call_write32 p i off v) = Some p"
| "op_handle (Call_read32 p i off) = Some p"
| "op_handle (Call_write64 p i off v) = Some p"
| "op_handle (Call_read64 p i off) = Some p"
| "op_handle (Call_write512 p i off v) = Some p"
| "op_handle (Call_map p i b) = Some p"
| "op_handle (Call_unmap p i) = Some p"
| "op_handle (Call_prepare p len a b fl) = Some p"
| "op_handle (Call_release p w) = Some p"
| "op_handle (Call_io_address p w) = Some p"
| "op_handle (Call_num_umsg p b) = Some p"
| "op_handle (Call_umsg_attributes p v) = Some p"
| "op_handle (Call_umsg_ptr p b) = Some p"
| "op_handle (Call_trigger p v) = Some p"
| "op_handle (Call_reset p) = Some p"
| "op_handle (Call_assign p i slot fl) = Some p"

lemma handle_op_step:
  assumes "kind E" "xop_run E op s = Some s'" "op_handle op = Some p" "xf_handles s p = Some h"
    and "xhandle_ok E (xf_ctr s) h" "xf_ctr s < xf_ctr s + 1" "xf_io s = Some d"
  shows "xstep E p s s'"
  using assms(2,3)
  by (cases op) (auto simp: final_state_def
      intro: mmio_ops_step [OF assms(1,4-6)] map_ops_step [OF assms(1,4-6)] prepare_step [OF assms(1,4-7)]
        release_step [OF assms(1,4-7)] ioaddress_step [OF assms(1,4-6)] umsgptr_step [OF assms(1,4-7)]
        trigger_step [OF assms(1,4-7)] umsg_ops_step [OF assms(1,4-6)])

lemma handle_op_None:
  assumes "xop_run E op s = Some s'" "op_handle op = Some p" "xf_handles s p = None"
  shows "s' = s"
  using assms
  by (cases op) (auto simp: final_state_def xfpga_fpgaWriteMMIO32_def xfpga_fpgaReadMMIO32_def
      xfpga_fpgaWriteMMIO64_def xfpga_fpgaReadMMIO64_def xfpga_fpgaWriteMMIO512_def xfpga_fpgaMapMMIO_def
      xfpga_fpgaUnmapMMIO_def xfpga_fpgaPrepareBuffer_def xfpga_fpgaReleaseBuffer_def xfpga_fpgaGetIOAddress_def
      xfpga_fpgaGetNumUmsg_def xfpga_fpgaSetUmsgAttributes_def xfpga_fpgaGetUmsgPtr_def xfpga_fpgaTriggerUmsg_def
      xfpga_fpgaReset_def xfpga_fpgaAssignPortToInterface_def split: if_split_asm dest: with_xhandle_None)

lemma xstep_plugin_ok:
  assumes "xstep E p s s'" "xplugin_ok E (Suc n) s"
  shows "xplugin_ok E n s'"
    "xbalance E (xf_calls s') r - handles_owned s' r = xbalance E (xf_calls s) r - handles_owned s r"
proof -
  obtain h h' where st: "xf_handles s p = Some h" "xf_handles s' = (xf_handles s)(p \<mapsto> h')"
      "xhandle_ok E (xf_ctr s') h'" "xf_io s' = xf_io s" "xf_brk s' = xf_brk s"
      "xf_ctr s' = xf_ctr s \<or> xf_ctr s' = xf_ctr s + 1"
      "\<And>r. xbalance E (xf_calls s') r - xowned h' r = xbalance E (xf_calls s) r - xowned h r"
    using assms(1) by (auto simp: xstep_def)
  note ok = assms(2) [unfolded xplugin_ok_def]
  have c: "xf_ctr s \<le> xf_ctr s'" "unat (xf_ctr s') \<le> Suc (unat (xf_ctr s))"
    using st(6) ok by (auto simp: word_le_nat_alt unat_word_ariths)
  have "xhandle_ok E (xf_ctr s') k" if "xf_handles s q = Some k" for q k
    using ok that c(1) by (auto simp: xhandle_ok_def intro: mmio_ok_mono)
  then show "xplugin_ok E n s'"
    using ok st c by (auto simp: xplugin_ok_def dom_fun_upd split: if_split_asm)
  show "xbalance E (xf_calls s') r - handles_owned s' r = xbalance E (xf_calls s) r - handles_owned s r"
    using st(7) [of r] sum_dom_upd(3) [of "xf_handles s" p h "\<lambda>h. xowned h r" h'] ok st(1)
    by (simp add: handles_owned_def st(2))
qed

lemma open_plugin_ok:
  assumes "kind E" "xplugin_ok E n s" "xfpga_fpgaOpen E t b fl s = Some (rr, out, s')"
  shows "xplugin_ok E n s'"
    "xbalance E (xf_calls s') r - handles_owned s' r = xbalance E (xf_calls s) r - handles_owned s r"
proof -
  note ok = assms(2) [unfolded xplugin_ok_def]
  from open_opened [OF assms(1,3)] ok have o: "xopened E s rr out s'" by simp
  have "xf_handles s (xf_brk s) = None" using ok by (metis less_irrefl not_None_eq)
  note d = sum_dom_upd(1) [where m = "xf_handles s" and f = "\<lambda>h. xowned h r", OF _ this]
  show "xplugin_ok E n s'"
    using o ok by (auto simp: xopened_def xplugin_ok_def split: if_split_asm) (meson less_le_trans less_trans)+
  show "xbalance E (xf_calls s') r - handles_owned s' r = xbalance E (xf_calls s) r - handles_owned s r"
    using o ok d by (auto simp: xopened_def handles_owned_def)
qed

lemma close_plugin_ok:
  assumes "kind E" "xplugin_ok E n s" "xfpga_fpgaClose E p s = Some (rr, s')"
  shows "xplugin_ok E n s'"
    "xbalance E (xf_calls s') r - handles_owned s' r =
     xbalance E (xf_calls s) r - handles_owned s r + xop_leak (Call_close p) s r"
proof -
  note ok = assms(2) [unfolded xplugin_ok_def]
  have "xplugin_ok E n s' \<and> xbalance E (xf_calls s') r - handles_owned s' r =
     xbalance E (xf_calls s) r - handles_owned s r + xop_leak (Call_close p) s r"
  proof (cases "xf_handles s p")
    case None
    then have "s' = s" using assms(3)
      by (auto simp: xfpga_fpgaClose_def xhandle_check_and_lock_def split: if_split_asm)
    with assms(2) None show ?thesis by simp
  next
    case (Some h)
    then have h: "xhandle_ok E (xf_ctr s) h" "p \<noteq> NULL" using ok by auto
    from ok obtain d where "xf_io s = Some d" by auto
    from close_spent [OF assms(1) this Some h] assms(3)
    have "xf_io s' = xf_io s" "xf_brk s' = xf_brk s" "xf_ctr s' = xf_ctr s"
        "xf_handles s' = (xf_handles s)(p := None)"
        "\<And>r. xbalance E (xf_calls s') r = xbalance E (xf_calls s) r - xowned h r + buffers_owned h r"
      by auto
    with ok sum_dom_upd(2) [of "xf_handles s" p h "\<lambda>h. xowned h r"] Some show ?thesis
      by (auto simp: xplugin_ok_def handles_owned_def split: if_split_asm)
  qed
  then show "xplugin_ok E n s'" "xbalance E (xf_calls s') r - handles_owned s' r =
     xbalance E (xf_calls s) r - handles_owned s r + xop_leak (Call_close p) s r" by simp_all
qed

lemma xop_ok:
  assumes "kind E" "xplugin_ok E (Suc n) s" "xop_run E op s = Some s'"
  shows "xplugin_ok E n s'"
    "xbalance E (xf_calls s') r - handles_owned s' r = xbalance E (xf_calls s) r - handles_owned s r + xop_leak op s r"
proof -
  note ok = assms(2) [unfolded xplugin_ok_def]
  obtain d where d: "xf_io s = Some d" using ok by auto
  have c: "xf_ctr s < xf_ctr s + 1" using ok by (auto simp: word_less_nat_alt unat_word_ariths)
  have less: "xplugin_ok E n s" using assms(2) by (auto simp: xplugin_ok_def)
  consider (handle) p where "op_handle op = Some p" | (opened) t fl where "op = Call_open t fl"
    | (closed) p where "op = Call_close p"
    by (cases op) auto
  then have "xplugin_ok E n s' \<and> xbalance E (xf_calls s') r - handles_owned s' r =
      xbalance E (xf_calls s) r - handles_owned s r + xop_leak op s r"
  proof cases
    case (handle p)
    have leak: "xop_leak op s r = 0" using handle by (cases op) auto
    show ?thesis
    proof (cases "xf_handles s p")
      case None
      with handle_op_None [OF assms(3) handle] less leak show ?thesis by simp
    next
      case h: (Some h)
      then have "xhandle_ok E (xf_ctr s) h" using ok by auto
      from xstep_plugin_ok [OF handle_op_step [OF assms(1,3) handle h this c d] assms(2)] leak
      show ?thesis by simp
    qed
  next
    case opened
    then obtain rr out where "xfpga_fpgaOpen E t True fl s = Some (rr, out, s')"
      using assms(3) by (auto simp: final_state_def)
    from open_plugin_ok [OF assms(1) less this] opened show ?thesis by simp
  next
    case (closed p)
    then obtain rr where "xfpga_fpgaClose E p s = Some (rr, s')" using assms(3) by auto
    from close_plugin_ok [OF assms(1) less this] closed show ?thesis by simp
  qed
  then show "xplugin_ok E n s'" "xbalance E (xf_calls s') r - handles_owned s' r =
      xbalance E (xf_calls s) r - handles_owned s r + xop_leak op s r" by simp_all
qed

lemma xruns_ok:
  assumes "kind E" "xplugin_ok E (length ops + n) s" "xruns E ops s = Some (s', leak)"
  shows "xplugin_ok E n s' \<and>
    (\<forall>r. xbalance E (xf_calls s') r - handles_owned s' r = xbalance E (xf_calls s) r - handles_owned s r + leak r)"
  using assms(2,3)
proof (induction ops arbitrary: s leak)
  case Nil
  then show ?case by auto
next
  case (Cons op ops)
  then obtain s1 l where s1: "xop_run E op s = Some s1" "xruns E ops s1 = Some (s', l)"
      "leak = (\<lambda>r. xop_leak op s r + l r)"
    by (auto split: Option.bind_split_asm)
  have "xplugin_ok E (Suc (length ops + n)) s" using Cons.prems(1) by simp
  note st = xop_ok [OF assms(1) this s1(1)]
  from Cons.IH [OF st(1) s1(2)] st(2) s1(3) show ?case by auto
qed

end
