(* ===== verification/Xfpga_Correct.thy ===== *)
theory Xfpga_Correct
  imports Xfpga_Runs
begin

section \<open>Correctness of the handles of the xfpga plugin\<close>

text \<open>
  What the runs of the plugin keep, and the properties of the accesses to registers, of the shared
  buffers, of the user messages and of the requests to the driver.
\<close>

subsection \<open>A concrete kernel\<close>

text \<open>
  It answers 7 to \<^verbatim>\<open>open\<close>, grants everything else, gives regions of 4096 bytes and two
  user messages, and maps memory at two addresses.
\<close>

definition demo_xenv :: xenv where
  "demo_xenv = \<lparr>xans = (\<lambda>cs c. case c of X_open p x \<Rightarrow> 7 | X_malloc \<Rightarrow> 1 | _ \<Rightarrow> 0),
     fme_info_reply = (\<lambda>cs. \<lparr>fi_flags = 0, fi_capability = 0\<rparr>),
     port_info_reply = (\<lambda>cs. \<lparr>pi_flags = 0, pi_capability = 2, pi_num_regions = 2, pi_num_umsgs = 2, pi_num_uafu_irqs = 1\<rparr>),
     region_reply = (\<lambda>cs. \<lparr>ri_flags = 7, ri_size = 4096, ri_offset = 0\<rparr>),
     iova_reply = (\<lambda>cs. 0x1000), status_reply = (\<lambda>cs. 0), irqs_reply = (\<lambda>cs. 1),
     map_reply = (\<lambda>cs. 0x40000000), load = (\<lambda>st a. 0), getpid = 4711,
     page_bytes = 4096, cpu_avx512f = False\<rparr>"

lemma demo_kind: "kind demo_xenv"
  by (simp add: kind_def demo_xenv_def)

definition demo_token :: xfpga_token where
  "demo_token = \<lparr>xt_device_instance = 0, xt_subdev_instance = 0, xt_magic = FPGA_TOKEN_MAGIC,
     xt_sysfspath = ''/sys/class/fpga_region/region0/dfl-port.0'', xt_devpath = ''/dev/dfl-port.0'', xt_errors = []\<rparr>"

definition demo_xfpga :: "driver \<Rightarrow> xfpga" where
  "demo_xfpga d = \<lparr>xf_io = Some d, xf_tokens = [1 \<mapsto> demo_token],
     xf_handles = Map.empty, xf_brk = 2, xf_ctr = 0, xf_stores = [], xf_calls = []\<rparr>"

subsection \<open>Resources\<close>

text \<open>
  C14. Start with no handle and run any sequence of calls in an environment where memory never runs out, locks do not
  fail, unmapping and unmapping for DMA always succeed, and nothing is granted at address 0 (\<open>kind\<close>); opening,
  mapping, sharing and every other request can fail. What
  the kernel has granted and not got back (descriptors, mappings, mappings for DMA) is exactly what the
  open handles own, and the buffers that had not been released when their handle was closed. Nothing is
  lost on any other path in such an environment, failed calls included, and nothing is given back twice. Without
  these conditions it is not so: \<open>xfpga_buffer_errors\<close> shows two losses.
\<close>

theorem xfpga_resources:
  assumes "kind E" "xf_io s0 \<noteq> None" "NULL < xf_brk s0" "xf_handles s0 = Map.empty" "xf_calls s0 = []"
    and "unat (xf_ctr s0) + length ops < 2 ^ 64" "xruns E ops s0 = Some (s, leak)"
  shows "xbalance E (xf_calls s) r = handles_owned s r + leak r"
proof -
  have "xplugin_ok E (length ops + 0) s0" using assms by (simp add: xplugin_ok_def)
  from xruns_ok [OF assms(1) this assms(7)] assms(4,5) show ?thesis
    by (simp add: handles_owned_def) (metis add_diff_cancel_left' diff_eq_eq)
qed

definition demo_calls :: "xop list" where
  "demo_calls = [Call_open 1 0, Call_write64 2 0 16 5, Call_prepare 2 4096 (Some 0) True 0, Call_umsg_ptr 2 True, Call_close 2]"

lemmas xop_defs = final_state_def xfpga_fpgaOpen_def xmalloc_def tracker_init_def open_device_def xsys_def
  wsid_tracker_init_def with_xhandle_def xhandle_check_and_lock_def xunlock_def Let_def upd_xhandle_def
  xfpga_fpgaWriteMMIO64_def region_access_def find_or_map_wm_def map_mmio_region_def port_mmap_region_def
  xmmap_def wsid_gen_def add_mmio_def store_to_def xfpga_fpgaPrepareBuffer_def whole_pages_def xbuffer_allocate_def
  share_buffer_def add_buffer_def xfpga_fpgaGetUmsgPtr_def map_umsg_def alloc_buffer_def free_umsg_buffer_def
  umsg_map_exit_def free_buffer_def xfpga_fpgaTriggerUmsg_def
  xfpga_fpgaClose_def wsid_tracker_cleanup_def cleanup_table_None unmap_mmio_region_def
  wsid_add_def wsid_find_by_index_def wsid_find_def wsid_hash_def drv_defs

lemmas xconst_defs = FPGA_TOKEN_MAGIC_def FPGA_HANDLE_MAGIC_def FPGA_OPEN_SHARED_def OPAE_FLAG_HAS_MMX512_def
  AFU_PERMISSION_def FPGA_BUF_PREALLOCATED_def FPGA_BUF_QUIET_def FPGA_BUF_READ_ONLY_def FPGA_DMA_TO_DEV_def
  map_kind_def mapped_len_def KB_def MB_def GB_def EINVAL_def ENOTSUP_def

lemma demo_xenv_sel:
  "xans demo_xenv cs c = (case c of X_open p x \<Rightarrow> 7 | X_malloc \<Rightarrow> 1 | _ \<Rightarrow> 0)"
  "port_info_reply demo_xenv cs = \<lparr>pi_flags = 0, pi_capability = 2, pi_num_regions = 2, pi_num_umsgs = 2, pi_num_uafu_irqs = 1\<rparr>"
  "region_reply demo_xenv cs = \<lparr>ri_flags = 7, ri_size = 4096, ri_offset = 0\<rparr>"
  "iova_reply demo_xenv cs = 0x1000" "map_reply demo_xenv cs = 0x40000000" "load demo_xenv st a = 0"
  "getpid demo_xenv = 4711" "page_bytes demo_xenv = 4096" "\<not> cpu_avx512f demo_xenv"
  by (simp_all add: demo_xenv_def)

lemma replicate_4: "replicate 4 x = [x, x, x, x]"
  by (simp add: eval_nat_numeral)

lemmas demo_simps = demo_xfpga_def demo_token_def demo_xenv_sel replicate_4 xop_defs xconst_defs

lemma demo_run:
  "\<exists>s leak. xruns demo_xenv demo_calls (demo_xfpga Intel) = Some (s, leak) \<and> xf_handles s = Map.empty \<and>
     xbalance demo_xenv (xf_calls s) (X_dma 7 0x1000) = 1"
  by (simp add: demo_calls_def demo_simps)

theorem xfpga_resources_witness:
  "\<exists>s leak. xruns demo_xenv demo_calls (demo_xfpga Intel) = Some (s, leak) \<and> leak (X_dma 7 0x1000) = 1"
proof -
  obtain s leak where r: "xruns demo_xenv demo_calls (demo_xfpga Intel) = Some (s, leak)"
      "xf_handles s = Map.empty" "xbalance demo_xenv (xf_calls s) (X_dma 7 0x1000) = 1"
    using demo_run by blast
  have "xbalance demo_xenv (xf_calls s) (X_dma 7 0x1000) = handles_owned s (X_dma 7 0x1000) + leak (X_dma 7 0x1000)"
    by (rule xfpga_resources [OF demo_kind _ _ _ _ _ r(1)]) (simp_all add: demo_xfpga_def demo_calls_def)
  with r show ?thesis by (auto simp: handles_owned_def)
qed

subsection \<open>Register regions\<close>

lemma find_or_map_exact:
  assumes "kind E" "find_or_map_wm E p i s = Some (r, wm, s')" "xf_handles s p = Some h" "xhandle_ok E (xf_ctr s) h"
    and "xf_ctr s < xf_ctr s + 1" "r = FPGA_OK"
  obtains e t' where "wm = Some e" "wm_index e = i" "xf_handles s' = (xf_handles s)(p \<mapsto> h\<lparr>xh_mmio_root := t'\<rparr>)"
    "wsid_find_by_index t' i = Some e" "xhandle_ok E (xf_ctr s') (h\<lparr>xh_mmio_root := t'\<rparr>)"
    "wsid_find_by_index (xh_mmio_root h) i = None \<Longrightarrow> wm_addr e = wm_offset e"
    "wsid_find_by_index (xh_mmio_root h) i = None \<Longrightarrow> entries t' = add_mset e (entries (xh_mmio_root h))"
    "wsid_find_by_index (xh_mmio_root h) i = Some e \<Longrightarrow> t' = xh_mmio_root h \<and> s' = s"
    "\<And>r. wsid_find_by_index (xh_mmio_root h) i = None \<Longrightarrow>
      xbalance E (xf_calls s') r = xbalance E (xf_calls s) r + mmio_owned e r"
proof (cases "wsid_find_by_index (xh_mmio_root h) i")
  case (Some e)
  then have "wm = Some e" "s' = s" using assms(2,3) by (auto simp: find_or_map_wm_def)
  with Some assms(3,4) find_by_index_Some [OF Some] show ?thesis
    by (intro that [of e "xh_mmio_root h"]) auto
next
  case None
  obtain r1 where m: "map_mmio_region E p i s = Some (r1, s')" "r1 \<noteq> FPGA_OK \<longrightarrow> r = r1"
    using assms(2,3) None by (auto simp: find_or_map_wm_def split: Option.bind_splits if_splits option.splits)
  show ?thesis
  proof (cases rule: map_region_cases [OF assms(1) m(1) assms(3,4,5) None])
    case 1
    with m(2) assms(6) show ?thesis by simp
  next
    case (2 e t')
    have "wsid_find_by_index t' i \<noteq> None"
      unfolding find_by_index_None using 2(2,4) by auto
    then obtain e' where e': "wsid_find_by_index t' i = Some e'" by auto
    have "e' = e"
      using find_by_index_Some [OF e'] None 2(4) by (auto simp: find_by_index_None)
    with e' have f: "wsid_find_by_index t' i = Some e" by simp
    have "wm = Some e"
      using assms(2,3) None m(1) 2(1,5) f by (simp add: find_or_map_wm_def)
    with 2 f None show ?thesis by (intro that [of e t']) simp_all
  qed
qed

text \<open>The frame of a call, when the lock is available.\<close>

definition locked :: "xfpga \<Rightarrow> xfpga" where
  "locked s = s\<lparr>xf_calls := X_lock # xf_calls s\<rparr>"

lemma locked_sel [simp]:
  "xf_handles (locked s) = xf_handles s" "xf_io (locked s) = xf_io s" "xf_ctr (locked s) = xf_ctr s"
  "xf_stores (locked s) = xf_stores s" "xf_tokens (locked s) = xf_tokens s" "xf_brk (locked s) = xf_brk s"
  "xbalance E (xf_calls (locked s)) r = xbalance E (xf_calls s) r"
  by (simp_all add: locked_def)

lemma xunlock_sel [simp]:
  "xf_handles (xunlock E s) = xf_handles s" "xf_io (xunlock E s) = xf_io s" "xf_ctr (xunlock E s) = xf_ctr s"
  "xf_stores (xunlock E s) = xf_stores s" "xf_tokens (xunlock E s) = xf_tokens s" "xf_brk (xunlock E s) = xf_brk s"
  "xbalance E (xf_calls (xunlock E s)) r = xbalance E (xf_calls s) r"
  by (simp_all add: xunlock_def xsys_def)

lemma with_xhandle_eq:
  assumes "xans E (xf_calls s) X_lock = 0" "xf_handles s p = Some h" "xh_magic h = FPGA_HANDLE_MAGIC" "p \<noteq> NULL"
  shows "with_xhandle E p body s = do {
    (result, out, s) \<leftarrow> body h (locked s); Some (result, out, xunlock E s) }"
  using assms by (simp add: with_xhandle_def xhandle_check_and_lock_def xsys_def locked_def)

lemma with_xhandle_ok:
  assumes "kind E" "xf_handles s p = Some h" "xhandle_ok E c h" "p \<noteq> NULL"
  shows "with_xhandle E p body s = do {
    (result, out, s) \<leftarrow> body h (locked s); Some (result, out, xunlock E s) }"
  by (rule with_xhandle_eq) (use assms in \<open>simp_all add: kindD xhandle_ok_def\<close>)

lemma mmio_del_gone:
  assumes "mmio_ok E c t" "wsid_find_by_index t i = Some e"
  shows "wsid_find_by_index (snd (wsid_del t (wm_wsid e))) i = None"
proof (rule ccontr)
  let ?t = "snd (wsid_del t (wm_wsid e))"
  note e = find_by_index_Some [OF assms(2)]
  note d = mmio_ok_del(3) [OF assms(1) e [THEN conjunct1]]
  assume "wsid_find_by_index ?t i \<noteq> None"
  then obtain x where "x \<in># entries ?t" "wm_index x = i" using find_by_index_None [of ?t i] by metis
  then have "x \<in># filter_mset (\<lambda>x. wm_index x = i) (entries ?t)" by simp
  then have "size (filter_mset (\<lambda>x. wm_index x = i) (entries ?t)) \<noteq> 0" by auto
  moreover have "size (filter_mset (\<lambda>x. wm_index x = i) (entries t)) \<le> 1"
    using assms(1) by (simp add: mmio_ok_def)
  ultimately show False unfolding d using e by auto
qed

text \<open>
  C17. Mapping a register region for a client is idempotent and reversible: once it has succeeded it gives the
  same address again and asks the kernel for nothing, the region is in the table of the handle,
  and unmapping it gives back what the kernel had granted for it, if it was this call that mapped it,
  and takes the region off the table.
\<close>

theorem xfpga_map_roundtrip:
  assumes "kind E" "xf_handles s p = Some h" "xhandle_ok E (xf_ctr s) h" "xf_ctr s < xf_ctr s + 1" "p \<noteq> NULL"
    and "xfpga_fpgaMapMMIO E p i True s = Some (FPGA_OK, Some a, s1)"
  shows "(\<exists>s2. xfpga_fpgaMapMMIO E p i True s1 = Some (FPGA_OK, Some a, s2) \<and>
      xf_handles s2 = xf_handles s1 \<and> (\<forall>r. xbalance E (xf_calls s2) r = xbalance E (xf_calls s1) r)) \<and>
    (\<exists>s2 h2. xfpga_fpgaUnmapMMIO E p i s1 = Some (FPGA_OK, None, s2) \<and> xf_handles s2 = (xf_handles s)(p \<mapsto> h2) \<and>
      wsid_find_by_index (xh_mmio_root h2) i = None \<and>
      (wsid_find_by_index (xh_mmio_root h) i = None \<longrightarrow>
        (\<forall>r. xbalance E (xf_calls s2) r = xbalance E (xf_calls s) r) \<and>
        entries (xh_mmio_root h2) = entries (xh_mmio_root h)))"
proof -
  obtain wm sm where m: "find_or_map_wm E p i (locked s) = Some (FPGA_OK, wm, sm)" "s1 = xunlock E sm"
      "map_option wm_addr wm = Some a"
    using assms(6) unfolding xfpga_fpgaMapMMIO_def with_xhandle_ok [OF assms(1-3,5)]
    by (auto split: Option.bind_split_asm)
  have l: "xf_handles (locked s) p = Some h" "xhandle_ok E (xf_ctr (locked s)) h" "xf_ctr (locked s) < xf_ctr (locked s) + 1"
    using assms(2-4) by simp_all
  obtain e t' where e: "wm = Some e" "wm_index e = i" "xf_handles sm = (xf_handles s)(p \<mapsto> h\<lparr>xh_mmio_root := t'\<rparr>)"
      "wsid_find_by_index t' i = Some e" "xhandle_ok E (xf_ctr sm) (h\<lparr>xh_mmio_root := t'\<rparr>)"
      "wsid_find_by_index (xh_mmio_root h) i = None \<Longrightarrow> entries t' = add_mset e (entries (xh_mmio_root h))"
      "\<And>r. wsid_find_by_index (xh_mmio_root h) i = None \<Longrightarrow>
        xbalance E (xf_calls sm) r = xbalance E (xf_calls s) r + mmio_owned e r"
    by (rule find_or_map_exact [OF assms(1) m(1) l refl]) (rule that; simp)
  let ?h = "h\<lparr>xh_mmio_root := t'\<rparr>"
  have h1: "xf_handles s1 p = Some ?h" "xhandle_ok E (xf_ctr sm) ?h" using m(2) e(3,5) by simp_all
  note frame = with_xhandle_ok [OF assms(1) h1 assms(5)]
  have again: "\<exists>s2. xfpga_fpgaMapMMIO E p i True s1 = Some (FPGA_OK, Some a, s2) \<and>
      xf_handles s2 = xf_handles s1 \<and> (\<forall>r. xbalance E (xf_calls s2) r = xbalance E (xf_calls s1) r)"
    using h1 e(1,4) m(3) by (simp add: xfpga_fpgaMapMMIO_def frame find_or_map_wm_def)
  have ok: "mmio_ok E (xf_ctr sm) t'" using e(5) by (simp add: xhandle_ok_def)
  note d = mmio_ok_del [OF ok find_by_index_Some [OF e(4), THEN conjunct1]]
  let ?t = "snd (wsid_del t' (wm_wsid e))"
  note gone = mmio_del_gone [OF ok e(4)]
  have gives: "\<exists>s2. xfpga_fpgaUnmapMMIO E p i s1 = Some (FPGA_OK, None, s2) \<and>
      xf_handles s2 = (xf_handles s1)(p \<mapsto> ?h\<lparr>xh_mmio_root := ?t\<rparr>) \<and>
      (\<forall>r. xbalance E (xf_calls s2) r = xbalance E (xf_calls s1) r - mmio_owned e r)"
    using h1 e(4) assms(1) by (simp add: xfpga_fpgaUnmapMMIO_def frame xsys_def kindD upd_xhandle_def mmio_owned_def)
  then obtain s2 where s2: "xfpga_fpgaUnmapMMIO E p i s1 = Some (FPGA_OK, None, s2)"
      "xf_handles s2 = (xf_handles s1)(p \<mapsto> ?h\<lparr>xh_mmio_root := ?t\<rparr>)"
      "\<And>r. xbalance E (xf_calls s2) r = xbalance E (xf_calls s1) r - mmio_owned e r"
    by auto
  have "wsid_find_by_index (xh_mmio_root h) i = None \<Longrightarrow> entries ?t = entries (xh_mmio_root h)"
    using e(6) d(3) by simp
  with again s2 gone e(3,7) m(2) show ?thesis by auto
qed

text \<open>A handle that the demo kernel has opened.\<close>

definition demo_table :: "u32 \<Rightarrow> wsid_tracker" where
  "demo_table n = \<lparr>n_hash_buckets = ucast n, table = replicate (unat n) []\<rparr>"

definition demo_h :: xfpga_handle where
  "demo_h = \<lparr>xh_magic = FPGA_HANDLE_MAGIC, xh_token = 1, xh_fddev = 7, xh_fdfpgad = -1,
     xh_wsid_root = demo_table 16384, xh_mmio_root = demo_table 4,
     xh_umsg_virt = 0, xh_umsg_size = 0, xh_umsg_iova = 0, xh_flags = 0\<rparr>"

definition demo_opened :: "driver \<Rightarrow> xfpga" where
  "demo_opened d = (demo_xfpga d)\<lparr>xf_handles := [2 \<mapsto> demo_h], xf_brk := 3\<rparr>"

lemma demo_table_ok:
  assumes "0 < n" "n \<le> 16384"
  shows "wsid_inv (demo_table n)" "entries (demo_table n) = {#}" "wsid_stack (demo_table n) = (\<lambda>_. [])"
proof -
  have "wsid_tracker_init True True n = Some (demo_table n)"
    using assms by (auto simp: wsid_tracker_init_def demo_table_def)
  from wsid_tracker_init_inv [OF this] show "wsid_inv (demo_table n)" "wsid_stack (demo_table n) = (\<lambda>_. [])" by simp_all
  show "entries (demo_table n) = {#}" by (simp add: demo_table_def entries_def)
qed

lemma demo_h_ok: "xhandle_ok demo_xenv c demo_h"
  using demo_table_ok [of 4] demo_table_ok [of 16384]
  by (simp add: demo_h_def xhandle_ok_def mmio_ok_empty)

lemma demo_opened_ok:
  "xf_handles (demo_opened d) 2 = Some demo_h" "xhandle_ok demo_xenv (xf_ctr (demo_opened d)) demo_h"
  "xf_ctr (demo_opened d) < xf_ctr (demo_opened d) + 1" "(2 :: ptr) \<noteq> NULL" "xf_io (demo_opened d) = Some d"
  by (simp_all add: demo_opened_def demo_xfpga_def demo_h_ok)

lemmas demo_eval = demo_opened_def demo_h_def demo_table_def demo_simps

lemma demo_map: "\<exists>s1. xfpga_fpgaMapMMIO demo_xenv 2 0 True (demo_opened Intel) = Some (FPGA_OK, Some 0x40000000, s1)"
  by (simp add: xfpga_fpgaMapMMIO_def demo_eval)

theorem xfpga_map_roundtrip_witness:
  "\<exists>s1 s2 h2. xfpga_fpgaMapMMIO demo_xenv 2 0 True (demo_opened Intel) = Some (FPGA_OK, Some 0x40000000, s1) \<and>
     xfpga_fpgaUnmapMMIO demo_xenv 2 0 s1 = Some (FPGA_OK, None, s2) \<and> xf_handles s2 2 = Some h2 \<and>
     wsid_find_by_index (xh_mmio_root h2) 0 = None"
proof -
  obtain s1 where s1: "xfpga_fpgaMapMMIO demo_xenv 2 0 True (demo_opened Intel) = Some (FPGA_OK, Some 0x40000000, s1)"
    using demo_map by blast
  from xfpga_map_roundtrip [OF demo_kind demo_opened_ok(1-4) s1] s1 show ?thesis by fastforce
qed

lemma region_access_mapped:
  assumes "kind E" "xf_handles s p = Some h" "xhandle_ok E c h" "p \<noteq> NULL"
    and "wsid_find_by_index (xh_mmio_root h) i = Some e"
  shows "with_xhandle E p (\<lambda>_. region_access E p i off width act) s =
    (if off > wm_len e then Some (FPGA_INVALID_PARAM, None, xunlock E (locked s))
     else if unat off + width \<le> unat (wm_len e)
     then case act (wm_offset e + off) (locked s) of (out, s) \<Rightarrow> Some (FPGA_OK, out, xunlock E s)
     else None)"
  using assms(2,5)
  by (simp add: with_xhandle_ok [OF assms(1-4)] region_access_def find_or_map_wm_def split: prod.split)

text \<open>
  C16. An access to a mapped region: an aligned offset that leaves room for the whole access reads
  or writes exactly the addressed word of the region, with nothing else stored; an offset beyond the
  length is refused and nothing is touched; an offset between the two (the last bytes, the length itself)
  passes the check of the code and touches memory outside the region, so the behaviour is
  undefined. A misaligned offset is refused first.
\<close>

theorem xfpga_mmio_access:
  assumes "kind E" "xf_handles s p = Some h" "xhandle_ok E c h" "p \<noteq> NULL"
    and "wsid_find_by_index (xh_mmio_root h) i = Some e"
    and "s' = xunlock E (locked s)" "a = wm_offset e + off" "n = unat (wm_len e)"
  shows "xfpga_fpgaWriteMMIO64 E p i off v64 s =
      (if off mod 8 \<noteq> 0 then Some (FPGA_INVALID_PARAM, None, s)
       else if unat off > n then Some (FPGA_INVALID_PARAM, None, s')
       else if unat off + 8 \<le> n then Some (FPGA_OK, None, s'\<lparr>xf_stores := Store64 a v64 # xf_stores s\<rparr>) else None) \<and>
    xfpga_fpgaReadMMIO64 E p i off s =
      (if off mod 8 \<noteq> 0 then Some (FPGA_INVALID_PARAM, None, s)
       else if unat off > n then Some (FPGA_INVALID_PARAM, None, s')
       else if unat off + 8 \<le> n then Some (FPGA_OK, Some (load E (xf_stores s) a), s') else None) \<and>
    xfpga_fpgaWriteMMIO32 E p i off v32 s =
      (if off mod 4 \<noteq> 0 then Some (FPGA_INVALID_PARAM, None, s)
       else if unat off > n then Some (FPGA_INVALID_PARAM, None, s')
       else if unat off + 4 \<le> n then Some (FPGA_OK, None, s'\<lparr>xf_stores := Store32 a v32 # xf_stores s\<rparr>) else None) \<and>
    xfpga_fpgaReadMMIO32 E p i off s =
      (if off mod 4 \<noteq> 0 then Some (FPGA_INVALID_PARAM, None, s)
       else if unat off > n then Some (FPGA_INVALID_PARAM, None, s')
       else if unat off + 4 \<le> n then Some (FPGA_OK, Some (ucast (load E (xf_stores s) a)), s') else None)"
  unfolding mmio_op_defs region_access_mapped [OF assms(1-5)] assms(6-8)
  by (simp add: word_less_nat_alt store_to_def xunlock_def xsys_def locked_def)

definition demo_region :: wsid_map where
  "demo_region = \<lparr>wm_wsid = 0 XOR wsid_mask demo_xenv, wm_addr = 0x40000000, wm_phys = 0, wm_len = 4096,
     wm_offset = 0x40000000, wm_index = 0, wm_flags = 0\<rparr>"

definition demo_mapped :: xfpga_handle where
  "demo_mapped = demo_h\<lparr>xh_mmio_root := snd (wsid_add True (demo_table 4) (0 XOR wsid_mask demo_xenv)
     0x40000000 0 4096 0x40000000 (ucast (0 :: u32)) 0)\<rparr>"

lemma demo_mapped_ok:
  "xhandle_ok demo_xenv 1 demo_mapped" "wsid_find_by_index (xh_mmio_root demo_mapped) 0 = Some demo_region"
proof -
  have m: "mmio_ok demo_xenv 0 (demo_table 4)" using demo_table_ok [of 4] by (simp add: mmio_ok_empty)
  have n: "wsid_find_by_index (demo_table 4) 0 = None" by (simp add: demo_table_def wsid_find_by_index_def replicate_4)
  obtain b t' where a: "wsid_add True (demo_table 4) (0 XOR wsid_mask demo_xenv) 0x40000000 0 4096 0x40000000
      (ucast (0 :: u32)) 0 = (b, t')" by fastforce
  note e = mmio_ok_add [OF m _ n a]
  have t': "xh_mmio_root demo_mapped = t'" using a by (simp add: demo_mapped_def)
  show "xhandle_ok demo_xenv 1 demo_mapped"
    using e(2) a demo_h_ok [of 1] by (simp add: demo_mapped_def xhandle_ok_def)
  have "wsid_find_by_index t' 0 \<noteq> None"
    unfolding find_by_index_None using e(3) by auto
  then obtain x where x: "wsid_find_by_index t' 0 = Some x" by auto
  then have "x = demo_region"
    using find_by_index_Some [OF x] e(3) demo_table_ok [of 4] by (simp add: demo_region_def)
  with x t' show "wsid_find_by_index (xh_mmio_root demo_mapped) 0 = Some demo_region" by simp
qed

theorem xfpga_mmio_access_witness:
  "(\<exists>s'. xfpga_fpgaWriteMMIO64 demo_xenv 2 0 4088 5 ((demo_opened Dfl)\<lparr>xf_handles := [2 \<mapsto> demo_mapped]\<rparr>) =
       Some (FPGA_OK, None, s') \<and> xf_stores s' = [Store64 0x40000FF8 5]) \<and>
   xfpga_fpgaWriteMMIO64 demo_xenv 2 0 4096 5 ((demo_opened Dfl)\<lparr>xf_handles := [2 \<mapsto> demo_mapped]\<rparr>) = None"
  using xfpga_mmio_access [OF demo_kind _ demo_mapped_ok(1) demo_opened_ok(4) demo_mapped_ok(2) refl refl refl,
      of "(demo_opened Dfl)\<lparr>xf_handles := [2 \<mapsto> demo_mapped]\<rparr>" 4088 5]
    xfpga_mmio_access [OF demo_kind _ demo_mapped_ok(1) demo_opened_ok(4) demo_mapped_ok(2) refl refl refl,
      of "(demo_opened Dfl)\<lparr>xf_handles := [2 \<mapsto> demo_mapped]\<rparr>" 4096 5]
  by (simp_all add: demo_region_def demo_opened_def demo_xfpga_def)

subsection \<open>Shared buffers\<close>

text \<open>When an id is handed out, it was \<open>share_buffer\<close> that did, on memory that is paid for.\<close>

lemma prepare_shares:
  assumes "xans E (xf_calls s) X_lock = 0" "xf_handles s p = Some h" "xh_magic h = FPGA_HANDLE_MAGIC" "p \<noteq> NULL"
    and "xfpga_fpgaPrepareBuffer E p len b True flags s = Some (r, Some y, s1)"
  obtains a l cs s2 where "share_buffer E p h a l flags (s\<lparr>xf_calls := cs\<rparr>) = Some (r, Some y, s2)"
    "\<And>r. xbalance E cs r = xbalance E (xf_calls s) r + buffer_memory flags a l r" "s1 = xunlock E s2"
proof -
  obtain s2 where b: "(let preallocated = flags AND FPGA_BUF_PREALLOCATED \<noteq> 0; pg = page_bytes E in
       if \<not> True then Some (FPGA_INVALID_PARAM, None, locked s)
       else if flags AND NOT (FPGA_BUF_PREALLOCATED OR FPGA_BUF_QUIET OR FPGA_BUF_READ_ONLY) \<noteq> 0
       then Some (FPGA_INVALID_PARAM, None, locked s)
       else if preallocated then
         (case b of
            None \<Rightarrow> Some (if len = 0 then FPGA_OK else FPGA_INVALID_PARAM, None, locked s)
          | Some addr \<Rightarrow>
              (if addr = 0 \<or> len = 0 \<or> len AND (pg - 1) \<noteq> 0 then Some (FPGA_INVALID_PARAM, None, locked s)
               else share_buffer E p h addr len flags (locked s)))
       else if b = None \<or> len = 0 then Some (FPGA_INVALID_PARAM, None, locked s)
       else
         (let len = whole_pages pg len in
          case xbuffer_allocate E len (locked s) of (result, addr, s) \<Rightarrow>
            if result \<noteq> FPGA_OK then Some (result, None, s)
            else share_buffer E p h addr len flags s)) = Some (r, Some y, s2)" "s1 = xunlock E s2"
    using assms(5) unfolding xfpga_fpgaPrepareBuffer_def with_xhandle_eq [OF assms(1-4)]
    by (auto split: Option.bind_split_asm)
  show ?thesis
    using b(1) [unfolded Let_def]
  proof (cases rule: xprepare_cases)
    case (pre a)
    show ?thesis
      by (rule that [of a len "xf_calls (locked s)" s2]) (use pre b(2) in \<open>auto simp: buffer_memory_def locked_def\<close>)
  next
    case mem
    show ?thesis
      by (rule that [of "map_reply E (xf_calls (locked s))" "whole_pages (page_bytes E) len" _ s2])
        (use mem b(2) in \<open>auto simp: buffer_memory_def locked_def xdelta_anonymous\<close>)
  qed simp_all
qed

text \<open>A buffer that has been prepared is on the stack of its id, with the address of its mapping.\<close>

lemma prepare_exact:
  assumes "kind E" "xf_handles s p = Some h" "xhandle_ok E (xf_ctr s) h" "xf_ctr s < xf_ctr s + 1" "p \<noteq> NULL"
    and "xf_io s = Some d" "xfpga_fpgaPrepareBuffer E p len b True flags s = Some (r, Some (Some addr, w), s1)"
  obtains t' io l where "r = FPGA_OK" "xf_handles s1 = (xf_handles s)(p \<mapsto> h\<lparr>xh_wsid_root := t'\<rparr>)" "xf_io s1 = Some d"
    "wsid_inv t'" "wsid_stack t' = (wsid_stack (xh_wsid_root h))(w := \<lparr>wm_wsid = w, wm_addr = addr, wm_phys = io,
        wm_len = l, wm_offset = 0, wm_index = 0, wm_flags = flags\<rparr> # wsid_stack (xh_wsid_root h) w)"
    "xf_ctr s1 = xf_ctr s + 1"
    "\<And>r. xbalance E (xf_calls s1) r = xbalance E (xf_calls s) r + of_bool (r = X_dma (xh_fddev h) io) +
      buffer_memory flags addr l r"
proof -
  have lk: "xans E (xf_calls s) X_lock = 0" "xh_magic h = FPGA_HANDLE_MAGIC"
    using assms(1,3) by (simp_all add: kindD xhandle_ok_def)
  obtain a l cs s2 where sh: "share_buffer E p h a l flags (s\<lparr>xf_calls := cs\<rparr>) = Some (r, Some (Some addr, w), s2)"
      "\<And>r. xbalance E cs r = xbalance E (xf_calls s) r + buffer_memory flags a l r" and s2: "s1 = xunlock E s2"
    by (rule prepare_shares [OF lk(1) assms(2) lk(2) assms(5,7)]) (rule that)
  let ?s = "s\<lparr>xf_calls := cs\<rparr>" and ?io = "iova_reply E cs" and ?w = "xf_ctr s XOR wsid_mask E"
  have inv: "wsid_inv (xh_wsid_root h)" using assms(3) by (simp add: xhandle_ok_def)
  obtain bb t' where a: "wsid_add True (xh_wsid_root h) ?w a ?io l 0 0 flags = (bb, t')" by fastforce
  note e = entries_add [where i = 0, OF inv refl, simplified, OF a]
  have eq: "share_buffer E p h a l flags ?s = Some (r, Some (Some addr, w), s2)" by (rule sh(1))
  have io: "xf_io ?s = Some d" "xf_handles ?s p = Some h" using assms(2,6) by simp_all
  note x = share_buffer_eq [OF assms(1) io refl refl refl refl, where flags = flags and addr = a and len = l and t' = t',
      unfolded eq]
  have "r = FPGA_OK \<and> a = addr \<and> w = ?w" using x a e(1) by (auto split: if_split_asm)
  moreover have "xans E cs (X_ioctl d (xh_fddev h) (Port_dma_map (if flags AND FPGA_BUF_READ_ONLY \<noteq> 0
      then FPGA_DMA_TO_DEV else 0) a l)) = 0" using x a e(1) by (simp split: if_split_asm)
  moreover from this have "s2 = ?s\<lparr>xf_ctr := xf_ctr s + 1, xf_calls := X_malloc # X_ioctl d (xh_fddev h)
      (Port_dma_map (if flags AND FPGA_BUF_READ_ONLY \<noteq> 0 then FPGA_DMA_TO_DEV else 0) a l) # cs,
      xf_handles := (xf_handles s)(p \<mapsto> h\<lparr>xh_wsid_root := t'\<rparr>)\<rparr>"
    using x a e(1) by simp
  ultimately show ?thesis
    using s2 e(2,3) sh(2) assms(6) by (intro that [of t' ?io l]) simp_all
qed

text \<open>
  C15. A shared buffer works: after it has been prepared, its id gives the address the driver reported, and
  releasing it succeeds, gives back the memory and the mapping (and nothing else), and leaves every
  id of the table as it was before.
\<close>

theorem xfpga_buffer_roundtrip:
  assumes "kind E" "xf_handles s p = Some h" "xhandle_ok E (xf_ctr s) h" "xf_ctr s < xf_ctr s + 1" "p \<noteq> NULL"
    and "xf_io s \<noteq> None" "xfpga_fpgaPrepareBuffer E p len b True flags s = Some (r, Some (Some addr, w), s1)"
  shows "r = FPGA_OK \<and>
    (\<exists>io s2. xfpga_fpgaGetIOAddress E p w s1 = Some (FPGA_OK, Some io, s2) \<and>
       xbalance E (xf_calls s1) (X_dma (xh_fddev h) io) = xbalance E (xf_calls s) (X_dma (xh_fddev h) io) + 1) \<and>
    (\<exists>s3 h3. xfpga_fpgaReleaseBuffer E p w s1 = Some (FPGA_OK, None, s3) \<and> xf_handles s3 = (xf_handles s)(p \<mapsto> h3) \<and>
       (\<forall>v. wsid_find (xh_wsid_root h3) v = wsid_find (xh_wsid_root h) v) \<and>
       (\<forall>r. xbalance E (xf_calls s3) r = xbalance E (xf_calls s) r))"
proof -
  obtain d where d: "xf_io s = Some d" using assms(6) by auto
  obtain t' io l where t': "r = FPGA_OK" "xf_handles s1 = (xf_handles s)(p \<mapsto> h\<lparr>xh_wsid_root := t'\<rparr>)" "xf_io s1 = Some d"
    "wsid_inv t'" "wsid_stack t' = (wsid_stack (xh_wsid_root h))(w := \<lparr>wm_wsid = w, wm_addr = addr, wm_phys = io,
        wm_len = l, wm_offset = 0, wm_index = 0, wm_flags = flags\<rparr> # wsid_stack (xh_wsid_root h) w)"
    "xf_ctr s1 = xf_ctr s + 1"
    "\<And>r. xbalance E (xf_calls s1) r = xbalance E (xf_calls s) r + of_bool (r = X_dma (xh_fddev h) io) +
      buffer_memory flags addr l r"
    by (rule prepare_exact [OF assms(1-5) d assms(7)]) (rule that)
  let ?h = "h\<lparr>xh_wsid_root := t'\<rparr>" and ?t = "snd (wsid_del t' w)"
  let ?e = "\<lparr>wm_wsid = w, wm_addr = addr, wm_phys = io, wm_len = l, wm_offset = 0, wm_index = 0, wm_flags = flags\<rparr>"
  have h1: "xf_handles s1 p = Some ?h" "xhandle_ok E (xf_ctr s) ?h"
    using t'(2,4) assms(3) by (simp_all add: xhandle_ok_def)
  note frame = with_xhandle_ok [OF assms(1) h1 assms(5)]
  have f: "wsid_find t' w = Some ?e" using wsid.find_law [OF t'(4)] t'(5) by simp
  have inv: "wsid_inv (xh_wsid_root h)" using assms(3) by (simp add: xhandle_ok_def)
  note dl = entries_del [OF t'(4) f]
  have same: "wsid_find ?t v = wsid_find (xh_wsid_root h) v" for v
    using wsid.find_law [OF dl(1)] wsid.find_law [OF inv] dl(2) t'(5) by simp
  have addr: "\<exists>s2. xfpga_fpgaGetIOAddress E p w s1 = Some (FPGA_OK, Some io, s2)"
    using f by (simp add: xfpga_fpgaGetIOAddress_def frame)
  have rel: "\<exists>s3. xfpga_fpgaReleaseBuffer E p w s1 = Some (FPGA_OK, None, s3) \<and>
      xf_handles s3 = (xf_handles s)(p \<mapsto> ?h\<lparr>xh_wsid_root := ?t\<rparr>) \<and>
      (\<forall>r. xbalance E (xf_calls s3) r = xbalance E (xf_calls s) r)"
    using f t'(2,3,7) assms(1)
    by (simp add: xfpga_fpgaReleaseBuffer_def frame port_unmap_eq xbuffer_release_eq del_buffer_def upd_xhandle_def
        kindD buffer_memory_def)
  have one: "xbalance E (xf_calls s1) (X_dma (xh_fddev h) io) = xbalance E (xf_calls s) (X_dma (xh_fddev h) io) + 1"
    using t'(7) by (simp add: buffer_memory_def)
  from t'(1) addr one rel same show ?thesis by fastforce
qed

lemma demo_prepare:
  "\<exists>w s1. xfpga_fpgaPrepareBuffer demo_xenv 2 5000 (Some 0) True 0 (demo_opened Dfl) =
     Some (FPGA_OK, Some (Some 0x40000000, w), s1)"
  by (simp add: demo_eval)

theorem xfpga_buffer_roundtrip_witness:
  "\<exists>w s1 s2 s3. xfpga_fpgaPrepareBuffer demo_xenv 2 5000 (Some 0) True 0 (demo_opened Dfl) =
       Some (FPGA_OK, Some (Some 0x40000000, w), s1) \<and>
     xfpga_fpgaReleaseBuffer demo_xenv 2 w s1 = Some (FPGA_OK, None, s3) \<and>
     (\<forall>r. xbalance demo_xenv (xf_calls s3) r = 0)"
proof -
  obtain w s1 where s1: "xfpga_fpgaPrepareBuffer demo_xenv 2 5000 (Some 0) True 0 (demo_opened Dfl) =
     Some (FPGA_OK, Some (Some 0x40000000, w), s1)" using demo_prepare by blast
  have io: "xf_io (demo_opened Dfl) \<noteq> None" "xf_calls (demo_opened Dfl) = []"
    by (simp_all add: demo_opened_def demo_xfpga_def)
  from xfpga_buffer_roundtrip [OF demo_kind demo_opened_ok(1-4) io(1) s1] s1 io(2) show ?thesis by auto
qed

lemma share_buffer_nomem:
  assumes "\<And>cs a l. xans E cs (X_munmap a l) = 0" "xf_io s = Some d" "xf_handles s p = Some h"
    and "share_buffer E p h addr len flags s = Some (FPGA_NO_MEMORY, Some (x, w), s')"
  shows "xf_handles s' = xf_handles s" "\<exists>io. \<forall>r. xbalance E (xf_calls s') r =
      xbalance E (xf_calls s) r + of_bool (r = X_dma (xh_fddev h) io) - buffer_memory flags addr len r"
proof -
  let ?q = "X_ioctl d (xh_fddev h) (Port_dma_map (if flags AND FPGA_BUF_READ_ONLY \<noteq> 0 then FPGA_DMA_TO_DEV else 0) addr len)"
  have q: "xans E (xf_calls s) ?q = 0"
    using assms(2,4) by (auto simp: share_buffer_def port_map_eq Let_def split: if_split_asm)
  have m: "xans E (?q # xf_calls s) X_malloc = 0"
    using assms(2,3,4) q
    by (auto simp: share_buffer_def port_map_eq Let_def wsid_gen_def add_buffer_def xsys_def wsid_add_def
        split: if_split_asm)
  have s': "s' = s\<lparr>xf_ctr := xf_ctr s + 1, xf_calls := (if flags AND FPGA_BUF_PREALLOCATED \<noteq> 0 then []
      else [X_munmap addr (mapped_len len)]) @ X_malloc # ?q # xf_calls s\<rparr>"
    using assms(2,3,4) q m
    by (auto simp: share_buffer_def port_map_eq Let_def wsid_gen_def add_buffer_def xsys_def wsid_add_def
        upd_xhandle_def xbuffer_release_def fun_upd_idem split: if_split_asm)
  show "xf_handles s' = xf_handles s" using s' by simp
  show "\<exists>io. \<forall>r. xbalance E (xf_calls s') r =
      xbalance E (xf_calls s) r + of_bool (r = X_dma (xh_fddev h) io) - buffer_memory flags addr len r"
    unfolding s' using q assms(1) by (intro exI [of _ "iova_reply E (xf_calls s)"]) (simp add: buffer_memory_def)
qed

text \<open>
  C18. Two failures of the shared buffers lose what the kernel had granted. When the table cannot be extended
  after the mapping for DMA, \<^verbatim>\<open>xfpga_fpgaPrepareBuffer\<close> answers \<^verbatim>\<open>FPGA_NO_MEMORY\<close> and frees the
  memory, but the mapping for DMA stays, and no handle knows it. When the driver refuses to unmap,
  \<^verbatim>\<open>xfpga_fpgaReleaseBuffer\<close> answers \<^verbatim>\<open>FPGA_INVALID_PARAM\<close> and removes the entry all the same: memory and mapping
  stay with the kernel, and the id is gone, so that the release cannot be tried again.
\<close>

theorem xfpga_buffer_errors:
  assumes "\<And>cs a l. xans E cs (X_munmap a l) = 0" "\<And>cs. xans E cs X_lock = 0"
    and "xf_handles s p = Some h" "xh_magic h = FPGA_HANDLE_MAGIC" "p \<noteq> NULL" "xf_io s = Some d"
  shows "(xfpga_fpgaPrepareBuffer E p len b True flags s = Some (FPGA_NO_MEMORY, Some (x, w), s1) \<longrightarrow>
      xf_handles s1 = xf_handles s \<and>
      (\<exists>io. \<forall>r. xbalance E (xf_calls s1) r = xbalance E (xf_calls s) r + of_bool (r = X_dma (xh_fddev h) io))) \<and>
    (wsid_find (xh_wsid_root h) v = Some e \<and>
      xans E (X_lock # xf_calls s) (X_ioctl d (xh_fddev h) (Port_dma_unmap (wm_phys e))) \<noteq> 0 \<longrightarrow>
      (\<exists>s2. xfpga_fpgaReleaseBuffer E p v s = Some (FPGA_INVALID_PARAM, None, s2) \<and>
        xf_handles s2 = (xf_handles s)(p \<mapsto> h\<lparr>xh_wsid_root := snd (wsid_del (xh_wsid_root h) v)\<rparr>) \<and>
        (\<forall>r. xbalance E (xf_calls s2) r = xbalance E (xf_calls s) r)))"
proof (intro conjI impI)
  assume "xfpga_fpgaPrepareBuffer E p len b True flags s = Some (FPGA_NO_MEMORY, Some (x, w), s1)"
  then obtain a l cs s2 where sh: "share_buffer E p h a l flags (s\<lparr>xf_calls := cs\<rparr>) = Some (FPGA_NO_MEMORY, Some (x, w), s2)"
      "\<And>r. xbalance E cs r = xbalance E (xf_calls s) r + buffer_memory flags a l r" and s2: "s1 = xunlock E s2"
    using prepare_shares [OF assms(2-5)] by metis
  have io: "xf_io (s\<lparr>xf_calls := cs\<rparr>) = Some d" "xf_handles (s\<lparr>xf_calls := cs\<rparr>) p = Some h"
    using assms(3,6) by simp_all
  note n = share_buffer_nomem [OF assms(1) io sh(1)]
  show "xf_handles s1 = xf_handles s" using n(1) s2 by simp
  show "\<exists>io. \<forall>r. xbalance E (xf_calls s1) r = xbalance E (xf_calls s) r + of_bool (r = X_dma (xh_fddev h) io)"
    using n(2) s2 sh(2) by simp
next
  assume e: "wsid_find (xh_wsid_root h) v = Some e \<and>
      xans E (X_lock # xf_calls s) (X_ioctl d (xh_fddev h) (Port_dma_unmap (wm_phys e))) \<noteq> 0"
  have "opae_port_unmap E (xh_fddev h) (wm_phys e) (locked s) =
      (ioctl_result (xans E (X_lock # xf_calls s) (X_ioctl d (xh_fddev h) (Port_dma_unmap (wm_phys e)))),
       (locked s)\<lparr>xf_calls := X_ioctl d (xh_fddev h) (Port_dma_unmap (wm_phys e)) # X_lock # xf_calls s\<rparr>)"
    using assms(6) by (cases d) (simp_all add: drv_defs locked_def)
  with e assms(3) show "\<exists>s2. xfpga_fpgaReleaseBuffer E p v s = Some (FPGA_INVALID_PARAM, None, s2) \<and>
        xf_handles s2 = (xf_handles s)(p \<mapsto> h\<lparr>xh_wsid_root := snd (wsid_del (xh_wsid_root h) v)\<rparr>) \<and>
        (\<forall>r. xbalance E (xf_calls s2) r = xbalance E (xf_calls s) r)"
    by (simp add: xfpga_fpgaReleaseBuffer_def with_xhandle_eq [OF assms(2-5)] del_buffer_def upd_xhandle_def)
qed

text \<open>The kernel of the demo, with no memory left for the table.\<close>

definition poor_xenv :: xenv where
  "poor_xenv = demo_xenv\<lparr>xans := (\<lambda>cs c. case c of X_open p x \<Rightarrow> 7 | _ \<Rightarrow> 0)\<rparr>"

lemma poor_sel:
  "xans poor_xenv cs c = (case c of X_open p x \<Rightarrow> 7 | _ \<Rightarrow> 0)"
  "iova_reply poor_xenv cs = 0x1000" "map_reply poor_xenv cs = 0x40000000" "page_bytes poor_xenv = 4096"
  "getpid poor_xenv = 4711"
  by (simp_all add: poor_xenv_def demo_xenv_def)

lemma poor_prepare:
  "\<exists>w s1. xfpga_fpgaPrepareBuffer poor_xenv 2 4096 (Some 0) True 0 (demo_opened Dfl) =
     Some (FPGA_NO_MEMORY, Some (None, w), s1)"
  by (simp add: poor_sel demo_eval)

theorem xfpga_buffer_errors_witness:
  "\<exists>w s1 io. xfpga_fpgaPrepareBuffer poor_xenv 2 4096 (Some 0) True 0 (demo_opened Dfl) =
       Some (FPGA_NO_MEMORY, Some (None, w), s1) \<and> xbalance poor_xenv (xf_calls s1) (X_dma 7 io) = 1"
proof -
  obtain w s1 where s1: "xfpga_fpgaPrepareBuffer poor_xenv 2 4096 (Some 0) True 0 (demo_opened Dfl) =
     Some (FPGA_NO_MEMORY, Some (None, w), s1)" using poor_prepare by blast
  have m: "xh_magic demo_h = FPGA_HANDLE_MAGIC" "xh_fddev demo_h = 7" "xf_calls (demo_opened Dfl) = []"
    by (simp_all add: demo_h_def demo_opened_def demo_xfpga_def)
  have "\<exists>io. \<forall>r. xbalance poor_xenv (xf_calls s1) r =
      xbalance poor_xenv (xf_calls (demo_opened Dfl)) r + of_bool (r = X_dma (xh_fddev demo_h) io)"
    using xfpga_buffer_errors [OF _ _ demo_opened_ok(1) [of Dfl] m(1) demo_opened_ok(4) demo_opened_ok(5) [of Dfl],
        where E = poor_xenv and len = 4096 and b = "Some 0" and flags = 0 and x = None and w = w and ?s1.0 = s1] s1
    by (simp add: poor_sel)
  with s1 m(2,3) show ?thesis by auto
qed

subsection \<open>User messages\<close>

lemma map_umsg_granted:
  assumes "kind E" "xf_io s = Some d" "\<And>cs fd q. xans E cs (X_ioctl d fd q) = 0" "\<And>cs k l. xans E cs (X_mmap k l) = 0"
  obtains a io sz cs where "a \<noteq> 0"
    "map_umsg E p fd s = (case d of
       Dfl \<Rightarrow> (FPGA_OK, None, s\<lparr>xf_calls := cs\<rparr>)
     | Intel \<Rightarrow> (FPGA_OK, Some a, upd_xhandle p (\<lambda>h. h\<lparr>xh_umsg_iova := io, xh_umsg_virt := a, xh_umsg_size := sz\<rparr>)
         (s\<lparr>xf_calls := cs\<rparr>)))"
proof -
  let ?s1 = "s\<lparr>xf_calls := X_ioctl d fd Port_get_info # xf_calls s\<rparr>"
  have "\<exists>i. opae_get_port_info E fd (Some no_port_info) s = (FPGA_OK, Some i, ?s1)"
    using assms(2,3) by (cases d) (auto simp: drv_defs Let_def ioctl_result_def)
  then obtain i where i: "opae_get_port_info E fd (Some no_port_info) s = (FPGA_OK, Some i, ?s1)" by blast
  define s1 where "s1 = ?s1"
  define sz where "sz = ucast (pi_num_umsgs i) * page_bytes E"
  define a where "a = map_reply E (xf_calls s1)"
  define s2 where "s2 = s1\<lparr>xf_calls := X_mmap (map_kind sz) sz # xf_calls s1\<rparr>"
  define io where "io = iova_reply E (xf_calls s2)"
  define s3 where "s3 = s2\<lparr>xf_calls := X_ioctl d fd (Port_dma_map 0 a sz) # xf_calls s2\<rparr>"
  have dr: "xf_io s1 = Some d" "xf_io s2 = Some d" "xf_io s3 = Some d"
    using assms(2) by (simp_all add: s1_def s2_def s3_def)
  have v: "a \<noteq> 0" using assms(1) by (simp add: kindD a_def)
  have b: "alloc_buffer E sz s1 = (a, s2)" using assms(1,4) by (simp add: alloc_buffer_eq Let_def a_def s2_def)
  have m: "opae_port_map E fd a sz 0 True s2 = (FPGA_OK, Some io, s3)"
    using assms(3) port_map_eq [OF dr(2), of E fd a sz 0] by (simp add: Let_def ioctl_result_def io_def s3_def)
  have g: "map_umsg E p fd s = (case opae_port_umsg_set_base_addr E fd 0 io s3 of (result, s) \<Rightarrow>
      if result \<noteq> FPGA_OK then umsg_map_exit E fd a sz io s
      else case opae_port_umsg_enable E fd s of (result, s) \<Rightarrow>
      if result \<noteq> FPGA_OK then umsg_map_exit E fd a sz io s
      else (FPGA_OK, Some a, upd_xhandle p (\<lambda>h. h\<lparr>xh_umsg_iova := io, xh_umsg_virt := a, xh_umsg_size := sz\<rparr>) s))"
    using i b m v by (simp add: map_umsg_def Let_def sz_def [symmetric] s1_def [symmetric])
  have s3: "\<exists>cs. s3 = s\<lparr>xf_calls := cs\<rparr>" by (auto simp: s1_def s2_def s3_def)
  show ?thesis
  proof (cases d)
    case Dfl
    have "umsg_map_exit E fd a sz io s3 = (FPGA_OK, None, s3\<lparr>xf_calls := X_munmap a (mapped_len sz) #
        X_ioctl d fd (Port_dma_unmap io) # xf_calls s3\<rparr>)"
      by (simp add: umsg_map_exit_def port_unmap_eq [OF dr(3) assms(1)] free_buffer_eq [OF assms(1)])
    moreover have "opae_port_umsg_set_base_addr E fd 0 io s3 = (FPGA_NOT_SUPPORTED, s3)"
      using dr(3) Dfl by (simp add: opae_port_umsg_set_base_addr_def IOCTL_def)
    ultimately show ?thesis using g s3 Dfl by (auto intro: that [OF v])
  next
    case Intel
    have "opae_port_umsg_set_base_addr E fd 0 io s3 =
        (FPGA_OK, s3\<lparr>xf_calls := X_ioctl Intel fd (Port_umsg_set_base_addr io) # xf_calls s3\<rparr>)"
      "opae_port_umsg_enable E fd (s3\<lparr>xf_calls := cs\<rparr>) =
        (FPGA_OK, s3\<lparr>xf_calls := X_ioctl Intel fd Port_umsg_enable # cs\<rparr>)" for cs
      using dr(3) Intel assms(3) by (simp_all add: opae_port_umsg_set_base_addr_def opae_port_umsg_enable_def
          IOCTL_def intel_port_umsg_set_base_addr_def intel_port_umsg_enable_def opae_ioctl_eq ioctl_result_def)
    then show ?thesis using g s3 Intel by (auto intro: that [OF v])
  qed
qed

text \<open>
  C19. User messages, when the kernel grants every request. On the Intel driver the first use maps the messages,
  hands out their address, and triggering stores the value there. The DFL driver has no
  requests for user messages: \<^verbatim>\<open>xfpga_fpgaGetUmsgPtr\<close> then undoes the mapping, but the success of
  unmapping replaces the error, so that it answers \<^verbatim>\<open>FPGA_OK\<close> without an address, and
  \<^verbatim>\<open>xfpga_fpgaTriggerUmsg\<close> stores through the null pointer.
\<close>

theorem xfpga_umsg:
  assumes "kind E" "xf_handles s p = Some h" "xhandle_ok E c h" "p \<noteq> NULL" "xf_io s = Some d"
    and "\<And>cs fd q. xans E cs (X_ioctl d fd q) = 0" "\<And>cs k l. xans E cs (X_mmap k l) = 0" "xh_umsg_iova h = 0"
  shows "case d of
      Intel \<Rightarrow> (\<exists>a s1. xfpga_fpgaGetUmsgPtr E p True s = Some (FPGA_OK, Some a, s1) \<and> a \<noteq> 0) \<and>
        (\<exists>a s1 h1. xfpga_fpgaTriggerUmsg E p v s = Some (FPGA_OK, None, s1) \<and> a \<noteq> 0 \<and>
          xf_handles s1 p = Some h1 \<and> xh_umsg_virt h1 = a \<and> xf_stores s1 = Store64 a v # xf_stores s)
    | Dfl \<Rightarrow> (\<exists>s1. xfpga_fpgaGetUmsgPtr E p True s = Some (FPGA_OK, None, s1) \<and> xf_handles s1 = xf_handles s) \<and>
        xfpga_fpgaTriggerUmsg E p v s = None"
proof -
  have fd: "\<not> xh_fddev h < 0" using assms(3) by (simp add: xhandle_ok_def)
  have get: "xfpga_fpgaGetUmsgPtr E p True t = (case map_umsg E p (xh_fddev h) (locked t) of
      (r, x, t') \<Rightarrow> Some (r, x, xunlock E t'))" if "xf_handles t p = Some h" for t
    using fd assms(8) by (simp add: xfpga_fpgaGetUmsgPtr_def with_xhandle_ok [OF assms(1) that assms(3,4)])
  have l: "xf_io (locked s) = Some d" "xf_io (locked (locked s)) = Some d" using assms(5) by simp_all
  obtain a io sz cs where 1: "a \<noteq> 0" "map_umsg E p (xh_fddev h) (locked s) = (case d of
       Dfl \<Rightarrow> (FPGA_OK, None, (locked s)\<lparr>xf_calls := cs\<rparr>)
     | Intel \<Rightarrow> (FPGA_OK, Some a, upd_xhandle p (\<lambda>h. h\<lparr>xh_umsg_iova := io, xh_umsg_virt := a, xh_umsg_size := sz\<rparr>)
         ((locked s)\<lparr>xf_calls := cs\<rparr>)))"
    by (rule map_umsg_granted [OF assms(1) l(1) assms(6,7), of p "xh_fddev h"]) (rule that)
  obtain a' io' sz' cs' where 2: "a' \<noteq> 0" "map_umsg E p (xh_fddev h) (locked (locked s)) = (case d of
       Dfl \<Rightarrow> (FPGA_OK, None, (locked (locked s))\<lparr>xf_calls := cs'\<rparr>)
     | Intel \<Rightarrow> (FPGA_OK, Some a', upd_xhandle p (\<lambda>h. h\<lparr>xh_umsg_iova := io', xh_umsg_virt := a', xh_umsg_size := sz'\<rparr>)
         ((locked (locked s))\<lparr>xf_calls := cs'\<rparr>)))"
    by (rule map_umsg_granted [OF assms(1) l(2) assms(6,7), of p "xh_fddev h"]) (rule that)
  show ?thesis
    using 1 2 assms(2) fd get [OF assms(2)] get [of "locked s"]
    by (cases d) (simp_all add: xfpga_fpgaTriggerUmsg_def with_xhandle_ok [OF assms(1-4)] upd_xhandle_def)
qed

theorem xfpga_umsg_witness:
  "xfpga_fpgaTriggerUmsg demo_xenv 2 5 (demo_opened Dfl) = None \<and>
   (\<exists>a s1. xfpga_fpgaTriggerUmsg demo_xenv 2 5 (demo_opened Intel) = Some (FPGA_OK, None, s1) \<and>
     xf_stores s1 = [Store64 a 5])"
  using xfpga_umsg [OF demo_kind demo_opened_ok(1) demo_h_ok demo_opened_ok(4,5), of Dfl 5]
    xfpga_umsg [OF demo_kind demo_opened_ok(1) demo_h_ok demo_opened_ok(4,5), of Intel 5]
  by (auto simp: demo_xenv_sel demo_h_def demo_opened_def demo_xfpga_def)

subsection \<open>Requests to the driver\<close>

text \<open>
  What a function of the table does: nothing when no driver has been found, nothing when the driver
  has no such function or the arguments are refused, else exactly one request on the descriptor, whose errno
  becomes the result.
\<close>

definition asks :: "int \<Rightarrow> xenv \<Rightarrow> xfpga \<Rightarrow> fpga_result \<Rightarrow> xfpga \<Rightarrow> bool" where
  "asks fd E s r s' \<longleftrightarrow>
     (case xf_io s of
        None \<Rightarrow> r = FPGA_EXCEPTION \<and> s' = s
      | Some d \<Rightarrow> (r = FPGA_NOT_SUPPORTED \<or> r = FPGA_INVALID_PARAM) \<and> s' = s \<or>
          (\<exists>q. r = ioctl_result (xans E (xf_calls s) (X_ioctl d fd q)) \<and>
            s' = s\<lparr>xf_calls := X_ioctl d fd q # xf_calls s\<rparr>))"

lemma asks_refused:
  "xf_io s = None \<Longrightarrow> asks fd E s FPGA_EXCEPTION s"
  "xf_io s = Some d \<Longrightarrow> asks fd E s FPGA_NOT_SUPPORTED s" "xf_io s = Some d \<Longrightarrow> asks fd E s FPGA_INVALID_PARAM s"
  by (simp_all add: asks_def)

lemma asks_ioctl:
  assumes "xf_io s = Some d" "e = xans E (xf_calls s) (X_ioctl d fd q)"
  shows "asks fd E s (ioctl_result e) (s\<lparr>xf_calls := X_ioctl d fd q # xf_calls s\<rparr>)"
  unfolding asks_def assms(1) option.case assms(2) by blast

lemmas request_defs = IOCTL_def opae_ioctl_eq ioctl_out_def Let_def asks_refused asks_ioctl
    opae_get_fme_info_def intel_get_fme_info_def opae_get_port_info_def intel_get_port_info_def
    dfl_get_port_info_def opae_get_port_region_info_def intel_get_port_region_info_def
    dfl_get_port_region_info_def opae_port_map_def intel_port_map_def dfl_port_map_def opae_port_unmap_def
    intel_port_unmap_def dfl_port_unmap_def opae_port_umsg_cfg_def intel_port_umsg_cfg_def
    opae_port_umsg_set_base_addr_def intel_port_umsg_set_base_addr_def opae_port_umsg_enable_def
    intel_port_umsg_enable_def opae_port_umsg_disable_def intel_port_umsg_disable_def
    opae_fme_set_err_irq_def intel_fme_set_err_irq_def opae_port_set_err_irq_def intel_port_set_err_irq_def
    opae_fme_port_assign_def intel_fme_port_assign_def dfl_fme_port_assign_def opae_fme_port_release_def
    intel_fme_port_release_def dfl_fme_port_release_def opae_fme_port_pr_def intel_fme_port_pr_def
    dfl_fme_port_pr_def opae_fme_port_reset_def intel_fme_port_reset_def dfl_fme_port_reset_def
    opae_dfl_port_get_err_irq_def dfl_port_get_err_irq_def opae_dfl_port_get_user_irq_def
    dfl_port_get_user_irq_def opae_dfl_fme_get_err_irq_def dfl_fme_get_err_irq_def

text \<open>
  Every request goes through the table of the driver that was found: before initialisation the
  answer is \<^verbatim>\<open>FPGA_EXCEPTION\<close> and the kernel is not called; a function that the driver lacks or a null
  output is refused without a call; any other request is exactly one \<^verbatim>\<open>ioctl\<close> on the given
  descriptor, to the driver that was found, and its errno decides the result.
\<close>

theorem xfpga_requests:
  "(case opae_get_fme_info E fd b s of (r, _, s') \<Rightarrow> asks fd E s r s') \<and>
   (case opae_get_port_info E fd info s of (r, _, s') \<Rightarrow> asks fd E s r s') \<and>
   (case opae_get_port_region_info E fd i b s of (r, _, s') \<Rightarrow> asks fd E s r s') \<and>
   (case opae_port_map E fd addr len flags b s of (r, _, s') \<Rightarrow> asks fd E s r s') \<and>
   (case opae_port_unmap E fd io s of (r, s') \<Rightarrow> asks fd E s r s') \<and>
   (case opae_port_umsg_cfg E fd flags hint s of (r, s') \<Rightarrow> asks fd E s r s') \<and>
   (case opae_port_umsg_set_base_addr E fd flags io s of (r, s') \<Rightarrow> asks fd E s r s') \<and>
   (case opae_port_umsg_enable E fd s of (r, s') \<Rightarrow> asks fd E s r s') \<and>
   (case opae_port_umsg_disable E fd s of (r, s') \<Rightarrow> asks fd E s r s') \<and>
   (case opae_fme_set_err_irq E fd flags evt s of (r, s') \<Rightarrow> asks fd E s r s') \<and>
   (case opae_port_set_err_irq E fd flags evt s of (r, s') \<Rightarrow> asks fd E s r s') \<and>
   (case opae_fme_port_assign E fd flags port s of (r, s') \<Rightarrow> asks fd E s r s') \<and>
   (case opae_fme_port_release E fd flags port s of (r, s') \<Rightarrow> asks fd E s r s') \<and>
   (case opae_fme_port_pr E fd flags port sz addr b s of (r, _, s') \<Rightarrow> asks fd E s r s') \<and>
   (case opae_fme_port_reset E fd s of (r, s') \<Rightarrow> asks fd E s r s') \<and>
   (case opae_dfl_port_get_err_irq E fd b s of (r, _, s') \<Rightarrow> asks fd E s r s') \<and>
   (case opae_dfl_port_get_user_irq E fd b s of (r, _, s') \<Rightarrow> asks fd E s r s') \<and>
   (case opae_dfl_fme_get_err_irq E fd b s of (r, _, s') \<Rightarrow> asks fd E s r s')"
proof (cases "xf_io s")
  case None
  then show ?thesis
    by (intro conjI) (simp_all add: request_defs)
next
  case (Some d)
  then show ?thesis
    by (cases d; intro conjI; simp add: request_defs split: option.split)
qed

lemma irq_fits:
  assumes "unat hdr < 2 ^ 32"
  shows "unat hdr + unat num * 4 \<le> unat (irq_size hdr num) \<longleftrightarrow> unat hdr + unat num * 4 < 2 ^ 32"
proof -
  have "unat (irq_size hdr num) = (unat hdr + unat num * 4) mod 2 ^ 32"
    by (simp add: irq_size_def unat_word_ariths mod_simps)
  moreover have "(unat hdr + unat num * 4) mod 2 ^ 32 < 2 ^ 32" by simp
  ultimately show ?thesis by (cases "unat hdr + unat num * 4 < 2 ^ 32") (simp, linarith)
qed

text \<open>
  Registering descriptors for the interrupts of the accelerator: the list reaches the driver whole, in one
  request, as long as its size fits in the 32 bits in which the code computes it; for a longer list the
  size wraps, the buffer is too small for the copy, and the behaviour is undefined. An
  empty list is refused.
\<close>

theorem xfpga_user_irqs:
  assumes "xf_io s = Some d" "\<And>cs. xans E cs X_malloc \<noteq> 0" "unat num \<le> length fds"
    and "f = (case d of Intel \<Rightarrow> opae_port_set_user_irq E fd flags start num (Some fds)
                        | Dfl \<Rightarrow> opae_dfl_port_set_user_irq E fd start num (Some fds))"
    and "hdr = (case d of Intel \<Rightarrow> 16 | Dfl \<Rightarrow> 8)"
    and "req = (case d of Intel \<Rightarrow> Port_uafu_set_irq start num (take (unat num) fds)
                        | Dfl \<Rightarrow> Port_uint_set_irqs start num (take (unat num) fds))"
  shows "f s = (if num = 0 then Some (FPGA_INVALID_PARAM, s)
    else if hdr + unat num * 4 < 2 ^ 32 then
      Some (ioctl_result (xans E (X_malloc # xf_calls s) (X_ioctl d fd req)),
        s\<lparr>xf_calls := X_ioctl d fd req # X_malloc # xf_calls s\<rparr>)
    else None)"
  using assms irq_fits [of 8 num] irq_fits [of 16 num]
  by (cases d) (simp_all add: opae_port_set_user_irq_def opae_dfl_port_set_user_irq_def IOCTL_def
      intel_port_set_user_irq_def dfl_port_set_user_irq_def dfl_set_irq_def set_irqs_def xsys_def opae_ioctl_eq)

theorem xfpga_user_irqs_witness:
  "opae_dfl_port_set_user_irq demo_xenv 7 0 2 (Some [8, 9]) (demo_opened Dfl) =
     Some (ioctl_result 0, (demo_opened Dfl)\<lparr>xf_calls := [X_ioctl Dfl 7 (Port_uint_set_irqs 0 2 [8, 9]), X_malloc]\<rparr>) \<and>
   opae_dfl_port_set_user_irq demo_xenv 7 0 0x40000000 (Some (replicate 0x40000000 8)) (demo_opened Dfl) = None"
proof (rule conjI)
  note irqs = xfpga_user_irqs [OF demo_opened_ok(5) [of Dfl], where E = demo_xenv and fd = 7 and start = 0]
  show "opae_dfl_port_set_user_irq demo_xenv 7 0 2 (Some [8, 9]) (demo_opened Dfl) =
     Some (ioctl_result 0, (demo_opened Dfl)\<lparr>xf_calls := [X_ioctl Dfl 7 (Port_uint_set_irqs 0 2 [8, 9]), X_malloc]\<rparr>)"
    using irqs [where num = 2 and fds = "[8, 9]", OF _ _ refl refl refl]
    by (simp add: demo_xenv_sel demo_opened_def demo_xfpga_def)
  show "opae_dfl_port_set_user_irq demo_xenv 7 0 0x40000000 (Some (replicate 0x40000000 8)) (demo_opened Dfl) = None"
    using irqs [where num = "0x40000000" and fds = "replicate 0x40000000 8", OF _ _ refl refl refl]
    by (simp add: demo_xenv_sel demo_opened_def demo_xfpga_def)
qed

end
