(* ===== verification/Bitstream.thy ===== *)
theory Bitstream
  imports Opae_State
begin

section \<open>Green bitstreams (libbitstream)\<close>

text \<open>
  \<^verbatim>\<open>bitstream.c\<close>, \<^verbatim>\<open>metadatav1.c\<close> and \<^verbatim>\<open>bits_utils.c\<close>: checking the path of a file, reading it, taking the
  header apart, and turning the JSON metadata into a structure of allocated blocks.

  The allocator is explicit: every block has an address, \<open>bs_live\<close> holds the live ones, and freeing
  anything else is undefined (None), NULL apart, which is address 0. Which allocations succeed is
  arbitrary. The JSON library, the UUID library, and the file system are parameters. A JSON value is a
  datatype, with floating-point numbers of an arbitrary type.
\<close>

datatype 'd json =
    JNull
  | JBool bool
  | JInt int
  | JDouble 'd
  | JString string
  | JArray "'d json list"
  | JObject "(string \<times> 'd json) list"

text \<open>\<open>fs_real\<close> is what \<^verbatim>\<open>realpath\<close> leaves in its buffer; \<open>fs_stat\<close> says whether a path is a regular file
  and \<open>fs_lstat\<close> whether it is a symbolic link, None when the call fails.\<close>

record 'd bs_env =
  alloc_ok :: "nat \<Rightarrow> bool"
  fs_stat :: "string \<Rightarrow> bool option"
  fs_lstat :: "string \<Rightarrow> bool option"
  fs_real :: "string \<Rightarrow> string"
  fs_open :: "string \<Rightarrow> bool"
  fs_seek_end :: "string \<Rightarrow> int"
  fs_tell :: "string \<Rightarrow> int"
  fs_seek_set :: "string \<Rightarrow> int"
  fs_read :: "string \<Rightarrow> u8 list"
  fs_error :: "string \<Rightarrow> bool"
  json_parse :: "string \<Rightarrow> 'd json option"
  uuid_parse :: "string \<Rightarrow> u8 list option"
  int_double :: "int \<Rightarrow> 'd"

record bs_state =
  bs_next :: nat
  bs_live :: "nat set"
  bs_allocs :: nat
  bs_files :: nat

definition bs_malloc :: "'d bs_env \<Rightarrow> bs_state \<Rightarrow> nat \<times> bs_state" where
  "bs_malloc E s =
     (let s' = s\<lparr>bs_allocs := Suc (bs_allocs s)\<rparr> in
      if alloc_ok E (bs_allocs s)
      then (bs_next s, s'\<lparr>bs_next := Suc (bs_next s), bs_live := insert (bs_next s) (bs_live s)\<rparr>)
      else (0, s'))"

definition bs_free :: "nat \<Rightarrow> bs_state \<Rightarrow> bs_state option" where
  "bs_free a s =
     (if a = 0 then Some s
      else if a \<in> bs_live s then Some (s\<lparr>bs_live := bs_live s - {a}\<rparr>)
      else None)"

subsection \<open>Values of a JSON object (bits_utils.c)\<close>

text \<open>A C string in a block: the address, and the characters before the terminator. None is NULL.\<close>

type_synonym cstr = "(nat \<times> string) option"

definition free_str :: "cstr \<Rightarrow> bs_state \<Rightarrow> bs_state option" where
  "free_str c = bs_free (case c of None \<Rightarrow> 0 | Some (a, _) \<Rightarrow> a)"

fun json_get :: "'d json \<Rightarrow> string \<Rightarrow> 'd json option" where
  "json_get (JObject kvs) name = map_of kvs name"
| "json_get _ name = None"

definition json_cstring :: "string \<Rightarrow> string" where
  "json_cstring = takeWhile (\<lambda>c. c \<noteq> CHR 0x00)"

definition json_int :: "int \<Rightarrow> int" where
  "json_int i = max (- (2 ^ 31)) (min (2 ^ 31 - 1) i)"

definition opae_bitstream_get_json_string ::
  "'d bs_env \<Rightarrow> 'd json \<Rightarrow> string \<Rightarrow> bs_state \<Rightarrow> fpga_result \<times> cstr \<times> bs_state" where
  "opae_bitstream_get_json_string E parent name s =
     (case json_get parent name of
        Some (JString str) \<Rightarrow>
          (case bs_malloc E s of (a, s) \<Rightarrow>
             if a = 0 then (FPGA_NO_MEMORY, None, s) else (FPGA_OK, Some (a, json_cstring str), s))
      | _ \<Rightarrow> (FPGA_EXCEPTION, None, s))"

definition opae_bitstream_get_json_int :: "'d json \<Rightarrow> string \<Rightarrow> fpga_result \<times> int option" where
  "opae_bitstream_get_json_int parent name =
     (case json_get parent name of
        Some (JInt i) \<Rightarrow> (FPGA_OK, Some (json_int i))
      | _ \<Rightarrow> (FPGA_EXCEPTION, None))"

definition opae_bitstream_get_json_double :: "'d json \<Rightarrow> string \<Rightarrow> fpga_result \<times> 'd option" where
  "opae_bitstream_get_json_double parent name =
     (case json_get parent name of
        Some (JDouble x) \<Rightarrow> (FPGA_OK, Some x)
      | _ \<Rightarrow> (FPGA_EXCEPTION, None))"

subsection \<open>Paths (bits_utils.c)\<close>

text \<open>A path is its characters before the terminator. A byte above 127 is not printable.\<close>

definition isprint :: "char \<Rightarrow> bool" where
  "isprint c \<longleftrightarrow> 32 \<le> (of_char c :: nat) \<and> (of_char c :: nat) \<le> 126"

definition isxdigit :: "char \<Rightarrow> bool" where
  "isxdigit c \<longleftrightarrow> (let n = (of_char c :: nat) in 48 \<le> n \<and> n \<le> 57 \<or> 65 \<le> n \<and> n \<le> 70 \<or> 97 \<le> n \<and> n \<le> 102)"

fun opae_bitstream_path_invalid_chars :: "string \<Rightarrow> bool" where
  "opae_bitstream_path_invalid_chars [] \<longleftrightarrow> False"
| "opae_bitstream_path_invalid_chars (ch # path) \<longleftrightarrow>
     \<not> isprint ch \<or>
     ch = CHR ''%'' \<and> (case path of a # b # _ \<Rightarrow> isxdigit a \<and> isxdigit b | _ \<Rightarrow> False) \<or>
     opae_bitstream_path_invalid_chars path"

definition opae_bitstream_path_not_file :: "'d bs_env \<Rightarrow> string \<Rightarrow> bool" where
  "opae_bitstream_path_not_file E path = (fs_stat E path \<noteq> Some True)"

text \<open>The loop over the path; the length goes down with it.\<close>

fun inner_dotdot :: "string \<Rightarrow> bool" where
  "inner_dotdot [] \<longleftrightarrow> False"
| "inner_dotdot (c # path) \<longleftrightarrow>
     (if length (c # path) \<ge> 4 then take 4 (c # path) = ''/../''
      else if length (c # path) = 3 then c # path = ''/..'' else False) \<or>
     inner_dotdot path"

definition opae_bitstream_path_contains_dotdot :: "string \<Rightarrow> bool" where
  "opae_bitstream_path_contains_dotdot path \<longleftrightarrow>
     (if length path \<ge> 3 then take 3 path = ''../''
      else if length path = 2 then path = ''..'' else False) \<or>
     inner_dotdot path"

text \<open>The path up to its last slash.\<close>

definition cut_slash :: "string \<Rightarrow> string option" where
  "cut_slash path =
     (case dropWhile (\<lambda>c. c \<noteq> CHR ''/'') (rev path) of [] \<Rightarrow> None | _ # p \<Rightarrow> Some (rev p))"

lemma cut_slash_length: "cut_slash path = Some p \<Longrightarrow> length p < length path"
proof -
  have "length (dropWhile P xs) \<le> length xs" for P and xs :: string by (rule length_dropWhile_le)
  from this [of "\<lambda>c. c \<noteq> CHR ''/''" "rev path"] show "cut_slash path = Some p \<Longrightarrow> length p < length path"
    by (auto simp: cut_slash_def split: list.splits)
qed

function relative_symlink :: "'d bs_env \<Rightarrow> string \<Rightarrow> bool" where
  "relative_symlink E component \<longleftrightarrow>
     fs_lstat E component \<noteq> Some False \<or>
     (case cut_slash component of None \<Rightarrow> False | Some c \<Rightarrow> relative_symlink E c)"
  by pat_completeness auto
termination by (relation "measure (\<lambda>(E, c). length c)") (auto dest: cut_slash_length)

declare relative_symlink.simps [simp del]

definition BITS_PATH_MAX :: nat where "BITS_PATH_MAX = 4096"

text \<open>The path and its terminator are copied into a buffer of \<^verbatim>\<open>PATH_MAX\<close> bytes.\<close>

definition opae_bitstream_path_contains_symlink :: "'d bs_env \<Rightarrow> string \<Rightarrow> bool option" where
  "opae_bitstream_path_contains_symlink E path =
     (if length path \<ge> BITS_PATH_MAX then None
      else if take 1 path = ''/'' then Some (fs_real E path \<noteq> path)
      else Some (relative_symlink E path))"

definition OPAE_BITSTREAM_PATH_NO_PARENT :: u32 where "OPAE_BITSTREAM_PATH_NO_PARENT = 1"
definition OPAE_BITSTREAM_PATH_NO_SYMLINK :: u32 where "OPAE_BITSTREAM_PATH_NO_SYMLINK = 2"

text \<open>\<open>path\<close> is None for a NULL pointer.\<close>

definition opae_bitstream_path_is_valid :: "'d bs_env \<Rightarrow> string option \<Rightarrow> u32 \<Rightarrow> bool option" where
  "opae_bitstream_path_is_valid E path flags =
     (case path of
        None \<Rightarrow> Some False
      | Some path \<Rightarrow>
          (if path = [] \<or> opae_bitstream_path_invalid_chars path \<or> opae_bitstream_path_not_file E path then Some False
           else if flags AND OPAE_BITSTREAM_PATH_NO_PARENT \<noteq> 0 \<and> opae_bitstream_path_contains_dotdot path
           then Some False
           else if flags AND OPAE_BITSTREAM_PATH_NO_SYMLINK \<noteq> 0
           then map_option Not (opae_bitstream_path_contains_symlink E path)
           else Some True))"

subsection \<open>Version 1 of the metadata (metadatav1.c)\<close>

record cluster =
  cl_total_contexts :: int
  cl_name :: cstr
  cl_uuid :: cstr

text \<open>The array of clusters is a block of its own, None when the pointer is NULL.\<close>

record 'd afu_image =
  ai_high :: 'd
  ai_low :: 'd
  ai_power :: 'd
  ai_uuid :: cstr
  ai_magic :: int
  ai_clusters :: "(nat \<times> cluster list) option"

record 'd metadata =
  md_address :: nat
  md_version :: int
  md_afu_image :: "'d afu_image"
  md_platform_name :: cstr

definition zero_cluster :: cluster where
  "zero_cluster = \<lparr>cl_total_contexts = 0, cl_name = None, cl_uuid = None\<rparr>"

definition parse_cluster_v1 ::
  "'d bs_env \<Rightarrow> 'd json \<Rightarrow> bs_state \<Rightarrow> (fpga_result \<times> cluster \<times> bs_state) option" where
  "parse_cluster_v1 E j_cluster s =
     (case opae_bitstream_get_json_int j_cluster ''total-contexts'' of
        (res, None) \<Rightarrow> Some (res, zero_cluster, s)
      | (res, Some contexts) \<Rightarrow>
      case opae_bitstream_get_json_string E j_cluster ''name'' s of (res, name, s) \<Rightarrow>
      let c = \<lparr>cl_total_contexts = contexts, cl_name = name, cl_uuid = None\<rparr> in
      if res \<noteq> FPGA_OK then do { s \<leftarrow> free_str name s; Some (res, c\<lparr>cl_name := None\<rparr>, s) }
      else case opae_bitstream_get_json_string E j_cluster ''accelerator-type-uuid'' s of (res, uuid, s) \<Rightarrow>
      if res \<noteq> FPGA_OK then do { s \<leftarrow> free_str name s; Some (res, c\<lparr>cl_name := None\<rparr>, s) }
      else Some (FPGA_OK, c\<lparr>cl_uuid := uuid\<rparr>, s))"

text \<open>
  The loop over the clusters: the clusters parsed so far, in order. An array has fewer than \<open>2 ^ 31\<close>
  elements.
\<close>

fun parse_clusters_v1 ::
  "'d bs_env \<Rightarrow> 'd json list \<Rightarrow> bs_state \<Rightarrow> (fpga_result \<times> cluster list \<times> bs_state) option" where
  "parse_clusters_v1 E [] s = Some (FPGA_OK, [], s)"
| "parse_clusters_v1 E (j # js) s = do {
     (res, c, s) \<leftarrow> parse_cluster_v1 E j s;
     (if res \<noteq> FPGA_OK then Some (res, [], s)
      else do {
        (res, cs, s) \<leftarrow> parse_clusters_v1 E js s;
        Some (res, c # cs, s)
      })
   }"

fun free_clusters :: "cluster list \<Rightarrow> bs_state \<Rightarrow> bs_state option" where
  "free_clusters [] s = Some s"
| "free_clusters (c # cs) s = do {
     s \<leftarrow> free_str (cl_name c) s;
     s \<leftarrow> free_str (cl_uuid c) s;
     free_clusters cs s
   }"

text \<open>A number that may be missing: a double, else an integer, else 0.\<close>

definition optional_number :: "'d bs_env \<Rightarrow> 'd json \<Rightarrow> string \<Rightarrow> 'd" where
  "optional_number E j name =
     (case opae_bitstream_get_json_double j name of
        (_, Some x) \<Rightarrow> x
      | (_, None) \<Rightarrow>
          (case opae_bitstream_get_json_int j name of
             (_, Some i) \<Rightarrow> int_double E i
           | (_, None) \<Rightarrow> int_double E 0))"

definition OPAE_LEGACY_BITSTREAM_MAGIC :: u32 where "OPAE_LEGACY_BITSTREAM_MAGIC = 0x1d1f8680"

text \<open>The label \<^verbatim>\<open>out_free\<close>.\<close>

definition free_afu_image :: "'d afu_image \<Rightarrow> bs_state \<Rightarrow> ('d afu_image \<times> bs_state) option" where
  "free_afu_image img s = do {
     s \<leftarrow> free_str (ai_uuid img) s;
     s \<leftarrow> (case ai_clusters img of
             None \<Rightarrow> Some s
           | Some (a, cs) \<Rightarrow> do { s \<leftarrow> free_clusters cs s; bs_free a s });
     Some (img\<lparr>ai_uuid := None, ai_clusters := None\<rparr>, s)
   }"

text \<open>From the key \<^verbatim>\<open>accelerator-clusters\<close> on.\<close>

definition parse_clusters_array ::
  "'d bs_env \<Rightarrow> 'd json \<Rightarrow> 'd afu_image \<Rightarrow> bs_state \<Rightarrow> (fpga_result \<times> 'd afu_image \<times> bs_state) option" where
  "parse_clusters_array E j_afu_image img s =
     (case json_get j_afu_image ''accelerator-clusters'' of
        Some (JArray js) \<Rightarrow>
          (case bs_malloc E s of (a, s) \<Rightarrow>
             if a = 0 then do { (img, s) \<leftarrow> free_afu_image img s; Some (FPGA_NO_MEMORY, img, s) }
             else do {
               (res, cs, s) \<leftarrow> parse_clusters_v1 E js s;
               let img = img\<lparr>ai_clusters := Some (a, cs)\<rparr>;
               (if res \<noteq> FPGA_OK then do { (img, s) \<leftarrow> free_afu_image img s; Some (res, img, s) }
                else Some (FPGA_OK, img, s))
             })
      | _ \<Rightarrow> do { (img, s) \<leftarrow> free_afu_image img s; Some (FPGA_EXCEPTION, img, s) })"

text \<open>\<open>pr\<close> is the GUID of the caller, which is written when the UUID can be parsed.\<close>

definition parse_afu_image_v1 ::
  "'d bs_env \<Rightarrow> 'd json \<Rightarrow> u8 list \<Rightarrow> bs_state \<Rightarrow> (fpga_result \<times> 'd afu_image \<times> u8 list \<times> bs_state) option" where
  "parse_afu_image_v1 E j pr s =
     (let img = \<lparr>ai_high = optional_number E j ''clock-frequency-high'', ai_low = optional_number E j ''clock-frequency-low'',
            ai_power = optional_number E j ''power'', ai_uuid = None, ai_magic = 0, ai_clusters = None\<rparr> in
      case opae_bitstream_get_json_int j ''magic-no'' of
        (res, None) \<Rightarrow> Some (res, img, pr, s)
      | (_, Some magic) \<Rightarrow>
      let img = img\<lparr>ai_magic := magic\<rparr> in
      if magic \<noteq> uint OPAE_LEGACY_BITSTREAM_MAGIC
      then do { (img, s) \<leftarrow> free_afu_image img s; Some (FPGA_EXCEPTION, img, pr, s) }
      else case opae_bitstream_get_json_string E j ''interface-uuid'' s of (res, uuid, s) \<Rightarrow>
      let img = img\<lparr>ai_uuid := uuid\<rparr> in
      case uuid of
        None \<Rightarrow> do { (img, s) \<leftarrow> free_afu_image img s; Some (res, img, pr, s) }
      | Some (_, str) \<Rightarrow>
          (case uuid_parse E str of
             None \<Rightarrow> do { (img, s) \<leftarrow> free_afu_image img s; Some (FPGA_EXCEPTION, img, pr, s) }
           | Some pr \<Rightarrow> do {
               (res, img, s) \<leftarrow> parse_clusters_array E j img s;
               Some (res, img, pr, s)
             }))"

definition opae_bitstream_parse_metadata_v1 ::
  "'d bs_env \<Rightarrow> 'd json \<Rightarrow> u8 list \<Rightarrow> bs_state \<Rightarrow> ('d metadata option \<times> u8 list \<times> bs_state) option" where
  "opae_bitstream_parse_metadata_v1 E root pr s =
     (case bs_malloc E s of (a, s) \<Rightarrow>
      if a = 0 then Some (None, pr, s)
      else case opae_bitstream_get_json_string E root ''platform-name'' s of (_, platform, s) \<Rightarrow>
      case json_get root ''afu-image'' of
        None \<Rightarrow> do { s \<leftarrow> free_str platform s; s \<leftarrow> bs_free a s; Some (None, pr, s) }
      | Some j_afu_image \<Rightarrow> do {
          (res, img, pr, s) \<leftarrow> parse_afu_image_v1 E j_afu_image pr s;
          (if res \<noteq> FPGA_OK
           then do { s \<leftarrow> free_str platform s; s \<leftarrow> bs_free a s; Some (None, pr, s) }
           else Some (Some \<lparr>md_address = a, md_version = 1, md_afu_image = img, md_platform_name = platform\<rparr>, pr, s))
        })"

definition opae_bitstream_release_metadata_v1 :: "'d metadata \<Rightarrow> bs_state \<Rightarrow> bs_state option" where
  "opae_bitstream_release_metadata_v1 md s = do {
     s \<leftarrow> (case ai_clusters (md_afu_image md) of
             None \<Rightarrow> Some s
           | Some (a, cs) \<Rightarrow> do { s \<leftarrow> free_clusters cs s; bs_free a s });
     s \<leftarrow> free_str (ai_uuid (md_afu_image md)) s;
     s \<leftarrow> free_str (md_platform_name md) s;
     bs_free (md_address md) s
   }"

subsection \<open>Files (bitstream.c)\<close>

text \<open>
  What is read is the block and its bytes. When \<^verbatim>\<open>fread\<close> delivers something else than the size the
  file had, the file is refused.
\<close>

definition close_file :: "bs_state \<Rightarrow> bs_state" where
  "close_file s = s\<lparr>bs_files := bs_files s - 1\<rparr>"

definition opae_bitstream_read_file ::
  "'d bs_env \<Rightarrow> string \<Rightarrow> bs_state \<Rightarrow> (fpga_result \<times> (nat \<times> u8 list) option \<times> bs_state) option" where
  "opae_bitstream_read_file E file s =
     (if \<not> fs_open E file then Some (FPGA_EXCEPTION, None, s)
      else let s = s\<lparr>bs_files := Suc (bs_files s)\<rparr> in
      if fs_seek_end E file < 0 \<or> fs_tell E file < 0 then Some (FPGA_EXCEPTION, None, close_file s)
      else case bs_malloc E s of (a, s) \<Rightarrow>
      if a = 0 then Some (FPGA_NO_MEMORY, None, close_file s)
      else let bytes = take (nat (fs_tell E file)) (fs_read E file) in
      if fs_seek_set E file < 0 \<or> fs_error E file \<or> int (length bytes) \<noteq> fs_tell E file
      then do { s \<leftarrow> bs_free a s; Some (FPGA_EXCEPTION, None, close_file s) }
      else Some (FPGA_OK, Some (a, bytes), close_file s))"

text \<open>\<open>bi_rbf\<close> is the offset of the logic in the data.\<close>

record 'd bitstream_info =
  bi_filename :: "string option"
  bi_data :: "(nat \<times> u8 list) option"
  bi_data_len :: nat
  bi_rbf :: "nat option"
  bi_rbf_len :: nat
  bi_pr_interface_id :: "u8 list"
  bi_version :: int
  bi_metadata :: "'d metadata option"

definition OPAE_BITSTREAM_INFO_INITIALIZER :: "'d bitstream_info" where
  "OPAE_BITSTREAM_INFO_INITIALIZER = \<lparr>bi_filename = None, bi_data = None, bi_data_len = 0, bi_rbf = None, bi_rbf_len = 0,
     bi_pr_interface_id = replicate 16 0, bi_version = 0, bi_metadata = None\<rparr>"

text \<open>A little-endian 32-bit field of a packed header.\<close>

definition field32 :: "nat \<Rightarrow> u8 list \<Rightarrow> u32" where
  "field32 off bs = ucast (bs ! off) + push_bit 8 (ucast (bs ! (off + 1))) + push_bit 16 (ucast (bs ! (off + 2))) +
     push_bit 24 (ucast (bs ! (off + 3)))"

definition data_bytes :: "'d bitstream_info \<Rightarrow> u8 list" where
  "data_bytes info = (case bi_data info of None \<Rightarrow> [] | Some (_, bs) \<Rightarrow> bs)"

definition legacy_header_size :: nat where "legacy_header_size = 20"
definition bitstream_header_size :: nat where "bitstream_header_size = 21"

definition opae_is_legacy_bitstream :: "'d bitstream_info \<Rightarrow> bool" where
  "opae_is_legacy_bitstream info \<longleftrightarrow>
     legacy_header_size \<le> bi_data_len info \<and> field32 0 (data_bytes info) = OPAE_LEGACY_BITSTREAM_MAGIC"

definition opae_resolve_legacy_bitstream :: "'d bitstream_info \<Rightarrow> 'd bitstream_info" where
  "opae_resolve_legacy_bitstream info =
     info\<lparr>bi_pr_interface_id := rev (take 16 (drop 4 (data_bytes info))),
          bi_rbf := Some legacy_header_size, bi_rbf_len := bi_data_len info - legacy_header_size\<rparr>"

definition opae_bitstream_parse_metadata ::
  "'d bs_env \<Rightarrow> string \<Rightarrow> 'd bitstream_info \<Rightarrow> bs_state \<Rightarrow> ('d bitstream_info \<times> bs_state) option" where
  "opae_bitstream_parse_metadata E text info s =
     (case json_parse E text of
        None \<Rightarrow> Some (info\<lparr>bi_metadata := None\<rparr>, s)
      | Some root \<Rightarrow>
          (case json_get root ''version'' of
             Some (JInt i) \<Rightarrow>
               (let version = json_int i in
                if version \<in> {650, 640, 1} then do {
                  (md, pr, s) \<leftarrow> opae_bitstream_parse_metadata_v1 E root (bi_pr_interface_id info) s;
                  Some (info\<lparr>bi_pr_interface_id := pr, bi_version := 1, bi_metadata := md\<rparr>, s)
                }
                else Some (info\<lparr>bi_version := version, bi_metadata := None\<rparr>, s))
           | _ \<Rightarrow> Some (info\<lparr>bi_metadata := None\<rparr>, s)))"

definition valid_GBS_guid :: "u8 list" where
  "valid_GBS_guid = [0x58, 0x65, 0x6f, 0x6e, 0x46, 0x50, 0x47, 0x41, 0xb7, 0x47, 0x42, 0x53, 0x76, 0x30, 0x30, 0x31]"

text \<open>
  The metadata are copied into a block of \<^verbatim>\<open>metadata_length + 1\<close> bytes, a sum in 32 bits, and terminated:
  when the sum is 0 the copy leaves the block.
\<close>

definition opae_resolve_bitstream ::
  "'d bs_env \<Rightarrow> 'd bitstream_info \<Rightarrow> bs_state \<Rightarrow> (fpga_result \<times> 'd bitstream_info \<times> bs_state) option" where
  "opae_resolve_bitstream E info s =
     (if bi_data_len info < bitstream_header_size then Some (FPGA_INVALID_PARAM, info, s)
      else let bs = data_bytes info; metadata_length = field32 16 bs; sz = 20 + unat metadata_length in
      if take 16 bs \<noteq> valid_GBS_guid then Some (FPGA_INVALID_PARAM, info, s)
      else if sz > bi_data_len info then Some (FPGA_INVALID_PARAM, info, s)
      else let info = info\<lparr>bi_rbf := Some sz, bi_rbf_len := bi_data_len info - sz\<rparr> in
      case bs_malloc E s of (a, s) \<Rightarrow>
      if a = 0 then Some (FPGA_NO_MEMORY, info, s)
      else if metadata_length + 1 = 0 then None
      else do {
        let buf = map (\<lambda>b. char_of (unat b)) (take (unat metadata_length) (drop 20 bs));
        (info, s) \<leftarrow> opae_bitstream_parse_metadata E (json_cstring buf) info s;
        s \<leftarrow> bs_free a s;
        Some (if bi_metadata info \<noteq> None then FPGA_OK else FPGA_EXCEPTION, info, s)
      })"

text \<open>\<open>file\<close> and \<open>info\<close> are None for NULL pointers.\<close>

definition opae_load_bitstream ::
  "'d bs_env \<Rightarrow> string option \<Rightarrow> 'd bitstream_info option \<Rightarrow> bs_state \<Rightarrow>
     (fpga_result \<times> 'd bitstream_info option \<times> bs_state) option" where
  "opae_load_bitstream E file info s =
     (case (file, info) of
        (Some file, Some info) \<Rightarrow> do {
          valid \<leftarrow> opae_bitstream_path_is_valid E (Some file) OPAE_BITSTREAM_PATH_NO_SYMLINK;
          (if \<not> valid then Some (FPGA_INVALID_PARAM, Some info, s)
           else do {
             let info = OPAE_BITSTREAM_INFO_INITIALIZER;
             (res, data, s) \<leftarrow> opae_bitstream_read_file E file s;
             let info = info\<lparr>bi_data := data, bi_data_len := (case data of None \<Rightarrow> 0 | Some (_, bs) \<Rightarrow> length bs)\<rparr>;
             (if res \<noteq> FPGA_OK then Some (res, Some info, s)
              else do {
                let info = info\<lparr>bi_filename := Some file\<rparr>;
                (if opae_is_legacy_bitstream info then Some (FPGA_OK, Some (opae_resolve_legacy_bitstream info), s)
                 else do {
                   (res, info, s) \<leftarrow> opae_resolve_bitstream E info s;
                   Some (res, Some info, s)
                 })
              })
           })
        }
      | _ \<Rightarrow> Some (FPGA_INVALID_PARAM, info, s))"

definition opae_unload_bitstream ::
  "'d bitstream_info option \<Rightarrow> bs_state \<Rightarrow> (fpga_result \<times> 'd bitstream_info option \<times> bs_state) option" where
  "opae_unload_bitstream info s =
     (case info of
        None \<Rightarrow> Some (FPGA_INVALID_PARAM, None, s)
      | Some info \<Rightarrow> do {
          s \<leftarrow> bs_free (case bi_data info of None \<Rightarrow> 0 | Some (a, _) \<Rightarrow> a) s;
          (case bi_metadata info of
             None \<Rightarrow> Some (FPGA_OK, Some OPAE_BITSTREAM_INFO_INITIALIZER, s)
           | Some md \<Rightarrow>
               (if bi_version info = 1 then do {
                  s \<leftarrow> opae_bitstream_release_metadata_v1 md s;
                  Some (FPGA_OK, Some OPAE_BITSTREAM_INFO_INITIALIZER, s)
                }
                else Some (FPGA_EXCEPTION, Some OPAE_BITSTREAM_INFO_INITIALIZER, s)))
        })"

end
