(* ===== verification/Bitstream_Correct.thy ===== *)
theory Bitstream_Correct
  imports Bitstream "HOL-Library.Multiset"
begin

section \<open>Correctness of libbitstream\<close>

text \<open>
  Every block the library allocates belongs to the structure it returns or is freed, whichever allocation
  fails and whatever the file and its metadata look like; what a file decodes to; and what the
  checks of a path mean.
\<close>

subsection \<open>Blocks\<close>

text \<open>\<open>owns s as s'\<close>: from \<open>s\<close> to \<open>s'\<close> exactly the blocks \<open>as\<close> have been added, all of them new.\<close>

definition bs_ok :: "bs_state \<Rightarrow> bool" where
  "bs_ok s \<longleftrightarrow> 0 < bs_next s \<and> (\<forall>a\<in>bs_live s. 0 < a \<and> a < bs_next s)"

definition owns :: "bs_state \<Rightarrow> nat list \<Rightarrow> bs_state \<Rightarrow> bool" where
  "owns s as s' \<longleftrightarrow> bs_ok s' \<and> bs_files s' = bs_files s \<and> bs_next s \<le> bs_next s' \<and>
     distinct as \<and> set as \<subseteq> {bs_next s..<bs_next s'} \<and> bs_live s' = bs_live s \<union> set as"

lemma owns_refl: "bs_ok s \<Longrightarrow> owns s [] s"
  by (simp add: owns_def)

lemma owns_ok: "owns s as s' \<Longrightarrow> bs_ok s'"
  by (simp add: owns_def)

lemma owns_trans: "owns s as s1 \<Longrightarrow> owns s1 bs s2 \<Longrightarrow> owns s (as @ bs) s2"
  by (fastforce simp: owns_def)

lemma owns_perm: "owns s as s' \<Longrightarrow> mset bs = mset as \<Longrightarrow> owns s bs s'"
  unfolding owns_def by (metis mset_eq_imp_distinct_iff mset_eq_setD)

lemma malloc_owns:
  assumes "bs_ok s" "bs_malloc E s = (a, s')"
  shows "a = 0 \<Longrightarrow> owns s [] s'" "a \<noteq> 0 \<Longrightarrow> owns s [a] s'"
  using assms by (auto simp: bs_malloc_def owns_def bs_ok_def Let_def less_Suc_eq split: if_splits)

fun bs_frees :: "nat list \<Rightarrow> bs_state \<Rightarrow> bs_state option" where
  "bs_frees [] s = Some s"
| "bs_frees (a # as) s = do { s \<leftarrow> bs_free a s; bs_frees as s }"

lemma bs_frees_Nil [simp]: "bs_frees [] = Some"
  by (rule ext) simp

lemma bs_frees_append: "bs_frees (as @ bs) = (\<lambda>s. do { s \<leftarrow> bs_frees as s; bs_frees bs s })"
  by (induction as) (rule ext, simp)+

lemma frees_owns:
  assumes "bs_ok s" "owns s (as @ bs) s1"
  shows "\<exists>s2. bs_frees as s1 = Some s2 \<and> owns s bs s2"
  using assms(2)
proof (induction as arbitrary: s1)
  case Nil
  then show ?case by simp
next
  case (Cons a as)
  let ?s = "s1\<lparr>bs_live := bs_live s1 - {a}\<rparr>"
  have "bs_free a s1 = Some ?s" using Cons.prems assms(1) by (auto simp: bs_free_def owns_def bs_ok_def)
  moreover have "owns s (as @ bs) ?s"
    using Cons.prems assms(1) by (auto simp: owns_def bs_ok_def)
  ultimately show ?case using Cons.IH by simp
qed

text \<open>The blocks of the structures.\<close>

fun str_blocks :: "cstr \<Rightarrow> nat list" where
  "str_blocks None = []"
| "str_blocks (Some (a, _)) = [a]"

definition cluster_blocks :: "cluster \<Rightarrow> nat list" where
  "cluster_blocks c = str_blocks (cl_name c) @ str_blocks (cl_uuid c)"

definition array_blocks :: "(nat \<times> cluster list) option \<Rightarrow> nat list" where
  "array_blocks x = (case x of None \<Rightarrow> [] | Some (a, cs) \<Rightarrow> concat (map cluster_blocks cs) @ [a])"

definition afu_blocks :: "'d afu_image \<Rightarrow> nat list" where
  "afu_blocks img = str_blocks (ai_uuid img) @ array_blocks (ai_clusters img)"

definition md_blocks :: "'d metadata \<Rightarrow> nat list" where
  "md_blocks md = array_blocks (ai_clusters (md_afu_image md)) @ str_blocks (ai_uuid (md_afu_image md)) @
     str_blocks (md_platform_name md) @ [md_address md]"

lemma bs_free_0 [simp]: "bs_free 0 s = Some s"
  by (simp add: bs_free_def)

lemma free_str_frees: "free_str c s = bs_frees (str_blocks c) s"
  by (cases c) (auto simp: free_str_def split: Option.bind_split)

lemma free_clusters_Nil [simp]: "free_clusters [] = Some"
  by (rule ext) simp

lemma free_clusters_frees: "free_clusters cs = bs_frees (concat (map cluster_blocks cs))"
  by (induction cs) (rule ext, simp add: free_str_frees bs_frees_append cluster_blocks_def)+

lemma free_array_frees:
  "(case x of None \<Rightarrow> Some s | Some (a, cs) \<Rightarrow> do { s \<leftarrow> free_clusters cs s; bs_free a s }) = bs_frees (array_blocks x) s"
  by (auto simp: array_blocks_def free_clusters_frees bs_frees_append split: option.split)

lemma free_afu_image_frees:
  "free_afu_image img s = do { s \<leftarrow> bs_frees (afu_blocks img) s; Some (img\<lparr>ai_uuid := None, ai_clusters := None\<rparr>, s) }"
  by (simp add: free_afu_image_def free_str_frees free_array_frees afu_blocks_def bs_frees_append)

lemma release_frees: "opae_bitstream_release_metadata_v1 md s = bs_frees (md_blocks md) s"
  unfolding opae_bitstream_release_metadata_v1_def free_array_frees
  by (simp add: md_blocks_def free_str_frees bs_frees_append)

subsection \<open>Parsing the metadata\<close>

lemma json_string_owns:
  assumes "bs_ok s" "opae_bitstream_get_json_string E j name s = (res, c, s')"
  shows "owns s (str_blocks c) s'" "res = FPGA_OK \<longleftrightarrow> c \<noteq> None"
  using assms malloc_owns [OF assms(1)]
  by (auto simp: opae_bitstream_get_json_string_def owns_refl split: option.splits json.splits prod.splits if_splits)

lemma parse_cluster_owns:
  assumes "bs_ok s"
  shows "\<exists>res c s'. parse_cluster_v1 E j s = Some (res, c, s') \<and> owns s (if res = FPGA_OK then cluster_blocks c else []) s'"
proof (cases "opae_bitstream_get_json_int j ''total-contexts''")
  case (Pair res tc)
  obtain r1 name s1 where 1: "opae_bitstream_get_json_string E j ''name'' s = (r1, name, s1)" by (metis prod_cases3)
  obtain r2 uuid s2 where 2: "opae_bitstream_get_json_string E j ''accelerator-type-uuid'' s1 = (r2, uuid, s2)"
    by (metis prod_cases3)
  note o1 = json_string_owns [OF assms 1]
  note o2 = json_string_owns [OF owns_ok [OF o1(1)] 2]
  have r: "tc = None \<Longrightarrow> res \<noteq> FPGA_OK"
    using Pair by (auto simp: opae_bitstream_get_json_int_def split: option.splits json.splits)
  note f1 = frees_owns [OF assms, of "str_blocks name" "[]" s1]
  have "uuid = None \<Longrightarrow> owns s (str_blocks name @ []) s2" using owns_trans [OF o1(1) o2(1)] by simp
  note f2 = frees_owns [OF assms this]
  show ?thesis
    using Pair 1 2 r o1 o2 f1 f2 owns_trans [OF o1(1) o2(1)] owns_refl [OF assms]
    by (cases tc; cases "r1 = FPGA_OK"; cases uuid)
      (auto simp: parse_cluster_v1_def free_str_frees cluster_blocks_def)
qed

lemma parse_clusters_owns:
  assumes "bs_ok s"
  shows "\<exists>res cs s'. parse_clusters_v1 E js s = Some (res, cs, s') \<and> owns s (concat (map cluster_blocks cs)) s' \<and>
    (res = FPGA_OK \<longrightarrow> length cs = length js)"
  using assms
proof (induction js arbitrary: s)
  case Nil
  then show ?case by (simp add: owns_refl)
next
  case (Cons j js)
  obtain r1 c s1 where 1: "parse_cluster_v1 E j s = Some (r1, c, s1)" "owns s (if r1 = FPGA_OK then cluster_blocks c else []) s1"
    using parse_cluster_owns [OF Cons.prems] by blast
  show ?case
  proof (cases "r1 = FPGA_OK")
    case False
    with 1 show ?thesis by simp
  next
    case True
    obtain r2 cs s2 where 2: "parse_clusters_v1 E js s1 = Some (r2, cs, s2)" "owns s1 (concat (map cluster_blocks cs)) s2"
        "r2 = FPGA_OK \<longrightarrow> length cs = length js"
      using Cons.IH [OF owns_ok [OF 1(2)]] by blast
    with 1 True owns_trans [of s "cluster_blocks c" s1 "concat (map cluster_blocks cs)" s2] show ?thesis by simp
  qed
qed

lemma free_afu_owns:
  assumes "bs_ok s" "owns s (afu_blocks img) s1"
  shows "\<exists>img' s2. free_afu_image img s1 = Some (img', s2) \<and> owns s [] s2"
  using frees_owns [OF assms(1), of "afu_blocks img" "[]" s1] assms(2) by (auto simp: free_afu_image_frees)

lemma parse_clusters_array_owns:
  assumes "bs_ok s" "owns s (afu_blocks img) s1" "ai_clusters img = None"
  shows "\<exists>res img' s2. parse_clusters_array E j img s1 = Some (res, img', s2) \<and>
    owns s (if res = FPGA_OK then afu_blocks img' else []) s2"
proof (cases "\<exists>js. json_get j ''accelerator-clusters'' = Some (JArray js)")
  case False
  then have "parse_clusters_array E j img s1 = do { (img, s) \<leftarrow> free_afu_image img s1; Some (FPGA_EXCEPTION, img, s) }"
    by (auto simp: parse_clusters_array_def split: option.split json.split)
  with free_afu_owns [OF assms(1,2)] show ?thesis by auto
next
  case True
  then obtain js where js: "json_get j ''accelerator-clusters'' = Some (JArray js)" by blast
  obtain a sm where m: "bs_malloc E s1 = (a, sm)" by fastforce
  note om = malloc_owns [OF owns_ok [OF assms(2)] m]
  show ?thesis
  proof (cases "a = 0")
    case True
    with owns_trans [OF assms(2) om(1)] have "owns s (afu_blocks img) sm" by simp
    with free_afu_owns [OF assms(1) this] js m True show ?thesis by (auto simp: parse_clusters_array_def)
  next
    case False
    obtain res cs sc where c: "parse_clusters_v1 E js sm = Some (res, cs, sc)" "owns sm (concat (map cluster_blocks cs)) sc"
      using parse_clusters_owns [OF owns_ok [OF om(2) [OF False]]] by blast
    let ?img = "img\<lparr>ai_clusters := Some (a, cs)\<rparr>"
    have "owns s (afu_blocks img @ [a] @ concat (map cluster_blocks cs)) sc"
      by (rule owns_trans [OF assms(2) owns_trans [OF om(2) [OF False] c(2)]])
    then have o: "owns s (afu_blocks ?img) sc"
      by (rule owns_perm) (simp add: afu_blocks_def array_blocks_def assms(3))
    show ?thesis
      using js m False c(1) o free_afu_owns [OF assms(1) o]
      by (cases "res = FPGA_OK") (auto simp: parse_clusters_array_def)
  qed
qed

lemma parse_afu_image_owns:
  assumes "bs_ok s"
  shows "\<exists>res img pr' s'. parse_afu_image_v1 E j pr s = Some (res, img, pr', s') \<and>
    owns s (if res = FPGA_OK then afu_blocks img else []) s'"
proof -
  define img0 where "img0 = \<lparr>ai_high = optional_number E j ''clock-frequency-high'',
      ai_low = optional_number E j ''clock-frequency-low'', ai_power = optional_number E j ''power'', ai_uuid = None,
      ai_magic = 0, ai_clusters = None\<rparr>"
  obtain res mg where mg: "opae_bitstream_get_json_int j ''magic-no'' = (res, mg)" by fastforce
  obtain r1 uuid s1 where 1: "opae_bitstream_get_json_string E j ''interface-uuid'' s = (r1, uuid, s1)" by (metis prod_cases3)
  note o1 = json_string_owns [OF assms 1]
  have free: "owns s (afu_blocks (img0\<lparr>ai_magic := m, ai_uuid := u\<rparr>)) t \<Longrightarrow>
      \<exists>img' s2. free_afu_image (img0\<lparr>ai_magic := m, ai_uuid := u\<rparr>) t = Some (img', s2) \<and> owns s [] s2" for m u t
    by (rule free_afu_owns [OF assms])
  consider (no_magic) "mg = None" | (magic) m where "mg = Some m" "m \<noteq> uint OPAE_LEGACY_BITSTREAM_MAGIC"
    | (string) "mg = Some (uint OPAE_LEGACY_BITSTREAM_MAGIC)" "uuid = None"
    | (uuid) a str where "mg = Some (uint OPAE_LEGACY_BITSTREAM_MAGIC)" "uuid = Some (a, str)"
    by (cases mg; cases uuid) auto
  then show ?thesis
  proof cases
    case no_magic
    then have "res \<noteq> FPGA_OK"
      using mg by (auto simp: opae_bitstream_get_json_int_def split: option.splits json.splits)
    with mg no_magic show ?thesis
      by (simp add: parse_afu_image_v1_def owns_refl [OF assms])
  next
    case magic
    with free [where m = m and u = None and t = s] mg show ?thesis
      by (auto simp: parse_afu_image_v1_def afu_blocks_def array_blocks_def img0_def owns_refl [OF assms])
  next
    case string
    with o1 have "owns s [] s1" "r1 \<noteq> FPGA_OK" by simp_all
    with free [where m = "uint OPAE_LEGACY_BITSTREAM_MAGIC" and u = None and t = s1] mg string 1 show ?thesis
      by (auto simp: parse_afu_image_v1_def afu_blocks_def array_blocks_def img0_def)
  next
    case uuid
    let ?img = "img0\<lparr>ai_magic := uint OPAE_LEGACY_BITSTREAM_MAGIC, ai_uuid := Some (a, str)\<rparr>"
    have o: "owns s (afu_blocks ?img) s1" using o1 uuid by (simp add: afu_blocks_def array_blocks_def img0_def)
    have none: "ai_clusters ?img = None" by (simp add: img0_def)
    obtain r2 img2 s2 where 2: "parse_clusters_array E j ?img s1 = Some (r2, img2, s2)"
        "owns s (if r2 = FPGA_OK then afu_blocks img2 else []) s2"
      using parse_clusters_array_owns [OF assms o none] by blast
    obtain img3 s3 where 3: "free_afu_image ?img s1 = Some (img3, s3)" "owns s [] s3" using free [OF o] by blast
    show ?thesis
    proof (cases "uuid_parse E str")
      case None
      with 3 mg uuid 1 show ?thesis by (simp add: parse_afu_image_v1_def img0_def)
    next
      case (Some pr')
      with 2 mg uuid 1 show ?thesis by (simp add: parse_afu_image_v1_def img0_def)
    qed
  qed
qed

lemma parse_metadata_v1_owns:
  assumes "bs_ok s"
  shows "\<exists>md pr' s'. opae_bitstream_parse_metadata_v1 E root pr s = Some (md, pr', s') \<and>
    owns s (case md of None \<Rightarrow> [] | Some md \<Rightarrow> md_blocks md) s' \<and> (\<forall>m. md = Some m \<longrightarrow> md_version m = 1)"
proof -
  obtain a s1 where 1: "bs_malloc E s = (a, s1)" by fastforce
  note o1 = malloc_owns [OF assms 1]
  show ?thesis
  proof (cases "a = 0")
    case True
    with 1 o1 show ?thesis by (simp add: opae_bitstream_parse_metadata_v1_def)
  next
    case False
    obtain r2 pf s2 where 2: "opae_bitstream_get_json_string E root ''platform-name'' s1 = (r2, pf, s2)" by (metis prod_cases3)
    have "owns s ([a] @ str_blocks pf) s2"
      by (rule owns_trans [OF o1(2) [OF False] json_string_owns(1) [OF owns_ok [OF o1(2) [OF False]] 2]])
    then have o2: "owns s ((str_blocks pf @ [a]) @ []) s2" by (rule owns_perm) simp
    have free: "owns s ((str_blocks pf @ [a]) @ []) t \<Longrightarrow>
        \<exists>t1 t2. free_str pf t = Some t1 \<and> bs_free a t1 = Some t2 \<and> owns s [] t2" for t
      using frees_owns [OF assms, of "str_blocks pf @ [a]" "[]" t]
      by (auto simp: free_str_frees bs_frees_append split: Option.bind_splits)
    show ?thesis
    proof (cases "json_get root ''afu-image''")
      case None
      with 1 2 False free [OF o2] show ?thesis
        by (auto simp: opae_bitstream_parse_metadata_v1_def)
    next
      case (Some j)
      obtain r3 img pr' s3 where 3: "parse_afu_image_v1 E j pr s2 = Some (r3, img, pr', s3)"
          "owns s2 (if r3 = FPGA_OK then afu_blocks img else []) s3"
        using parse_afu_image_owns [OF owns_ok [OF o2]] by blast
      note o3 = owns_trans [OF o2 3(2)]
      show ?thesis
      proof (cases "r3 = FPGA_OK")
        case True
        have "owns s (md_blocks \<lparr>md_address = a, md_version = 1, md_afu_image = img, md_platform_name = pf\<rparr>) s3"
          by (rule owns_perm [OF o3]) (simp add: True md_blocks_def afu_blocks_def)
        with 1 2 3(1) False Some True show ?thesis by (simp add: opae_bitstream_parse_metadata_v1_def)
      next
        case False
        with o3 have "owns s ((str_blocks pf @ [a]) @ []) s3" by simp
        from free [OF this] 1 2 3(1) \<open>a \<noteq> 0\<close> Some False show ?thesis
          by (auto simp: opae_bitstream_parse_metadata_v1_def)
      qed
    qed
  qed
qed

subsection \<open>Loading and unloading\<close>

definition data_blocks :: "(nat \<times> u8 list) option \<Rightarrow> nat list" where
  "data_blocks d = (case d of None \<Rightarrow> [] | Some (a, _) \<Rightarrow> [a])"

definition info_blocks :: "'d bitstream_info \<Rightarrow> nat list" where
  "info_blocks info = data_blocks (bi_data info) @ (case bi_metadata info of None \<Rightarrow> [] | Some md \<Rightarrow> md_blocks md)"

lemma read_file_owns:
  assumes "bs_ok s"
  shows "\<exists>res data s'. opae_bitstream_read_file E file s = Some (res, data, s') \<and> owns s (data_blocks data) s' \<and>
    (res = FPGA_OK \<longleftrightarrow> data \<noteq> None) \<and> (\<forall>a bs. data = Some (a, bs) \<longrightarrow> bs = take (nat (fs_tell E file)) (fs_read E file))"
proof -
  let ?t = "s\<lparr>bs_files := Suc (bs_files s)\<rparr>"
  obtain a s1 where 1: "bs_malloc E ?t = (a, s1)" by fastforce
  have "bs_ok ?t" using assms by (simp add: bs_ok_def)
  note o = malloc_owns [OF this 1]
  have close: "owns ?t as t \<Longrightarrow> owns s as (close_file t)" for as t
    by (simp add: owns_def bs_ok_def close_file_def)
  have c0: "owns s [] (close_file ?t)" using close owns_refl \<open>bs_ok ?t\<close> by blast
  have free: "a \<noteq> 0 \<Longrightarrow> \<exists>s2. bs_free a s1 = Some s2 \<and> owns ?t [] s2"
    using frees_owns [OF \<open>bs_ok ?t\<close>, of "[a]" "[]" s1] o(2) by (auto split: Option.bind_splits)
  show ?thesis
    using 1 o close c0 free owns_refl [OF assms]
    by (cases "fs_open E file"; cases "a = 0")
      (auto simp: opae_bitstream_read_file_def Let_def data_blocks_def)
qed

lemma parse_metadata_owns:
  assumes "bs_ok s"
  shows "\<exists>md pr v s'. opae_bitstream_parse_metadata E text info s =
      Some (info\<lparr>bi_pr_interface_id := pr, bi_version := v, bi_metadata := md\<rparr>, s') \<and>
    owns s (case md of None \<Rightarrow> [] | Some md \<Rightarrow> md_blocks md) s' \<and> (md \<noteq> None \<longrightarrow> v = 1)"
proof -
  have same: "info\<lparr>bi_pr_interface_id := bi_pr_interface_id info, bi_version := bi_version info, bi_metadata := x\<rparr> =
      info\<lparr>bi_metadata := x\<rparr>" for x by simp
  have keep: "\<exists>md pr v s'. Some (info\<lparr>bi_metadata := None\<rparr>, s) =
      Some (info\<lparr>bi_pr_interface_id := pr, bi_version := v, bi_metadata := md\<rparr>, s') \<and>
    owns s (case md of None \<Rightarrow> [] | Some md \<Rightarrow> md_blocks md) s' \<and> (md \<noteq> None \<longrightarrow> v = 1)"
    by (intro exI [of _ None] exI [of _ "bi_pr_interface_id info"] exI [of _ "bi_version info"] exI [of _ s])
      (simp add: owns_refl [OF assms])
  show ?thesis
  proof (cases "\<exists>root i. json_parse E text = Some root \<and> json_get root ''version'' = Some (JInt i)")
    case False
    then have "opae_bitstream_parse_metadata E text info s = Some (info\<lparr>bi_metadata := None\<rparr>, s)"
      by (auto simp: opae_bitstream_parse_metadata_def split: option.split json.split)
    with keep show ?thesis by simp
  next
    case True
    then obtain root i where version: "json_parse E text = Some root" "json_get root ''version'' = Some (JInt i)" by blast
    obtain md pr s' where md: "opae_bitstream_parse_metadata_v1 E root (bi_pr_interface_id info) s = Some (md, pr, s')"
        "owns s (case md of None \<Rightarrow> [] | Some md \<Rightarrow> md_blocks md) s'"
      using parse_metadata_v1_owns [OF assms] by blast
    show ?thesis
    proof (cases "json_int i \<in> {650, 640, 1}")
      case True
      then have "opae_bitstream_parse_metadata E text info s =
          Some (info\<lparr>bi_pr_interface_id := pr, bi_version := 1, bi_metadata := md\<rparr>, s')"
        using version md(1) by (simp add: opae_bitstream_parse_metadata_def)
      with md(2) show ?thesis by blast
    next
      case False
      then have "opae_bitstream_parse_metadata E text info s =
          Some (info\<lparr>bi_pr_interface_id := bi_pr_interface_id info, bi_version := json_int i, bi_metadata := None\<rparr>, s)"
        using version by (simp add: opae_bitstream_parse_metadata_def Let_def)
      with owns_refl [OF assms] show ?thesis by fastforce
    qed
  qed
qed

lemma resolve_owns:
  assumes "bs_ok s" "field32 16 (data_bytes info) + 1 \<noteq> 0 \<or> bi_data_len info < 2 ^ 32 + 19" "bi_metadata info = None"
  shows "\<exists>res pr v md rbf len s'. opae_resolve_bitstream E info s =
      Some (res, info\<lparr>bi_rbf := rbf, bi_rbf_len := len, bi_pr_interface_id := pr, bi_version := v, bi_metadata := md\<rparr>, s') \<and>
    owns s (case md of None \<Rightarrow> [] | Some md \<Rightarrow> md_blocks md) s' \<and> (md \<noteq> None \<longrightarrow> v = 1)"
  (is "\<exists>res pr v md rbf len s'. ?P res pr v md rbf len s'")
proof -
  have same: "info\<lparr>bi_rbf := bi_rbf info, bi_rbf_len := bi_rbf_len info, bi_pr_interface_id := bi_pr_interface_id info,
      bi_version := bi_version info, bi_metadata := None\<rparr> = info"
    using assms(3) by simp
  define l where "l = field32 16 (data_bytes info)"
  let ?info = "info\<lparr>bi_rbf := Some (20 + unat l), bi_rbf_len := bi_data_len info - (20 + unat l)\<rparr>"
  show ?thesis
  proof (cases "bi_data_len info < bitstream_header_size \<or> take 16 (data_bytes info) \<noteq> valid_GBS_guid \<or> 20 + unat l > bi_data_len info")
    case True
    then have "?P FPGA_INVALID_PARAM (bi_pr_interface_id info) (bi_version info) None (bi_rbf info) (bi_rbf_len info) s"
      unfolding same by (auto simp: opae_resolve_bitstream_def Let_def l_def owns_refl [OF assms(1)])
    then show ?thesis by blast
  next
    case False
    have l: "l + 1 \<noteq> 0"
    proof (cases "bi_data_len info < 2 ^ 32 + 19")
      case True
      with False have "unat l < 2 ^ 32 - 1" by simp
      then have "unat (l + 1) = unat l + 1" by (simp add: unat_word_ariths)
      then show ?thesis by auto
    qed (use assms(2) l_def in simp)
    obtain a s1 where 1: "bs_malloc E s = (a, s1)" by fastforce
    note o1 = malloc_owns [OF assms(1) 1]
    show ?thesis
    proof (cases "a = 0")
      case True
      with False 1 o1 have "?P FPGA_NO_MEMORY (bi_pr_interface_id info) (bi_version info) None (Some (20 + unat l)) (bi_data_len info - (20 + unat l)) s1"
        by (simp add: opae_resolve_bitstream_def Let_def l_def assms(3))
      then show ?thesis by blast
    next
      case nz: False
      let ?text = "json_cstring (map (\<lambda>b. char_of (unat b)) (take (unat l) (drop 20 (data_bytes info))))"
      obtain md pr v s2 where 2: "opae_bitstream_parse_metadata E ?text ?info s1 =
          Some (?info\<lparr>bi_pr_interface_id := pr, bi_version := v, bi_metadata := md\<rparr>, s2)"
          "owns s1 (case md of None \<Rightarrow> [] | Some md \<Rightarrow> md_blocks md) s2" "md \<noteq> None \<longrightarrow> v = 1"
        using parse_metadata_owns [OF owns_ok [OF o1(2) [OF nz]]] by blast
      from frees_owns [OF assms(1) owns_trans [OF o1(2) [OF nz] 2(2)]]
      obtain s3 where 3: "bs_free a s2 = Some s3" "owns s (case md of None \<Rightarrow> [] | Some md \<Rightarrow> md_blocks md) s3"
        by (auto split: Option.bind_splits)
      have "?P (if md \<noteq> None then FPGA_OK else FPGA_EXCEPTION) pr v md (Some (20 + unat l)) (bi_data_len info - (20 + unat l)) s3"
        using False 1 nz l 2 3 by (simp add: opae_resolve_bitstream_def Let_def l_def)
      then show ?thesis by blast
    qed
  qed
qed

lemma load_owns:
  fixes info :: "'d bitstream_info"
  assumes "bs_ok s" "fs_stat E file \<noteq> None \<longrightarrow> length file < BITS_PATH_MAX" "fs_tell E file < 2 ^ 32"
    and "bi_data info = None" "bi_metadata info = None"
  shows "\<exists>res info' s'. opae_load_bitstream E (Some file) (Some info) s = Some (res, Some info', s') \<and>
    owns s (info_blocks info') s' \<and> (bi_metadata info' \<noteq> None \<longrightarrow> bi_version info' = 1)"
proof -
  have "opae_bitstream_path_is_valid E (Some file) OPAE_BITSTREAM_PATH_NO_SYMLINK \<noteq> None"
    using assms(2) by (cases "fs_stat E file") (auto simp: opae_bitstream_path_is_valid_def
      opae_bitstream_path_contains_symlink_def opae_bitstream_path_not_file_def)
  then obtain valid where v: "opae_bitstream_path_is_valid E (Some file) OPAE_BITSTREAM_PATH_NO_SYMLINK = Some valid" by blast
  obtain r1 data s1 where 1: "opae_bitstream_read_file E file s = Some (r1, data, s1)" "owns s (data_blocks data) s1"
      "r1 = FPGA_OK \<longleftrightarrow> data \<noteq> None" "\<And>a bs. data = Some (a, bs) \<Longrightarrow> bs = take (nat (fs_tell E file)) (fs_read E file)"
    using read_file_owns [OF assms(1)] by blast
  define n where "n = (case data of None \<Rightarrow> 0 | Some (_, bs) \<Rightarrow> length bs)"
  have n: "n < 2 ^ 32 + 19"
    using 1(4) assms(3) by (auto simp: n_def split: option.split)
  define i :: "'d bitstream_info" where "i = OPAE_BITSTREAM_INFO_INITIALIZER\<lparr>bi_data := data, bi_data_len := n\<rparr>"
  let ?i = "i\<lparr>bi_filename := Some file\<rparr>"
  have i: "bi_data i = data" "bi_metadata i = None" "bi_data_len i = n"
    by (simp_all add: i_def OPAE_BITSTREAM_INFO_INITIALIZER_def)
  obtain r2 pr v md rbf len s2 where 2: "opae_resolve_bitstream E ?i s1 =
      Some (r2, ?i\<lparr>bi_rbf := rbf, bi_rbf_len := len, bi_pr_interface_id := pr, bi_version := v, bi_metadata := md\<rparr>, s2)"
      "owns s1 (case md of None \<Rightarrow> [] | Some md \<Rightarrow> md_blocks md) s2" "md \<noteq> None \<longrightarrow> v = 1"
    using resolve_owns [OF owns_ok [OF 1(2)], of ?i E] i n by auto
  show ?thesis
  proof (cases "valid \<and> r1 = FPGA_OK")
    case False
    with v 1(1,2,3) i show ?thesis
      by (cases valid) (auto simp: opae_load_bitstream_def info_blocks_def data_blocks_def assms(4,5)
        owns_refl [OF assms(1)] OPAE_BITSTREAM_INFO_INITIALIZER_def)
  next
    case True
    show ?thesis
    proof (cases "opae_is_legacy_bitstream ?i")
      case legacy: True
      have "opae_load_bitstream E (Some file) (Some info) s = Some (FPGA_OK, Some (opae_resolve_legacy_bitstream ?i), s1)"
        using v 1(1) True legacy by (simp add: opae_load_bitstream_def i_def n_def)
      moreover have "info_blocks (opae_resolve_legacy_bitstream ?i) = data_blocks data"
        by (simp add: info_blocks_def opae_resolve_legacy_bitstream_def i)
      ultimately show ?thesis using 1(2) by (auto simp: opae_resolve_legacy_bitstream_def i)
    next
      case gbs: False
      let ?j = "?i\<lparr>bi_rbf := rbf, bi_rbf_len := len, bi_pr_interface_id := pr, bi_version := v, bi_metadata := md\<rparr>"
      have "opae_load_bitstream E (Some file) (Some info) s = Some (r2, Some ?j, s2)"
        using v 1(1) True gbs 2(1) by (simp add: opae_load_bitstream_def i_def n_def)
      moreover have "owns s (info_blocks ?j) s2"
        using owns_trans [OF 1(2) 2(2)] by (simp add: info_blocks_def i)
      ultimately show ?thesis using 2(3) by auto
    qed
  qed
qed

lemma unload_owns:
  assumes "bs_ok s" "owns s (info_blocks info) s1" "bi_metadata info \<noteq> None \<longrightarrow> bi_version info = 1"
  shows "\<exists>s2. opae_unload_bitstream (Some info) s1 = Some (FPGA_OK, Some OPAE_BITSTREAM_INFO_INITIALIZER, s2) \<and> owns s [] s2"
proof -
  have data: "bs_free (case bi_data info of None \<Rightarrow> 0 | Some (a, _) \<Rightarrow> a) = bs_frees (data_blocks (bi_data info))"
    by (rule ext) (auto simp: data_blocks_def split: option.split Option.bind_split)
  obtain s2 where "bs_frees (info_blocks info) s1 = Some s2" "owns s [] s2"
    using frees_owns [OF assms(1), of "info_blocks info" "[]"] assms(2) by auto
  with assms(3) show ?thesis
    by (cases "bi_metadata info")
      (auto simp: opae_unload_bitstream_def data info_blocks_def bs_frees_append release_frees split: Option.bind_splits)
qed

subsection \<open>A reference decoder\<close>

text \<open>What the metadata say, without blocks, errors or order of evaluation. The decoder uses none of the
  operations of the model: a member of an object is looked up, a string ends at its first zero, an integer
  is brought into 32 bits, and a number is a double, an integer or, when it is neither, zero.\<close>

definition member_of :: "'d json \<Rightarrow> string \<Rightarrow> 'd json option" where
  "member_of j name = (case j of JObject kvs \<Rightarrow> map_of kvs name | _ \<Rightarrow> None)"

definition string_at :: "'d json \<Rightarrow> string \<Rightarrow> string option" where
  "string_at j name =
     (case member_of j name of Some (JString str) \<Rightarrow> Some (takeWhile (\<lambda>c. c \<noteq> CHR 0x00) str) | _ \<Rightarrow> None)"

definition clamp :: "int \<Rightarrow> int" where
  "clamp i = (if i < - 2147483648 then - 2147483648 else if 2147483647 < i then 2147483647 else i)"

definition int_at :: "'d json \<Rightarrow> string \<Rightarrow> int option" where
  "int_at j name = (case member_of j name of Some (JInt i) \<Rightarrow> Some (clamp i) | _ \<Rightarrow> None)"

definition number_at :: "'d bs_env \<Rightarrow> 'd json \<Rightarrow> string \<Rightarrow> 'd" where
  "number_at E j name =
     (case member_of j name of
        Some (JDouble x) \<Rightarrow> x
      | Some (JInt i) \<Rightarrow> int_double E (clamp i)
      | _ \<Rightarrow> int_double E 0)"

lemma member_get: "member_of j name = json_get j name"
  by (cases j) (simp_all add: member_of_def)

lemma clamp_json_int: "clamp = json_int"
  by (rule ext) (simp add: clamp_def json_int_def)

lemma string_at_get: "string_at j name = (case json_get j name of Some (JString str) \<Rightarrow> Some (json_cstring str) | _ \<Rightarrow> None)"
  by (auto simp: string_at_def member_get json_cstring_def split: option.split json.split)

lemma int_at_get: "int_at j name = (case json_get j name of Some (JInt i) \<Rightarrow> Some (json_int i) | _ \<Rightarrow> None)"
  by (auto simp: int_at_def member_get clamp_json_int split: option.split json.split)

lemma optional_number_at: "optional_number E = number_at E"
  by (intro ext) (auto simp: optional_number_def opae_bitstream_get_json_double_def opae_bitstream_get_json_int_def
    number_at_def member_get clamp_json_int split: option.split json.split)

definition decode_cluster :: "'d json \<Rightarrow> (int \<times> string \<times> string) option" where
  "decode_cluster j = do {
     n \<leftarrow> int_at j ''total-contexts'';
     name \<leftarrow> string_at j ''name'';
     uuid \<leftarrow> string_at j ''accelerator-type-uuid'';
     Some (n, name, uuid)
   }"

definition decode_clusters :: "'d json \<Rightarrow> (int \<times> string \<times> string) list option" where
  "decode_clusters j =
     (case member_of j ''accelerator-clusters'' of Some (JArray js) \<Rightarrow> those (map decode_cluster js) | _ \<Rightarrow> None)"

record 'd md_text =
  mt_platform :: "string option"
  mt_numbers :: "'d list"
  mt_interface :: string
  mt_guid :: "u8 list"
  mt_clusters :: "(int \<times> string \<times> string) list"

definition decode_metadata :: "'d bs_env \<Rightarrow> 'd json \<Rightarrow> 'd md_text option" where
  "decode_metadata E root = do {
     j \<leftarrow> member_of root ''afu-image'';
     magic \<leftarrow> int_at j ''magic-no'';
     (if magic \<noteq> 0x1d1f8680 then None else do {
       uuid \<leftarrow> string_at j ''interface-uuid'';
       guid \<leftarrow> uuid_parse E uuid;
       cs \<leftarrow> decode_clusters j;
       Some \<lparr>mt_platform = string_at root ''platform-name'',
             mt_numbers = map (number_at E j) [''clock-frequency-high'', ''clock-frequency-low'', ''power''],
             mt_interface = uuid, mt_guid = guid, mt_clusters = cs\<rparr>
     })
   }"

definition decode_text :: "'d bs_env \<Rightarrow> string \<Rightarrow> 'd md_text option" where
  "decode_text E text = do {
     root \<leftarrow> json_parse E text;
     v \<leftarrow> int_at root ''version'';
     (if v \<in> {1, 640, 650} then decode_metadata E root else None)
   }"

text \<open>The same view of the structure that was allocated, given the GUID stored beside it.\<close>

definition cluster_text :: "cluster \<Rightarrow> int \<times> string \<times> string" where
  "cluster_text c = (cl_total_contexts c, snd (the (cl_name c)), snd (the (cl_uuid c)))"

definition text_of_metadata :: "u8 list \<Rightarrow> 'd metadata \<Rightarrow> 'd md_text" where
  "text_of_metadata guid md = (let img = md_afu_image md in
     \<lparr>mt_platform = map_option snd (md_platform_name md), mt_numbers = [ai_high img, ai_low img, ai_power img],
      mt_interface = snd (the (ai_uuid img)), mt_guid = guid,
      mt_clusters = map cluster_text (snd (the (ai_clusters img)))\<rparr>)"

lemma malloc_succeeds:
  assumes "bs_ok s" "\<And>n. alloc_ok E n" "bs_malloc E s = (a, s')"
  shows "a \<noteq> 0"
  using assms by (auto simp: bs_malloc_def bs_ok_def Let_def)

lemma json_string_decodes:
  assumes "bs_ok s" "\<And>n. alloc_ok E n" "opae_bitstream_get_json_string E j name s = (res, c, s')"
  shows "map_option snd c = string_at j name"
  using assms(3) malloc_succeeds [OF assms(1,2)]
  by (auto simp: opae_bitstream_get_json_string_def string_at_get split: option.splits json.splits prod.splits if_splits)

lemma get_json_int_at: "opae_bitstream_get_json_int j name = (if int_at j name = None then FPGA_EXCEPTION else FPGA_OK, int_at j name)"
  by (auto simp: opae_bitstream_get_json_int_def int_at_get split: option.split json.split)

lemma parse_cluster_decodes:
  assumes "bs_ok s" "\<And>n. alloc_ok E n" "parse_cluster_v1 E j s = Some (res, c, s')"
  shows "decode_cluster j = (if res = FPGA_OK then Some (cluster_text c) else None)"
proof -
  obtain r1 name s1 where 1: "opae_bitstream_get_json_string E j ''name'' s = (r1, name, s1)" by (metis prod_cases3)
  obtain r2 uuid s2 where 2: "opae_bitstream_get_json_string E j ''accelerator-type-uuid'' s1 = (r2, uuid, s2)"
    by (metis prod_cases3)
  note o1 = json_string_owns [OF assms(1) 1]
  note o2 = json_string_owns [OF owns_ok [OF o1(1)] 2]
  note d = json_string_decodes [OF assms(1,2) 1, symmetric] json_string_decodes [OF owns_ok [OF o1(1)] assms(2) 2, symmetric]
  show ?thesis
    using assms(3) 1 2 o1(2) o2(2) d
    by (cases "int_at j ''total-contexts''"; cases name; cases uuid)
      (auto simp: parse_cluster_v1_def get_json_int_at decode_cluster_def cluster_text_def split: Option.bind_splits)
qed

lemma parse_clusters_decodes:
  assumes "bs_ok s" "\<And>n. alloc_ok E n" "parse_clusters_v1 E js s = Some (res, cs, s')"
  shows "those (map decode_cluster js) = (if res = FPGA_OK then Some (map cluster_text cs) else None)"
  using assms(1,3)
proof (induction js arbitrary: s res cs s')
  case Nil
  then show ?case by auto
next
  case (Cons j js)
  obtain r1 c s1 where 1: "parse_cluster_v1 E j s = Some (r1, c, s1)" "owns s (if r1 = FPGA_OK then cluster_blocks c else []) s1"
    using parse_cluster_owns [OF Cons.prems(1)] by blast
  obtain r2 cs2 s2 where 2: "parse_clusters_v1 E js s1 = Some (r2, cs2, s2)"
    using parse_clusters_owns [OF owns_ok [OF 1(2)]] by blast
  show ?case
    using Cons.prems(2) 1(1) 2 parse_cluster_decodes [OF Cons.prems(1) assms(2) 1(1)] Cons.IH [OF owns_ok [OF 1(2)] 2]
    by (auto split: if_splits)
qed

lemma parse_clusters_array_decodes:
  assumes "bs_ok s" "\<And>n. alloc_ok E n" "owns s (afu_blocks img) s1" "ai_clusters img = None"
    and "parse_clusters_array E j img s1 = Some (res, img', s2)"
  shows "decode_clusters j = (if res = FPGA_OK then Some (map cluster_text (snd (the (ai_clusters img')))) else None)"
    and "res = FPGA_OK \<Longrightarrow> \<exists>x. img' = img\<lparr>ai_clusters := x\<rparr>"
proof -
  have "decode_clusters j = (if res = FPGA_OK then Some (map cluster_text (snd (the (ai_clusters img')))) else None) \<and>
    (res = FPGA_OK \<longrightarrow> (\<exists>x. img' = img\<lparr>ai_clusters := x\<rparr>))"
  proof (cases "\<exists>js. json_get j ''accelerator-clusters'' = Some (JArray js)")
    case False
    then have "decode_clusters j = None" "parse_clusters_array E j img s1 = do { (img, s) \<leftarrow> free_afu_image img s1; Some (FPGA_EXCEPTION, img, s) }"
      by (auto simp: decode_clusters_def parse_clusters_array_def member_get split: option.split json.split)
    with assms(5) show ?thesis by (auto split: Option.bind_splits)
  next
    case True
    then obtain js where js: "json_get j ''accelerator-clusters'' = Some (JArray js)" by blast
    obtain a sm where m: "bs_malloc E s1 = (a, sm)" by fastforce
    note a = malloc_succeeds [OF owns_ok [OF assms(3)] assms(2) m]
    note om = malloc_owns(2) [OF owns_ok [OF assms(3)] m a]
    obtain r cs sc where c: "parse_clusters_v1 E js sm = Some (r, cs, sc)"
      using parse_clusters_owns [OF owns_ok [OF om]] by blast
    show ?thesis
      using js assms(5) m a c parse_clusters_decodes [OF owns_ok [OF om] assms(2) c]
      by (auto simp: parse_clusters_array_def decode_clusters_def member_get split: Option.bind_splits if_splits)
  qed
  then show "decode_clusters j = (if res = FPGA_OK then Some (map cluster_text (snd (the (ai_clusters img')))) else None)"
    "res = FPGA_OK \<Longrightarrow> \<exists>x. img' = img\<lparr>ai_clusters := x\<rparr>" by blast+
qed

lemma parse_metadata_v1_decodes:
  assumes "bs_ok s" "\<And>n. alloc_ok E n" "opae_bitstream_parse_metadata_v1 E root pr s = Some (md, pr', s')"
  shows "decode_metadata E root = map_option (text_of_metadata pr') md"
proof -
  obtain a s1 where 1: "bs_malloc E s = (a, s1)" by fastforce
  note a = malloc_succeeds [OF assms(1,2) 1]
  note o1 = malloc_owns(2) [OF assms(1) 1 a]
  obtain r2 pf s2 where 2: "opae_bitstream_get_json_string E root ''platform-name'' s1 = (r2, pf, s2)" by (metis prod_cases3)
  note o2 = json_string_owns(1) [OF owns_ok [OF o1] 2]
  note d2 = json_string_decodes [OF owns_ok [OF o1] assms(2) 2, symmetric]
  show ?thesis
  proof (cases "json_get root ''afu-image''")
    case None
    with assms(3) 1 2 a show ?thesis
      by (auto simp: opae_bitstream_parse_metadata_v1_def decode_metadata_def member_get split: Option.bind_splits)
  next
    case (Some j)
    obtain r3 img g s3 where 3: "parse_afu_image_v1 E j pr s2 = Some (r3, img, g, s3)"
      using parse_afu_image_owns [OF owns_ok [OF o2]] by blast
    obtain r4 uuid s4 where 4: "opae_bitstream_get_json_string E j ''interface-uuid'' s2 = (r4, uuid, s4)" by (metis prod_cases3)
    note o4 = json_string_owns [OF owns_ok [OF o2] 4]
    note d4 = json_string_decodes [OF owns_ok [OF o2] assms(2) 4, symmetric]
    have md: "md = (if r3 = FPGA_OK then Some \<lparr>md_address = a, md_version = 1, md_afu_image = img, md_platform_name = pf\<rparr> else None)"
      "r3 = FPGA_OK \<Longrightarrow> pr' = g"
      using assms(3) 1 2 3 a Some by (auto simp: opae_bitstream_parse_metadata_v1_def split: Option.bind_splits if_splits)
    consider (no) "int_at j ''magic-no'' \<noteq> Some 0x1d1f8680 \<or> uuid = None \<or> uuid_parse E (snd (the uuid)) = None"
      | (yes) b str guid where "int_at j ''magic-no'' = Some 0x1d1f8680" "uuid = Some (b, str)" "uuid_parse E str = Some guid"
      by fastforce
    then show ?thesis
    proof cases
      case no
      then have "r3 \<noteq> FPGA_OK"
        using 3 4 o4(2) by (cases "int_at j ''magic-no''"; cases uuid)
          (auto simp: parse_afu_image_v1_def get_json_int_at OPAE_LEGACY_BITSTREAM_MAGIC_def Let_def split: Option.bind_splits if_splits)
      with md no Some d4 show ?thesis
        by (auto simp: decode_metadata_def member_get split: Option.bind_split)
    next
      case yes
      define img0 where "img0 = \<lparr>ai_high = optional_number E j ''clock-frequency-high'',
        ai_low = optional_number E j ''clock-frequency-low'', ai_power = optional_number E j ''power'', ai_uuid = uuid,
        ai_magic = 0x1d1f8680, ai_clusters = None\<rparr>"
      have "owns s2 (afu_blocks img0) s4" "ai_clusters img0 = None"
        using o4(1) by (simp_all add: img0_def afu_blocks_def array_blocks_def)
      moreover have "parse_clusters_array E j img0 s4 = Some (r3, img, s3)" "g = guid"
        using 3 4 yes by (auto simp: parse_afu_image_v1_def get_json_int_at OPAE_LEGACY_BITSTREAM_MAGIC_def img0_def split: Option.bind_splits)
      ultimately have c: "decode_clusters j = (if r3 = FPGA_OK then Some (map cluster_text (snd (the (ai_clusters img)))) else None)"
          "r3 = FPGA_OK \<Longrightarrow> \<exists>x. img = img0\<lparr>ai_clusters := x\<rparr>"
        using parse_clusters_array_decodes [OF owns_ok [OF o2] assms(2)] by blast+
      show ?thesis
        using Some yes d2 d4 c md \<open>g = guid\<close>
        by (cases "r3 = FPGA_OK") (auto simp: decode_metadata_def member_get optional_number_at text_of_metadata_def img0_def)
    qed
  qed
qed

subsection \<open>Bounds and bytes\<close>

lemma resolve_OK_bounds:
  assumes "opae_resolve_bitstream E info s = Some (FPGA_OK, info', s')"
  shows "bi_rbf info' = Some (20 + unat (field32 16 (data_bytes info)))"
    "20 + unat (field32 16 (data_bytes info)) + bi_rbf_len info' = bi_data_len info"
    "bi_data info' = bi_data info" "bi_metadata info' \<noteq> None"
proof -
  have keep: "opae_bitstream_parse_metadata E tx i t = Some (i', t') \<Longrightarrow>
      bi_rbf i' = bi_rbf i \<and> bi_rbf_len i' = bi_rbf_len i \<and> bi_data i' = bi_data i" for tx i t i' t'
    by (auto simp: opae_bitstream_parse_metadata_def Let_def
      split: option.splits json.splits if_splits Option.bind_splits)
  define l where "l = field32 16 (data_bytes info)"
  show "bi_rbf info' = Some (20 + unat (field32 16 (data_bytes info)))"
    "20 + unat (field32 16 (data_bytes info)) + bi_rbf_len info' = bi_data_len info"
    "bi_data info' = bi_data info" "bi_metadata info' \<noteq> None"
    using assms unfolding l_def [symmetric]
    by (auto simp: opae_resolve_bitstream_def Let_def l_def [symmetric] dest!: keep
      split: if_splits prod.splits Option.bind_splits)
qed

definition le32 :: "u32 \<Rightarrow> u8 list" where
  "le32 n = [ucast n, ucast (drop_bit 8 n), ucast (drop_bit 16 n), ucast (drop_bit 24 n)]"

definition gbs_file :: "u8 list \<Rightarrow> u8 list \<Rightarrow> u8 list" where
  "gbs_file text rbf = valid_GBS_guid @ le32 (of_nat (length text)) @ text @ rbf"

definition legacy_file :: "u8 list \<Rightarrow> u8 list \<Rightarrow> u8 list" where
  "legacy_file guid rbf = le32 OPAE_LEGACY_BITSTREAM_MAGIC @ rev guid @ rbf"

lemma bytes_sum: "(n::nat) < 2 ^ 32 \<Longrightarrow>
   n mod 256 + 256 * (n div 256 mod 256) + 65536 * (n div 65536 mod 256) + 16777216 * (n div 16777216 mod 256) = n"
proof -
  assume n: "n < 2 ^ 32"
  define q where "q = n div 256"
  define r where "r = q div 256"
  define t where "t = r div 256"
  have d: "n div 256 = q" "n div 65536 = r" "n div 16777216 = t"
    by (simp_all add: t_def r_def q_def div_mult2_eq [symmetric])
  moreover have "t mod 256 = t" using n by (simp add: d(3) [symmetric])
  moreover have "n = n mod 256 + 256 * q" "q = q mod 256 + 256 * r" "r = r mod 256 + 256 * t"
    unfolding t_def r_def q_def by (rule mod_mult_div_eq [symmetric])+
  ultimately show ?thesis unfolding d by linarith
qed

lemma byte_word: "(ucast (ucast (n::u32) :: u8) :: u32) = of_nat (unat n mod 256)"
  by (rule word_unat_eq_iff [THEN iffD2]) (simp add: unsigned_ucast_eq take_bit_eq_mod unat_of_nat unat_mod_distrib)

lemma field32_le32: "length xs = off \<Longrightarrow> field32 off (xs @ le32 n @ ys) = n"
proof -
  have n: "unat n < 2 ^ 32" using unsigned_less [of n] by simp
  have d: "unat (drop_bit k n) = unat n div 2 ^ k" for k
    by (simp only: unsigned_drop_bit_eq) (simp add: drop_bit_eq_div take_bit_nat_eq_self [OF n])
  have "ucast (ucast n :: u8) + push_bit 8 (ucast (ucast (drop_bit 8 n) :: u8)) + push_bit 16 (ucast (ucast (drop_bit 16 n) :: u8)) +
      push_bit 24 (ucast (ucast (drop_bit 24 n) :: u8)) =
    (of_nat (unat n mod 256 + 256 * (unat n div 256 mod 256) + 65536 * (unat n div 65536 mod 256) +
      16777216 * (unat n div 16777216 mod 256)) :: u32)"
    by (simp add: byte_word d push_bit_eq_mult)
  also have "\<dots> = n" by (subst bytes_sum [OF n]) simp
  finally show "length xs = off \<Longrightarrow> field32 off (xs @ le32 n @ ys) = n"
    by (simp add: field32_def le32_def nth_append)
qed

text \<open>A file that passes the checks of its path and can be read.\<close>

definition readable :: "'d bs_env \<Rightarrow> string \<Rightarrow> u8 list \<Rightarrow> bool" where
  "readable E file bytes \<longleftrightarrow>
     opae_bitstream_path_is_valid E (Some file) OPAE_BITSTREAM_PATH_NO_SYMLINK = Some True \<and>
     fs_open E file \<and> 0 \<le> fs_seek_end E file \<and> fs_tell E file = int (length bytes) \<and> 0 \<le> fs_seek_set E file \<and>
     fs_read E file = bytes \<and> \<not> fs_error E file"

lemma load_readable:
  assumes "bs_ok s" "\<And>n. alloc_ok E n" "readable E file bytes"
  obtains a s1 where "bs_ok s1" "\<And>info. opae_load_bitstream E (Some file) (Some info) s =
    (let i = OPAE_BITSTREAM_INFO_INITIALIZER\<lparr>bi_data := Some (a, bytes), bi_data_len := length bytes, bi_filename := Some file\<rparr> in
     if opae_is_legacy_bitstream i then Some (FPGA_OK, Some (opae_resolve_legacy_bitstream i), s1)
     else do { (res, i, s) \<leftarrow> opae_resolve_bitstream E i s1; Some (res, Some i, s) })"
proof -
  let ?t = "s\<lparr>bs_files := Suc (bs_files s)\<rparr>"
  obtain a s1 where 1: "bs_malloc E ?t = (a, s1)" by fastforce
  have t: "bs_ok ?t" using assms(1) by (simp add: bs_ok_def)
  note a = malloc_succeeds [OF t assms(2) 1]
  have "bs_ok (close_file s1)" using owns_ok [OF malloc_owns(2) [OF t 1 a]] by (simp add: bs_ok_def close_file_def)
  then show ?thesis
    using assms(3) 1 a by (intro that [of "close_file s1" a])
      (auto simp: readable_def opae_load_bitstream_def opae_bitstream_read_file_def Let_def)
qed

lemma resolve_decodes:
  fixes info :: "'d bitstream_info"
  assumes "bs_ok s" "\<And>n. alloc_ok E n" "data_bytes info = gbs_file text rbf" "bi_data_len info = length (gbs_file text rbf)"
    and "bi_metadata info = None" "text \<noteq> []" "length text < 2 ^ 32 - 1"
  defines "dec \<equiv> decode_text E (json_cstring (map (\<lambda>b. char_of (unat b)) text))"
  shows "\<exists>info' s'. opae_resolve_bitstream E info s = Some (if dec = None then FPGA_EXCEPTION else FPGA_OK, info', s') \<and>
    bi_data info' = bi_data info \<and> bi_rbf info' = Some (20 + length text) \<and> bi_rbf_len info' = length rbf \<and>
    map_option (text_of_metadata (bi_pr_interface_id info')) (bi_metadata info') = dec"
proof -
  let ?l = "of_nat (length text) :: u32"
  have g: "take 16 (gbs_file text rbf) = valid_GBS_guid" "field32 16 (gbs_file text rbf) = ?l"
    "take (length text) (drop 20 (gbs_file text rbf)) = text" "length (gbs_file text rbf) = 20 + length text + length rbf"
    using field32_le32 [of valid_GBS_guid 16 ?l "text @ rbf"] by (simp_all add: gbs_file_def valid_GBS_guid_def le32_def)
  have ul: "unat ?l = length text" using assms(7) by (simp add: unat_of_nat)
  then have "unat (?l + 1) = length text + 1" using assms(7) by (simp add: unat_word_ariths)
  then have l: "?l + 1 \<noteq> 0" by auto
  obtain a s1 where 1: "bs_malloc E s = (a, s1)" by fastforce
  note a = malloc_succeeds [OF assms(1,2) 1]
  note o1 = malloc_owns(2) [OF assms(1) 1 a]
  let ?info = "info\<lparr>bi_rbf := Some (20 + length text), bi_rbf_len := length rbf\<rparr>"
  let ?tx = "json_cstring (map (\<lambda>b. char_of (unat b)) text)"
  obtain md pr v s2 where 2: "opae_bitstream_parse_metadata E ?tx ?info s1 =
      Some (?info\<lparr>bi_pr_interface_id := pr, bi_version := v, bi_metadata := md\<rparr>, s2)"
      "owns s1 (case md of None \<Rightarrow> [] | Some md \<Rightarrow> md_blocks md) s2"
    using parse_metadata_owns [OF owns_ok [OF o1]] by blast
  obtain s3 where 3: "bs_free a s2 = Some s3"
    using frees_owns [OF assms(1) owns_trans [OF o1 2(2)]] by (auto split: Option.bind_splits)
  have "map_option (text_of_metadata pr) md = dec"
  proof (cases "\<exists>root i. json_parse E ?tx = Some root \<and> json_get root ''version'' = Some (JInt i) \<and> json_int i \<in> {1, 640, 650}")
    case True
    then obtain root i where r: "json_parse E ?tx = Some root" "json_get root ''version'' = Some (JInt i)" "json_int i \<in> {1, 640, 650}"
      by blast
    obtain md' pr' s' where md: "opae_bitstream_parse_metadata_v1 E root (bi_pr_interface_id info) s1 = Some (md', pr', s')"
      using parse_metadata_v1_owns [OF owns_ok [OF o1]] by blast
    with r have "opae_bitstream_parse_metadata E ?tx ?info s1 =
        Some (?info\<lparr>bi_pr_interface_id := pr', bi_version := 1, bi_metadata := md'\<rparr>, s')"
      by (auto simp: opae_bitstream_parse_metadata_def)
    with 2(1) have e: "?info\<lparr>bi_pr_interface_id := pr', bi_version := 1, bi_metadata := md'\<rparr> =
        ?info\<lparr>bi_pr_interface_id := pr, bi_version := v, bi_metadata := md\<rparr>" by simp
    have "md = md' \<and> pr = pr'"
      using arg_cong [OF e, of bi_metadata] arg_cong [OF e, of bi_pr_interface_id] by simp
    with r parse_metadata_v1_decodes [OF owns_ok [OF o1] assms(2) md] show ?thesis
      by (auto simp: dec_def decode_text_def int_at_get)
  next
    case False
    then have "dec = None" by (auto simp: dec_def decode_text_def int_at_get split: Option.bind_split option.split json.split)
    moreover have "opae_bitstream_parse_metadata E ?tx ?info s1 = Some (i', s') \<Longrightarrow> bi_metadata i' = None" for i' s'
      using False by (auto simp: opae_bitstream_parse_metadata_def Let_def split: option.splits json.splits if_splits)
    ultimately show ?thesis using 2(1) by fastforce
  qed
  moreover have "opae_resolve_bitstream E info s = Some (if md = None then FPGA_EXCEPTION else FPGA_OK,
      ?info\<lparr>bi_pr_interface_id := pr, bi_version := v, bi_metadata := md\<rparr>, s3)"
    using 1 a l g ul 2(1) 3 assms(3,4,6) by (simp add: opae_resolve_bitstream_def Let_def bitstream_header_size_def)
  ultimately show ?thesis by auto
qed

subsection \<open>Paths\<close>

text \<open>The names between the slashes of a path.\<close>

fun components :: "string \<Rightarrow> string list" where
  "components [] = [[]]"
| "components (c # p) = (if c = CHR ''/'' then [] # components p
     else (case components p of [] \<Rightarrow> [[c]] | x # xs \<Rightarrow> (c # x) # xs))"

lemma components_ne [simp]: "components p \<noteq> []"
  by (induction p) (auto split: list.split)

lemma components_hd: "hd (components p) = takeWhile (\<lambda>c. c \<noteq> CHR ''/'') p"
  by (induction p) (auto split: list.split)

text \<open>Both tests, at the start and after a slash, ask whether the name that begins there is two dots.\<close>

lemma dotdot_here:
  "(if length p \<ge> 3 then take 3 p = ''../'' else if length p = 2 then p = ''..'' else False) \<longleftrightarrow>
    hd (components p) = ''..''"
proof -
  consider "p = []" | a where "p = [a]" | a b where "p = [a, b]" | a b c q where "p = a # b # c # q"
    by (cases p rule: remdups_adj.cases; cases "tl (tl p)") auto
  then show ?thesis by cases (auto simp: components_hd simp del: components.simps)
qed

lemma inner_dotdot_here:
  "(if length (c # p) \<ge> 4 then take 4 (c # p) = ''/../'' else if length (c # p) = 3 then c # p = ''/..'' else False) \<longleftrightarrow>
    c = CHR ''/'' \<and> hd (components p) = ''..''"
  using dotdot_here [of p] by (auto split: if_splits)

lemma inner_dotdot_components: "inner_dotdot p \<longleftrightarrow> ''..'' \<in> set (tl (components p))"
proof (induction p)
  case (Cons c p)
  have "set (components p) = insert (hd (components p)) (set (tl (components p)))"
    by (cases "components p") simp_all
  moreover have "inner_dotdot (c # p) \<longleftrightarrow> c = CHR ''/'' \<and> hd (components p) = ''..'' \<or> inner_dotdot p"
    unfolding inner_dotdot.simps inner_dotdot_here ..
  ultimately show ?case using Cons.IH by (cases "components p") auto
qed simp

lemma contains_dotdot_components: "opae_bitstream_path_contains_dotdot p \<longleftrightarrow> ''..'' \<in> set (components p)"
  unfolding opae_bitstream_path_contains_dotdot_def dotdot_here inner_dotdot_components
  by (cases "components p") auto

definition url_escape :: "string \<Rightarrow> bool" where
  "url_escape p \<longleftrightarrow> (\<exists>u a b v. p = u @ [CHR ''%'', a, b] @ v \<and> isxdigit a \<and> isxdigit b)"

lemma url_escape_Cons:
  "url_escape (c # p) \<longleftrightarrow> (c = CHR ''%'' \<and> (case p of a # b # _ \<Rightarrow> isxdigit a \<and> isxdigit b | _ \<Rightarrow> False)) \<or> url_escape p"
proof
  assume "url_escape (c # p)"
  then obtain u a b v where e: "c # p = u @ [CHR ''%'', a, b] @ v" "isxdigit a" "isxdigit b" by (auto simp: url_escape_def)
  then show "(c = CHR ''%'' \<and> (case p of a # b # _ \<Rightarrow> isxdigit a \<and> isxdigit b | _ \<Rightarrow> False)) \<or> url_escape p"
    by (cases u) (auto simp: url_escape_def)
next
  assume "(c = CHR ''%'' \<and> (case p of a # b # _ \<Rightarrow> isxdigit a \<and> isxdigit b | _ \<Rightarrow> False)) \<or> url_escape p"
  then show "url_escape (c # p)"
  proof
    assume "c = CHR ''%'' \<and> (case p of a # b # _ \<Rightarrow> isxdigit a \<and> isxdigit b | _ \<Rightarrow> False)"
    then obtain a b v where "c # p = [] @ [CHR ''%'', a, b] @ v" "isxdigit a" "isxdigit b" by (auto split: list.splits)
    then show ?thesis unfolding url_escape_def by blast
  next
    assume "url_escape p"
    then obtain u a b v where "c # p = (c # u) @ [CHR ''%'', a, b] @ v" "isxdigit a" "isxdigit b" by (auto simp: url_escape_def)
    then show ?thesis unfolding url_escape_def by blast
  qed
qed

lemma invalid_chars_iff: "opae_bitstream_path_invalid_chars p \<longleftrightarrow> (\<exists>c\<in>set p. \<not> isprint c) \<or> url_escape p"
proof (induction p)
  case Nil
  then show ?case by (simp add: url_escape_def)
next
  case (Cons c p)
  then show ?case by (auto simp: url_escape_Cons)
qed

lemma cut_slash_iff: "cut_slash p = Some q \<longleftrightarrow> (\<exists>r. p = q @ ''/'' @ r \<and> CHR ''/'' \<notin> set r)"
proof
  assume "cut_slash p = Some q"
  then obtain c q' where d: "dropWhile (\<lambda>c. c \<noteq> CHR ''/'') (rev p) = c # q'" "q = rev q'"
    by (auto simp: cut_slash_def split: list.splits)
  note e = d(1) [unfolded dropWhile_eq_Cons_conv]
  have c: "c = CHR ''/''" using e by blast
  have "rev p = takeWhile (\<lambda>c. c \<noteq> CHR ''/'') (rev p) @ CHR ''/'' # rev q"
    using conjunct1 [OF e] unfolding c d(2) rev_rev_ident .
  from arg_cong [OF this, of rev]
  have "p = q @ ''/'' @ rev (takeWhile (\<lambda>c. c \<noteq> CHR ''/'') (rev p))" by simp
  moreover have "CHR ''/'' \<notin> set (rev (takeWhile (\<lambda>c. c \<noteq> CHR ''/'') (rev p)))" by (auto dest: set_takeWhileD)
  ultimately show "\<exists>r. p = q @ ''/'' @ r \<and> CHR ''/'' \<notin> set r" by blast
next
  assume "\<exists>r. p = q @ ''/'' @ r \<and> CHR ''/'' \<notin> set r"
  then obtain r where r: "p = q @ ''/'' @ r" "CHR ''/'' \<notin> set r" by blast
  then have "dropWhile (\<lambda>c. c \<noteq> CHR ''/'') (rev p) = CHR ''/'' # rev q"
    by (simp add: dropWhile_append)
  then show "cut_slash p = Some q" by (simp add: cut_slash_def)
qed

lemma slash_prefixes:
  "(\<exists>r. p = q @ ''/'' @ r) \<longleftrightarrow> (case cut_slash p of None \<Rightarrow> False | Some c \<Rightarrow> q = c \<or> (\<exists>r. c = q @ ''/'' @ r))"
proof (cases "cut_slash p")
  case None
  then have "CHR ''/'' \<notin> set p" using split_list_last [of "CHR ''/''" p] cut_slash_iff [of p] by fastforce
  with None show ?thesis by auto
next
  case (Some c)
  then obtain r0 where r0: "p = c @ ''/'' @ r0" "CHR ''/'' \<notin> set r0" using cut_slash_iff by blast
  have "q = c \<or> (\<exists>r. c = q @ ''/'' @ r)" if "p = q @ ''/'' @ r" for r
    using that r0 by (auto simp: append_eq_append_conv2 append_eq_Cons_conv Cons_eq_append_conv)
  with Some r0(1) show ?thesis by auto
qed

lemma relative_symlink_iff:
  "relative_symlink E p \<longleftrightarrow> (\<exists>q. (q = p \<or> (\<exists>r. p = q @ ''/'' @ r)) \<and> fs_lstat E q \<noteq> Some False)"
proof (induction E p rule: relative_symlink.induct)
  case (1 E p)
  show ?case
  proof (cases "cut_slash p")
    case None
    then show ?thesis using slash_prefixes [of p] by (subst relative_symlink.simps) auto
  next
    case (Some c)
    then show ?thesis using slash_prefixes [of p] 1 [OF Some] by (subst relative_symlink.simps) auto
  qed
qed

subsection \<open>Properties\<close>

text \<open>C23. Loading a file of less than \<open>2 ^ 32\<close> bytes into a structure that holds no data and no metadata is defined
  whatever the file holds and whichever allocation fails; it closes the file, what it allocated is what the
  structure refers to, and unloading succeeds and frees exactly that. The operating system refuses paths of
  4096 characters. Longer files are excluded: one whose header promises \<open>2 ^ 32 - 1\<close> bytes of metadata that it
  really has overruns a buffer of no bytes (\<open>resolve_bitstream_bounds\<close> below).\<close>

theorem load_unload_bitstream:
  assumes "bs_ok s" "fs_stat E file \<noteq> None \<longrightarrow> length file < BITS_PATH_MAX" "fs_tell E file < 2 ^ 32"
    and "bi_data info = None" "bi_metadata info = None"
  shows "\<exists>res info' s1 s2. opae_load_bitstream E (Some file) (Some info) s = Some (res, Some info', s1) \<and>
    bs_files s1 = bs_files s \<and> bs_live s1 = bs_live s \<union> set (info_blocks info') \<and> distinct (info_blocks info') \<and>
    set (info_blocks info') \<inter> bs_live s = {} \<and>
    opae_unload_bitstream (Some info') s1 = Some (FPGA_OK, Some OPAE_BITSTREAM_INFO_INITIALIZER, s2) \<and>
    bs_live s2 = bs_live s \<and> bs_files s2 = bs_files s"
proof -
  obtain res info' s1 where 1: "opae_load_bitstream E (Some file) (Some info) s = Some (res, Some info', s1)"
      "owns s (info_blocks info') s1" "bi_metadata info' \<noteq> None \<longrightarrow> bi_version info' = 1"
    using load_owns [OF assms] by blast
  obtain s2 where 2: "opae_unload_bitstream (Some info') s1 = Some (FPGA_OK, Some OPAE_BITSTREAM_INFO_INITIALIZER, s2)"
      "owns s [] s2"
    using unload_owns [OF assms(1) 1(2,3)] by blast
  have "set (info_blocks info') \<inter> bs_live s = {}"
    using 1(2) assms(1) by (fastforce simp: owns_def bs_ok_def)
  with 1(1,2) 2 show ?thesis by (auto simp: owns_def)
qed

text \<open>An environment: one readable file, every allocation succeeds, and one JSON document.\<close>

definition demo_json :: "nat json" where
  "demo_json = JObject [(''version'', JInt 640), (''platform-name'', JString ''DCP''),
     (''afu-image'', JObject [(''power'', JInt 40), (''magic-no'', JInt 0x1d1f8680), (''interface-uuid'', JString ''u''),
       (''accelerator-clusters'', JArray [JObject [(''total-contexts'', JInt 1), (''name'', JString ''nlb''),
          (''accelerator-type-uuid'', JString ''d8'')]])])]"

definition bs_demo_env :: "u8 list \<Rightarrow> nat bs_env" where
  "bs_demo_env bytes = \<lparr>alloc_ok = (\<lambda>n. True), fs_stat = (\<lambda>p. Some (p = ''a/b.gbs'')), fs_lstat = (\<lambda>p. Some False), fs_real = id,
     fs_open = (\<lambda>p. True), fs_seek_end = (\<lambda>p. 0), fs_tell = (\<lambda>p. int (length bytes)), fs_seek_set = (\<lambda>p. 0),
     fs_read = (\<lambda>p. bytes), fs_error = (\<lambda>p. False),
     json_parse = (\<lambda>t. if t = ''{}'' then Some demo_json else None),
     uuid_parse = (\<lambda>u. if u = ''u'' then Some (replicate 16 7) else None), int_double = nat\<rparr>"

definition demo_state :: bs_state where
  "demo_state = \<lparr>bs_next = 1, bs_live = {}, bs_allocs = 0, bs_files = 0\<rparr>"

lemma demo_state_ok: "bs_ok demo_state"
  by (simp add: bs_ok_def demo_state_def)

lemma demo_readable: "readable (bs_demo_env bytes) ''a/b.gbs'' bytes"
proof -
  have "\<not> relative_symlink (bs_demo_env bytes) p" for p
    by (simp add: relative_symlink_iff bs_demo_env_def)
  then have "opae_bitstream_path_is_valid (bs_demo_env bytes) (Some ''a/b.gbs'') OPAE_BITSTREAM_PATH_NO_SYMLINK = Some True"
    by (simp add: opae_bitstream_path_is_valid_def opae_bitstream_path_contains_symlink_def BITS_PATH_MAX_def
      opae_bitstream_path_not_file_def isprint_def OPAE_BITSTREAM_PATH_NO_SYMLINK_def OPAE_BITSTREAM_PATH_NO_PARENT_def)
      (simp add: bs_demo_env_def)
  then show ?thesis by (simp add: readable_def) (simp add: bs_demo_env_def)
qed

theorem load_unload_bitstream_witness:
  "\<exists>res info' s1 s2. opae_load_bitstream ((bs_demo_env (gbs_file [123, 125] [1, 2]))\<lparr>alloc_ok := \<lambda>n. n < 5\<rparr>) (Some ''a/b.gbs'')
      (Some OPAE_BITSTREAM_INFO_INITIALIZER) demo_state = Some (res, Some info', s1) \<and>
    opae_unload_bitstream (Some info') s1 = Some (FPGA_OK, Some OPAE_BITSTREAM_INFO_INITIALIZER, s2) \<and> bs_live s2 = {}"
  using load_unload_bitstream [OF demo_state_ok, of "(bs_demo_env (gbs_file [123, 125] [1, 2]))\<lparr>alloc_ok := \<lambda>n. n < 5\<rparr>"
      "''a/b.gbs''" OPAE_BITSTREAM_INFO_INITIALIZER]
  by (auto simp: bs_demo_env_def demo_state_def BITS_PATH_MAX_def OPAE_BITSTREAM_INFO_INITIALIZER_def gbs_file_def valid_GBS_guid_def le32_def)

text \<open>C24. Loading a readable file made of the GBS header, its length field, a metadata text of 1 to \<open>2 ^ 32 - 2\<close> bytes and
  the logic, when every allocation succeeds: the logic is found exactly, and the structure holds what the
  reference decoder reads from the metadata text, every number, name and GUID of it; the result is FPGA_OK
  exactly when the decoder accepts the text. The decoder shares nothing with the model but the tree that the
  JSON parser returned.\<close>

theorem gbs_roundtrip:
  assumes "bs_ok s" "\<And>n. alloc_ok E n" "readable E file (gbs_file text rbf)" "text \<noteq> []" "length text < 2 ^ 32 - 1"
  shows "\<exists>res info' s'. opae_load_bitstream E (Some file) (Some info) s = Some (res, Some info', s') \<and>
    data_bytes info' = gbs_file text rbf \<and>
    map_option (\<lambda>off. drop off (data_bytes info')) (bi_rbf info') = Some rbf \<and> bi_rbf_len info' = length rbf \<and>
    map_option (text_of_metadata (bi_pr_interface_id info')) (bi_metadata info') = decode_text E (json_cstring (map (\<lambda>b. char_of (unat b)) text)) \<and>
    (res = FPGA_OK \<longleftrightarrow> bi_metadata info' \<noteq> None)"
proof -
  obtain a s1 where 1: "bs_ok s1" "\<And>info. opae_load_bitstream E (Some file) (Some info) s =
    (let i = OPAE_BITSTREAM_INFO_INITIALIZER\<lparr>bi_data := Some (a, gbs_file text rbf), bi_data_len := length (gbs_file text rbf),
         bi_filename := Some file\<rparr> in
     if opae_is_legacy_bitstream i then Some (FPGA_OK, Some (opae_resolve_legacy_bitstream i), s1)
     else do { (res, i, s) \<leftarrow> opae_resolve_bitstream E i s1; Some (res, Some i, s) })"
    using load_readable [OF assms(1-3)] by blast
  let ?i = "OPAE_BITSTREAM_INFO_INITIALIZER\<lparr>bi_data := Some (a, gbs_file text rbf), bi_data_len := length (gbs_file text rbf),
         bi_filename := Some file\<rparr>"
  have "\<not> opae_is_legacy_bitstream ?i"
    by (simp add: opae_is_legacy_bitstream_def data_bytes_def gbs_file_def valid_GBS_guid_def field32_def OPAE_LEGACY_BITSTREAM_MAGIC_def)
  moreover obtain info' s' where "opae_resolve_bitstream E ?i s1 =
      Some (if decode_text E (json_cstring (map (\<lambda>b. char_of (unat b)) text)) = None then FPGA_EXCEPTION else FPGA_OK, info', s')"
      "bi_data info' = bi_data ?i" "bi_rbf info' = Some (20 + length text)" "bi_rbf_len info' = length rbf"
      "map_option (text_of_metadata (bi_pr_interface_id info')) (bi_metadata info') = decode_text E (json_cstring (map (\<lambda>b. char_of (unat b)) text))"
    using resolve_decodes [OF 1(1) assms(2), of ?i "text" rbf] assms(4,5)
    by (auto simp: data_bytes_def OPAE_BITSTREAM_INFO_INITIALIZER_def)
  moreover have "length valid_GBS_guid = 16" "length (le32 n) = 4" for n
    by (simp_all add: valid_GBS_guid_def le32_def)
  then have "drop (20 + length text) (gbs_file text rbf) = rbf"
    by (simp add: gbs_file_def)
  ultimately show ?thesis
    by (cases "bi_metadata info'") (auto simp: 1(2) Let_def data_bytes_def)
qed

theorem gbs_roundtrip_witness:
  "\<exists>info' s'. opae_load_bitstream (bs_demo_env (gbs_file [123, 125] [1, 2])) (Some ''a/b.gbs'') (Some OPAE_BITSTREAM_INFO_INITIALIZER) demo_state =
      Some (FPGA_OK, Some info', s') \<and>
    map_option (text_of_metadata (bi_pr_interface_id info')) (bi_metadata info') =
      Some \<lparr>mt_platform = Some ''DCP'', mt_numbers = [0, 0, 40], mt_interface = ''u'', mt_guid = replicate 16 7,
        mt_clusters = [(1, ''nlb'', ''d8'')]\<rparr>"
proof -
  let ?E = "bs_demo_env (gbs_file [123, 125] [1, 2])"
  note r = demo_readable [of "gbs_file [123, 125] [1, 2]"]
  have "map (\<lambda>b. char_of (unat b)) [123, 125 :: u8] = ''{}''" by (simp add: char_of_def bit_iff_odd)
  then have d: "decode_text ?E (json_cstring (map (\<lambda>b. char_of (unat b)) [123, 125 :: u8])) =
      Some \<lparr>mt_platform = Some ''DCP'', mt_numbers = [0, 0, 40], mt_interface = ''u'', mt_guid = replicate 16 7,
        mt_clusters = [(1, ''nlb'', ''d8'')]\<rparr>"
    by (simp add: decode_text_def json_cstring_def bs_demo_env_def demo_json_def int_at_def string_at_def clamp_def decode_metadata_def
      decode_clusters_def decode_cluster_def number_at_def member_of_def)
  have "\<And>n. alloc_ok ?E n" by (simp add: bs_demo_env_def)
  from gbs_roundtrip [OF demo_state_ok this r, of OPAE_BITSTREAM_INFO_INITIALIZER] d show ?thesis by auto
qed

text \<open>A legacy file is its magic number, the interface id written backwards and the logic: loading it finds both.\<close>

theorem legacy_roundtrip:
  assumes "bs_ok s" "\<And>n. alloc_ok E n" "readable E file (legacy_file guid rbf)" "length guid = 16"
  shows "\<exists>info' s'. opae_load_bitstream E (Some file) (Some info) s = Some (FPGA_OK, Some info', s') \<and>
    bi_pr_interface_id info' = guid \<and> map_option (\<lambda>off. drop off (data_bytes info')) (bi_rbf info') = Some rbf \<and>
    bi_rbf_len info' = length rbf \<and> bi_metadata info' = None"
proof -
  obtain a s1 where 1: "\<And>info. opae_load_bitstream E (Some file) (Some info) s =
    (let i = OPAE_BITSTREAM_INFO_INITIALIZER\<lparr>bi_data := Some (a, legacy_file guid rbf), bi_data_len := length (legacy_file guid rbf),
         bi_filename := Some file\<rparr> in
     if opae_is_legacy_bitstream i then Some (FPGA_OK, Some (opae_resolve_legacy_bitstream i), s1)
     else do { (res, i, s) \<leftarrow> opae_resolve_bitstream E i s1; Some (res, Some i, s) })"
    using load_readable [OF assms(1-3)] by blast
  have f: "field32 0 (legacy_file guid rbf) = OPAE_LEGACY_BITSTREAM_MAGIC"
    using field32_le32 [of "[]" 0 OPAE_LEGACY_BITSTREAM_MAGIC "rev guid @ rbf"] by (simp add: legacy_file_def)
  have l: "length (le32 n) = 4" for n by (simp add: le32_def)
  have n: "length (legacy_file guid rbf) = 20 + length rbf" using assms(4) by (simp add: legacy_file_def l)
  have "rev (take 16 (drop 4 (legacy_file guid rbf))) = guid" "drop 20 (legacy_file guid rbf) = rbf"
    using assms(4) by (simp_all add: legacy_file_def l)
  then show ?thesis
    by (simp add: 1 opae_is_legacy_bitstream_def data_bytes_def f n opae_resolve_legacy_bitstream_def legacy_header_size_def
      OPAE_BITSTREAM_INFO_INITIALIZER_def)
qed

theorem legacy_roundtrip_witness:
  "\<exists>info' s'. opae_load_bitstream (bs_demo_env (legacy_file [1, 2, 3, 4, 5, 6, 7, 8, 9, 10, 11, 12, 13, 14, 15, 16] [0xff]))
      (Some ''a/b.gbs'') (Some OPAE_BITSTREAM_INFO_INITIALIZER) demo_state = Some (FPGA_OK, Some info', s') \<and>
    bi_pr_interface_id info' = [1, 2, 3, 4, 5, 6, 7, 8, 9, 10, 11, 12, 13, 14, 15, 16] \<and> bi_rbf_len info' = 1"
proof -
  let ?f = "legacy_file [1, 2, 3, 4, 5, 6, 7, 8, 9, 10, 11, 12, 13, 14, 15, 16] [0xff]"
  let ?E = "bs_demo_env ?f"
  note r = demo_readable [of ?f]
  have "\<And>n. alloc_ok ?E n" by (simp add: bs_demo_env_def)
  from legacy_roundtrip [OF demo_state_ok this r, of OPAE_BITSTREAM_INFO_INITIALIZER] show ?thesis by auto
qed

text \<open>C25. Resolving a header is undefined only for the length \<open>2 ^ 32 - 1\<close>, when the file really holds that many bytes
  and the allocation of 0 bytes succeeds. When it succeeds, the logic begins after the metadata and
  ends with the data.\<close>

theorem resolve_bitstream_bounds:
  assumes "bs_ok s" "bi_metadata info = None" "bi_data_len info = length (data_bytes info)"
  shows "(opae_resolve_bitstream E info s = None \<longleftrightarrow> take 16 (data_bytes info) = valid_GBS_guid \<and>
      field32 16 (data_bytes info) = 2 ^ 32 - 1 \<and> 2 ^ 32 + 19 \<le> length (data_bytes info) \<and> alloc_ok E (bs_allocs s)) \<and>
    (\<forall>info' s'. opae_resolve_bitstream E info s = Some (FPGA_OK, info', s') \<longrightarrow>
      (\<exists>off. bi_rbf info' = Some off \<and> off = 20 + unat (field32 16 (data_bytes info)) \<and>
        off + bi_rbf_len info' = length (data_bytes info) \<and> bi_metadata info' \<noteq> None))"
proof -
  have m: "fst (bs_malloc E s) = 0 \<longleftrightarrow> \<not> alloc_ok E (bs_allocs s)"
    using assms(1) by (auto simp: bs_malloc_def bs_ok_def Let_def)
  have l: "(2 ^ 32 - 1 :: u32) + 1 = 0" "unat (2 ^ 32 - 1 :: u32) = 2 ^ 32 - 1"
    by simp_all
  have "opae_resolve_bitstream E info s = None \<longleftrightarrow> take 16 (data_bytes info) = valid_GBS_guid \<and>
      field32 16 (data_bytes info) = 2 ^ 32 - 1 \<and> 2 ^ 32 + 19 \<le> length (data_bytes info) \<and> alloc_ok E (bs_allocs s)"
    (is "?N \<longleftrightarrow> ?R")
  proof
    assume n: ?N
    then have "field32 16 (data_bytes info) + 1 = 0" "\<not> bi_data_len info < 2 ^ 32 + 19"
      using resolve_owns [OF assms(1) _ assms(2), of E] by fastforce+
    then have "field32 16 (data_bytes info) = 2 ^ 32 - 1" "2 ^ 32 + 19 \<le> length (data_bytes info)"
      using assms(3) by (simp_all add: eq_neg_iff_add_eq_0 [symmetric])
    with n m show ?R
      by (auto simp: opae_resolve_bitstream_def Let_def split: if_splits prod.splits)
  next
    assume ?R
    with l m assms(3) show ?N
      by (auto simp: opae_resolve_bitstream_def Let_def bitstream_header_size_def split: prod.splits)
  qed
  then show ?thesis
    using resolve_OK_bounds [of E info s] assms(3) by auto
qed

theorem resolve_bitstream_bounds_witness:
  "opae_resolve_bitstream (bs_demo_env []) (OPAE_BITSTREAM_INFO_INITIALIZER
      \<lparr>bi_data := Some (9, valid_GBS_guid @ [255, 255, 255, 255] @ replicate (2 ^ 32) 0), bi_data_len := 2 ^ 32 + 20\<rparr>) demo_state = None"
proof -
  let ?bs = "valid_GBS_guid @ [255, 255, 255, 255] @ replicate (2 ^ 32) 0 :: u8 list"
  let ?info = "OPAE_BITSTREAM_INFO_INITIALIZER\<lparr>bi_data := Some (9, ?bs), bi_data_len := 2 ^ 32 + 20\<rparr> :: nat bitstream_info"
  have l: "length (replicate (2 ^ 32) (0 :: u8)) = 2 ^ 32" by (rule length_replicate)
  have "data_bytes ?info = ?bs" by (simp add: data_bytes_def)
  moreover have "length ?bs = 2 ^ 32 + 20" by (simp add: valid_GBS_guid_def l)
  moreover have "field32 16 ?bs = 2 ^ 32 - 1" "take 16 ?bs = valid_GBS_guid"
    by (simp_all add: field32_def valid_GBS_guid_def nth_append)
  ultimately show ?thesis
    using resolve_bitstream_bounds [OF demo_state_ok, of ?info "bs_demo_env []"]
    by (simp add: OPAE_BITSTREAM_INFO_INITIALIZER_def bs_demo_env_def)
qed

text \<open>C26. A path that fits its buffer is accepted exactly when it names a regular file by printable characters
  without an URL escape, none of its names is two dots when the flags refuse parents, and, when the flags
  refuse links, an absolute path is letter by letter what realpath makes of it, and no prefix of a relative
  path is a link. For an absolute path this is not the absence of links: one with a doubled slash or a dot
  for a name is refused although it goes through none.\<close>

theorem path_is_valid_iff:
  assumes "fs_stat E p \<noteq> None \<longrightarrow> length p < BITS_PATH_MAX"
  shows "opae_bitstream_path_is_valid E (Some p) flags = Some (p \<noteq> [] \<and> (\<forall>c\<in>set p. isprint c) \<and> \<not> url_escape p \<and>
    fs_stat E p = Some True \<and>
    (flags AND OPAE_BITSTREAM_PATH_NO_PARENT \<noteq> 0 \<longrightarrow> ''..'' \<notin> set (components p)) \<and>
    (flags AND OPAE_BITSTREAM_PATH_NO_SYMLINK \<noteq> 0 \<longrightarrow>
      (if take 1 p = ''/'' then fs_real E p = p
       else \<forall>q. q = p \<or> (\<exists>r. p = q @ ''/'' @ r) \<longrightarrow> fs_lstat E q = Some False)))"
proof (cases "p \<noteq> [] \<and> \<not> opae_bitstream_path_invalid_chars p \<and> fs_stat E p = Some True")
  case True
  then have "length p < BITS_PATH_MAX" using assms by simp
  moreover have "\<not> relative_symlink E p \<longleftrightarrow> (\<forall>q. q = p \<or> (\<exists>r. p = q @ ''/'' @ r) \<longrightarrow> fs_lstat E q = Some False)"
    by (auto simp: relative_symlink_iff)
  moreover have "(\<forall>c\<in>set p. isprint c) \<and> \<not> url_escape p" using True by (auto simp: invalid_chars_iff)
  ultimately show ?thesis
    using True unfolding opae_bitstream_path_is_valid_def opae_bitstream_path_contains_symlink_def
      opae_bitstream_path_not_file_def contains_dotdot_components by simp
next
  case False
  then show ?thesis
    by (auto simp: opae_bitstream_path_is_valid_def opae_bitstream_path_not_file_def invalid_chars_iff)
qed

theorem path_is_valid_iff_witness:
  "opae_bitstream_path_is_valid (bs_demo_env []) (Some ''a/b.gbs'') OPAE_BITSTREAM_PATH_NO_PARENT = Some True"
  using path_is_valid_iff [of "bs_demo_env []" "''a/b.gbs''" OPAE_BITSTREAM_PATH_NO_PARENT]
  by (simp add: bs_demo_env_def BITS_PATH_MAX_def isprint_def url_escape_def Cons_eq_append_conv OPAE_BITSTREAM_PATH_NO_SYMLINK_def
    OPAE_BITSTREAM_PATH_NO_PARENT_def)

end
