(* ===== verification/Xfpga_Reconf.thy ===== *)
theory Xfpga_Reconf
  imports Xfpga_Handle Bitstream
begin

section \<open>Reconfiguration (plugins/xfpga/bitstream.c, reconf.c)\<close>

text \<open>
  \<^verbatim>\<open>xfpga_fpgaReconfigureSlot\<close> checks a bitstream in the caller's memory, makes sure that nobody uses
  the accelerator, clears the errors of the port, sets the user clock and asks the driver to
  reconfigure the slot.

  The bitstream is an address and the bytes that can be read from there on; a read past them is
  undefined, and the length the caller states is an argument of its own. The handle, the driver table, and opening and
  closing the accelerator are those of \<open>Xfpga_Handle\<close>. The calls into \<^verbatim>\<open>sysfs.c\<close>, \<^verbatim>\<open>enum.c\<close>, \<^verbatim>\<open>properties.c\<close> and
  \<^verbatim>\<open>user_clk_pgm_uclock.c\<close> are recorded in a log and answered by the environment, as the system calls
  are; enumeration stores at most one token and destroying a token removes it. The JSON and UUID
  libraries are parameters.
\<close>

datatype rc_call =
    RC_interface_id ptr
  | RC_get_properties
  | RC_set_parent ptr
  | RC_enumerate
  | RC_destroy_token ptr
  | RC_destroy_properties
  | RC_port_error_path ptr
  | RC_read_errors
  | RC_port_error_clear_path ptr
  | RC_clear_errors u64
  | RC_port_sysfs ptr
  | RC_set_userclock u64 u64
  | RC_get_userclock

text \<open>
  \<open>rc_guid\<close> is the interface id sysfs reports, \<open>rc_token\<close> the token enumeration makes and \<open>rc_matches\<close> how many
  it counts, \<open>rc_errors\<close> the errors of the port, \<open>rc_errno\<close> what \<^verbatim>\<open>errno\<close> holds when no request was made.
  The other fields say what the JSON library makes of a value that has another type.
\<close>

record 'd rc_env =
  rc_x :: xenv
  rc_ans :: "rc_call list \<Rightarrow> rc_call \<Rightarrow> fpga_result"
  rc_guid :: "rc_call list \<Rightarrow> u8 list"
  rc_token :: "rc_call list \<Rightarrow> xfpga_token option"
  rc_matches :: "rc_call list \<Rightarrow> u32"
  rc_errors :: "rc_call list \<Rightarrow> u64"
  rc_errno :: int
  rc_uuid_parse :: "string \<Rightarrow> u8 list option"
  rc_json_parse :: "string \<Rightarrow> 'd json option"
  rc_json_text :: "'d json \<Rightarrow> string"
  rc_json_int :: "'d json \<Rightarrow> int"
  rc_json_int64 :: "'d json \<Rightarrow> int"
  rc_json_double :: "'d json \<Rightarrow> 'd"

record rc_state =
  rs_x :: xfpga
  rs_log :: "rc_call list"

definition rc_do :: "'d rc_env \<Rightarrow> rc_call \<Rightarrow> rc_state \<Rightarrow> fpga_result \<times> rc_state" where
  "rc_do E c s = (rc_ans E (rs_log s) c, s\<lparr>rs_log := c # rs_log s\<rparr>)"

subsection \<open>Values of the JSON library\<close>

text \<open>A JSON null is a NULL pointer. The text of a string is the whole string, the terminator not included.\<close>

definition json_pointer :: "'d json option \<Rightarrow> 'd json option" where
  "json_pointer j = (case j of Some JNull \<Rightarrow> None | _ \<Rightarrow> j)"

fun json_object_get_string :: "'d rc_env \<Rightarrow> 'd json \<Rightarrow> string option" where
  "json_object_get_string E JNull = None"
| "json_object_get_string E (JString str) = Some str"
| "json_object_get_string E j = Some (rc_json_text E j)"

fun json_object_get_string_len :: "'d json \<Rightarrow> nat" where
  "json_object_get_string_len (JString str) = length str"
| "json_object_get_string_len _ = 0"

fun json_object_get_int :: "'d rc_env \<Rightarrow> 'd json \<Rightarrow> int" where
  "json_object_get_int E (JInt i) = json_int i"
| "json_object_get_int E j = rc_json_int E j"

fun json_object_get_int64 :: "'d rc_env \<Rightarrow> 'd json \<Rightarrow> int" where
  "json_object_get_int64 E (JInt i) = max (- (2 ^ 63)) (min (2 ^ 63 - 1) i)"
| "json_object_get_int64 E j = rc_json_int64 E j"

subsection \<open>The header of a bitstream (bitstream.c)\<close>

definition METADATA_GUID :: string where "METADATA_GUID = ''58656F6E-4650-4741-B747-425376303031''"
definition METADATA_GUID_LEN :: nat where "METADATA_GUID_LEN = 16"
definition METADATA_MAX_LEN :: nat where "METADATA_MAX_LEN = 8192"
definition FPGA_GBS_6_3_0_MAGIC :: u32 where "FPGA_GBS_6_3_0_MAGIC = 0x1d1f8680"
definition GUID_LEN :: nat where "GUID_LEN = 36"
definition AFU_NAME_LEN :: nat where "AFU_NAME_LEN = 512"

definition string_to_guid :: "'d rc_env \<Rightarrow> string \<Rightarrow> fpga_result \<times> u8 list option" where
  "string_to_guid E guid =
     (case rc_uuid_parse E (json_cstring guid) of
        None \<Rightarrow> (FPGA_INVALID_PARAM, None)
      | Some g \<Rightarrow> (FPGA_OK, Some g))"

fun le_value :: "u8 list \<Rightarrow> u64" where
  "le_value [] = 0"
| "le_value (b # bs) = ucast b + push_bit 8 (le_value bs)"

definition read_int_from_bitstream :: "u8 list \<Rightarrow> nat \<Rightarrow> u64 option" where
  "read_int_from_bitstream bitstream sz =
     (if sz \<in> {1, 2, 4, 8} then (if length bitstream < sz then None else Some (le_value (take sz bitstream)))
      else Some 0)"

definition int64_be_to_le :: "u64 \<Rightarrow> u64" where
  "int64_be_to_le val =
     (let val = (push_bit 8 val AND 0xFF00FF00FF00FF00) OR (signed_drop_bit 8 val AND 0x00FF00FF00FF00FF);
          val = (push_bit 16 val AND 0xFFFF0000FFFF0000) OR (signed_drop_bit 16 val AND 0x0000FFFF0000FFFF)
      in push_bit 32 val OR (signed_drop_bit 32 val AND 0xFFFFFFFF))"

text \<open>The two halves of a GUID, \<open>l\<close> and \<open>h\<close>.\<close>

definition guid_halves :: "u8 list \<Rightarrow> u64 \<times> u64" where
  "guid_halves guid = (int64_be_to_le (le_value (take 8 (drop 8 guid))), int64_be_to_le (le_value (take 8 guid)))"

definition get_interface_id ::
  "'d rc_env \<Rightarrow> ptr \<Rightarrow> rc_state \<Rightarrow> (fpga_result \<times> (u64 \<times> u64) option \<times> rc_state) option" where
  "get_interface_id E handle s = do {
     h \<leftarrow> xf_handles (rs_x s) handle;
     (if xh_token h = NULL then Some (FPGA_INVALID_PARAM, None, s)
      else do {
        t \<leftarrow> xf_tokens (rs_x s) (xh_token h);
        (if xt_magic t \<noteq> FPGA_TOKEN_MAGIC then Some (FPGA_INVALID_PARAM, None, s)
         else case rc_do E (RC_interface_id (xh_token h)) s of (result, s') \<Rightarrow>
           if result \<noteq> FPGA_OK then Some (FPGA_EXCEPTION, None, s')
           else Some (FPGA_OK, Some (guid_halves (rc_guid E (rs_log s))), s'))
      })
   }"

definition check_interface_id ::
  "'d rc_env \<Rightarrow> ptr \<Rightarrow> u32 \<Rightarrow> u64 \<Rightarrow> u64 \<Rightarrow> rc_state \<Rightarrow> (fpga_result \<times> rc_state) option" where
  "check_interface_id E handle bitstream_magic_no ifid_l ifid_h s =
     (if bitstream_magic_no \<noteq> FPGA_GBS_6_3_0_MAGIC then Some (FPGA_NOT_FOUND, s)
      else do {
        (result, id, s) \<leftarrow> get_interface_id E handle s;
        Some (if id = Some (ifid_l, ifid_h) then FPGA_OK else FPGA_NOT_FOUND, s)
      })"

definition check_bitstream_guid :: "'d rc_env \<Rightarrow> u8 list \<Rightarrow> fpga_result option" where
  "check_bitstream_guid E bitstream =
     (if length bitstream < METADATA_GUID_LEN then None
      else case string_to_guid E METADATA_GUID of (result, expected) \<Rightarrow>
        Some (if result \<noteq> FPGA_OK \<or> Some (take METADATA_GUID_LEN bitstream) \<noteq> expected then FPGA_INVALID_PARAM else FPGA_OK))"

text \<open>The length field, 32 bits. A NULL bitstream is None.\<close>

definition json_len_field :: "u8 list \<Rightarrow> u32 option" where
  "json_len_field bitstream = map_option ucast (read_int_from_bitstream (drop METADATA_GUID_LEN bitstream) 4)"

definition get_bitstream_header_len :: "'d rc_env \<Rightarrow> u8 list option \<Rightarrow> int option" where
  "get_bitstream_header_len E bitstream =
     (case bitstream of
        None \<Rightarrow> Some (-1)
      | Some bitstream \<Rightarrow> do {
          result \<leftarrow> check_bitstream_guid E bitstream;
          (if result \<noteq> FPGA_OK then Some (-1)
           else do {
             json_len \<leftarrow> json_len_field bitstream;
             Some (sint (word_of_nat (METADATA_GUID_LEN + 4 + unat json_len) :: u32))
           })
        })"

definition get_bitstream_json_len :: "'d rc_env \<Rightarrow> u8 list option \<Rightarrow> int option" where
  "get_bitstream_json_len E bitstream =
     (case bitstream of
        None \<Rightarrow> Some (-1)
      | Some bitstream \<Rightarrow> do {
          result \<leftarrow> check_bitstream_guid E bitstream;
          (if result \<noteq> FPGA_OK then Some (-1) else map_option sint (json_len_field bitstream))
        })"

text \<open>The copy of the metadata, as a string, and the value it is parsed to.\<close>

definition json_metadata :: "u8 list \<Rightarrow> u32 \<Rightarrow> string option" where
  "json_metadata bitstream json_len =
     (let p = drop (METADATA_GUID_LEN + 4) bitstream in
      if length p < unat json_len then None
      else Some (json_cstring (map (\<lambda>b. char_of (unat b)) (take (unat json_len) p))))"

definition json_root :: "'d rc_env \<Rightarrow> string \<Rightarrow> 'd json option" where
  "json_root E str = json_pointer (rc_json_parse E str)"

text \<open>
  The block for the metadata is freed at \<^verbatim>\<open>out_free\<close> on every path; only whether it could be allocated matters
  here.
\<close>

definition rc_malloc :: "'d rc_env \<Rightarrow> rc_state \<Rightarrow> bool \<times> rc_state" where
  "rc_malloc E s = (case xsys (rc_x E) X_malloc (rs_x s) of (ok, x) \<Rightarrow> (ok \<noteq> 0, s\<lparr>rs_x := x\<rparr>))"

definition validate_bitstream_metadata ::
  "'d rc_env \<Rightarrow> ptr \<Rightarrow> u8 list \<Rightarrow> rc_state \<Rightarrow> (fpga_result \<times> rc_state) option" where
  "validate_bitstream_metadata E handle bitstream s = do {
     result \<leftarrow> check_bitstream_guid E bitstream;
     (if result \<noteq> FPGA_OK then Some (FPGA_EXCEPTION, s)
      else do {
        json_len \<leftarrow> json_len_field bitstream;
        (if json_len = 0 then Some (FPGA_OK, s)
         else if METADATA_MAX_LEN \<le> unat json_len then Some (FPGA_EXCEPTION, s)
         else case rc_malloc E s of (ok, s) \<Rightarrow>
         if \<not> ok then Some (FPGA_NO_MEMORY, s)
         else do {
           str \<leftarrow> json_metadata bitstream json_len;
           (case json_root E str of
              None \<Rightarrow> Some (FPGA_EXCEPTION, s)
            | Some root \<Rightarrow>
                (case json_get root ''afu-image'' of
                   None \<Rightarrow> Some (FPGA_INVALID_PARAM, s)
                 | Some afu_image \<Rightarrow>
                     (case (json_pointer (json_get afu_image ''magic-no''), json_pointer (json_get afu_image ''interface-uuid'')) of
                        (Some magic_no, Some interface_id) \<Rightarrow> do {
                          id \<leftarrow> json_object_get_string E interface_id;
                          (case string_to_guid E id of (result, guid) \<Rightarrow>
                             if result \<noteq> FPGA_OK then Some (result, s)
                             else do {
                               guid \<leftarrow> guid;
                               (case guid_halves guid of (l, h) \<Rightarrow>
                                  check_interface_id E handle (word_of_int (json_object_get_int E magic_no)) l h s)
                             })
                        }
                      | _ \<Rightarrow> Some (FPGA_INVALID_PARAM, s))))
         })
      })
   }"

text \<open>What is read from the metadata, the strings up to their terminators. A field whose key is missing keeps its 0.\<close>

record 'd gbs_metadata =
  gm_version :: 'd
  gm_magic_num :: u64
  gm_interface_uuid :: string
  gm_clock_frequency_high :: u32
  gm_clock_frequency_low :: u32
  gm_power :: u32
  gm_name :: string
  gm_total_contexts :: u32
  gm_afu_uuid :: string

text \<open>\<open>GUID_LEN\<close> bytes are copied from the text of a value, whatever its length.\<close>

definition copy_guid :: "'d rc_env \<Rightarrow> 'd json \<Rightarrow> string option" where
  "copy_guid E j = do {
     str \<leftarrow> json_object_get_string E j;
     (if length str + 1 < GUID_LEN then None else Some (json_cstring (take GUID_LEN (str @ [CHR 0x00]))))
   }"

text \<open>The name of an AFU is copied without its terminator into a field of \<open>AFU_NAME_LEN\<close> zeroes.\<close>

definition copy_name :: "'d rc_env \<Rightarrow> 'd json \<Rightarrow> string option" where
  "copy_name E j =
     (if json_object_get_string_len j = 0 then Some []
      else if AFU_NAME_LEN < json_object_get_string_len j then None
      else map_option json_cstring (json_object_get_string E j))"

definition int_field :: "'d rc_env \<Rightarrow> 'd json \<Rightarrow> string \<Rightarrow> 'w::len word" where
  "int_field E j name = (case json_get j name of None \<Rightarrow> 0
     | Some v \<Rightarrow> word_of_int (json_object_get_int64 E v))"

definition read_afu_image :: "'d rc_env \<Rightarrow> 'd \<Rightarrow> 'd json \<Rightarrow> (fpga_result \<times> 'd gbs_metadata option) option" where
  "read_afu_image E version afu_image =
     (case json_get afu_image ''interface-uuid'' of
        None \<Rightarrow> Some (FPGA_INVALID_PARAM, None)
      | Some interface_id \<Rightarrow> do {
          uuid \<leftarrow> copy_guid E interface_id;
          (case json_get afu_image ''accelerator-clusters'' of
             None \<Rightarrow> Some (FPGA_INVALID_PARAM, None)
           | Some (JArray clusters) \<Rightarrow>
               (case clusters of
                  [] \<Rightarrow> Some (FPGA_INVALID_PARAM, None)
                | cluster # _ \<Rightarrow>
                    (case json_get cluster ''accelerator-type-uuid'' of
                       None \<Rightarrow> Some (FPGA_INVALID_PARAM, None)
                     | Some j_uuid \<Rightarrow> do {
                         afu_uuid \<leftarrow> copy_guid E j_uuid;
                         name \<leftarrow> (case json_get cluster ''name'' of None \<Rightarrow> Some [] | Some j \<Rightarrow> copy_name E j);
                         Some (FPGA_OK, Some \<lparr>gm_version = version, gm_magic_num = int_field E afu_image ''magic-no'',
                           gm_interface_uuid = uuid,
                           gm_clock_frequency_high = int_field E afu_image ''clock-frequency-high'',
                           gm_clock_frequency_low = int_field E afu_image ''clock-frequency-low'',
                           gm_power = int_field E afu_image ''power'', gm_name = name,
                           gm_total_contexts = int_field E cluster ''total-contexts'', gm_afu_uuid = afu_uuid\<rparr>)
                       }))
           | _ \<Rightarrow> None)
        })"

definition read_gbs_metadata ::
  "'d rc_env \<Rightarrow> u8 list \<Rightarrow> rc_state \<Rightarrow> (fpga_result \<times> 'd gbs_metadata option \<times> rc_state) option" where
  "read_gbs_metadata E bitstream s = do {
     result \<leftarrow> check_bitstream_guid E bitstream;
     (if result \<noteq> FPGA_OK then Some (FPGA_INVALID_PARAM, None, s)
      else do {
        json_len \<leftarrow> json_len_field bitstream;
        (if json_len = 0 \<or> METADATA_MAX_LEN \<le> unat json_len then Some (FPGA_INVALID_PARAM, None, s)
         else case rc_malloc E s of (ok, s) \<Rightarrow>
         if \<not> ok then Some (FPGA_NO_MEMORY, None, s)
         else do {
           str \<leftarrow> json_metadata bitstream json_len;
           (case json_root E str of
              None \<Rightarrow> Some (FPGA_INVALID_PARAM, None, s)
            | Some root \<Rightarrow>
                (case json_get root ''version'' of
                   None \<Rightarrow> Some (FPGA_INVALID_PARAM, None, s)
                 | Some version \<Rightarrow>
                     (case json_get root ''afu-image'' of
                        None \<Rightarrow> Some (FPGA_INVALID_PARAM, None, s)
                      | Some afu_image \<Rightarrow> do {
                          (result, md) \<leftarrow> read_afu_image E (rc_json_double E version) afu_image;
                          Some (result, md, s)
                        })))
         })
      })
   }"

subsection \<open>Reconfiguring a slot (reconf.c)\<close>

definition bitstream_header_bytes :: u64 where "bitstream_header_bytes = 20"

text \<open>The result, and the length of the header, which keeps its 0 when it is not computed.\<close>

definition validate_bitstream ::
  "'d rc_env \<Rightarrow> ptr \<Rightarrow> u8 list option \<Rightarrow> u64 \<Rightarrow> rc_state \<Rightarrow> (fpga_result \<times> int \<times> rc_state) option" where
  "validate_bitstream E handle bitstream bitstream_len s =
     (case bitstream of
        None \<Rightarrow> Some (FPGA_INVALID_PARAM, 0, s)
      | Some bs \<Rightarrow>
          (if bitstream_len \<le> bitstream_header_bytes then Some (FPGA_INVALID_PARAM, 0, s)
           else do {
             guid \<leftarrow> check_bitstream_guid E bs;
             (if guid \<noteq> FPGA_OK then Some (FPGA_INVALID_PARAM, 0, s)
              else do {
                header_len \<leftarrow> get_bitstream_header_len E bitstream;
                (if header_len < 0 then Some (FPGA_EXCEPTION, header_len, s)
                 else do {
                   (result, s) \<leftarrow> validate_bitstream_metadata E handle bs s;
                   Some (if result \<noteq> FPGA_OK then FPGA_EXCEPTION else FPGA_OK, header_len, s)
                 })
              })
           }))"

text \<open>Enumeration stores at most one token; without one the pointer stays NULL.\<close>

definition rc_enumerate :: "'d rc_env \<Rightarrow> rc_state \<Rightarrow> fpga_result \<times> ptr \<times> u32 \<times> rc_state" where
  "rc_enumerate E s =
     (case rc_do E RC_enumerate s of (result, s') \<Rightarrow>
      case (if result = FPGA_OK then rc_token E (rs_log s) else None) of
        Some w \<Rightarrow>
          (let x = rs_x s' in
           (result, xf_brk x, rc_matches E (rs_log s),
            s'\<lparr>rs_x := x\<lparr>xf_brk := Suc (xf_brk x), xf_tokens := (xf_tokens x)(xf_brk x \<mapsto> w)\<rparr>\<rparr>))
      | None \<Rightarrow> (result, NULL, rc_matches E (rs_log s), s'))"

definition rc_destroy_token :: "'d rc_env \<Rightarrow> ptr \<Rightarrow> rc_state \<Rightarrow> fpga_result \<times> rc_state" where
  "rc_destroy_token E token s =
     (case rc_do E (RC_destroy_token token) s of (result, s) \<Rightarrow>
        (result, if result = FPGA_OK then s\<lparr>rs_x := (rs_x s)\<lparr>xf_tokens := (xf_tokens (rs_x s))(token := None)\<rparr>\<rparr> else s))"

text \<open>The label \<^verbatim>\<open>destroy_token\<close>: the accelerator stays open also when destroying the token fails.\<close>

definition find_accel :: "'d rc_env \<Rightarrow> rc_state \<Rightarrow> (fpga_result \<times> ptr option \<times> rc_state) option" where
  "find_accel E s =
     (case rc_enumerate E s of (result, token, matches, s) \<Rightarrow>
      if result \<noteq> FPGA_OK then Some (result, None, s)
      else do {
        (result, accel, s) \<leftarrow>
          (if matches = 0 then Some (FPGA_BUSY, None, s)
           else do {
             (result, accel, x) \<leftarrow> xfpga_fpgaOpen (rc_x E) token True 0 (rs_x s);
             Some (result, accel, s\<lparr>rs_x := x\<rparr>)
           });
        (case rc_destroy_token E token s of (_, s) \<Rightarrow> Some (result, accel, s))
      })"

definition open_accel :: "'d rc_env \<Rightarrow> ptr \<Rightarrow> rc_state \<Rightarrow> (fpga_result \<times> ptr option \<times> rc_state) option" where
  "open_accel E handle s =
     (if handle = NULL then Some (FPGA_INVALID_PARAM, None, s)
      else do {
        h \<leftarrow> xf_handles (rs_x s) handle;
        (if xh_token h = NULL then Some (FPGA_INVALID_PARAM, None, s)
         else case rc_do E RC_get_properties s of (result, s) \<Rightarrow>
         if result \<noteq> FPGA_OK then Some (result, None, s)
         else case rc_do E (RC_set_parent (xh_token h)) s of (result, s) \<Rightarrow> do {
           (result, accel, s) \<leftarrow> (if result \<noteq> FPGA_OK then Some (result, None, s) else find_accel E s);
           (case rc_do E RC_destroy_properties s of (destroy_result, s) \<Rightarrow>
              Some (if result \<noteq> FPGA_OK then result else destroy_result, accel, s))
         })
      })"

definition clear_port_errors :: "'d rc_env \<Rightarrow> ptr \<Rightarrow> rc_state \<Rightarrow> fpga_result \<times> rc_state" where
  "clear_port_errors E handle s =
     (case rc_do E (RC_port_error_path handle) s of (result, s) \<Rightarrow>
      if result \<noteq> FPGA_OK then (result, s)
      else case rc_do E RC_read_errors s of (result, s') \<Rightarrow>
      if result \<noteq> FPGA_OK then (result, s')
      else let errors = rc_errors E (rs_log s) in
      case rc_do E (RC_port_error_clear_path handle) s' of (result, s) \<Rightarrow>
      if result \<noteq> FPGA_OK then (result, s)
      else rc_do E (RC_clear_errors errors) s)"

definition set_afu_userclock :: "'d rc_env \<Rightarrow> ptr \<Rightarrow> u64 \<Rightarrow> u64 \<Rightarrow> rc_state \<Rightarrow> fpga_result \<times> rc_state" where
  "set_afu_userclock E handle usrlclock_high usrlclock_low s =
     (case rc_do E (RC_port_sysfs handle) s of (result, s) \<Rightarrow>
      if result \<noteq> FPGA_OK then (result, s)
      else case rc_do E (RC_set_userclock usrlclock_high usrlclock_low) s of (result, s) \<Rightarrow>
      if result \<noteq> FPGA_OK then (result, s)
      else rc_do E RC_get_userclock s)"

definition FPGA_RECONF_FORCE :: u32 where "FPGA_RECONF_FORCE = 1"
definition FPGA_RECONF_SKIP_USRCLK :: u32 where "FPGA_RECONF_SKIP_USRCLK = 2"

text \<open>The metadata are read again and the user clock is set from them.\<close>

definition reconf_userclock ::
  "'d rc_env \<Rightarrow> ptr \<Rightarrow> u8 list option \<Rightarrow> u32 \<Rightarrow> rc_state \<Rightarrow> (fpga_result \<times> rc_state) option" where
  "reconf_userclock E handle bitstream flags s = do {
     json_len \<leftarrow> get_bitstream_json_len E bitstream;
     (if json_len \<le> 0 then Some (FPGA_OK, s)
      else do {
        bs \<leftarrow> bitstream;
        (result, md, s) \<leftarrow> read_gbs_metadata E bs s;
        (case md of
           None \<Rightarrow> Some (result, s)
         | Some md \<Rightarrow>
             Some (if flags AND FPGA_RECONF_SKIP_USRCLK = 0 \<and>
                     (0 < sint (gm_clock_frequency_high md) \<or> 0 < sint (gm_clock_frequency_low md))
                   then set_afu_userclock E handle (scast (gm_clock_frequency_high md)) (scast (gm_clock_frequency_low md)) s
                   else (FPGA_OK, s)))
      })
   }"

definition EFAULT :: int where "EFAULT = 14"

text \<open>\<^verbatim>\<open>errno\<close> after the request; without a request it is what it was before.\<close>

definition errno_after :: "'d rc_env \<Rightarrow> xfpga \<Rightarrow> int" where
  "errno_after E x =
     (case xf_calls x of
        X_ioctl d fd (Fme_port_pr port sz addr) # cs \<Rightarrow> xans (rc_x E) cs (X_ioctl d fd (Fme_port_pr port sz addr))
      | _ \<Rightarrow> rc_errno E)"

text \<open>The seven error bits of the register; the others are reserved.\<close>

definition reconf_error_bits :: u64 where "reconf_error_bits = 0x7f"

definition reconf_slot ::
  "'d rc_env \<Rightarrow> xfpga_handle \<Rightarrow> u32 \<Rightarrow> u64 \<Rightarrow> u64 \<Rightarrow> int \<Rightarrow> rc_state \<Rightarrow> fpga_result \<times> rc_state" where
  "reconf_slot E h slot addr bitstream_len header_len s =
     (case opae_fme_port_pr (rc_x E) (xh_fddev h) 0 slot (ucast (bitstream_len - word_of_int header_len))
             (addr + word_of_int header_len) True (rs_x s) of (result, csr, x) \<Rightarrow>
      let result = (if result \<noteq> FPGA_OK
                    then (if errno_after E x = EINVAL \<or> errno_after E x = EFAULT then FPGA_INVALID_PARAM else FPGA_EXCEPTION)
                    else FPGA_OK)
      in (if (case csr of None \<Rightarrow> 0 | Some csr \<Rightarrow> csr) AND reconf_error_bits \<noteq> 0 then FPGA_RECONF_ERROR else result,
          s\<lparr>rs_x := x\<rparr>))"

text \<open>The steps under the lock, up to \<^verbatim>\<open>out_unlock\<close>. The address of the bitstream is given apart from its bytes.\<close>

definition reconf_locked ::
  "'d rc_env \<Rightarrow> ptr \<Rightarrow> xfpga_handle \<Rightarrow> u32 \<Rightarrow> (u64 \<times> u8 list) option \<Rightarrow> u64 \<Rightarrow> u32 \<Rightarrow> rc_state \<Rightarrow>
     (fpga_result \<times> ptr option \<times> rc_state) option" where
  "reconf_locked E fpga h slot bitstream bitstream_len flags s =
     (if xh_fddev h < 0 then Some (FPGA_INVALID_PARAM, None, s)
      else do {
        (result, header_len, s) \<leftarrow> validate_bitstream E fpga (map_option snd bitstream) bitstream_len s;
        (if result \<noteq> FPGA_OK then Some (FPGA_INVALID_PARAM, None, s)
         else do {
           (result, accel, s) \<leftarrow>
             (if flags AND FPGA_RECONF_FORCE = 0 then open_accel E fpga s else Some (FPGA_OK, None, s));
           (if result \<noteq> FPGA_OK then Some (result, accel, s)
            else case clear_port_errors E fpga s of (_, s) \<Rightarrow> do {
              (result, s) \<leftarrow> reconf_userclock E fpga (map_option snd bitstream) flags s;
              (if result \<noteq> FPGA_OK then Some (result, accel, s)
               else do {
                 (addr, _) \<leftarrow> bitstream;
                 (case reconf_slot E h slot addr bitstream_len header_len s of (result, s) \<Rightarrow>
                    Some (result, accel, s))
               })
            })
         })
      })"

definition xfpga_fpgaReconfigureSlot ::
  "'d rc_env \<Rightarrow> ptr \<Rightarrow> u32 \<Rightarrow> (u64 \<times> u8 list) option \<Rightarrow> u64 \<Rightarrow> u32 \<Rightarrow> rc_state \<Rightarrow> (fpga_result \<times> rc_state) option" where
  "xfpga_fpgaReconfigureSlot E fpga slot bitstream bitstream_len flags s = do {
     (result, x) \<leftarrow> xhandle_check_and_lock (rc_x E) fpga (rs_x s);
     (let s = s\<lparr>rs_x := x\<rparr> in
      if result \<noteq> FPGA_OK then Some (result, s)
      else do {
        h \<leftarrow> xf_handles x fpga;
        (result, accel, s) \<leftarrow> reconf_locked E fpga h slot bitstream bitstream_len flags s;
        (result, x) \<leftarrow>
          (case accel of
             None \<Rightarrow> Some (result, rs_x s)
           | Some a \<Rightarrow> do {
               (closed, x) \<leftarrow> xfpga_fpgaClose (rc_x E) a (rs_x s);
               Some (if closed \<noteq> FPGA_OK then FPGA_RECONF_ERROR else result, x)
             });
        Some (result, s\<lparr>rs_x := xunlock (rc_x E) x\<rparr>)
      })
   }"

end
