(* ===== verification/Xfpga_Reconf_Correct.thy ===== *)
theory Xfpga_Reconf_Correct
  imports Xfpga_Reconf Xfpga_Correct
begin

section \<open>Correctness of reconfiguration\<close>

text \<open>
  What reaches the driver: one request at most, for the bytes behind the header, and only after the
  header and the interface id have been checked. What is opened along the way is closed again. When the
  header promises more metadata than the caller's memory holds, they are read all the same.
\<close>

subsection \<open>The two halves of a GUID\<close>

lemma bit_le_value:
  "length bs \<le> 8 \<Longrightarrow> bit (le_value bs) n \<longleftrightarrow> n < 8 * length bs \<and> bit (bs ! (n div 8)) (n mod 8)"
proof (induction bs arbitrary: n)
  case (Cons b bs)
  have d: "le_value (b # bs) = (ucast b OR push_bit 8 (le_value bs))"
    unfolding le_value.simps by (rule disjunctive_add) (auto simp: bit_simps dest: bit_imp_le_length)
  have e: "bit (le_value (b # bs)) n \<longleftrightarrow> n < 64 \<and> (bit b n \<or> 8 \<le> n \<and> bit (le_value bs) (n - 8))"
    unfolding d by (auto simp: bit_simps dest: bit_imp_le_length)
  show ?case
  proof (cases "n < 8")
    case True
    then show ?thesis unfolding e by simp
  next
    case False
    then have i: "n div 8 = Suc ((n - 8) div 8)" "n mod 8 = (n - 8) mod 8"
      by (simp_all add: le_div_geq le_mod_geq)
    have nb: "\<not> bit b n" using False bit_imp_le_length [of b n] by auto
    have l: "n - 8 < 8 * length bs \<longleftrightarrow> n < 8 * length (b # bs)" "n < 8 * length (b # bs) \<longrightarrow> n < 64"
      using False Cons.prems by auto
    have "bit (le_value (b # bs)) n \<longleftrightarrow> n < 64 \<and> n - 8 < 8 * length bs \<and> bit (bs ! ((n - 8) div 8)) ((n - 8) mod 8)"
      using e nb False Cons.IH [of "n - 8"] Cons.prems by (simp only: not_less simp_thms) simp
    also have "\<dots> \<longleftrightarrow> n < 8 * length (b # bs) \<and> bit ((b # bs) ! (n div 8)) (n mod 8)"
      unfolding i nth_Cons_Suc using l by blast
    finally show ?thesis .
  qed
qed simp

lemma bit_be_to_le: "bit (int64_be_to_le x) n \<longleftrightarrow> n < 64 \<and> bit x (8 * (7 - n div 8) + n mod 8)"
proof (cases "n < 64")
  case True
  then have "n \<in> {0..<64}" by simp
  then have "n \<in> set [0..<64]" by simp
  then show ?thesis
    unfolding int64_be_to_le_def Let_def upt_conv_Cons
    by (simp add: upt_rec) (elim disjE; simp add: bit_simps; simp add: numeral_eq_Suc)
qed (auto dest: bit_imp_le_length)

lemma be_to_le_rev: "length bs = 8 \<Longrightarrow> int64_be_to_le (le_value bs) = le_value (rev bs)"
proof (rule bit_word_eqI)
  fix n
  assume l: "length bs = 8" and "n < LENGTH(64)"
  then have n: "n < 64" "n div 8 < 8" "n mod 8 < 8" by simp_all
  then have d: "(8 * (7 - n div 8) + n mod 8) div 8 = 7 - n div 8" "(8 * (7 - n div 8) + n mod 8) mod 8 = n mod 8" by simp_all
  have "8 * (7 - n div 8) + n mod 8 < 64" using n by linarith
  then show "bit (int64_be_to_le (le_value bs)) n = bit (le_value (rev bs)) n"
    using l n d by (simp add: bit_be_to_le bit_le_value rev_nth)
qed

lemma le_value_inj:
  assumes "length as = 8" "length bs = 8" "le_value as = le_value bs"
  shows "as = bs"
proof (rule nth_equalityI)
  fix i
  assume "i < length as"
  then have i: "i < 8" using assms(1) by simp
  show "as ! i = bs ! i"
  proof (rule bit_word_eqI)
    fix k
    assume "k < LENGTH(8)"
    then have k: "k < 8" "(8 * i + k) div 8 = i" "(8 * i + k) mod 8 = k" by simp_all
    have "8 * i + k < 64" using i k(1) by linarith
    then have e: "length xs = 8 \<Longrightarrow> bit (le_value xs) (8 * i + k) = bit (xs ! i) k" for xs
      using k by (simp add: bit_le_value)
    show "bit (as ! i) k = bit (bs ! i) k"
      unfolding e [OF assms(1), symmetric] e [OF assms(2), symmetric] assms(3) ..
  qed
qed (simp add: assms)

lemma guid_halves_inj:
  assumes "length g = 16" "length g' = 16" "guid_halves g = guid_halves g'"
  shows "g = g'"
proof -
  have "le_value (rev (take 8 g)) = le_value (rev (take 8 g'))"
    "le_value (rev (take 8 (drop 8 g))) = le_value (rev (take 8 (drop 8 g')))"
    using assms by (simp_all add: guid_halves_def be_to_le_rev)
  then have "take 8 g = take 8 g'" "drop 8 g = drop 8 g'"
    using assms(1,2) le_value_inj [of "rev (take 8 g)" "rev (take 8 g')"]
      le_value_inj [of "rev (take 8 (drop 8 g))" "rev (take 8 (drop 8 g'))"] by simp_all
  then show ?thesis by (metis append_take_drop_id)
qed

subsection \<open>Requests to reconfigure\<close>

fun is_pr :: "xcall \<Rightarrow> bool" where
  "is_pr (X_ioctl d fd (Fme_port_pr port sz addr)) = True"
| "is_pr _ = False"

definition prs :: "xfpga \<Rightarrow> xcall list" where
  "prs x = filter is_pr (xf_calls x)"

lemma prs_xsys: "\<not> is_pr c \<Longrightarrow> xsys E c x = (r, x') \<Longrightarrow> prs x' = prs x"
  by (auto simp: xsys_def prs_def)

lemma prs_snd_xsys [simp]: "\<not> is_pr c \<Longrightarrow> prs (snd (xsys E c x)) = prs x"
  by (simp add: xsys_def prs_def)

lemma prs_upd [simp]:
  "prs (x\<lparr>xf_brk := b\<rparr>) = prs x" "prs (x\<lparr>xf_handles := h\<rparr>) = prs x" "prs (x\<lparr>xf_tokens := t\<rparr>) = prs x"
  by (simp_all add: prs_def)

lemma prs_upd_xhandle [simp]: "prs (upd_xhandle p f x) = prs x"
  by (simp add: upd_xhandle_def)

lemma prs_xunlock [simp]: "prs (xunlock E x) = prs x"
  by (simp add: xunlock_def)

lemma prs_lock: "xhandle_check_and_lock E p x = Some (r, x') \<Longrightarrow> prs x' = prs x"
  by (auto simp: xhandle_check_and_lock_def xunlock_def xsys_def prs_def split: if_splits Option.bind_splits)

lemma prs_open: "xfpga_fpgaOpen E t b fl x = Some (r, out, x') \<Longrightarrow> prs x' = prs x"
  by (auto simp: xfpga_fpgaOpen_def xmalloc_def tracker_init_def open_device_def xsys_def prs_def
    split: if_splits Option.bind_splits option.splits prod.splits)

lemma prs_unmap [simp]: "prs (unmap_mmio_region E e x) = prs x"
  by (simp add: unmap_mmio_region_def)

lemma cleanup_keeps:
  assumes "\<And>e x. f (g e x) = f x"
  shows "f (wsid_tracker_cleanup t (Some g) x) = f x"
proof -
  have b: "f (cleanup_bucket (Some g) es x) = f x" for es x
    by (induction es arbitrary: x) (simp_all add: assms)
  have "f (cleanup_table (Some g) bs x) = f x" for bs
    by (induction bs arbitrary: x) (simp_all add: b)
  then show ?thesis by (simp add: wsid_tracker_cleanup_def split: option.split)
qed

lemma cleanup_none: "wsid_tracker_cleanup t None x = x"
proof -
  have b: "cleanup_bucket None es x = x" for es and x :: 'a by (induction es arbitrary: x) simp_all
  have "cleanup_table None bs x = x" for bs by (induction bs arbitrary: x) (simp_all add: b)
  then show ?thesis by (simp add: wsid_tracker_cleanup_def split: option.split)
qed

lemma prs_ioctl: "opae_ioctl E d fd req x = (r, x') \<Longrightarrow> (\<And>p sz a. req \<noteq> Fme_port_pr p sz a) \<Longrightarrow> prs x' = prs x"
  by (cases req) (auto simp: opae_ioctl_def xsys_def prs_def split: prod.splits)

lemma prs_umsg_calls:
  "opae_port_umsg_disable E fd x = (r, x') \<Longrightarrow> prs x' = prs x"
  "opae_port_umsg_set_base_addr E fd fl io x = (r, x') \<Longrightarrow> prs x' = prs x"
  "opae_port_unmap E fd io x = (r, x') \<Longrightarrow> prs x' = prs x"
  by (cases "xf_io x"; cases "the (xf_io x)";
      force simp: drv_defs prs_def split: if_splits option.splits)+

lemma prs_free_buffer: "free_buffer E a l x = (i, x') \<Longrightarrow> prs x' = prs x"
  by (auto simp: free_buffer_def xsys_def prs_def)

lemma prs_free_umsg: "free_umsg_buffer E p x = Some (r, out, x') \<Longrightarrow> prs x' = prs x"
  by (auto simp: free_umsg_buffer_def with_xhandle_def dest!: prs_lock prs_umsg_calls prs_free_buffer
    split: if_splits Option.bind_splits prod.splits)

lemma prs_close: "xfpga_fpgaClose E p x = Some (r, x') \<Longrightarrow> prs x' = prs x"
  by (auto simp: xfpga_fpgaClose_def Let_def cleanup_none cleanup_keeps [where f = prs] dest!: prs_lock prs_free_umsg
    split: if_splits Option.bind_splits)

subsection \<open>What the checks establish\<close>

lemma rc_do_keeps: "rc_do E c s = (r, s') \<Longrightarrow> prs (rs_x s') = prs (rs_x s)"
  by (auto simp: rc_do_def)

lemma rc_malloc_keeps: "rc_malloc E s = (ok, s') \<Longrightarrow> prs (rs_x s') = prs (rs_x s)"
  by (auto simp: rc_malloc_def dest: prs_xsys [rotated] split: prod.splits)

lemma get_interface_id_keeps: "get_interface_id E p s = Some (r, gid, s') \<Longrightarrow> prs (rs_x s') = prs (rs_x s)"
  by (auto simp: get_interface_id_def dest: rc_do_keeps split: if_splits Option.bind_splits prod.splits)

lemma check_interface_id_keeps: "check_interface_id E p m l h s = Some (r, s') \<Longrightarrow> prs (rs_x s') = prs (rs_x s)"
  by (auto simp: check_interface_id_def dest: get_interface_id_keeps split: if_splits Option.bind_splits)

text \<open>The interface id in the metadata, when their magic number is the right one.\<close>

definition metadata_interface :: "'d rc_env \<Rightarrow> u8 list \<Rightarrow> u32 \<Rightarrow> u8 list option" where
  "metadata_interface E bs json_len = do {
     str \<leftarrow> json_metadata bs json_len;
     root \<leftarrow> json_root E str;
     afu_image \<leftarrow> json_get root ''afu-image'';
     magic_no \<leftarrow> json_pointer (json_get afu_image ''magic-no'');
     interface_id \<leftarrow> json_pointer (json_get afu_image ''interface-uuid'');
     id \<leftarrow> json_object_get_string E interface_id;
     (if word_of_int (json_object_get_int E magic_no) = FPGA_GBS_6_3_0_MAGIC then rc_uuid_parse E (json_cstring id) else None)
   }"

lemma check_interface_id_OK:
  assumes "check_interface_id E p m l h s = Some (FPGA_OK, s')" "xf_handles (rs_x s) p = Some hh"
  shows "m = FPGA_GBS_6_3_0_MAGIC \<and> (\<exists>log. rc_ans E log (RC_interface_id (xh_token hh)) = FPGA_OK \<and> guid_halves (rc_guid E log) = (l, h))"
  using assms by (auto simp: check_interface_id_def get_interface_id_def rc_do_def split: if_splits Option.bind_splits)

text \<open>What a bitstream is that has passed the checks for the handle \<open>h\<close>, with the length field \<open>l\<close>.\<close>

definition checked :: "'d rc_env \<Rightarrow> xfpga_handle \<Rightarrow> u8 list \<Rightarrow> u32 \<Rightarrow> bool" where
  "checked E h bs l \<longleftrightarrow> rc_uuid_parse E (json_cstring METADATA_GUID) = Some (take METADATA_GUID_LEN bs) \<and>
     json_len_field bs = Some l \<and> unat l < METADATA_MAX_LEN \<and>
     (l \<noteq> 0 \<longrightarrow> METADATA_GUID_LEN + 4 + unat l \<le> length bs \<and>
       (\<exists>log. rc_ans E log (RC_interface_id (xh_token h)) = FPGA_OK \<and> metadata_interface E bs l = Some (rc_guid E log)))"

text \<open>A GUID has 16 bytes, from sysfs and from the UUID library.\<close>

definition guids :: "'d rc_env \<Rightarrow> bool" where
  "guids E \<longleftrightarrow> (\<forall>log. length (rc_guid E log) = 16) \<and> (\<forall>str g. rc_uuid_parse E str = Some g \<longrightarrow> length g = 16)"

lemma guid_OK:
  "check_bitstream_guid E bs = Some FPGA_OK \<longleftrightarrow> METADATA_GUID_LEN \<le> length bs \<and>
     rc_uuid_parse E (json_cstring METADATA_GUID) = Some (take METADATA_GUID_LEN bs)"
  by (auto simp: check_bitstream_guid_def string_to_guid_def split: option.splits if_splits)

lemma metadata_keeps: "validate_bitstream_metadata E p bs s = Some (r, s') \<Longrightarrow> prs (rs_x s') = prs (rs_x s)"
  by (auto simp: validate_bitstream_metadata_def dest!: check_interface_id_keeps rc_malloc_keeps
    split: if_splits Option.bind_splits prod.splits option.splits)

lemma rc_malloc_handles: "rc_malloc E s = (ok, s') \<Longrightarrow> xf_handles (rs_x s') = xf_handles (rs_x s)"
  by (auto simp: rc_malloc_def xsys_def)

lemma metadata_OK:
  assumes "validate_bitstream_metadata E p bs s = Some (FPGA_OK, s')" "xf_handles (rs_x s) p = Some h" "guids E"
  shows "\<exists>l. checked E h bs l"
proof -
  have g: "check_bitstream_guid E bs = Some FPGA_OK"
    using assms(1) by (auto simp: validate_bitstream_metadata_def split: if_splits Option.bind_splits)
  then obtain l where l: "json_len_field bs = Some l"
    using assms(1) by (auto simp: validate_bitstream_metadata_def split: if_splits Option.bind_splits)
  have "checked E h bs l"
  proof (cases "l = 0")
    case True
    with g l show ?thesis by (simp add: checked_def guid_OK METADATA_MAX_LEN_def)
  next
    case False
    obtain ok s1 where m: "rc_malloc E s = (ok, s1)" by fastforce
    with assms(1) g l False have len: "unat l < METADATA_MAX_LEN" and ok: ok
      by (auto simp: validate_bitstream_metadata_def split: if_splits)
    obtain str root afu magic iface ident guid where v: "json_metadata bs l = Some str" "json_root E str = Some root"
        "json_get root ''afu-image'' = Some afu" "json_pointer (json_get afu ''magic-no'') = Some magic"
        "json_pointer (json_get afu ''interface-uuid'') = Some iface" "json_object_get_string E iface = Some ident"
        "rc_uuid_parse E (json_cstring ident) = Some guid"
        "check_interface_id E p (word_of_int (json_object_get_int E magic)) (fst (guid_halves guid)) (snd (guid_halves guid)) s1 =
          Some (FPGA_OK, s')"
      using assms(1) g l False m len ok
      by (auto simp: validate_bitstream_metadata_def string_to_guid_def split: if_splits Option.bind_splits option.splits prod.splits)
    have "xf_handles (rs_x s1) p = Some h" using rc_malloc_handles [OF m] assms(2) by simp
    from check_interface_id_OK [OF v(8) this] obtain log where c: "rc_ans E log (RC_interface_id (xh_token h)) = FPGA_OK"
        "guid_halves (rc_guid E log) = guid_halves guid" "word_of_int (json_object_get_int E magic) = FPGA_GBS_6_3_0_MAGIC"
      by auto
    have "rc_guid E log = guid"
      using assms(3) v(7) by (intro guid_halves_inj [OF _ _ c(2)]) (auto simp: guids_def)
    note c = c(1,3) this
    have "METADATA_GUID_LEN + 4 + unat l \<le> length bs"
      using v(1) False by (auto simp: json_metadata_def Let_def not_less le_diff_conv2 unat_gt_0 split: if_splits)
        (metis le_diff_conv2 diff_is_0_eq' le_zero_eq linear unat_eq_zero add.commute)
    then show ?thesis
      using g l len v(1-7) c by (auto simp: checked_def guid_OK metadata_interface_def)
  qed
  then show ?thesis by blast
qed

lemma json_len_16: "json_len_field bs = Some l \<Longrightarrow> METADATA_GUID_LEN \<le> length bs"
  by (auto simp: json_len_field_def read_int_from_bitstream_def METADATA_GUID_LEN_def split: if_splits)

lemma checked_guid: "checked E h bs l \<Longrightarrow> check_bitstream_guid E bs = Some FPGA_OK"
  by (simp add: checked_def guid_OK json_len_16)

lemma header_len:
  assumes "check_bitstream_guid E bs = Some FPGA_OK" "json_len_field bs = Some l" "unat l < METADATA_MAX_LEN"
  shows "get_bitstream_header_len E (Some bs) = Some (int (20 + unat l))"
proof -
  have "20 + unat l < 2 ^ 31" using assms(3) by (simp add: METADATA_MAX_LEN_def del: unsigned_less)
  then have "int (20 + unat l) < 2 ^ 31" by (simp only: of_nat_less_numeral_power_cancel_iff)
  then have "sint (word_of_nat (20 + unat l) :: u32) = int (20 + unat l)"
    by (simp only: signed_of_nat) (simp add: signed_take_bit_int_eq_self)
  with assms(1,2) show ?thesis by (simp add: get_bitstream_header_len_def METADATA_GUID_LEN_def)
qed

lemma validate_keeps:
  "validate_bitstream E p bs len s = Some (r, n, s') \<Longrightarrow> prs (rs_x s') = prs (rs_x s)"
  by (auto simp: validate_bitstream_def dest: metadata_keeps split: option.splits if_splits Option.bind_splits)

lemma validate_OK:
  assumes "validate_bitstream E p bitstream len s = Some (FPGA_OK, n, s')" "xf_handles (rs_x s) p = Some h" "guids E"
  shows "\<exists>bs l. bitstream = Some bs \<and> checked E h bs l \<and> n = int (20 + unat l)"
proof -
  obtain bs r where 1: "bitstream = Some bs" "get_bitstream_header_len E (Some bs) = Some n"
      "validate_bitstream_metadata E p bs s = Some (FPGA_OK, s')"
    using assms(1) by (auto simp: validate_bitstream_def split: option.splits if_splits Option.bind_splits)
  from metadata_OK [OF 1(3) assms(2,3)] obtain l where l: "checked E h bs l" by blast
  with header_len [OF checked_guid [OF l], of l] 1 show ?thesis by (auto simp: checked_def)
qed

lemma find_accel_keeps: "find_accel E s = Some (r, a, s') \<Longrightarrow> prs (rs_x s') = prs (rs_x s)"
  by (auto simp: find_accel_def rc_enumerate_def rc_destroy_token_def Let_def dest!: rc_do_keeps prs_open
    split: if_splits Option.bind_splits prod.splits option.splits)

lemma open_accel_keeps: "open_accel E p s = Some (r, a, s') \<Longrightarrow> prs (rs_x s') = prs (rs_x s)"
  by (auto simp: open_accel_def dest!: rc_do_keeps find_accel_keeps split: if_splits Option.bind_splits prod.splits)

lemma clear_keeps: "clear_port_errors E p s = (r, s') \<Longrightarrow> prs (rs_x s') = prs (rs_x s)"
  by (auto simp: clear_port_errors_def Let_def dest!: rc_do_keeps split: if_splits prod.splits)

lemma set_clock_keeps: "set_afu_userclock E p hi lo s = (r, s') \<Longrightarrow> prs (rs_x s') = prs (rs_x s)"
  by (auto simp: set_afu_userclock_def dest!: rc_do_keeps split: if_splits prod.splits)

lemma read_metadata_keeps: "read_gbs_metadata E bs s = Some (r, md, s') \<Longrightarrow> prs (rs_x s') = prs (rs_x s)"
  by (auto simp: read_gbs_metadata_def dest!: rc_malloc_keeps split: if_splits Option.bind_splits prod.splits option.splits)

lemma userclock_keeps: "reconf_userclock E p bs fl s = Some (r, s') \<Longrightarrow> prs (rs_x s') = prs (rs_x s)"
  by (auto simp: reconf_userclock_def dest!: read_metadata_keeps set_clock_keeps split: if_splits Option.bind_splits option.splits)

text \<open>The request itself.\<close>

lemma reconf_slot_prs:
  assumes "reconf_slot E h slot addr len n s = (r, s')"
  shows "prs (rs_x s') = prs (rs_x s) \<and> r \<noteq> FPGA_OK \<or>
    (\<exists>d. xf_io (rs_x s) = Some d \<and> prs (rs_x s') =
       X_ioctl d (xh_fddev h) (Fme_port_pr slot (ucast (len - word_of_int n)) (addr + word_of_int n)) # prs (rs_x s) \<and>
       (r = FPGA_OK \<longleftrightarrow> xans (rc_x E) (xf_calls (rs_x s))
           (X_ioctl d (xh_fddev h) (Fme_port_pr slot (ucast (len - word_of_int n)) (addr + word_of_int n))) = 0 \<and>
         (d = Intel \<longrightarrow> status_reply (rc_x E) (xf_calls (rs_x s)) AND reconf_error_bits = 0)))"
proof (cases "xf_io (rs_x s)")
  case None
  then show ?thesis using assms
    by (auto simp: reconf_slot_def opae_fme_port_pr_def IOCTL_def split: if_splits)
next
  case (Some d)
  then show ?thesis using assms
    by (cases d) (auto simp: reconf_slot_def opae_fme_port_pr_def IOCTL_def intel_fme_port_pr_def dfl_fme_port_pr_def
      opae_ioctl_eq xsys_def prs_def Let_def split: if_splits)
qed

text \<open>
  The request for the bytes behind a header with the length field \<open>l\<close>, and what the driver answers when it
  succeeds.
\<close>

definition pr_request :: "driver \<Rightarrow> xfpga_handle \<Rightarrow> u32 \<Rightarrow> u64 \<Rightarrow> u64 \<Rightarrow> u32 \<Rightarrow> xcall" where
  "pr_request d h slot addr len l =
     X_ioctl d (xh_fddev h) (Fme_port_pr slot (ucast (len - (20 + ucast l))) (addr + (20 + ucast l)))"

definition pr_succeeds :: "xenv \<Rightarrow> driver \<Rightarrow> xcall \<Rightarrow> bool" where
  "pr_succeeds E d c \<longleftrightarrow> (\<exists>cs. xans E cs c = 0 \<and> (d = Intel \<longrightarrow> status_reply E cs AND reconf_error_bits = 0))"

lemma reconf_locked_requests:
  assumes "reconf_locked E fpga h slot bitstream len flags s = Some (r, a, s')" "xf_handles (rs_x s) fpga = Some h" "guids E"
  shows "prs (rs_x s') = prs (rs_x s) \<and> r \<noteq> FPGA_OK \<or>
    (\<exists>d addr bs l. bitstream = Some (addr, bs) \<and> checked E h bs l \<and>
       prs (rs_x s') = pr_request d h slot addr len l # prs (rs_x s) \<and>
       (r = FPGA_OK \<longrightarrow> pr_succeeds (rc_x E) d (pr_request d h slot addr len l)))"
proof (cases "xh_fddev h < 0")
  case True
  with assms(1) show ?thesis by (simp add: reconf_locked_def)
next
  case False
  obtain r1 n s1 where 1: "validate_bitstream E fpga (map_option snd bitstream) len s = Some (r1, n, s1)"
    using assms(1) False by (auto simp: reconf_locked_def split: Option.bind_splits)
  note k1 = validate_keeps [OF 1]
  show ?thesis
  proof (cases "r1 = FPGA_OK")
    case False
    with \<open>\<not> xh_fddev h < 0\<close> 1 assms(1) k1 show ?thesis by (auto simp: reconf_locked_def)
  next
    case True
    obtain addr bs l where b: "bitstream = Some (addr, bs)" "checked E h bs l" "n = int (20 + unat l)"
      using validate_OK [OF 1 [unfolded True] assms(2,3)] by (auto simp: map_option_case split: option.splits)
    obtain r2 a2 s2 where 2: "(if flags AND FPGA_RECONF_FORCE = 0 then open_accel E fpga s1 else Some (FPGA_OK, None, s1)) =
        Some (r2, a2, s2)"
      using assms(1) False 1 True by (auto simp: reconf_locked_def split: Option.bind_splits)
    have k2: "prs (rs_x s2) = prs (rs_x s1)" using 2 open_accel_keeps by (auto split: if_splits)
    show ?thesis
    proof (cases "r2 = FPGA_OK")
      case False
      with \<open>\<not> xh_fddev h < 0\<close> 1 True 2 assms(1) k1 k2 show ?thesis by (auto simp: reconf_locked_def)
    next
      case ok2: True
      obtain rc s3 where 3: "clear_port_errors E fpga s2 = (rc, s3)" by fastforce
      obtain r4 s4 where 4: "reconf_userclock E fpga (Some bs) flags s3 = Some (r4, s4)"
        using assms(1) False 1 True 2 ok2 3 b(1) by (auto simp: reconf_locked_def split: Option.bind_splits)
      note k = k1 k2 clear_keeps [OF 3] userclock_keeps [OF 4]
      show ?thesis
      proof (cases "r4 = FPGA_OK")
        case False
        with \<open>\<not> xh_fddev h < 0\<close> 1 True 2 ok2 3 4 b(1) assms(1) k show ?thesis by (auto simp: reconf_locked_def)
      next
        case ok4: True
        obtain r5 s5 where 5: "reconf_slot E h slot addr len n s4 = (r5, s5)" by fastforce
        have e: "r = r5" "s' = s5" using assms(1) False 1 True 2 ok2 3 4 ok4 5 b(1) by (auto simp: reconf_locked_def)
        have n: "word_of_int n = (20 + ucast l :: u64)" using b(3) by simp
        show ?thesis
          using reconf_slot_prs [OF 5] b k unfolding e n pr_request_def pr_succeeds_def by auto
      qed
    qed
  qed
qed

subsection \<open>What is opened along the way\<close>

text \<open>\<open>added E x a x'\<close>: the handle \<open>a\<close>, if any, is new, shares no buffer yet, and is all that has been acquired.\<close>

definition added :: "xenv \<Rightarrow> xfpga \<Rightarrow> ptr option \<Rightarrow> xfpga \<Rightarrow> bool" where
  "added E x a x' \<longleftrightarrow> xf_io x' = xf_io x \<and> xf_ctr x' = xf_ctr x \<and> xf_brk x \<le> xf_brk x' \<and>
     (case a of
        None \<Rightarrow> xf_handles x' = xf_handles x \<and> (\<forall>r. xbalance E (xf_calls x') r = xbalance E (xf_calls x) r)
      | Some q \<Rightarrow> (\<exists>h. xf_brk x \<le> q \<and> q < xf_brk x' \<and> xf_handles x' = (xf_handles x)(q \<mapsto> h) \<and>
          xhandle_ok E (xf_ctr x) h \<and> entries (xh_wsid_root h) = {#} \<and>
          (\<forall>r. xbalance E (xf_calls x') r = xbalance E (xf_calls x) r + xowned h r)))"

lemma added_refl [simp]: "added E x None x"
  by (simp add: added_def)

lemma added_trans: "added E x None y \<Longrightarrow> added E y a z \<Longrightarrow> added E x a z"
  by (auto simp: added_def split: option.splits)

lemma added_then: "added E x a y \<Longrightarrow> added E y None z \<Longrightarrow> added E x a z"
  by (auto simp: added_def split: option.splits)

lemma quiet_added: "xquiet E x x' \<Longrightarrow> added E x None x'"
  by (simp add: added_def xquietD)

lemma opened_added: "xopened E x r a x' \<Longrightarrow> added E x a x'"
  by (auto simp: xopened_def added_def)

lemma rc_do_x: "rc_do E c s = (r, s') \<Longrightarrow> rs_x s' = rs_x s"
  by (auto simp: rc_do_def)

lemma rc_malloc_added: "rc_malloc E s = (ok, s') \<Longrightarrow> added (rc_x E) (rs_x s) None (rs_x s')"
  by (auto simp: rc_malloc_def xsys_def added_def)

lemma check_interface_x: "check_interface_id E p m l h s = Some (r, s') \<Longrightarrow> rs_x s' = rs_x s"
  by (auto simp: check_interface_id_def get_interface_id_def dest: rc_do_x split: if_splits Option.bind_splits prod.splits)

lemma metadata_added: "validate_bitstream_metadata E p bs s = Some (r, s') \<Longrightarrow> added (rc_x E) (rs_x s) None (rs_x s')"
  by (auto simp: validate_bitstream_metadata_def dest!: check_interface_x rc_malloc_added
    split: if_splits Option.bind_splits prod.splits option.splits)

lemma validate_added: "validate_bitstream E p bs len s = Some (r, n, s') \<Longrightarrow> added (rc_x E) (rs_x s) None (rs_x s')"
  by (auto simp: validate_bitstream_def dest: metadata_added split: option.splits if_splits Option.bind_splits)

lemma enumerate_added: "rc_enumerate E s = (r, t, m, s') \<Longrightarrow> added (rc_x E) (rs_x s) None (rs_x s')"
  by (auto simp: rc_enumerate_def added_def Let_def dest!: rc_do_x split: prod.splits option.splits)

lemma destroy_token_added: "rc_destroy_token E t s = (r, s') \<Longrightarrow> added (rc_x E) (rs_x s) None (rs_x s')"
  by (auto simp: rc_destroy_token_def added_def dest!: rc_do_x split: prod.splits)

lemma clear_x: "clear_port_errors E p s = (r, s') \<Longrightarrow> rs_x s' = rs_x s"
  by (auto simp: clear_port_errors_def Let_def dest!: rc_do_x split: if_splits prod.splits)

lemma set_clock_x: "set_afu_userclock E p hi lo s = (r, s') \<Longrightarrow> rs_x s' = rs_x s"
  by (auto simp: set_afu_userclock_def dest!: rc_do_x split: if_splits prod.splits)

lemma userclock_added: "reconf_userclock E p bs fl s = Some (r, s') \<Longrightarrow> added (rc_x E) (rs_x s) None (rs_x s')"
  by (auto simp: reconf_userclock_def read_gbs_metadata_def dest!: rc_malloc_added set_clock_x
    split: if_splits Option.bind_splits option.splits prod.splits)

lemma slot_added: "reconf_slot E h slot addr len n s = (r, s') \<Longrightarrow> added (rc_x E) (rs_x s) None (rs_x s')"
  by (cases "xf_io (rs_x s)"; cases "the (xf_io (rs_x s))")
    (auto simp: reconf_slot_def opae_fme_port_pr_def IOCTL_def intel_fme_port_pr_def dfl_fme_port_pr_def
      opae_ioctl_eq added_def Let_def split: if_splits prod.splits)

lemma find_accel_added:
  assumes "find_accel E s = Some (r, a, s')" "kind (rc_x E)" "NULL < xf_brk (rs_x s)"
  shows "added (rc_x E) (rs_x s) a (rs_x s')"
proof -
  obtain r1 t m s1 where 1: "rc_enumerate E s = (r1, t, m, s1)" by (metis prod_cases4)
  note a1 = enumerate_added [OF 1]
  have brk: "NULL < xf_brk (rs_x s1)" using a1 assms(3) by (simp add: added_def)
  show ?thesis
  proof (cases "r1 = FPGA_OK")
    case False
    with 1 a1 assms(1) show ?thesis by (auto simp: find_accel_def)
  next
    case True
    obtain r2 a2 s2 where 2: "(if m = 0 then Some (FPGA_BUSY, None, s1)
           else do {
             (result, accel, x) \<leftarrow> xfpga_fpgaOpen (rc_x E) t True 0 (rs_x s1);
             Some (result, accel, s1\<lparr>rs_x := x\<rparr>)
           }) = Some (r2, a2, s2)"
      using assms(1) 1 True by (auto simp: find_accel_def simp del: if_split split: Option.bind_splits)
    obtain r3 s3 where 3: "rc_destroy_token E t s2 = (r3, s3)" by fastforce
    have e: "a = a2" "s' = s3" using assms(1) 1 True 2 3 by (simp_all add: find_accel_def)
    have "added (rc_x E) (rs_x s1) a2 (rs_x s2)"
    proof (cases "m = 0")
      case False
      then obtain x where "xfpga_fpgaOpen (rc_x E) t True 0 (rs_x s1) = Some (r2, a2, x)" "s2 = s1\<lparr>rs_x := x\<rparr>"
        using 2 by (auto split: Option.bind_splits)
      with opened_added [OF open_opened [OF assms(2) _ brk]] show ?thesis by simp
    qed (use 2 in simp)
    with added_then [OF added_trans [OF a1] destroy_token_added [OF 3]] show ?thesis unfolding e by blast
  qed
qed

lemma open_accel_added:
  assumes "open_accel E p s = Some (r, a, s')" "kind (rc_x E)" "NULL < xf_brk (rs_x s)"
  shows "added (rc_x E) (rs_x s) a (rs_x s')"
proof -
  consider (none) "a = None" "rs_x s' = rs_x s" | (found) s1 s2 r2 where "rs_x s1 = rs_x s" "find_accel E s1 = Some (r2, a, s2)"
      "rs_x s' = rs_x s2"
    using assms(1) by (auto simp: open_accel_def dest!: rc_do_x split: if_splits Option.bind_splits prod.splits)
  then show ?thesis
  proof cases
    case found
    with find_accel_added [OF found(2) assms(2)] assms(3) show ?thesis by simp
  qed simp
qed

lemma reconf_locked_added:
  assumes "reconf_locked E fpga h slot bitstream len flags s = Some (r, a, s')" "kind (rc_x E)" "NULL < xf_brk (rs_x s)"
  shows "added (rc_x E) (rs_x s) a (rs_x s')"
proof (cases "xh_fddev h < 0")
  case True
  with assms(1) show ?thesis by (simp add: reconf_locked_def)
next
  case False
  obtain r1 n s1 where 1: "validate_bitstream E fpga (map_option snd bitstream) len s = Some (r1, n, s1)"
    using assms(1) False by (auto simp: reconf_locked_def split: Option.bind_splits)
  note a1 = validate_added [OF 1]
  then have brk: "NULL < xf_brk (rs_x s1)" using assms(3) by (simp add: added_def)
  show ?thesis
  proof (cases "r1 = FPGA_OK")
    case r1: True
    obtain r2 a2 s2 where 2: "(if flags AND FPGA_RECONF_FORCE = 0 then open_accel E fpga s1 else Some (FPGA_OK, None, s1)) =
        Some (r2, a2, s2)"
      using assms(1) False 1 r1 by (auto simp: reconf_locked_def split: Option.bind_splits)
    have "added (rc_x E) (rs_x s1) a2 (rs_x s2)"
      using 2 open_accel_added [OF _ assms(2) brk] by (auto split: if_splits)
    note a2 = added_trans [OF a1 this]
    show ?thesis
    proof (cases "r2 = FPGA_OK")
      case r2: True
      obtain rc s3 where 3: "clear_port_errors E fpga s2 = (rc, s3)" by fastforce
      obtain r4 s4 where 4: "reconf_userclock E fpga (map_option snd bitstream) flags s3 = Some (r4, s4)"
        using assms(1) False 1 r1 2 r2 3 by (auto simp: reconf_locked_def split: Option.bind_splits)
      have a4: "added (rc_x E) (rs_x s) a2 (rs_x s4)"
        using added_then [OF a2] userclock_added [OF 4] clear_x [OF 3] by simp
      show ?thesis
      proof (cases "r4 = FPGA_OK")
        case r4: True
        obtain addr bs where b: "bitstream = Some (addr, bs)"
          using assms(1) False 1 r1 2 r2 3 4 r4 by (auto simp: reconf_locked_def split: Option.bind_splits)
        obtain r5 s5 where 5: "reconf_slot E h slot addr len n s4 = (r5, s5)" by fastforce
        have "a = a2" "s' = s5" using assms(1) False 1 r1 2 r2 3 4 r4 5 b by (auto simp: reconf_locked_def)
        with added_then [OF a4 slot_added [OF 5]] show ?thesis by simp
      next
        case r4: False
        with False 1 r1 2 r2 3 4 a4 assms(1) show ?thesis by (auto simp: reconf_locked_def)
      qed
    next
      case r2: False
      with False 1 r1 2 a2 assms(1) show ?thesis by (auto simp: reconf_locked_def)
    qed
  next
    case r1: False
    with False 1 a1 assms(1) show ?thesis by (auto simp: reconf_locked_def)
  qed
qed

subsection \<open>Properties\<close>

text \<open>
  C20. Whatever the caller passes, reconfiguring makes at most one request to the driver, on the descriptor of
  the handle and for the slot, and only when the bitstream has been checked: it starts with the GUID of the
  format, its metadata are shorter than 8192 bytes and lie in the caller's memory, and the interface id in them
  is the one the device reports. The request names exactly the bytes behind the header, and the result is
  FPGA_OK only when the driver accepted it and reported no error.
\<close>

theorem reconfigure_request:
  assumes "xfpga_fpgaReconfigureSlot E fpga slot bitstream len flags s = Some (r, s')" "guids E"
  shows "prs (rs_x s') = prs (rs_x s) \<and> r \<noteq> FPGA_OK \<or>
    (\<exists>h d addr bs l. xf_handles (rs_x s) fpga = Some h \<and> bitstream = Some (addr, bs) \<and> checked E h bs l \<and>
       prs (rs_x s') = pr_request d h slot addr len l # prs (rs_x s) \<and>
       (r = FPGA_OK \<longrightarrow> pr_succeeds (rc_x E) d (pr_request d h slot addr len l)))"
proof -
  obtain r1 x1 where 1: "xhandle_check_and_lock (rc_x E) fpga (rs_x s) = Some (r1, x1)"
    using assms by (auto simp: xfpga_fpgaReconfigureSlot_def split: Option.bind_splits)
  note k1 = prs_lock [OF 1]
  show ?thesis
  proof (cases "r1 = FPGA_OK")
    case False
    with assms 1 k1 show ?thesis by (auto simp: xfpga_fpgaReconfigureSlot_def)
  next
    case True
    obtain h where h: "xf_handles x1 fpga = Some h"
      using assms 1 True by (auto simp: xfpga_fpgaReconfigureSlot_def split: Option.bind_splits)
    have h0: "xf_handles (rs_x s) fpga = Some h"
      using 1 h by (auto simp: xhandle_check_and_lock_def xsys_def xunlock_def split: if_splits Option.bind_splits)
    obtain r2 a s2 where 2: "reconf_locked E fpga h slot bitstream len flags (s\<lparr>rs_x := x1\<rparr>) = Some (r2, a, s2)"
      using assms(1) 1 True h by (auto simp: xfpga_fpgaReconfigureSlot_def split: Option.bind_splits)
    have "prs (rs_x s') = prs (rs_x s2) \<and> (r = FPGA_OK \<longrightarrow> r2 = FPGA_OK)"
      using assms 1 True h 2 by (auto simp: xfpga_fpgaReconfigureSlot_def dest: prs_close split: Option.bind_splits option.splits if_splits)
    with reconf_locked_requests [OF 2 _ assms(2)] h h0 k1 show ?thesis by auto
  qed
qed

text \<open>
  C21. In an environment where memory never runs out, locks do not fail, unmapping and unmapping for DMA always
  succeed, and nothing is granted at address 0 (\<open>kind\<close>): whatever the caller passes and whichever other step fails,
  after reconfiguring no other handle is open than before, the accelerator that was opened to see that
  nobody uses it included, and everything the kernel granted on the way has been given back.
\<close>

theorem reconfigure_resources:
  assumes "xfpga_fpgaReconfigureSlot E fpga slot bitstream len flags s = Some (r, s')"
    and "kind (rc_x E)" "xplugin_ok (rc_x E) n (rs_x s)"
  shows "xf_handles (rs_x s') = xf_handles (rs_x s) \<and> xplugin_ok (rc_x E) n (rs_x s') \<and>
    (\<forall>res. xbalance (rc_x E) (xf_calls (rs_x s')) res = xbalance (rc_x E) (xf_calls (rs_x s)) res)"
proof -
  note ok = assms(3) [unfolded xplugin_ok_def]
  obtain r1 x1 where 1: "xhandle_check_and_lock (rc_x E) fpga (rs_x s) = Some (r1, x1)"
    using assms(1) by (auto simp: xfpga_fpgaReconfigureSlot_def split: Option.bind_splits)
  have a1: "added (rc_x E) (rs_x s) None x1"
  proof (cases "fpga = NULL")
    case False
    with 1 obtain h where "xf_handles (rs_x s) fpga = Some h"
      by (auto simp: xhandle_check_and_lock_def split: Option.bind_splits)
    with xlock_cases(1) [OF assms(2) 1 this] ok quiet_added show ?thesis by blast
  qed (use 1 in \<open>simp add: xhandle_check_and_lock_def\<close>)
  have "added (rc_x E) (rs_x s) None (rs_x s')"
  proof (cases "r1 = FPGA_OK")
    case False
    with assms(1) 1 a1 show ?thesis by (auto simp: xfpga_fpgaReconfigureSlot_def)
  next
    case True
    obtain h where h: "xf_handles x1 fpga = Some h"
      using assms(1) 1 True by (auto simp: xfpga_fpgaReconfigureSlot_def split: Option.bind_splits)
    obtain r2 a s2 where 2: "reconf_locked E fpga h slot bitstream len flags (s\<lparr>rs_x := x1\<rparr>) = Some (r2, a, s2)"
      using assms(1) 1 True h by (auto simp: xfpga_fpgaReconfigureSlot_def split: Option.bind_splits)
    have brk: "NULL < xf_brk x1" using a1 ok by (auto simp: added_def)
    have a2: "added (rc_x E) (rs_x s) a (rs_x s2)"
      using added_trans [OF a1] reconf_locked_added [OF 2 assms(2)] brk by simp
    show ?thesis
    proof (cases a)
      case None
      then have "rs_x s' = xunlock (rc_x E) (rs_x s2)"
        using assms(1) 1 True h 2 by (auto simp: xfpga_fpgaReconfigureSlot_def split: Option.bind_splits)
      with added_then [OF a2 [unfolded None] quiet_added [OF xunlock_quiet]] show ?thesis by simp
    next
      case (Some q)
      then obtain hq where q: "xf_io (rs_x s2) = xf_io (rs_x s)" "xf_ctr (rs_x s2) = xf_ctr (rs_x s)"
          "xf_brk (rs_x s) \<le> xf_brk (rs_x s2)" "xf_brk (rs_x s) \<le> q"
          "xf_handles (rs_x s2) = (xf_handles (rs_x s))(q \<mapsto> hq)" "xhandle_ok (rc_x E) (xf_ctr (rs_x s)) hq"
          "entries (xh_wsid_root hq) = {#}"
          "\<And>res. xbalance (rc_x E) (xf_calls (rs_x s2)) res = xbalance (rc_x E) (xf_calls (rs_x s)) res + xowned hq res"
        using a2 by (auto simp: added_def)
      obtain d where d: "xf_io (rs_x s2) = Some d" using ok q(1) by auto
      have "xf_handles (rs_x s2) q = Some hq" "q \<noteq> NULL" "xhandle_ok (rc_x E) (xf_ctr (rs_x s2)) hq" using q ok by auto
      from close_spent [OF assms(2) d this(1,3,2)] obtain x3 where
        3: "xfpga_fpgaClose (rc_x E) q (rs_x s2) = Some (FPGA_OK, x3)" "xf_io x3 = xf_io (rs_x s2)" "xf_brk x3 = xf_brk (rs_x s2)"
          "xf_ctr x3 = xf_ctr (rs_x s2)" "xf_handles x3 = (xf_handles (rs_x s2))(q := None)"
          "\<And>res. xbalance (rc_x E) (xf_calls x3) res =
             xbalance (rc_x E) (xf_calls (rs_x s2)) res - xowned hq res + buffers_owned hq res"
        by blast
      have e: "rs_x s' = xunlock (rc_x E) x3"
        using assms(1) 1 True h 2 Some 3(1) by (auto simp: xfpga_fpgaReconfigureSlot_def split: Option.bind_splits)
      have new: "xf_handles (rs_x s) q = None" using ok q(4) by (metis not_le option.exhaust)
      have "added (rc_x E) (rs_x s) None x3"
        using q 3 new by (simp add: added_def buffers_owned_def fun_upd_idem)
      from added_then [OF this quiet_added [OF xunlock_quiet]] show ?thesis unfolding e .
    qed
  qed
  then show ?thesis
    using ok by (auto simp: added_def xplugin_ok_def) (meson less_le_trans)
qed

text \<open>
  C22. When the header promises more metadata than the caller's memory holds, they are copied all the same:
  the length the caller states is never compared with them. Reconfiguring is then undefined, also for a
  caller that states the length of its memory.
\<close>

theorem reconfigure_overread:
  assumes "kind (rc_x E)" "fpga \<noteq> NULL" "xf_handles (rs_x s) fpga = Some h" "xh_magic h = FPGA_HANDLE_MAGIC" "0 \<le> xh_fddev h"
    and "rc_uuid_parse E (json_cstring METADATA_GUID) = Some (take METADATA_GUID_LEN bs)"
    and "json_len_field bs = Some l" "0 < unat l" "unat l < METADATA_MAX_LEN"
    and "length bs < METADATA_GUID_LEN + 4 + unat l" "20 < len"
  shows "xfpga_fpgaReconfigureSlot E fpga slot (Some (addr, bs)) len flags s = None"
proof -
  have lock: "xhandle_check_and_lock (rc_x E) fpga (rs_x s) = Some (FPGA_OK, (rs_x s)\<lparr>xf_calls := X_lock # xf_calls (rs_x s)\<rparr>)"
    using assms(1-4) by (simp add: xhandle_check_and_lock_def xsys_def kindD)
  have g: "check_bitstream_guid E bs = Some FPGA_OK" using assms(6) json_len_16 [OF assms(7)] by (simp add: guid_OK)
  have "length bs - (METADATA_GUID_LEN + 4) < unat l" using assms(8,10) by linarith
  then have "json_metadata bs l = None" by (simp add: json_metadata_def)
  moreover have "fst (rc_malloc E t)" for t by (simp add: rc_malloc_def xsys_def kindD [OF assms(1)])
  ultimately have "validate_bitstream_metadata E fpga bs t = None" for t
    using g assms(7-9) by (cases "rc_malloc E t") (auto simp: validate_bitstream_metadata_def dest: arg_cong [where f = fst])
  then have "validate_bitstream E fpga (Some bs) len t = None" for t
    using g assms(11) header_len [OF g assms(7,9)] by (simp add: validate_bitstream_def bitstream_header_bytes_def not_le not_less)
  then show ?thesis
    using lock assms(3,5) by (simp add: xfpga_fpgaReconfigureSlot_def reconf_locked_def)
qed

subsection \<open>An example\<close>

text \<open>A device with the interface id 7 7 7 ..., and a bitstream for it with two bytes of metadata and one of logic.\<close>

definition demo_metadata :: "nat json" where
  "demo_metadata = JObject [(''version'', JInt 1), (''afu-image'', JObject [(''magic-no'', JInt 0x1d1f8680),
     (''interface-uuid'', JString (replicate 36 CHR ''a'')), (''clock-frequency-high'', JInt 200),
     (''accelerator-clusters'', JArray [JObject [(''name'', JString ''nlb''),
        (''accelerator-type-uuid'', JString (replicate 36 CHR ''b''))]])])]"

definition demo_rc :: "nat rc_env" where
  "demo_rc = \<lparr>rc_x = demo_xenv, rc_ans = (\<lambda>log c. FPGA_OK), rc_guid = (\<lambda>log. replicate 16 7),
     rc_token = (\<lambda>log. Some demo_token), rc_matches = (\<lambda>log. 1),
     rc_errors = (\<lambda>log. 0), rc_errno = 0,
     rc_uuid_parse = (\<lambda>str. Some (if str = METADATA_GUID then valid_GBS_guid else replicate 16 7)),
     rc_json_parse = (\<lambda>str. Some demo_metadata), rc_json_text = (\<lambda>j. []), rc_json_int = (\<lambda>j. 0), rc_json_int64 = (\<lambda>j. 0),
     rc_json_double = (\<lambda>j. 0)\<rparr>"

definition demo_bitstream :: "u8 list" where
  "demo_bitstream = valid_GBS_guid @ [2, 0, 0, 0, 123, 125, 0xff]"

definition demo_rc_state :: rc_state where
  "demo_rc_state = \<lparr>rs_x = demo_opened Intel, rs_log = []\<rparr>"

lemma demo_guids: "guids demo_rc"
  by (simp add: guids_def demo_rc_def valid_GBS_guid_def)

lemma demo_guid_text: "json_cstring METADATA_GUID = METADATA_GUID"
  by (simp add: json_cstring_def METADATA_GUID_def)

lemma demo_guid: "check_bitstream_guid demo_rc demo_bitstream = Some FPGA_OK"
  by (simp add: guid_OK demo_guid_text METADATA_GUID_LEN_def)
    (simp add: demo_rc_def demo_bitstream_def valid_GBS_guid_def)

lemma demo_len: "json_len_field demo_bitstream = Some 2"
  by (simp add: json_len_field_def read_int_from_bitstream_def METADATA_GUID_LEN_def demo_bitstream_def valid_GBS_guid_def)

lemma demo_text: "\<exists>str. json_metadata demo_bitstream 2 = Some str"
  by (simp add: json_metadata_def METADATA_GUID_LEN_def demo_bitstream_def valid_GBS_guid_def)

lemma demo_uuid: "json_cstring (replicate 36 CHR ''a'') \<noteq> METADATA_GUID"
  by (simp add: json_cstring_def METADATA_GUID_def eval_nat_numeral)

lemma demo_magic: "word_of_int (json_object_get_int demo_rc (JInt 0x1d1f8680)) = FPGA_GBS_6_3_0_MAGIC"
  by (simp add: json_int_def FPGA_GBS_6_3_0_MAGIC_def)

lemma demo_metadata_valid:
  assumes "xf_handles (rs_x s) 2 = Some demo_h" "xf_tokens (rs_x s) 1 = Some demo_token"
  shows "\<exists>s'. validate_bitstream_metadata demo_rc 2 demo_bitstream s = Some (FPGA_OK, s') \<and>
    rs_x s' = (rs_x s)\<lparr>xf_calls := X_malloc # xf_calls (rs_x s)\<rparr>"
proof -
  obtain str where str: "json_metadata demo_bitstream 2 = Some str" using demo_text by blast
  have root: "json_root demo_rc str = Some demo_metadata" by (simp add: json_root_def json_pointer_def demo_rc_def demo_metadata_def)
  have uuid: "string_to_guid demo_rc (replicate 36 CHR ''a'') = (FPGA_OK, Some (replicate 16 7))"
    by (simp add: string_to_guid_def demo_rc_def demo_uuid)
  show ?thesis
    using assms str root demo_magic
    by (simp add: validate_bitstream_metadata_def demo_guid demo_len METADATA_MAX_LEN_def rc_malloc_def xsys_def demo_xenv_sel
        demo_metadata_def json_pointer_def uuid check_interface_id_def get_interface_id_def rc_do_def demo_h_def demo_token_def split: prod.split)
      (simp add: demo_rc_def demo_xenv_sel)
qed

lemma demo_validate:
  assumes "xf_handles (rs_x s) 2 = Some demo_h" "xf_tokens (rs_x s) 1 = Some demo_token"
  shows "\<exists>s'. validate_bitstream demo_rc 2 (Some demo_bitstream) 23 s = Some (FPGA_OK, 22, s') \<and>
    rs_x s' = (rs_x s)\<lparr>xf_calls := X_malloc # xf_calls (rs_x s)\<rparr>"
  using demo_metadata_valid [OF assms] header_len [OF demo_guid demo_len]
  by (auto simp: validate_bitstream_def bitstream_header_bytes_def demo_guid METADATA_MAX_LEN_def)

lemma demo_userclock:
  "\<exists>s'. reconf_userclock demo_rc 2 (Some demo_bitstream) flags s = Some (FPGA_OK, s') \<and>
    rs_x s' = (rs_x s)\<lparr>xf_calls := X_malloc # xf_calls (rs_x s)\<rparr>"
proof -
  obtain str where str: "json_metadata demo_bitstream 2 = Some str" using demo_text by blast
  have root: "json_root demo_rc str = Some demo_metadata" by (simp add: json_root_def json_pointer_def demo_rc_def demo_metadata_def)
  have "\<exists>md. read_afu_image demo_rc 0 (the (json_get demo_metadata ''afu-image'')) = Some (FPGA_OK, Some md)"
    by (simp add: demo_metadata_def read_afu_image_def copy_guid_def copy_name_def GUID_LEN_def AFU_NAME_LEN_def)
  then obtain md where md: "read_afu_image demo_rc 0 (the (json_get demo_metadata ''afu-image'')) = Some (FPGA_OK, Some md)" by blast
  have ok: "rc_ans demo_rc log c = FPGA_OK" "rc_json_double demo_rc j = 0" "rc_x demo_rc = demo_xenv" for log c j
    by (simp_all add: demo_rc_def)
  have "json_get demo_metadata ''version'' = Some (JInt 1)" "\<exists>j. json_get demo_metadata ''afu-image'' = Some j"
    by (simp_all add: demo_metadata_def)
  then show ?thesis
    using str root md
    by (auto simp: reconf_userclock_def get_bitstream_json_len_def demo_guid demo_len read_gbs_metadata_def METADATA_MAX_LEN_def
      rc_malloc_def xsys_def demo_xenv_sel ok set_afu_userclock_def rc_do_def)
qed

lemma demo_slot:
  assumes "xf_io (rs_x s) = Some Intel"
  shows "\<exists>s'. reconf_slot demo_rc demo_h slot addr len n s = (FPGA_OK, s') \<and> xf_handles (rs_x s') = xf_handles (rs_x s)"
  using assms by (simp add: reconf_slot_def opae_fme_port_pr_def IOCTL_def intel_fme_port_pr_def opae_ioctl_eq demo_rc_def demo_xenv_def
    reconf_error_bits_def)

lemma demo_forced:
  "\<exists>s'. xfpga_fpgaReconfigureSlot demo_rc 2 0 (Some (0x1000, demo_bitstream)) 23 FPGA_RECONF_FORCE demo_rc_state = Some (FPGA_OK, s')"
proof -
  let ?x = "(demo_opened Intel)\<lparr>xf_calls := X_lock # xf_calls (demo_opened Intel)\<rparr>"
  have lock: "xhandle_check_and_lock demo_xenv 2 (demo_opened Intel) = Some (FPGA_OK, ?x)"
    by (simp add: xhandle_check_and_lock_def xsys_def demo_opened_ok demo_xenv_sel demo_h_def)
  let ?s = "demo_rc_state\<lparr>rs_x := ?x\<rparr>"
  obtain s1 where 1: "validate_bitstream demo_rc 2 (Some demo_bitstream) 23 ?s = Some (FPGA_OK, 22, s1)"
      "rs_x s1 = ?x\<lparr>xf_calls := X_malloc # xf_calls ?x\<rparr>"
    using demo_validate [of ?s] by (auto simp: demo_opened_def demo_xfpga_def)
  obtain r2 s2 where 2: "clear_port_errors demo_rc 2 s1 = (r2, s2)" by fastforce
  obtain s3 where 3: "reconf_userclock demo_rc 2 (Some demo_bitstream) FPGA_RECONF_FORCE s2 = Some (FPGA_OK, s3)"
      "rs_x s3 = (rs_x s2)\<lparr>xf_calls := X_malloc # xf_calls (rs_x s2)\<rparr>"
    using demo_userclock by blast
  have "xf_io (rs_x s3) = Some Intel" using 1(2) 3(2) clear_x [OF 2] by (simp add: demo_opened_def demo_xfpga_def)
  from demo_slot [OF this] obtain s4 where 4: "reconf_slot demo_rc demo_h 0 0x1000 23 22 s3 = (FPGA_OK, s4)" by blast
  have "rc_x demo_rc = demo_xenv" "rs_x demo_rc_state = demo_opened Intel" "\<not> xh_fddev demo_h < 0"
    by (simp_all add: demo_rc_def demo_rc_state_def demo_h_def)
  then show ?thesis
    using lock 1(1) 2 3(1) 4
    by (simp add: xfpga_fpgaReconfigureSlot_def reconf_locked_def demo_opened_ok FPGA_RECONF_FORCE_def)
qed

lemma demo_rc_simps [simp]:
  "rc_x demo_rc = demo_xenv" "rs_x demo_rc_state = demo_opened Intel" "prs (demo_opened Intel) = []"
  by (simp_all add: demo_rc_def demo_rc_state_def prs_def demo_opened_def demo_xfpga_def)

theorem reconfigure_request_witness:
  "\<exists>s' d. xfpga_fpgaReconfigureSlot demo_rc 2 0 (Some (0x1000, demo_bitstream)) 23 FPGA_RECONF_FORCE demo_rc_state = Some (FPGA_OK, s') \<and>
     prs (rs_x s') = [pr_request d demo_h 0 0x1000 23 2]"
proof -
  obtain s' where s': "xfpga_fpgaReconfigureSlot demo_rc 2 0 (Some (0x1000, demo_bitstream)) 23 FPGA_RECONF_FORCE demo_rc_state =
      Some (FPGA_OK, s')"
    using demo_forced by blast
  from reconfigure_request [OF this demo_guids] s' show ?thesis
    by (auto simp: demo_opened_ok checked_def demo_len)
qed

lemma demo_plugin_ok: "xplugin_ok demo_xenv 1 (demo_opened Intel)"
  using demo_h_ok [of 0] by (auto simp: xplugin_ok_def demo_opened_def demo_xfpga_def)

theorem reconfigure_resources_witness:
  "\<exists>s'. xfpga_fpgaReconfigureSlot demo_rc 2 0 (Some (0x1000, demo_bitstream)) 23 FPGA_RECONF_FORCE demo_rc_state = Some (FPGA_OK, s') \<and>
     xf_handles (rs_x s') 2 = Some demo_h \<and> xbalance demo_xenv (xf_calls (rs_x s')) (X_dma 7 0x1000) = 0"
proof -
  obtain s' where s': "xfpga_fpgaReconfigureSlot demo_rc 2 0 (Some (0x1000, demo_bitstream)) 23 FPGA_RECONF_FORCE demo_rc_state =
      Some (FPGA_OK, s')"
    using demo_forced by blast
  from reconfigure_resources [OF this, unfolded demo_rc_simps, OF demo_kind demo_plugin_ok] s' show ?thesis
    by (simp add: demo_opened_ok) (simp add: demo_opened_def demo_xfpga_def)
qed

theorem reconfigure_overread_witness:
  "xfpga_fpgaReconfigureSlot demo_rc 2 0 (Some (0x1000, valid_GBS_guid @ [2, 0, 0, 0, 123])) 21 0 demo_rc_state = None"
proof (rule reconfigure_overread)
  show "kind (rc_x demo_rc)" by (simp add: demo_kind)
  show "xf_handles (rs_x demo_rc_state) 2 = Some demo_h" by (simp add: demo_opened_ok)
  show "rc_uuid_parse demo_rc (json_cstring METADATA_GUID) = Some (take METADATA_GUID_LEN (valid_GBS_guid @ [2, 0, 0, 0, 123]))"
    by (simp add: demo_guid_text METADATA_GUID_LEN_def) (simp add: demo_rc_def valid_GBS_guid_def)
  show "json_len_field (valid_GBS_guid @ [2, 0, 0, 0, 123]) = Some 2"
    by (simp add: json_len_field_def read_int_from_bitstream_def METADATA_GUID_LEN_def valid_GBS_guid_def)
qed (simp_all add: demo_h_def METADATA_MAX_LEN_def METADATA_GUID_LEN_def valid_GBS_guid_def)

end
