(* ===== verification/Spec2Isabelle.thy ===== *)
theory Spec2Isabelle
  imports Vfio_Plugin_Tokens Vfio_Plugin_Buffers Wsid_List Plugin_Correct Api_Correct Xfpga_Correct Bitstream_Correct
    Xfpga_Reconf_Correct
begin

text \<open>
  A model of the core of OPAE's user-space libraries, translated from the C sources function by
  function, with the theorems that make each part correct.

  \<^bold>\<open>The program.\<close> A client calls \<^verbatim>\<open>libopae-c\<close> (\<^verbatim>\<open>api-shell.c\<close>), which wraps tokens, handles and events
  together with the adapter table of the plugin they come from and forwards every call to that
  plugin. The plugin manager (\<^verbatim>\<open>pluginmgr.c\<close>) reads the configuration and loads the plugins. The plugin
  \<^verbatim>\<open>plugins/vfio\<close> opens devices through \<^verbatim>\<open>libopaevfio\<close>, which takes DMA addresses from the allocator
  \<^verbatim>\<open>libopaemem\<close>; the plugin \<^verbatim>\<open>plugins/xfpga\<close> talks to one of two kernel drivers and finds buffers and
  regions in the table of \<^verbatim>\<open>wsid_list.c\<close>. \<^verbatim>\<open>libbitstream\<close> loads the files with which a device is
  configured.

  \<^bold>\<open>Theories and sources.\<close>
  \<^item> \<open>Opae_Prelude\<close>: integer types, result codes, lemmas on words shared by the components.
  \<^item> \<open>Mem_Alloc\<close>: \<^verbatim>\<open>libopaemem/mem_alloc.c\<close>. A \<open>mem_alloc\<close> is the two linked lists. First-fit requests hand
    out free space that nobody else has, and blocks released in any order restore the state.
  \<^item> \<open>Vfio\<close>, \<open>Vfio_Correct\<close>: \<^verbatim>\<open>libopaevfio/opaevfio.c\<close>. The kernel is a parameter, the state is the trace of the
    system calls. Sessions release what they acquire; DMA windows of live buffers are disjoint.
  \<^item> \<open>Vfio_Plugin\<close>: \<^verbatim>\<open>plugins/vfio/opae_vfio.c\<close>, \<^verbatim>\<open>dfl.c\<close>. Stores from addresses to devices, tokens, handles
    and \<^verbatim>\<open>struct opae_vfio\<close> objects, and the global list of buffers. \<open>Vfio_Plugin_Correct\<close>: runs of the
    plugin and what they hold of the system; \<open>Vfio_Plugin_Tokens\<close>: tokens, registers, enumeration,
    termination; \<open>Vfio_Plugin_Buffers\<close>: buffers and their ids.
  \<^item> \<open>Opae_State\<close>: the heap of \<^verbatim>\<open>libopae-c\<close> and its objects (\<^verbatim>\<open>opae_int.h\<close>, \<^verbatim>\<open>props.h\<close>);
    \<open>Wrapped_Tokens\<close>: the wrapper functions of \<^verbatim>\<open>api-shell.c\<close>; \<open>Props\<close>: \<^verbatim>\<open>props.c\<close>, with the union as bytes;
    \<open>Plugin_Mgr\<close>, \<open>Plugin_Correct\<close>: \<^verbatim>\<open>pluginmgr.c\<close>.
  \<^item> \<open>Api_Shell\<close>: the entry points of \<^verbatim>\<open>api-shell.c\<close>; \<open>Api_Props\<close>, \<open>Api_Enum\<close>: the calls that fill properties
    and enumerate; \<open>Api_Client\<close>: the step relation of a client; \<open>Api_Correct\<close>: what holds in every state a
    client can reach (reference counts, no use of freed memory, no leak).
  \<^item> \<open>Wsid_List\<close>: \<^verbatim>\<open>plugins/xfpga/wsid_list.c\<close>, a hash table that refines a table of stacks.
  \<^item> \<open>Xfpga_Drv\<close>: \<^verbatim>\<open>plugins/xfpga/opae_drv.c\<close>, the table of driver functions; \<open>Xfpga_Handle\<close>: \<^verbatim>\<open>open.c\<close>, \<^verbatim>\<open>close.c\<close>,
    \<^verbatim>\<open>mmio.c\<close>, \<^verbatim>\<open>buffer.c\<close>, \<^verbatim>\<open>umsg.c\<close>, \<^verbatim>\<open>mmap.c\<close>, \<^verbatim>\<open>reset.c\<close>, \<^verbatim>\<open>hostif.c\<close>; \<open>Xfpga_Ledger\<close>, \<open>Xfpga_Runs\<close>: an account
    of what the kernel granted, kept by every operation; \<open>Xfpga_Correct\<close>: the properties.
  \<^item> \<open>Xfpga_Reconf\<close>, \<open>Xfpga_Reconf_Correct\<close>: \<^verbatim>\<open>plugins/xfpga/bitstream.c\<close>, \<^verbatim>\<open>reconf.c\<close>. A slot is reconfigured by at most
    one request, for a checked bitstream, and the accelerator opened on the way is closed on every path.
  \<^item> \<open>Bitstream\<close>, \<open>Bitstream_Correct\<close>: \<^verbatim>\<open>libbitstream\<close>. An explicit allocator; loading and unloading, the file
    format, bounds, and the checks of paths.

  \<^bold>\<open>How the code is modelled.\<close> A C structure is a record, a pointer to an object with an identity an address
  in a store (0 is NULL), an integer a word of its width. A call that touches freed memory, leaves
  a buffer, goes through NULL or does not end gives None; theorems say when the result is Some.
  Result codes, early returns and \<^verbatim>\<open>goto\<close> labels are branches. Locks are counters or calls, and each call of the
  library is one step: the model has no other interleaving. What lies outside the sources (the kernel,
  the C library's file system, json-c, libuuid, plugins loaded at run time) is an environment, an argument
  of the definitions; what is relied on is a named hypothesis, and a demonstration environment satisfies
  it in the witnesses.

  \<^bold>\<open>Loops and bounds.\<close> Loops over lists and arrays are structural. The walks that follow data of the device or the
  kernel (the list of capabilities in \<open>Vfio\<close>, device feature lists and the chain of parents in
  \<open>Vfio_Plugin\<close>) are partial functions whose results are proved to exist when the chain ends. The wait for a port
  reset has the count of the code. Reference counts have 32 bits, and a run is assumed not to reach
  \<open>2 ^ 32\<close> references.

  \<^bold>\<open>Not modelled.\<close> The constructor and the log of \<^verbatim>\<open>libopae-c\<close> and the sources of \<^verbatim>\<open>libopaeuio\<close> and \<^verbatim>\<open>libofs\<close>: file
  and timer I/O. In \<^verbatim>\<open>plugins/xfpga\<close>: enumeration, sysfs, errors, events, metrics and the user clock,
  which read and write files of the drivers, and whose frequency tables are generated. The C++
  and Python bindings, tests and build files. Real concurrency inside a call: each call takes its lock first
  and the theorems treat it as one step.
\<close>

end
